(* ===== verification/Prelude.thy ===== *)
theory Prelude
  imports Main "HOL-Library.Word" "HOL-Library.Multiset" "HOL-Library.AList" "HOL-Library.Sublist"
begin

text \<open>
  What every component of the model shares: C integers with their undefined overflow, C strings in
  fixed buffers, the searches of \<open>std::string\<close>, the contract of \<open>std::sort\<close> as a locale, and the
  lemma collections. Strings are lists of bytes (\<open>char\<close>); \<open>size_t\<close> and vector indices are \<open>nat\<close>;
  \<open>int\<close> values of the code are \<open>int\<close>, with \<open>c_int\<close> where their width matters.
\<close>

unbundle bit_operations_syntax

named_theorems inv_intros \<open>preservation lemmas of the component invariants\<close>
named_theorems cstr_simps \<open>facts about fixed-size character buffers\<close>

section \<open>C integers\<close>

definition INT_MAX :: int where "INT_MAX = 2147483647"

definition INT_MIN :: int where "INT_MIN = - 2147483648"

text \<open>A signed 32-bit result: \<open>None\<close> is the undefined behaviour of an overflow.\<close>

definition c_int :: "int \<Rightarrow> int option" where
  "c_int x = (if INT_MIN \<le> x \<and> x \<le> INT_MAX then Some x else None)"

text \<open>C division truncates towards zero and is undefined for a zero divisor.\<close>

definition trunc_div :: "int \<Rightarrow> int \<Rightarrow> int" where
  "trunc_div a b = sgn a * sgn b * (\<bar>a\<bar> div \<bar>b\<bar>)"

definition c_div :: "int \<Rightarrow> int \<Rightarrow> int option" where
  "c_div a b = (if b = 0 then None else c_int (trunc_div a b))"

lemma c_int_Some [simp]: "c_int x = Some y \<longleftrightarrow> y = x \<and> INT_MIN \<le> x \<and> x \<le> INT_MAX"
  by (auto simp: c_int_def)

lemma trunc_div_nonneg: "0 \<le> a \<Longrightarrow> 0 < b \<Longrightarrow> trunc_div a b = a div b"
  by (cases "a = 0") (auto simp: trunc_div_def)

section \<open>Errors as values\<close>

text \<open>Sequencing of fallible steps: the first error is the result.\<close>

definition bind_sum :: "'e + 'a \<Rightarrow> ('a \<Rightarrow> 'e + 'b) \<Rightarrow> 'e + 'b" where
  "bind_sum x f = (case x of Inl e \<Rightarrow> Inl e | Inr a \<Rightarrow> f a)"

lemma bind_sum_simps [simp]: "bind_sum (Inl e) f = Inl e" "bind_sum (Inr a) f = f a"
  by (simp_all add: bind_sum_def)

lemma bind_sum_Inr: "bind_sum x f = Inr b \<longleftrightarrow> (\<exists>a. x = Inr a \<and> f a = Inr b)"
  by (cases x) simp_all

lemma bind_sum_Inl: "bind_sum x f = Inl e \<longleftrightarrow> x = Inl e \<or> (\<exists>a. x = Inr a \<and> f a = Inl e)"
  by (cases x) simp_all

section \<open>Bytes and C strings\<close>

definition byte :: "char \<Rightarrow> nat" where "byte c = of_char c"

definition chr :: "nat \<Rightarrow> char" where "chr n = char_of n"

lemma byte_less [simp]: "byte c < 256"
  by (simp add: byte_def)

lemma chr_byte [simp]: "chr (byte c) = c"
  by (simp add: byte_def chr_def)

lemma byte_chr: "n < 256 \<Longrightarrow> byte (chr n) = n"
  by (simp add: byte_def chr_def)

lemma byte_inject [simp]: "byte c = byte d \<longleftrightarrow> c = d"
  by (simp add: byte_def)

definition ascii :: "string \<Rightarrow> bool" where
  "ascii s \<longleftrightarrow> (\<forall>c \<in> set s. byte c < 128)"

text \<open>\<open>tolower\<close> of the C locale.\<close>

definition lower_byte :: "char \<Rightarrow> char" where
  "lower_byte c = (if 65 \<le> byte c \<and> byte c \<le> 90 then chr (byte c - 65 + 97) else c)"

text \<open>\<open>c_str()\<close> as a C reader sees it, and \<open>snprintf(buf, n, "%s", s)\<close> with its truncation.\<close>

definition c_str :: "string \<Rightarrow> string" where
  "c_str s = takeWhile (\<lambda>c. c \<noteq> CHR 0x00) s"

definition snprintf_s :: "nat \<Rightarrow> string \<Rightarrow> string" where
  "snprintf_s n s = take (n - 1) (c_str s)"

lemma length_snprintf_s [cstr_simps]: "length (snprintf_s n s) \<le> n - 1"
  by (simp add: snprintf_s_def)

lemma c_str_no_nul: "CHR 0x00 \<notin> set s \<Longrightarrow> c_str s = s"
  unfolding c_str_def by (rule takeWhile_eq_all_conv [THEN iffD2]) auto

lemma snprintf_s_fits [cstr_simps]:
  "CHR 0x00 \<notin> set s \<Longrightarrow> length s < n \<Longrightarrow> snprintf_s n s = s"
  by (simp add: snprintf_s_def c_str_no_nul)

section \<open>Searches of std::string\<close>

text \<open>\<open>find\<close> of a substring and of a character, from a position; \<open>None\<close> is \<open>npos\<close>.\<close>

fun find_sub :: "string \<Rightarrow> string \<Rightarrow> nat option" where
  "find_sub pat [] = (if pat = [] then Some 0 else None)"
| "find_sub pat (c # cs) =
     (if prefix pat (c # cs) then Some 0 else map_option Suc (find_sub pat cs))"

definition str_find :: "string \<Rightarrow> string \<Rightarrow> nat \<Rightarrow> nat option" where
  "str_find s pat pos =
     (if pos \<le> length s then map_option ((+) pos) (find_sub pat (drop pos s)) else None)"

fun find_char :: "char \<Rightarrow> string \<Rightarrow> nat option" where
  "find_char c [] = None"
| "find_char c (d # ds) = (if d = c then Some 0 else map_option Suc (find_char c ds))"

definition str_find_char :: "string \<Rightarrow> char \<Rightarrow> nat \<Rightarrow> nat option" where
  "str_find_char s c pos = map_option ((+) pos) (find_char c (drop pos s))"

definition substr :: "string \<Rightarrow> nat \<Rightarrow> nat \<Rightarrow> string" where
  "substr s pos n = take n (drop pos s)"

lemma map_option_add [simp]:
  "map_option ((+) (0::nat)) x = x" "map_option Suc (map_option ((+) n) x) = map_option ((+) (Suc n)) x"
  by (cases x; simp)+

lemma find_char_append [simp]:
  "c \<notin> set xs \<Longrightarrow> find_char c (xs @ ys) = map_option ((+) (length xs)) (find_char c ys)"
  by (induction xs) auto

lemma find_char_hd [simp]: "find_char c (c # ys) = Some 0"
  by simp

lemma find_char_None [simp]: "find_char c xs = None \<longleftrightarrow> c \<notin> set xs"
  by (induction xs) auto

lemma find_sub_prefix [simp]: "find_sub pat (pat @ ys) = Some 0"
proof (cases "pat @ ys")
  case (Cons a list)
  then have "prefix pat (a # list)" by (metis prefixI)
  with Cons show ?thesis by simp
qed auto

lemma find_sub_Some:
  "find_sub pat s = Some i \<Longrightarrow> i + length pat \<le> length s \<and> take (length pat) (drop i s) = pat"
proof (induction s arbitrary: i)
  case (Cons c cs)
  show ?case
  proof (cases "prefix pat (c # cs)")
    case True
    with Cons.prems prefix_length_le [OF True] show ?thesis
      by (auto simp: prefix_def)
  next
    case False
    with Cons.prems obtain j where "find_sub pat cs = Some j" and "i = Suc j"
      by auto
    with Cons.IH [of j] show ?thesis by simp
  qed
qed (auto split: if_splits)

text \<open>A search that starts with a byte which the text before the match never contains.\<close>

lemma find_sub_skip:
  assumes "c \<notin> set xs" and "pat = c # p"
  shows "find_sub pat (xs @ ys) = map_option ((+) (length xs)) (find_sub pat ys)"
  using assms by (induction xs) auto

text \<open>Decimal digits, as \<open>std::to_string\<close> and \<open>operator<<\<close> print an int.\<close>

fun show_nat :: "nat \<Rightarrow> string" where
  "show_nat n = (if n < 10 then [chr (48 + n)] else show_nat (n div 10) @ [chr (48 + n mod 10)])"

declare show_nat.simps [simp del]

definition show_int :: "int \<Rightarrow> string" where
  "show_int i = (if i < 0 then CHR ''-'' # show_nat (nat (- i)) else show_nat (nat i))"

fun read_nat :: "string \<Rightarrow> nat" where
  "read_nat s = foldl (\<lambda>a c. 10 * a + (byte c - 48)) 0 s"

lemma byte_digit [simp]: "d < 10 \<Longrightarrow> byte (chr (48 + d)) = 48 + d"
  by (simp add: byte_chr)

lemma read_show_nat [simp]: "read_nat (show_nat n) = n"
proof (induction n rule: show_nat.induct)
  case (1 n)
  show ?case
  proof (cases "n < 10")
    case True
    then show ?thesis by (simp add: show_nat.simps [of n])
  next
    case False
    with 1 have "read_nat (show_nat (n div 10)) = n div 10" by simp
    with False show ?thesis by (simp add: show_nat.simps [of n])
  qed
qed

lemma show_nat_inject [simp]: "show_nat m = show_nat n \<longleftrightarrow> m = n"
  by (metis read_show_nat)

lemma show_nat_digits: "c \<in> set (show_nat n) \<Longrightarrow> 48 \<le> byte c \<and> byte c < 58"
proof (induction n rule: show_nat.induct)
  case (1 n)
  then show ?case
    by (cases "n < 10") (auto simp: show_nat.simps [of n])
qed

section \<open>The contract of std::sort\<close>

text \<open>
  \<open>std::sort\<close> is not stable: of the elements a comparator does not separate, any order is
  allowed. A sort is therefore an argument of the definitions that call it, and the locale states
  the standard's promise. \<open>std::partial_sort\<close> up to \<open>k\<close> leaves the first \<open>k\<close> of a sorted
  arrangement in front, so a caller that reads only those reads \<open>take k\<close> of a sort.
\<close>

definition strict_weak :: "('a \<Rightarrow> 'a \<Rightarrow> bool) \<Rightarrow> bool" where
  "strict_weak lt \<longleftrightarrow> (\<forall>a b. lt a b \<longrightarrow> \<not> lt b a) \<and>
     (\<forall>a b c. lt a c \<longrightarrow> lt a b \<or> lt b c)"

locale sorter =
  fixes srt :: "('a \<Rightarrow> 'a \<Rightarrow> bool) \<Rightarrow> 'a list \<Rightarrow> 'a list"
  assumes srt_perm: "mset (srt lt xs) = mset xs"
    and srt_sorted: "strict_weak lt \<Longrightarrow> sorted_wrt (\<lambda>a b. \<not> lt b a) (srt lt xs)"
begin

lemma set_srt [simp]: "set (srt lt xs) = set xs"
  using srt_perm [of lt xs] by (metis set_mset_mset)

lemma length_srt [simp]: "length (srt lt xs) = length xs"
  using srt_perm [of lt xs] by (metis size_mset)

lemma distinct_srt [simp]: "distinct (srt lt xs) = distinct xs"
  using srt_perm [of lt xs] by (metis mset_eq_imp_distinct_iff)

lemma distinct_map_srt: "distinct (map f (srt lt xs)) = distinct (map f xs)"
  using srt_perm [of lt xs] by (metis mset_eq_imp_distinct_iff mset_map)

lemma srt_by_key_desc:
  fixes f :: "'a \<Rightarrow> 'b::linorder"
  shows "sorted_wrt (\<lambda>a b. f a \<ge> f b) (srt (\<lambda>a b. f a > f b) xs)"
proof -
  have "strict_weak (\<lambda>a b. f a > f b)"
    by (auto simp: strict_weak_def)
  from srt_sorted [OF this] show ?thesis by (simp add: not_less)
qed

lemma srt_by_key_asc:
  fixes f :: "'a \<Rightarrow> 'b::linorder"
  shows "sorted_wrt (\<lambda>a b. f a \<le> f b) (srt (\<lambda>a b. f a < f b) xs)"
proof -
  have "strict_weak (\<lambda>a b. f a < f b)"
    by (auto simp: strict_weak_def)
  from srt_sorted [OF this] show ?thesis by (simp add: not_less)
qed

end

text \<open>An executable sort that keeps the promise: insertion sort.\<close>

fun ins_by :: "('a \<Rightarrow> 'a \<Rightarrow> bool) \<Rightarrow> 'a \<Rightarrow> 'a list \<Rightarrow> 'a list" where
  "ins_by lt x [] = [x]"
| "ins_by lt x (y # ys) = (if lt y x then y # ins_by lt x ys else x # y # ys)"

fun sort_by :: "('a \<Rightarrow> 'a \<Rightarrow> bool) \<Rightarrow> 'a list \<Rightarrow> 'a list" where
  "sort_by lt [] = []"
| "sort_by lt (x # xs) = ins_by lt x (sort_by lt xs)"

lemma mset_ins_by: "mset (ins_by lt x xs) = add_mset x (mset xs)"
  by (induction xs) auto

lemma mset_sort_by: "mset (sort_by lt xs) = mset xs"
  by (induction xs) (auto simp: mset_ins_by)

lemma set_ins_by: "set (ins_by lt x xs) = insert x (set xs)"
  by (induction xs) auto

lemma sorted_ins_by:
  assumes "strict_weak lt" and "sorted_wrt (\<lambda>a b. \<not> lt b a) xs"
  shows "sorted_wrt (\<lambda>a b. \<not> lt b a) (ins_by lt x xs)"
  using assms(2)
proof (induction xs)
  case (Cons y ys)
  from assms(1) have "\<not> lt z x" if "\<not> lt y x" and "\<not> lt z y" for z
    using that unfolding strict_weak_def by blast
  moreover from assms(1) have "\<not> lt x y" if "lt y x"
    using that unfolding strict_weak_def by blast
  ultimately show ?case
    using Cons by (auto simp: set_ins_by)
qed simp

lemma sorted_sort_by: "strict_weak lt \<Longrightarrow> sorted_wrt (\<lambda>a b. \<not> lt b a) (sort_by lt xs)"
  by (induction xs) (auto intro: sorted_ins_by)

interpretation isort: sorter sort_by
  by unfold_locales (auto simp: mset_sort_by sorted_sort_by)

section \<open>Lists\<close>

lemma nth_concat_rect:
  assumes "\<forall>xs \<in> set xss. length xs = d" and "i < length xss" and "j < d"
  shows "concat xss ! (i * d + j) = xss ! i ! j"
  using assms
proof (induction xss arbitrary: i)
  case (Cons xs xss)
  then show ?case
    by (cases i) (auto simp: nth_append add.assoc)
qed simp

lemma length_concat_rect:
  "\<forall>xs \<in> set xss. length xs = d \<Longrightarrow> length (concat xss) = length xss * d"
  by (induction xss) auto

text \<open>The part of a list a batch takes, and that consecutive parts put the list back together.\<close>

definition sub_list :: "nat \<Rightarrow> nat \<Rightarrow> 'a list \<Rightarrow> 'a list" where
  "sub_list from to xs = take (to - from) (drop from xs)"

lemma length_sub_list [simp]: "length (sub_list from to xs) = min (to - from) (length xs - from)"
  by (simp add: sub_list_def min_def)

lemma sub_list_append:
  "a \<le> b \<Longrightarrow> b \<le> c \<Longrightarrow> sub_list a b xs @ sub_list b c xs = sub_list a c xs"
proof -
  assume "a \<le> b" and "b \<le> c"
  then obtain m n where "b = a + m" and "c = a + m + n"
    by (metis le_iff_add)
  then show ?thesis by (simp add: sub_list_def take_add add.commute)
qed

lemma sub_list_full [simp]: "length xs \<le> n \<Longrightarrow> sub_list 0 n xs = xs"
  by (simp add: sub_list_def)

lemma map_sub_list: "map f (sub_list a b xs) = sub_list a b (map f xs)"
  by (simp add: sub_list_def take_map drop_map)

end
