(* ===== verification/LruCache.thy ===== *)
theory LruCache
  imports Prelude
begin

text \<open>
  The embedding cache of \<open>detail/embedding_cache_impl.hpp\<close>: an LRU list of keys, a map from keys to
  entries, a capacity and a time to live. Each operation is modelled as the code runs it under its
  lock, so an execution is a sequence of whole operations. \<open>malloc\<close> failure and the clock are
  arguments. The iterator an entry keeps into the list is the position of its key, which is unique.
  The interface \<open>embedding_store\<close> is what the embedding and reranking code relies on.
\<close>

section \<open>State and operations\<close>

record 'f cache_entry =
  vec :: "'f list"        \<comment> \<open>the buffer and its \<open>dim\<close>, the length\<close>
  expires_at :: int

record 'f lru =
  capacity :: nat
  ttl_seconds :: int
  recency :: "string list"                       \<comment> \<open>\<open>list_\<close>, most recent first\<close>
  entries :: "(string \<times> 'f cache_entry) list"    \<comment> \<open>\<open>map_\<close>\<close>

definition lru_new :: "nat \<Rightarrow> int \<Rightarrow> 'f lru" where
  "lru_new cap ttl = \<lparr>capacity = cap, ttl_seconds = ttl, recency = [], entries = []\<rparr>"

definition lru_remove :: "string \<Rightarrow> 'f lru \<Rightarrow> 'f lru" where
  "lru_remove k c = c\<lparr>recency := remove1 k (recency c), entries := AList.delete k (entries c)\<rparr>"

text \<open>\<open>remove_by_iterator\<close>: nothing happens for a key that is not in the map.\<close>

definition lru_remove_key :: "string \<Rightarrow> 'f lru \<Rightarrow> 'f lru" where
  "lru_remove_key k c = (case map_of (entries c) k of None \<Rightarrow> c | Some _ \<Rightarrow> lru_remove k c)"

text \<open>\<open>splice\<close> to the front.\<close>

definition promote :: "string \<Rightarrow> 'f lru \<Rightarrow> 'f lru" where
  "promote k c = c\<lparr>recency := k # remove1 k (recency c)\<rparr>"

definition lru_touch :: "int \<Rightarrow> string \<Rightarrow> 'f lru \<Rightarrow> 'f cache_entry option \<times> 'f lru" where
  "lru_touch now k c =
     (case map_of (entries c) k of
        None \<Rightarrow> (None, c)
      | Some e \<Rightarrow>
          if ttl_seconds c > 0 \<and> now > expires_at e then (None, lru_remove k c)
          else (Some e, promote k c))"

definition lru_get :: "int \<Rightarrow> string \<Rightarrow> 'f lru \<Rightarrow> ('f list) option \<times> 'f lru" where
  "lru_get now k c = (case lru_touch now k c of (r, c') \<Rightarrow> (map_option vec r, c'))"

text \<open>
  \<open>get_copy\<close> into a caller's buffer: the status 1, 0 or -1, what \<open>*dim\<close> receives and what is
  copied. \<open>out\<close> is \<open>None\<close> for a null buffer.
\<close>

definition lru_get_copy ::
    "int \<Rightarrow> string \<Rightarrow> bool \<Rightarrow> int \<Rightarrow> 'f lru \<Rightarrow> (int \<times> nat option \<times> 'f list option) \<times> 'f lru" where
  "lru_get_copy now k out_ok cap c =
     (case lru_touch now k c of
        (None, c') \<Rightarrow> ((0, None, None), c')
      | (Some e, c') \<Rightarrow>
          if \<not> out_ok \<or> cap < int (length (vec e)) then ((-1, Some (length (vec e)), None), c')
          else ((1, Some (length (vec e)), Some (vec e)), c'))"

text \<open>The overload that fills a vector: an entry of no dimension counts as a miss.\<close>

definition lru_get_vec :: "int \<Rightarrow> string \<Rightarrow> 'f lru \<Rightarrow> 'f list option \<times> 'f lru" where
  "lru_get_vec now k c =
     (case lru_get now k c of
        (None, c') \<Rightarrow> (None, c')
      | (Some v, c') \<Rightarrow> (if length v \<le> 0 then None else Some v, c'))"

definition lru_put :: "bool \<Rightarrow> int \<Rightarrow> string \<Rightarrow> 'f list \<Rightarrow> 'f lru \<Rightarrow> 'f lru" where
  "lru_put malloc_ok now k v c =
     (if capacity c = 0 then c
      else if \<not> malloc_ok then c
      else
        let expires = (if ttl_seconds c > 0 then now + ttl_seconds c else 0);
            e = \<lparr>vec = v, expires_at = expires\<rparr>
        in case map_of (entries c) k of
             Some _ \<Rightarrow> promote k (c\<lparr>entries := AList.update k e (entries c)\<rparr>)
           | None \<Rightarrow>
               let c1 = (if length (entries c) \<ge> capacity c then
                           (case rev (recency c) of [] \<Rightarrow> c | oldest # _ \<Rightarrow> lru_remove_key oldest c)
                         else c)
               in c1\<lparr>recency := k # recency c1, entries := AList.update k e (entries c1)\<rparr>)"

definition lru_clear :: "'f lru \<Rightarrow> 'f lru" where
  "lru_clear c = c\<lparr>recency := [], entries := []\<rparr>"

definition lru_size :: "'f lru \<Rightarrow> nat" where
  "lru_size c = length (entries c)"

section \<open>Invariant\<close>

text \<open>The list and the map hold the same keys, once each, and never more than the capacity.\<close>

definition lru_inv :: "'f lru \<Rightarrow> bool" where
  "lru_inv c \<longleftrightarrow> distinct (recency c) \<and> distinct (map fst (entries c)) \<and>
     set (recency c) = fst ` set (entries c) \<and> length (entries c) \<le> capacity c"

lemma lru_inv_lengths: "lru_inv c \<Longrightarrow> length (recency c) = length (entries c)"
  unfolding lru_inv_def by (metis distinct_card length_map list.set_map)

lemma lru_new_inv [inv_intros]: "lru_inv (lru_new cap ttl)"
  by (simp add: lru_inv_def lru_new_def)

lemma map_of_fst_image: "map_of xs k = None \<longleftrightarrow> k \<notin> fst ` set xs"
  by (rule map_of_eq_None_iff)

lemma length_delete_distinct:
  "distinct (map fst xs) \<Longrightarrow> k \<in> fst ` set xs \<Longrightarrow> length (AList.delete k xs) = length xs - 1"
proof -
  assume "distinct (map fst xs)" and "k \<in> fst ` set xs"
  then have "map fst (AList.delete k xs) = remove1 k (map fst xs)" and "k \<in> set (map fst xs)"
    by (auto simp: delete_keys distinct_remove1_removeAll)
  then show ?thesis by (metis length_map length_remove1)
qed

lemma length_update_distinct:
  "length (AList.update k v xs) = (if k \<in> fst ` set xs then length xs else Suc (length xs))"
  by (induction xs) auto

lemma lru_remove_inv [inv_intros]:
  assumes "lru_inv c"
  shows "lru_inv (lru_remove k c)"
proof -
  have "length (AList.delete k (entries c)) \<le> length (entries c)"
    by (simp add: length_delete_le)
  moreover have "fst ` set (AList.delete k (entries c)) = fst ` set (entries c) - {k}"
    by (metis delete_keys list.set_map set_removeAll)
  ultimately show ?thesis using assms
    by (simp add: lru_inv_def lru_remove_def distinct_delete set_remove1_eq)
qed

lemma lru_remove_key_inv [inv_intros]: "lru_inv c \<Longrightarrow> lru_inv (lru_remove_key k c)"
  by (simp add: lru_remove_key_def lru_remove_inv split: option.split)

lemma promote_inv [inv_intros]:
  "lru_inv c \<Longrightarrow> k \<in> set (recency c) \<Longrightarrow> lru_inv (promote k c)"
  by (auto simp: lru_inv_def promote_def set_remove1_eq)

lemma lru_touch_inv [inv_intros]:
  assumes "lru_inv c"
  shows "lru_inv (snd (lru_touch now k c))"
proof (cases "map_of (entries c) k")
  case (Some e)
  then have "k \<in> fst ` set (entries c)"
    by (metis map_of_fst_image option.distinct(1))
  with assms have "k \<in> set (recency c)" by (simp add: lru_inv_def)
  with assms Some show ?thesis
    by (simp add: lru_touch_def promote_inv lru_remove_inv)
qed (simp add: lru_touch_def assms)

lemma lru_get_inv [inv_intros]: "lru_inv c \<Longrightarrow> lru_inv (snd (lru_get now k c))"
  using lru_touch_inv [of c now k] by (auto simp: lru_get_def split: prod.split)

lemma lru_get_vec_inv [inv_intros]: "lru_inv c \<Longrightarrow> lru_inv (snd (lru_get_vec now k c))"
  using lru_get_inv [of c now k] by (auto simp: lru_get_vec_def split: prod.split option.split)

lemma lru_get_copy_inv [inv_intros]: "lru_inv c \<Longrightarrow> lru_inv (snd (lru_get_copy now k ok cap c))"
  using lru_touch_inv [of c now k] by (auto simp: lru_get_copy_def split: prod.split option.split)

lemma lru_clear_inv [inv_intros]: "lru_inv c \<Longrightarrow> lru_inv (lru_clear c)"
  by (simp add: lru_inv_def lru_clear_def)

text \<open>Evicting the last key of a full cache makes room for one more.\<close>

definition make_room :: "'f lru \<Rightarrow> 'f lru" where
  "make_room c =
     (if length (entries c) \<ge> capacity c then
        (case rev (recency c) of [] \<Rightarrow> c | oldest # _ \<Rightarrow> lru_remove_key oldest c)
      else c)"

lemma make_room_full:
  assumes "lru_inv c" and "0 < capacity c" and "capacity c \<le> length (entries c)"
  shows "make_room c = lru_remove (last (recency c)) c"
    and "recency (make_room c) = butlast (recency c)"
    and "length (entries (make_room c)) < capacity c"
proof -
  from assms lru_inv_lengths [OF assms(1)] obtain xs x where xs: "recency c = xs @ [x]"
    by (metis length_0_conv less_le_not_le rev_exhaust)
  with assms(1) have x: "x \<in> fst ` set (entries c)" and "x \<notin> set xs"
    by (auto simp: lru_inv_def)
  then obtain e where "map_of (entries c) x = Some e"
    by (metis map_of_fst_image not_None_eq)
  with xs assms(3) show eq: "make_room c = lru_remove (last (recency c)) c"
    by (simp add: make_room_def lru_remove_key_def)
  from xs \<open>x \<notin> set xs\<close> show "recency (make_room c) = butlast (recency c)"
    by (simp add: eq lru_remove_def remove1_append)
  from assms x xs show "length (entries (make_room c)) < capacity c"
    by (simp add: eq lru_remove_def lru_inv_def length_delete_distinct)
qed

lemma make_room_inv [inv_intros]: "lru_inv c \<Longrightarrow> lru_inv (make_room c)"
  by (simp add: make_room_def lru_remove_key_inv split: list.split)

lemma make_room_frame [simp]:
  "capacity (make_room c) = capacity c" "ttl_seconds (make_room c) = ttl_seconds c"
  by (auto simp: make_room_def lru_remove_key_def lru_remove_def split: list.split option.split)

lemma make_room_length:
  "lru_inv c \<Longrightarrow> 0 < capacity c \<Longrightarrow> length (entries (make_room c)) < capacity c"
  by (metis make_room_def make_room_full(3) not_le)

lemma make_room_absent:
  "map_of (entries c) k = None \<Longrightarrow> map_of (entries (make_room c)) k = None"
  by (auto simp: make_room_def lru_remove_key_def lru_remove_def delete_conv'
      split: list.split option.split)

lemma lru_put_make_room:
  "lru_put ok now k v c =
     (if capacity c = 0 \<or> \<not> ok then c
      else let e = \<lparr>vec = v, expires_at = (if ttl_seconds c > 0 then now + ttl_seconds c else 0)\<rparr>
        in case map_of (entries c) k of
             Some _ \<Rightarrow> promote k (c\<lparr>entries := AList.update k e (entries c)\<rparr>)
           | None \<Rightarrow> (make_room c)\<lparr>recency := k # recency (make_room c),
                       entries := AList.update k e (entries (make_room c))\<rparr>)"
  by (simp add: lru_put_def make_room_def Let_def split: option.split)

lemma lru_put_inv [inv_intros]:
  assumes "lru_inv c"
  shows "lru_inv (lru_put ok now k v c)"
proof (cases "map_of (entries c) k")
  case None
  from make_room_inv [OF assms] have inv: "lru_inv (make_room c)" .
  from make_room_absent [OF None] have abs: "k \<notin> fst ` set (entries (make_room c))"
    by (simp add: map_of_fst_image)
  show ?thesis
  proof (cases "capacity c = 0 \<or> \<not> ok")
    case False
    with assms have "length (entries (make_room c)) < capacity c"
      by (simp add: make_room_length)
    with inv abs None False show ?thesis
      by (simp add: lru_put_make_room Let_def lru_inv_def distinct_update dom_update
          length_update_distinct)
  qed (use assms in \<open>simp add: lru_put_make_room\<close>)
next
  case (Some e0)
  then have k: "k \<in> fst ` set (entries c)"
    by (metis map_of_fst_image option.distinct(1))
  let ?c = "\<lambda>e. c\<lparr>entries := AList.update k e (entries c)\<rparr>"
  from assms k have "lru_inv (?c e)" for e
    by (simp add: lru_inv_def distinct_update dom_update length_update_distinct insert_absorb)
  moreover from assms k have "k \<in> set (recency (?c e))" for e
    by (simp add: lru_inv_def)
  ultimately show ?thesis
    using assms Some by (simp add: lru_put_make_room Let_def promote_inv)
qed

section \<open>The interface the embedding and reranking code calls\<close>

text \<open>
  What \<open>lembed_text_embedding_embed\<close> and \<open>lembed_reranker_rerank\<close> need of a cache: a hit is
  something stored under that key, a lookup adds nothing, a store adds that pair only.
\<close>

locale embedding_store =
  fixes sget :: "string \<Rightarrow> 'c \<Rightarrow> 'v option \<times> 'c"
    and sput :: "string \<Rightarrow> 'v \<Rightarrow> 'c \<Rightarrow> 'c"
    and content :: "'c \<Rightarrow> string \<rightharpoonup> 'v"
    and sinv :: "'c \<Rightarrow> bool"
  assumes sinv_get: "sinv c \<Longrightarrow> sinv (snd (sget k c))"
    and sinv_put: "sinv c \<Longrightarrow> sinv (sput k v c)"
    and get_found: "sinv c \<Longrightarrow> fst (sget k c) = Some v \<Longrightarrow> content c k = Some v"
    and content_get: "sinv c \<Longrightarrow> content (snd (sget k c)) \<subseteq>\<^sub>m content c"
    and content_put: "sinv c \<Longrightarrow> content (sput k v c) k' = Some w \<Longrightarrow>
          (k' = k \<and> w = v) \<or> content c k' = Some w"

text \<open>
  The client's two loops: look every key up in order, keeping the results the client can use, and
  store what was computed for the others. \<open>fill\<close> puts the computed values in the empty slots.
\<close>

fun scan_cache :: "(string \<Rightarrow> 'c \<Rightarrow> 'v option \<times> 'c) \<Rightarrow> ('v \<Rightarrow> bool) \<Rightarrow> string list \<Rightarrow> 'c
    \<Rightarrow> 'v option list \<times> 'c" where
  "scan_cache sget usable [] c = ([], c)"
| "scan_cache sget usable (k # ks) c =
     (case sget k c of (r, c1) \<Rightarrow>
        case scan_cache sget usable ks c1 of (rs, c2) \<Rightarrow>
          ((case r of Some v \<Rightarrow> if usable v then Some v else None | None \<Rightarrow> None) # rs, c2))"

fun store_all :: "(string \<Rightarrow> 'v \<Rightarrow> 'c \<Rightarrow> 'c) \<Rightarrow> (string \<times> 'v) list \<Rightarrow> 'c \<Rightarrow> 'c" where
  "store_all sput [] c = c"
| "store_all sput ((k, v) # kvs) c = store_all sput kvs (sput k v c)"

fun fill :: "'v option list \<Rightarrow> 'v list \<Rightarrow> 'v list" where
  "fill [] vs = []"
| "fill (Some v # rs) vs = v # fill rs vs"
| "fill (None # rs) (v # vs) = v # fill rs vs"
| "fill (None # rs) [] = []"

definition missing :: "'v option list \<Rightarrow> 'k list \<Rightarrow> 'k list" where
  "missing rs ks = map snd (filter (\<lambda>p. fst p = None) (zip rs ks))"

text \<open>Every stored value is the one a given function computes for its key.\<close>

definition coherent :: "('c \<Rightarrow> string \<rightharpoonup> 'v) \<Rightarrow> (string \<Rightarrow> 'v) \<Rightarrow> 'c \<Rightarrow> bool" where
  "coherent content f c \<longleftrightarrow> (\<forall>k v. content c k = Some v \<longrightarrow> f k = v)"

lemma missing_Nil [simp]: "missing [] ks = []" "missing rs [] = []"
  by (simp_all add: missing_def)

lemma missing_Cons [simp]:
  "missing (Some v # rs) (k # ks) = missing rs ks"
  "missing (None # rs) (k # ks) = k # missing rs ks"
  by (simp_all add: missing_def)

lemma fill_missing:
  assumes "length rs = length ks"
    and "\<And>i v. i < length rs \<Longrightarrow> rs ! i = Some v \<Longrightarrow> v = f (ks ! i)"
  shows "fill rs (map f (missing rs ks)) = map f ks"
  using assms
proof (induction rs ks rule: list_induct2)
  case (Cons r rs k ks)
  from Cons.prems [of "Suc i" for i]
  have IH: "fill rs (map f (missing rs ks)) = map f ks"
    by (intro Cons.IH) auto
  from Cons.prems [of 0] IH show ?case by (cases r) auto
qed simp

context embedding_store
begin

lemma coherent_get: "sinv c \<Longrightarrow> coherent content f c \<Longrightarrow> coherent content f (snd (sget k c))"
  using content_get [of c k] unfolding coherent_def map_le_def by (metis domI)

lemma coherent_put: "sinv c \<Longrightarrow> coherent content f c \<Longrightarrow> coherent content f (sput k (f k) c)"
  using content_put [of c k "f k"] unfolding coherent_def by blast

lemma scan_sound:
  assumes "sinv c" and "coherent content f c" and "scan_cache sget usable ks c = (rs, c')"
  shows "sinv c' \<and> coherent content f c' \<and> length rs = length ks \<and>
    (\<forall>i v. i < length rs \<longrightarrow> rs ! i = Some v \<longrightarrow> v = f (ks ! i))"
  using assms
proof (induction ks arbitrary: c rs c')
  case (Cons k ks)
  obtain r c1 where get: "sget k c = (r, c1)" by fastforce
  obtain rs1 c2 where scan: "scan_cache sget usable ks c1 = (rs1, c2)" by fastforce
  from Cons.prems get have c1: "sinv c1" "coherent content f c1"
    using sinv_get [of c k] coherent_get [of c f k] by simp_all
  from Cons.IH [OF c1 scan] have IH: "sinv c2 \<and> coherent content f c2 \<and> length rs1 = length ks \<and>
    (\<forall>i v. i < length rs1 \<longrightarrow> rs1 ! i = Some v \<longrightarrow> v = f (ks ! i))" .
  have "f k = v" if "r = Some v" for v
    using that get get_found [OF Cons.prems(1)] Cons.prems(2) by (simp add: coherent_def)
  with IH Cons.prems(3) get scan show ?case
    by (auto simp: nth_Cons' split: option.splits if_splits)
qed simp

lemma store_sound:
  assumes "sinv c" and "coherent content f c" and "\<forall>(k, v) \<in> set kvs. v = f k"
  shows "sinv (store_all sput kvs c) \<and> coherent content f (store_all sput kvs c)"
  using assms
proof (induction kvs arbitrary: c)
  case (Cons kv kvs)
  then show ?case
    using sinv_put [of c] coherent_put [of c f] by (cases kv) auto
qed simp

text \<open>Together: filling the misses with computed values yields the computed values everywhere.\<close>

lemma cached_results:
  assumes "sinv c" and "coherent content f c" and "scan_cache sget usable ks c = (rs, c')"
  shows "fill rs (map f (missing rs ks)) = map f ks"
    and "sinv (store_all sput (map (\<lambda>k. (k, f k)) ks') c')"
    and "coherent content f (store_all sput (map (\<lambda>k. (k, f k)) ks') c')"
proof -
  note scan = scan_sound [OF assms]
  show "fill rs (map f (missing rs ks)) = map f ks"
    by (rule fill_missing) (use scan in auto)
  show "sinv (store_all sput (map (\<lambda>k. (k, f k)) ks') c')"
    and "coherent content f (store_all sput (map (\<lambda>k. (k, f k)) ks') c')"
    using store_sound [of c' f "map (\<lambda>k. (k, f k)) ks'"] scan by auto
qed

end

text \<open>The LRU cache provides the interface, whatever the clock says and whether \<open>malloc\<close> succeeds.\<close>

definition lru_content :: "'f lru \<Rightarrow> string \<rightharpoonup> 'f list" where
  "lru_content c = (\<lambda>k. map_option vec (map_of (entries c) k))"

lemma lru_content_simps [simp]:
  "lru_content (promote k c) = lru_content c"
  "lru_content (c\<lparr>recency := r\<rparr>) = lru_content c"
  by (simp_all add: lru_content_def promote_def)

lemma lru_content_remove: "lru_content (lru_remove k c) = (lru_content c)(k := None)"
  by (auto simp: lru_content_def lru_remove_def delete_conv' fun_eq_iff)

lemma lru_content_remove_le: "lru_content (lru_remove_key k c) \<subseteq>\<^sub>m lru_content c"
  by (auto simp: lru_remove_key_def lru_content_remove map_le_def split: option.split)

lemma lru_content_touch: "lru_content (snd (lru_touch now k c)) \<subseteq>\<^sub>m lru_content c"
  by (auto simp: lru_touch_def lru_content_remove map_le_def split: option.split)

lemma lru_get_vec_touch:
  "snd (lru_get_vec now k c) = snd (lru_touch now k c)"
  "fst (lru_get_vec now k c) = Some v \<Longrightarrow>
     \<exists>e. fst (lru_touch now k c) = Some e \<and> vec e = v \<and> v \<noteq> []"
  by (auto simp: lru_get_vec_def lru_get_def split: prod.splits option.splits if_splits)

lemma lru_touch_found:
  "fst (lru_touch now k c) = Some e \<Longrightarrow>
     map_of (entries c) k = Some e \<and> (ttl_seconds c > 0 \<longrightarrow> now \<le> expires_at e)"
  by (auto simp: lru_touch_def split: option.splits if_splits)

lemma lru_content_make_room: "lru_content (make_room c) \<subseteq>\<^sub>m lru_content c"
  by (simp add: make_room_def lru_content_remove_le split: list.split)

lemma lru_content_put:
  assumes "lru_content (lru_put ok now k v c) k' = Some w"
  shows "(k' = k \<and> w = v) \<or> lru_content c k' = Some w"
proof (cases "capacity c = 0 \<or> \<not> ok")
  case True
  with assms show ?thesis by (simp add: lru_put_make_room)
next
  case False
  have "lru_content (make_room c) k' = Some w \<Longrightarrow> lru_content c k' = Some w"
    using lru_content_make_room [of c] unfolding map_le_def by (metis domI)
  with False assms show ?thesis
    by (auto simp: lru_put_make_room Let_def lru_content_def promote_def update_conv'
        split: option.splits if_splits)
qed

interpretation lru_store: embedding_store "lru_get_vec now" "lru_put ok now" lru_content lru_inv
  for now ok
proof unfold_locales
  fix c :: "'f lru" and k k' v w
  show "lru_inv c \<Longrightarrow> lru_inv (snd (lru_get_vec now k c))" by (rule lru_get_vec_inv)
  show "lru_inv c \<Longrightarrow> lru_inv (lru_put ok now k v c)" by (rule lru_put_inv)
  show "lru_content (snd (lru_get_vec now k c)) \<subseteq>\<^sub>m lru_content c"
    by (simp add: lru_get_vec_touch lru_content_touch)
  show "fst (lru_get_vec now k c) = Some v \<Longrightarrow> lru_content c k = Some v"
    by (auto dest!: lru_get_vec_touch(2) lru_touch_found simp: lru_content_def)
  show "lru_content (lru_put ok now k v c) k' = Some w \<Longrightarrow>
      (k' = k \<and> w = v) \<or> lru_content c k' = Some w"
    by (rule lru_content_put)
qed

section \<open>Histories\<close>

text \<open>The public operations with what the environment decides: the clock and \<open>malloc\<close>.\<close>

datatype 'f cache_op =
    OpGet int string
  | OpGetCopy int string bool int
  | OpPut bool int string "'f list"
  | OpClear

fun exec_op :: "'f cache_op \<Rightarrow> 'f lru \<Rightarrow> 'f lru" where
  "exec_op (OpGet now k) c = snd (lru_get now k c)"
| "exec_op (OpGetCopy now k ok cap) c = snd (lru_get_copy now k ok cap c)"
| "exec_op (OpPut ok now k v) c = lru_put ok now k v c"
| "exec_op OpClear c = lru_clear c"

definition lru_exec :: "'f cache_op list \<Rightarrow> 'f lru \<Rightarrow> 'f lru" where
  "lru_exec ops c = fold exec_op ops c"

text \<open>What the last successful \<open>put\<close> of each key since the last \<open>clear\<close> stored, and when.\<close>

fun note_put :: "'f cache_op \<Rightarrow> (string \<rightharpoonup> int \<times> 'f list) \<Rightarrow> (string \<rightharpoonup> int \<times> 'f list)" where
  "note_put (OpPut ok now k v) m = (if ok then m(k \<mapsto> (now, v)) else m)"
| "note_put OpClear m = Map.empty"
| "note_put _ m = m"

definition last_put :: "'f cache_op list \<Rightarrow> string \<rightharpoonup> int \<times> 'f list" where
  "last_put ops = fold note_put ops Map.empty"

lemma exec_op_inv [inv_intros]: "lru_inv c \<Longrightarrow> lru_inv (exec_op p c)"
  by (cases p) (simp_all add: inv_intros)

lemma exec_op_frame [simp]:
  "capacity (exec_op p c) = capacity c" "ttl_seconds (exec_op p c) = ttl_seconds c"
  by (cases p; auto simp: lru_get_def lru_get_copy_def lru_touch_def lru_remove_def promote_def
      lru_put_make_room Let_def lru_clear_def split: prod.splits option.splits if_splits)+

lemma fold_exec_inv: "lru_inv c \<Longrightarrow> lru_inv (fold exec_op ops c)"
  by (induction ops arbitrary: c) (simp_all add: inv_intros)

lemma fold_exec_frame [simp]:
  "capacity (fold exec_op ops c) = capacity c" "ttl_seconds (fold exec_op ops c) = ttl_seconds c"
  by (induction ops arbitrary: c) simp_all

text \<open>Every entry is the last one put, and its expiry is that \<open>put\<close>'s time plus the time to live.\<close>

definition dated :: "(string \<rightharpoonup> int \<times> 'f list) \<Rightarrow> 'f lru \<Rightarrow> bool" where
  "dated m c \<longleftrightarrow> (\<forall>k e. map_of (entries c) k = Some e \<longrightarrow>
     (\<exists>t. m k = Some (t, vec e) \<and> (ttl_seconds c > 0 \<longrightarrow> expires_at e = t + ttl_seconds c)))"

lemma entries_remove_le: "map_of (entries (lru_remove k c)) \<subseteq>\<^sub>m map_of (entries c)"
  by (auto simp: lru_remove_def delete_conv' map_le_def)

lemma dated_le:
  "dated m c \<Longrightarrow> map_of (entries c') \<subseteq>\<^sub>m map_of (entries c) \<Longrightarrow> ttl_seconds c' = ttl_seconds c \<Longrightarrow>
     dated m c'"
  unfolding dated_def map_le_def by (metis domI)

lemma entries_touch_le: "map_of (entries (snd (lru_touch now k c))) \<subseteq>\<^sub>m map_of (entries c)"
  by (auto simp: lru_touch_def entries_remove_le promote_def split: option.split)

lemma entries_make_room_le: "map_of (entries (make_room c)) \<subseteq>\<^sub>m map_of (entries c)"
  by (auto simp: make_room_def lru_remove_key_def entries_remove_le split: list.split option.split)

lemma snd_lru_get: "snd (lru_get now k c) = snd (lru_touch now k c)"
  by (simp add: lru_get_def split: prod.split)

lemma snd_lru_get_copy: "snd (lru_get_copy now k ok cap c) = snd (lru_touch now k c)"
  by (simp add: lru_get_copy_def split: prod.split option.split)

lemma dated_put:
  assumes "lru_inv c" and "dated m c"
  shows "dated (note_put (OpPut ok now k v) m) (lru_put ok now k v c)"
proof (cases "ok \<and> capacity c \<noteq> 0")
  case True
  from dated_le [OF assms(2) entries_make_room_le] have "dated m (make_room c)" by simp
  with True assms show ?thesis
    by (auto simp: dated_def lru_put_make_room Let_def promote_def update_conv' split: option.splits)
next
  case False
  with assms have "ok \<Longrightarrow> entries c = []" by (simp add: lru_inv_def)
  with False assms show ?thesis
    by (auto simp: dated_def lru_put_make_room)
qed

lemma dated_exec:
  assumes "lru_inv c" and "dated m c"
  shows "dated (note_put p m) (exec_op p c)"
proof (cases p)
  case (OpGet now k)
  with assms dated_le [OF assms(2) entries_touch_le] exec_op_frame(2) [of p c] show ?thesis
    by (simp add: snd_lru_get)
next
  case (OpGetCopy now k ok cap)
  with assms dated_le [OF assms(2) entries_touch_le] exec_op_frame(2) [of p c] show ?thesis
    by (simp add: snd_lru_get_copy)
next
  case (OpPut ok now k v)
  with dated_put [OF assms] show ?thesis by simp
next
  case OpClear
  then show ?thesis by (simp add: dated_def lru_clear_def)
qed

lemma dated_fold:
  "lru_inv c \<Longrightarrow> dated m c \<Longrightarrow> dated (fold note_put ops m) (fold exec_op ops c)"
  by (induction ops arbitrary: m c) (simp_all add: dated_exec inv_intros)

lemma dated_history: "dated (last_put ops) (lru_exec ops (lru_new cap ttl))"
  unfolding last_put_def lru_exec_def
  by (rule dated_fold) (simp_all add: lru_new_inv, simp add: dated_def lru_new_def)

section \<open>Refinement: a list of pairs, most recent first\<close>

text \<open>
  With no time to live and memory available, the two structures behave like one list of pairs
  ordered by recency: a lookup moves its pair to the front, a store puts a pair in front and keeps
  the first \<open>capacity\<close> of them.
\<close>

type_synonym 'f recent = "(string \<times> 'f list) list"

fun spec_get :: "string \<Rightarrow> 'f recent \<Rightarrow> 'f list option \<times> 'f recent" where
  "spec_get k xs =
     (case map_of xs k of None \<Rightarrow> (None, xs) | Some v \<Rightarrow> (Some v, (k, v) # AList.delete k xs))"

fun spec_put :: "nat \<Rightarrow> string \<Rightarrow> 'f list \<Rightarrow> 'f recent \<Rightarrow> 'f recent" where
  "spec_put cap k v xs = take cap ((k, v) # AList.delete k xs)"

fun spec_op :: "nat \<Rightarrow> 'f cache_op \<Rightarrow> 'f recent \<Rightarrow> 'f recent" where
  "spec_op cap (OpGet now k) xs = snd (spec_get k xs)"
| "spec_op cap (OpGetCopy now k ok n) xs = snd (spec_get k xs)"
| "spec_op cap (OpPut ok now k v) xs = (if ok then spec_put cap k v xs else xs)"
| "spec_op cap OpClear xs = []"

definition lru_abs :: "'f lru \<Rightarrow> 'f recent" where
  "lru_abs c = map (\<lambda>k. (k, vec (the (map_of (entries c) k)))) (recency c)"

lemma map_fst_lru_abs [simp]: "map fst (lru_abs c) = recency c"
  by (simp add: lru_abs_def comp_def)

lemma map_of_map_key: "map_of (map (\<lambda>k. (k, f k)) ks) k = (if k \<in> set ks then Some (f k) else None)"
  by (induction ks) auto

lemma map_of_lru_abs: "lru_inv c \<Longrightarrow> map_of (lru_abs c) k = map_option vec (map_of (entries c) k)"
  by (cases "map_of (entries c) k")
    (force simp: lru_abs_def map_of_map_key lru_inv_def map_of_eq_None_iff
      dest: map_of_SomeD intro: rev_image_eqI)+

lemma delete_map_key: "AList.delete k (map (\<lambda>k. (k, f k)) ks) = map (\<lambda>k. (k, f k)) (removeAll k ks)"
  by (induction ks) (auto simp: AList.delete_eq)

lemma delete_lru_abs:
  "lru_inv c \<Longrightarrow> AList.delete k (lru_abs c) =
     map (\<lambda>k. (k, vec (the (map_of (entries c) k)))) (remove1 k (recency c))"
  by (simp add: lru_abs_def delete_map_key lru_inv_def distinct_remove1_removeAll)

lemma abs_promote:
  "lru_inv c \<Longrightarrow> lru_abs (promote k c) = (k, vec (the (map_of (entries c) k))) # AList.delete k (lru_abs c)"
  by (simp add: delete_lru_abs) (simp add: lru_abs_def promote_def)

lemma abs_touch:
  assumes "lru_inv c" and "ttl_seconds c \<le> 0"
  shows "lru_abs (snd (lru_touch now k c)) = snd (spec_get k (lru_abs c))"
    and "map_option vec (fst (lru_touch now k c)) = fst (spec_get k (lru_abs c))"
  using assms by (auto simp: lru_touch_def map_of_lru_abs abs_promote split: option.split)

lemma take_butlast_delete:
  "k \<notin> set ks \<Longrightarrow> Suc (length ks) > cap \<Longrightarrow> length ks = cap \<Longrightarrow> 0 < cap \<Longrightarrow>
     take cap (k # ks) = k # butlast ks"
  by (cases cap) (auto simp: butlast_conv_take)

lemma abs_put_old:
  assumes "lru_inv c" and "map_of (entries c) k = Some e0"
  shows "lru_abs (promote k (c\<lparr>entries := AList.update k e (entries c)\<rparr>)) =
    take (capacity c) ((k, vec e) # AList.delete k (lru_abs c))"
proof -
  from assms have k: "k \<in> set (recency c)"
    unfolding lru_inv_def by (metis map_of_fst_image option.distinct(1))
  then have "0 < length (recency c)" and "length (remove1 k (recency c)) = length (recency c) - 1"
    by (auto simp: length_remove1 length_pos_if_in_set)
  moreover have "length (recency c) \<le> capacity c"
    using assms(1) lru_inv_lengths [OF assms(1)] by (simp add: lru_inv_def)
  ultimately have "Suc (length (remove1 k (recency c))) \<le> capacity c" by arith
  then have "take (capacity c) ((k, vec e) # AList.delete k (lru_abs c)) =
      (k, vec e) # AList.delete k (lru_abs c)"
    using assms(1) by (simp add: delete_lru_abs)
  moreover have "j \<noteq> k" if "j \<in> set (remove1 k (recency c))" for j
    using that assms(1) by (auto simp: lru_inv_def set_remove1_eq)
  ultimately show ?thesis
    using assms(1) by (simp add: delete_lru_abs) (simp add: lru_abs_def promote_def update_conv')
qed

lemma abs_put_new:
  assumes "lru_inv c" and "map_of (entries c) k = None" and "0 < capacity c"
  shows "lru_abs ((make_room c)\<lparr>recency := k # recency (make_room c),
      entries := AList.update k e (entries (make_room c))\<rparr>) =
    take (capacity c) ((k, vec e) # lru_abs c)"
proof -
  let ?m = "make_room c"
  from assms(1,2) have k: "k \<notin> set (recency c)"
    by (simp add: lru_inv_def map_of_fst_image)
  have "recency ?m = recency c \<or> (\<exists>j. recency ?m = remove1 j (recency c))"
    by (auto simp: make_room_def lru_remove_key_def lru_remove_def split: list.split option.split)
  then have "set (recency ?m) \<subseteq> set (recency c)"
    by (auto dest: set_remove1_subset [THEN subsetD])
  with k have k': "j \<noteq> k" if "j \<in> set (recency ?m)" for j using that by auto
  have step: "lru_abs (?m\<lparr>recency := k # recency ?m, entries := AList.update k e (entries ?m)\<rparr>) =
      (k, vec e) # lru_abs ?m"
    using k' by (simp add: lru_abs_def update_conv')
  show ?thesis
  proof (cases "capacity c \<le> length (entries c)")
    case True
    note full = make_room_full [OF assms(1,3) True]
    from True assms(1) lru_inv_lengths [OF assms(1)] have len: "length (recency c) = capacity c"
      by (simp add: lru_inv_def)
    have "lru_abs ?m = butlast (lru_abs c)"
    proof -
      have "vec (the (map_of (entries ?m) j)) = vec (the (map_of (entries c) j))"
        if "j \<in> set (butlast (recency c))" for j
      proof -
        have "recency c \<noteq> []" using len assms(3) by auto
        then have "recency c = butlast (recency c) @ [last (recency c)]" by simp
        with assms(1) that have "j \<noteq> last (recency c)"
          unfolding lru_inv_def by (metis distinct_append disjoint_iff list.set_intros(1))
        then show ?thesis by (simp add: full(1) lru_remove_def delete_conv')
      qed
      then show ?thesis by (simp add: lru_abs_def full(2) map_butlast [symmetric])
    qed
    moreover have "take (capacity c) ((k, vec e) # lru_abs c) = (k, vec e) # butlast (lru_abs c)"
      using len assms(3) by (cases "capacity c") (auto simp: butlast_conv_take lru_abs_def)
    ultimately show ?thesis by (simp add: step)
  next
    case False
    with lru_inv_lengths [OF assms(1)] have "length (recency c) < capacity c" by simp
    then have "length (lru_abs c) < capacity c" by (simp add: lru_abs_def)
    then have "take (capacity c) ((k, vec e) # lru_abs c) = (k, vec e) # lru_abs c"
      by (cases "capacity c") auto
    moreover have "lru_abs ?m = lru_abs c" using False by (simp add: make_room_def)
    ultimately show ?thesis using step by (simp only:)
  qed
qed

lemma abs_put:
  assumes "lru_inv c"
  shows "lru_abs (lru_put True now k v c) = spec_put (capacity c) k v (lru_abs c)"
proof (cases "capacity c = 0")
  case True
  with assms have "entries c = []" by (simp add: lru_inv_def)
  with lru_inv_lengths [OF assms] have "recency c = []" by simp
  with True show ?thesis by (simp add: lru_put_make_room lru_abs_def)
next
  case False
  show ?thesis
  proof (cases "map_of (entries c) k")
    case None
    with assms have "AList.delete k (lru_abs c) = lru_abs c"
      by (simp add: delete_idem lru_inv_def lru_abs_def map_of_fst_image image_image)
    with None False abs_put_new [OF assms None] show ?thesis
      by (simp add: lru_put_make_room Let_def)
  next
    case (Some e0)
    with False abs_put_old [OF assms Some] show ?thesis
      by (simp add: lru_put_make_room Let_def)
  qed
qed

lemma abs_exec_op:
  assumes "lru_inv c" and "ttl_seconds c \<le> 0"
  shows "lru_abs (exec_op p c) = spec_op (capacity c) p (lru_abs c)"
proof (cases p)
  case (OpPut ok now k v)
  with assms abs_put [OF assms(1)] show ?thesis
    by (auto simp: lru_put_make_room)
qed (use abs_touch [OF assms] in \<open>simp_all add: snd_lru_get snd_lru_get_copy lru_clear_def lru_abs_def\<close>)

lemma abs_fold:
  "lru_inv c \<Longrightarrow> ttl_seconds c \<le> 0 \<Longrightarrow>
     lru_abs (fold exec_op ops c) = fold (spec_op (capacity c)) ops (lru_abs c)"
  by (induction ops arbitrary: c) (simp_all add: abs_exec_op inv_intros)

lemma lru_exec_inv [inv_intros]: "lru_inv (lru_exec ops (lru_new cap ttl))"
  unfolding lru_exec_def by (rule fold_exec_inv) (rule lru_new_inv)

lemma fst_lru_get: "fst (lru_get now k c) = map_option vec (fst (lru_touch now k c))"
  by (simp add: lru_get_def split: prod.split)

section \<open>Properties\<close>

text \<open>Whatever is executed on a fresh cache, the list and the map agree on their keys, hold each
  key once, and never hold more than the capacity.\<close>

theorem lru_bounded:
  "lru_inv (lru_exec ops (lru_new cap ttl)) \<and> lru_size (lru_exec ops (lru_new cap ttl)) \<le> cap"
  using lru_exec_inv [of ops cap ttl]
  by (simp add: lru_inv_def lru_size_def lru_exec_def) (simp add: lru_new_def)

text \<open>C3. With no time to live, any execution of the cache is the execution of the recency list: a
  hit moves its pair to the front, a store drops what falls beyond the capacity (the least recently
  used), and the values looked up are the same.\<close>

theorem lru_refines_recency:
  assumes "ttl \<le> 0"
  shows "lru_abs (lru_exec ops (lru_new cap ttl)) = fold (spec_op cap) ops [] \<and>
    fst (lru_get now k (lru_exec ops (lru_new cap ttl))) = fst (spec_get k (fold (spec_op cap) ops []))"
proof -
  let ?c = "lru_exec ops (lru_new cap ttl)"
  have abs: "lru_abs ?c = fold (spec_op cap) ops []"
    using abs_fold [OF lru_new_inv [of cap ttl]] assms
    by (simp add: lru_exec_def) (simp add: lru_new_def lru_abs_def)
  have "ttl_seconds ?c \<le> 0"
    using assms by (simp add: lru_exec_def) (simp add: lru_new_def)
  then have "fst (lru_get now k ?c) = fst (spec_get k (lru_abs ?c))"
    unfolding fst_lru_get by (rule abs_touch(2) [OF lru_exec_inv])
  with abs show ?thesis by simp
qed

theorem lru_refines_recency_witness:
  "(0::int) \<le> 0 \<and> lru_abs (lru_exec [OpPut True 0 ''a'' [1::int], OpPut True 0 ''b'' [2],
      OpGet 0 ''a'', OpPut True 0 ''c'' [3]] (lru_new 2 0)) = [(''c'', [3]), (''a'', [1])]"
  using lru_refines_recency [of 0 "[OpPut True 0 ''a'' [1::int], OpPut True 0 ''b'' [2],
      OpGet 0 ''a'', OpPut True 0 ''c'' [3]]" 2] by simp

text \<open>A lookup that hits returns what the last successful store of that key put there, within
  its time to live; an expired or cleared entry is never returned.\<close>

theorem lru_get_fresh:
  assumes "fst (lru_get now k (lru_exec ops (lru_new cap ttl))) = Some v"
  shows "\<exists>t. last_put ops k = Some (t, v) \<and> (ttl > 0 \<longrightarrow> now \<le> t + ttl)"
proof -
  let ?c = "lru_exec ops (lru_new cap ttl)"
  have ttl: "ttl_seconds ?c = ttl" by (simp add: lru_exec_def) (simp add: lru_new_def)
  from assms obtain e where "fst (lru_touch now k ?c) = Some e" and v: "vec e = v"
    by (auto simp: lru_get_def split: prod.splits)
  then have "map_of (entries ?c) k = Some e \<and> (ttl > 0 \<longrightarrow> now \<le> expires_at e)"
    using lru_touch_found ttl by fastforce
  with dated_history [of ops cap ttl] ttl v show ?thesis
    unfolding dated_def by fastforce
qed

theorem lru_get_fresh_witness:
  "fst (lru_get 15 ''a'' (lru_exec [OpPut True 3 ''a'' [1::int], OpPut True 7 ''a'' [2]] (lru_new 2 10)))
     = Some [2] \<and> last_put [OpPut True 3 ''a'' [1::int], OpPut True 7 ''a'' [2]] ''a'' = Some (7, [2])"
proof -
  have h: "fst (lru_get 15 ''a'' (lru_exec [OpPut True 3 ''a'' [1::int], OpPut True 7 ''a'' [2]]
      (lru_new 2 10))) = Some [2]"
    by (simp add: lru_exec_def lru_new_def lru_put_def promote_def lru_get_def lru_touch_def)
  from lru_get_fresh [OF h] h show ?thesis by (simp add: last_put_def)
qed

text \<open>\<open>get_copy\<close> on every branch: 0 and no dimension for a miss; the stored dimension with -1
  when the buffer is null or too small; otherwise 1 and exactly the stored vector. A refusal still
  promotes the entry, as a hit does.\<close>

theorem lru_get_copy_branches:
  "lru_get_copy now k out_ok n c =
     (case lru_get now k c of
        (None, c') \<Rightarrow> ((0, None, None), c')
      | (Some v, c') \<Rightarrow> ((if out_ok \<and> int (length v) \<le> n then 1 else -1, Some (length v),
                          if out_ok \<and> int (length v) \<le> n then Some v else None), c'))"
  by (auto simp: lru_get_copy_def lru_get_def not_less split: prod.splits option.splits)

end
