(* ===== verification/OnnxSession.thy ===== *)
theory OnnxSession
  imports Prelude
begin

text \<open>
  The wrapper around an ONNX Runtime session, \<open>detail/onnx_session_impl.hpp\<close>. The runtime is not part
  of the repository: whether one of its calls fails is the argument \<open>fails\<close> (the message of the
  status it returns), and what an inference computes is the argument \<open>infer\<close>. The wrapper's own
  work is here: the order of the calls, the inputs it passes, the output it selects, and the runtime
  objects it has created and not released (\<open>live\<close>). The build is the CPU build for Linux, where the
  provider configuration is empty.
\<close>

section \<open>Calls of the runtime\<close>

datatype ort_call =
    CreateSessionOptions | EnableMemPattern | EnableCpuMemArena | SetSessionGraphOptimizationLevel
  | SetIntraOpNumThreads int | SetInterOpNumThreads int | AddSessionConfigEntry string string
  | CreateSession string | CreateSessionFromArray string | GetAllocatorWithDefaultOptions
  | SessionGetInputCount | SessionGetInputName nat | SessionGetOutputCount | SessionGetOutputName nat
  | CreateCpuMemoryInfo | CreateTensor string | GetTensorTypeAndShape nat | GetDimensionsCount nat
  | GetDimensions nat | GetTensorMutableData nat

type_synonym ort_faults = "ort_call \<Rightarrow> string option"

text \<open>\<open>ort_check\<close> throws the message of the first call that fails.\<close>

fun ort_check :: "ort_faults \<Rightarrow> ort_call list \<Rightarrow> string + unit" where
  "ort_check fails [] = Inr ()"
| "ort_check fails (c # cs) = (case fails c of Some msg \<Rightarrow> Inl msg | None \<Rightarrow> ort_check fails cs)"

lemma ort_check_append:
  "ort_check fails (xs @ ys) = bind_sum (ort_check fails xs) (\<lambda>_. ort_check fails ys)"
  by (induction xs) (auto split: option.split)

lemma ort_check_Inr: "ort_check fails cs = Inr () \<longleftrightarrow> (\<forall>c \<in> set cs. fails c = None)"
  by (induction cs) (auto split: option.split)

section \<open>Loading a session\<close>

record onnx_session =
  opened :: bool
  input_names :: "string list"
  output_names :: "string list"

definition onnx_session_new :: onnx_session where
  "onnx_session_new = \<lparr>opened = False, input_names = [], output_names = []\<rparr>"

definition apply_quantization_config :: "int \<Rightarrow> ort_call list" where
  "apply_quantization_config quantization =
     (if quantization = 1 then
        [AddSessionConfigEntry ''session.disable_quant_qdq'' ''0'',
         AddSessionConfigEntry ''session.enable_quant_qdq_cleanup'' ''1'']
      else if quantization = 2 then [AddSessionConfigEntry ''session.disable_prepacking'' ''0'']
      else [])"

definition apply_provider_config :: "int \<Rightarrow> ort_call list" where
  "apply_provider_config provider = []"

definition configure_calls :: "int \<Rightarrow> int \<Rightarrow> int \<Rightarrow> ort_call list" where
  "configure_calls num_threads provider quantization =
     [EnableMemPattern, EnableCpuMemArena, SetSessionGraphOptimizationLevel] @
     (if num_threads > 0 then [SetIntraOpNumThreads num_threads, SetInterOpNumThreads 1] else []) @
     apply_provider_config provider @ apply_quantization_config quantization"

text \<open>The names are appended one by one, so a failure keeps those already read.\<close>

fun read_names :: "ort_faults \<Rightarrow> (nat \<Rightarrow> ort_call) \<Rightarrow> nat \<Rightarrow> string list \<Rightarrow> string list
    \<Rightarrow> (string + unit) \<times> string list" where
  "read_names fails call i [] acc = (Inr (), acc)"
| "read_names fails call i (n # ns) acc =
     (case fails (call i) of Some msg \<Rightarrow> (Inl msg, acc)
      | None \<Rightarrow> read_names fails call (Suc i) ns (acc @ [n]))"

definition query_io_names ::
    "ort_faults \<Rightarrow> string list \<times> string list \<Rightarrow> onnx_session \<Rightarrow> (string + unit) \<times> onnx_session" where
  "query_io_names fails io s =
     (case fails SessionGetInputCount of
        Some msg \<Rightarrow> (Inl msg, s)
      | None \<Rightarrow>
          (case read_names fails SessionGetInputName 0 (fst io) (input_names s) of
             (Inl msg, ns) \<Rightarrow> (Inl msg, s\<lparr>input_names := ns\<rparr>)
           | (Inr _, ns) \<Rightarrow>
               let s1 = s\<lparr>input_names := ns\<rparr> in
               (case fails SessionGetOutputCount of
                  Some msg \<Rightarrow> (Inl msg, s1)
                | None \<Rightarrow>
                    (case read_names fails SessionGetOutputName 0 (snd io) (output_names s1) of
                       (r, ms) \<Rightarrow> (r, s1\<lparr>output_names := ms\<rparr>)))))"

text \<open>The result, the session and the number of option objects left alive.\<close>

definition create_session ::
    "ort_faults \<Rightarrow> string list \<times> string list \<Rightarrow> ort_call \<Rightarrow> ort_call list \<Rightarrow> onnx_session
      \<Rightarrow> (string + unit) \<times> onnx_session \<times> nat" where
  "create_session fails io create config s =
     (case fails CreateSessionOptions of
        Some msg \<Rightarrow> (Inl msg, s, 0)
      | None \<Rightarrow>
          (case ort_check fails (config @ [create]) of
             Inl msg \<Rightarrow> (Inl msg, s, 1)
           | Inr _ \<Rightarrow>
               let s1 = s\<lparr>opened := True\<rparr> in
               (case fails GetAllocatorWithDefaultOptions of
                  Some msg \<Rightarrow> (Inl msg, s1, 0)
                | None \<Rightarrow> (case query_io_names fails io s1 of (r, s2) \<Rightarrow> (r, s2, 0)))))"

definition onnx_load_from_file ::
    "ort_faults \<Rightarrow> (string \<Rightarrow> string list \<times> string list) \<Rightarrow> string \<Rightarrow> int \<Rightarrow> int \<Rightarrow> int \<Rightarrow> onnx_session
      \<Rightarrow> (string + unit) \<times> onnx_session \<times> nat" where
  "onnx_load_from_file fails model_io model_path num_threads provider quantization s =
     create_session fails (model_io model_path) (CreateSession model_path)
       (configure_calls num_threads provider quantization) s"

definition onnx_load_from_memory ::
    "ort_faults \<Rightarrow> (string \<Rightarrow> string list \<times> string list) \<Rightarrow> string \<Rightarrow> int \<Rightarrow> int \<Rightarrow> int \<Rightarrow> onnx_session
      \<Rightarrow> (string + unit) \<times> onnx_session \<times> nat" where
  "onnx_load_from_memory fails data_io data num_threads provider quantization s =
     create_session fails (data_io data) (CreateSessionFromArray data)
       (configure_calls num_threads provider quantization) s"

section \<open>Running a session\<close>

definition has_input :: "onnx_session \<Rightarrow> string \<Rightarrow> bool" where
  "has_input s name = list_ex (\<lambda>n. n = name) (input_names s)"

fun index_of :: "string \<Rightarrow> string list \<Rightarrow> nat option" where
  "index_of name [] = None"
| "index_of name (n # ns) = (if n = name then Some 0 else map_option Suc (index_of name ns))"

definition output_precedence :: "string list" where
  "output_precedence = [''text_embeds'', ''last_hidden_state'', ''sentence_embedding'']"

fun first_named :: "string list \<Rightarrow> string list \<Rightarrow> nat option" where
  "first_named [] outputs = None"
| "first_named (p # ps) outputs =
     (case index_of p outputs of Some i \<Rightarrow> Some i | None \<Rightarrow> first_named ps outputs)"

definition select_output :: "onnx_session \<Rightarrow> string option \<Rightarrow> nat" where
  "select_output s preferred =
     (if length (output_names s) = 1 then 0
      else case (case preferred of None \<Rightarrow> None | Some p \<Rightarrow> index_of p (output_names s)) of
             Some i \<Rightarrow> i
           | None \<Rightarrow> (case first_named output_precedence (output_names s) of Some i \<Rightarrow> i | None \<Rightarrow> 0))"

record 'f tensor_result =
  tr_data :: "'f list"
  tr_shape :: "int list"

text \<open>The named inputs of one inference, their two dimensions and the requested outputs.\<close>

type_synonym 'f inference =
  "(string \<times> int list) list \<Rightarrow> nat \<Rightarrow> nat \<Rightarrow> string list \<Rightarrow> string + 'f tensor_result list"

definition run_inputs ::
    "onnx_session \<Rightarrow> int list \<Rightarrow> int list \<Rightarrow> int list option \<Rightarrow> (string \<times> int list) list" where
  "run_inputs s ids attn types =
     (''input_ids'', ids) #
     (if has_input s ''attention_mask'' then [(''attention_mask'', attn)] else []) @
     (case types of
        None \<Rightarrow> []
      | Some ts \<Rightarrow> if has_input s ''token_type_ids'' then [(''token_type_ids'', ts)] else [])"

definition run_outputs :: "onnx_session \<Rightarrow> int \<Rightarrow> string list" where
  "run_outputs s preferred =
     (if 0 \<le> preferred \<and> preferred < int (length (output_names s))
      then [output_names s ! nat preferred] else output_names s)"

text \<open>Creating the input tensors: the first failure, or how many were made.\<close>

fun make_tensors :: "ort_faults \<Rightarrow> string list \<Rightarrow> (string \<times> nat) + nat" where
  "make_tensors fails [] = Inr 0"
| "make_tensors fails (n # ns) =
     (case fails (CreateTensor n) of
        Some msg \<Rightarrow> Inl (msg, 0)
      | None \<Rightarrow> (case make_tensors fails ns of Inl (msg, k) \<Rightarrow> Inl (msg, Suc k) | Inr k \<Rightarrow> Inr (Suc k)))"

text \<open>
  Reading the output values: each costs four calls, and the shape object lives from the first of them
  to the end of the step. The count is that of the objects alive when a call fails.
\<close>

fun read_outputs :: "ort_faults \<Rightarrow> nat \<Rightarrow> 'f tensor_result list \<Rightarrow> (string \<times> nat) + 'f tensor_result list" where
  "read_outputs fails i [] = Inr []"
| "read_outputs fails i (v # vs) =
     (case fails (GetTensorTypeAndShape i) of
        Some msg \<Rightarrow> Inl (msg, Suc (length vs))
      | None \<Rightarrow>
          (case ort_check fails [GetDimensionsCount i, GetDimensions i, GetTensorMutableData i] of
             Inl msg \<Rightarrow> Inl (msg, Suc (Suc (length vs)))
           | Inr _ \<Rightarrow>
               (case read_outputs fails (Suc i) vs of
                  Inl e \<Rightarrow> Inl e
                | Inr rs \<Rightarrow>
                    Inr (\<lparr>tr_data = take (nat (prod_list (tr_shape v))) (tr_data v), tr_shape = tr_shape v\<rparr> # rs))))"

text \<open>\<open>run\<close>: the tensors or the thrown message, and the runtime objects left alive.\<close>

definition onnx_run ::
    "ort_faults \<Rightarrow> 'f inference \<Rightarrow> onnx_session \<Rightarrow> int list \<Rightarrow> int list \<Rightarrow> int list option \<Rightarrow> nat \<Rightarrow> nat \<Rightarrow> int
      \<Rightarrow> (string + 'f tensor_result list) \<times> nat" where
  "onnx_run fails infer s ids attn types batch_size seq_length preferred =
     (case fails CreateCpuMemoryInfo of
        Some msg \<Rightarrow> (Inl msg, 0)
      | None \<Rightarrow>
          let inputs = run_inputs s ids attn types in
          (case make_tensors fails (map fst inputs) of
             Inl (msg, k) \<Rightarrow> (Inl msg, 1 + k)
           | Inr k \<Rightarrow>
               (case infer inputs batch_size seq_length (run_outputs s preferred) of
                  Inl msg \<Rightarrow> (Inl msg, 1 + k)
                | Inr values \<Rightarrow>
                    (case read_outputs fails 0 values of
                       Inl (msg, j) \<Rightarrow> (Inl msg, 1 + k + j)
                     | Inr results \<Rightarrow> (Inr results, 0)))))"

text \<open>\<open>run_float\<close>, for image models: one named input, every output.\<close>

definition onnx_run_float ::
    "ort_faults \<Rightarrow> (string \<times> 'f list \<times> int list \<Rightarrow> string list \<Rightarrow> string + 'f tensor_result list)
      \<Rightarrow> onnx_session \<Rightarrow> string \<Rightarrow> 'f list \<Rightarrow> int list \<Rightarrow> (string + 'f tensor_result list) \<times> nat" where
  "onnx_run_float fails infer s input_name pixels shape =
     (case fails CreateCpuMemoryInfo of
        Some msg \<Rightarrow> (Inl msg, 0)
      | None \<Rightarrow>
          (case fails (CreateTensor input_name) of
             Some msg \<Rightarrow> (Inl msg, 1)
           | None \<Rightarrow>
               (case infer (input_name, take (nat (prod_list shape)) pixels, shape) (output_names s) of
                  Inl msg \<Rightarrow> (Inl msg, 2)
                | Inr values \<Rightarrow>
                    (case read_outputs fails 0 values of
                       Inl (msg, j) \<Rightarrow> (Inl msg, 2 + j)
                     | Inr results \<Rightarrow> (Inr results, 0)))))"

section \<open>Facts\<close>

lemma index_of_Some: "index_of n ns = Some i \<Longrightarrow> i < length ns \<and> ns ! i = n"
  by (induction ns arbitrary: i) (auto split: if_splits)

lemma index_of_None: "index_of n ns = None \<longleftrightarrow> n \<notin> set ns"
  by (induction ns) auto

lemma first_named_Some: "first_named ps ns = Some i \<Longrightarrow> i < length ns \<and> ns ! i \<in> set ps"
  by (induction ps) (auto split: option.splits dest: index_of_Some)

lemma first_named_None: "first_named ps ns = None \<longleftrightarrow> set ps \<inter> set ns = {}"
  by (induction ps) (auto simp: index_of_None split: option.split dest: index_of_Some)

lemma select_output_less: "output_names s \<noteq> [] \<Longrightarrow> select_output s preferred < length (output_names s)"
  by (auto simp: select_output_def split: option.split dest: index_of_Some first_named_Some)

lemma run_outputs_selected:
  "output_names s \<noteq> [] \<Longrightarrow>
     run_outputs s (int (select_output s preferred)) = [output_names s ! select_output s preferred]"
  using select_output_less [of s preferred] by (simp add: run_outputs_def)

lemma make_tensors_ok: "\<forall>n \<in> set ns. fails (CreateTensor n) = None \<Longrightarrow> make_tensors fails ns = Inr (length ns)"
  by (induction ns) simp_all

lemma read_outputs_ok:
  "\<forall>c. fails c = None \<Longrightarrow> \<forall>v \<in> set vs. prod_list (tr_shape v) = int (length (tr_data v)) \<Longrightarrow>
     read_outputs fails i vs = Inr vs"
  by (induction vs arbitrary: i) simp_all

text \<open>When no call fails, \<open>run\<close> hands the inference's tensors through and keeps no object.\<close>

lemma onnx_run_ok:
  assumes "\<forall>c. fails c = None" and "infer (run_inputs s ids attn types) b n (run_outputs s p) = Inr vs"
    and "\<forall>v \<in> set vs. prod_list (tr_shape v) = int (length (tr_data v))"
  shows "onnx_run fails infer s ids attn types b n p = (Inr vs, 0)"
  using assms by (simp add: onnx_run_def make_tensors_ok read_outputs_ok Let_def)

lemma read_names_ok:
  "\<forall>c. fails c = None \<Longrightarrow> read_names fails call i ns acc = (Inr (), acc @ ns)"
  by (induction ns arbitrary: i acc) simp_all

section \<open>Properties\<close>

text \<open>A session with at least one output is always asked for exactly one, inside the list of its
  outputs: the only one; else the preferred one when the model has it; else the first of text_embeds,
  last_hidden_state and sentence_embedding the model has; else its first output.\<close>

theorem select_output_spec:
  assumes "output_names s \<noteq> []"
  shows "run_outputs s (int (select_output s preferred)) =
    [if length (output_names s) = 1 then hd (output_names s)
     else if \<exists>p. preferred = Some p \<and> p \<in> set (output_names s) then the preferred
     else if ''text_embeds'' \<in> set (output_names s) then ''text_embeds''
     else if ''last_hidden_state'' \<in> set (output_names s) then ''last_hidden_state''
     else if ''sentence_embedding'' \<in> set (output_names s) then ''sentence_embedding''
     else hd (output_names s)]"
proof -
  have nth: "output_names s ! i = n" if "index_of n (output_names s) = Some i" for i n
    using index_of_Some [OF that] by simp
  have "output_names s ! 0 = hd (output_names s)" using assms by (simp add: hd_conv_nth)
  moreover have "n \<in> set (output_names s)" if "index_of n (output_names s) = Some i" for i n
    using that index_of_None [of n "output_names s"] by auto
  ultimately show ?thesis
    unfolding run_outputs_selected [OF assms]
    by (auto simp: select_output_def output_precedence_def index_of_None nth split: option.split)
qed

theorem select_output_spec_witness:
  "run_outputs \<lparr>opened = True, input_names = [], output_names = [''a'', ''last_hidden_state'']\<rparr> 1 =
     [''last_hidden_state'']"
  using select_output_spec [of "\<lparr>opened = True, input_names = [], output_names = [''a'', ''last_hidden_state'']\<rparr>" None]
  by (simp add: select_output_def output_precedence_def)

text \<open>A load that returns has opened the session and released its options. One that throws leaks
  the session options exactly when the failing call lies after their creation, up to and including
  the creation of the session; the session is then unchanged.\<close>

theorem load_leaks_options:
  "let (r, s', leaked) = onnx_load_from_file fails model_io path num_threads provider quantization s;
       middle = configure_calls num_threads provider quantization @ [CreateSession path]
   in (r = Inr () \<longrightarrow> opened s' \<and> leaked = 0) \<and>
      (leaked = 1 \<longleftrightarrow> fails CreateSessionOptions = None \<and> (\<exists>c \<in> set middle. fails c \<noteq> None)) \<and>
      (leaked = 1 \<longrightarrow> s' = s) \<and> leaked \<le> 1"
proof -
  have frame: "opened (snd (query_io_names fails io t)) = opened t" for io t
    by (simp add: query_io_names_def Let_def split: option.split prod.split sum.split)
  let ?middle = "configure_calls num_threads provider quantization @ [CreateSession path]"
  have "(\<exists>c \<in> set ?middle. fails c \<noteq> None) \<longleftrightarrow> ort_check fails ?middle \<noteq> Inr ()"
    unfolding ort_check_Inr by simp
  then show ?thesis
    using frame [of "model_io path" "s\<lparr>opened := True\<rparr>"]
    unfolding onnx_load_from_file_def create_session_def Let_def
    by (cases "ort_check fails ?middle")
      (auto simp del: set_append split: option.split prod.split sum.split)
qed


theorem load_leaks_options_witness:
  "snd (snd (onnx_load_from_file (\<lambda>c. if c = CreateSession ''m.onnx'' then Some ''no file'' else None)
     (\<lambda>_. ([], [])) ''m.onnx'' 0 0 0 onnx_session_new)) = 1"
  using load_leaks_options [of "\<lambda>c. if c = CreateSession ''m.onnx'' then Some ''no file'' else None"
      "\<lambda>_. ([], [])" "''m.onnx''" 0 0 0 onnx_session_new]
  by (simp add: Let_def split_beta)

end
