(* ===== verification/LlamaSession.thy ===== *)
theory LlamaSession
  imports Prelude
begin

text \<open>
  The llama.cpp session and the session pool of \<open>detail/llama_session_impl.hpp\<close>, with the worker
  heuristic of \<open>detail/worker_autotune_impl.hpp\<close> that sizes the pool. llama.cpp is an external
  library: a model handle is any type and its functions are the fields of \<open>llama_lib\<close>. The batch the
  code builds, the checks after every call and the rotation over the contexts are the model's.
\<close>

section \<open>Workers\<close>

record worker_config =
  physical_cores :: int
  logical_cores :: int
  optimal_workers :: int
  optimal_threads :: int

text \<open>The two readings are those of \<open>sysconf\<close>; the doubling is undefined when it overflows.\<close>

definition detect_optimal_workers :: "int \<Rightarrow> int \<Rightarrow> worker_config option" where
  "detect_optimal_workers nprocessors_onln nprocessors_conf =
     (case c_int (nprocessors_onln * 2) of
        None \<Rightarrow> None
      | Some twice \<Rightarrow>
          Some \<lparr>physical_cores = nprocessors_onln, logical_cores = nprocessors_conf,
                optimal_workers = min twice 8, optimal_threads = 1\<rparr>)"

definition recommended_workers_for_model :: "int \<Rightarrow> int \<Rightarrow> string \<Rightarrow> int option" where
  "recommended_workers_for_model onln conf model_path =
     map_option optimal_workers (detect_optimal_workers onln conf)"

section \<open>The library's interface\<close>

record llama_batch =
  b_token :: "int list"
  b_pos :: "nat list"
  b_seq_id :: "nat list"
  b_logits :: "bool list"

record llama_params =
  p_n_ctx :: int
  p_n_threads :: int
  p_n_batch :: "int option"

text \<open>
  \<open>lib_encode\<close> and \<open>lib_decode\<close> return the status and, on a context whose memory was cleared, what the
  context then answers: the sequence embedding or the logits, \<open>None\<close> for a null pointer.
\<close>

record ('m, 'f) llama_lib =
  lib_load :: "string \<Rightarrow> int \<Rightarrow> 'm option"
  lib_error :: "string \<Rightarrow> string"
  lib_n_embd :: "'m \<Rightarrow> int"
  lib_n_ctx_train :: "'m \<Rightarrow> int"
  lib_n_vocab :: "'m \<Rightarrow> int"
  lib_tokenize :: "'m \<Rightarrow> string \<Rightarrow> int list"
  lib_init :: "'m \<Rightarrow> llama_params \<Rightarrow> nat \<Rightarrow> bool"
  lib_encode :: "'m \<Rightarrow> llama_batch \<Rightarrow> int \<times> 'f list option"
  lib_decode :: "'m \<Rightarrow> llama_batch \<Rightarrow> int \<times> 'f list option"

definition gpu_layers :: "int \<Rightarrow> int" where
  "gpu_layers n_gpu_layers = (if n_gpu_layers < 0 then 999 else n_gpu_layers)"

definition context_length :: "int \<Rightarrow> int \<Rightarrow> int" where
  "context_length n_ctx n_ctx_train =
     (if n_ctx > 0 then n_ctx else if n_ctx_train \<le> 0 then 4096 else n_ctx_train)"

definition load_message :: "string \<Rightarrow> string \<Rightarrow> string \<Rightarrow> string" where
  "load_message head path err =
     head @ path @ (if err \<noteq> [] then '' | llama.cpp error: '' @ err else [])"

definition build_batch :: "bool \<Rightarrow> int list \<Rightarrow> llama_batch" where
  "build_batch want_logits tokens =
     \<lparr>b_token = tokens, b_pos = [0..<length tokens], b_seq_id = map (\<lambda>_. 0) tokens,
      b_logits = map (\<lambda>_. want_logits) tokens\<rparr>"

section \<open>One session\<close>

text \<open>The vocabulary and the context are pointers into the model they were made from.\<close>

record 'm llama_session =
  ls_model :: "'m option"
  ls_vocab :: "'m option"
  ls_ctx :: "'m option"
  ls_n_ctx :: int
  ls_n_embd :: int
  ls_n_threads :: int

definition llama_session_new :: "'m llama_session" where
  "llama_session_new = \<lparr>ls_model = None, ls_vocab = None, ls_ctx = None, ls_n_ctx = 0, ls_n_embd = 0, ls_n_threads = 0\<rparr>"

definition llama_load ::
    "('m, 'f) llama_lib \<Rightarrow> string \<Rightarrow> int \<Rightarrow> int \<Rightarrow> int \<Rightarrow> int \<Rightarrow> 'm llama_session
      \<Rightarrow> (string + unit) \<times> 'm llama_session" where
  "llama_load lib path num_threads n_ctx n_gpu_layers n_batch s =
     (case lib_load lib path (gpu_layers n_gpu_layers) of
        None \<Rightarrow> (Inl (load_message ''Failed to load GGUF model: '' path (lib_error lib path)), s\<lparr>ls_model := None\<rparr>)
      | Some m \<Rightarrow>
          let n = context_length n_ctx (lib_n_ctx_train lib m);
              threads = (if num_threads > 0 then num_threads else 4);
              s1 = s\<lparr>ls_model := Some m, ls_vocab := Some m, ls_n_embd := lib_n_embd lib m, ls_n_ctx := n, ls_n_threads := threads\<rparr>;
              params = \<lparr>p_n_ctx = n, p_n_threads = threads,
                        p_n_batch = (if n_batch > 0 then Some n_batch else None)\<rparr>
          in if lib_init lib m params 0 then (Inr (), s1\<lparr>ls_ctx := Some m\<rparr>)
             else (Inl ''Failed to create llama context for embeddings'', s1\<lparr>ls_model := None, ls_ctx := None\<rparr>))"

text \<open>\<open>max_tokens\<close> is computed and not used: the tokens of the whole text are returned.\<close>

definition llama_tokens :: "('m, 'f) llama_lib \<Rightarrow> 'm option \<Rightarrow> string \<Rightarrow> int list" where
  "llama_tokens lib vocab s = (case vocab of None \<Rightarrow> [] | Some m \<Rightarrow> lib_tokenize lib m s)"

text \<open>What follows an encode: the status, the pointer, the copy of \<open>n_embd\<close> entries.\<close>

definition take_embedding :: "string \<Rightarrow> string \<Rightarrow> int \<Rightarrow> int \<times> 'f list option \<Rightarrow> string + 'f list" where
  "take_embedding encode_msg null_msg n_embd r =
     (if fst r \<noteq> 0 then Inl encode_msg
      else case snd r of None \<Rightarrow> Inl null_msg | Some v \<Rightarrow> Inr (take (nat n_embd) v))"

definition llama_embed_tokens ::
    "('m, 'f::zero) llama_lib \<Rightarrow> 'm llama_session \<Rightarrow> int list \<Rightarrow> string + 'f list" where
  "llama_embed_tokens lib s tokens =
     (case ls_ctx s of
        Some m \<Rightarrow>
          if tokens = [] then Inr (replicate (nat (ls_n_embd s)) 0)
          else take_embedding ''llama_encode failed for embedding extraction''
                 ''Failed to retrieve embeddings from llama context'' (ls_n_embd s)
                 (lib_encode lib m (build_batch False tokens))
      | None \<Rightarrow> Inr (replicate (nat (ls_n_embd s)) 0))"

definition llama_embed :: "('m, 'f::zero) llama_lib \<Rightarrow> 'm llama_session \<Rightarrow> string \<Rightarrow> string + 'f list" where
  "llama_embed lib s txt = llama_embed_tokens lib s (llama_tokens lib (ls_vocab s) txt)"

fun llama_embed_each :: "(string \<Rightarrow> string + 'f list) \<Rightarrow> string list \<Rightarrow> string + 'f list list" where
  "llama_embed_each embed1 [] = Inr []"
| "llama_embed_each embed1 (t # ts) =
     bind_sum (embed1 t) (\<lambda>v. bind_sum (llama_embed_each embed1 ts) (\<lambda>vs. Inr (v # vs)))"

text \<open>The score of a pair: the first logit of the last token; \<open>None\<close> reads past the logits.\<close>

definition llama_classify ::
    "('m, 'f::zero) llama_lib \<Rightarrow> 'm llama_session \<Rightarrow> string \<Rightarrow> (string + 'f) option" where
  "llama_classify lib s txt =
     (case ls_ctx s of
        None \<Rightarrow> Some (Inl ''LlamaSession: null context'')
      | Some m \<Rightarrow>
          let tokens = llama_tokens lib (ls_vocab s) txt in
            if tokens = [] then Some (Inr 0)
            else case lib_decode lib m (build_batch True tokens) of (ret, out) \<Rightarrow>
              if ret \<noteq> 0 then Some (Inl ''llama_decode failed for classification'')
              else case out of
                     None \<Rightarrow> Some (Inl ''Failed to retrieve logits from llama context'')
                   | Some logits \<Rightarrow>
                       (case ls_model s of
                          None \<Rightarrow> None
                        | Some mv \<Rightarrow>
                            (case c_int ((int (length tokens) - 1) * lib_n_vocab lib mv) of
                               None \<Rightarrow> None
                             | Some i \<Rightarrow>
                                 if 0 \<le> i \<and> nat i < length logits then Some (Inr (logits ! nat i)) else None)))"

section \<open>The pool\<close>

text \<open>A context is the model it was made from; the index of the next one is an atomic \<open>size_t\<close>.\<close>

record 'm llama_pool =
  lp_model :: "'m option"
  lp_vocab :: "'m option"
  lp_n_embd :: int
  lp_n_ctx :: int
  lp_contexts :: "'m list"
  lp_next :: "64 word"

definition llama_pool_new :: "'m llama_pool" where
  "llama_pool_new = \<lparr>lp_model = None, lp_vocab = None, lp_n_embd = 0, lp_n_ctx = 0, lp_contexts = [], lp_next = 0\<rparr>"

fun init_contexts :: "(nat \<Rightarrow> bool) \<Rightarrow> nat \<Rightarrow> nat \<Rightarrow> nat \<times> bool" where
  "init_contexts ok 0 made = (made, True)"
| "init_contexts ok (Suc k) made = (if ok made then init_contexts ok k (Suc made) else (made, False))"

definition pool_load ::
    "('m, 'f) llama_lib \<Rightarrow> string \<Rightarrow> int \<Rightarrow> int \<Rightarrow> int \<Rightarrow> int \<Rightarrow> int \<Rightarrow> 'm llama_pool
      \<Rightarrow> (string + unit) \<times> 'm llama_pool" where
  "pool_load lib path n_sessions threads_per_session n_ctx n_gpu_layers n_batch p =
     (if n_sessions \<le> 0 then (Inl ''LlamaSessionPool: n_sessions must be > 0'', p)
      else case lib_load lib path (gpu_layers n_gpu_layers) of
        None \<Rightarrow> (Inl (load_message ''Failed to load GGUF: '' path (lib_error lib path)), p\<lparr>lp_model := None\<rparr>)
      | Some m \<Rightarrow>
          let n = context_length n_ctx (lib_n_ctx_train lib m);
              params = \<lparr>p_n_ctx = n, p_n_threads = threads_per_session,
                        p_n_batch = (if n_batch > 0 then Some n_batch else None)\<rparr>
          in case init_contexts (lib_init lib m params) (nat n_sessions) 0 of (made, all) \<Rightarrow>
            (if all then Inr () else Inl ''Failed to create llama context'',
             p\<lparr>lp_model := Some m, lp_vocab := Some m, lp_n_embd := lib_n_embd lib m, lp_n_ctx := n,
               lp_contexts := replicate made m\<rparr>))"

definition pool_load_auto ::
    "('m, 'f) llama_lib \<Rightarrow> int \<Rightarrow> int \<Rightarrow> string \<Rightarrow> int \<Rightarrow> int \<Rightarrow> int \<Rightarrow> 'm llama_pool
      \<Rightarrow> ((string + unit) \<times> 'm llama_pool) option" where
  "pool_load_auto lib onln conf path n_ctx n_gpu_layers n_batch p =
     map_option (\<lambda>workers. pool_load lib path workers 1 n_ctx n_gpu_layers n_batch p)
       (recommended_workers_for_model onln conf path)"

text \<open>The context an \<open>embed\<close> takes, and the counter after it.\<close>

definition next_context :: "'m llama_pool \<Rightarrow> nat \<times> 'm llama_pool" where
  "next_context p = (unat (lp_next p) mod length (lp_contexts p), p\<lparr>lp_next := lp_next p + 1\<rparr>)"

definition pool_embed ::
    "('m, 'f) llama_lib \<Rightarrow> 'm llama_pool \<Rightarrow> string \<Rightarrow> (string + 'f list) \<times> 'm llama_pool" where
  "pool_embed lib p txt =
     (if lp_contexts p = [] then (Inl ''LlamaSessionPool: no contexts available'', p)
      else case next_context p of (idx, p1) \<Rightarrow>
        (take_embedding ''llama_encode failed'' ''Failed to retrieve embeddings'' (lp_n_embd p1)
           (lib_encode lib (lp_contexts p1 ! idx) (build_batch False (llama_tokens lib (lp_vocab p1) txt))), p1))"

fun pool_embed_batch ::
    "('m, 'f) llama_lib \<Rightarrow> 'm llama_pool \<Rightarrow> string list \<Rightarrow> (string + 'f list list) \<times> 'm llama_pool" where
  "pool_embed_batch lib p [] = (Inr [], p)"
| "pool_embed_batch lib p (t # ts) =
     (case pool_embed lib p t of
        (Inl e, p1) \<Rightarrow> (Inl e, p1)
      | (Inr v, p1) \<Rightarrow>
          (case pool_embed_batch lib p1 ts of
             (Inl e, p2) \<Rightarrow> (Inl e, p2) | (Inr vs, p2) \<Rightarrow> (Inr (v # vs), p2)))"

section \<open>Facts\<close>

lemma init_contexts_all: "init_contexts ok k made = (n, True) \<Longrightarrow> n = made + k"
  by (induction ok k made rule: init_contexts.induct) (auto split: if_splits)

lemma pool_load_ok:
  assumes "pool_load lib path n threads n_ctx gpu n_batch p = (Inr (), p')"
  shows "0 < n \<and> (\<exists>m. lp_contexts p' = replicate (nat n) m \<and> lp_vocab p' = Some m \<and>
    lib_load lib path (gpu_layers gpu) = Some m \<and> lp_n_embd p' = lib_n_embd lib m)"
  using assms
  by (auto simp: pool_load_def Let_def split: if_splits option.splits prod.splits dest: init_contexts_all)

lemma pool_embed_frame:
  "snd (pool_embed lib p t) = (if lp_contexts p = [] then p else p\<lparr>lp_next := lp_next p + 1\<rparr>)"
  by (simp add: pool_embed_def next_context_def)

lemma fold_next_context:
  "((snd \<circ> next_context) ^^ k) p = p\<lparr>lp_next := lp_next p + of_nat k\<rparr>"
  by (induction k) (simp_all add: next_context_def algebra_simps)

lemma take_embedding_length:
  "take_embedding m1 m2 n r = Inr v \<Longrightarrow> (\<forall>w. snd r = Some w \<longrightarrow> length w = nat n) \<Longrightarrow> length v = nat n"
  by (auto simp: take_embedding_def split: if_splits option.splits)

lemma mod_shift_inj:
  assumes "(j::nat) < n" and "k < n" and "(s + j) mod n = (s + k) mod n"
  shows "j = k"
proof -
  have "a = b" if "a \<le> b" "b < n" "(s + b) mod n = (s + a) mod n" for a b
  proof -
    from that have "n dvd b - a" by (simp add: mod_eq_dvd_iff_nat)
    with that show ?thesis using nat_dvd_not_less [of "b - a" n] by linarith
  qed
  from this [of j k] this [of k j] assms show ?thesis by linarith
qed

section \<open>Properties\<close>

text \<open>The pool is a faithful replacement of the session: loaded from one file, with the same GPU
  layers, a pool embeds a list of texts, each of at least one token, to exactly the vectors a session
  gives one by one, whatever contexts the rotation picks.\<close>

theorem pool_refines_session:
  assumes "pool_load lib path n threads n_ctx gpu n_batch pi = (Inr (), p)"
    and "llama_load lib path threads' n_ctx' gpu n_batch' si = (Inr (), s)"
    and "\<forall>t \<in> set ts. llama_tokens lib (ls_vocab s) t \<noteq> []"
    and "llama_embed_each (llama_embed lib s) ts = Inr vs"
  shows "fst (pool_embed_batch lib p ts) = Inr vs"
proof -
  from pool_load_ok [OF assms(1)] obtain m where
    m: "lib_load lib path (gpu_layers gpu) = Some m" and n: "0 < n" by blast
  from assms(2) m have s: "ls_vocab s = Some m" "ls_ctx s = Some m" "ls_n_embd s = lib_n_embd lib m"
    by (auto simp: llama_load_def Let_def split: if_splits)
  have "fst (pool_embed_batch lib q ts) = Inr vs"
    if "lp_vocab q = Some m" "lp_contexts q = replicate (nat n) m" "lp_n_embd q = lib_n_embd lib m" for q
    using assms(3,4) that
  proof (induction ts arbitrary: q vs)
    case (Cons t ts)
    from Cons.prems(2) obtain v vs' where v: "llama_embed lib s t = Inr v"
      and vs': "llama_embed_each (llama_embed lib s) ts = Inr vs'" "vs = v # vs'"
      by (auto simp: bind_sum_Inr)
    let ?q1 = "snd (pool_embed lib q t)"
    have q1: "lp_vocab ?q1 = Some m" "lp_contexts ?q1 = replicate (nat n) m" "lp_n_embd ?q1 = lib_n_embd lib m"
      using Cons.prems by (simp_all add: pool_embed_frame)
    have "fst (pool_embed lib q t) = Inr v"
      using v Cons.prems s n
      by (auto simp: pool_embed_def next_context_def llama_embed_def llama_embed_tokens_def
          take_embedding_def split: if_splits option.splits)
    moreover have "fst (pool_embed_batch lib ?q1 ts) = Inr vs'"
      using Cons.prems(1) by (intro Cons.IH vs'(1) q1) simp
    ultimately show ?case using vs'(2)
      by (auto split: prod.split sum.split simp: prod_eq_iff)
  qed simp
  moreover from pool_load_ok [OF assms(1)] m have
    "lp_vocab p = Some m" "lp_contexts p = replicate (nat n) m" "lp_n_embd p = lib_n_embd lib m" by auto
  ultimately show ?thesis by blast
qed

definition sample_lib :: "(int, int) llama_lib" where
  "sample_lib = \<lparr>lib_load = \<lambda>p g. Some 2, lib_error = \<lambda>_. [], lib_n_embd = \<lambda>m. m, lib_n_ctx_train = \<lambda>_. 8,
     lib_n_vocab = \<lambda>_. 4, lib_tokenize = \<lambda>m s. map (\<lambda>c. int (byte c)) s, lib_init = \<lambda>m p i. True,
     lib_encode = \<lambda>m b. (0, Some [sum_list (b_token b), int (length (b_token b)), 9]),
     lib_decode = \<lambda>m b. (0, Some (b_token b))\<rparr>"

theorem pool_refines_session_witness:
  "fst (pool_embed_batch sample_lib \<lparr>lp_model = Some 2, lp_vocab = Some 2, lp_n_embd = 2, lp_n_ctx = 8,
     lp_contexts = [2, 2], lp_next = 0\<rparr>
     [''ab'', ''c'']) = Inr [[195, 2], [99, 1]]"
proof (rule pool_refines_session [where path = "''m''" and n = 2 and threads = 1 and n_ctx = 0 and gpu = 0
      and n_batch = 0 and pi = llama_pool_new and si = llama_session_new and threads' = 1 and n_ctx' = 0
      and n_batch' = 0
      and s = "\<lparr>ls_model = Some 2, ls_vocab = Some 2, ls_ctx = Some 2, ls_n_ctx = 8, ls_n_embd = 2, ls_n_threads = 1\<rparr>"])
  show "pool_load sample_lib ''m'' 2 1 0 0 0 llama_pool_new =
      (Inr (), \<lparr>lp_model = Some 2, lp_vocab = Some 2, lp_n_embd = 2, lp_n_ctx = 8,
     lp_contexts = [2, 2], lp_next = 0\<rparr>)"
    by (simp add: pool_load_def sample_lib_def context_length_def llama_pool_new_def numeral_2_eq_2)
  show "llama_load sample_lib ''m'' 1 0 0 0 llama_session_new =
      (Inr (), \<lparr>ls_model = Some 2, ls_vocab = Some 2, ls_ctx = Some 2, ls_n_ctx = 8, ls_n_embd = 2, ls_n_threads = 1\<rparr>)"
    by (simp add: llama_load_def sample_lib_def context_length_def llama_session_new_def)
qed (simp_all add: sample_lib_def llama_tokens_def llama_embed_def llama_embed_tokens_def take_embedding_def
    build_batch_def byte_def)

text \<open>The rotation is fair: of any run of consecutive embeds as long as the pool, during which the
  atomic counter does not wrap around, each context serves exactly one.\<close>

theorem pool_round_robin:
  assumes "lp_contexts p \<noteq> []" and "unat (lp_next p) + length (lp_contexts p) \<le> 2 ^ 64"
  shows "bij_betw (\<lambda>k. fst (next_context (((snd \<circ> next_context) ^^ k) p))) {..<length (lp_contexts p)} {..<length (lp_contexts p)}"
proof -
  let ?n = "length (lp_contexts p)" and ?s = "unat (lp_next p)"
  have idx: "fst (next_context (((snd \<circ> next_context) ^^ k) p)) = (?s + k) mod ?n" if "k < ?n" for k
  proof -
    have "?s + k < 2 ^ LENGTH(64)" using that assms(2) by simp
    then have "unat (lp_next p + of_nat k) = ?s + k"
      by (simp add: unat_word_ariths unat_of_nat mod_simps)
    then show ?thesis unfolding fold_next_context by (simp add: next_context_def)
  qed
  have "inj_on (\<lambda>k. (?s + k) mod ?n) {..<?n}"
  proof (rule inj_onI)
    fix j k assume "j \<in> {..<?n}" "k \<in> {..<?n}" and eq: "(?s + j) mod ?n = (?s + k) mod ?n"
    then show "j = k" by (intro mod_shift_inj [of j ?n k ?s]) simp_all
  qed
  moreover have "(\<lambda>k. (?s + k) mod ?n) ` {..<?n} \<subseteq> {..<?n}" using assms(1) by auto
  ultimately have "bij_betw (\<lambda>k. (?s + k) mod ?n) {..<?n} {..<?n}"
    by (simp add: bij_betw_def endo_inj_surj)
  then show ?thesis by (subst bij_betw_cong [OF idx]) simp_all
qed

theorem pool_round_robin_witness:
  "bij_betw (\<lambda>k. fst (next_context (((snd \<circ> next_context) ^^ k)
     \<lparr>lp_model = Some (), lp_vocab = Some (), lp_n_embd = 2, lp_n_ctx = 8, lp_contexts = [(), (), ()], lp_next = 7\<rparr>))) {..<3} {..<3}"
  using pool_round_robin [of "\<lparr>lp_model = Some (), lp_vocab = Some (), lp_n_embd = 2, lp_n_ctx = 8, lp_contexts = [(), (), ()], lp_next = 7\<rparr>"]
  by (simp add: numeral_3_eq_3)

end
