(* ===== verification/Batching.thy ===== *)
theory Batching
  imports Prelude
begin

text \<open>
  Batch ranges (\<open>detail/batch.hpp\<close>) and the length-bucketed embedding of
  \<open>detail/llama_session_impl.hpp\<close>. C \<open>int\<close> overflow and division by zero are \<open>None\<close>. The model's
  \<open>embed\<close> and its tokenizer are arguments.
\<close>

section \<open>Batch ranges\<close>

record batch_range =
  range_start :: int
  range_end :: int

definition effective_size :: "int \<Rightarrow> int \<Rightarrow> int" where
  "effective_size items batch_size = (if batch_size \<le> 0 then items else batch_size)"

definition batch_count :: "int \<Rightarrow> int \<Rightarrow> int option" where
  "batch_count items batch_size =
     (let b = effective_size items batch_size in
      case c_int (items + b) of
        None \<Rightarrow> None
      | Some s \<Rightarrow> (case c_int (s - 1) of None \<Rightarrow> None | Some n \<Rightarrow> c_div n b))"

definition get_batch :: "int \<Rightarrow> int \<Rightarrow> int \<Rightarrow> batch_range option" where
  "get_batch index items batch_size =
     (let b = effective_size items batch_size in
      case c_int (index * b) of
        None \<Rightarrow> None
      | Some s \<Rightarrow> (case c_int (s + b) of None \<Rightarrow> None
                  | Some e \<Rightarrow> Some \<lparr>range_start = s, range_end = min e items\<rparr>))"

definition batch_slice :: "int \<Rightarrow> int \<Rightarrow> 'a list \<Rightarrow> 'a list" where
  "batch_slice index batch_size xs =
     (case get_batch index (int (length xs)) batch_size of
        None \<Rightarrow> [] | Some r \<Rightarrow> sub_list (nat (range_start r)) (nat (range_end r)) xs)"

text \<open>With \<open>items = n\<close> and \<open>b\<close> positive the \<open>int\<close> arithmetic is that of natural numbers.\<close>

lemma batch_count_nat:
  assumes "0 < b" and "int items + int b \<le> INT_MAX"
  shows "batch_count (int items) (int b) = Some (int ((items + b - 1) div b))"
proof -
  have "int (items + b - 1) = int items + int b - 1" using assms(1) by linarith
  then have t: "trunc_div (int items + int b - 1) (int b) = int ((items + b - 1) div b)"
    using assms(1) by (subst trunc_div_nonneg) (simp_all add: zdiv_int)
  have "(items + b - 1) div b \<le> items + b - 1" by (rule div_le_dividend)
  then have "int ((items + b - 1) div b) \<le> INT_MAX" using assms by linarith
  with t assms show ?thesis
    by (simp add: batch_count_def effective_size_def c_div_def c_int_def INT_MIN_def)
qed

lemma batch_ranges_below:
  assumes "i < (items + b - 1) div b" and "0 < (b::nat)"
  shows "i * b < items"
proof -
  from assms(1) have "Suc i * b \<le> (items + b - 1) div b * b"
    by (intro mult_le_mono1) simp
  also have "\<dots> \<le> items + b - 1" by simp
  finally show ?thesis using assms(2) by simp
qed

lemma get_batch_nat:
  assumes "0 < b" and "int items + int b \<le> INT_MAX" and "i < (items + b - 1) div b"
  shows "get_batch (int i) (int items) (int b) =
    Some \<lparr>range_start = int (i * b), range_end = int (min (Suc i * b) items)\<rparr>"
proof -
  have "i * b < items" by (rule batch_ranges_below [OF assms(3,1)])
  then have "int i * int b < int items" by (metis of_nat_less_iff of_nat_mult)
  moreover have "- 2147483648 \<le> int i * int b" by (rule order_trans [of _ 0]) simp_all
  ultimately show ?thesis using assms
    by (auto simp: of_nat_min get_batch_def effective_size_def c_int_def INT_MIN_def Let_def algebra_simps)
qed

lemma slices_prefix:
  "k \<le> (length xs + b - 1) div b \<Longrightarrow> 0 < (b::nat) \<Longrightarrow>
     concat (map (\<lambda>i. sub_list (i * b) (min (Suc i * b) (length xs)) xs) [0..<k]) = sub_list 0 (k * b) xs"
proof (induction k)
  case (Suc k)
  then have "k * b < length xs" by (intro batch_ranges_below) auto
  moreover have "sub_list (k * b) (min (Suc k * b) (length xs)) xs = sub_list (k * b) (Suc k * b) xs"
    by (simp add: sub_list_def min_def)
  ultimately show ?case
    using Suc sub_list_append [of 0 "k * b" "Suc k * b" xs] by simp
qed (simp add: sub_list_def)

section \<open>Length-bucketed embedding\<close>

text \<open>The first text whose embedding throws ends the batch; the others never run.\<close>

fun embed_batch :: "(string \<Rightarrow> 'e + 'v) \<Rightarrow> string list \<Rightarrow> 'e + 'v list" where
  "embed_batch embed1 [] = Inr []"
| "embed_batch embed1 (t # ts) =
     (case embed1 (c_str t) of
        Inl e \<Rightarrow> Inl e
      | Inr v \<Rightarrow> (case embed_batch embed1 ts of Inl e \<Rightarrow> Inl e | Inr vs \<Rightarrow> Inr (v # vs)))"

text \<open>\<open>out[idx[j]] = vals[j]\<close> for every \<open>j\<close>.\<close>

fun scatter :: "nat list \<Rightarrow> 'v list \<Rightarrow> 'v list \<Rightarrow> 'v list" where
  "scatter (i # is) (v # vs) out = scatter is vs (out[i := v])"
| "scatter _ _ out = out"

fun bucket_loop ::
    "(string list \<Rightarrow> 'e + 'v list) \<Rightarrow> int \<Rightarrow> (nat \<times> string) list \<Rightarrow> string list \<Rightarrow> nat list \<Rightarrow> 'v list \<Rightarrow> 'e + 'v list"
  where
  "bucket_loop eb batch_size [] texts idx out = Inr out"
| "bucket_loop eb batch_size ((i, t) # rest) texts idx out =
     (if int (length (texts @ [t])) \<ge> batch_size \<or> rest = [] then
        (case eb (texts @ [t]) of
           Inl e \<Rightarrow> Inl e
         | Inr vs \<Rightarrow> bucket_loop eb batch_size rest [] [] (scatter (idx @ [i]) vs out))
      else bucket_loop eb batch_size rest (texts @ [t]) (idx @ [i]) out)"

text \<open>What ends the call: \<open>reserve\<close> of a negative size, or what the embedding of a text throws.\<close>

datatype 'e bucket_error = ReserveLength | EmbedThrows 'e

text \<open>The texts with their indices, as \<open>std::sort\<close> leaves them.\<close>

definition by_token_length ::
    "((nat \<times> string \<Rightarrow> nat \<times> string \<Rightarrow> bool) \<Rightarrow> (nat \<times> string) list \<Rightarrow> (nat \<times> string) list) \<Rightarrow>
     (string \<Rightarrow> nat) \<Rightarrow> string list \<Rightarrow> (nat \<times> string) list" where
  "by_token_length srt token_length texts =
     srt (\<lambda>a b. token_length (snd a) < token_length (snd b)) (zip [0..<length texts] texts)"

definition embed_batch_bucketed ::
    "((nat \<times> string \<Rightarrow> nat \<times> string \<Rightarrow> bool) \<Rightarrow> (nat \<times> string) list \<Rightarrow> (nat \<times> string) list) \<Rightarrow>
     (string \<Rightarrow> nat) \<Rightarrow> (string \<Rightarrow> 'e + 'v list) \<Rightarrow> string list \<Rightarrow> int \<Rightarrow> 'e bucket_error + 'v list list" where
  "embed_batch_bucketed srt token_length embed1 texts batch_size =
     (if texts = [] then Inr []
      else if batch_size < 0 then Inl ReserveLength
      else (case bucket_loop (embed_batch embed1) batch_size (by_token_length srt token_length texts) [] []
                   (replicate (length texts) []) of
              Inl e \<Rightarrow> Inl (EmbedThrows e)
            | Inr out \<Rightarrow> Inr out))"

lemma length_scatter [simp]: "length (scatter is vs out) = length out"
  by (induction "is" vs out rule: scatter.induct) simp_all

lemma scatter_map:
  "\<forall>i \<in> set is. i < length out \<Longrightarrow> k < length out \<Longrightarrow>
     scatter is (map f is) out ! k = (if k \<in> set is then f k else out ! k)"
proof (induction "is" arbitrary: out)
  case (Cons i "is")
  then show ?case by (auto simp: nth_list_update)
qed simp

text \<open>The first text that throws, and what the batch does.\<close>

definition first_throw :: "(string \<Rightarrow> 'e + 'v) \<Rightarrow> string list \<Rightarrow> 'e option" where
  "first_throw e ts = map_option (\<lambda>t. projl (e (c_str t))) (List.find (\<lambda>t. isl (e (c_str t))) ts)"

lemma first_throw_append:
  "first_throw e (xs @ ys) = (case first_throw e xs of None \<Rightarrow> first_throw e ys | Some x \<Rightarrow> Some x)"
  by (induction xs) (simp_all add: first_throw_def)

lemma first_throw_None: "first_throw e ts = None \<longleftrightarrow> (\<forall>t \<in> set ts. \<not> isl (e (c_str t)))"
  by (auto simp: first_throw_def find_None_iff)

lemma embed_batch_spec:
  "embed_batch e ts = (case first_throw e ts of Some x \<Rightarrow> Inl x | None \<Rightarrow> Inr (map (\<lambda>t. projr (e (c_str t))) ts))"
  by (induction ts) (auto simp: first_throw_def split: sum.split option.split)

text \<open>The loop fills exactly the slots of the pending and the remaining indices, unless one of their texts throws.\<close>

lemma bucket_loop_spec:
  assumes "\<forall>(i, t) \<in> set pairs. i < length out \<and> t = f i" and "\<forall>i \<in> set idx. i < length out"
    and "pairs = [] \<longrightarrow> idx = []"
  shows "case first_throw e (map f idx @ map snd pairs) of
      Some x \<Rightarrow> bucket_loop (embed_batch e) b pairs (map f idx) idx out = Inl x
    | None \<Rightarrow> \<exists>out'. bucket_loop (embed_batch e) b pairs (map f idx) idx out = Inr out' \<and> length out' = length out \<and>
        (\<forall>k < length out. out' ! k = (if k \<in> fst ` set pairs \<union> set idx then projr (e (c_str (f k))) else out ! k))"
  using assms
proof (induction pairs arbitrary: idx out)
  case (Cons p rest)
  obtain i where p: "p = (i, f i)" using Cons.prems(1) by (cases p) auto
  let ?idx = "idx @ [i]" and ?v = "\<lambda>k. projr (e (c_str (f k)))"
  have bound: "\<forall>j \<in> set ?idx. j < length out" using Cons.prems(1,2) p by auto
  have texts: "map f idx @ map snd (p # rest) = map f ?idx @ map snd rest" using p by simp
  show ?case
  proof (cases "int (length ?idx) \<ge> b \<or> rest = []")
    case False
    have "map f idx @ [f i] = map f ?idx" by simp
    then have step: "bucket_loop (embed_batch e) b (p # rest) (map f idx) idx out = bucket_loop (embed_batch e) b rest (map f ?idx) ?idx out"
      using False p by simp
    have sets: "fst ` set (p # rest) \<union> set idx = fst ` set rest \<union> set ?idx" using p by auto
    show ?thesis
      unfolding texts step sets using Cons.prems(1) bound False by (intro Cons.IH) simp_all
  next
    case flush: True
    show ?thesis
    proof (cases "first_throw e (map f ?idx)")
      case (Some x)
      then have "embed_batch e (map f idx @ [f i]) = Inl x" using embed_batch_spec [of e "map f ?idx"] by simp
      then have "bucket_loop (embed_batch e) b (p # rest) (map f idx) idx out = Inl x" using flush p by simp
      moreover have "first_throw e (map f idx @ map snd (p # rest)) = Some x"
        unfolding texts first_throw_append [of e "map f ?idx"] Some by simp
      ultimately show ?thesis by simp
    next
      case None
      let ?out = "scatter ?idx (map ?v ?idx) out"
      have sc: "?out ! k = (if k \<in> set ?idx then ?v k else out ! k)" if "k < length out" for k
        by (rule scatter_map [OF bound that])
      have "embed_batch e (map f idx @ [f i]) = Inr (map ?v ?idx)" using embed_batch_spec [of e "map f ?idx"] None by (simp add: o_def)
      then have step: "bucket_loop (embed_batch e) b (p # rest) (map f idx) idx out = bucket_loop (embed_batch e) b rest (map f []) [] ?out"
        using flush p by simp
      have "first_throw e (map f idx @ map snd (p # rest)) = first_throw e (map f [] @ map snd rest)"
        unfolding texts first_throw_append [of e "map f ?idx"] None by simp
      moreover have "case first_throw e (map f [] @ map snd rest) of
          Some x \<Rightarrow> bucket_loop (embed_batch e) b rest (map f []) [] ?out = Inl x
        | None \<Rightarrow> \<exists>out'. bucket_loop (embed_batch e) b rest (map f []) [] ?out = Inr out' \<and> length out' = length ?out \<and>
            (\<forall>k < length ?out. out' ! k = (if k \<in> fst ` set rest \<union> set [] then ?v k else ?out ! k))"
        using Cons.prems by (intro Cons.IH) auto
      moreover have "k \<in> fst ` set (p # rest) \<union> set idx \<longleftrightarrow> k \<in> fst ` set rest \<or> k \<in> set ?idx" for k using p by auto
      ultimately show ?thesis unfolding step using sc by (cases "first_throw e (map f [] @ map snd rest)") auto
    qed
  qed
qed (simp add: first_throw_def)

section \<open>Properties\<close>

text \<open>For a positive batch size and no overflow, the ranges of \<open>get_batch\<close> for the indices below
  \<open>batch_count\<close> are defined and cut any list of that length into consecutive non-empty parts that
  give it back.\<close>

theorem batches_partition:
  assumes "0 < b" and "int (length xs) + int b \<le> INT_MAX"
  shows "\<exists>n. batch_count (int (length xs)) (int b) = Some (int n) \<and>
    concat (map (\<lambda>i. batch_slice (int i) (int b) xs) [0..<n]) = xs \<and>
    (\<forall>i < n. batch_slice (int i) (int b) xs \<noteq> [] \<and> length (batch_slice (int i) (int b) xs) \<le> b)"
proof -
  let ?n = "(length xs + b - 1) div b"
  have slice: "batch_slice (int i) (int b) xs = sub_list (i * b) (min (Suc i * b) (length xs)) xs"
    if "i < ?n" for i
    using get_batch_nat [OF assms that] by (simp add: batch_slice_def nat_mult_distrib)
  have "concat (map (\<lambda>i. batch_slice (int i) (int b) xs) [0..<?n]) =
      concat (map (\<lambda>i. sub_list (i * b) (min (Suc i * b) (length xs)) xs) [0..<?n])"
    by (intro arg_cong [of _ _ concat] map_cong refl slice) simp
  also have "\<dots> = sub_list 0 (?n * b) xs"
    by (rule slices_prefix) (simp_all add: assms)
  also have "\<dots> = xs"
  proof (rule sub_list_full)
    have "(length xs + b - 1) mod b < b" using assms(1) by simp
    then show "length xs \<le> ?n * b"
      using div_mult_mod_eq [of "length xs + b - 1" b] by linarith
  qed
  finally have "concat (map (\<lambda>i. batch_slice (int i) (int b) xs) [0..<?n]) = xs" .
  moreover have "batch_slice (int i) (int b) xs \<noteq> [] \<and> length (batch_slice (int i) (int b) xs) \<le> b"
    if "i < ?n" for i
    using batch_ranges_below [OF that assms(1)] assms(1) slice [OF that]
    by (auto simp: min_def simp flip: length_0_conv)
  ultimately show ?thesis
    using batch_count_nat [OF assms] by (intro exI [of _ ?n]) simp
qed

theorem batches_partition_witness:
  "\<exists>n. batch_count 5 2 = Some (int n) \<and>
    concat (map (\<lambda>i. batch_slice (int i) 2 ''abcde'') [0..<n]) = ''abcde''"
  using batches_partition [of 2 "''abcde''"] by (auto simp: INT_MAX_def)

text \<open>C21. Bucketing by length is invisible: whatever \<open>std::sort\<close> does with texts of equal length and whatever the
  batch size, the vectors come back in the order of the texts when every text embeds. When one throws, its exception
  ends the call, the first in the sorted order winning, and a negative batch size throws before any text runs.\<close>

theorem bucketed_is_map:
  assumes "sorter srt"
  shows "embed_batch_bucketed srt token_length embed1 texts batch_size =
    (if texts = [] then Inr []
     else if batch_size < 0 then Inl ReserveLength
     else if \<forall>t \<in> set texts. \<not> isl (embed1 (c_str t)) then Inr (map (\<lambda>t. projr (embed1 (c_str t))) texts)
     else Inl (EmbedThrows (the (first_throw embed1 (map snd (by_token_length srt token_length texts))))))"
proof (cases "texts = [] \<or> batch_size < 0")
  case False
  let ?pairs = "by_token_length srt token_length texts"
  have set: "set ?pairs = set (zip [0..<length texts] texts)"
    unfolding by_token_length_def by (rule sorter.set_srt [OF assms])
  then have pairs: "\<forall>(i, t) \<in> set ?pairs. i < length (replicate (length texts) []) \<and> t = texts ! i"
    by (auto simp: set_zip)
  have all: "k \<in> fst ` set ?pairs" if "k < length texts" for k
    using that unfolding set by (force simp: set_zip)
  have same: "set (map snd ?pairs) = set texts"
    unfolding set_map set by (metis length_map map_nth map_snd_zip length_upt diff_zero set_map)
  note loop = bucket_loop_spec [OF pairs, of "[]" embed1 batch_size, simplified]
  show ?thesis
  proof (cases "first_throw embed1 (map snd ?pairs)")
    case None
    then have ok: "\<forall>t \<in> set texts. \<not> isl (embed1 (c_str t))" using same unfolding first_throw_None by blast
    from None loop obtain out' where out': "bucket_loop (embed_batch embed1) batch_size ?pairs [] [] (replicate (length texts) []) = Inr out'"
      "length out' = length texts" "\<forall>k < length texts. out' ! k = (if k \<in> fst ` set ?pairs then projr (embed1 (c_str (texts ! k))) else [])"
      by auto
    have "out' = map (\<lambda>t. projr (embed1 (c_str t))) texts" using out'(2,3) all by (intro nth_equalityI) simp_all
    with False ok out'(1) show ?thesis by (simp add: embed_batch_bucketed_def)
  next
    case (Some x)
    then have "\<not> (\<forall>t \<in> set texts. \<not> isl (embed1 (c_str t)))" using same first_throw_None [of embed1 "map snd ?pairs"] by auto
    with False Some loop show ?thesis by (simp add: embed_batch_bucketed_def)
  qed
qed (auto simp: embed_batch_bucketed_def)

theorem bucketed_is_map_witness:
  "embed_batch_bucketed sort_by length (\<lambda>t. if t = ''x'' then Inl () else Inr [length t]) [''ccc'', ''a'', ''bb''] 2 = Inr [[3], [1], [2]] \<and>
   embed_batch_bucketed sort_by length (\<lambda>t. if t = ''x'' then Inl () else Inr [length t]) [''ccc'', ''x'', ''bb''] 2 = Inl (EmbedThrows ())"
  unfolding bucketed_is_map [OF isort.sorter_axioms] by (simp add: c_str_def)

end
