(* ===== verification/TextNorm.thy ===== *)
theory TextNorm
  imports Prelude
begin

text \<open>
  Text normalisation and word splitting of \<open>detail/tokenizer_impl.hpp\<close>: \<open>utf8_next\<close>,
  \<open>bert_normalize\<close> with its two folding tables, and \<open>basic_tokenize\<close>. Functions that the code
  runs at an index \<open>i\<close> of a string take the string from \<open>i\<close> on; the code's sentinel \<open>-1\<close> of the
  tables is \<open>None\<close>.
\<close>

section \<open>ASCII lower case\<close>

definition to_lower_ascii :: "string \<Rightarrow> string" where
  "to_lower_ascii s = map lower_byte s"

section \<open>The folding tables\<close>

definition latin1_bases :: "char option list" where
  "latin1_bases =
    [Some CHR ''a'', Some CHR ''a'', Some CHR ''a'', Some CHR ''a'',
     Some CHR ''a'', Some CHR ''a'', None, Some CHR ''c'',
     Some CHR ''e'', Some CHR ''e'', Some CHR ''e'', Some CHR ''e'',
     Some CHR ''i'', Some CHR ''i'', Some CHR ''i'', Some CHR ''i'',
     None, Some CHR ''n'', Some CHR ''o'', Some CHR ''o'',
     Some CHR ''o'', Some CHR ''o'', Some CHR ''o'', None,
     None, Some CHR ''u'', Some CHR ''u'', Some CHR ''u'',
     Some CHR ''u'', Some CHR ''y'', None, None,
     Some CHR ''a'', Some CHR ''a'', Some CHR ''a'', Some CHR ''a'',
     Some CHR ''a'', Some CHR ''a'', None, Some CHR ''c'',
     Some CHR ''e'', Some CHR ''e'', Some CHR ''e'', Some CHR ''e'',
     Some CHR ''i'', Some CHR ''i'', Some CHR ''i'', Some CHR ''i'',
     None, Some CHR ''n'', Some CHR ''o'', Some CHR ''o'',
     Some CHR ''o'', Some CHR ''o'', Some CHR ''o'', None,
     None, Some CHR ''u'', Some CHR ''u'', Some CHR ''u'',
     Some CHR ''u'', Some CHR ''y'', None, Some CHR ''y'']"

definition latin1_base :: "nat \<Rightarrow> char option" where
  "latin1_base cp = (if 0xC0 \<le> cp \<and> cp \<le> 0xFF then latin1_bases ! (cp - 0xC0) else None)"

definition no_decomposition :: "nat list" where
  "no_decomposition = [0x110, 0x111, 0x126, 0x127, 0x132, 0x133, 0x13F, 0x140,
     0x14A, 0x14B, 0x152, 0x153, 0x166, 0x167]"

definition extended_a_base :: "nat \<Rightarrow> char option" where
  "extended_a_base cp =
     (if cp \<in> set no_decomposition then None
      else if cp = 0x130 \<or> cp = 0x131 then Some CHR ''i''
      else if cp = 0x17F then Some CHR ''s''
      else let base = (if cp mod 2 = 0 then cp else cp - 1)
           in if 0xC0 \<le> base \<and> base \<le> 0xFF then latin1_base base else None)"

section \<open>Decoding and normalising\<close>

text \<open>\<open>utf8_next\<close> on the string from \<open>i\<close>: the bytes consumed and the code point. At the end of the
  string the code would read the terminating NUL.\<close>

definition utf8_next :: "string \<Rightarrow> nat \<times> nat" where
  "utf8_next s =
     (let c = (case s of [] \<Rightarrow> 0 | x # _ \<Rightarrow> byte x); b = (\<lambda>i. byte (s ! i)); n = length s
      in if c < 0x80 then (1, c)
         else if c AND 0xE0 = 0xC0 \<and> 1 < n then
           (2, push_bit 6 (c AND 0x1F) OR (b 1 AND 0x3F))
         else if c AND 0xF0 = 0xE0 \<and> 2 < n then
           (3, push_bit 12 (c AND 0x0F) OR push_bit 6 (b 1 AND 0x3F) OR (b 2 AND 0x3F))
         else if c AND 0xF8 = 0xF0 \<and> 3 < n then
           (4, push_bit 18 (c AND 0x07) OR push_bit 12 (b 1 AND 0x3F) OR
               push_bit 6 (b 2 AND 0x3F) OR (b 3 AND 0x3F))
         else (1, c))"

text \<open>One round of the loop of \<open>bert_normalize\<close>: what is appended for the code point.\<close>

definition fold_cp :: "nat \<Rightarrow> char option" where
  "fold_cp cp =
     (if 65 \<le> cp \<and> cp \<le> 90 then Some (chr (cp - 65 + 97))
      else if 0xC0 \<le> cp \<and> cp \<le> 0xDE \<and> cp \<noteq> 0xD7 then latin1_base cp
      else if 0xC0 \<le> cp \<and> cp \<le> 0xFF then latin1_base cp
      else if 0x100 \<le> cp \<and> cp \<le> 0x17F then extended_a_base cp
      else None)"

definition fold_chunk :: "string \<Rightarrow> nat \<times> nat \<Rightarrow> string" where
  "fold_chunk s r = (case fold_cp (snd r) of Some b \<Rightarrow> [b] | None \<Rightarrow> take (fst r) s)"

lemma utf8_next_pos: "0 < fst (utf8_next s)"
  by (simp add: utf8_next_def Let_def)

function bert_normalize :: "string \<Rightarrow> string" where
  "bert_normalize s =
     (if s = [] then []
      else fold_chunk s (utf8_next s) @ bert_normalize (drop (fst (utf8_next s)) s))"
  by pat_completeness auto
termination
  by (relation "measure length") (auto simp: utf8_next_pos)

declare bert_normalize.simps [simp del]

lemma bert_normalize_Nil [simp]: "bert_normalize [] = []"
  by (simp add: bert_normalize.simps)

section \<open>Splitting into words\<close>

definition is_punct :: "nat \<Rightarrow> bool" where
  "is_punct c \<longleftrightarrow> (33 \<le> c \<and> c \<le> 47) \<or> (58 \<le> c \<and> c \<le> 64) \<or> (91 \<le> c \<and> c \<le> 96) \<or>
     (123 \<le> c \<and> c \<le> 126)"

text \<open>The length a lead byte announces.\<close>

definition lead_bytes :: "nat \<Rightarrow> nat" where
  "lead_bytes c = (if c AND 0xE0 = 0xC0 then 2 else if c AND 0xF0 = 0xE0 then 3
     else if c AND 0xF8 = 0xF0 then 4 else 1)"

lemma lead_bytes_pos [simp]: "0 < lead_bytes c"
  by (simp add: lead_bytes_def)

lemma Suc_diff_le_pos: "0 < k \<Longrightarrow> Suc n - k \<le> n"
  by arith

definition flush_word :: "string \<Rightarrow> string list" where
  "flush_word current = (if current = [] then [] else [current])"

function basic_loop :: "string \<Rightarrow> string \<Rightarrow> string list" where
  "basic_loop current [] = flush_word current"
| "basic_loop current (c # s) =
     (if byte c \<le> 0x20 then flush_word current @ basic_loop [] s
      else if is_punct (byte c) then flush_word current @ [c] # basic_loop [] s
      else if byte c \<ge> 0x80 then
        flush_word current @ take (lead_bytes (byte c)) (c # s) #
          basic_loop [] (drop (lead_bytes (byte c)) (c # s))
      else basic_loop (current @ [c]) s)"
  by pat_completeness auto
termination
  by (relation "measure (\<lambda>(current, s). length s)") (auto simp: less_Suc_eq_le Suc_diff_le_pos)

definition basic_tokenize :: "string \<Rightarrow> string list" where
  "basic_tokenize text = basic_loop [] text"

section \<open>Facts about the decoder\<close>

lemma utf8_next_ascii: "byte c < 128 \<Longrightarrow> utf8_next (c # s) = (1, byte c)"
  by (simp add: utf8_next_def)

text \<open>The width is decided by the lead byte and the length; the value by the bytes of that width.\<close>

definition u8_width :: "bool \<Rightarrow> bool \<Rightarrow> bool \<Rightarrow> bool \<Rightarrow> nat \<Rightarrow> nat" where
  "u8_width a two three four n =
     (if a then 1 else if two \<and> 1 < n then 2 else if three \<and> 2 < n then 3
      else if four \<and> 3 < n then 4 else 1)"

definition u8_value :: "nat \<Rightarrow> (nat \<Rightarrow> nat) \<Rightarrow> nat" where
  "u8_value w b =
     (if w = 2 then push_bit 6 (b 0 AND 0x1F) OR (b 1 AND 0x3F)
      else if w = 3 then push_bit 12 (b 0 AND 0x0F) OR push_bit 6 (b 1 AND 0x3F) OR (b 2 AND 0x3F)
      else if w = 4 then push_bit 18 (b 0 AND 0x07) OR push_bit 12 (b 1 AND 0x3F) OR
        push_bit 6 (b 2 AND 0x3F) OR (b 3 AND 0x3F)
      else b 0)"

definition u8_at :: "string \<Rightarrow> nat" where
  "u8_at s = u8_width (byte (s ! 0) < 0x80) (byte (s ! 0) AND 0xE0 = 0xC0)
     (byte (s ! 0) AND 0xF0 = 0xE0) (byte (s ! 0) AND 0xF8 = 0xF0) (length s)"

lemma utf8_next_parts:
  "s \<noteq> [] \<Longrightarrow> utf8_next s = (u8_at s, u8_value (u8_at s) (\<lambda>i. byte (s ! i)))"
  by (cases s) (auto simp: utf8_next_def u8_at_def u8_width_def u8_value_def Let_def)

lemma u8_width_le: "0 < n \<Longrightarrow> u8_width a two three four n \<le> n"
  by (simp add: u8_width_def)

lemma u8_width_shorter:
  "m \<le> n \<Longrightarrow> u8_width a two three four n \<le> m \<Longrightarrow>
     u8_width a two three four m = u8_width a two three four n"
  by (auto simp: u8_width_def split: if_splits)

lemma u8_value_cong: "0 < w \<Longrightarrow> (\<And>i. i < w \<Longrightarrow> b i = b' i) \<Longrightarrow> u8_value w b = u8_value w b'"
  by (simp add: u8_value_def)

lemma utf8_next_le: "s \<noteq> [] \<Longrightarrow> fst (utf8_next s) \<le> length s"
  by (simp add: utf8_next_parts u8_at_def u8_width_le)

lemma utf8_next_le4: "fst (utf8_next s) \<le> 4"
  by (simp add: utf8_next_def Let_def)

text \<open>What is consumed, and the decoded value, only depend on the bytes consumed and on how many are
  left: shortening the rest does not change them.\<close>

lemma utf8_next_shorter:
  assumes "s \<noteq> []" and "length rest \<le> length s - fst (utf8_next s)"
  shows "utf8_next (take (fst (utf8_next s)) s @ rest) = utf8_next s"
proof -
  let ?w = "u8_at s" and ?t = "take (u8_at s) s @ rest"
  have w: "0 < ?w" "?w \<le> length s" "fst (utf8_next s) = ?w"
    using assms(1) utf8_next_pos [of s] utf8_next_le [of s] by (simp_all add: utf8_next_parts)
  then have len: "length ?t \<le> length s" "?w \<le> length ?t" and nth: "i < ?w \<Longrightarrow> ?t ! i = s ! i" for i
    using assms(2) by (simp_all add: nth_append)
  have "u8_at ?t = ?w"
    unfolding u8_at_def [of ?t] nth [OF w(1)]
    using u8_width_shorter len unfolding u8_at_def [symmetric] by (simp add: u8_at_def)
  moreover have "u8_value ?w (\<lambda>i. byte (?t ! i)) = u8_value ?w (\<lambda>i. byte (s ! i))"
    by (rule u8_value_cong [OF w(1)]) (simp add: nth)
  ultimately show ?thesis
    using assms(1) w by (simp add: utf8_next_parts)
qed

section \<open>Facts about folding\<close>

definition lower_letter :: "char \<Rightarrow> bool" where
  "lower_letter b \<longleftrightarrow> 97 \<le> byte b \<and> byte b \<le> 122"

lemma latin1_bases_letters: "list_all (\<lambda>b. case b of None \<Rightarrow> True | Some c \<Rightarrow> lower_letter c) latin1_bases"
  by (simp add: latin1_bases_def lower_letter_def byte_def)

lemma latin1_base_letter: "latin1_base cp = Some b \<Longrightarrow> lower_letter b"
proof -
  assume b: "latin1_base cp = Some b"
  then have "cp - 0xC0 < length latin1_bases"
    by (simp add: latin1_base_def latin1_bases_def split: if_splits)
  with latin1_bases_letters b show "lower_letter b"
    by (auto simp: latin1_base_def list_all_length split: if_splits option.splits dest!: spec)
qed

lemma extended_a_base_letter: "extended_a_base cp = Some b \<Longrightarrow> lower_letter b"
  by (auto simp: extended_a_base_def Let_def split: if_splits dest: latin1_base_letter)
    (simp_all add: lower_letter_def byte_def)

lemma fold_cp_letter: "fold_cp cp = Some b \<Longrightarrow> lower_letter b"
  by (auto simp: fold_cp_def split: if_splits dest: latin1_base_letter extended_a_base_letter)
    (simp add: lower_letter_def byte_chr)

lemma fold_cp_lower: "lower_letter b \<Longrightarrow> fold_cp (byte b) = None"
  by (auto simp: fold_cp_def lower_letter_def)

lemma length_fold_chunk: "s \<noteq> [] \<Longrightarrow> length (fold_chunk s (utf8_next s)) \<le> fst (utf8_next s)"
  using utf8_next_pos [of s] by (auto simp: fold_chunk_def split: option.split)

lemma length_bert_normalize: "length (bert_normalize s) \<le> length s"
proof (induction s rule: bert_normalize.induct)
  case (1 s)
  show ?case
  proof (cases "s = []")
    case False
    with 1 length_fold_chunk [OF False] utf8_next_le [OF False] show ?thesis
      by (subst bert_normalize.simps) fastforce
  qed simp
qed

lemma bert_normalize_letter: "lower_letter b \<Longrightarrow> bert_normalize (b # s) = b # bert_normalize s"
  by (subst bert_normalize.simps)
    (simp add: utf8_next_ascii fold_chunk_def fold_cp_lower lower_letter_def)

lemma bert_normalize_ascii_Cons:
  "byte c < 128 \<Longrightarrow> bert_normalize (c # s) = lower_byte c # bert_normalize s"
  by (subst bert_normalize.simps)
    (auto simp: utf8_next_ascii fold_chunk_def fold_cp_def lower_byte_def)

section \<open>Facts about splitting\<close>

definition visible :: "string \<Rightarrow> string" where
  "visible s = filter (\<lambda>c. byte c > 0x20) s"

text \<open>What a word of ASCII text is: one punctuation byte, or a run of other visible bytes.\<close>

definition plain_word :: "string \<Rightarrow> bool" where
  "plain_word w \<longleftrightarrow> w \<noteq> [] \<and> ((\<exists>c. w = [c] \<and> is_punct (byte c)) \<or>
     (\<forall>c \<in> set w. byte c > 0x20 \<and> \<not> is_punct (byte c)))"

lemma flush_word_concat [simp]: "concat (flush_word w) = w"
  by (simp add: flush_word_def)

lemma flush_word_set [simp]: "w \<in> set (flush_word c) \<longleftrightarrow> w = c \<and> c \<noteq> []"
  by (auto simp: flush_word_def)

lemma basic_loop_nonempty: "[] \<notin> set (basic_loop cur s)"
  by (induction cur s rule: basic_loop.induct) (simp_all add: take_Cons' less_imp_neq [symmetric])

lemma is_punct_visible: "is_punct n \<Longrightarrow> 32 < n"
  by (auto simp: is_punct_def)

lemma basic_loop_visible:
  assumes "ascii s"
  shows "concat (basic_loop cur s) = cur @ visible s"
  using assms
  by (induction cur s rule: basic_loop.induct)
    (auto simp: visible_def ascii_def is_punct_visible not_le)

lemma basic_loop_plain:
  assumes "ascii s" and "\<forall>c \<in> set cur. byte c > 0x20 \<and> \<not> is_punct (byte c)"
  shows "w \<in> set (basic_loop cur s) \<Longrightarrow> plain_word w"
  using assms
  by (induction cur s rule: basic_loop.induct)
    (auto simp: ascii_def plain_word_def split: if_splits)

section \<open>Properties\<close>

text \<open>C30. Normalising a text twice changes nothing, whatever its bytes: truncated and stray UTF-8
  bytes included.\<close>

theorem bert_normalize_idem: "bert_normalize (bert_normalize s) = bert_normalize s"
proof (induction s rule: bert_normalize.induct)
  case (1 s)
  show ?case
  proof (cases "s = []")
    case False
    let ?n = "fst (utf8_next s)" and ?r = "bert_normalize (drop (fst (utf8_next s)) s)"
    from False have IH: "bert_normalize ?r = ?r" by (rule 1)
    have unfold: "bert_normalize s = fold_chunk s (utf8_next s) @ ?r"
      using False by (subst bert_normalize.simps) simp
    show ?thesis
    proof (cases "fold_cp (snd (utf8_next s))")
      case (Some b)
      with unfold IH fold_cp_letter [OF Some] show ?thesis
        by (simp add: fold_chunk_def bert_normalize_letter)
    next
      case None
      let ?t = "take ?n s @ ?r"
      from length_bert_normalize [of "drop ?n s"] have same: "utf8_next ?t = utf8_next s"
        by (intro utf8_next_shorter False) simp
      have n: "min (length s) ?n = ?n" "0 < ?n" using utf8_next_le [OF False] utf8_next_pos by simp_all
      from None same n have "bert_normalize ?t = take ?n s @ bert_normalize ?r"
        by (subst bert_normalize.simps) (auto simp: fold_chunk_def)
      with None unfold IH show ?thesis by (simp add: fold_chunk_def)
    qed
  qed simp
qed

text \<open>On ASCII text the normaliser is exactly \<open>to_lower_ascii\<close>.\<close>

theorem bert_normalize_ascii: "ascii s \<Longrightarrow> bert_normalize s = to_lower_ascii s"
  by (induction s) (auto simp: to_lower_ascii_def ascii_def bert_normalize_ascii_Cons)

theorem bert_normalize_ascii_witness: "bert_normalize ''Hello W'' = ''hello w''"
  using bert_normalize_ascii [of "''Hello W''"]
  by (simp add: ascii_def to_lower_ascii_def lower_byte_def byte_def chr_def char_of_def bit_Suc_0_iff)

text \<open>No token of \<open>basic_tokenize\<close> is empty; on ASCII text the tokens are the visible bytes of
  the text in order, nothing lost and nothing added, each token one punctuation byte or a run of
  other visible bytes.\<close>

theorem basic_tokenize_words:
  "(\<forall>w \<in> set (basic_tokenize text). w \<noteq> []) \<and>
   (ascii text \<longrightarrow> concat (basic_tokenize text) = filter (\<lambda>c. byte c > 0x20) text \<and>
     (\<forall>w \<in> set (basic_tokenize text). plain_word w))"
  using basic_loop_nonempty [of "[]" "text"] basic_loop_visible [of "text" "[]"]
    basic_loop_plain [of "text" "[]"]
  by (auto simp: basic_tokenize_def visible_def)

theorem basic_tokenize_words_witness:
  "ascii ''ab, c'' \<and> concat (basic_tokenize ''ab, c'') = ''ab,c'' \<and>
     list_all plain_word (basic_tokenize ''ab, c'')"
proof -
  have "ascii ''ab, c''" by (simp add: ascii_def byte_def)
  with basic_tokenize_words [of "''ab, c''"] show ?thesis
    by (simp add: byte_def list_all_iff)
qed

text \<open>Of the Latin Extended-A block, which the tables are documented to cover, only dotted and
  dotless I and long S are folded: the base of every other code point lies above the Latin-1 table
  it is looked up in.\<close>

theorem extended_a_fold:
  assumes "0x100 \<le> cp" and "cp \<le> 0x17F"
  shows "extended_a_base cp \<noteq> None \<longleftrightarrow> cp \<in> {0x130, 0x131, 0x17F}"
proof -
  from assms have "0xFF < (if cp mod 2 = 0 then cp else cp - 1)" by presburger
  then show ?thesis
    by (simp add: extended_a_base_def Let_def no_decomposition_def)
qed

theorem extended_a_fold_witness: "extended_a_base 0x15A = None"
  using extended_a_fold [of "0x15A"] by simp

end
