(* ===== verification/CJson.thy ===== *)
theory CJson
  imports Prelude
begin

text \<open>
  The parsed documents of the bundled cJSON library, as far as the program reads and edits them:
  the tree, the case-insensitive member lookup, array access and the member edits. Strings are C
  strings, so without NUL. Numbers carry their \<open>int\<close> and their \<open>double\<close> view. The parser and the
  printer are arguments of what calls them.
\<close>

datatype 'd cjson =
    CFalse | CTrue | CNull
  | CNumber (num_int: int) (num_double: 'd)
  | CString (str_of: string)
  | CArray "'d cjson list"
  | CObject "(string \<times> 'd cjson) list"

text \<open>The list under \<open>child\<close>, with the member name of each element, null in an array.\<close>

fun children :: "'d cjson \<Rightarrow> (string option \<times> 'd cjson) list" where
  "children (CArray xs) = map (Pair None) xs"
| "children (CObject kvs) = map (\<lambda>(k, v). (Some k, v)) kvs"
| "children _ = []"

definition same_name :: "string \<Rightarrow> string option \<Rightarrow> bool" where
  "same_name name key = (case key of None \<Rightarrow> False | Some k \<Rightarrow> map lower_byte name = map lower_byte k)"

definition get_object_item :: "'d cjson option \<Rightarrow> string \<Rightarrow> 'd cjson option" where
  "get_object_item obj name =
     (case obj of None \<Rightarrow> None
      | Some j \<Rightarrow> map_option snd (List.find (\<lambda>(k, _). same_name name k) (children j)))"

definition array_size :: "'d cjson option \<Rightarrow> nat" where
  "array_size arr = (case arr of None \<Rightarrow> 0 | Some j \<Rightarrow> length (children j))"

definition array_item :: "'d cjson option \<Rightarrow> nat \<Rightarrow> 'd cjson option" where
  "array_item arr i =
     (case arr of None \<Rightarrow> None
      | Some j \<Rightarrow> if i < length (children j) then Some (snd (children j ! i)) else None)"

definition is_array :: "'d cjson \<Rightarrow> bool" where
  "is_array j = (case j of CArray _ \<Rightarrow> True | _ \<Rightarrow> False)"

definition is_number :: "'d cjson \<Rightarrow> bool" where
  "is_number j = (case j of CNumber _ _ \<Rightarrow> True | _ \<Rightarrow> False)"

definition is_true :: "'d cjson \<Rightarrow> bool" where
  "is_true j = (case j of CTrue \<Rightarrow> True | _ \<Rightarrow> False)"

text \<open>The fields of a node as the program reads them: \<open>valuestring\<close> is null and \<open>valueint\<close> zero where
  the parser did not set them; for \<open>true\<close> it sets \<open>valueint\<close> to one.\<close>

definition valuestring :: "'d cjson option \<Rightarrow> string option" where
  "valuestring j = (case j of Some (CString s) \<Rightarrow> Some s | _ \<Rightarrow> None)"

definition valueint :: "'d cjson \<Rightarrow> int" where
  "valueint j = (case j of CNumber i _ \<Rightarrow> i | CTrue \<Rightarrow> 1 | _ \<Rightarrow> 0)"

definition valuedouble :: "'d::zero cjson \<Rightarrow> 'd" where
  "valuedouble j = (case j of CNumber _ d \<Rightarrow> d | _ \<Rightarrow> 0)"

text \<open>Member edits of an object: append at the end, remove the first of that name.\<close>

fun remove_first :: "string \<Rightarrow> (string \<times> 'd cjson) list \<Rightarrow> (string \<times> 'd cjson) list" where
  "remove_first name [] = []"
| "remove_first name ((k, v) # kvs) =
     (if same_name name (Some k) then kvs else (k, v) # remove_first name kvs)"

fun delete_item :: "string \<Rightarrow> 'd cjson \<Rightarrow> 'd cjson" where
  "delete_item name (CObject kvs) = CObject (remove_first name kvs)"
| "delete_item name j = j"

fun add_item :: "string \<Rightarrow> 'd cjson \<Rightarrow> 'd cjson \<Rightarrow> 'd cjson" where
  "add_item name v (CObject kvs) = CObject (kvs @ [(name, v)])"
| "add_item name v (CArray xs) = CArray (xs @ [v])"   \<comment> \<open>printed without the name\<close>
| "add_item name v j = j"                             \<comment> \<open>a child the printer ignores\<close>

lemma same_name_refl [simp]: "same_name k (Some k)"
  by (simp add: same_name_def)

lemma get_object_item_None [simp]: "get_object_item None k = None"
  by (simp add: get_object_item_def)

lemma get_object_item_Nil [simp]: "get_object_item (Some (CObject [])) k = None"
  by (simp add: get_object_item_def)

lemma get_object_item_Cons [simp]:
  "get_object_item (Some (CObject ((k, v) # kvs))) name =
     (if same_name name (Some k) then Some v else get_object_item (Some (CObject kvs)) name)"
  by (simp add: get_object_item_def)

lemma get_object_item_append:
  "get_object_item (Some (CObject (kvs @ kvs'))) name =
     (case get_object_item (Some (CObject kvs)) name of
        None \<Rightarrow> get_object_item (Some (CObject kvs')) name | Some v \<Rightarrow> Some v)"
  by (induction kvs) auto

end
