(* ===== verification/Tokenizer.thy ===== *)
theory Tokenizer
  imports TextNorm CJson
begin

text \<open>
  \<open>TokenizerWrapper\<close> of \<open>detail/tokenizer_impl.hpp\<close>: the loaders, WordPiece and BPE, and the
  encoding of texts and batches. A thrown exception and undefined behaviour (an index out of range,
  \<open>back()\<close> of an empty vector) are values of \<open>tok_fail\<close>. The two scratch buffers of the class hold
  no state between calls. A subword algorithm is an instance of the interface \<open>subword_encoder\<close>.
\<close>

section \<open>State\<close>

datatype tok_fail = RuntimeError string | LengthError | Undefined

datatype tok_type = WORDPIECE | BPE

record tokenizer =
  vocab :: "string \<rightharpoonup> int"
  id_to_token :: "string list"
  bpe_merges :: "string list"
  bpe_ranks :: "string \<rightharpoonup> int"
  wp_prefix :: string
  max_length :: int
  pad_token_id :: int
  cls_token_id :: int
  sep_token_id :: int
  unk_token_id :: int
  tok_kind :: tok_type
  do_lower_case :: bool
  add_special_tokens :: bool

definition tokenizer_new :: tokenizer where
  "tokenizer_new = \<lparr>vocab = Map.empty, id_to_token = [], bpe_merges = [], bpe_ranks = Map.empty,
     wp_prefix = [], max_length = 512, pad_token_id = 0, cls_token_id = 101, sep_token_id = 102,
     unk_token_id = 100, tok_kind = WORDPIECE, do_lower_case = True, add_special_tokens = True\<rparr>"

section \<open>Loading tokenizer.json\<close>

text \<open>\<open>vocab_[tok] = id\<close>, the resize of \<open>id_to_token_\<close> and the store in it; \<open>id + 1\<close> may overflow and a
  negative id indexes before the vector.\<close>

definition resize :: "nat \<Rightarrow> 'a \<Rightarrow> 'a list \<Rightarrow> 'a list" where
  "resize n x xs = take n xs @ replicate (n - length xs) x"

definition put_token :: "string \<Rightarrow> int \<Rightarrow> tokenizer \<Rightarrow> tok_fail + tokenizer" where
  "put_token tok i t =
     (if i < 0 \<or> i \<ge> INT_MAX then Inl Undefined
      else let table = (if int (length (id_to_token t)) \<le> i then resize (nat (i + 1)) [] (id_to_token t)
                        else id_to_token t)
           in Inr (t\<lparr>vocab := (vocab t)(tok \<mapsto> i), id_to_token := table[nat i := tok]\<rparr>))"

fun load_entries :: "(string option \<times> 'd cjson) list \<Rightarrow> tokenizer \<Rightarrow> tok_fail + tokenizer" where
  "load_entries [] t = Inr t"
| "load_entries ((key, item) # items) t =
     (case key of
        Some k \<Rightarrow>
          if is_number item then
            bind_sum (put_token k (valueint item) t) (\<lambda>t1. load_entries items t1)
          else load_entries items t
      | None \<Rightarrow> load_entries items t)"

fun load_merges :: "'d cjson list \<Rightarrow> int \<Rightarrow> tokenizer \<Rightarrow> tokenizer" where
  "load_merges [] i t = t"
| "load_merges (m # ms) i t =
     load_merges ms (i + 1)
       (case valuestring (Some m) of
          Some s \<Rightarrow> t\<lparr>bpe_merges := bpe_merges t @ [s], bpe_ranks := (bpe_ranks t)(s \<mapsto> i)\<rparr>
        | None \<Rightarrow> t)"

definition model_kind :: "'d cjson \<Rightarrow> tokenizer \<Rightarrow> tokenizer" where
  "model_kind model t =
     (case valuestring (get_object_item (Some model) ''type'') of
        Some ty \<Rightarrow> t\<lparr>tok_kind := (if ty = ''BPE'' \<or> ty = ''bpe'' then BPE else WORDPIECE)\<rparr>
      | None \<Rightarrow> t)"

definition model_entries :: "'d cjson \<Rightarrow> (string option \<times> 'd cjson) list" where
  "model_entries model =
     (case get_object_item (Some model) ''vocab'' of Some v \<Rightarrow> children v | None \<Rightarrow> [])"

text \<open>The merges, the continuation prefix and the unknown token.\<close>

definition model_rest :: "'d cjson \<Rightarrow> tokenizer \<Rightarrow> tokenizer" where
  "model_rest model t =
     (let t1 = (if tok_kind t = BPE then
                  (case get_object_item (Some model) ''merges'' of
                     Some m \<Rightarrow> if is_array m then load_merges (map snd (children m)) 0 t else t
                   | None \<Rightarrow> t)
                else t);
          t2 = t1\<lparr>wp_prefix :=
            (case valuestring (get_object_item (Some model) ''continuing_subword_prefix'') of
               Some p \<Rightarrow> p | None \<Rightarrow> ''##'')\<rparr>
      in case valuestring (get_object_item (Some model) ''unk_token'') of
           Some u \<Rightarrow> (case vocab t2 u of Some i \<Rightarrow> t2\<lparr>unk_token_id := i\<rparr> | None \<Rightarrow> t2)
         | None \<Rightarrow> t2)"

definition load_model :: "'d cjson \<Rightarrow> tokenizer \<Rightarrow> tok_fail + tokenizer" where
  "load_model model t =
     (case load_entries (model_entries model) (model_kind model t) of
        Inl e \<Rightarrow> Inl e | Inr t1 \<Rightarrow> Inr (model_rest model t1))"

text \<open>The normalizer section: what \<open>do_lower_case_\<close> becomes, from what it was.\<close>

definition load_normalizer :: "'d cjson option \<Rightarrow> bool \<Rightarrow> bool" where
  "load_normalizer normalizer lower =
     (case normalizer of
        None \<Rightarrow> False
      | Some nz \<Rightarrow>
          (case valuestring (get_object_item (Some nz) ''type'') of
             None \<Rightarrow> lower
           | Some nt \<Rightarrow>
               if nt = ''BertNormalizer'' \<or> nt = ''Lowercase'' then
                 (case get_object_item (Some nz) ''lowercase'' of None \<Rightarrow> True | Some lc \<Rightarrow> is_true lc)
               else if nt = ''Sequence'' then
                 (case get_object_item (Some nz) ''normalizers'' of
                    Some subs \<Rightarrow>
                      if is_array subs then
                        lower \<or> (\<exists>sub \<in> set (map snd (children subs)).
                          valuestring (get_object_item (Some sub) ''type'') = Some ''Lowercase'')
                      else lower
                  | None \<Rightarrow> lower)
               else False))"

definition note_special :: "string \<Rightarrow> int \<Rightarrow> tokenizer \<Rightarrow> tokenizer" where
  "note_special tok tid t =
     t\<lparr>cls_token_id := (if tok = ''[CLS]'' \<or> tok = ''<s>'' then tid else cls_token_id t),
       sep_token_id := (if tok = ''[SEP]'' \<or> tok = ''</s>'' then tid else sep_token_id t),
       pad_token_id := (if tok = ''[PAD]'' \<or> tok = ''<pad>'' then tid else pad_token_id t),
       unk_token_id := (if tok = ''[UNK]'' \<or> tok = ''<unk>'' then tid else unk_token_id t)\<rparr>"

fun load_added :: "'d cjson list \<Rightarrow> tokenizer \<Rightarrow> tok_fail + tokenizer" where
  "load_added [] t = Inr t"
| "load_added (at # ats) t =
     (case (valuestring (get_object_item (Some at) ''content''), get_object_item (Some at) ''id'') of
        (Some tok, Some i) \<Rightarrow>
          if is_number i then
            bind_sum (put_token tok (valueint i) t) (\<lambda>t1. load_added ats (note_special tok (valueint i) t1))
          else load_added ats t
      | _ \<Rightarrow> load_added ats t)"

text \<open>The sections of the document, in the order the code reads them.\<close>

definition read_model :: "'d cjson \<Rightarrow> tokenizer \<Rightarrow> tok_fail + tokenizer" where
  "read_model root t =
     (case get_object_item (Some root) ''model'' of None \<Rightarrow> Inr t | Some model \<Rightarrow> load_model model t)"

definition read_flags :: "'d cjson \<Rightarrow> tokenizer \<Rightarrow> tokenizer" where
  "read_flags root t =
     t\<lparr>do_lower_case := load_normalizer (get_object_item (Some root) ''normalizer'') (do_lower_case t),
       add_special_tokens :=
         (if valuestring (get_object_item (get_object_item (Some root) ''post_processor'') ''type'') =
             Some ''TemplateProcessing'' then True else add_special_tokens t)\<rparr>"

definition read_added :: "'d cjson \<Rightarrow> tokenizer \<Rightarrow> tok_fail + tokenizer" where
  "read_added root t =
     (case get_object_item (Some root) ''added_tokens'' of
        Some a \<Rightarrow> if is_array a then load_added (map snd (children a)) t else Inr t
      | None \<Rightarrow> Inr t)"

definition read_padding :: "'d cjson \<Rightarrow> tokenizer \<Rightarrow> tokenizer" where
  "read_padding root t =
     (case get_object_item (get_object_item (Some root) ''padding'') ''pad_id'' of
        Some pid \<Rightarrow> if is_number pid then t\<lparr>pad_token_id := valueint pid\<rparr> else t
      | None \<Rightarrow> t)"

definition load_from_blob ::
    "(string \<Rightarrow> 'd cjson option) \<Rightarrow> string \<Rightarrow> int \<Rightarrow> tokenizer \<Rightarrow> tok_fail + tokenizer" where
  "load_from_blob parse blob ml t =
     (case parse (c_str blob) of
        None \<Rightarrow> Inl (RuntimeError ''Failed to parse tokenizer.json'')
      | Some root \<Rightarrow>
          bind_sum (read_model root (t\<lparr>max_length := ml\<rparr>)) (\<lambda>t1.
          bind_sum (read_added root (read_flags root t1)) (\<lambda>t2.
          Inr (read_padding root t2))))"

text \<open>\<open>load_from_file\<close>: the file's content, or none when it cannot be opened.\<close>

definition load_from_file ::
    "(string \<Rightarrow> 'd cjson option) \<Rightarrow> (string \<Rightarrow> string option) \<Rightarrow> string \<Rightarrow> int \<Rightarrow> tokenizer
       \<Rightarrow> tok_fail + tokenizer" where
  "load_from_file parse read path ml t =
     (case read path of
        None \<Rightarrow> Inl (RuntimeError (''Cannot open tokenizer file: '' @ path))
      | Some blob \<Rightarrow> load_from_blob parse blob ml t)"

section \<open>Loading an id-ordered vocabulary\<close>

fun emplace_all :: "string list \<Rightarrow> int \<Rightarrow> (string \<rightharpoonup> int) \<Rightarrow> (string \<rightharpoonup> int)" where
  "emplace_all [] i m = m"
| "emplace_all (s # ss) i m = emplace_all ss (i + 1) (case m s of None \<Rightarrow> m(s \<mapsto> i) | Some _ \<Rightarrow> m)"

definition resolve_special :: "tokenizer \<Rightarrow> int \<Rightarrow> string \<Rightarrow> int \<Rightarrow> int" where
  "resolve_special t explicit surface fallback =
     (let vocab_size = int (length (id_to_token t)) in
      if explicit \<ge> 0 \<and> explicit < vocab_size then explicit
      else case vocab t surface of
             Some i \<Rightarrow> i
           | None \<Rightarrow> if fallback \<ge> 0 \<and> fallback < vocab_size then fallback else 0)"

definition load_vocab ::
    "string list \<Rightarrow> int \<Rightarrow> int \<Rightarrow> int \<Rightarrow> int \<Rightarrow> int \<Rightarrow> bool \<Rightarrow> tokenizer \<Rightarrow> (bool \<times> string) \<times> tokenizer" where
  "load_vocab tokens pad unk cls sep ml add t =
     (if tokens = [] then ((False, ''vocabulary is empty''), t)
      else
        let t1 = t\<lparr>vocab := emplace_all tokens 0 Map.empty, id_to_token := tokens,
                   tok_kind := WORDPIECE, wp_prefix := ''##'', do_lower_case := True,
                   add_special_tokens := add, max_length := (if ml > 0 then ml else 512)\<rparr>;
            t2 = t1\<lparr>pad_token_id := resolve_special t1 pad ''[PAD]'' 0\<rparr>;
            t3 = t2\<lparr>unk_token_id := resolve_special t2 unk ''[UNK]'' 100\<rparr>;
            t4 = t3\<lparr>cls_token_id := resolve_special t3 cls ''[CLS]'' 101\<rparr>
        in ((True, []), t4\<lparr>sep_token_id := resolve_special t4 sep ''[SEP]'' 102\<rparr>))"

section \<open>WordPiece\<close>

text \<open>The key of a piece, the inner loop over \<open>end\<close>, and the loop over \<open>start\<close>.\<close>

definition wp_key :: "tokenizer \<Rightarrow> string \<Rightarrow> nat \<Rightarrow> nat \<Rightarrow> string" where
  "wp_key t word start stop =
     (if start > 0 then wp_prefix t else []) @ substr word start (stop - start)"

function wp_longest :: "tokenizer \<Rightarrow> string \<Rightarrow> nat \<Rightarrow> nat \<Rightarrow> (nat \<times> int) option" where
  "wp_longest t word start stop =
     (if stop > start then
        (case vocab t (wp_key t word start stop) of
           Some i \<Rightarrow> Some (stop, i)
         | None \<Rightarrow> wp_longest t word start (stop - 1))
      else None)"
  by pat_completeness auto
termination
  by (relation "measure (\<lambda>(t, word, start, stop). stop)") auto

declare wp_longest.simps [simp del]

lemma wp_longest_Some:
  "wp_longest t word start stop = Some (e, i) \<Longrightarrow> start < e \<and> e \<le> stop \<and>
     vocab t (wp_key t word start e) = Some i \<and>
     (\<forall>e'. e < e' \<and> e' \<le> stop \<longrightarrow> vocab t (wp_key t word start e') = None)"
proof (induction t word start stop rule: wp_longest.induct)
  case (1 t word start stop)
  show ?case
  proof (cases "vocab t (wp_key t word start stop)")
    case None
    with 1 have "start < stop" and "wp_longest t word start (stop - 1) = Some (e, i)"
      by (simp_all add: wp_longest.simps [of t word start stop] split: if_splits)
    with 1 None show ?thesis
      by (metis (no_types, lifting) One_nat_def Suc_pred diff_le_self le_SucE le_trans
          less_nat_zero_code not_gr_zero)
  next
    case (Some j)
    with 1(2) show ?thesis
      by (auto simp: wp_longest.simps [of t word start stop] split: if_splits)
  qed
qed

lemma wp_longest_None:
  "wp_longest t word start stop = None \<longleftrightarrow>
     (\<forall>e. start < e \<and> e \<le> stop \<longrightarrow> vocab t (wp_key t word start e) = None)"
proof (induction t word start stop rule: wp_longest.induct)
  case (1 t word start stop)
  have "(\<forall>e. start < e \<and> e \<le> stop \<longrightarrow> P e) \<longleftrightarrow>
      (start < stop \<longrightarrow> P stop \<and> (\<forall>e. start < e \<and> e \<le> stop - 1 \<longrightarrow> P e))" for P :: "nat \<Rightarrow> bool"
    by (cases stop) (auto simp: le_Suc_eq)
  with 1 show ?case
    by (subst wp_longest.simps) (simp split: option.split)
qed

function wp_loop :: "tokenizer \<Rightarrow> string \<Rightarrow> nat \<Rightarrow> bool \<Rightarrow> int list" where
  "wp_loop t word start found_any =
     (if start < length word then
        (case wp_longest t word start (length word) of
           Some (e, i) \<Rightarrow> i # wp_loop t word e True
         | None \<Rightarrow> if found_any then [] else [unk_token_id t])
      else [])"
  by pat_completeness auto
termination
  by (relation "measure (\<lambda>(t, word, start, f). length word - start)")
    (auto dest!: wp_longest_Some)

declare wp_loop.simps [simp del]

definition wordpiece_tokenize :: "tokenizer \<Rightarrow> string \<Rightarrow> int list" where
  "wordpiece_tokenize t word =
     (if word = [] then []
      else case vocab t word of Some i \<Rightarrow> [i] | None \<Rightarrow> wp_loop t word 0 False)"

section \<open>BPE\<close>

text \<open>The initial symbols, the scan for the best pair, and the merging loop.\<close>

function bpe_symbols :: "string \<Rightarrow> string list" where
  "bpe_symbols [] = []"
| "bpe_symbols (c # s) =
     take (lead_bytes (byte c)) (c # s) # bpe_symbols (drop (lead_bytes (byte c)) (c # s))"
  by pat_completeness auto
termination
  by (relation "measure length") (auto simp: less_Suc_eq_le Suc_diff_le_pos)

fun bpe_scan :: "(string \<rightharpoonup> int) \<Rightarrow> string list \<Rightarrow> nat \<Rightarrow> int \<times> nat option \<Rightarrow> int \<times> nat option" where
  "bpe_scan ranks (a # b # syms) i (best_rank, best_pos) =
     bpe_scan ranks (b # syms) (Suc i)
       (case ranks (a @ CHR '' '' # b) of
          Some r \<Rightarrow> if r < best_rank then (r, Some i) else (best_rank, best_pos)
        | None \<Rightarrow> (best_rank, best_pos))"
| "bpe_scan ranks _ i best = best"

definition merge_at :: "nat \<Rightarrow> string list \<Rightarrow> string list" where
  "merge_at p syms = take p syms @ (syms ! p @ syms ! Suc p) # drop (Suc (Suc p)) syms"

lemma bpe_scan_pos:
  "snd (bpe_scan ranks syms i (r, p)) = Some q \<Longrightarrow> p = Some q \<or> (i \<le> q \<and> Suc q - i < length syms)"
proof (induction syms arbitrary: i r p rule: induct_list012)
  case (3 a b syms)
  from "3.IH"(2) [of "Suc i"] "3.prems" show ?case
    by (fastforce split: option.splits if_splits)
qed auto

function bpe_merge :: "(string \<rightharpoonup> int) \<Rightarrow> string list \<Rightarrow> string list" where
  "bpe_merge ranks syms =
     (if length syms > 1 then
        (case snd (bpe_scan ranks syms 0 (INT_MAX, None)) of
           None \<Rightarrow> syms
         | Some p \<Rightarrow> bpe_merge ranks (merge_at p syms))
      else syms)"
  by pat_completeness auto
termination
  by (relation "measure (\<lambda>(ranks, syms). length syms)")
    (auto simp: merge_at_def dest!: bpe_scan_pos)

declare bpe_merge.simps [simp del]

definition bpe_tokenize :: "tokenizer \<Rightarrow> string \<Rightarrow> int list" where
  "bpe_tokenize t word =
     (if word = [] then []
      else map (\<lambda>sym. case vocab t sym of Some i \<Rightarrow> i | None \<Rightarrow> unk_token_id t)
             (bpe_merge (bpe_ranks t) (bpe_symbols word)))"

section \<open>Encoding\<close>

definition subword :: "tokenizer \<Rightarrow> string \<Rightarrow> int list" where
  "subword t word =
     (if tok_kind t = WORDPIECE then wordpiece_tokenize t word else bpe_tokenize t word)"

definition truncate_ids :: "tokenizer \<Rightarrow> int list \<Rightarrow> tok_fail + int list" where
  "truncate_ids t ids =
     (if int (length ids) > max_length t then
        if max_length t < 0 then Inl LengthError
        else let r = take (nat (max_length t)) ids in
             if add_special_tokens t then
               (if r = [] then Inl Undefined else Inr (r[length r - 1 := sep_token_id t]))
             else Inr r
      else Inr ids)"

definition encode_single :: "tokenizer \<Rightarrow> string \<Rightarrow> tok_fail + int list" where
  "encode_single t s =
     (let processed = (if do_lower_case t then bert_normalize s else s);
          ids0 = (if add_special_tokens t then [cls_token_id t] else []);
          ids1 = ids0 @ concat (map (subword t) (basic_tokenize processed));
          ids2 = ids1 @ (if add_special_tokens t then [sep_token_id t] else [])
      in truncate_ids t ids2)"

record encoding_batch =
  input_ids :: "int list list"
  attention_mask :: "int list list"
  token_type_ids :: "int list list"
  seq_length :: int

fun encode_all :: "tokenizer \<Rightarrow> string list \<Rightarrow> tok_fail + int list list" where
  "encode_all t [] = Inr []"
| "encode_all t (s # ss) =
     (case encode_single t s of
        Inl e \<Rightarrow> Inl e
      | Inr ids \<Rightarrow> (case encode_all t ss of Inl e \<Rightarrow> Inl e | Inr rest \<Rightarrow> Inr (ids # rest)))"

text \<open>A row padded with \<open>x\<close> to \<open>n\<close> entries, its first entries overwritten by \<open>xs\<close>.\<close>

definition pad_row :: "nat \<Rightarrow> int \<Rightarrow> int list \<Rightarrow> int list" where
  "pad_row n x xs = take (min (length xs) n) xs @ replicate (n - min (length xs) n) x"

definition encode_batch :: "tokenizer \<Rightarrow> string list \<Rightarrow> tok_fail + encoding_batch" where
  "encode_batch t texts =
     (case encode_all t texts of
        Inl e \<Rightarrow> Inl e
      | Inr all_ids \<Rightarrow>
          let longest = fold (\<lambda>ids m. max m (int (length ids))) all_ids 0;
              n = (if longest > max_length t then max_length t else longest)
          in Inr \<lparr>input_ids = map (pad_row (nat n) (pad_token_id t)) all_ids,
                  attention_mask = map (\<lambda>ids. pad_row (nat n) 0 (map (\<lambda>_. 1) ids)) all_ids,
                  token_type_ids = map (\<lambda>ids. replicate (nat n) 0) all_ids,
                  seq_length = n\<rparr>)"

section \<open>The interface of a subword algorithm\<close>

text \<open>
  What \<open>encode_single\<close> needs of the algorithm it calls: it emits nothing for the empty word and only
  ids of a known set. The encoder's facts are proved once for any such algorithm.
\<close>

locale subword_encoder =
  fixes sub :: "tokenizer \<Rightarrow> string \<Rightarrow> int list"
    and known :: "tokenizer \<Rightarrow> int set"
  assumes sub_known: "set (sub t w) \<subseteq> known t"
    and sub_empty: "sub t [] = []"
begin

lemma words_known: "set (concat (map (sub t) ws)) \<subseteq> known t"
  using sub_known by fastforce

lemma words_empty: "(\<forall>w \<in> set ws. w = []) \<Longrightarrow> concat (map (sub t) ws) = []"
  using sub_empty by auto

end

definition vocab_ids :: "tokenizer \<Rightarrow> int set" where
  "vocab_ids t = insert (unk_token_id t) (ran (vocab t))"

lemma wp_loop_known: "set (wp_loop t word start f) \<subseteq> vocab_ids t"
proof (induction t word start f rule: wp_loop.induct)
  case (1 t word start f)
  have "i \<in> vocab_ids t" if "wp_longest t word start (length word) = Some (e, i)" for e i
    using wp_longest_Some [OF that] by (auto simp: vocab_ids_def intro: ranI)
  with 1 have "set (case wp_longest t word start (length word) of
      Some (e, i) \<Rightarrow> i # wp_loop t word e True | None \<Rightarrow> if f then [] else [unk_token_id t])
      \<subseteq> vocab_ids t" if "start < length word"
    using that by (auto split: option.split simp: vocab_ids_def) blast+
  then show ?case
    by (cases "start < length word") (simp_all only: wp_loop.simps [of t word start f] if_True if_False
        list.set empty_subsetI)
qed

lemma wordpiece_known: "set (wordpiece_tokenize t w) \<subseteq> vocab_ids t"
  using wp_loop_known by (auto simp: wordpiece_tokenize_def vocab_ids_def intro: ranI split: option.splits)

lemma bpe_known: "set (bpe_tokenize t w) \<subseteq> vocab_ids t"
  by (auto simp: bpe_tokenize_def vocab_ids_def intro: ranI split: option.splits)

interpretation wordpiece: subword_encoder wordpiece_tokenize vocab_ids
  by unfold_locales (rule wordpiece_known, simp add: wordpiece_tokenize_def)

interpretation bpe: subword_encoder bpe_tokenize vocab_ids
  by unfold_locales (rule bpe_known, simp add: bpe_tokenize_def)

interpretation selected: subword_encoder subword vocab_ids
  by unfold_locales
    (auto simp: subword_def wordpiece.sub_empty bpe.sub_empty
      dest: wordpiece.sub_known [THEN subsetD] bpe.sub_known [THEN subsetD])

section \<open>Facts about encoding\<close>

definition body_ids :: "tokenizer \<Rightarrow> string \<Rightarrow> int list" where
  "body_ids t s = concat (map (subword t)
     (basic_tokenize (if do_lower_case t then bert_normalize s else s)))"

lemma encode_single_body:
  "encode_single t s = truncate_ids t
     (if add_special_tokens t then cls_token_id t # body_ids t s @ [sep_token_id t] else body_ids t s)"
  by (simp add: encode_single_def body_ids_def Let_def)

lemma truncate_ids_ok:
  assumes "0 < max_length t"
  shows "\<exists>r. truncate_ids t ids = Inr r \<and> length r = min (length ids) (nat (max_length t)) \<and>
    set r \<subseteq> insert (sep_token_id t) (set ids)"
proof -
  let ?n = "nat (max_length t)"
  have "set ((take ?n ids)[k := x]) \<subseteq> insert x (set ids)" for k x
    using set_update_subset_insert [of "take ?n ids" k x] set_take_subset [of ?n ids] by blast
  moreover have "set (take ?n ids) \<subseteq> insert x (set ids)" for x
    using set_take_subset [of ?n ids] by blast
  moreover have "take ?n ids \<noteq> []" if "int (length ids) > max_length t"
    using that assms by auto
  ultimately show ?thesis
    using assms by (auto simp: truncate_ids_def Let_def min_def)
qed

lemma encode_single_ok:
  assumes "0 < max_length t"
  shows "\<exists>r. encode_single t s = Inr r \<and> int (length r) \<le> max_length t \<and>
    set r \<subseteq> {cls_token_id t, sep_token_id t} \<union> vocab_ids t"
proof -
  have "set (body_ids t s) \<subseteq> vocab_ids t"
    unfolding body_ids_def by (rule selected.words_known)
  then have ids: "set (if add_special_tokens t then cls_token_id t # body_ids t s @ [sep_token_id t]
      else body_ids t s) \<subseteq> {cls_token_id t, sep_token_id t} \<union> vocab_ids t" (is "set ?ids \<subseteq> ?K")
    by auto
  from truncate_ids_ok [OF assms, of ?ids] obtain r where
    r: "truncate_ids t ?ids = Inr r" "length r = min (length ?ids) (nat (max_length t))"
      "set r \<subseteq> insert (sep_token_id t) (set ?ids)"
    by blast
  from r(2) assms have "int (length r) \<le> max_length t" by linarith
  moreover from r(3) ids have "set r \<subseteq> ?K" by blast
  ultimately show ?thesis using r(1) by (simp add: encode_single_body)
qed

lemma encode_all_ok:
  "0 < max_length t \<Longrightarrow> \<exists>rs. encode_all t ss = Inr rs \<and> length rs = length ss \<and>
     (\<forall>i < length ss. encode_single t (ss ! i) = Inr (rs ! i) \<and> int (length (rs ! i)) \<le> max_length t)"
proof (induction ss)
  case (Cons s ss)
  then obtain rs where rs: "encode_all t ss = Inr rs" "length rs = length ss"
    "\<forall>i < length ss. encode_single t (ss ! i) = Inr (rs ! i) \<and> int (length (rs ! i)) \<le> max_length t"
    by blast
  obtain r where r: "encode_single t s = Inr r" "int (length r) \<le> max_length t"
    using encode_single_ok [OF Cons.prems] by blast
  with rs show ?case
    by (auto simp: nth_Cons split: nat.split)
qed simp

lemma fold_max_length:
  "fold (\<lambda>ids m. max m (int (length ids))) xss k = Max (insert k (set (map (int \<circ> length) xss)))"
proof (induction xss arbitrary: k)
  case (Cons xs xss)
  then show ?case
    by (cases "xss = []") (simp_all add: max.assoc)
qed simp

section \<open>Facts about the vocabulary\<close>

definition ids_in_table :: "tokenizer \<Rightarrow> bool" where
  "ids_in_table t \<longleftrightarrow> (\<forall>i \<in> ran (vocab t). 0 \<le> i \<and> i < int (length (id_to_token t)))"

lemma length_resize [simp]: "length (resize n x xs) = n"
  by (simp add: resize_def)

lemma put_token_inv [inv_intros]:
  "put_token tok i t = Inr t' \<Longrightarrow> ids_in_table t \<Longrightarrow> ids_in_table t'"
  by (fastforce simp: put_token_def ids_in_table_def Let_def ran_def split: if_splits)

lemma load_entries_step:
  "load_entries ((key, item) # items) t = Inr t' \<Longrightarrow>
     \<exists>t1. load_entries items t1 = Inr t' \<and> (t1 = t \<or> (\<exists>k i. put_token k i t = Inr t1))"
  by (auto simp: bind_sum_Inr split: option.splits if_splits)

lemma load_added_step:
  "load_added (at # ats) t = Inr t' \<Longrightarrow>
     \<exists>t1. load_added ats t1 = Inr t' \<and>
       (t1 = t \<or> (\<exists>k i t0. put_token k i t = Inr t0 \<and> t1 = note_special k i t0))"
  by (auto simp: bind_sum_Inr split: option.splits if_splits)

lemma note_special_frame [simp]:
  "vocab (note_special k i t) = vocab t" "id_to_token (note_special k i t) = id_to_token t"
  "max_length (note_special k i t) = max_length t"
  "do_lower_case (note_special k i t) = do_lower_case t"
  by (simp_all add: note_special_def)

lemma note_special_inv [inv_intros]: "ids_in_table t \<Longrightarrow> ids_in_table (note_special k i t)"
  by (simp add: ids_in_table_def)

lemma load_entries_inv [inv_intros]:
  "load_entries items t = Inr t' \<Longrightarrow> ids_in_table t \<Longrightarrow> ids_in_table t'"
proof (induction items arbitrary: t)
  case (Cons x items)
  from load_entries_step [of "fst x" "snd x"] Cons show ?case
    by (metis prod.collapse put_token_inv)
qed simp

lemma load_merges_frame [simp]:
  "vocab (load_merges ms i t) = vocab t" "id_to_token (load_merges ms i t) = id_to_token t"
  by (induction ms arbitrary: i t) (simp_all split: option.split)

lemma model_frame [simp]:
  "vocab (model_kind model t) = vocab t" "id_to_token (model_kind model t) = id_to_token t"
  "vocab (model_rest model t) = vocab t" "id_to_token (model_rest model t) = id_to_token t"
  by (simp_all add: model_kind_def model_rest_def Let_def split: option.split)

lemma load_model_inv [inv_intros]:
  "load_model model t = Inr t' \<Longrightarrow> ids_in_table t \<Longrightarrow> ids_in_table t'"
  using load_entries_inv [of "model_entries model" "model_kind model t"]
  by (auto simp: load_model_def ids_in_table_def split: sum.splits)

lemma load_added_inv [inv_intros]:
  "load_added ats t = Inr t' \<Longrightarrow> ids_in_table t \<Longrightarrow> ids_in_table t'"
proof (induction ats arbitrary: t)
  case (Cons at ats)
  from load_added_step [OF Cons.prems(1)] Cons show ?case
    by (metis note_special_inv put_token_inv)
qed simp

text \<open>No loading step changes the length limit; after the flags none changes lower-casing.\<close>

lemma put_token_frame:
  "put_token tok i t = Inr t' \<Longrightarrow> max_length t' = max_length t \<and> do_lower_case t' = do_lower_case t"
  by (auto simp: put_token_def Let_def split: if_splits)

lemma load_entries_frame: "load_entries items t = Inr t' \<Longrightarrow> max_length t' = max_length t"
proof (induction items arbitrary: t)
  case (Cons x items)
  from load_entries_step [of "fst x" "snd x"] Cons show ?case
    by (metis prod.collapse put_token_frame)
qed simp

lemma load_added_frame:
  "load_added ats t = Inr t' \<Longrightarrow> max_length t' = max_length t \<and> do_lower_case t' = do_lower_case t"
proof (induction ats arbitrary: t)
  case (Cons at ats)
  from load_added_step [OF Cons.prems(1)] Cons.IH show ?case
    by (metis note_special_frame(3,4) put_token_frame)
qed simp

lemma load_merges_max [simp]: "max_length (load_merges ms i t) = max_length t"
  by (induction ms arbitrary: i t) (simp_all split: option.split)

lemma model_frame_max [simp]:
  "max_length (model_kind model t) = max_length t" "max_length (model_rest model t) = max_length t"
  by (simp_all add: model_kind_def model_rest_def Let_def split: option.split)

lemma read_model_inv:
  assumes "read_model root t = Inr t'" and "ids_in_table t \<and> max_length t = ml"
  shows "ids_in_table t' \<and> max_length t' = ml"
proof (cases "get_object_item (Some root) ''model''")
  case None
  with assms show ?thesis by (simp add: read_model_def)
next
  case (Some model)
  with assms(1) have m: "load_model model t = Inr t'" by (simp add: read_model_def)
  then have "max_length t' = max_length t"
    by (auto simp: load_model_def split: sum.splits dest: load_entries_frame)
  with load_model_inv [OF m] assms(2) show ?thesis by simp
qed

lemma read_added_inv:
  assumes "read_added root t = Inr t'"
  shows "ids_in_table t \<and> max_length t = ml \<Longrightarrow> ids_in_table (read_padding root t') \<and>
      max_length (read_padding root t') = ml"
    and "do_lower_case (read_padding root t') = do_lower_case t"
  using assms load_added_inv [of _ t t'] load_added_frame [of _ t t']
  by (auto simp: read_added_def read_padding_def ids_in_table_def split: option.splits if_splits)

lemma emplace_all_bounds:
  "j \<in> ran (emplace_all ss k m) \<Longrightarrow> j \<in> ran m \<or> (k \<le> j \<and> j < k + int (length ss))"
proof (induction ss k m rule: emplace_all.induct)
  case (2 s ss i m)
  let ?m = "case m s of None \<Rightarrow> m(s \<mapsto> i) | Some _ \<Rightarrow> m"
  have "j \<in> ran ?m \<Longrightarrow> j \<in> ran m \<or> j = i"
    by (auto simp: ran_def split: option.splits if_splits)
  with 2 show ?case by force
qed simp

lemma load_vocab_ids:
  assumes "tokens \<noteq> []"
  shows "\<exists>t'. load_vocab tokens pad unk cls sep ml add t = ((True, []), t') \<and> 0 < max_length t' \<and>
    max_length t' = (if ml > 0 then ml else 512) \<and>
    insert (pad_token_id t') ({cls_token_id t', sep_token_id t'} \<union> vocab_ids t') \<subseteq>
      {0..<int (length tokens)}"
proof -
  have ran: "ran (emplace_all tokens 0 Map.empty) \<subseteq> {0..<int (length tokens)}"
    using emplace_all_bounds [of _ tokens 0 Map.empty] by auto
  have "resolve_special s e name fb \<in> {0..<int (length tokens)}"
    if "vocab s = emplace_all tokens 0 Map.empty" and "id_to_token s = tokens" for s e name fb
    using that assms ran by (auto simp: resolve_special_def Let_def intro!: ranI split: option.split)
  with assms ran show ?thesis
    by (simp add: load_vocab_def Let_def vocab_ids_def del: atLeastLessThan_iff)
qed

section \<open>What the subword algorithms compute\<close>

text \<open>The specification of WordPiece: cut the word into pieces of the vocabulary from the left, each
  the longest that matches where it starts.\<close>

inductive greedy_cut :: "tokenizer \<Rightarrow> string \<Rightarrow> nat \<Rightarrow> int list \<Rightarrow> nat \<Rightarrow> bool"
  for t :: tokenizer and word :: string where
  greedy_end: "greedy_cut t word start [] start"
| greedy_piece:
    "start < e \<Longrightarrow> e \<le> length word \<Longrightarrow> vocab t (wp_key t word start e) = Some i \<Longrightarrow>
     (\<forall>e'. e < e' \<and> e' \<le> length word \<longrightarrow> vocab t (wp_key t word start e') = None) \<Longrightarrow>
     greedy_cut t word e is stop \<Longrightarrow> greedy_cut t word start (i # is) stop"

inductive_simps greedy_cut_simps [simp]:
  "greedy_cut t word start [] stop" "greedy_cut t word start (i # is) stop"

definition stuck_at :: "tokenizer \<Rightarrow> string \<Rightarrow> nat \<Rightarrow> bool" where
  "stuck_at t word p \<longleftrightarrow> (\<forall>e. p < e \<and> e \<le> length word \<longrightarrow> vocab t (wp_key t word p e) = None)"

lemma wp_loop_greedy:
  "\<exists>pieces stop. greedy_cut t word start pieces stop \<and> (stop \<ge> length word \<or> stuck_at t word stop) \<and>
     wp_loop t word start f =
       (if pieces = [] \<and> \<not> f \<and> start < length word then [unk_token_id t] else pieces)"
proof (induction t word start f rule: wp_loop.induct)
  case (1 t word start f)
  show ?case
  proof (cases "wp_longest t word start (length word)")
    case None
    then have "stuck_at t word start" by (simp add: stuck_at_def wp_longest_None)
    with None show ?thesis
      by (intro exI [of _ "[]"] exI [of _ start]) (simp add: wp_loop.simps [of t word start f])
  next
    case (Some r)
    obtain e i where r: "r = (e, i)" by fastforce
    note best = wp_longest_Some [OF Some [unfolded r]]
    then have start: "start < length word" by simp
    from 1 [OF start Some [unfolded r] refl] obtain pieces stop where
      rest: "greedy_cut t word e pieces stop" "stop \<ge> length word \<or> stuck_at t word stop"
        "wp_loop t word e True = pieces"
      by auto
    with best have "greedy_cut t word start (i # pieces) stop" by auto
    with rest start Some r show ?thesis
      by (intro exI [of _ "i # pieces"] exI [of _ stop]) (simp add: wp_loop.simps [of t word start f])
  qed
qed

lemma concat_bpe_symbols: "concat (bpe_symbols w) = w"
  by (induction w rule: bpe_symbols.induct) simp_all

lemma concat_merge_at: "Suc p < length syms \<Longrightarrow> concat (merge_at p syms) = concat syms"
proof -
  assume p: "Suc p < length syms"
  then have "syms = take p syms @ syms ! p # syms ! Suc p # drop (Suc (Suc p)) syms"
    by (simp add: Cons_nth_drop_Suc)
  then have "concat syms = concat (take p syms) @ syms ! p @ syms ! Suc p @ concat (drop (Suc (Suc p)) syms)"
    by (metis append.assoc concat.simps(2) concat_append)
  then show ?thesis by (simp add: merge_at_def)
qed

text \<open>The scan finds the first pair of the lowest rank.\<close>

definition pair_rank :: "(string \<rightharpoonup> int) \<Rightarrow> string list \<Rightarrow> nat \<Rightarrow> int option" where
  "pair_rank ranks syms i = (if Suc i < length syms then ranks (syms ! i @ CHR '' '' # syms ! Suc i) else None)"

lemma bpe_scan_sound:
  assumes "bpe_scan ranks syms i (r, q) = (r', q')"
  shows "r' \<le> r \<and> (\<forall>j x. pair_rank ranks syms j = Some x \<longrightarrow> r' \<le> x) \<and>
    (q' = q \<and> r' = r \<or> (\<exists>j. q' = Some (i + j) \<and> pair_rank ranks syms j = Some r' \<and> r' < r \<and>
       (\<forall>k x. k < j \<longrightarrow> pair_rank ranks syms k = Some x \<longrightarrow> r' < x)))"
  using assms
proof (induction syms arbitrary: i r q rule: induct_list012)
  case (3 a b syms)
  let ?s = "b # syms"
  obtain r1 q1 where step: "(case ranks (a @ CHR '' '' # b) of
      Some x \<Rightarrow> if x < r then (x, Some i) else (r, q) | None \<Rightarrow> (r, q)) = (r1, q1)" by fastforce
  with "3.prems" have "bpe_scan ranks ?s (Suc i) (r1, q1) = (r', q')" by simp
  note IH = "3.IH"(2) [OF this]
  have ranks: "pair_rank ranks (a # ?s) 0 = ranks (a @ CHR '' '' # b)"
    "pair_rank ranks (a # ?s) (Suc j) = pair_rank ranks ?s j" for j
    by (simp_all add: pair_rank_def)
  from step have r1: "r1 \<le> r \<and> (\<forall>x. pair_rank ranks (a # ?s) 0 = Some x \<longrightarrow> r1 \<le> x) \<and>
      (q1 = q \<and> r1 = r \<and> (\<forall>x. pair_rank ranks (a # ?s) 0 = Some x \<longrightarrow> r \<le> x) \<or>
       q1 = Some i \<and> pair_rank ranks (a # ?s) 0 = Some r1 \<and> r1 < r)"
    by (auto simp: ranks split: option.splits if_splits)
  have all: "r' \<le> x" if "pair_rank ranks (a # ?s) j = Some x" for j x
    using that IH r1 by (cases j) (fastforce simp: ranks)+
  from IH consider (none) "q' = q1" "r' = r1"
    | (some) j where "q' = Some (Suc i + j)" "pair_rank ranks ?s j = Some r'" "r' < r1"
        "\<forall>k x. k < j \<longrightarrow> pair_rank ranks ?s k = Some x \<longrightarrow> r' < x"
    by blast
  then show ?case
  proof cases
    case none
    with r1 all show ?thesis by auto
  next
    case some
    have "r' < x" if "k < Suc j" and "pair_rank ranks (a # ?s) k = Some x" for k x
      using that some(3,4) r1 by (cases k) (fastforce simp: ranks)+
    with some r1 all ranks(2) [of j] show ?thesis
      by (intro conjI disjI2 exI [of _ "Suc j"]) auto
  qed
qed (auto simp: pair_rank_def)

lemma bpe_merge_none:
  assumes "snd (bpe_scan ranks syms 0 (INT_MAX, None)) = None"
  shows "pair_rank ranks syms j = Some x \<Longrightarrow> INT_MAX \<le> x"
  using bpe_scan_sound [of ranks syms 0 INT_MAX None] assms
  by (cases "bpe_scan ranks syms 0 (INT_MAX, None)") fastforce

lemma bpe_merge_correct:
  "concat (bpe_merge ranks syms) = concat syms \<and>
     (\<forall>j x. pair_rank ranks (bpe_merge ranks syms) j = Some x \<longrightarrow> INT_MAX \<le> x)"
proof (induction ranks syms rule: bpe_merge.induct)
  case (1 ranks syms)
  show ?case
  proof (cases "length syms > 1")
    case False
    then show ?thesis
      by (simp add: bpe_merge.simps [of ranks syms]) (simp add: pair_rank_def)
  next
    case len: True
    show ?thesis
    proof (cases "snd (bpe_scan ranks syms 0 (INT_MAX, None))")
      case None
      with bpe_merge_none [OF None] show ?thesis
        by (simp add: bpe_merge.simps [of ranks syms])
    next
      case (Some p)
      then have "Suc p < length syms" using bpe_scan_pos by fastforce
      with 1 [OF len Some] len Some show ?thesis
        by (simp add: bpe_merge.simps [of ranks syms] concat_merge_at)
    qed
  qed
qed

section \<open>Properties\<close>

text \<open>C9. WordPiece is greedy longest match: the ids of a word that is not itself in the vocabulary
  are those of the longest matching pieces from the left, up to the end of the word or to the first
  place where no piece matches; \<open>[UNK]\<close> is emitted only when nothing matched at all.\<close>

theorem wordpiece_greedy:
  assumes "word \<noteq> []" and "vocab t word = None"
  shows "\<exists>pieces stop. greedy_cut t word 0 pieces stop \<and>
    (stop \<ge> length word \<or> stuck_at t word stop) \<and>
    wordpiece_tokenize t word = (if pieces = [] then [unk_token_id t] else pieces)"
  using assms wp_loop_greedy [of t word 0 False] by (auto simp: wordpiece_tokenize_def)

theorem wordpiece_greedy_witness:
  "\<exists>pieces stop. greedy_cut (tokenizer_new\<lparr>vocab := [''ab'' \<mapsto> 3, ''##c'' \<mapsto> 4], wp_prefix := ''##''\<rparr>)
      ''abc'' 0 pieces stop \<and> pieces = [3, 4]"
proof -
  let ?t = "tokenizer_new\<lparr>vocab := [''ab'' \<mapsto> 3, ''##c'' \<mapsto> 4], wp_prefix := ''##''\<rparr>"
  have "wp_longest ?t ''abc'' 0 (length ''abc'') = Some (2, 3)"
    and "wp_longest ?t ''abc'' 2 (length ''abc'') = Some (3, 4)"
    by (simp_all add: wp_longest.simps [of _ _ _ "Suc n" for n] wp_key_def substr_def numeral_2_eq_2)
  then have "wordpiece_tokenize ?t ''abc'' = [3, 4]"
    by (simp add: wordpiece_tokenize_def wp_loop.simps [of _ _ 0] wp_loop.simps [of _ _ 2]
        wp_loop.simps [of _ _ 3] tokenizer_new_def)
  moreover have "''abc'' \<noteq> []" and "vocab ?t ''abc'' = None" by simp_all
  ultimately obtain pieces stop where "greedy_cut ?t ''abc'' 0 pieces stop"
    and "[3, 4] = (if pieces = [] then [unk_token_id ?t] else pieces)"
    using wordpiece_greedy [of "''abc''" ?t] by metis
  then show ?thesis by (intro exI [of _ pieces] exI [of _ stop]) (auto split: if_splits)
qed

text \<open>C12. BPE only regroups the bytes of a word: the merged symbols concatenate to the word, no
  pair with a usable rank is left next to each other, and the loop always ends. Each round merges
  the leftmost of the pairs of lowest rank.\<close>

theorem bpe_regroups:
  "concat (bpe_merge (bpe_ranks t) (bpe_symbols word)) = word \<and>
   (\<forall>j x. pair_rank (bpe_ranks t) (bpe_merge (bpe_ranks t) (bpe_symbols word)) j = Some x \<longrightarrow> INT_MAX \<le> x) \<and>
   (snd (bpe_scan (bpe_ranks t) syms 0 (INT_MAX, None)) = Some p \<longrightarrow>
      (\<exists>r. pair_rank (bpe_ranks t) syms p = Some r \<and>
         (\<forall>j x. pair_rank (bpe_ranks t) syms j = Some x \<longrightarrow> r \<le> x \<and> (j < p \<longrightarrow> r < x))))"
proof -
  obtain r q where scan: "bpe_scan (bpe_ranks t) syms 0 (INT_MAX, None) = (r, q)" by fastforce
  from bpe_scan_sound [OF scan] show ?thesis
    using bpe_merge_correct [of "bpe_ranks t" "bpe_symbols word"] concat_bpe_symbols [of word]
    by (auto simp: scan)
qed

theorem bpe_regroups_witness:
  "concat (bpe_merge (bpe_ranks (tokenizer_new\<lparr>bpe_ranks := [''a b'' \<mapsto> 0]\<rparr>)) (bpe_symbols ''cab'')) = ''cab'' \<and>
   snd (bpe_scan [''a b'' \<mapsto> 0] [''c'', ''a'', ''b''] 0 (INT_MAX, None)) = Some 1"
proof -
  have "snd (bpe_scan (bpe_ranks (tokenizer_new\<lparr>bpe_ranks := [''a b'' \<mapsto> 0]\<rparr>)) [''c'', ''a'', ''b''] 0
      (INT_MAX, None)) = Some 1"
    by (simp add: INT_MAX_def)
  with bpe_regroups [of "tokenizer_new\<lparr>bpe_ranks := [''a b'' \<mapsto> 0]\<rparr>" "''cab''" "[''c'', ''a'', ''b'']" 1]
  show ?thesis by simp
qed

text \<open>C5. After loading a non-empty vocabulary, encoding any text succeeds, respects the length
  limit, and every id it emits (special ids included, whatever the caller declared for them) is an
  index into that vocabulary.\<close>

theorem load_vocab_safe:
  assumes "tokens \<noteq> []"
  shows "\<exists>t' ids. load_vocab tokens pad unk cls sep ml add t = ((True, []), t') \<and>
    encode_single t' s = Inr ids \<and> int (length ids) \<le> (if ml > 0 then ml else 512) \<and>
    (\<forall>i \<in> set (pad_token_id t' # ids). 0 \<le> i \<and> i < int (length tokens))"
proof -
  from load_vocab_ids [OF assms] obtain t' where t':
    "load_vocab tokens pad unk cls sep ml add t = ((True, []), t')" "0 < max_length t'"
    "max_length t' = (if ml > 0 then ml else 512)"
    "insert (pad_token_id t') ({cls_token_id t', sep_token_id t'} \<union> vocab_ids t') \<subseteq>
      {0..<int (length tokens)}"
    by blast
  from encode_single_ok [OF t'(2), of s] obtain ids where
    "encode_single t' s = Inr ids" "int (length ids) \<le> max_length t'"
    "set ids \<subseteq> {cls_token_id t', sep_token_id t'} \<union> vocab_ids t'" by blast
  with t' show ?thesis by (intro exI [of _ t'] exI [of _ ids]) auto
qed

theorem load_vocab_safe_witness:
  "\<exists>t' ids. load_vocab [''[UNK]'', ''ab''] (-1) 7 (-1) (-1) 4 True tokenizer_new = ((True, []), t') \<and>
    encode_single t' ''ab xy ab'' = Inr ids \<and> int (length ids) \<le> 4"
  using load_vocab_safe [of "[''[UNK]'', ''ab'']" "-1" 7 "-1" "-1" 4 True tokenizer_new "''ab xy ab''"]
  by fastforce

text \<open>C24. A batch is rectangular when the tokenizer has a positive length limit: every text encodes, the width is
  exactly the length of the longest encoding and never above the limit, a row is its text's ids followed by pad
  ids up to that width, and the attention mask is one exactly on those ids.\<close>

theorem encode_batch_rect:
  assumes "0 < max_length t"
  shows "\<exists>b idss. encode_batch t texts = Inr b \<and> map (encode_single t) texts = map Inr idss \<and>
    seq_length b = Max (insert 0 (set (map (int \<circ> length) idss))) \<and> seq_length b \<le> max_length t \<and>
    input_ids b = map (\<lambda>ids. ids @ replicate (nat (seq_length b) - length ids) (pad_token_id t)) idss \<and>
    attention_mask b = map (\<lambda>ids. replicate (length ids) 1 @ replicate (nat (seq_length b) - length ids) 0) idss \<and>
    token_type_ids b = map (\<lambda>ids. replicate (nat (seq_length b)) 0) idss"
proof -
  from encode_all_ok [OF assms, of texts] obtain rs where
    rs: "encode_all t texts = Inr rs" "length rs = length texts"
      "\<forall>i < length texts. encode_single t (texts ! i) = Inr (rs ! i) \<and> int (length (rs ! i)) \<le> max_length t"
    by blast
  let ?m = "fold (\<lambda>ids m. max m (int (length ids))) rs 0"
  have upper: "?m \<le> max_length t"
    using rs assms by (auto simp: fold_max_length in_set_conv_nth)
  have len: "length ids \<le> nat ?m" if "ids \<in> set rs" for ids
  proof -
    have "int (length ids) \<le> ?m" using that by (auto simp: fold_max_length intro!: Max_ge)
    then show ?thesis by linarith
  qed
  then have "pad_row (nat ?m) x ids = ids @ replicate (nat ?m - length ids) x"
    "pad_row (nat ?m) 0 (map (\<lambda>_. 1) ids) = replicate (length ids) (1::int) @ replicate (nat ?m - length ids) 0"
    if "ids \<in> set rs" for ids x
    using that by (simp_all add: pad_row_def map_replicate_const)
  note rows = this
  define b where "b = \<lparr>input_ids = map (pad_row (nat ?m) (pad_token_id t)) rs,
    attention_mask = map (\<lambda>ids. pad_row (nat ?m) 0 (map (\<lambda>_. 1) ids)) rs,
    token_type_ids = map (\<lambda>ids. replicate (nat ?m) 0) rs, seq_length = ?m\<rparr>"
  have "encode_batch t texts = Inr b"
    using rs(1) upper by (simp add: encode_batch_def b_def Let_def)
  moreover have "map (encode_single t) texts = map Inr rs" using rs(2,3) by (intro nth_equalityI) simp_all
  moreover have "seq_length b = Max (insert 0 (set (map (int \<circ> length) rs)))" unfolding b_def by (simp add: fold_max_length)
  moreover have "input_ids b = map (\<lambda>ids. ids @ replicate (nat (seq_length b) - length ids) (pad_token_id t)) rs"
    "attention_mask b = map (\<lambda>ids. replicate (length ids) 1 @ replicate (nat (seq_length b) - length ids) 0) rs"
    "token_type_ids b = map (\<lambda>ids. replicate (nat (seq_length b)) 0) rs"
    unfolding b_def using rows by simp_all
  moreover have "seq_length b \<le> max_length t" unfolding b_def using upper by simp
  ultimately show ?thesis by blast
qed

theorem encode_batch_rect_witness:
  "\<exists>b. encode_batch (tokenizer_new\<lparr>max_length := 3\<rparr>) [''a b c'', []] = Inr b \<and> length (input_ids b) = 2"
proof -
  have "0 < max_length (tokenizer_new\<lparr>max_length := 3\<rparr>)" by simp
  from encode_batch_rect [OF this, of "[''a b c'', []]"] obtain b idss where
    b: "encode_batch (tokenizer_new\<lparr>max_length := 3\<rparr>) [''a b c'', []] = Inr b"
    "map (encode_single (tokenizer_new\<lparr>max_length := 3\<rparr>)) [''a b c'', []] = map Inr idss"
    "input_ids b = map (\<lambda>ids. ids @ replicate (nat (seq_length b) - length ids) (pad_token_id (tokenizer_new\<lparr>max_length := 3\<rparr>))) idss"
    by blast
  have "length idss = 2" using arg_cong [OF b(2), of length] by simp
  with b(1,3) show ?thesis by auto
qed

text \<open>Loading a \<open>tokenizer.json\<close> into a fresh tokenizer either fails (it does not parse, or an
  id is out of the \<open>int\<close> range the table can hold) or leaves every id of the vocabulary inside the
  id-to-token table; without a normalizer section lower-casing is off.\<close>

theorem load_from_blob_table:
  assumes "load_from_blob parse blob ml tokenizer_new = Inr t"
  shows "ids_in_table t \<and> max_length t = ml \<and>
    (\<exists>root. parse (c_str blob) = Some root \<and>
       (get_object_item (Some root) ''normalizer'' = None \<longrightarrow> \<not> do_lower_case t))"
proof -
  let ?t0 = "tokenizer_new\<lparr>max_length := ml\<rparr>"
  obtain root t1 t2 where root: "parse (c_str blob) = Some root"
    and t1: "read_model root ?t0 = Inr t1" and t2: "read_added root (read_flags root t1) = Inr t2"
    and t: "t = read_padding root t2"
    using assms by (auto simp: load_from_blob_def bind_sum_Inr split: option.splits)
  have "ids_in_table ?t0 \<and> max_length ?t0 = ml" by (simp add: ids_in_table_def tokenizer_new_def)
  then have "ids_in_table t1 \<and> max_length t1 = ml" by (rule read_model_inv [OF t1])
  then have "ids_in_table (read_flags root t1) \<and> max_length (read_flags root t1) = ml"
    by (simp add: read_flags_def ids_in_table_def)
  from read_added_inv(1) [OF t2 this] root t read_added_inv(2) [OF t2] show ?thesis
    by (auto simp: read_flags_def load_normalizer_def)
qed

theorem load_from_blob_table_witness:
  "\<exists>t. load_from_blob (\<lambda>_. Some (CObject [(''model'', CObject [(''vocab'',
      CObject [(''a'', CNumber 1 (0::int))])])])) ''{}'' 16 tokenizer_new = Inr t \<and>
    vocab t ''a'' = Some 1 \<and> ids_in_table t"
proof -
  let ?parse = "\<lambda>_::string. Some (CObject [(''model'', CObject [(''vocab'',
      CObject [(''a'', CNumber 1 (0::int))])])])"
  obtain t where t: "load_from_blob ?parse ''{}'' 16 tokenizer_new = Inr t" "vocab t ''a'' = Some 1"
    by (simp add: load_from_blob_def read_model_def load_model_def model_entries_def same_name_def
        lower_byte_def byte_def is_number_def valueint_def put_token_def INT_MAX_def model_rest_def
        model_kind_def valuestring_def read_added_def read_flags_def read_padding_def tokenizer_new_def)
  with load_from_blob_table [OF t(1)] show ?thesis by blast
qed

end
