(* ===== verification/SparsePost.thy ===== *)
theory SparsePost
  imports Prelude
begin

text \<open>
  \<open>detail/sparse_postprocess.hpp\<close>: SPLADE pooling, extraction above a threshold, and the pruning and
  ordering every sparse backend shares. A float is any type with an order, \<open>0\<close>, \<open>1\<close> and \<open>+\<close> (so
  without NaN); the logarithm is an argument \<open>ln'\<close>. A row-major buffer is the list of its entries
  and \<open>None\<close> is a null pointer. \<open>std::sort\<close> and \<open>std::partial_sort\<close> are two arguments with the
  contract \<open>sorter\<close>.
\<close>

section \<open>Pooling\<close>

record 'f sparse_result =
  indices :: "nat list"
  weights :: "'f list"

definition sparse_empty :: "'f sparse_result" where
  "sparse_empty = \<lparr>indices = [], weights = []\<rparr>"

definition row_at :: "nat \<Rightarrow> nat \<Rightarrow> 'a list \<Rightarrow> 'a list" where
  "row_at i w xs = take w (drop (i * w) xs)"

text \<open>One token: \<open>scores[v] = max(scores[v], log(1 + x))\<close> for the positive logits \<open>x\<close>.\<close>

definition raise_score :: "('f::{linorder,zero,one,plus} \<Rightarrow> 'f) \<Rightarrow> 'f \<Rightarrow> 'f \<Rightarrow> 'f" where
  "raise_score ln' score x =
     (if x \<le> 0 then score else let val = ln' (1 + x) in if val > score then val else score)"

fun pool_tokens :: "('f::{linorder,zero,one,plus} \<Rightarrow> 'f) \<Rightarrow> nat \<Rightarrow> 'f list \<Rightarrow> int list option \<Rightarrow> nat list
    \<Rightarrow> 'f list \<Rightarrow> 'f list" where
  "pool_tokens ln' v logits tmask [] scores = scores"
| "pool_tokens ln' v logits tmask (s # ss) scores =
     pool_tokens ln' v logits tmask ss
       (case tmask of
          Some m \<Rightarrow> if m ! s = 0 then scores else map2 (raise_score ln') scores (row_at s v logits)
        | None \<Rightarrow> map2 (raise_score ln') scores (row_at s v logits))"

text \<open>The terms above a bound, with ascending indices.\<close>

definition above :: "'f::linorder \<Rightarrow> 'f list \<Rightarrow> 'f sparse_result" where
  "above bound scores =
     (let kept = filter (\<lambda>v. scores ! v > bound) [0..<length scores]
      in \<lparr>indices = kept, weights = map ((!) scores) kept\<rparr>)"

definition splade_pool :: "('f::{linorder,zero,one,plus} \<Rightarrow> 'f) \<Rightarrow> 'f list option \<Rightarrow> int \<Rightarrow> int list option
    \<Rightarrow> int \<Rightarrow> 'f sparse_result" where
  "splade_pool ln' logits vocab_size token_mask num_tokens =
     (case logits of
        None \<Rightarrow> sparse_empty
      | Some xs \<Rightarrow>
          if vocab_size \<le> 0 \<or> num_tokens \<le> 0 then sparse_empty
          else above 0 (pool_tokens ln' (nat vocab_size) xs token_mask [0..<nat num_tokens]
                          (replicate (nat vocab_size) 0)))"

definition splade_postprocess :: "('f::{linorder,zero,one,plus} \<Rightarrow> 'f) \<Rightarrow> 'f list \<Rightarrow> int list option
    \<Rightarrow> nat \<Rightarrow> nat \<Rightarrow> nat \<Rightarrow> 'f sparse_result list" where
  "splade_postprocess ln' output tmask batch seq_len vocab_size =
     map (\<lambda>b. splade_pool ln' (Some (drop (b * seq_len * vocab_size) output)) (int vocab_size)
            (map_option (drop (b * seq_len)) tmask) (int seq_len)) [0..<batch]"

definition extract_sparse :: "'f::linorder list \<Rightarrow> nat \<Rightarrow> nat \<Rightarrow> 'f \<Rightarrow> 'f sparse_result list" where
  "extract_sparse scores batch vocab_size threshold =
     map (\<lambda>b. above threshold (row_at b vocab_size scores)) [0..<batch]"

section \<open>Pruning and ordering\<close>

definition FORMAT_DICT :: int where "FORMAT_DICT = 0"

definition FORMAT_INDEX_ORDER :: int where "FORMAT_INDEX_ORDER = 1"

definition terms_of :: "'f sparse_result \<Rightarrow> ('f \<times> nat) list" where
  "terms_of sr = zip (weights sr) (indices sr)"

definition of_terms :: "('f \<times> nat) list \<Rightarrow> 'f sparse_result" where
  "of_terms ts = \<lparr>indices = map snd ts, weights = map fst ts\<rparr>"

definition prune_light :: "'f::{linorder,zero} \<Rightarrow> 'f sparse_result \<Rightarrow> 'f sparse_result" where
  "prune_light min_weight sr =
     (if min_weight > 0 then of_terms (filter (\<lambda>t. fst t \<ge> min_weight) (terms_of sr)) else sr)"

type_synonym 'f term_sort =
  "('f \<times> nat \<Rightarrow> 'f \<times> nat \<Rightarrow> bool) \<Rightarrow> ('f \<times> nat) list \<Rightarrow> ('f \<times> nat) list"

definition keep_heaviest :: "'f::linorder term_sort \<Rightarrow> int \<Rightarrow> 'f sparse_result \<Rightarrow> 'f sparse_result" where
  "keep_heaviest partial_sort top_k sr =
     (if top_k > 0 \<and> int (length (indices sr)) > top_k then
        of_terms (take (nat top_k) (partial_sort (\<lambda>a b. fst a > fst b) (terms_of sr)))
      else sr)"

definition order_terms :: "'f::linorder term_sort \<Rightarrow> int \<Rightarrow> 'f sparse_result \<Rightarrow> 'f sparse_result" where
  "order_terms srt storage_format sr =
     of_terms (if storage_format = FORMAT_INDEX_ORDER then srt (\<lambda>a b. snd a < snd b) (terms_of sr)
               else srt (\<lambda>a b. fst a > fst b) (terms_of sr))"

definition sparse_prune_and_sort :: "'f::{linorder,zero} term_sort \<Rightarrow> 'f term_sort \<Rightarrow> int \<Rightarrow> 'f \<Rightarrow> int
    \<Rightarrow> 'f sparse_result \<Rightarrow> 'f sparse_result" where
  "sparse_prune_and_sort srt partial_sort top_k min_weight storage_format sr =
     order_terms srt storage_format (keep_heaviest partial_sort top_k (prune_light min_weight sr))"

section \<open>Publishing\<close>

record 'f sparse_item =
  item_length :: nat
  item_indices :: "nat list option"
  item_values :: "'f list option"

text \<open>The two booleans say whether each \<open>malloc\<close> succeeds.\<close>

definition sparse_result_store :: "bool \<Rightarrow> bool \<Rightarrow> 'f sparse_result \<Rightarrow> 'f sparse_item" where
  "sparse_result_store ok_idx ok_val sr =
     (if indices sr = [] \<or> \<not> ok_idx \<or> \<not> ok_val
      then \<lparr>item_length = 0, item_indices = None, item_values = None\<rparr>
      else \<lparr>item_length = length (indices sr), item_indices = Some (indices sr),
             item_values = Some (weights sr)\<rparr>)"

section \<open>Facts about pooling\<close>

definition kept_token :: "int list option \<Rightarrow> nat \<Rightarrow> bool" where
  "kept_token tmask s = (case tmask of None \<Rightarrow> True | Some m \<Rightarrow> m ! s \<noteq> 0)"

text \<open>The weights a term can take: those of the kept tokens with a positive logit, or zero.\<close>

definition candidates :: "('f::{linorder,zero,one,plus} \<Rightarrow> 'f) \<Rightarrow> nat \<Rightarrow> 'f list \<Rightarrow> int list option
    \<Rightarrow> nat set \<Rightarrow> nat \<Rightarrow> 'f set" where
  "candidates ln' v logits tmask S i =
     (\<lambda>s. ln' (1 + logits ! (s * v + i))) ` {s \<in> S. kept_token tmask s \<and> logits ! (s * v + i) > 0}"

lemma raise_score_max: "raise_score ln' score x = (if x \<le> 0 then score else max score (ln' (1 + x)))"
  by (auto simp: raise_score_def Let_def max_def)

lemma length_row_at: "(s + 1) * w \<le> length xs \<Longrightarrow> length (row_at s w xs) = w"
proof -
  assume "(s + 1) * w \<le> length xs"
  then have "w \<le> length xs - s * w" by simp
  then show ?thesis by (simp add: row_at_def)
qed

lemma length_pool_tokens:
  assumes "\<forall>s \<in> set ss. (s + 1) * v \<le> length logits" and "length scores = v"
  shows "length (pool_tokens ln' v logits tmask ss scores) = v"
  using assms
proof (induction ss arbitrary: scores)
  case (Cons s ss)
  then have "length (row_at s v logits) = v" by (intro length_row_at) simp
  with Cons show ?case by (auto split: option.split)
qed simp

lemma pool_tokens_nth:
  assumes "\<forall>s \<in> set ss. (s + 1) * v \<le> length logits" and "length scores = v" and "i < v"
  shows "pool_tokens ln' v logits tmask ss scores ! i =
    Max (insert (scores ! i) (candidates ln' v logits tmask (set ss) i))"
  using assms
proof (induction ss arbitrary: scores)
  case Nil
  then show ?case by (simp add: candidates_def)
next
  case (Cons s ss)
  let ?x = "logits ! (s * v + i)"
  have row: "length (row_at s v logits) = v" "row_at s v logits ! i = ?x"
    using Cons.prems length_row_at [of s v logits] by (simp_all add: row_at_def)
  define scores' where "scores' = (if kept_token tmask s then map2 (raise_score ln') scores (row_at s v logits)
    else scores)"
  have step: "pool_tokens ln' v logits tmask (s # ss) scores = pool_tokens ln' v logits tmask ss scores'"
    by (simp add: scores'_def kept_token_def split: option.split)
  have len: "length scores' = v" using Cons.prems row by (simp add: scores'_def)
  have nth: "scores' ! i = (if kept_token tmask s \<and> ?x > 0 then max (scores ! i) (ln' (1 + ?x)) else scores ! i)"
    using Cons.prems row by (auto simp: scores'_def raise_score_max)
  have cand: "candidates ln' v logits tmask (set (s # ss)) i =
      (if kept_token tmask s \<and> ?x > 0 then insert (ln' (1 + ?x)) (candidates ln' v logits tmask (set ss) i)
       else candidates ln' v logits tmask (set ss) i)"
    by (auto simp: candidates_def)
  have "finite (candidates ln' v logits tmask (set ss) i)" by (simp add: candidates_def)
  moreover have "pool_tokens ln' v logits tmask ss scores' ! i =
      Max (insert (scores' ! i) (candidates ln' v logits tmask (set ss) i))"
    using Cons.prems by (intro Cons.IH len) auto
  ultimately show ?case
    unfolding step cand
    by (cases "candidates ln' v logits tmask (set ss) i = {}")
      (simp_all add: nth max.assoc max.left_commute)
qed

text \<open>Tokens that are masked out change nothing.\<close>

lemma pool_tokens_masked:
  "\<forall>s \<in> set ss. \<not> kept_token tmask s \<Longrightarrow> pool_tokens ln' v logits tmask ss scores = scores"
  by (induction ss) (auto simp: kept_token_def split: option.splits)

lemma pool_tokens_append:
  "pool_tokens ln' v logits tmask (ss @ ss') scores =
     pool_tokens ln' v logits tmask ss' (pool_tokens ln' v logits tmask ss scores)"
  by (induction ss arbitrary: scores) simp_all

lemma pool_tokens_cong:
  assumes "\<forall>s \<in> set ss. (s + 1) * v \<le> length logits \<and> s < length m"
  shows "pool_tokens ln' v (logits @ extra) (Some (m @ m')) ss scores =
    pool_tokens ln' v logits (Some m) ss scores"
  using assms
proof (induction ss arbitrary: scores)
  case (Cons s ss)
  then have "row_at s v (logits @ extra) = row_at s v logits"
    by (simp add: row_at_def)
  with Cons show ?case by (simp add: nth_append)
qed simp

lemma above_terms: "(w, i) \<in> set (terms_of (above b xs)) \<longleftrightarrow> i < length xs \<and> w = xs ! i \<and> w > b"
proof -
  have "zip (map f ks) ks = map (\<lambda>k. (f k, k)) ks" for f :: "nat \<Rightarrow> 'a" and ks
    by (induction ks) simp_all
  then show ?thesis by (auto simp: above_def Let_def terms_of_def)
qed

lemma above_ascending: "sorted_wrt (<) (indices (above b xs))"
  by (simp add: above_def Let_def sorted_wrt_filter)

section \<open>Facts about ordering\<close>

lemma of_terms_simps [simp]:
  "indices (of_terms ts) = map snd ts" "weights (of_terms ts) = map fst ts" "terms_of (of_terms ts) = ts"
  by (simp_all add: of_terms_def terms_of_def zip_map_fst_snd)

lemma length_terms_of:
  "length (indices sr) = length (weights sr) \<Longrightarrow> length (terms_of sr) = length (indices sr)"
  by (simp add: terms_of_def)

lemma heaviest_split:
  fixes sr :: "'f::linorder sparse_result"
  assumes "sorter psrt"
  shows "\<exists>dropped. mset (terms_of sr) = mset (take k (psrt (\<lambda>a b. fst a > fst b) (terms_of sr))) + mset dropped \<and>
    (\<forall>d \<in> set dropped. \<forall>t \<in> set (take k (psrt (\<lambda>a b. fst a > fst b) (terms_of sr))). fst d \<le> fst t)"
proof -
  let ?s = "psrt (\<lambda>a b. fst a > fst b) (terms_of sr)"
  have "sorted_wrt (\<lambda>a b. fst b \<le> fst a) ?s"
    using sorter.srt_by_key_desc [OF assms, of fst "terms_of sr"] by simp
  then have "sorted_wrt (\<lambda>a b. fst b \<le> fst a) (take k ?s @ drop k ?s)" by simp
  then have "\<forall>t \<in> set (take k ?s). \<forall>d \<in> set (drop k ?s). fst d \<le> fst t"
    unfolding sorted_wrt_append by blast
  moreover have "mset (terms_of sr) = mset (take k ?s) + mset (drop k ?s)"
    using sorter.srt_perm [OF assms] by (metis append_take_drop_id mset_append)
  ultimately show ?thesis by blast
qed

lemma terms_weights: "length (indices sr) = length (weights sr) \<Longrightarrow> map fst (terms_of sr) = weights sr"
  by (simp add: terms_of_def)

lemma weights_mono:
  assumes "length (indices a) = length (weights a)" and "length (indices b) = length (weights b)"
    and "mset (terms_of a) \<subseteq># mset (terms_of b)"
  shows "set (weights a) \<subseteq> set (weights b)"
proof -
  have "set (map fst (terms_of a)) \<subseteq> set (map fst (terms_of b))"
    using set_mset_mono [OF assms(3)] by auto
  then show ?thesis using assms(1,2) by (simp only: terms_weights)
qed

lemma prune_light_split:
  assumes "length (indices sr) = length (weights sr)"
  shows "\<exists>d. mset (terms_of sr) = mset (terms_of (prune_light mw sr)) + mset d \<and>
      (\<forall>x \<in> set d. 0 < mw \<and> fst x < mw)"
    and "\<forall>w \<in> set (weights (prune_light mw sr)). 0 < mw \<longrightarrow> mw \<le> w"
    and "length (indices (prune_light mw sr)) = length (weights (prune_light mw sr))"
proof -
  have split: "mset ts = mset (filter P ts) + mset (filter (\<lambda>x. \<not> P x) ts)"
    for ts :: "('a \<times> nat) list" and P
    by (induction ts) auto
  show "\<exists>d. mset (terms_of sr) = mset (terms_of (prune_light mw sr)) + mset d \<and>
      (\<forall>x \<in> set d. 0 < mw \<and> fst x < mw)"
  proof (cases "0 < mw")
    case True
    then show ?thesis
      using split [of "terms_of sr" "\<lambda>t. mw \<le> fst t"]
      by (intro exI [of _ "filter (\<lambda>x. \<not> mw \<le> fst x) (terms_of sr)"]) (auto simp: prune_light_def)
  next
    case False
    then show ?thesis by (intro exI [of _ "[]"]) (simp add: prune_light_def)
  qed
qed (use assms in \<open>auto simp: prune_light_def\<close>)

lemma keep_heaviest_split:
  assumes "sorter psrt" and "length (indices sr) = length (weights sr)"
  shows "\<exists>d. mset (terms_of sr) = mset (terms_of (keep_heaviest psrt k sr)) + mset d \<and>
      (\<forall>x \<in> set d. int (length (indices (keep_heaviest psrt k sr))) = k \<and>
         (\<forall>t \<in> set (terms_of (keep_heaviest psrt k sr)). fst x \<le> fst t))"
    and "0 < k \<longrightarrow> int (length (indices (keep_heaviest psrt k sr))) \<le> k"
    and "length (indices (keep_heaviest psrt k sr)) = length (weights (keep_heaviest psrt k sr))"
proof -
  have len: "length (psrt lt (terms_of sr)) = length (indices sr)" for lt
    using sorter.length_srt [OF assms(1)] assms(2) by (simp add: length_terms_of)
  show "\<exists>d. mset (terms_of sr) = mset (terms_of (keep_heaviest psrt k sr)) + mset d \<and>
      (\<forall>x \<in> set d. int (length (indices (keep_heaviest psrt k sr))) = k \<and>
         (\<forall>t \<in> set (terms_of (keep_heaviest psrt k sr)). fst x \<le> fst t))"
  proof (cases "0 < k \<and> int (length (indices sr)) > k")
    case True
    with heaviest_split [OF assms(1), of sr "nat k"] len show ?thesis
      by (auto simp: keep_heaviest_def)
  next
    case False
    then show ?thesis by (intro exI [of _ "[]"]) (auto simp: keep_heaviest_def)
  qed
  show "0 < k \<longrightarrow> int (length (indices (keep_heaviest psrt k sr))) \<le> k"
    using len by (auto simp: keep_heaviest_def)
  show "length (indices (keep_heaviest psrt k sr)) = length (weights (keep_heaviest psrt k sr))"
    using assms(2) by (simp add: keep_heaviest_def)
qed

lemma order_terms_facts:
  assumes "sorter srt" and "length (indices sr) = length (weights sr)"
  shows "mset (terms_of (order_terms srt fmt sr)) = mset (terms_of sr)"
    and "length (indices (order_terms srt fmt sr)) = length (indices sr)"
    and "set (terms_of (order_terms srt fmt sr)) = set (terms_of sr)"
    and "length (indices (order_terms srt fmt sr)) = length (weights (order_terms srt fmt sr))"
    and "if fmt = FORMAT_INDEX_ORDER then sorted (indices (order_terms srt fmt sr))
         else sorted_wrt (\<ge>) (weights (order_terms srt fmt sr))"
  using sorter.srt_perm [OF assms(1)] sorter.length_srt [OF assms(1)] sorter.set_srt [OF assms(1)]
    sorter.srt_by_key_asc [OF assms(1), of snd "terms_of sr"]
    sorter.srt_by_key_desc [OF assms(1), of fst "terms_of sr"] assms(2)
  by (simp_all add: order_terms_def length_terms_of sorted_wrt_map)

lemma prune_sort_spec:
  assumes "sorter srt" and "sorter psrt" and "length (indices sr) = length (weights sr)"
    and "out = sparse_prune_and_sort srt psrt top_k min_weight fmt sr"
  shows "(\<exists>dropped. mset (terms_of sr) = mset (terms_of out) + mset dropped \<and>
      (\<forall>d \<in> set dropped. (0 < min_weight \<and> fst d < min_weight) \<or>
         (int (length (indices out)) = top_k \<and> (\<forall>t \<in> set (terms_of out). fst d \<le> fst t)))) \<and>
    (\<forall>w \<in> set (weights out). 0 < min_weight \<longrightarrow> min_weight \<le> w) \<and>
    (0 < top_k \<longrightarrow> int (length (indices out)) \<le> top_k) \<and>
    (if fmt = FORMAT_INDEX_ORDER then sorted (indices out) else sorted_wrt (\<ge>) (weights out))"
proof -
  define light where "light = prune_light min_weight sr"
  define heavy where "heavy = keep_heaviest psrt top_k light"
  have out: "out = order_terms srt fmt heavy"
    by (simp add: assms(4) light_def heavy_def sparse_prune_and_sort_def)
  note light = prune_light_split [OF assms(3), of min_weight, folded light_def]
  note heavy = keep_heaviest_split [OF assms(2) light(3), of top_k, folded heavy_def]
  note ord = order_terms_facts [OF assms(1) heavy(3), of fmt, folded out]
  from light(1) obtain d1 where d1: "mset (terms_of sr) = mset (terms_of light) + mset d1"
    "\<forall>d \<in> set d1. 0 < min_weight \<and> fst d < min_weight" by blast
  from heavy(1) obtain d2 where d2: "mset (terms_of light) = mset (terms_of heavy) + mset d2"
    "\<forall>d \<in> set d2. int (length (indices heavy)) = top_k \<and> (\<forall>t \<in> set (terms_of heavy). fst d \<le> fst t)"
    by blast
  have "mset (terms_of sr) = mset (terms_of out) + mset (d2 @ d1)"
    using d1(1) d2(1) ord(1) by simp
  moreover have "\<forall>d \<in> set (d2 @ d1). (0 < min_weight \<and> fst d < min_weight) \<or>
      (int (length (indices out)) = top_k \<and> (\<forall>t \<in> set (terms_of out). fst d \<le> fst t))"
    using d1(2) d2(2) ord(2,3) by auto
  moreover have "set (weights out) \<subseteq> set (weights light)"
    using weights_mono [OF heavy(3) light(3)] d2(1) weights_mono [OF ord(4) heavy(3)] ord(1)
    by (metis mset_subset_eq_add_left subset_mset.order_refl subset_trans)
  ultimately show ?thesis
    using light(2) heavy(2) unfolding ord(2) by (intro conjI ord(5)) (blast | simp)+
qed

section \<open>Properties\<close>

text \<open>C38. SPLADE pooling of a buffer that holds the tokens: the indices are strictly ascending term
  ids, and a term appears exactly when the maximum over the kept tokens of \<open>log(1 + relu(logit))\<close> is
  positive, with that maximum as its weight.\<close>

theorem splade_pool_max:
  assumes "num_tokens * v \<le> length logits" and "0 < v" and "0 < num_tokens"
  shows "sorted_wrt (<) (indices (splade_pool ln' (Some logits) (int v) tmask (int num_tokens))) \<and>
    (\<forall>i w. (w, i) \<in> set (terms_of (splade_pool ln' (Some logits) (int v) tmask (int num_tokens))) \<longleftrightarrow>
       i < v \<and> w = Max (insert 0 (candidates ln' v logits tmask {0..<num_tokens} i)) \<and> w > 0)"
proof -
  let ?p = "pool_tokens ln' v logits tmask [0..<num_tokens] (replicate v 0)"
  have fits: "\<forall>s \<in> set [0..<num_tokens]. (s + 1) * v \<le> length logits"
  proof
    fix s assume "s \<in> set [0..<num_tokens]"
    then have "(s + 1) * v \<le> num_tokens * v" by (intro mult_le_mono1) simp
    with assms(1) show "(s + 1) * v \<le> length logits" by simp
  qed
  have len: "length ?p = v" by (rule length_pool_tokens [OF fits]) simp
  have nth: "?p ! i = Max (insert 0 (candidates ln' v logits tmask {0..<num_tokens} i))" if "i < v" for i
    using pool_tokens_nth [OF fits _ that, of "replicate v 0"] that by simp
  have pool: "splade_pool ln' (Some logits) (int v) tmask (int num_tokens) = above 0 ?p"
    using assms by (simp add: splade_pool_def)
  have "(w, i) \<in> set (terms_of (above 0 ?p)) \<longleftrightarrow>
      i < v \<and> w = Max (insert 0 (candidates ln' v logits tmask {0..<num_tokens} i)) \<and> w > 0" for i w
    unfolding above_terms len using nth by (cases "i < v") simp_all
  moreover have "sorted_wrt (<) (indices (above 0 ?p))" by (rule above_ascending)
  ultimately show ?thesis unfolding pool by simp
qed

theorem splade_pool_max_witness:
  "sorted_wrt (<) (indices (splade_pool (\<lambda>x. x) (Some [2, 0, 5, -1, 3, 9::int]) 3 (Some [1, 0]) 2))"
  using splade_pool_max [of 2 3 "[2, 0, 5, -1, 3, 9::int]" "\<lambda>x. x" "Some [1, 0]"] by simp

text \<open>Padding is invisible: appending masked-out tokens, whatever their logits, does not change
  the sparse vector of a document.\<close>

theorem splade_pool_padding:
  assumes "length logits = n * v" and "length m = n" and "length pad = k * v" and "0 < v" and "0 < n"
  shows "splade_pool ln' (Some (logits @ pad)) (int v) (Some (m @ replicate k 0)) (int (n + k)) =
    splade_pool ln' (Some logits) (int v) (Some m) (int n)"
proof -
  have "\<forall>s \<in> set [0..<n]. (s + 1) * v \<le> length logits \<and> s < length m"
  proof
    fix s assume "s \<in> set [0..<n]"
    then have "(s + 1) * v \<le> n * v" and "s < n" by (auto intro: mult_le_mono1 simp del: mult_Suc)
    with assms show "(s + 1) * v \<le> length logits \<and> s < length m" by simp
  qed
  note same = pool_tokens_cong [OF this]
  have "\<forall>s \<in> set [n..<n + k]. \<not> kept_token (Some (m @ replicate k 0)) s"
    using assms(2) by (auto simp: kept_token_def nth_append)
  note masked = pool_tokens_masked [OF this]
  have "[0..<n + k] = [0..<n] @ [n..<n + k]" by (rule upt_add_eq_append) simp
  then have "pool_tokens ln' v (logits @ pad) (Some (m @ replicate k 0)) [0..<n + k] (replicate v 0) =
      pool_tokens ln' v logits (Some m) [0..<n] (replicate v 0)"
    by (simp only: pool_tokens_append masked same)
  moreover have "nat (int (n + k)) = n + k" "nat (int n) = n" "nat (int v) = v" by simp_all
  ultimately show ?thesis using assms(4,5)
    unfolding splade_pool_def by (simp del: of_nat_add)
qed

theorem splade_pool_padding_witness:
  "splade_pool (\<lambda>x. x) (Some ([3, 1] @ [9::int, 9])) 2 (Some ([1] @ replicate 1 0)) (int (1 + 1)) =
   splade_pool (\<lambda>x. x) (Some [3, 1]) 2 (Some [1]) 1"
  using splade_pool_padding [of "[3, 1::int]" 1 2 "[1]" "[9, 9]" 1 "\<lambda>x. x"] by simp

text \<open>Pruning keeps a sub-multiset of the terms: none lighter than a positive \<open>min_weight\<close>, at
  most \<open>top_k\<close> of them, and whatever is dropped is lighter than \<open>min_weight\<close> or not heavier than any
  kept term of a full selection. The result is ordered by descending weight, or by ascending index
  in INDEX_ORDER, also after a \<open>top_k\<close> selection.\<close>

theorem sparse_prune_correct:
  assumes "sorter srt" and "sorter psrt" and "length (indices sr) = length (weights sr)"
    and "out = sparse_prune_and_sort srt psrt top_k min_weight fmt sr"
  shows "(\<exists>dropped. mset (terms_of sr) = mset (terms_of out) + mset dropped \<and>
      (\<forall>d \<in> set dropped. (0 < min_weight \<and> fst d < min_weight) \<or>
         (int (length (indices out)) = top_k \<and> (\<forall>t \<in> set (terms_of out). fst d \<le> fst t)))) \<and>
    (\<forall>w \<in> set (weights out). 0 < min_weight \<longrightarrow> min_weight \<le> w) \<and>
    (0 < top_k \<longrightarrow> int (length (indices out)) \<le> top_k) \<and>
    (if fmt = FORMAT_INDEX_ORDER then sorted (indices out) else sorted_wrt (\<ge>) (weights out))"
  using assms by (rule prune_sort_spec)

theorem sparse_prune_correct_witness:
  "int (length (indices (sparse_prune_and_sort sort_by sort_by 2 3 FORMAT_INDEX_ORDER
      \<lparr>indices = [4, 7, 9, 11], weights = [5, 1, 8, 6::int]\<rparr>))) \<le> 2 \<and>
   sorted (indices (sparse_prune_and_sort sort_by sort_by 2 3 FORMAT_INDEX_ORDER
      \<lparr>indices = [4, 7, 9, 11], weights = [5, 1, 8, 6::int]\<rparr>))"
  using sparse_prune_correct [OF isort.sorter_axioms isort.sorter_axioms _ refl,
      of "\<lparr>indices = [4, 7, 9, 11], weights = [5, 1, 8, 6::int]\<rparr>" 2 3 FORMAT_INDEX_ORDER]
  by simp

end
