(* ===== verification/Pooling.thy ===== *)
theory Pooling
  imports Complex_Main Prelude
begin

text \<open>
  \<open>detail/pooling.hpp\<close>, \<open>detail/normalize.hpp\<close> and \<open>similarity.h\<close>. The definitions are over any
  type with the float operations and take the square root and the two epsilons as arguments; the
  properties are those of exact arithmetic, at \<open>real\<close>. A buffer is the list of its entries in
  row-major order; an output buffer is the list written to it.
\<close>

section \<open>Definitions\<close>

definition row_of :: "nat \<Rightarrow> nat \<Rightarrow> 'a list \<Rightarrow> 'a list" where
  "row_of off n xs = take n (drop off xs)"

definition pool_cls :: "'f list \<Rightarrow> nat \<Rightarrow> nat \<Rightarrow> nat \<Rightarrow> int \<Rightarrow> 'f list" where
  "pool_cls tensor batch seq_len width ndim =
     (if ndim = 2 then row_of 0 (batch * width) tensor
      else concat (map (\<lambda>b. row_of (b * seq_len * width) width tensor) [0..<batch]))"

fun mean_loop :: "'f::{zero,one,plus} list \<Rightarrow> int list \<Rightarrow> nat \<Rightarrow> nat list \<Rightarrow> 'f list \<times> 'f \<Rightarrow> 'f list \<times> 'f" where
  "mean_loop row_tensor row_mask width [] acc = acc"
| "mean_loop row_tensor row_mask width (s # ss) (dst, mask_sum) =
     mean_loop row_tensor row_mask width ss
       (if row_mask ! s \<noteq> 0 then (map2 (+) dst (row_of (s * width) width row_tensor), mask_sum + 1)
        else (dst, mask_sum))"

definition pool_mean ::
    "'f::{zero,one,plus,times,inverse,ord} \<Rightarrow> 'f list \<Rightarrow> int list \<Rightarrow> nat \<Rightarrow> nat \<Rightarrow> nat \<Rightarrow> int \<Rightarrow> 'f list" where
  "pool_mean eps tensor tmask batch seq_len width ndim =
     (if ndim = 2 then row_of 0 (batch * width) tensor
      else concat (map (\<lambda>b.
        (case mean_loop (drop (b * seq_len * width) tensor) (drop (b * seq_len) tmask) width [0..<seq_len]
                (replicate width 0, 0) of
           (dst, mask_sum) \<Rightarrow>
             let inv = (if mask_sum > eps then 1 / mask_sum else 1) in map (\<lambda>x. x * inv) dst))
        [0..<batch]))"

definition sum_list_left :: "'f::{zero,plus} list \<Rightarrow> 'f" where
  "sum_list_left xs = foldl (+) 0 xs"

definition normalize_row :: "('f \<Rightarrow> 'f) \<Rightarrow> 'f \<Rightarrow> 'f::{zero,one,plus,times,inverse,ord} list \<Rightarrow> 'f list" where
  "normalize_row sqrt' eps row =
     (let norm = sqrt' (sum_list_left (map (\<lambda>x. x * x) row));
          inv = (if norm > eps then 1 / norm else 0)
      in map (\<lambda>x. x * inv) row)"

definition l2_normalize ::
    "('f \<Rightarrow> 'f) \<Rightarrow> 'f \<Rightarrow> 'f::{zero,one,plus,times,inverse,ord} list \<Rightarrow> nat \<Rightarrow> nat \<Rightarrow> 'f list" where
  "l2_normalize sqrt' eps vectors n width =
     concat (map (\<lambda>i. normalize_row sqrt' eps (row_of (i * width) width vectors)) [0..<n])
       @ drop (n * width) vectors"

text \<open>The similarities; \<open>None\<close> is a null pointer.\<close>

definition dot :: "'f::{zero,plus,times} list \<Rightarrow> 'f list \<Rightarrow> 'f" where
  "dot xs ys = sum_list_left (map2 (*) xs ys)"

definition lembed_dot_product :: "'f::{zero,plus,times} list option \<Rightarrow> 'f list option \<Rightarrow> int \<Rightarrow> 'f" where
  "lembed_dot_product a b width =
     (case (a, b) of
        (Some xs, Some ys) \<Rightarrow> if width \<le> 0 then 0 else dot (take (nat width) xs) (take (nat width) ys)
      | _ \<Rightarrow> 0)"

definition lembed_cosine_similarity ::
    "('f \<Rightarrow> 'f) \<Rightarrow> 'f::{zero,plus,times,inverse} list option \<Rightarrow> 'f list option \<Rightarrow> int \<Rightarrow> 'f" where
  "lembed_cosine_similarity sqrt' a b width =
     (case (a, b) of
        (Some xs, Some ys) \<Rightarrow>
          if width \<le> 0 then 0
          else let u = take (nat width) xs; v = take (nat width) ys; norm_a = dot u u; norm_b = dot v v
               in if norm_a = 0 \<or> norm_b = 0 then 0 else dot u v / (sqrt' norm_a * sqrt' norm_b)
      | _ \<Rightarrow> 0)"

definition lembed_euclidean_distance ::
    "('f \<Rightarrow> 'f) \<Rightarrow> 'f::{zero,plus,minus,times} list option \<Rightarrow> 'f list option \<Rightarrow> int \<Rightarrow> 'f" where
  "lembed_euclidean_distance sqrt' a b width =
     (case (a, b) of
        (Some xs, Some ys) \<Rightarrow>
          if width \<le> 0 then 0
          else let d = map2 (-) (take (nat width) xs) (take (nat width) ys) in sqrt' (sum_list_left (map (\<lambda>x. x * x) d))
      | _ \<Rightarrow> 0)"

section \<open>Facts\<close>

lemma sum_list_left [simp]: "sum_list_left xs = sum_list (xs :: 'f::comm_monoid_add list)"
proof -
  have "foldl (+) k xs = k + sum_list xs" for k
    by (induction xs arbitrary: k) (simp_all add: add.assoc)
  then show ?thesis by (simp add: sum_list_left_def)
qed

lemma length_row_of: "off + n \<le> length xs \<Longrightarrow> length (row_of off n xs) = n"
  by (simp add: row_of_def)

lemma nth_row_of: "off + n \<le> length xs \<Longrightarrow> i < n \<Longrightarrow> row_of off n xs ! i = xs ! (off + i)"
  by (simp add: row_of_def)

lemma dot_self_nonneg: "0 \<le> dot xs (xs :: real list)"
  by (induction xs) (simp_all add: dot_def)

lemma dot_self_zero: "dot xs (xs :: real list) = 0 \<longleftrightarrow> (\<forall>x \<in> set xs. x = 0)"
proof (induction xs)
  case (Cons x xs)
  have "dot (x # xs) (x # xs) = x * x + dot xs xs" by (simp add: dot_def)
  with Cons dot_self_nonneg [of xs] show ?case
    by (simp add: add_nonneg_eq_0_iff)
qed (simp add: dot_def)

lemma dot_comm: "dot xs ys = dot ys (xs :: real list)"
  by (induction xs ys rule: list_induct2') (simp_all add: dot_def mult.commute)

text \<open>The inequality of Cauchy and Schwarz for lists of one length.\<close>

lemma dot_square_le:
  assumes "length xs = length (ys :: real list)"
  shows "(dot xs ys)\<^sup>2 \<le> dot xs xs * dot ys ys"
proof -
  have lin: "dot (map2 (\<lambda>x y. a * x - b * y) xs ys) (map2 (\<lambda>x y. a * x - b * y) xs ys) =
      a\<^sup>2 * dot xs xs - 2 * a * b * dot xs ys + b\<^sup>2 * dot ys ys" for a b
    using assms by (induction xs ys rule: list_induct2)
      (simp_all add: dot_def algebra_simps power2_eq_square)
  let ?A = "dot xs xs" and ?B = "dot ys ys" and ?C = "dot xs ys"
  have "0 \<le> ?B\<^sup>2 * ?A - 2 * ?B * ?C * ?C + ?C\<^sup>2 * ?B"
    using dot_self_nonneg [of "map2 (\<lambda>x y. ?B * x - ?C * y) xs ys"] unfolding lin .
  then have pos: "0 \<le> ?B * (?A * ?B - ?C\<^sup>2)"
    by (simp add: algebra_simps power2_eq_square)
  show ?thesis
  proof (cases "?B = 0")
    case True
    then have "\<forall>y \<in> set ys. y = 0" by (simp add: dot_self_zero)
    with assms have "?C = 0"
      by (induction xs ys rule: list_induct2) (simp_all add: dot_def)
    with True show ?thesis by simp
  next
    case False
    with dot_self_nonneg [of ys] have "0 < ?B" by simp
    with pos show ?thesis by (simp add: zero_le_mult_iff)
  qed
qed

lemma cosine_bound:
  assumes "length u = length v"
  shows "\<bar>dot u v / (sqrt (dot u u) * sqrt (dot v v))\<bar> \<le> 1"
proof -
  have "\<bar>a / p\<bar> \<le> 1" if "\<bar>a\<bar> \<le> p" for a p :: real
    using that by (cases "p = 0") (auto simp: abs_divide divide_le_eq_1)
  moreover have "\<bar>dot u v\<bar> \<le> sqrt (dot u u) * sqrt (dot v v)"
    using dot_square_le [OF assms] by (simp flip: real_sqrt_mult add: real_le_rsqrt)
  ultimately show ?thesis by blast
qed

lemma cosine_eq:
  "lembed_cosine_similarity sqrt (Some a) (Some b) width = (if width \<le> 0 then 0 else
     if dot (take (nat width) a) (take (nat width) a) = 0 \<or> dot (take (nat width) b) (take (nat width) b) = 0
     then 0 else dot (take (nat width) a) (take (nat width) b) /
       (sqrt (dot (take (nat width) a) (take (nat width) a)) * sqrt (dot (take (nat width) b) (take (nat width) b))))"
  by (simp add: lembed_cosine_similarity_def Let_def)

lemma mean_loop_sum:
  fixes row_tensor :: "real list"
  assumes "\<forall>s \<in> set ss. (s + 1) * width \<le> length row_tensor" and "length dst = width" and "d < width"
  shows "fst (mean_loop row_tensor row_mask width ss (dst, m)) ! d =
      dst ! d + sum_list (map (\<lambda>s. row_tensor ! (s * width + d)) (filter (\<lambda>s. row_mask ! s \<noteq> 0) ss)) \<and>
    snd (mean_loop row_tensor row_mask width ss (dst, m)) =
      m + of_nat (length (filter (\<lambda>s. row_mask ! s \<noteq> 0) ss)) \<and>
    length (fst (mean_loop row_tensor row_mask width ss (dst, m))) = width"
  using assms
proof (induction ss arbitrary: dst m)
  case (Cons s ss)
  then have row: "length (row_of (s * width) width row_tensor) = width"
    "row_of (s * width) width row_tensor ! d = row_tensor ! (s * width + d)"
    by (simp_all add: length_row_of nth_row_of add.commute)
  then have dst: "length (map2 (+) dst (row_of (s * width) width row_tensor)) = width"
    "map2 (+) dst (row_of (s * width) width row_tensor) ! d = dst ! d + row_tensor ! (s * width + d)"
    using Cons.prems by simp_all
  show ?case
    using Cons.IH [OF _ dst(1), of "m + 1"] Cons.IH [of dst m] Cons.prems dst(2)
    by simp
qed simp

section \<open>Properties\<close>

text \<open>Mean pooling of a three-dimensional output: component \<open>d\<close> of row \<open>b\<close> is the sum over the
  kept tokens divided by their number, and zero when the mask keeps none; padding tokens do not
  count.\<close>

theorem pool_mean_average:
  fixes tensor :: "real list"
  assumes "batch * seq_len * width \<le> length tensor" and "b < batch" and "d < width" and "0 < eps" and "eps < 1"
  shows "pool_mean eps tensor tmask batch seq_len width 3 ! (b * width + d) =
    (let kept = filter (\<lambda>s. drop (b * seq_len) tmask ! s \<noteq> 0) [0..<seq_len]
     in sum_list (map (\<lambda>s. tensor ! ((b * seq_len + s) * width + d)) kept) /
        (if kept = [] then 1 else real (length kept)))"
proof -
  define row where "row b = (case mean_loop (drop (b * seq_len * width) tensor) (drop (b * seq_len) tmask) width
      [0..<seq_len] (replicate width 0, 0) of
    (dst, mask_sum) \<Rightarrow> let inv = (if mask_sum > eps then 1 / mask_sum else 1) in map (\<lambda>x. x * inv) dst)" for b
  let ?kept = "\<lambda>b. filter (\<lambda>s. drop (b * seq_len) tmask ! s \<noteq> 0) [0..<seq_len]"
  have row_facts: "length (row c) = width \<and>
      row c ! d = sum_list (map (\<lambda>s. tensor ! ((c * seq_len + s) * width + d)) (?kept c)) /
        (if ?kept c = [] then 1 else real (length (?kept c)))" if "c < batch" for c
  proof -
    have "(c + 1) * (seq_len * width) \<le> batch * (seq_len * width)"
      using that by (intro mult_le_mono1) simp
    with assms(1) have room: "c * seq_len * width + seq_len * width \<le> length tensor"
      by (simp add: algebra_simps)
    have fits: "\<forall>s \<in> set [0..<seq_len]. (s + 1) * width \<le> length (drop (c * seq_len * width) tensor)"
    proof
      fix s assume "s \<in> set [0..<seq_len]"
      then have "(s + 1) * width \<le> seq_len * width" by (intro mult_le_mono1) simp
      with room show "(s + 1) * width \<le> length (drop (c * seq_len * width) tensor)"
        unfolding length_drop by linarith
    qed
    have nth: "drop (c * seq_len * width) tensor ! (s * width + d) = tensor ! ((c * seq_len + s) * width + d)" for s
      using room by (simp add: algebra_simps)
    obtain dst ms where loop: "mean_loop (drop (c * seq_len * width) tensor) (drop (c * seq_len) tmask) width
        [0..<seq_len] (replicate width 0, 0) = (dst, ms)" by fastforce
    from mean_loop_sum [OF fits, of "replicate width 0" d "drop (c * seq_len) tmask" 0] assms(3) loop
    have "length dst = width"
      and "dst ! d = sum_list (map (\<lambda>s. tensor ! ((c * seq_len + s) * width + d)) (?kept c))"
      and "ms = real (length (?kept c))"
      by (simp_all add: nth)
    moreover have "eps < ms \<longleftrightarrow> ?kept c \<noteq> []"
      using assms(4,5) \<open>ms = _\<close> by (cases "?kept c") auto
    ultimately show ?thesis
      using assms(3) by (simp add: row_def loop Let_def)
  qed
  have "pool_mean eps tensor tmask batch seq_len width 3 = concat (map row [0..<batch])"
    by (auto simp: pool_mean_def row_def intro!: arg_cong [of _ _ concat])
  moreover have "concat (map row [0..<batch]) ! (b * width + d) = map row [0..<batch] ! b ! d"
    using row_facts assms(2,3) by (intro nth_concat_rect) auto
  ultimately show ?thesis using row_facts [OF assms(2)] assms(2) by (simp add: Let_def)
qed

theorem pool_mean_average_witness:
  "pool_mean (1/2) [1, 2, 3, 4, 7, 8 :: real] [1, 1, 0] 1 3 2 3 ! 1 = 3"
  using pool_mean_average [of 1 3 2 "[1, 2, 3, 4, 7, 8 :: real]" 0 1 "1/2" "[1, 1, 0]"]
  by (simp add: upt_rec numeral_3_eq_3)

text \<open>After normalisation every row has length one, or is zero when its length did not exceed
  the epsilon.\<close>

theorem l2_normalize_unit:
  fixes vectors :: "real list"
  assumes "n * width \<le> length vectors" and "i < n" and "0 \<le> eps"
  shows "let row = row_of (i * width) width vectors; out = row_of (i * width) width (l2_normalize sqrt eps vectors n width)
    in length out = width \<and> dot out out = (if sqrt (dot row row) > eps then 1 else 0)"
proof -
  let ?row = "\<lambda>i. row_of (i * width) width vectors" and ?f = "normalize_row sqrt eps"
  have rows: "length (?row j) = width" if "j < n" for j
  proof (rule length_row_of)
    have "(j + 1) * width \<le> n * width" using that by (intro mult_le_mono1) simp
    with assms(1) show "j * width + width \<le> length vectors" by simp
  qed
  have len: "length (?f r) = length r" for r by (simp add: normalize_row_def Let_def)
  have out: "row_of (i * width) width (l2_normalize sqrt eps vectors n width) = ?f (?row i)"
  proof -
    have "[0..<n] = [0..<i] @ i # [Suc i..<n]"
      using assms(2) by (metis le0 less_imp_le_nat upt_add_eq_append upt_conv_Cons le_add_diff_inverse)
    then have "l2_normalize sqrt eps vectors n width =
        concat (map (\<lambda>j. ?f (?row j)) [0..<i]) @ ?f (?row i) @
          concat (map (\<lambda>j. ?f (?row j)) [Suc i..<n]) @ drop (n * width) vectors"
      by (simp add: l2_normalize_def)
    moreover have "length (concat (map (\<lambda>j. ?f (?row j)) [0..<i])) = i * width"
      using rows assms(2) by (subst length_concat_rect [of _ width]) (auto simp: len)
    ultimately show ?thesis using rows [OF assms(2)] by (simp add: row_of_def len)
  qed
  have scale: "dot (map (\<lambda>x. x * c) r) (map (\<lambda>x. x * c) r) = c\<^sup>2 * dot r r" for c :: real and r
    by (induction r) (simp_all add: dot_def algebra_simps power2_eq_square)
  have sq: "(\<Sum>x\<leftarrow>r. x * x) = dot r r" for r :: "real list"
    by (induction r) (simp_all add: dot_def)
  have "dot (?f r) (?f r) = (if sqrt (dot r r) > eps then 1 else 0)" for r
    using assms(3) dot_self_nonneg [of r]
    by (auto simp: normalize_row_def Let_def sq scale power_divide)
  then show ?thesis using rows [OF assms(2)] by (simp add: Let_def out len)
qed

theorem l2_normalize_unit_witness:
  "dot (row_of (1 * 2) 2 (l2_normalize sqrt 0 [0, 0, 3, 4] 2 2)) (row_of (1 * 2) 2 (l2_normalize sqrt 0 [0, 0, 3, 4] 2 2)) = 1"
  using l2_normalize_unit [of 2 2 "[0, 0, 3, 4]" 1 0]
  by (simp add: Let_def row_of_def dot_def)

text \<open>The cosine similarity of two vectors of one length is symmetric, lies between -1 and 1, is
  1 for a non-zero vector and itself, and 0 when one of them is zero.\<close>

theorem cosine_range:
  fixes xs ys :: "real list"
  assumes "length xs = length ys"
  shows "lembed_cosine_similarity sqrt (Some xs) (Some ys) width = lembed_cosine_similarity sqrt (Some ys) (Some xs) width \<and>
    \<bar>lembed_cosine_similarity sqrt (Some xs) (Some ys) width\<bar> \<le> 1 \<and>
    (0 < width \<and> (\<exists>x \<in> set (take (nat width) xs). x \<noteq> 0) \<longrightarrow>
       lembed_cosine_similarity sqrt (Some xs) (Some xs) width = 1)"
proof (intro conjI impI)
  show "lembed_cosine_similarity sqrt (Some xs) (Some ys) width = lembed_cosine_similarity sqrt (Some ys) (Some xs) width"
    unfolding cosine_eq dot_comm [of "take (nat width) ys" "take (nat width) xs"]
      mult.commute [of "sqrt (dot (take (nat width) ys) (take (nat width) ys))"]
      disj_commute [of "dot (take (nat width) ys) (take (nat width) ys) = 0"] by (rule refl)
  show "\<bar>lembed_cosine_similarity sqrt (Some xs) (Some ys) width\<bar> \<le> 1"
    unfolding cosine_eq using assms by (simp only: cosine_bound length_take split: if_split) simp
  assume "0 < width \<and> (\<exists>x \<in> set (take (nat width) xs). x \<noteq> 0)"
  then have "dot (take (nat width) xs) (take (nat width) xs) \<noteq> 0" and "\<not> width \<le> 0"
    by (simp_all add: dot_self_zero)
  then show "lembed_cosine_similarity sqrt (Some xs) (Some xs) width = 1"
    unfolding cosine_eq by (simp add: dot_self_nonneg)
qed

theorem cosine_range_witness:
  "lembed_cosine_similarity sqrt (Some [3, 4]) (Some [3, 4]) 2 = 1"
  using cosine_range [of "[3, 4]" "[3, 4]" 2] by simp

end
