(* ===== verification/Types.thy ===== *)
theory Types
  imports Prelude
begin

text \<open>
  The enumerations of \<open>types.h\<close> and \<open>error.h\<close> with their numbers, the status messages, and the
  thread-local error buffer. The order of each enumeration is the order of its numbers, which the
  public interface fixes.
\<close>

section \<open>Status codes\<close>

datatype status =
    OK | INVALID_ARGUMENT | OUT_OF_MEMORY | ONNX_RUNTIME | TOKENIZER | DOWNLOAD | IO_ERROR
  | MODEL_NOT_FOUND | UNSUPPORTED | BATCH_SIZE | LLAMA | CACHE_MISS | GGUF

fun status_code :: "status \<Rightarrow> nat" where
  "status_code OK = 0"
| "status_code INVALID_ARGUMENT = 1"
| "status_code OUT_OF_MEMORY = 2"
| "status_code ONNX_RUNTIME = 3"
| "status_code TOKENIZER = 4"
| "status_code DOWNLOAD = 5"
| "status_code IO_ERROR = 6"
| "status_code MODEL_NOT_FOUND = 7"
| "status_code UNSUPPORTED = 8"
| "status_code BATCH_SIZE = 9"
| "status_code LLAMA = 10"
| "status_code CACHE_MISS = 11"
| "status_code GGUF = 12"

text \<open>An argument of the enumeration type may hold any number.\<close>

definition lembed_status_message :: "nat \<Rightarrow> string" where
  "lembed_status_message s =
     (if s = 0 then ''Success''
      else if s = 1 then ''Invalid argument''
      else if s = 2 then ''Out of memory''
      else if s = 3 then ''ONNX Runtime error''
      else if s = 4 then ''Tokenizer error''
      else if s = 5 then ''Download error''
      else if s = 6 then ''I/O error''
      else if s = 7 then ''Model not found''
      else if s = 8 then ''Unsupported operation''
      else if s = 9 then ''Invalid batch size for quantization mode''
      else if s = 10 then ''llama.cpp error''
      else if s = 11 then ''Cache miss''
      else if s = 12 then ''GGUF runtime error''
      else ''Unknown error'')"

lemma status_code_inject [simp]: "status_code s = status_code t \<longleftrightarrow> s = t"
  by (cases s; cases t) simp_all

instantiation status :: linorder
begin

definition less_eq_status :: "status \<Rightarrow> status \<Rightarrow> bool" where
  "less_eq_status s t = (status_code s \<le> status_code t)"

definition less_status :: "status \<Rightarrow> status \<Rightarrow> bool" where
  "less_status s t = (status_code s < status_code t)"

instance
  by standard (auto simp: less_eq_status_def less_status_def)

end

text \<open>\<open>set_error\<close>: \<open>strncpy\<close> into a buffer of 1024 bytes.\<close>

definition set_error :: "string \<Rightarrow> string" where
  "set_error msg = snprintf_s 1024 msg"

section \<open>Quantization, pooling and backend\<close>

datatype quantization = Q_NONE | Q_STATIC | Q_DYNAMIC | Q_AUTO | Q_FP16

fun quant_code :: "quantization \<Rightarrow> int" where
  "quant_code Q_NONE = 0"
| "quant_code Q_STATIC = 1"
| "quant_code Q_DYNAMIC = 2"
| "quant_code Q_AUTO = 3"
| "quant_code Q_FP16 = 4"

lemma quant_code_inject [simp]: "quant_code q = quant_code r \<longleftrightarrow> q = r"
  by (cases q; cases r) simp_all

instantiation quantization :: linorder
begin

definition less_eq_quantization :: "quantization \<Rightarrow> quantization \<Rightarrow> bool" where
  "less_eq_quantization q r = (quant_code q \<le> quant_code r)"

definition less_quantization :: "quantization \<Rightarrow> quantization \<Rightarrow> bool" where
  "less_quantization q r = (quant_code q < quant_code r)"

instance
  by standard (auto simp: less_eq_quantization_def less_quantization_def)

end

text \<open>The label of a mode in messages (\<open>lembed__quantization_name\<close> of \<open>model_registry.h\<close>).\<close>

definition quantization_name :: "int \<Rightarrow> string" where
  "quantization_name q =
     (if q = quant_code Q_STATIC then ''static''
      else if q = quant_code Q_DYNAMIC then ''dynamic''
      else if q = quant_code Q_AUTO then ''auto''
      else if q = quant_code Q_FP16 then ''fp16''
      else ''none'')"

datatype pooling = POOL_CLS | POOL_MEAN

datatype backend = BACKEND_ONNX | BACKEND_LLAMACPP | BACKEND_AUTO

section \<open>Properties\<close>

text \<open>Every status of the library has its own message, distinct from the one for unknown
  numbers.\<close>

theorem status_messages_distinct:
  "(lembed_status_message (status_code s) = lembed_status_message (status_code t)) = (s = t) \<and>
   lembed_status_message (status_code s) \<noteq> ''Unknown error''"
  by (cases s; cases t; simp add: lembed_status_message_def)

end
