(* ===== verification/Registry.thy ===== *)
theory Registry
  imports Types
begin

text \<open>
  The model registry of \<open>model_registry.h\<close>: its four tables, indexed by the enumerations of
  \<open>types.h\<close>, the additional files, and the queries. An enumeration argument is the \<open>int\<close> it may
  hold; a null string is \<open>None\<close>. A query that reports an error returns its result with what it
  leaves in the thread-local error buffer, \<open>None\<close> when it leaves the buffer alone.
\<close>

section \<open>Tables\<close>

record model_info =
  model_name :: string
  model_code :: string
  model_file :: string
  model_description :: string
  model_dim :: int
  max_tokens :: int
  model_pooling :: pooling
  model_quantization :: quantization

type_synonym model_row = "string \<times> string \<times> string \<times> string \<times> int \<times> int \<times> pooling \<times> quantization"

fun row_info :: "model_row \<Rightarrow> model_info" where
  "row_info (name, code, file, desc, d, n, p, q) =
     \<lparr>model_name = name, model_code = code, model_file = file, model_description = desc,
      model_dim = d, max_tokens = n, model_pooling = p, model_quantization = q\<rparr>"

text \<open>The text models, in the order of \<open>lembed_text_model_t\<close>.\<close>

definition text_rows_1 :: "model_row list" where
  "text_rows_1 =
    [
     (''sentence-transformers/all-MiniLM-L6-v2'', ''Qdrant/all-MiniLM-L6-v2-onnx'',
      ''model.onnx'', ''Sentence Transformer model, MiniLM-L6-v2'',
      384, 512, POOL_MEAN, Q_NONE),
     (''sentence-transformers/all-MiniLM-L6-v2'', ''Xenova/all-MiniLM-L6-v2'',
      ''onnx/model_quantized.onnx'', ''Quantized Sentence Transformer, MiniLM-L6-v2'',
      384, 512, POOL_MEAN, Q_DYNAMIC),
     (''sentence-transformers/all-MiniLM-L12-v2'', ''Xenova/all-MiniLM-L12-v2'',
      ''onnx/model.onnx'', ''Sentence Transformer model, MiniLM-L12-v2'',
      384, 512, POOL_MEAN, Q_NONE),
     (''sentence-transformers/all-MiniLM-L12-v2'', ''Xenova/all-MiniLM-L12-v2'',
      ''onnx/model_quantized.onnx'', ''Quantized Sentence Transformer, MiniLM-L12-v2'',
      384, 512, POOL_MEAN, Q_DYNAMIC),
     (''sentence-transformers/all-mpnet-base-v2'', ''Xenova/all-mpnet-base-v2'',
      ''onnx/model.onnx'', ''Sentence Transformer model, mpnet-base-v2'',
      768, 512, POOL_MEAN, Q_NONE),
     (''BAAI/bge-base-en-v1.5'', ''Xenova/bge-base-en-v1.5'',
      ''onnx/model.onnx'', ''v1.5 release of the base English model'',
      768, 512, POOL_CLS, Q_NONE),
     (''BAAI/bge-base-en-v1.5'', ''Qdrant/bge-base-en-v1.5-onnx-Q'',
      ''model_optimized.onnx'', ''FP16 v1.5 base English model (ORT-optimized graph)'',
      768, 512, POOL_CLS, Q_FP16),
     (''BAAI/bge-large-en-v1.5'', ''Xenova/bge-large-en-v1.5'',
      ''onnx/model.onnx'', ''v1.5 release of the large English model'',
      1024, 512, POOL_CLS, Q_NONE),
     (''BAAI/bge-large-en-v1.5'', ''Qdrant/bge-large-en-v1.5-onnx-Q'',
      ''model_optimized.onnx'', ''FP16 v1.5 large English model (ORT-optimized graph)'',
      1024, 512, POOL_CLS, Q_FP16),
     (''BAAI/bge-small-en-v1.5'', ''Xenova/bge-small-en-v1.5'',
      ''onnx/model.onnx'', ''v1.5 release of the fast and default English model'',
      384, 512, POOL_CLS, Q_NONE),
     (''BAAI/bge-small-en-v1.5'', ''Qdrant/bge-small-en-v1.5-onnx-Q'',
      ''model_optimized.onnx'', ''FP16 v1.5 fast and default English model (ORT-optimized graph)'',
      384, 512, POOL_CLS, Q_FP16),
     (''nomic-ai/nomic-embed-text-v1'', ''nomic-ai/nomic-embed-text-v1'',
      ''onnx/model.onnx'', ''8192 context length English model'',
      768, 8192, POOL_MEAN, Q_NONE),
     (''nomic-ai/nomic-embed-text-v1.5'', ''nomic-ai/nomic-embed-text-v1.5'',
      ''onnx/model.onnx'', ''v1.5 8192 context length English model'',
      768, 8192, POOL_MEAN, Q_NONE),
     (''nomic-ai/nomic-embed-text-v1.5'', ''nomic-ai/nomic-embed-text-v1.5'',
      ''onnx/model_quantized.onnx'', ''Quantized v1.5 8192 context length English model'',
      768, 8192, POOL_MEAN, Q_DYNAMIC),
     (''sentence-transformers/paraphrase-multilingual-MiniLM-L12-v2'', ''Xenova/paraphrase-multilingual-MiniLM-L12-v2'',
      ''onnx/model.onnx'', ''Multi-lingual model'',
      384, 512, POOL_MEAN, Q_NONE),
     (''sentence-transformers/paraphrase-multilingual-MiniLM-L12-v2'', ''Qdrant/paraphrase-multilingual-MiniLM-L12-v2-onnx-Q'',
      ''model_optimized.onnx'', ''FP16 multi-lingual model (ORT-optimized graph)'',
      384, 512, POOL_MEAN, Q_FP16),
     (''sentence-transformers/paraphrase-multilingual-mpnet-base-v2'', ''Xenova/paraphrase-multilingual-mpnet-base-v2'',
      ''onnx/model.onnx'', ''Sentence-transformers model for clustering or semantic search'',
      768, 512, POOL_MEAN, Q_NONE),
     (''BAAI/bge-small-zh-v1.5'', ''Xenova/bge-small-zh-v1.5'',
      ''onnx/model.onnx'', ''v1.5 release of the small Chinese model'',
      512, 512, POOL_CLS, Q_NONE),
     (''BAAI/bge-large-zh-v1.5'', ''Xenova/bge-large-zh-v1.5'',
      ''onnx/model.onnx'', ''v1.5 release of the large Chinese model'',
      1024, 512, POOL_CLS, Q_NONE),
     (''BAAI/bge-m3'', ''BAAI/bge-m3'',
      ''onnx/model.onnx'', ''Multilingual M3, 8192 context, 100+ languages'',
      1024, 8192, POOL_CLS, Q_NONE),
     (''lightonai/modernbert-embed-large'', ''lightonai/modernbert-embed-large'',
      ''onnx/model.onnx'', ''Large model of ModernBert Text Embeddings'',
      1024, 8192, POOL_MEAN, Q_NONE),
     (''intfloat/multilingual-e5-small'', ''intfloat/multilingual-e5-small'',
      ''onnx/model.onnx'', ''Small multilingual E5 Text Embeddings'',
      384, 512, POOL_MEAN, Q_NONE),
     (''intfloat/multilingual-e5-base'', ''intfloat/multilingual-e5-base'',
      ''onnx/model.onnx'', ''Base multilingual E5 Text Embeddings'',
      768, 512, POOL_MEAN, Q_NONE)]"

definition text_rows_2 :: "model_row list" where
  "text_rows_2 =
    [
     (''intfloat/multilingual-e5-large'', ''Qdrant/multilingual-e5-large-onnx'',
      ''model.onnx'', ''Large multilingual E5 Text Embeddings'',
      1024, 512, POOL_MEAN, Q_NONE),
     (''mixedbread-ai/mxbai-embed-large-v1'', ''mixedbread-ai/mxbai-embed-large-v1'',
      ''onnx/model.onnx'', ''Large English embedding model from MixedBread.ai'',
      1024, 512, POOL_CLS, Q_NONE),
     (''mixedbread-ai/mxbai-embed-large-v1'', ''mixedbread-ai/mxbai-embed-large-v1'',
      ''onnx/model_quantized.onnx'', ''Quantized large English model from MixedBread.ai'',
      1024, 512, POOL_CLS, Q_DYNAMIC),
     (''Alibaba-NLP/gte-base-en-v1.5'', ''Alibaba-NLP/gte-base-en-v1.5'',
      ''onnx/model.onnx'', ''Base English embedding model from Alibaba'',
      768, 8192, POOL_CLS, Q_NONE),
     (''Alibaba-NLP/gte-base-en-v1.5'', ''Alibaba-NLP/gte-base-en-v1.5'',
      ''onnx/model_quantized.onnx'', ''Quantized base English model from Alibaba'',
      768, 8192, POOL_CLS, Q_DYNAMIC),
     (''Alibaba-NLP/gte-large-en-v1.5'', ''Alibaba-NLP/gte-large-en-v1.5'',
      ''onnx/model.onnx'', ''Large English embedding model from Alibaba'',
      1024, 8192, POOL_CLS, Q_NONE),
     (''Alibaba-NLP/gte-large-en-v1.5'', ''Alibaba-NLP/gte-large-en-v1.5'',
      ''onnx/model_quantized.onnx'', ''Quantized large English model from Alibaba'',
      1024, 8192, POOL_CLS, Q_DYNAMIC),
     (''openai/clip-vit-base-patch32'', ''Qdrant/clip-ViT-B-32-text'',
      ''model.onnx'', ''CLIP text encoder based on ViT-B/32'',
      512, 77, POOL_MEAN, Q_NONE),
     (''jinaai/jina-embeddings-v2-base-code'', ''jinaai/jina-embeddings-v2-base-code'',
      ''onnx/model.onnx'', ''Jina embeddings v2 base code'',
      768, 8192, POOL_MEAN, Q_NONE),
     (''jinaai/jina-embeddings-v2-base-en'', ''jinaai/jina-embeddings-v2-base-en'',
      ''model.onnx'', ''Jina embeddings v2 base English'',
      768, 8192, POOL_MEAN, Q_NONE),
     (''google/embeddinggemma-300m'', ''onnx-community/embeddinggemma-300m-ONNX'',
      ''onnx/model.onnx'', ''EmbeddingGemma 300M parameter model from Google'',
      768, 2048, POOL_MEAN, Q_NONE),
     (''snowflake/snowflake-arctic-embed-xs'', ''snowflake/snowflake-arctic-embed-xs'',
      ''onnx/model.onnx'', ''Snowflake Arctic embed model, xs'',
      384, 512, POOL_CLS, Q_NONE),
     (''snowflake/snowflake-arctic-embed-xs'', ''snowflake/snowflake-arctic-embed-xs'',
      ''onnx/model_quantized.onnx'', ''Quantized Snowflake Arctic embed, xs'',
      384, 512, POOL_CLS, Q_DYNAMIC),
     (''snowflake/snowflake-arctic-embed-s'', ''snowflake/snowflake-arctic-embed-s'',
      ''onnx/model.onnx'', ''Snowflake Arctic embed model, small'',
      384, 512, POOL_CLS, Q_NONE),
     (''snowflake/snowflake-arctic-embed-s'', ''snowflake/snowflake-arctic-embed-s'',
      ''onnx/model_quantized.onnx'', ''Quantized Snowflake Arctic embed, small'',
      384, 512, POOL_CLS, Q_DYNAMIC),
     (''snowflake/snowflake-arctic-embed-m'', ''Snowflake/snowflake-arctic-embed-m'',
      ''onnx/model.onnx'', ''Snowflake Arctic embed model, medium'',
      768, 512, POOL_CLS, Q_NONE),
     (''snowflake/snowflake-arctic-embed-m'', ''Snowflake/snowflake-arctic-embed-m'',
      ''onnx/model_quantized.onnx'', ''Quantized Snowflake Arctic embed, medium'',
      768, 512, POOL_CLS, Q_DYNAMIC),
     (''snowflake/snowflake-arctic-embed-m-long'', ''snowflake/snowflake-arctic-embed-m-long'',
      ''onnx/model.onnx'', ''Snowflake Arctic embed, medium with 2048 context'',
      768, 2048, POOL_CLS, Q_NONE),
     (''snowflake/snowflake-arctic-embed-m-long'', ''snowflake/snowflake-arctic-embed-m-long'',
      ''onnx/model_quantized.onnx'', ''Quantized Snowflake Arctic embed, medium 2048 ctx'',
      768, 2048, POOL_CLS, Q_DYNAMIC),
     (''snowflake/snowflake-arctic-embed-l'', ''snowflake/snowflake-arctic-embed-l'',
      ''onnx/model.onnx'', ''Snowflake Arctic embed model, large'',
      1024, 512, POOL_CLS, Q_NONE),
     (''snowflake/snowflake-arctic-embed-l'', ''snowflake/snowflake-arctic-embed-l'',
      ''onnx/model_quantized.onnx'', ''Quantized Snowflake Arctic embed, large'',
      1024, 512, POOL_CLS, Q_DYNAMIC),
     (''BAAI/bge-small-en-v1.5'', ''onnx-community/bge-small-en-v1.5-ONNX'',
      ''onnx/model_quantized.onnx'', ''INT8 v1.5 fast and default English model (dynamic quantization)'',
      384, 512, POOL_CLS, Q_DYNAMIC)]"

definition sparse_rows :: "model_row list" where
  "sparse_rows =
    [
     (''prithivida/Splade_PP_en_v1'', ''Qdrant/Splade_PP_en_v1'',
      ''model.onnx'', ''SPLADE++ sparse vector model, v1'',
      0, 512, POOL_CLS, Q_NONE),
     (''BAAI/bge-m3'', ''BAAI/bge-m3'',
      ''onnx/model.onnx'', ''BGE-M3 sparse embedding, 8192 context, 100+ languages'',
      0, 8192, POOL_CLS, Q_NONE)]"

definition image_rows :: "model_row list" where
  "image_rows =
    [
     (''openai/clip-vit-base-patch32'', ''Qdrant/clip-ViT-B-32-vision'',
      ''model.onnx'', ''CLIP vision encoder based on ViT-B/32'',
      512, 0, POOL_CLS, Q_NONE),
     (''microsoft/resnet-50'', ''Qdrant/resnet50-onnx'',
      ''model.onnx'', ''ResNet-50 image embedding model'',
      2048, 0, POOL_CLS, Q_NONE),
     (''open-metric-learning/unicom-vit-b-16'', ''Qdrant/Unicom-ViT-B-16'',
      ''model.onnx'', ''Unicom ViT-B-16 from open-metric-learning'',
      768, 0, POOL_CLS, Q_NONE),
     (''open-metric-learning/unicom-vit-b-32'', ''Qdrant/Unicom-ViT-B-32'',
      ''model.onnx'', ''Unicom ViT-B-32 from open-metric-learning'',
      512, 0, POOL_CLS, Q_NONE),
     (''nomic-ai/nomic-embed-vision-v1.5'', ''nomic-ai/nomic-embed-vision-v1.5'',
      ''onnx/model.onnx'', ''Nomic embed vision v1.5'',
      768, 0, POOL_CLS, Q_NONE),
     (''openai/clip-vit-base-patch32-quantized'', ''Xenova/clip-vit-base-patch32'',
      ''onnx/vision_model_int8.onnx'', ''CLIP vision encoder INT8 quantized'',
      512, 0, POOL_CLS, Q_STATIC)]"

definition reranker_rows :: "model_row list" where
  "reranker_rows =
    [
     (''BAAI/bge-reranker-base'', ''BAAI/bge-reranker-base'',
      ''onnx/model.onnx'', ''Reranker model for English and Chinese'',
      0, 512, POOL_CLS, Q_NONE),
     (''BAAI/bge-reranker-v2-m3'', ''rozgo/bge-reranker-v2-m3'',
      ''model.onnx'', ''Multilingual reranker model'',
      0, 512, POOL_CLS, Q_NONE),
     (''jinaai/jina-reranker-v1-turbo-en'', ''jinaai/jina-reranker-v1-turbo-en'',
      ''onnx/model.onnx'', ''Jina reranker v1 turbo English'',
      0, 8192, POOL_CLS, Q_NONE),
     (''jinaai/jina-reranker-v2-base-multilingual'', ''jinaai/jina-reranker-v2-base-multilingual'',
      ''onnx/model.onnx'', ''Jina reranker v2 base multilingual'',
      0, 8192, POOL_CLS, Q_NONE),
     (''jinaai/jina-reranker-v1-turbo-en-quantized'', ''jinaai/jina-reranker-v1-turbo-en'',
      ''onnx/model_quantized.onnx'', ''Jina reranker v1 turbo English (INT8 quantized)'',
      0, 8192, POOL_CLS, Q_STATIC)]"

definition text_models :: "model_info list" where
  "text_models = map row_info (text_rows_1 @ text_rows_2)"

definition sparse_models :: "model_info list" where
  "sparse_models = map row_info sparse_rows"

definition image_models :: "model_info list" where
  "image_models = map row_info image_rows"

definition reranker_models :: "model_info list" where
  "reranker_models = map row_info reranker_rows"

definition TEXT_MODEL_COUNT :: int where "TEXT_MODEL_COUNT = 45"
definition SPARSE_MODEL_COUNT :: int where "SPARSE_MODEL_COUNT = 2"
definition IMAGE_MODEL_COUNT :: int where "IMAGE_MODEL_COUNT = 6"
definition RERANKER_MODEL_COUNT :: int where "RERANKER_MODEL_COUNT = 5"

definition TEXT_BGE_M3 :: int where "TEXT_BGE_M3 = 19"
definition TEXT_MULTILINGUAL_E5_LARGE :: int where "TEXT_MULTILINGUAL_E5_LARGE = 23"
definition TEXT_EMBEDDING_GEMMA_300M :: int where "TEXT_EMBEDDING_GEMMA_300M = 33"
definition TEXT_BGE_SMALL_EN_V15_INT8 :: int where "TEXT_BGE_SMALL_EN_V15_INT8 = 44"
definition SPARSE_BGE_M3 :: int where "SPARSE_BGE_M3 = 1"
definition RERANKER_BGE_V2_M3 :: int where "RERANKER_BGE_V2_M3 = 1"

datatype model_kind_t = KIND_TEXT | KIND_SPARSE | KIND_IMAGE | KIND_RERANKER

definition additional_files :: "(int \<times> model_kind_t \<times> string list) list" where
  "additional_files =
    [(TEXT_BGE_M3, KIND_TEXT, [''onnx/model.onnx_data'', ''onnx/Constant_7_attr__value'']),
     (TEXT_MULTILINGUAL_E5_LARGE, KIND_TEXT, [''model.onnx_data'']),
     (TEXT_EMBEDDING_GEMMA_300M, KIND_TEXT, [''onnx/model.onnx_data'']),
     (TEXT_BGE_SMALL_EN_V15_INT8, KIND_TEXT, [''onnx/model_quantized.onnx_data'']),
     (SPARSE_BGE_M3, KIND_SPARSE, [''onnx/model.onnx_data'', ''onnx/Constant_7_attr__value'']),
     (RERANKER_BGE_V2_M3, KIND_RERANKER, [''model.onnx.data''])]"

section \<open>Queries\<close>

text \<open>The four info functions; \<open>out_ok\<close> says that the result pointer is not null.\<close>

definition table_info :: "model_info list \<Rightarrow> int \<Rightarrow> int \<Rightarrow> bool \<Rightarrow> status \<times> model_info option" where
  "table_info models n model out_ok =
     (if model < 0 \<or> model \<ge> n \<or> \<not> out_ok then (INVALID_ARGUMENT, None)
      else (OK, Some (models ! nat model)))"

definition lembed_get_text_model_info :: "int \<Rightarrow> bool \<Rightarrow> status \<times> model_info option" where
  "lembed_get_text_model_info = table_info text_models TEXT_MODEL_COUNT"

definition lembed_get_sparse_model_info :: "int \<Rightarrow> bool \<Rightarrow> status \<times> model_info option" where
  "lembed_get_sparse_model_info = table_info sparse_models SPARSE_MODEL_COUNT"

definition lembed_get_image_model_info :: "int \<Rightarrow> bool \<Rightarrow> status \<times> model_info option" where
  "lembed_get_image_model_info = table_info image_models IMAGE_MODEL_COUNT"

definition lembed_get_reranker_model_info :: "int \<Rightarrow> bool \<Rightarrow> status \<times> model_info option" where
  "lembed_get_reranker_model_info = table_info reranker_models RERANKER_MODEL_COUNT"

definition list_models :: "model_info list \<Rightarrow> int \<Rightarrow> bool \<Rightarrow> bool \<Rightarrow> status \<times> (model_info list \<times> int) option" where
  "list_models models n out_ok count_ok =
     (if \<not> out_ok \<or> \<not> count_ok then (INVALID_ARGUMENT, None) else (OK, Some (models, n)))"

definition lembed_list_text_models :: "bool \<Rightarrow> bool \<Rightarrow> status \<times> (model_info list \<times> int) option" where
  "lembed_list_text_models = list_models text_models TEXT_MODEL_COUNT"

definition lembed_list_sparse_models :: "bool \<Rightarrow> bool \<Rightarrow> status \<times> (model_info list \<times> int) option" where
  "lembed_list_sparse_models = list_models sparse_models SPARSE_MODEL_COUNT"

definition lembed_list_image_models :: "bool \<Rightarrow> bool \<Rightarrow> status \<times> (model_info list \<times> int) option" where
  "lembed_list_image_models = list_models image_models IMAGE_MODEL_COUNT"

definition lembed_list_reranker_models :: "bool \<Rightarrow> bool \<Rightarrow> status \<times> (model_info list \<times> int) option" where
  "lembed_list_reranker_models = list_models reranker_models RERANKER_MODEL_COUNT"

text \<open>The first index that satisfies a test, or -1: the search loop of every resolver.\<close>

fun first_index :: "('a \<Rightarrow> bool) \<Rightarrow> 'a list \<Rightarrow> int \<Rightarrow> int" where
  "first_index P [] i = -1"
| "first_index P (x # xs) i = (if P x then i else first_index P xs (i + 1))"

definition find_by_code :: "model_info list \<Rightarrow> string option \<Rightarrow> int" where
  "find_by_code models code =
     (case code of None \<Rightarrow> -1 | Some c \<Rightarrow> first_index (\<lambda>m. model_code m = c) models 0)"

definition lembed_find_text_model_by_code :: "string option \<Rightarrow> int" where
  "lembed_find_text_model_by_code = find_by_code text_models"

definition lembed_find_sparse_model_by_code :: "string option \<Rightarrow> int" where
  "lembed_find_sparse_model_by_code = find_by_code sparse_models"

definition lembed_find_reranker_model_by_code :: "string option \<Rightarrow> int" where
  "lembed_find_reranker_model_by_code = find_by_code reranker_models"

definition lembed_find_image_model_by_code :: "string option \<Rightarrow> int" where
  "lembed_find_image_model_by_code = find_by_code image_models"

definition quote :: string where "quote = [CHR 0x27]"

fun available_loop :: "string \<Rightarrow> model_info list \<Rightarrow> string \<Rightarrow> string" where
  "available_loop name [] available = available"
| "available_loop name (m # ms) available =
     (if model_name m \<noteq> name then available_loop name ms available
      else
        let n = quantization_name (quant_code (model_quantization m)); used = length available in
        if used + length n + 3 \<ge> 128 then available
        else available_loop name ms ((if used = 0 then [] else available @ '', '') @ n))"

definition lembed_find_text_model_variant :: "string option \<Rightarrow> int \<Rightarrow> int \<times> string option" where
  "lembed_find_text_model_variant name quantization =
     (case name of
        None \<Rightarrow> (-1, None)
      | Some n \<Rightarrow>
          let i = first_index (\<lambda>m. model_name m = n \<and> quant_code (model_quantization m) = quantization)
                    text_models 0
          in if i \<ge> 0 then (i, None)
             else
               let available = available_loop n text_models [];
                   message = snprintf_s 320 (''Model '' @ quote @ n @ quote @ '' has no '' @ quote @
                     quantization_name quantization @ quote @ '' variant (available: '' @
                     (if available = [] then ''none'' else available) @ '')'')
               in (-1, Some (set_error message)))"

definition resolve_by_code_or_name :: "model_info list \<Rightarrow> string option \<Rightarrow> string \<Rightarrow> int \<times> string option" where
  "resolve_by_code_or_name models model kind =
     (case model of
        None \<Rightarrow> (-1, None)
      | Some m \<Rightarrow>
          let by_code = first_index (\<lambda>i. model_code i = m) models 0;
              by_name = first_index (\<lambda>i. model_name i = m) models 0
          in if by_code \<ge> 0 then (by_code, None)
             else if by_name \<ge> 0 then (by_name, None)
             else (-1, Some (set_error (snprintf_s 320 (''Unknown '' @ kind @ '' model '' @ quote @ m @ quote @
                    '' (expected a HuggingFace repo such as '' @ quote @ ''Qdrant/all-MiniLM-L6-v2-onnx'' @
                    quote @ '', or a registry name); call lembed_list_'' @ kind @
                    ''_models() to enumerate'')))))"

definition lembed_resolve_text_model :: "string option \<Rightarrow> int \<times> string option" where
  "lembed_resolve_text_model model = resolve_by_code_or_name text_models model ''text''"

definition lembed_resolve_reranker_model :: "string option \<Rightarrow> int \<times> string option" where
  "lembed_resolve_reranker_model model = resolve_by_code_or_name reranker_models model ''reranker''"

definition lembed_resolve_sparse_model :: "string option \<Rightarrow> int \<times> string option" where
  "lembed_resolve_sparse_model model = resolve_by_code_or_name sparse_models model ''sparse''"

section \<open>Facts\<close>

lemma first_index_spec:
  "first_index P xs k = -1 \<and> (\<forall>x \<in> set xs. \<not> P x) \<or>
   (\<exists>i < length xs. first_index P xs k = k + int i \<and> P (xs ! i) \<and> (\<forall>j < i. \<not> P (xs ! j)))"
proof (induction xs arbitrary: k)
  case (Cons x xs)
  show ?case
  proof (cases "P x")
    case False
    with Cons.IH [of "k + 1"] show ?thesis
    proof (elim disjE exE conjE)
      fix i assume i: "i < length xs" "first_index P xs (k + 1) = k + 1 + int i" "P (xs ! i)" "\<forall>j < i. \<not> P (xs ! j)"
      with False show ?thesis
        by (intro disjI2 exI [of _ "Suc i"]) (auto simp: nth_Cons split: nat.split)
    qed simp
  qed (intro disjI2 exI [of _ 0], simp)
qed simp

lemma first_index_found:
  "i < length xs \<Longrightarrow> P (xs ! i) \<Longrightarrow> \<exists>j \<le> i. first_index P xs 0 = int j \<and> P (xs ! j)"
  using first_index_spec [of P xs 0] by (metis add_0 in_set_conv_nth linorder_not_le)

text \<open>The keys of the variants are distinct, which is what makes a variant lookup well defined.\<close>

definition variant_key :: "model_info \<Rightarrow> string \<times> int" where
  "variant_key m = (model_name m, quant_code (model_quantization m))"

lemma text_models_length: "length text_models = 45"
  by (simp add: text_models_def text_rows_1_def text_rows_2_def)

lemma text_variants_distinct: "distinct (map variant_key text_models)"
  by (simp add: text_models_def text_rows_1_def text_rows_2_def variant_key_def)

section \<open>Properties\<close>

text \<open>The registry tables match their enumerations: as many rows as enumerators, positive
  dimensions and token limits for text models, no row tagged AUTO, and every additional-files entry
  names a row that exists.\<close>

theorem registry_well_formed:
  "int (length text_models) = TEXT_MODEL_COUNT \<and> int (length sparse_models) = SPARSE_MODEL_COUNT \<and>
   int (length image_models) = IMAGE_MODEL_COUNT \<and> int (length reranker_models) = RERANKER_MODEL_COUNT \<and>
   list_all (\<lambda>m. 0 < model_dim m \<and> 0 < max_tokens m \<and> model_quantization m \<noteq> Q_AUTO) text_models \<and>
   list_all (\<lambda>(i, kind, files). 0 \<le> i \<and> files \<noteq> [] \<and> length files < 4 \<and>
     i < (case kind of KIND_TEXT \<Rightarrow> TEXT_MODEL_COUNT | KIND_SPARSE \<Rightarrow> SPARSE_MODEL_COUNT
          | KIND_IMAGE \<Rightarrow> IMAGE_MODEL_COUNT | KIND_RERANKER \<Rightarrow> RERANKER_MODEL_COUNT)) additional_files"
  by (simp add: text_models_def text_rows_1_def text_rows_2_def sparse_models_def sparse_rows_def
      image_models_def image_rows_def reranker_models_def reranker_rows_def TEXT_MODEL_COUNT_def
      SPARSE_MODEL_COUNT_def IMAGE_MODEL_COUNT_def RERANKER_MODEL_COUNT_def additional_files_def
      TEXT_BGE_M3_def TEXT_MULTILINGUAL_E5_LARGE_def TEXT_EMBEDDING_GEMMA_300M_def
      TEXT_BGE_SMALL_EN_V15_INT8_def SPARSE_BGE_M3_def RERANKER_BGE_V2_M3_def)

text \<open>Resolving a text model: a match on the code comes before one on the name, the first row
  that matches wins, and -1 with an error message means that neither matches anywhere.\<close>

theorem resolve_text_model_correct:
  "(\<exists>i < length text_models. lembed_resolve_text_model (Some m) = (int i, None) \<and>
      (model_code (text_models ! i) = m \<and> (\<forall>j < i. model_code (text_models ! j) \<noteq> m) \<or>
       (\<forall>r \<in> set text_models. model_code r \<noteq> m) \<and> model_name (text_models ! i) = m \<and>
         (\<forall>j < i. model_name (text_models ! j) \<noteq> m))) \<or>
   (\<exists>msg. lembed_resolve_text_model (Some m) = (-1, Some msg) \<and>
      (\<forall>r \<in> set text_models. model_code r \<noteq> m \<and> model_name r \<noteq> m))"
  using first_index_spec [of "\<lambda>i. model_code i = m" text_models 0]
    first_index_spec [of "\<lambda>i. model_name i = m" text_models 0]
  by (elim disjE exE conjE) (auto simp: lembed_resolve_text_model_def resolve_by_code_or_name_def Let_def)

theorem resolve_text_model_correct_witness:
  "fst (lembed_resolve_text_model (Some ''no-such-model'')) = -1 \<or>
     (\<exists>i < length text_models. model_code (text_models ! i) = ''no-such-model'' \<or>
        model_name (text_models ! i) = ''no-such-model'')"
  using resolve_text_model_correct [of "''no-such-model''"] by auto

text \<open>Looking a variant up by the name and the quantization of a registry row finds that very
  row, so no row is shadowed by another; asking for AUTO is always refused with a message.\<close>

theorem find_variant_roundtrip:
  assumes "i < length text_models"
  shows "lembed_find_text_model_variant (Some (model_name (text_models ! i)))
      (quant_code (model_quantization (text_models ! i))) = (int i, None) \<and>
    (\<exists>msg. lembed_find_text_model_variant (Some n) (quant_code Q_AUTO) = (-1, Some msg))"
proof -
  let ?P = "\<lambda>m. model_name m = model_name (text_models ! i) \<and>
    quant_code (model_quantization m) = quant_code (model_quantization (text_models ! i))"
  obtain j where j: "j \<le> i" "first_index ?P text_models 0 = int j" "?P (text_models ! j)"
    using first_index_found [of i text_models ?P] assms by auto
  then have "map variant_key text_models ! j = map variant_key text_models ! i"
    using assms by (simp add: variant_key_def)
  then have "j = i"
    using nth_eq_iff_index_eq [OF text_variants_distinct, of j i] assms j(1) by simp
  moreover have "\<forall>m \<in> set text_models. model_quantization m \<noteq> Q_AUTO"
    by (simp add: text_models_def text_rows_1_def text_rows_2_def)
  then have "first_index (\<lambda>m. model_name m = n \<and> quant_code (model_quantization m) = quant_code Q_AUTO)
      text_models 0 = -1"
    using first_index_spec [of "\<lambda>m. model_name m = n \<and> quant_code (model_quantization m) = quant_code Q_AUTO"
        text_models 0] by (metis nth_mem quant_code_inject)
  ultimately show ?thesis
    using j(2) unfolding lembed_find_text_model_variant_def option.case by (simp only: Let_def) simp
qed

theorem find_variant_roundtrip_witness:
  "lembed_find_text_model_variant (Some (model_name (text_models ! 6)))
     (quant_code (model_quantization (text_models ! 6))) = (6, None)"
  using find_variant_roundtrip [of 6] by (simp add: text_models_length)

end
