(* ===== verification/GgufProbe.thy ===== *)
theory GgufProbe
  imports Types
begin

text \<open>
  Reading and classifying a GGUF header: \<open>detail/gguf/gguf_probe.hpp\<close>, \<open>detail/gguf/gguf_spec.hpp\<close>,
  \<open>gguf_inspect.h\<close> and \<open>detail/gguf/gguf_inspect_entry.hpp\<close>. A parsed header is what the gguf library
  answers: the typed value of a key, the dimensions of a tensor, the number of tensors; the library
  and the file are arguments. A \<open>has_x\<close> flag with its value \<open>x\<close> is an option. The capability mask is a
  64-bit word.
\<close>

section \<open>The probe\<close>

datatype 'f gguf_value =
    GU32 int | GI32 int | GF32 'f | GF64 'f   \<comment> \<open>narrowed to float\<close>
  | GBool bool | GU8 nat
  | GString string | GStringArray "string list" | GOther

record 'f gguf_file =
  key_value :: "string \<rightharpoonup> 'f gguf_value"
  tensor_ne :: "string \<rightharpoonup> int list"     \<comment> \<open>the \<open>GGML_MAX_DIMS\<close> dimensions\<close>
  tensor_total :: int

text \<open>A \<open>Probe\<close> is its context pointer: null, or a parsed file.\<close>

type_synonym 'f probe = "'f gguf_file option"

definition probe_open :: "(string \<rightharpoonup> 'f gguf_file) \<Rightarrow> string \<Rightarrow> 'f probe" where
  "probe_open parse path = parse path"

definition probe_valid :: "'f probe \<Rightarrow> bool" where
  "probe_valid p = (p \<noteq> None)"

definition n_tensors :: "'f probe \<Rightarrow> int" where
  "n_tensors p = (case p of None \<Rightarrow> 0 | Some f \<Rightarrow> tensor_total f)"

definition find_key :: "'f probe \<Rightarrow> string \<Rightarrow> 'f gguf_value option" where
  "find_key p key = (case p of None \<Rightarrow> None | Some f \<Rightarrow> key_value f key)"

definition has_key :: "'f probe \<Rightarrow> string \<Rightarrow> bool" where
  "has_key p key = (find_key p key \<noteq> None)"

definition get_u32 :: "'f probe \<Rightarrow> string \<Rightarrow> int option" where
  "get_u32 p key = (case find_key p key of Some (GU32 v) \<Rightarrow> Some v | _ \<Rightarrow> None)"

definition get_i32 :: "'f probe \<Rightarrow> string \<Rightarrow> int option" where
  "get_i32 p key =
     (case find_key p key of
        Some (GI32 v) \<Rightarrow> Some v
      | Some (GU32 v) \<Rightarrow> if v > INT_MAX then None else Some v
      | _ \<Rightarrow> None)"

definition get_str :: "'f probe \<Rightarrow> string \<Rightarrow> string option" where
  "get_str p key = (case find_key p key of Some (GString s) \<Rightarrow> Some (c_str s) | _ \<Rightarrow> None)"

definition get_f32 :: "'f probe \<Rightarrow> string \<Rightarrow> 'f option" where
  "get_f32 p key =
     (case find_key p key of Some (GF32 v) \<Rightarrow> Some v | Some (GF64 v) \<Rightarrow> Some v | _ \<Rightarrow> None)"

definition get_bool :: "'f probe \<Rightarrow> string \<Rightarrow> bool option" where
  "get_bool p key =
     (case find_key p key of Some (GBool b) \<Rightarrow> Some b | Some (GU8 n) \<Rightarrow> Some (n \<noteq> 0) | _ \<Rightarrow> None)"

definition get_arr_str :: "'f probe \<Rightarrow> string \<Rightarrow> string list option" where
  "get_arr_str p key =
     (case find_key p key of
        Some (GStringArray xs) \<Rightarrow> if xs = [] then None else Some (map c_str xs)
      | _ \<Rightarrow> None)"

text \<open>The accessors of \<open><arch>.<field>\<close> share their guard and their key.\<close>

definition get_arch :: "('f probe \<Rightarrow> string \<Rightarrow> 'a option) \<Rightarrow> 'f probe \<Rightarrow> string \<Rightarrow> string \<Rightarrow> 'a option" where
  "get_arch getter p arch field = (if arch = [] then None else getter p (arch @ ''.'' @ field))"

definition has_tensor :: "'f probe \<Rightarrow> string \<Rightarrow> bool" where
  "has_tensor p name = (case p of None \<Rightarrow> False | Some f \<Rightarrow> tensor_ne f name \<noteq> None)"

fun numel_loop :: "int list \<Rightarrow> int \<Rightarrow> int option" where
  "numel_loop [] n = Some n"
| "numel_loop (d # ds) n = (if d \<le> 0 then None else numel_loop ds (n * d))"

definition tensor_numel :: "'f probe \<Rightarrow> string \<Rightarrow> int option" where
  "tensor_numel p name =
     (case p of None \<Rightarrow> None
      | Some f \<Rightarrow> (case tensor_ne f name of None \<Rightarrow> None | Some ne \<Rightarrow> numel_loop ne 1))"

text \<open>The dimensions, and one more than the last axis longer than one.\<close>

fun dims_loop :: "int list \<Rightarrow> nat \<Rightarrow> nat \<Rightarrow> nat" where
  "dims_loop [] d n = n"
| "dims_loop (x # xs) d n = dims_loop xs (Suc d) (if x > 1 then Suc d else n)"

definition tensor_dims :: "'f probe \<Rightarrow> string \<Rightarrow> (int list \<times> nat) option" where
  "tensor_dims p name =
     (case p of None \<Rightarrow> None
      | Some f \<Rightarrow> (case tensor_ne f name of None \<Rightarrow> None | Some ne \<Rightarrow> Some (ne, dims_loop ne 0 0)))"

section \<open>Capabilities and the description\<close>

type_synonym caps = "64 word"

definition CAP_NONE :: caps where "CAP_NONE = 0"
definition CAP_DENSE :: caps where "CAP_DENSE = push_bit 0 1"
definition CAP_SPLADE :: caps where "CAP_SPLADE = push_bit 1 1"
definition CAP_SPLADE_BIAS :: caps where "CAP_SPLADE_BIAS = push_bit 2 1"
definition CAP_SPARSE_LINEAR :: caps where "CAP_SPARSE_LINEAR = push_bit 3 1"
definition CAP_COLBERT :: caps where "CAP_COLBERT = push_bit 4 1"
definition CAP_RERANKER :: caps where "CAP_RERANKER = push_bit 5 1"
definition CAP_TIED_DECODER :: caps where "CAP_TIED_DECODER = push_bit 6 1"
definition CAP_SPECIAL_TOKENS :: caps where "CAP_SPECIAL_TOKENS = push_bit 7 1"

lemmas cap_defs = CAP_NONE_def CAP_DENSE_def CAP_SPLADE_def CAP_SPLADE_BIAS_def CAP_SPARSE_LINEAR_def
  CAP_COLBERT_def CAP_RERANKER_def CAP_TIED_DECODER_def CAP_SPECIAL_TOKENS_def

definition has_cap :: "caps \<Rightarrow> caps \<Rightarrow> bool" where
  "has_cap cs c = (cs AND c \<noteq> 0)"

datatype sparse_formula = FORMULA_SPLADE | FORMULA_SCALAR | FORMULA_UNKNOWN

record gguf_desc =
  d_architecture :: string
  d_name :: string
  d_vocab_size :: "int option"
  d_embedding_length :: "int option"
  d_block_count :: "int option"
  d_context_length :: "int option"
  d_colbert_dim :: "int option"
  d_n_tensors :: int
  d_capabilities :: caps
  d_formula :: sparse_formula
  d_special :: "int option list"     \<comment> \<open>pad, bos, eos, cls, separator\<close>
  d_missing :: string
  d_diagnostic :: string

text \<open>\<open>memset\<close> to zero, where \<open>sparse_formula\<close> zero is SPLADE.\<close>

definition desc_zero :: gguf_desc where
  "desc_zero = \<lparr>d_architecture = [], d_name = [], d_vocab_size = None, d_embedding_length = None,
     d_block_count = None, d_context_length = None, d_colbert_dim = None, d_n_tensors = 0,
     d_capabilities = CAP_NONE, d_formula = FORMULA_SPLADE, d_special = replicate 5 None,
     d_missing = [], d_diagnostic = []\<rparr>"

record capability_rule =
  rule_tensor :: string
  rule_companion :: "string option"
  rule_cap :: caps

definition capability_rules :: "capability_rule list" where
  "capability_rules =
    [\<lparr>rule_tensor = ''mlm_transform.weight'', rule_companion = Some ''mlm_bias'', rule_cap = CAP_SPLADE\<rparr>,
     \<lparr>rule_tensor = ''sparse_linear.weight'', rule_companion = None, rule_cap = CAP_SPARSE_LINEAR\<rparr>,
     \<lparr>rule_tensor = ''colbert_linear.weight'', rule_companion = None, rule_cap = CAP_COLBERT\<rparr>,
     \<lparr>rule_tensor = ''classifier.dense.weight'', rule_companion = Some ''classifier.out_proj.weight'',
       rule_cap = CAP_RERANKER\<rparr>]"

section \<open>Classification\<close>

definition first_i32 :: "'f probe \<Rightarrow> string \<Rightarrow> string \<Rightarrow> string \<Rightarrow> int option" where
  "first_i32 p arch field synonym =
     (case get_arch get_i32 p arch field of
        None \<Rightarrow> get_arch get_i32 p arch synonym | Some v \<Rightarrow> Some v)"

definition read_arch_fields :: "'f probe \<Rightarrow> string \<Rightarrow> gguf_desc \<Rightarrow> gguf_desc" where
  "read_arch_fields p arch d =
     (if arch = [] then d
      else d\<lparr>d_vocab_size := get_arch get_i32 p arch ''vocab_size'',
             d_embedding_length := first_i32 p arch ''embedding_length'' ''hidden_size'',
             d_block_count := first_i32 p arch ''block_count'' ''num_hidden_layers'',
             d_context_length := first_i32 p arch ''context_length'' ''max_position_embeddings'',
             d_colbert_dim := get_arch get_i32 p arch ''colbert_dim''\<rparr>)"

definition special_keys :: "string list" where
  "special_keys = [''tokenizer.ggml.pad_token_id'', ''tokenizer.ggml.bos_token_id'',
     ''tokenizer.ggml.eos_token_id'', ''tokenizer.ggml.cls_token_id'',
     ''tokenizer.ggml.separator_token_id'']"

definition read_special_tokens :: "'f probe \<Rightarrow> gguf_desc \<Rightarrow> gguf_desc" where
  "read_special_tokens p d =
     (let found = map (get_i32 p) special_keys
      in d\<lparr>d_special := found,
           d_capabilities := (if list_ex (\<lambda>v. v \<noteq> None) found then d_capabilities d OR CAP_SPECIAL_TOKENS
                              else d_capabilities d)\<rparr>)"

text \<open>The list of missing names in its buffer of 256 bytes.\<close>

definition note_missing :: "string \<Rightarrow> string \<Rightarrow> string" where
  "note_missing missing_list name =
     (let used = length missing_list; add = length name
      in if used = 0 then snprintf_s 256 name
         else if used + add + 2 \<ge> 256 then missing_list
         else missing_list @ snprintf_s (256 - used) (CHR ''|'' # name))"

definition add_missing :: "string \<Rightarrow> gguf_desc \<Rightarrow> gguf_desc" where
  "add_missing name d = d\<lparr>d_missing := note_missing (d_missing d) name\<rparr>"

definition resolve_formula :: "'f probe \<Rightarrow> caps \<Rightarrow> gguf_desc \<Rightarrow> sparse_formula \<times> gguf_desc" where
  "resolve_formula p cs d =
     (let splade = has_cap cs CAP_SPLADE; linear = has_cap cs CAP_SPARSE_LINEAR in
      if splade \<and> linear then
        (case (tensor_numel p ''sparse_linear.weight'', d_vocab_size d) of
           (Some n, Some v) \<Rightarrow>
             if n = 1 then (FORMULA_SCALAR, add_missing ''sparse_linear.out_dim'' d)
             else if n = v then (FORMULA_SPLADE, d)
             else (FORMULA_UNKNOWN, d)
         | _ \<Rightarrow> (FORMULA_UNKNOWN, d))
      else if splade then (FORMULA_SPLADE, d)
      else if linear then (FORMULA_SCALAR, d)
      else (FORMULA_UNKNOWN, d))"

fun apply_rules :: "'f probe \<Rightarrow> capability_rule list \<Rightarrow> caps \<Rightarrow> caps" where
  "apply_rules p [] cs = cs"
| "apply_rules p (r # rs) cs =
     apply_rules p rs
       (if has_tensor p (rule_tensor r) then
          (case rule_companion r of
             Some other \<Rightarrow> if has_tensor p other \<and> rule_cap r = CAP_SPLADE
                          then cs OR rule_cap r OR CAP_SPLADE_BIAS else cs OR rule_cap r
           | None \<Rightarrow> cs OR rule_cap r)
        else cs)"

text \<open>The header part, up to the required encoder tensor.\<close>

definition classify_header :: "'f probe \<Rightarrow> gguf_desc" where
  "classify_header p =
     (let d0 = desc_zero\<lparr>d_formula := FORMULA_UNKNOWN\<rparr>;
          arch = (case get_str p ''general.architecture'' of Some a \<Rightarrow> a | None \<Rightarrow> []);
          d1 = (case get_str p ''general.architecture'' of
                  Some a \<Rightarrow> d0\<lparr>d_architecture := snprintf_s 64 a\<rparr>
                | None \<Rightarrow> add_missing ''general.architecture'' d0);
          d2 = (case get_str p ''general.name'' of Some n \<Rightarrow> d1\<lparr>d_name := snprintf_s 128 n\<rparr> | None \<Rightarrow> d1);
          d3 = read_arch_fields p arch (d2\<lparr>d_n_tensors := n_tensors p\<rparr>);
          d4 = (if d_vocab_size d3 = None then add_missing ''<arch>.vocab_size'' d3 else d3)
      in if d_embedding_length d4 = None then add_missing ''<arch>.embedding_length'' d4 else d4)"

definition with_heads :: "'f probe \<Rightarrow> gguf_desc \<Rightarrow> gguf_desc" where
  "with_heads p d =
     (let cs = apply_rules p capability_rules (d_capabilities d OR CAP_DENSE)
      in read_special_tokens p
           (d\<lparr>d_capabilities := (if has_cap cs CAP_SPLADE \<and> \<not> has_tensor p ''mlm_head.weight''
                                then cs OR CAP_TIED_DECODER else cs)\<rparr>))"

text \<open>A sparse claim without the vocabulary is refused.\<close>

definition require_vocab :: "gguf_desc \<Rightarrow> gguf_desc" where
  "require_vocab d =
     (if has_cap (d_capabilities d) (CAP_SPLADE OR CAP_SPARSE_LINEAR) \<and> d_vocab_size d = None
      then d\<lparr>d_capabilities := d_capabilities d AND NOT (CAP_SPLADE OR CAP_SPARSE_LINEAR),
             d_formula := FORMULA_UNKNOWN,
             d_diagnostic := ''sparse head present but <arch>.vocab_size is absent''\<rparr>
      else d)"

definition classify_heads :: "'f probe \<Rightarrow> gguf_desc \<Rightarrow> gguf_desc" where
  "classify_heads p d =
     (case resolve_formula p (d_capabilities (with_heads p d)) (with_heads p d) of
        (formula, d1) \<Rightarrow> require_vocab (d1\<lparr>d_formula := formula\<rparr>))"

definition classify :: "'f probe \<Rightarrow> gguf_desc" where
  "classify p =
     (if \<not> probe_valid p then
        desc_zero\<lparr>d_formula := FORMULA_UNKNOWN, d_diagnostic := ''not a readable GGUF file''\<rparr>
      else
        let d = classify_header p in
        if \<not> has_tensor p ''token_embd.weight'' then
          (add_missing ''token_embd.weight'' d)
            \<lparr>d_diagnostic := snprintf_s 256 (''missing encoder tensor '' @ CHR 0x27 # ''token_embd.weight'' @ [CHR 0x27])\<rparr>
        else classify_heads p d)"

section \<open>The entry points\<close>

definition lembed_gguf_inspect :: "(string \<rightharpoonup> 'f gguf_file) \<Rightarrow> string option \<Rightarrow> status \<times> gguf_desc" where
  "lembed_gguf_inspect parse path =
     (case path of
        None \<Rightarrow> (INVALID_ARGUMENT, desc_zero\<lparr>d_diagnostic := ''null path''\<rparr>)
      | Some pth \<Rightarrow>
          (case probe_open parse pth of
             None \<Rightarrow> (IO_ERROR, desc_zero\<lparr>d_formula := FORMULA_UNKNOWN,
                       d_diagnostic := snprintf_s 256 (''cannot read a GGUF header from '' @
                         CHR 0x27 # c_str pth @ [CHR 0x27])\<rparr>)
           | Some f \<Rightarrow> (OK, classify (Some f))))"

definition lembed_gguf_capability_name :: "caps \<Rightarrow> string" where
  "lembed_gguf_capability_name cap =
     (if has_cap cap CAP_SPLADE then ''sparse''
      else if has_cap cap CAP_SPARSE_LINEAR then ''sparse-linear''
      else if has_cap cap CAP_COLBERT then ''colbert''
      else if has_cap cap CAP_RERANKER then ''reranker''
      else if has_cap cap CAP_DENSE then ''dense''
      else ''unknown'')"

definition lembed_gguf_capability_summary :: "gguf_desc option \<Rightarrow> string" where
  "lembed_gguf_capability_summary desc =
     (case desc of
        None \<Rightarrow> ''unsupported''
      | Some d \<Rightarrow>
          if d_diagnostic d \<noteq> [] \<and> d_capabilities d = CAP_NONE then ''unsupported''
          else if has_cap (d_capabilities d) (CAP_SPLADE OR CAP_SPARSE_LINEAR) \<and>
            d_formula d \<noteq> FORMULA_UNKNOWN then ''sparse''
          else if has_cap (d_capabilities d) CAP_DENSE then ''dense'' else ''unsupported'')"

section \<open>Facts about the masks\<close>

lemma has_cap_or [simp]:
  "has_cap (a OR b) c \<longleftrightarrow> has_cap a c \<or> has_cap b c"
  "has_cap a (b OR c) \<longleftrightarrow> has_cap a b \<or> has_cap a c"
  by (simp_all add: has_cap_def bit.conj_disj_distrib bit.conj_disj_distrib2 or_eq_0_iff)

lemma has_cap_none [simp]: "\<not> has_cap CAP_NONE c"
  by (simp add: has_cap_def CAP_NONE_def)

lemma has_cap_simps [simp]:
  "has_cap CAP_DENSE CAP_SPLADE = False" "has_cap CAP_DENSE CAP_SPARSE_LINEAR = False"
  "has_cap CAP_SPLADE CAP_SPLADE" "has_cap CAP_SPLADE CAP_SPARSE_LINEAR = False"
  "has_cap CAP_SPARSE_LINEAR CAP_SPARSE_LINEAR" "has_cap CAP_SPARSE_LINEAR CAP_SPLADE = False"
  "has_cap CAP_SPLADE_BIAS CAP_SPLADE = False" "has_cap CAP_SPLADE_BIAS CAP_SPARSE_LINEAR = False"
  "has_cap CAP_COLBERT CAP_SPLADE = False" "has_cap CAP_COLBERT CAP_SPARSE_LINEAR = False"
  "has_cap CAP_RERANKER CAP_SPLADE = False" "has_cap CAP_RERANKER CAP_SPARSE_LINEAR = False"
  "has_cap CAP_TIED_DECODER CAP_SPLADE = False" "has_cap CAP_TIED_DECODER CAP_SPARSE_LINEAR = False"
  "has_cap CAP_SPECIAL_TOKENS CAP_SPLADE = False" "has_cap CAP_SPECIAL_TOKENS CAP_SPARSE_LINEAR = False"
  "has_cap CAP_DENSE CAP_DENSE"
  by (simp_all add: has_cap_def cap_defs)

lemma has_cap_clear [simp]:
  "\<not> has_cap (a AND NOT CAP_SPLADE AND NOT CAP_SPARSE_LINEAR) CAP_SPLADE"
  "\<not> has_cap (a AND NOT CAP_SPLADE AND NOT CAP_SPARSE_LINEAR) CAP_SPARSE_LINEAR"
  "\<not> has_cap (a AND NOT (CAP_SPLADE OR CAP_SPARSE_LINEAR)) CAP_SPLADE"
  "\<not> has_cap (a AND NOT (CAP_SPLADE OR CAP_SPARSE_LINEAR)) CAP_SPARSE_LINEAR"
  "has_cap (a AND NOT (CAP_SPLADE OR CAP_SPARSE_LINEAR)) CAP_DENSE = has_cap a CAP_DENSE"
  by (simp_all add: has_cap_def cap_defs and.assoc)

lemma reranker_not_splade [simp]: "CAP_RERANKER \<noteq> CAP_SPLADE"
  by (simp add: cap_defs)

lemma apply_rules_caps [simp]:
  "has_cap (apply_rules p capability_rules cs) CAP_SPLADE \<longleftrightarrow>
     has_cap cs CAP_SPLADE \<or> has_tensor p ''mlm_transform.weight''"
  "has_cap (apply_rules p capability_rules cs) CAP_SPARSE_LINEAR \<longleftrightarrow>
     has_cap cs CAP_SPARSE_LINEAR \<or> has_tensor p ''sparse_linear.weight''"
  "has_cap cs CAP_DENSE \<Longrightarrow> has_cap (apply_rules p capability_rules cs) CAP_DENSE"
  by (auto simp: capability_rules_def)

section \<open>Facts about the classification\<close>

lemma header_caps [simp]: "d_capabilities (classify_header p) = CAP_NONE"
  by (simp add: classify_header_def Let_def add_missing_def read_arch_fields_def desc_zero_def
      split: option.split)

lemma header_formula [simp]: "d_formula (classify_header p) = FORMULA_UNKNOWN"
  by (simp add: classify_header_def Let_def add_missing_def read_arch_fields_def desc_zero_def
      split: option.split)

lemma header_diagnostic [simp]: "d_diagnostic (classify_header p) = []"
  by (simp add: classify_header_def Let_def add_missing_def read_arch_fields_def desc_zero_def
      split: option.split)

definition arch_of :: "'f probe \<Rightarrow> string" where
  "arch_of p = (case get_str p ''general.architecture'' of Some a \<Rightarrow> a | None \<Rightarrow> [])"

lemma get_arch_Nil [simp]: "get_arch g p [] field = None"
  by (simp add: get_arch_def)

lemma first_i32_Nil [simp]: "first_i32 p [] f g = None"
  by (simp add: first_i32_def)

lemma header_fields [simp]:
  "d_vocab_size (classify_header p) = get_arch get_i32 p (arch_of p) ''vocab_size''"
  "d_embedding_length (classify_header p) = first_i32 p (arch_of p) ''embedding_length'' ''hidden_size''"
  by (auto simp: classify_header_def Let_def add_missing_def read_arch_fields_def desc_zero_def arch_of_def
      split: option.split)

text \<open>What the header part records as missing, in order.\<close>

fun join_bar :: "string list \<Rightarrow> string" where
  "join_bar [] = []"
| "join_bar [x] = x"
| "join_bar (x # y # xs) = x @ CHR ''|'' # join_bar (y # xs)"

definition header_missing :: "'f probe \<Rightarrow> string list" where
  "header_missing p =
     (if get_str p ''general.architecture'' = None then [''general.architecture''] else []) @
     (if get_arch get_i32 p (arch_of p) ''vocab_size'' = None then [''<arch>.vocab_size''] else []) @
     (if first_i32 p (arch_of p) ''embedding_length'' ''hidden_size'' = None
      then [''<arch>.embedding_length''] else [])"

lemma join_bar_snoc: "join_bar (xs @ [n]) = (if xs = [] then n else join_bar xs @ CHR ''|'' # n)"
  by (induction xs rule: join_bar.induct) simp_all

lemma join_bar_Nil: "[] \<notin> set xs \<Longrightarrow> join_bar xs = [] \<longleftrightarrow> xs = []"
  by (induction xs rule: join_bar.induct) auto

lemma note_missing_snoc:
  assumes "[] \<notin> set xs" and "length (join_bar xs) + length n + 2 < 256" and "CHR 0x00 \<notin> set n"
  shows "note_missing (join_bar xs) n = join_bar (xs @ [n])"
proof (cases "xs = []")
  case True
  with assms show ?thesis by (simp add: note_missing_def snprintf_s_fits)
next
  case False
  with assms have "join_bar xs \<noteq> []" by (simp add: join_bar_Nil)
  moreover have "snprintf_s (256 - length (join_bar xs)) (CHR ''|'' # n) = CHR ''|'' # n"
    using assms by (intro snprintf_s_fits) auto
  ultimately show ?thesis
    using False assms(2) by (simp add: note_missing_def Let_def join_bar_snoc)
qed

lemma note_missing_if:
  assumes "[] \<notin> set xs" and "length (join_bar xs) + length n + 2 < 256" and "CHR 0x00 \<notin> set n"
  shows "(if b then note_missing (join_bar xs) n else join_bar xs) = join_bar (xs @ (if b then [n] else []))"
  using note_missing_snoc [OF assms] by simp

lemma header_missing_list: "d_missing (classify_header p) = join_bar (header_missing p)"
proof -
  define b1 where "b1 \<longleftrightarrow> get_str p ''general.architecture'' = None"
  define b2 where "b2 \<longleftrightarrow> get_arch get_i32 p (arch_of p) ''vocab_size'' = None"
  define b3 where "b3 \<longleftrightarrow> first_i32 p (arch_of p) ''embedding_length'' ''hidden_size'' = None"
  let ?n1 = "''general.architecture''" and ?n2 = "''<arch>.vocab_size''" and ?n3 = "''<arch>.embedding_length''"
  let ?x1 = "if b1 then [?n1] else []" and ?x2 = "if b2 then [?n2] else []"
  have m1: "(if b1 then note_missing [] ?n1 else []) = join_bar ([] @ ?x1)"
    by (cases b1) (simp_all add: note_missing_def snprintf_s_fits)
  have m2: "(if b2 then note_missing (join_bar ([] @ ?x1)) ?n2 else join_bar ([] @ ?x1)) = join_bar (([] @ ?x1) @ ?x2)"
    by (rule note_missing_if) simp_all
  have m3: "(if b3 then note_missing (join_bar (([] @ ?x1) @ ?x2)) ?n3 else join_bar (([] @ ?x1) @ ?x2)) =
      join_bar ((([] @ ?x1) @ ?x2) @ (if b3 then [?n3] else []))"
    by (rule note_missing_if) simp_all
  have "d_missing (classify_header p) =
      (let m1 = (if b1 then note_missing [] ?n1 else []); m2 = (if b2 then note_missing m1 ?n2 else m1)
       in if b3 then note_missing m2 ?n3 else m2)"
    unfolding b1_def b2_def b3_def
    by (cases "get_str p ''general.architecture''"; cases "get_str p ''general.name''")
      (auto simp: classify_header_def Let_def add_missing_def read_arch_fields_def desc_zero_def arch_of_def)
  also have "\<dots> = join_bar ((([] @ ?x1) @ ?x2) @ (if b3 then [?n3] else []))"
    unfolding Let_def m1 m2 m3 ..
  finally show ?thesis by (simp add: header_missing_def b1_def b2_def b3_def)
qed

lemma header_missing_short: "[] \<notin> set (header_missing p)" "length (join_bar (header_missing p)) < 100"
  by (simp_all add: header_missing_def)

lemma special_tokens_frame [simp]:
  "d_vocab_size (read_special_tokens p d) = d_vocab_size d" "d_missing (read_special_tokens p d) = d_missing d"
  "d_diagnostic (read_special_tokens p d) = d_diagnostic d"
  "has_cap (d_capabilities (read_special_tokens p d)) CAP_SPLADE = has_cap (d_capabilities d) CAP_SPLADE"
  "has_cap (d_capabilities (read_special_tokens p d)) CAP_SPARSE_LINEAR = has_cap (d_capabilities d) CAP_SPARSE_LINEAR"
  by (simp_all add: read_special_tokens_def Let_def)

lemma resolve_formula_frame:
  assumes "resolve_formula p cs d = (formula, d')"
  shows "d_capabilities d' = d_capabilities d" and "d_vocab_size d' = d_vocab_size d"
    and "d_diagnostic d' = d_diagnostic d"
    and "\<not> has_cap cs CAP_SPARSE_LINEAR \<Longrightarrow> d' = d"
    and "formula = FORMULA_UNKNOWN \<or> has_cap cs (CAP_SPLADE OR CAP_SPARSE_LINEAR)"
    and "has_cap cs CAP_SPLADE \<Longrightarrow> \<not> has_cap cs CAP_SPARSE_LINEAR \<Longrightarrow> formula = FORMULA_SPLADE"
  using assms
  by (auto simp: resolve_formula_def Let_def add_missing_def split: if_splits option.splits)

lemma classify_heads_spec:
  assumes "d_capabilities d = CAP_NONE" and "d_diagnostic d = []"
  shows "has_cap (d_capabilities (classify_heads p d)) CAP_SPLADE \<longleftrightarrow>
      has_tensor p ''mlm_transform.weight'' \<and> d_vocab_size d \<noteq> None"
    and "has_cap (d_capabilities (classify_heads p d)) CAP_SPARSE_LINEAR \<longleftrightarrow>
      has_tensor p ''sparse_linear.weight'' \<and> d_vocab_size d \<noteq> None"
    and "d_vocab_size (classify_heads p d) = d_vocab_size d"
    and "d_formula (classify_heads p d) \<noteq> FORMULA_UNKNOWN \<Longrightarrow>
      (has_tensor p ''mlm_transform.weight'' \<or> has_tensor p ''sparse_linear.weight'') \<and> d_vocab_size d \<noteq> None"
    and "\<not> has_tensor p ''sparse_linear.weight'' \<Longrightarrow> d_missing (classify_heads p d) = d_missing d"
    and "\<not> has_tensor p ''sparse_linear.weight'' \<Longrightarrow> has_tensor p ''mlm_transform.weight'' \<Longrightarrow>
      d_vocab_size d \<noteq> None \<Longrightarrow>
      d_formula (classify_heads p d) = FORMULA_SPLADE \<and> d_diagnostic (classify_heads p d) = []"
proof -
  define d1 where "d1 = with_heads p d"
  obtain formula d2 where res: "resolve_formula p (d_capabilities d1) d1 = (formula, d2)" by fastforce
  note frame = resolve_formula_frame [OF res]
  have caps: "has_cap (d_capabilities d1) CAP_SPLADE = has_tensor p ''mlm_transform.weight''"
    "has_cap (d_capabilities d1) CAP_SPARSE_LINEAR = has_tensor p ''sparse_linear.weight''"
    by (simp_all add: d1_def with_heads_def Let_def assms)
  have d1: "d_vocab_size d1 = d_vocab_size d" "d_missing d1 = d_missing d" "d_diagnostic d1 = []"
    by (simp_all add: d1_def with_heads_def Let_def assms)
  have heads: "classify_heads p d = require_vocab (d2\<lparr>d_formula := formula\<rparr>)"
    using res by (simp add: classify_heads_def d1_def)
  show "has_cap (d_capabilities (classify_heads p d)) CAP_SPLADE \<longleftrightarrow>
      has_tensor p ''mlm_transform.weight'' \<and> d_vocab_size d \<noteq> None"
    and "has_cap (d_capabilities (classify_heads p d)) CAP_SPARSE_LINEAR \<longleftrightarrow>
      has_tensor p ''sparse_linear.weight'' \<and> d_vocab_size d \<noteq> None"
    and "d_vocab_size (classify_heads p d) = d_vocab_size d"
    unfolding heads require_vocab_def using frame(1,2) caps d1 by auto
  show "d_formula (classify_heads p d) \<noteq> FORMULA_UNKNOWN \<Longrightarrow>
      (has_tensor p ''mlm_transform.weight'' \<or> has_tensor p ''sparse_linear.weight'') \<and> d_vocab_size d \<noteq> None"
    unfolding heads require_vocab_def using frame(1,2,5) caps d1 by (auto split: if_splits)
  show "\<not> has_tensor p ''sparse_linear.weight'' \<Longrightarrow> d_missing (classify_heads p d) = d_missing d"
    unfolding heads require_vocab_def using frame(4) caps d1 by auto
  show "\<not> has_tensor p ''sparse_linear.weight'' \<Longrightarrow> has_tensor p ''mlm_transform.weight'' \<Longrightarrow>
      d_vocab_size d \<noteq> None \<Longrightarrow>
      d_formula (classify_heads p d) = FORMULA_SPLADE \<and> d_diagnostic (classify_heads p d) = []"
    unfolding heads require_vocab_def using frame(2,4,6) caps d1 by auto
qed

section \<open>Properties\<close>

text \<open>The vocabulary size that the file itself declares, under the key of its architecture.\<close>

definition declared_vocab :: "'f probe \<Rightarrow> int option" where
  "declared_vocab p =
     (case get_str p ''general.architecture'' of
        None \<Rightarrow> None
      | Some arch \<Rightarrow> if arch = [] then None else get_i32 p (arch @ ''.vocab_size''))"

lemma header_vocab: "get_arch get_i32 p (arch_of p) ''vocab_size'' = declared_vocab p"
  by (simp add: declared_vocab_def get_arch_def arch_of_def split: option.split)

text \<open>C35. The classifier makes no sparse claim it cannot stand behind: a sparse capability or a known
  formula means that the encoder tensor and the head's tensor are in the file and that the file declares a vocabulary
  size under the key of its architecture, which is the one reported; the summary says "sparse" only then. No
  size is made up for a file that declares none.\<close>

theorem classify_sparse_sound:
  "(has_cap (d_capabilities (classify p)) CAP_SPLADE \<longleftrightarrow>
      has_tensor p ''token_embd.weight'' \<and> has_tensor p ''mlm_transform.weight'' \<and> declared_vocab p \<noteq> None) \<and>
   (has_cap (d_capabilities (classify p)) CAP_SPARSE_LINEAR \<longleftrightarrow>
      has_tensor p ''token_embd.weight'' \<and> has_tensor p ''sparse_linear.weight'' \<and> declared_vocab p \<noteq> None) \<and>
   (d_formula (classify p) = FORMULA_UNKNOWN \<or>
      (has_cap (d_capabilities (classify p)) CAP_SPLADE \<or> has_cap (d_capabilities (classify p)) CAP_SPARSE_LINEAR)) \<and>
   (lembed_gguf_capability_summary (Some (classify p)) = ''sparse'' \<longrightarrow>
      has_tensor p ''token_embd.weight'' \<and> declared_vocab p \<noteq> None) \<and>
   d_vocab_size (classify p) = (if probe_valid p then declared_vocab p else None)"
proof (cases "probe_valid p \<and> has_tensor p ''token_embd.weight''")
  case True
  then have eq: "classify p = classify_heads p (classify_header p)" by (simp add: classify_def)
  note heads = classify_heads_spec(1-4) [of "classify_header p" p, OF header_caps header_diagnostic]
  from True show ?thesis
    unfolding eq heads(1-3) using heads(4)
    by (auto simp: lembed_gguf_capability_summary_def heads(1-3) header_vocab split: if_splits)
next
  case False
  have "\<not> has_tensor p t" if "\<not> probe_valid p" for t
    using that by (simp add: probe_valid_def has_tensor_def)
  with False have "d_capabilities (classify p) = CAP_NONE" and "\<not> has_tensor p ''token_embd.weight''"
    and "d_formula (classify p) = FORMULA_UNKNOWN" and "d_diagnostic (classify p) \<noteq> []"
    and "d_vocab_size (classify p) = (if probe_valid p then declared_vocab p else None)"
    by (auto simp: classify_def Let_def add_missing_def desc_zero_def snprintf_s_def c_str_def header_vocab)
  then show ?thesis by (simp add: lembed_gguf_capability_summary_def)
qed

theorem classify_sparse_sound_witness:
  "has_cap (d_capabilities (classify (Some \<lparr>key_value = [''general.architecture'' \<mapsto> GString ''bert'',
      ''bert.vocab_size'' \<mapsto> GU32 30522], tensor_ne = [''token_embd.weight'' \<mapsto> [768, 30522, 1, 1],
      ''mlm_transform.weight'' \<mapsto> [768, 768, 1, 1]], tensor_total = 2\<rparr> :: nat probe))) CAP_SPLADE"
proof -
  let ?p = "Some \<lparr>key_value = [''general.architecture'' \<mapsto> GString ''bert'',
      ''bert.vocab_size'' \<mapsto> GU32 30522], tensor_ne = [''token_embd.weight'' \<mapsto> [768, 30522, 1, 1],
      ''mlm_transform.weight'' \<mapsto> [768, 768, 1, 1]], tensor_total = 2\<rparr> :: nat probe"
  have "declared_vocab ?p = Some 30522"
    by (simp add: declared_vocab_def get_str_def find_key_def get_i32_def INT_MAX_def c_str_def)
  then show ?thesis using classify_sparse_sound [of ?p] by (simp add: has_tensor_def)
qed

text \<open>What the header lacks is reported completely and in order: the missing list is the
  '|'-joined names of exactly the required keys that were not found (none is dropped or truncated by
  the 256-byte buffer), whenever no \<open>sparse_linear\<close> head is in the file.\<close>

theorem classify_missing_exact:
  assumes "probe_valid p" and "\<not> has_tensor p ''sparse_linear.weight''"
  shows "d_missing (classify p) =
    join_bar (header_missing p @ (if has_tensor p ''token_embd.weight'' then [] else [''token_embd.weight'']))"
proof (cases "has_tensor p ''token_embd.weight''")
  case True
  then show ?thesis
    using assms classify_heads_spec(5) [of "classify_header p" p, OF header_caps header_diagnostic]
    by (simp add: classify_def Let_def header_missing_list)
next
  case False
  then have "d_missing (classify p) = note_missing (join_bar (header_missing p)) ''token_embd.weight''"
    using assms by (simp add: classify_def Let_def add_missing_def header_missing_list)
  then show ?thesis
    using False header_missing_short [of p] by (simp add: note_missing_snoc)
qed

theorem classify_missing_exact_witness:
  "d_missing (classify (Some \<lparr>key_value = [''general.architecture'' \<mapsto> GString ''bert''],
      tensor_ne = Map.empty, tensor_total = 0\<rparr> :: nat probe)) =
     ''<arch>.vocab_size|<arch>.embedding_length|token_embd.weight''"
  using classify_missing_exact [of "Some \<lparr>key_value = [''general.architecture'' \<mapsto> GString ''bert''],
      tensor_ne = Map.empty, tensor_total = 0\<rparr> :: nat probe"]
  by (simp add: probe_valid_def has_tensor_def header_missing_def get_arch_def arch_of_def get_str_def
      find_key_def get_i32_def first_i32_def c_str_def)

text \<open>When a file carries both sparse heads, a \<open>sparse_linear\<close> matrix of the width of the encoder
  (more than one row, more than one column) always leaves the formula unknown if its element count is
  not the vocabulary size: the element count is compared where the comment speaks of an output
  dimension.\<close>

theorem both_heads_unknown:
  assumes "has_cap cs CAP_SPLADE" and "has_cap cs CAP_SPARSE_LINEAR"
    and "tensor_ne f ''sparse_linear.weight'' = Some [h, k, 1, 1]" and "1 < h" and "0 < k"
    and "d_vocab_size d = Some v" and "h * k \<noteq> v"
  shows "resolve_formula (Some f) cs d = (FORMULA_UNKNOWN, d)"
proof -
  have "h * k \<noteq> 1" using assms(4,5) by (simp add: zmult_eq_1_iff)
  with assms show ?thesis by (simp add: resolve_formula_def Let_def tensor_numel_def)
qed

theorem both_heads_unknown_witness:
  "resolve_formula (Some \<lparr>key_value = Map.empty, tensor_ne = [''sparse_linear.weight'' \<mapsto> [1024, 1, 1, 1]],
      tensor_total = 1\<rparr> :: nat probe) (CAP_SPLADE OR CAP_SPARSE_LINEAR) (desc_zero\<lparr>d_vocab_size := Some 250002\<rparr>) =
     (FORMULA_UNKNOWN, desc_zero\<lparr>d_vocab_size := Some 250002\<rparr>)"
  by (rule both_heads_unknown [where h = 1024 and k = 1 and v = 250002]) (simp_all add: has_cap_def cap_defs)

end
