(* ===== verification/GgufWeights.thy ===== *)
theory GgufWeights
  imports GgufProbe
begin

text \<open>
  \<open>detail/gguf/gguf_weights.hpp\<close>: the hyper-parameters read from a header, the special ids, the list
  of required tensors, and the binding of the loaded tensors to their typed fields. ggml is an
  argument: which allocations succeed and what the file's data section holds. Tensors are of an
  arbitrary type. An error is the message the code puts in \<open>err\<close>.
\<close>

section \<open>Hyper-parameters\<close>

record 'f hparams =
  n_embd :: int
  n_head :: int
  n_layer :: int
  n_ff :: int
  n_vocab :: int
  n_pos :: int
  n_type :: int
  ln_eps :: 'f
  hp_arch :: string

fun read_i32_any :: "'f probe \<Rightarrow> string \<Rightarrow> string list \<Rightarrow> int option" where
  "read_i32_any p arch [] = None"
| "read_i32_any p arch (f # fs) =
     (case get_arch get_i32 p arch f of Some v \<Rightarrow> Some v | None \<Rightarrow> read_i32_any p arch fs)"

fun read_f32_any :: "'f probe \<Rightarrow> string \<Rightarrow> string list \<Rightarrow> 'f option" where
  "read_f32_any p arch [] = None"
| "read_f32_any p arch (f # fs) =
     (case get_arch get_f32 p arch f of Some v \<Rightarrow> Some v | None \<Rightarrow> read_f32_any p arch fs)"

definition no_field :: "string \<Rightarrow> string \<Rightarrow> string" where
  "no_field label arch = ''GGUF header has no '' @ label @ '' for architecture '' @ CHR 0x27 # arch @ [CHR 0x27]"

definition need :: "'e \<Rightarrow> 'a option \<Rightarrow> 'e + 'a" where
  "need e x = (case x of None \<Rightarrow> Inl e | Some v \<Rightarrow> Inr v)"

text \<open>The names tried for the feed-forward length are the first two of a list of three.\<close>

definition feed_forward_names :: "string list" where
  "feed_forward_names = [''feed_forward_length'', ''intermediate_size'', ''feed_forward_length'']"

definition check_hparams :: "'f::{linorder,zero} hparams \<Rightarrow> string + 'f hparams" where
  "check_hparams hp =
     (if n_embd hp \<le> 0 \<or> n_head hp \<le> 0 \<or> n_layer hp \<le> 0 \<or> n_ff hp \<le> 0 \<or> n_vocab hp \<le> 0 \<or> n_pos hp \<le> 0
      then Inl ''GGUF header carries a non-positive BERT dimension''
      else if n_embd hp mod n_head hp \<noteq> 0
      then Inl ''GGUF hidden size is not divisible by the attention head count''
      else if ln_eps hp \<le> 0 then Inl ''GGUF LayerNorm epsilon is not positive''
      else Inr hp)"

definition read_hparams :: "'f::{linorder,zero} probe \<Rightarrow> string + 'f hparams" where
  "read_hparams p =
     (case get_str p ''general.architecture'' of
        None \<Rightarrow> Inl ''GGUF header has no general.architecture''
      | Some a \<Rightarrow>
          if a = [] then Inl ''GGUF header has no general.architecture''
          else
            bind_sum (need (no_field ''<arch>.embedding_length'' a)
              (read_i32_any p a [''embedding_length'', ''hidden_size''])) (\<lambda>embd.
            bind_sum (need (no_field ''<arch>.block_count'' a)
              (read_i32_any p a [''block_count'', ''num_hidden_layers''])) (\<lambda>layer.
            bind_sum (need (no_field ''<arch>.attention.head_count'' a)
              (read_i32_any p a [''attention.head_count'', ''num_attention_heads'', ''attention.n_head''])) (\<lambda>head.
            bind_sum (need (no_field ''<arch>.feed_forward_length'' a)
              (read_i32_any p a (take 2 feed_forward_names))) (\<lambda>ff.
            bind_sum (need (no_field ''<arch>.context_length'' a)
              (read_i32_any p a [''context_length'', ''max_position_embeddings''])) (\<lambda>pos.
            bind_sum (need (no_field ''<arch>.vocab_size'' a)
              (get_arch get_i32 p a ''vocab_size'')) (\<lambda>vocab.
            bind_sum (need (no_field ''<arch>.attention.layer_norm_epsilon'' a)
              (read_f32_any p a [''attention.layer_norm_epsilon'', ''layer_norm_eps'', ''layer_norm_epsilon''])) (\<lambda>eps.
            check_hparams \<lparr>n_embd = embd, n_head = head, n_layer = layer, n_ff = ff, n_vocab = vocab,
              n_pos = pos, n_type = 0, ln_eps = eps, hp_arch = a\<rparr>))))))))"

fun special_loop :: "'f probe \<Rightarrow> int \<Rightarrow> string list \<Rightarrow> int list \<Rightarrow> int list" where
  "special_loop p vocab [] ids = ids"
| "special_loop p vocab (k # ks) ids =
     special_loop p vocab ks
       (case get_i32 p k of
          None \<Rightarrow> ids
        | Some i \<Rightarrow> if i < 0 \<or> i \<ge> vocab then ids else if i \<in> set ids then ids else ids @ [i])"

definition read_special_ids :: "'f probe \<Rightarrow> 'f hparams \<Rightarrow> int list" where
  "read_special_ids p hp = special_loop p (n_vocab hp) special_keys []"

definition weights_open :: "(string \<rightharpoonup> 'f gguf_file) \<Rightarrow> string option \<Rightarrow>
    string + ('f::{linorder,zero}) probe \<times> 'f hparams \<times> int list" where
  "weights_open parse path =
     (case path of
        None \<Rightarrow> Inl ''empty GGUF path''
      | Some pth \<Rightarrow>
          if pth = [] then Inl ''empty GGUF path''
          else case parse pth of
            None \<Rightarrow> Inl (''cannot read GGUF file '' @ CHR 0x27 # pth @ [CHR 0x27])
          | Some f \<Rightarrow>
              bind_sum (read_hparams (Some f)) (\<lambda>hp. Inr (Some f, hp, read_special_ids (Some f) hp)))"

section \<open>Tensors\<close>

record 't layer_weights =
  ln1_w :: 't
  ln1_b :: 't
  q_w :: 't
  q_b :: 't
  k_w :: 't
  k_b :: 't
  v_w :: 't
  v_b :: 't
  o_w :: 't
  o_b :: 't
  ln2_w :: 't
  ln2_b :: 't
  fc1_w :: 't
  fc1_b :: 't
  fc2_w :: 't
  fc2_b :: 't

record 't head_weights =
  tok_embd :: 't
  pos_embd :: 't
  type_embd :: 't
  embd_ln_w :: 't
  embd_ln_b :: 't
  mlm_transform_w :: 't
  mlm_transform_b :: 't
  mlm_ln_w :: 't
  mlm_ln_b :: 't
  mlm_bias :: 't

definition layer_suffixes :: "string list" where
  "layer_suffixes = [''ln1.weight'', ''ln1.bias'', ''attn.q.weight'', ''attn.q.bias'', ''attn.k.weight'',
     ''attn.k.bias'', ''attn.v.weight'', ''attn.v.bias'', ''attn.o.weight'', ''attn.o.bias'', ''ln2.weight'',
     ''ln2.bias'', ''ffn.fc1.weight'', ''ffn.fc1.bias'', ''ffn.fc2.weight'', ''ffn.fc2.bias'']"

definition layer_name :: "nat \<Rightarrow> string \<Rightarrow> string" where
  "layer_name il field = ''enc.'' @ show_nat il @ ''.'' @ field"

definition required_names :: "nat \<Rightarrow> string list" where
  "required_names n =
     [''token_embd.weight'', ''position_embd.weight'', ''token_type_embd.weight'', ''embd_ln.weight'',
      ''embd_ln.bias''] @
     concat (map (\<lambda>il. map (layer_name il) layer_suffixes) [0..<n]) @
     [''mlm_transform.weight'', ''mlm_transform.bias'', ''mlm_ln.weight'', ''mlm_ln.bias'', ''mlm_bias'']"

text \<open>\<open>missing_\<close>: the first required name that the header lacks.\<close>

definition missing_tensor :: "'f probe \<Rightarrow> nat \<Rightarrow> string option" where
  "missing_tensor p n = List.find (\<lambda>name. \<not> has_tensor p name) (required_names n)"

definition layer_at :: "'t list \<Rightarrow> nat \<Rightarrow> 't layer_weights" where
  "layer_at t i = \<lparr>ln1_w = t ! i, ln1_b = t ! (i + 1), q_w = t ! (i + 2), q_b = t ! (i + 3),
     k_w = t ! (i + 4), k_b = t ! (i + 5), v_w = t ! (i + 6), v_b = t ! (i + 7), o_w = t ! (i + 8),
     o_b = t ! (i + 9), ln2_w = t ! (i + 10), ln2_b = t ! (i + 11), fc1_w = t ! (i + 12),
     fc1_b = t ! (i + 13), fc2_w = t ! (i + 14), fc2_b = t ! (i + 15)\<rparr>"

text \<open>\<open>bind\<close>; too short a list would be read past its end, which is \<open>None\<close>.\<close>

definition bind_weights :: "'t list \<Rightarrow> nat \<Rightarrow> ('t head_weights \<times> 't layer_weights list) option" where
  "bind_weights t n =
     (if length t < 10 + 16 * n then None
      else let i = 5 + n * 16 in
        Some (\<lparr>tok_embd = t ! 0, pos_embd = t ! 1, type_embd = t ! 2, embd_ln_w = t ! 3, embd_ln_b = t ! 4,
               mlm_transform_w = t ! i, mlm_transform_b = t ! (i + 1), mlm_ln_w = t ! (i + 2),
               mlm_ln_b = t ! (i + 3), mlm_bias = t ! (i + 4)\<rparr>,
              map (\<lambda>il. layer_at t (5 + il * 16)) [0..<n]))"

text \<open>What ggml answers while the tensors are copied.\<close>

record 't ggml_env =
  backend_ok :: bool
  context_ok :: bool
  blob_tensor :: "string \<rightharpoonup> 't"     \<comment> \<open>present, with data\<close>
  dup_ok :: "string \<Rightarrow> bool"
  buffer_ok :: bool
  is_f32 :: "'t \<Rightarrow> bool"
  rows_of :: "'t \<Rightarrow> int"

fun copy_tensors :: "'t ggml_env \<Rightarrow> string list \<Rightarrow> string + 't list" where
  "copy_tensors env [] = Inr []"
| "copy_tensors env (name # names) =
     (case blob_tensor env name of
        None \<Rightarrow> Inl (''tensor '' @ CHR 0x27 # name @ CHR 0x27 # '' carries no data'')
      | Some t \<Rightarrow>
          if \<not> dup_ok env name
          then Inl (''out of memory while copying tensor '' @ CHR 0x27 # name @ [CHR 0x27])
          else bind_sum (copy_tensors env names) (\<lambda>ts. Inr (t # ts)))"

definition load_tensors :: "'t ggml_env \<Rightarrow> 'f probe \<Rightarrow> 'f hparams \<Rightarrow> bool \<Rightarrow>
    string + 't head_weights \<times> 't layer_weights list \<times> 'f hparams" where
  "load_tensors env p hp loaded =
     (if loaded then Inl ''weights are already loaded''
      else case missing_tensor p (nat (n_layer hp)) of
        Some m \<Rightarrow> Inl (''missing tensor '' @ CHR 0x27 # m @ [CHR 0x27])
      | None \<Rightarrow>
          if \<not> backend_ok env then Inl ''cannot initialise the ggml CPU backend''
          else if \<not> context_ok env then Inl ''out of memory while allocating the weight context''
          else bind_sum (copy_tensors env (required_names (nat (n_layer hp)))) (\<lambda>ts.
            if \<not> buffer_ok env then Inl ''cannot allocate the weight buffer''
            else case bind_weights ts (nat (n_layer hp)) of
              None \<Rightarrow> Inl ''undefined''
            | Some (head, layers) \<Rightarrow>
                let n = rows_of env (type_embd head) in
                if \<not> is_f32 env (type_embd head) then Inl ''token_type_embd.weight is not F32''
                else if n < 1 then Inl ''token_type_embd.weight has no rows''
                else Inr (head, layers, hp\<lparr>n_type := n\<rparr>)))"

section \<open>Facts\<close>

lemma need_Inr [simp]: "need e x = Inr v \<longleftrightarrow> x = Some v"
  by (simp add: need_def split: option.split)

lemma check_hparams_Inr [simp]:
  "check_hparams hp = Inr hp' \<longleftrightarrow> hp' = hp \<and> 0 < n_embd hp \<and> 0 < n_head hp \<and> 0 < n_layer hp \<and>
     0 < n_ff hp \<and> 0 < n_vocab hp \<and> 0 < n_pos hp \<and> n_embd hp mod n_head hp = 0 \<and> 0 < ln_eps hp"
  by (auto simp: check_hparams_def)

lemma read_hparams_Inr:
  "read_hparams p = Inr hp \<Longrightarrow> check_hparams hp = Inr hp \<and>
     get_str p ''general.architecture'' = Some (hp_arch hp) \<and> hp_arch hp \<noteq> [] \<and>
     get_arch get_i32 p (hp_arch hp) ''vocab_size'' = Some (n_vocab hp) \<and> n_type hp = 0"
  by (auto simp: read_hparams_def bind_sum_Inr simp del: read_i32_any.simps read_f32_any.simps
      split: option.splits if_splits)

lemma special_loop_range:
  "distinct ids \<Longrightarrow> set ids \<subseteq> {0..<v} \<Longrightarrow>
     distinct (special_loop p v ks ids) \<and> set (special_loop p v ks ids) \<subseteq> {0..<v} \<and>
     set (special_loop p v ks ids) = set ids \<union> {i. \<exists>k \<in> set ks. get_i32 p k = Some i \<and> 0 \<le> i \<and> i < v}"
proof (induction ks arbitrary: ids)
  case (Cons k ks)
  let ?ids = "case get_i32 p k of None \<Rightarrow> ids
    | Some i \<Rightarrow> if i < 0 \<or> i \<ge> v then ids else if i \<in> set ids then ids else ids @ [i]"
  have "distinct ?ids" and sub: "set ?ids \<subseteq> {0..<v}"
    and eq: "set ?ids = set ids \<union> {i. get_i32 p k = Some i \<and> 0 \<le> i \<and> i < v}"
    using Cons.prems by (auto split: option.splits)
  from Cons.IH [OF this(1,2)] show ?case
    unfolding special_loop.simps eq by auto
qed simp

lemma length_layer_suffixes [simp]: "length layer_suffixes = 16"
  by (simp add: layer_suffixes_def)

lemma length_required_names [simp]: "length (required_names n) = 10 + 16 * n"
  by (simp add: required_names_def length_concat_rect [of _ 16])

lemma nth_required_layer:
  assumes "il < n" and "k < 16"
  shows "required_names n ! (5 + il * 16 + k) = layer_name il (layer_suffixes ! k)"
proof -
  let ?L = "map (\<lambda>il. map (layer_name il) layer_suffixes) [0..<n]"
  have "concat ?L ! (il * 16 + k) = ?L ! il ! k"
    using assms by (intro nth_concat_rect) auto
  moreover have "il * 16 + k < length (concat ?L)"
    using assms by (simp add: length_concat_rect [of _ 16])
  ultimately show ?thesis
    using assms by (simp add: required_names_def nth_append add.assoc eval_nat_numeral)
qed

lemma nth_required_tail:
  assumes "k < 5"
  shows "required_names n ! (5 + n * 16 + k) =
    [''mlm_transform.weight'', ''mlm_transform.bias'', ''mlm_ln.weight'', ''mlm_ln.bias'', ''mlm_bias''] ! k"
proof -
  let ?L = "concat (map (\<lambda>il. map (layer_name il) layer_suffixes) [0..<n])"
  have len: "length ([''token_embd.weight'', ''position_embd.weight'', ''token_type_embd.weight'', ''embd_ln.weight'',
      ''embd_ln.bias''] @ ?L) = 5 + n * 16"
    by (simp add: length_concat_rect [of _ 16])
  show ?thesis
    unfolding required_names_def append_assoc [symmetric] len [symmetric] by (rule nth_append_length_plus)
qed

text \<open>The typed fields, by the names they stand for.\<close>

definition named_head :: "(string \<Rightarrow> 't) \<Rightarrow> 't head_weights" where
  "named_head f = \<lparr>tok_embd = f ''token_embd.weight'', pos_embd = f ''position_embd.weight'',
     type_embd = f ''token_type_embd.weight'', embd_ln_w = f ''embd_ln.weight'', embd_ln_b = f ''embd_ln.bias'',
     mlm_transform_w = f ''mlm_transform.weight'', mlm_transform_b = f ''mlm_transform.bias'',
     mlm_ln_w = f ''mlm_ln.weight'', mlm_ln_b = f ''mlm_ln.bias'', mlm_bias = f ''mlm_bias''\<rparr>"

definition named_layer :: "(string \<Rightarrow> 't) \<Rightarrow> 't layer_weights" where
  "named_layer f = \<lparr>ln1_w = f ''ln1.weight'', ln1_b = f ''ln1.bias'', q_w = f ''attn.q.weight'',
     q_b = f ''attn.q.bias'', k_w = f ''attn.k.weight'', k_b = f ''attn.k.bias'', v_w = f ''attn.v.weight'',
     v_b = f ''attn.v.bias'', o_w = f ''attn.o.weight'', o_b = f ''attn.o.bias'', ln2_w = f ''ln2.weight'',
     ln2_b = f ''ln2.bias'', fc1_w = f ''ffn.fc1.weight'', fc1_b = f ''ffn.fc1.bias'',
     fc2_w = f ''ffn.fc2.weight'', fc2_b = f ''ffn.fc2.bias''\<rparr>"

lemma layer_at_named:
  assumes "il < n"
  shows "layer_at (map f (required_names n)) (5 + il * 16) = named_layer (\<lambda>s. f (layer_name il s))"
proof -
  have "map f (required_names n) ! (5 + il * 16 + k) = f (layer_name il (layer_suffixes ! k))" if "k < 16" for k
    using nth_required_layer [OF assms that] assms that by simp
  note nth = this this [of 0, simplified]
  show ?thesis
    unfolding layer_at_def named_layer_def
    by (simp only: nth) (simp add: nth layer_suffixes_def)
qed

section \<open>Properties\<close>

text \<open>Hyper-parameters that were accepted describe a usable encoder: every dimension is positive,
  the heads divide the width, the epsilon is positive, the architecture is named, and the special ids
  read with them are distinct ids of the vocabulary, exactly those the metadata declares in range.\<close>

theorem hparams_usable:
  assumes "weights_open parse path = Inr (p, hp, ids)"
  shows "0 < n_embd hp \<and> 0 < n_head hp \<and> n_embd hp mod n_head hp = 0 \<and> 0 < n_layer hp \<and> 0 < n_ff hp \<and>
    0 < n_vocab hp \<and> 0 < n_pos hp \<and> 0 < ln_eps hp \<and> hp_arch hp \<noteq> [] \<and> distinct ids \<and>
    set ids = {i. \<exists>k \<in> set special_keys. get_i32 p k = Some i \<and> 0 \<le> i \<and> i < n_vocab hp}"
proof -
  from assms have hp: "read_hparams p = Inr hp" and ids: "ids = read_special_ids p hp"
    by (auto simp: weights_open_def bind_sum_Inr split: option.splits if_splits)
  from read_hparams_Inr [OF hp] special_loop_range [of "[]" "n_vocab hp" p special_keys]
  show ?thesis by (simp add: ids read_special_ids_def)
qed

definition sample_header :: "int gguf_file" where
  "sample_header = \<lparr>key_value = map_of [(''general.architecture'', GString ''bert''),
      (''bert.hidden_size'', GU32 8), (''bert.block_count'', GU32 1), (''bert.attention.head_count'', GU32 2),
      (''bert.intermediate_size'', GU32 4), (''bert.context_length'', GU32 16), (''bert.vocab_size'', GU32 10),
      (''bert.layer_norm_eps'', GF32 1), (''tokenizer.ggml.pad_token_id'', GU32 0)],
    tensor_ne = Map.empty, tensor_total = 0\<rparr>"

lemma sample_header_reads:
  "get_str (Some sample_header) ''general.architecture'' = Some ''bert''"
  "read_i32_any (Some sample_header) ''bert'' [''embedding_length'', ''hidden_size''] = Some 8"
  "read_i32_any (Some sample_header) ''bert'' [''block_count'', ''num_hidden_layers''] = Some 1"
  "read_i32_any (Some sample_header) ''bert''
     [''attention.head_count'', ''num_attention_heads'', ''attention.n_head''] = Some 2"
  "read_i32_any (Some sample_header) ''bert'' (take 2 feed_forward_names) = Some 4"
  "read_i32_any (Some sample_header) ''bert'' [''context_length'', ''max_position_embeddings''] = Some 16"
  "get_arch get_i32 (Some sample_header) ''bert'' ''vocab_size'' = Some 10"
  "read_f32_any (Some sample_header) ''bert''
     [''attention.layer_norm_epsilon'', ''layer_norm_eps'', ''layer_norm_epsilon''] = Some 1"
  "map (get_i32 (Some sample_header)) special_keys = [Some 0, None, None, None, None]"
  by (simp_all add: sample_header_def get_str_def find_key_def get_arch_def get_i32_def get_f32_def
      INT_MAX_def c_str_def feed_forward_names_def special_keys_def)

theorem hparams_usable_witness:
  "\<exists>hp. weights_open (\<lambda>_. Some sample_header) (Some ''m.gguf'') = Inr (Some sample_header, hp, [0]) \<and>
     n_embd hp mod n_head hp = 0"
proof -
  have "\<exists>hp. read_hparams (Some sample_header) = Inr hp \<and> n_vocab hp = 10"
    unfolding read_hparams_def sample_header_reads option.case by (simp add: need_def check_hparams_def)
  then obtain hp where hp: "read_hparams (Some sample_header) = Inr hp" "n_vocab hp = 10" by blast
  have "read_special_ids (Some sample_header) hp = [0]"
    using sample_header_reads(9) hp(2) by (simp add: read_special_ids_def special_keys_def)
  with hp have opened: "weights_open (\<lambda>_. Some sample_header) (Some ''m.gguf'') = Inr (Some sample_header, hp, [0])"
    by (simp add: weights_open_def)
  have "n_embd hp mod n_head hp = 0" using hparams_usable [OF opened] by (elim conjE)
  with opened show ?thesis by (intro exI [of _ hp] conjI)
qed

text \<open>\<open>bind\<close> undoes \<open>collect_required_names\<close>: loading the required names in order and binding the
  list puts every tensor in the field of its own name, in every layer.\<close>

theorem bind_by_name:
  "bind_weights (map f (required_names n)) n =
     Some (named_head f, map (\<lambda>il. named_layer (\<lambda>s. f (layer_name il s))) [0..<n])"
proof -
  have tail: "map f (required_names n) ! (5 + n * 16 + k) = f ([''mlm_transform.weight'', ''mlm_transform.bias'',
      ''mlm_ln.weight'', ''mlm_ln.bias'', ''mlm_bias''] ! k)" if "k < 5" for k
    using nth_required_tail [OF that, of n] that by simp
  have head: "map f (required_names n) ! k = f ([''token_embd.weight'', ''position_embd.weight'',
      ''token_type_embd.weight'', ''embd_ln.weight'', ''embd_ln.bias''] ! k)" if "k < 5" for k
  proof -
    have "required_names n ! k = [''token_embd.weight'', ''position_embd.weight'',
      ''token_type_embd.weight'', ''embd_ln.weight'', ''embd_ln.bias''] ! k"
      unfolding required_names_def using that by (subst nth_append) simp
    with that show ?thesis by simp
  qed
  have "map (\<lambda>il. layer_at (map f (required_names n)) (5 + il * 16)) [0..<n] =
      map (\<lambda>il. named_layer (\<lambda>s. f (layer_name il s))) [0..<n]"
    by (intro map_cong refl layer_at_named) simp
  moreover have "map f (required_names n) ! 0 = f ''token_embd.weight''"
    "map f (required_names n) ! 1 = f ''position_embd.weight''"
    "map f (required_names n) ! 2 = f ''token_type_embd.weight''"
    "map f (required_names n) ! 3 = f ''embd_ln.weight''" "map f (required_names n) ! 4 = f ''embd_ln.bias''"
    by (simp_all only: head) simp_all
  moreover have "map f (required_names n) ! (5 + n * 16) = f ''mlm_transform.weight''"
    using tail [of 0] by simp
  moreover have "map f (required_names n) ! (5 + n * 16 + 1) = f ''mlm_transform.bias''"
    "map f (required_names n) ! (5 + n * 16 + 2) = f ''mlm_ln.weight''"
    "map f (required_names n) ! (5 + n * 16 + 3) = f ''mlm_ln.bias''"
    "map f (required_names n) ! (5 + n * 16 + 4) = f ''mlm_bias''"
    by (simp_all only: tail) simp_all
  ultimately show ?thesis
    by (simp only: bind_weights_def Let_def named_head_def length_map length_required_names less_irrefl if_False)
qed

end
