(* ===== verification/GgufSession.thy ===== *)
theory GgufSession
  imports GgufWeights Tokenizer SparsePost
begin

text \<open>
  The sparse GGUF runtime, \<open>detail/gguf/gguf_sparse_session.hpp\<close>: what it accepts, how a session is
  loaded, the attention mask, the cached graph, and the embedding of batches. The ggml graph is an
  argument \<open>compute\<close> from the weights a graph was built on, the tokens, positions, mask and shape to
  the logits; the logarithm of the pooling is an argument. An exception of the tokenizer is a value.
\<close>

section \<open>Acceptance\<close>

definition accept :: "'f probe \<Rightarrow> string + unit" where
  "accept p =
     (let d = classify p in
      if \<not> probe_valid p then Inl ''not a readable GGUF file''
      else if d_diagnostic d \<noteq> [] then Inl (d_diagnostic d)
      else if \<not> has_cap (d_capabilities d) CAP_SPLADE
        then Inl ''GGUF carries no SPLADE head (mlm_transform.weight is absent)''
      else if d_formula d \<noteq> FORMULA_SPLADE then Inl ''GGUF sparse formula is not SPLADE''
      else if d_vocab_size d = None then Inl ''GGUF has no <architecture>.vocab_size to pool over''
      else if d_missing d \<noteq> [] then Inl (''GGUF is missing '' @ d_missing d)
      else if has_cap (d_capabilities d) CAP_SPARSE_LINEAR
        then Inl (''GGUF carries both a SPLADE head and a sparse_linear head; '' @
                  ''refusing to guess which one this file is meant for'')
      else Inr ())"

section \<open>The session\<close>

text \<open>The cached graph remembers its shape and, through its tensors, the weights it was built on.\<close>

record ('t, 'f) session =
  s_weights :: "('t head_weights \<times> 't layer_weights list \<times> 'f hparams) option"
  s_tok :: tokenizer
  s_path :: string
  s_special :: "int list"
  s_vocab :: int
  s_max_length :: int
  s_graph :: "(nat \<times> nat \<times> ('t head_weights \<times> 't layer_weights list \<times> 'f hparams)) option"

definition session_new :: "('t, 'f) session" where
  "session_new = \<lparr>s_weights = None, s_tok = tokenizer_new, s_path = [], s_special = [], s_vocab = 0,
     s_max_length = 0, s_graph = None\<rparr>"

definition read_token_id :: "'f probe \<Rightarrow> string \<Rightarrow> int \<Rightarrow> int" where
  "read_token_id p key out = (case get_i32 p key of Some v \<Rightarrow> if v \<ge> 0 then v else out | None \<Rightarrow> out)"

definition check_tokenizer_model :: "'f probe \<Rightarrow> string + unit" where
  "check_tokenizer_model p =
     (case get_str p ''tokenizer.ggml.model'' of
        Some m \<Rightarrow>
          if m \<noteq> ''bert'' \<and> m \<noteq> ''bert-wordpiece''
          then Inl (''GGUF declares tokenizer model '' @ CHR 0x27 # m @ CHR 0x27 #
                    '', which this runtime does not implement (expected bert)'')
          else Inr ()
      | None \<Rightarrow> Inr ())"

definition check_vocab :: "'f probe \<Rightarrow> 'g hparams \<Rightarrow> string + string list" where
  "check_vocab p hp =
     bind_sum (need ''GGUF has no tokenizer.ggml.tokens vocabulary array''
       (get_arr_str p ''tokenizer.ggml.tokens'')) (\<lambda>tokens.
     bind_sum (check_tokenizer_model p) (\<lambda>_.
       if int (length tokens) \<noteq> n_vocab hp
       then Inl (snprintf_s 192 (''GGUF vocabulary holds '' @ show_nat (length tokens) @ '' entries but '' @
                   c_str (hp_arch hp) @ ''.vocab_size is '' @ show_int (n_vocab hp)))
       else Inr tokens))"

definition flag_or_true :: "'f probe \<Rightarrow> string \<Rightarrow> bool" where
  "flag_or_true p key = (case get_bool p key of Some b \<Rightarrow> b | None \<Rightarrow> True)"

definition capped_length :: "int \<Rightarrow> 'g hparams \<Rightarrow> int" where
  "capped_length ml hp = (if ml > 0 then min ml (n_pos hp) else n_pos hp)"

text \<open>The tokenizer of the session: the declared ids, and the delimiters both or not at all.\<close>

definition session_vocab :: "'f probe \<Rightarrow> string list \<Rightarrow> int \<Rightarrow> tokenizer \<Rightarrow> (bool \<times> string) \<times> tokenizer" where
  "session_vocab p tokens maxl tok =
     (let pad = read_token_id p ''tokenizer.ggml.pad_token_id'' (-1);
          unk = read_token_id p ''tokenizer.ggml.unk_token_id'' (-1);
          cls = read_token_id p ''tokenizer.ggml.cls_token_id'' (-1);
          sep0 = read_token_id p ''tokenizer.ggml.separator_token_id'' (-1);
          sep = (if sep0 < 0 then read_token_id p ''tokenizer.ggml.eos_token_id'' sep0 else sep0);
          add = (flag_or_true p ''tokenizer.ggml.adding_bos_token'' \<and>
                 flag_or_true p ''tokenizer.ggml.adding_eos_token'')
      in load_vocab tokens pad unk (if add then cls else -1) (if add then sep else -1) maxl add tok)"

text \<open>\<open>load_from_file\<close>. A failure leaves the error; the graph cache is not touched by a success.\<close>

definition session_load :: "(string \<rightharpoonup> 'f gguf_file) \<Rightarrow> 't ggml_env \<Rightarrow> string option \<Rightarrow> int \<Rightarrow>
    ('t, 'f::{linorder,zero}) session \<Rightarrow> string + ('t, 'f) session" where
  "session_load parse env path ml s =
     bind_sum (weights_open parse path) (\<lambda>(p, hp0, ids).
     bind_sum (accept p) (\<lambda>_.
     bind_sum (load_tensors env p hp0 False) (\<lambda>(head, layers, hp).
     bind_sum (check_vocab p hp) (\<lambda>tokens.
       case session_vocab p tokens (capped_length ml hp) (s_tok s) of
         ((ok, err), tok) \<Rightarrow>
           if \<not> ok then Inl err
           else if pad_token_id tok < 0 \<or> pad_token_id tok \<ge> n_vocab hp
           then Inl ''GGUF pad token id is outside the vocabulary''
           else Inr (s\<lparr>s_weights := Some (head, layers, hp), s_tok := tok,
                      s_path := (case path of Some x \<Rightarrow> x | None \<Rightarrow> []), s_special := ids,
                      s_vocab := n_vocab hp, s_max_length := capped_length ml hp\<rparr>)))))"

section \<open>The mask and the graph\<close>

text \<open>One document: a row per query, zero for the keys that are not padding, the diagonal when there
  are none.\<close>

definition mask_plane :: "'f::zero \<Rightarrow> int list \<Rightarrow> 'f list list" where
  "mask_plane neg vb =
     (let row = map (\<lambda>v. if v \<noteq> 0 then 0 else neg) vb; any_valid = list_ex (\<lambda>v. v \<noteq> 0) vb
      in map (\<lambda>i. if any_valid then row else row[i := 0]) [0..<length vb])"

definition build_mask :: "'f::zero \<Rightarrow> int list \<Rightarrow> nat \<Rightarrow> nat \<Rightarrow> 'f list" where
  "build_mask neg valid seq_len batch =
     concat (map (\<lambda>b. concat (mask_plane neg (take seq_len (drop (b * seq_len) valid)))) [0..<batch])"

type_synonym ('t, 'f) compute =
  "'t head_weights \<times> 't layer_weights list \<times> 'f hparams \<Rightarrow> int list \<Rightarrow> nat list \<Rightarrow> 'f list \<Rightarrow>
     nat \<Rightarrow> nat \<Rightarrow> 'f list option"

definition cached_graph :: "(nat \<Rightarrow> nat \<Rightarrow> bool) \<Rightarrow> nat \<Rightarrow> nat \<Rightarrow>
    't head_weights \<times> 't layer_weights list \<times> 'f hparams \<Rightarrow> ('t, 'f) session \<Rightarrow>
    (nat \<times> nat \<times> ('t head_weights \<times> 't layer_weights list \<times> 'f hparams)) option" where
  "cached_graph build_ok seq_len batch w s =
     (let fresh = (if build_ok seq_len batch then Some (seq_len, batch, w) else None) in
      case s_graph s of
        None \<Rightarrow> fresh
      | Some (n, b, gw) \<Rightarrow> if n \<noteq> seq_len \<or> b \<noteq> batch then fresh else Some (n, b, gw))"

definition run_graph :: "(nat \<Rightarrow> nat \<Rightarrow> bool) \<Rightarrow> ('t, 'f) compute \<Rightarrow> 'f::zero \<Rightarrow> int list \<Rightarrow> nat list \<Rightarrow> int list \<Rightarrow>
    nat \<Rightarrow> nat \<Rightarrow> ('t, 'f) session \<Rightarrow> 'f list option \<times> ('t, 'f) session" where
  "run_graph build_ok compute neg tokens positions valid seq_len batch s =
     (case s_weights s of
        None \<Rightarrow> (None, s)
      | Some w \<Rightarrow>
          let g = cached_graph build_ok seq_len batch w s; s' = s\<lparr>s_graph := g\<rparr> in
          case g of
            None \<Rightarrow> (None, s')
          | Some (_, _, gw) \<Rightarrow> (compute gw tokens positions (build_mask neg valid seq_len batch) seq_len batch, s'))"

section \<open>Embedding\<close>

definition drop_special_tokens :: "int list \<Rightarrow> 'f sparse_result \<Rightarrow> 'f sparse_result" where
  "drop_special_tokens special r =
     (if special = [] then r else of_terms (filter (\<lambda>t. int (snd t) \<notin> set special) (terms_of r)))"

text \<open>What the graph is fed: the flattened rows of the encoding and the positions.\<close>

definition feed_tokens :: "encoding_batch \<Rightarrow> int list" where
  "feed_tokens enc = concat (input_ids enc)"

definition feed_positions :: "encoding_batch \<Rightarrow> nat list" where
  "feed_positions enc = concat (map (\<lambda>_. [0..<nat (seq_length enc)]) (input_ids enc))"

text \<open>The number of tokens of a batch is an \<open>int\<close> product, whose overflow is undefined.\<close>

definition session_embed_batch :: "('f \<Rightarrow> 'f) \<Rightarrow> (nat \<Rightarrow> nat \<Rightarrow> bool) \<Rightarrow> ('t, 'f) compute \<Rightarrow>
    'f::{linorder,zero,one,plus} \<Rightarrow> string list \<Rightarrow> ('t, 'f) session \<Rightarrow>
    tok_fail + 'f sparse_result list \<times> ('t, 'f) session" where
  "session_embed_batch ln' build_ok compute neg texts s =
     bind_sum (encode_batch (s_tok s) texts) (\<lambda>enc.
       let batch = length texts; n = nat (seq_length enc); none = replicate batch sparse_empty;
           valid = concat (attention_mask enc) in
       if seq_length enc \<le> 0 then Inr (none, s)
       else if c_int (int batch * seq_length enc) = None then Inl Undefined
       else case run_graph build_ok compute neg (feed_tokens enc) (feed_positions enc) valid n batch s of
         (None, s') \<Rightarrow> Inr (none, s')
       | (Some logits, s') \<Rightarrow>
           Inr (map (\<lambda>b. drop_special_tokens (s_special s)
                  (splade_pool ln' (Some (drop (b * n * nat (s_vocab s)) logits)) (s_vocab s)
                     (Some (drop (b * n) valid)) (int n))) [0..<batch], s'))"

function embed_chunks :: "('f \<Rightarrow> 'f) \<Rightarrow> (nat \<Rightarrow> nat \<Rightarrow> bool) \<Rightarrow> ('t, 'f) compute \<Rightarrow>
    'f::{linorder,zero,one,plus} \<Rightarrow> nat \<Rightarrow> string list \<Rightarrow> ('t, 'f) session \<Rightarrow>
    tok_fail + 'f sparse_result list \<times> ('t, 'f) session" where
  "embed_chunks ln' build_ok compute neg bs texts s =
     (if texts = [] \<or> bs = 0 then Inr ([], s)
      else bind_sum (session_embed_batch ln' build_ok compute neg (take bs texts) s) (\<lambda>(rs, s1).
           bind_sum (embed_chunks ln' build_ok compute neg bs (drop bs texts) s1) (\<lambda>(rest, s2).
           Inr (rs @ rest, s2))))"
  by pat_completeness auto
termination
  by (relation "measure (\<lambda>(l, b, c, n, bs, texts, s). length texts)") auto

declare embed_chunks.simps [simp del]

definition session_embed :: "('f \<Rightarrow> 'f) \<Rightarrow> (nat \<Rightarrow> nat \<Rightarrow> bool) \<Rightarrow> ('t, 'f) compute \<Rightarrow>
    'f::{linorder,zero,one,plus} \<Rightarrow> string list \<Rightarrow> int \<Rightarrow> ('t, 'f) session \<Rightarrow>
    tok_fail + 'f sparse_result list \<times> ('t, 'f) session" where
  "session_embed ln' build_ok compute neg texts batch_size s =
     (if texts = [] \<or> s_weights s = None then Inr ([], s)
      else embed_chunks ln' build_ok compute neg (nat (if batch_size \<le> 0 then 1 else batch_size)) texts s)"

section \<open>Facts\<close>

lemma accept_spec:
  "accept p = Inr () \<longleftrightarrow>
     (\<exists>a v e. get_str p ''general.architecture'' = Some a \<and> get_arch get_i32 p a ''vocab_size'' = Some v \<and>
        first_i32 p a ''embedding_length'' ''hidden_size'' = Some e) \<and>
     has_tensor p ''token_embd.weight'' \<and> has_tensor p ''mlm_transform.weight'' \<and>
     \<not> has_tensor p ''sparse_linear.weight''"
proof (cases "probe_valid p \<and> has_tensor p ''token_embd.weight''")
  case True
  then have eq: "classify p = classify_heads p (classify_header p)" by (simp add: classify_def)
  note heads = classify_heads_spec [of "classify_header p" p, OF header_caps header_diagnostic]
  have missing: "join_bar (header_missing p) = [] \<longleftrightarrow>
      (\<exists>a v e. get_str p ''general.architecture'' = Some a \<and> get_arch get_i32 p a ''vocab_size'' = Some v \<and>
        first_i32 p a ''embedding_length'' ''hidden_size'' = Some e)"
    unfolding join_bar_Nil [OF header_missing_short(1)]
    by (auto simp: header_missing_def arch_of_def split: option.splits)
  show ?thesis
  proof (cases "has_tensor p ''sparse_linear.weight''")
    case linear: True
    then have "\<not> (has_cap (d_capabilities (classify p)) CAP_SPLADE \<and>
        \<not> has_cap (d_capabilities (classify p)) CAP_SPARSE_LINEAR)"
      unfolding eq heads(1,2) by blast
    with linear show ?thesis by (auto simp: accept_def Let_def)
  next
    case False
    with True heads(1,2,3,5,6) missing show ?thesis
      by (auto simp: accept_def Let_def eq header_missing_list arch_of_def split: if_splits)
  qed
next
  case False
  have "\<not> has_tensor p t" if "\<not> probe_valid p" for t
    using that by (simp add: probe_valid_def has_tensor_def)
  with False show ?thesis
    by (auto simp: accept_def Let_def classify_def add_missing_def desc_zero_def snprintf_s_def c_str_def)
qed

lemma load_tensors_frame:
  "load_tensors env p hp loaded = Inr (head, layers, hp') \<Longrightarrow>
     n_vocab hp' = n_vocab hp \<and> n_pos hp' = n_pos hp \<and> 1 \<le> n_type hp'"
  by (auto simp: load_tensors_def bind_sum_Inr Let_def split: if_splits option.splits prod.splits)

lemma session_vocab_ids:
  assumes "tokens \<noteq> []"
  shows "\<exists>t'. session_vocab p tokens ml t = ((True, []), t') \<and>
    max_length t' = (if ml > 0 then ml else 512) \<and>
    insert (pad_token_id t') ({cls_token_id t', sep_token_id t'} \<union> vocab_ids t') \<subseteq> {0..<int (length tokens)}"
  unfolding session_vocab_def Let_def
  by (rule exE [OF load_vocab_ids [OF assms]]) blast

lemma session_load_tok:
  assumes "session_load parse env path ml s = Inr s'"
  shows "\<exists>head layers hp. s_weights s' = Some (head, layers, hp) \<and> s_vocab s' = n_vocab hp \<and> 0 < n_vocab hp \<and> 0 < n_pos hp \<and> 0 < max_length (s_tok s') \<and>
    max_length (s_tok s') \<le> n_pos hp \<and> s_graph s' = s_graph s \<and>
    set (s_special s') \<subseteq> {0..<n_vocab hp} \<and>
    insert (pad_token_id (s_tok s')) ({cls_token_id (s_tok s'), sep_token_id (s_tok s')} \<union> vocab_ids (s_tok s'))
      \<subseteq> {0..<n_vocab hp}"
proof -
  from assms obtain p hp0 ids head layers hp tokens where
    op: "weights_open parse path = Inr (p, hp0, ids)" and lt: "load_tensors env p hp0 False = Inr (head, layers, hp)"
    and cv: "check_vocab p hp = Inr tokens"
    by (auto simp: session_load_def bind_sum_Inr)
  from op have "read_hparams p = Inr hp0"
    by (auto simp: weights_open_def bind_sum_Inr split: option.splits if_splits)
  then have pos: "0 < n_vocab hp" "0 < n_pos hp"
    using read_hparams_Inr load_tensors_frame [OF lt] by fastforce+
  have sp: "set ids \<subseteq> {0..<n_vocab hp}"
    using op special_loop_range [of "[]" "n_vocab hp0" p special_keys] load_tensors_frame [OF lt]
    by (auto simp: weights_open_def bind_sum_Inr read_special_ids_def split: option.splits if_splits)
  from cv have len: "int (length tokens) = n_vocab hp"
    by (auto simp: check_vocab_def bind_sum_Inr split: if_splits)
  with pos have "tokens \<noteq> []" by auto
  note vocab = session_vocab_ids [OF this]
  obtain tok where lv: "session_vocab p tokens (capped_length ml hp) (s_tok s) = ((True, []), tok)"
    and tok: "max_length tok = (if capped_length ml hp > 0 then capped_length ml hp else 512)"
      "insert (pad_token_id tok) ({cls_token_id tok, sep_token_id tok} \<union> vocab_ids tok) \<subseteq> {0..<n_vocab hp}"
    using vocab [of p "capped_length ml hp" "s_tok s"] len by auto
  have "0 < capped_length ml hp" "capped_length ml hp \<le> n_pos hp"
    using pos(2) by (simp_all add: capped_length_def)
  moreover have "s_weights s' = Some (head, layers, hp) \<and> s_tok s' = tok \<and> s_vocab s' = n_vocab hp \<and>
      s_special s' = ids \<and> s_graph s' = s_graph s"
    using assms op lt cv lv unfolding session_load_def by (auto simp: bind_sum_Inr split: if_splits)
  ultimately show ?thesis
    using tok len pos sp by (intro exI [of _ head] exI [of _ layers] exI [of _ hp]) simp
qed


text \<open>Removing the special ids.\<close>

lemma drop_special_indices:
  assumes "length (indices r) = length (weights r)"
  shows "\<forall>i \<in> set (indices (drop_special_tokens special r)). int i \<notin> set special"
    and "indices (drop_special_tokens special r) = filter (\<lambda>i. int i \<notin> set special) (indices r)"
proof -
  have "map snd (filter (\<lambda>t. int (snd t) \<notin> set special) (zip ws is)) = filter (\<lambda>i. int i \<notin> set special) is"
    if "length is = length ws" for ws :: "'a list" and "is"
    using that by (induction ws "is" rule: list_induct2') auto
  then show eq: "indices (drop_special_tokens special r) = filter (\<lambda>i. int i \<notin> set special) (indices r)"
    using assms by (auto simp: drop_special_tokens_def terms_of_def)
  show "\<forall>i \<in> set (indices (drop_special_tokens special r)). int i \<notin> set special"
    unfolding eq by simp
qed

lemma splade_pool_lengths: "length (indices (splade_pool l x v m n)) = length (weights (splade_pool l x v m n))"
  by (simp add: splade_pool_def above_def sparse_empty_def Let_def split: option.split)

lemma drop_special_pool:
  "i \<in> set (indices (drop_special_tokens sp (splade_pool l x v m n))) \<Longrightarrow> int i \<in> set sp \<Longrightarrow> False"
  using drop_special_indices(1) [OF splade_pool_lengths] by blast

lemma run_graph_frame:
  assumes "run_graph build_ok compute neg ts ps v n b s = (r, s')"
  shows "s_tok s' = s_tok s" "s_weights s' = s_weights s" "s_special s' = s_special s" "s_vocab s' = s_vocab s"
  using assms by (auto simp: run_graph_def Let_def split: option.splits prod.splits)

definition graph_current :: "('t, 'f) session \<Rightarrow> bool" where
  "graph_current s \<longleftrightarrow> (\<forall>n b w. s_graph s = Some (n, b, w) \<longrightarrow> s_weights s = Some w)"

lemma run_graph_current:
  assumes "run_graph build_ok compute neg ts ps v n b s = (r, s')" and "graph_current s"
  shows "graph_current s'"
    and "r = Some logits \<Longrightarrow> \<exists>w. s_weights s = Some w \<and> compute w ts ps (build_mask neg v n b) n b = Some logits"
  using assms
  by (auto simp: run_graph_def graph_current_def cached_graph_def Let_def split: option.splits prod.splits if_splits)

lemma indices_sparse_empty [simp]: "indices sparse_empty = []"
  by (simp add: sparse_empty_def)

text \<open>What an embedding leaves of a session, and what it returns, whenever it returns.\<close>

definition clean :: "int list \<Rightarrow> 'f sparse_result list \<Rightarrow> bool" where
  "clean special rs \<longleftrightarrow> (\<forall>r \<in> set rs. \<forall>i \<in> set (indices r). int i \<notin> set special)"

definition same_session :: "('t, 'f) session \<Rightarrow> ('t, 'f) session \<Rightarrow> bool" where
  "same_session s s' \<longleftrightarrow> s_weights s' = s_weights s \<and> s_tok s' = s_tok s \<and> s_special s' = s_special s \<and>
     s_vocab s' = s_vocab s \<and> (graph_current s \<longrightarrow> graph_current s')"

lemma same_session_refl [simp]: "same_session s s"
  by (simp add: same_session_def)

lemma same_session_trans: "same_session a b \<Longrightarrow> same_session b c \<Longrightarrow> same_session a c"
  by (simp add: same_session_def)

lemma session_embed_batch_keeps:
  assumes "session_embed_batch ln' build_ok compute neg texts s = Inr (rs, s')"
  shows "same_session s s' \<and> length rs = length texts \<and> clean (s_special s) rs"
proof -
  obtain enc where enc: "encode_batch (s_tok s) texts = Inr enc"
    using assms by (auto simp: session_embed_batch_def bind_sum_Inr)
  obtain r s1 where g: "run_graph build_ok compute neg (feed_tokens enc) (feed_positions enc) (concat (attention_mask enc))
      (nat (seq_length enc)) (length texts) s = (r, s1)" by fastforce
  have frame: "same_session s s1"
    using run_graph_frame [OF g] run_graph_current(1) [OF g] by (simp add: same_session_def)
  have none: "clean (s_special s) (replicate n sparse_empty :: 'a sparse_result list)" for n by (simp add: clean_def)
  show ?thesis
  proof (cases r)
    case None
    with assms enc g frame none show ?thesis by (auto simp: session_embed_batch_def Let_def split: if_splits)
  next
    case (Some logits)
    with assms enc g frame none show ?thesis
      by (auto simp: session_embed_batch_def Let_def clean_def dest: drop_special_pool split: if_splits)
  qed
qed

lemma session_embed_batch_returns:
  assumes "0 < max_length (s_tok s)" and "int (length texts) * max_length (s_tok s) \<le> INT_MAX"
  shows "\<exists>rs s'. session_embed_batch ln' build_ok compute neg texts s = Inr (rs, s')"
proof -
  from encode_all_ok [OF assms(1), of texts] obtain enc where
    enc: "encode_batch (s_tok s) texts = Inr enc" "seq_length enc \<le> max_length (s_tok s)"
    by (auto simp: encode_batch_def Let_def)
  then have "int (length texts) * seq_length enc \<le> int (length texts) * max_length (s_tok s)" by (intro mult_left_mono) simp_all
  with assms(2) have "int (length texts) * seq_length enc \<le> INT_MAX" by linarith
  moreover have "INT_MIN \<le> int (length texts) * seq_length enc" if "\<not> seq_length enc \<le> 0"
  proof -
    have "0 \<le> int (length texts) * seq_length enc" using that by simp
    then show ?thesis unfolding INT_MIN_def by linarith
  qed
  ultimately have "seq_length enc \<le> 0 \<or> c_int (int (length texts) * seq_length enc) \<noteq> None" by (auto simp: c_int_def)
  with enc(1) show ?thesis by (auto simp: session_embed_batch_def Let_def c_int_def split: option.splits prod.splits)
qed

lemma embed_chunks_keeps:
  assumes "embed_chunks ln' build_ok compute neg bs texts s = Inr (rs, s')" and "0 < bs"
  shows "same_session s s' \<and> length rs = length texts \<and> clean (s_special s) rs"
  using assms
proof (induction "length texts" arbitrary: texts s rs s' rule: less_induct)
  case less
  show ?case
  proof (cases "texts = []")
    case True
    with less.prems show ?thesis by (auto simp: embed_chunks.simps clean_def)
  next
    case False
    with less.prems obtain r1 s1 r2 where
      parts: "session_embed_batch ln' build_ok compute neg (take bs texts) s = Inr (r1, s1)"
        "embed_chunks ln' build_ok compute neg bs (drop bs texts) s1 = Inr (r2, s')" "rs = r1 @ r2"
      by (subst (asm) embed_chunks.simps) (auto simp: bind_sum_Inr)
    have "length (drop bs texts) < length texts" using False less.prems(2) by (cases texts) auto
    from less.hyps [OF this parts(2) less.prems(2)] session_embed_batch_keeps [OF parts(1)] parts(3)
    show ?thesis by (auto simp: same_session_def clean_def)
  qed
qed

lemma embed_chunks_returns:
  assumes "0 < max_length (s_tok s)" and "0 < bs" and "int (min bs (length texts)) * max_length (s_tok s) \<le> INT_MAX"
  shows "\<exists>rs s'. embed_chunks ln' build_ok compute neg bs texts s = Inr (rs, s')"
  using assms
proof (induction "length texts" arbitrary: texts s rule: less_induct)
  case less
  show ?case
  proof (cases "texts = []")
    case True
    then show ?thesis by (simp add: embed_chunks.simps)
  next
    case False
    have "int (length (take bs texts)) = int (min bs (length texts))" by simp
    then obtain r1 s1 where one: "session_embed_batch ln' build_ok compute neg (take bs texts) s = Inr (r1, s1)"
      using session_embed_batch_returns [OF less.prems(1), of "take bs texts"] less.prems(3) by metis
    then have tok: "s_tok s1 = s_tok s" using session_embed_batch_keeps [OF one] by (simp add: same_session_def)
    have "int (min bs (length (drop bs texts))) * max_length (s_tok s) \<le> int (min bs (length texts)) * max_length (s_tok s)"
      using less.prems(1) by (intro mult_right_mono) auto
    with less.prems(3) have "int (min bs (length (drop bs texts))) * max_length (s_tok s1) \<le> INT_MAX" unfolding tok by linarith
    moreover have "length (drop bs texts) < length texts" using False less.prems(2) by (cases texts) auto
    ultimately obtain r2 s2 where "embed_chunks ln' build_ok compute neg bs (drop bs texts) s1 = Inr (r2, s2)"
      using less.hyps [of "drop bs texts" s1] less.prems(1,2) tok by auto
    with one False less.prems(2) show ?thesis by (subst embed_chunks.simps) auto
  qed
qed

section \<open>A file that loads\<close>

definition sample_file :: "int gguf_file" where
  "sample_file = sample_header\<lparr>
     key_value := (key_value sample_header)(''tokenizer.ggml.tokens'' \<mapsto>
       GStringArray [''[PAD]'', ''a'', ''b'', ''c'', ''d'', ''e'', ''f'', ''[UNK]'', ''[CLS]'', ''[SEP]'']),
     tensor_ne := (\<lambda>name. if name = ''sparse_linear.weight'' then None else Some [1, 1, 1, 1])\<rparr>"

definition sample_env :: "nat ggml_env" where
  "sample_env = \<lparr>backend_ok = True, context_ok = True, blob_tensor = (\<lambda>name. Some (length name)),
     dup_ok = (\<lambda>_. True), buffer_ok = True, is_f32 = (\<lambda>_. True), rows_of = (\<lambda>_. 2)\<rparr>"

lemma copy_tensors_all:
  "\<forall>n \<in> set names. blob_tensor env n = Some (f n) \<and> dup_ok env n \<Longrightarrow>
     copy_tensors env names = Inr (map f names)"
  by (induction names) auto

lemma sample_key: "k \<noteq> ''tokenizer.ggml.tokens'' \<Longrightarrow> find_key (Some sample_file) k = find_key (Some sample_header) k"
  by (simp add: find_key_def sample_file_def)

lemma sample_reads:
  "k \<noteq> ''tokenizer.ggml.tokens'' \<Longrightarrow> get_str (Some sample_file) k = get_str (Some sample_header) k"
  "k \<noteq> ''tokenizer.ggml.tokens'' \<Longrightarrow> get_i32 (Some sample_file) k = get_i32 (Some sample_header) k"
  by (simp_all add: get_str_def get_i32_def sample_key)

lemma sample_arch:
  "get_arch get_i32 (Some sample_file) ''bert'' k = get_arch get_i32 (Some sample_header) ''bert'' k"
  "get_arch get_f32 (Some sample_file) ''bert'' k = get_arch get_f32 (Some sample_header) ''bert'' k"
  by (simp_all add: get_arch_def get_i32_def get_f32_def sample_key)

lemma sample_any:
  "read_i32_any (Some sample_file) ''bert'' ks = read_i32_any (Some sample_header) ''bert'' ks"
  "read_f32_any (Some sample_file) ''bert'' ks = read_f32_any (Some sample_header) ''bert'' ks"
  by (induction ks) (simp_all add: sample_arch split: option.split)

lemma sample_opens:
  "\<exists>hp ids. weights_open (\<lambda>_. Some sample_file) (Some ''m.gguf'') = Inr (Some sample_file, hp, ids) \<and>
     n_vocab hp = 10 \<and> n_layer hp = 1 \<and> n_pos hp = 16"
proof -
  have str: "get_str (Some sample_file) ''general.architecture'' = Some ''bert''"
    by (simp add: sample_reads sample_header_reads)
  have "\<exists>hp. read_hparams (Some sample_file) = Inr hp \<and> n_vocab hp = 10 \<and> n_layer hp = 1 \<and> n_pos hp = 16"
    unfolding read_hparams_def str sample_any sample_arch sample_header_reads option.case
    by (simp add: need_def check_hparams_def)
  then show ?thesis by (auto simp: weights_open_def)
qed

lemma sample_accepted: "accept (Some sample_file) = Inr ()"
proof -
  have "get_str (Some sample_file) ''general.architecture'' = Some ''bert''"
    by (simp add: sample_reads sample_header_reads)
  moreover have "get_arch get_i32 (Some sample_file) ''bert'' ''vocab_size'' = Some 10"
    by (simp add: sample_arch sample_header_reads)
  moreover have "first_i32 (Some sample_file) ''bert'' ''embedding_length'' ''hidden_size'' = Some 8"
    unfolding first_i32_def sample_arch using sample_header_reads(2) by (simp split: option.splits)
  moreover have "has_tensor (Some sample_file) t \<longleftrightarrow> t \<noteq> ''sparse_linear.weight''" for t
    by (simp add: has_tensor_def sample_file_def)
  ultimately show ?thesis unfolding accept_spec by simp
qed

lemma sample_loads:
  assumes "n_layer hp = 1"
  shows "\<exists>head layers. load_tensors sample_env (Some sample_file) hp False = Inr (head, layers, hp\<lparr>n_type := 2\<rparr>)"
proof -
  have "has_tensor (Some sample_file) t \<longleftrightarrow> t \<noteq> ''sparse_linear.weight''" for t
    by (simp add: has_tensor_def sample_file_def)
  then have none: "missing_tensor (Some sample_file) 1 = None"
    by (simp add: missing_tensor_def find_None_iff required_names_def layer_suffixes_def layer_name_def)
  have "copy_tensors sample_env (required_names 1) = Inr (map length (required_names 1))"
    by (rule copy_tensors_all) (simp add: sample_env_def)
  moreover obtain head layers where "bind_weights (map length (required_names 1)) 1 = Some (head, layers)"
    by (simp add: bind_weights_def Let_def)
  ultimately show ?thesis
    using assms none by (simp add: load_tensors_def) (simp add: sample_env_def)
qed

lemma sample_session:
  "\<exists>s. session_load (\<lambda>_. Some sample_file) sample_env (Some ''m.gguf'') 0 session_new = Inr s \<and> max_length (s_tok s) = 16"
proof -
  from sample_opens obtain hp ids where
    op: "weights_open (\<lambda>_. Some sample_file) (Some ''m.gguf'') = Inr (Some sample_file, hp, ids)"
    and hp: "n_vocab hp = 10" "n_layer hp = 1" "n_pos hp = 16" by blast
  from sample_loads [OF hp(2)] obtain head layers where
    lt: "load_tensors sample_env (Some sample_file) hp False = Inr (head, layers, hp\<lparr>n_type := 2\<rparr>)" by blast
  have "get_str (Some sample_file) ''tokenizer.ggml.model'' = None"
    by (simp add: get_str_def sample_key) (simp add: find_key_def sample_header_def)
  moreover have "\<exists>tokens. get_arr_str (Some sample_file) ''tokenizer.ggml.tokens'' = Some tokens \<and> length tokens = 10"
    by (simp add: get_arr_str_def find_key_def sample_file_def)
  ultimately obtain tokens where cv: "check_vocab (Some sample_file) (hp\<lparr>n_type := 2\<rparr>) = Inr tokens"
    and len: "length tokens = 10"
    using hp(1) by (auto simp: check_vocab_def check_tokenizer_model_def need_def)
  from len have "tokens \<noteq> []" by auto
  from session_vocab_ids [OF this] len obtain tok where
    "session_vocab (Some sample_file) tokens (capped_length 0 (hp\<lparr>n_type := 2\<rparr>))
       (s_tok (session_new :: (nat, int) session)) = ((True, []), tok)"
    "0 \<le> pad_token_id tok \<and> pad_token_id tok < 10" "max_length tok = 16"
    using hp(3) by (fastforce simp: capped_length_def)
  with op lt cv hp(1) show ?thesis
    by (auto simp: session_load_def sample_accepted)
qed

text \<open>The bound that keeps the number of tokens of a batch an \<open>int\<close>.\<close>

definition batch_fits :: "('t, 'f) session \<Rightarrow> string list \<Rightarrow> int \<Rightarrow> bool" where
  "batch_fits s texts batch_size \<longleftrightarrow> min (max 1 batch_size) (int (length texts)) * max_length (s_tok s) \<le> INT_MAX"

lemma session_embed_keeps:
  assumes "session_embed ln' build_ok compute neg texts batch_size s = Inr (rs, s')"
  shows "same_session s s' \<and> clean (s_special s) rs \<and> (s_weights s \<noteq> None \<longrightarrow> length rs = length texts)"
proof (cases "texts = [] \<or> s_weights s = None")
  case False
  let ?bs = "nat (if batch_size \<le> 0 then 1 else batch_size)"
  have "embed_chunks ln' build_ok compute neg ?bs texts s = Inr (rs, s')" using assms False by (auto simp: session_embed_def)
  moreover have "0 < ?bs" by simp
  ultimately show ?thesis using embed_chunks_keeps by blast
qed (use assms in \<open>auto simp: session_embed_def clean_def\<close>)

lemma session_embed_returns:
  assumes "0 < max_length (s_tok s)" and "batch_fits s texts batch_size"
  shows "\<exists>rs s'. session_embed ln' build_ok compute neg texts batch_size s = Inr (rs, s')"
proof -
  let ?bs = "nat (if batch_size \<le> 0 then 1 else batch_size)"
  have "int (min ?bs (length texts)) = min (max 1 batch_size) (int (length texts))" by auto
  then have "int (min ?bs (length texts)) * max_length (s_tok s) \<le> INT_MAX" using assms(2) by (simp add: batch_fits_def)
  moreover have "0 < ?bs" by simp
  ultimately show ?thesis using embed_chunks_returns [OF assms(1)] by (auto simp: session_embed_def)
qed

text \<open>A session after its load and any number of embedding calls that returned.\<close>

inductive session_after :: "('f::{linorder,zero,one,plus} \<Rightarrow> 'f) \<Rightarrow> (nat \<Rightarrow> nat \<Rightarrow> bool) \<Rightarrow> ('t, 'f) compute \<Rightarrow> 'f \<Rightarrow> ('t, 'f) session
    \<Rightarrow> ('t, 'f) session \<Rightarrow> bool" for ln' build_ok compute neg s0 where
  loaded: "session_after ln' build_ok compute neg s0 s0"
| embedded: "session_after ln' build_ok compute neg s0 s \<Longrightarrow> session_embed ln' build_ok compute neg texts batch_size s = Inr (rs, s')
    \<Longrightarrow> session_after ln' build_ok compute neg s0 s'"

lemma session_after_same: "session_after ln' build_ok compute neg s0 s \<Longrightarrow> same_session s0 s"
  by (induction rule: session_after.induct) (auto dest: session_embed_keeps intro: same_session_trans)

lemma session_loaded:
  assumes "session_load parse env path ml session_new = Inr s"
  shows "0 < max_length (s_tok s) \<and> s_weights s \<noteq> None \<and> graph_current s"
  using session_load_tok [OF assms] by (auto simp: session_new_def graph_current_def)

lemma session_embed_spec:
  assumes "session_load parse env path ml session_new = Inr s" and "batch_fits s texts batch_size"
  shows "\<exists>rs s'. session_embed ln' build_ok compute neg texts batch_size s = Inr (rs, s') \<and>
    length rs = length texts \<and> clean (s_special s) rs \<and> graph_current s'"
proof -
  note l = session_loaded [OF assms(1)]
  then obtain rs s' where run: "session_embed ln' build_ok compute neg texts batch_size s = Inr (rs, s')"
    using session_embed_returns [OF _ assms(2)] by metis
  with session_embed_keeps [OF run] l show ?thesis by (auto simp: same_session_def)
qed

section \<open>Properties\<close>



text \<open>C19. A session that was loaded once stays usable over any number of embedding calls, until it is loaded again:
  as long as the tokens of a batch can be counted in an \<open>int\<close>, each further call returns one sparse vector per text,
  for any batch size and whether or not graphs build and compute; no vector carries a special id of the file; the
  weights, the tokenizer and the special ids stay those of the load, and the cached graph is always one built on
  these weights.\<close>

theorem session_embed_correct:
  assumes "session_load parse env path ml session_new = Inr s0" and "session_after ln' build_ok compute neg s0 s"
    and "batch_fits s0 texts batch_size"
  shows "\<exists>rs s'. session_embed ln' build_ok compute neg texts batch_size s = Inr (rs, s') \<and>
    length rs = length texts \<and> (\<forall>r \<in> set rs. \<forall>i \<in> set (indices r). int i \<notin> set (s_special s0)) \<and>
    s_weights s' = s_weights s0 \<and> s_tok s' = s_tok s0 \<and> s_special s' = s_special s0 \<and>
    (\<forall>n b w. s_graph s' = Some (n, b, w) \<longrightarrow> s_weights s0 = Some w)"
proof -
  note l = session_loaded [OF assms(1)] and same = session_after_same [OF assms(2)]
  then have "0 < max_length (s_tok s)" "batch_fits s texts batch_size" using assms(3) by (simp_all add: same_session_def batch_fits_def)
  then obtain rs s' where run: "session_embed ln' build_ok compute neg texts batch_size s = Inr (rs, s')"
    using session_embed_returns by metis
  with session_embed_keeps [OF run] l same show ?thesis
    by (auto simp: same_session_def clean_def graph_current_def)
qed

theorem session_embed_correct_witness:
  "\<exists>s s1 rs rs' s'. session_load (\<lambda>_. Some sample_file) sample_env (Some ''m.gguf'') 0 session_new = Inr s \<and>
     session_embed (\<lambda>x. x) (\<lambda>_ _. True) (\<lambda>_ _ _ _ _ _. None) 0 [''a'', ''b'', ''c''] 2 s = Inr (rs, s1) \<and>
     session_embed (\<lambda>x. x) (\<lambda>_ _. True) (\<lambda>_ _ _ _ _ _. None) 0 [''b''] 0 s1 = Inr (rs', s') \<and> length rs' = 1"
proof -
  obtain s where s: "session_load (\<lambda>_. Some sample_file) sample_env (Some ''m.gguf'') 0 session_new = Inr s" "max_length (s_tok s) = 16"
    using sample_session by blast
  then have fits: "batch_fits s texts b" if "length texts \<le> 3" for texts b
    using that by (auto simp: batch_fits_def INT_MAX_def)
  let ?after = "session_after (\<lambda>x. x) (\<lambda>_ _. True) (\<lambda>_ _ _ _ _ _. None) 0 s"
  note correct = session_embed_correct [OF s(1), of "\<lambda>x. x" "\<lambda>_ _. True" "\<lambda>_ _ _ _ _ _. None" 0]
  have "?after s" by (rule session_after.loaded)
  from correct [OF this fits, of "[''a'', ''b'', ''c'']" 2] obtain rs s1 where
    one: "session_embed (\<lambda>x. x) (\<lambda>_ _. True) (\<lambda>_ _ _ _ _ _. None) 0 [''a'', ''b'', ''c''] 2 s = Inr (rs, s1)" by auto
  have "?after s1" using session_after.embedded [OF session_after.loaded one] .
  from correct [OF this fits, of "[''b'']" 0] one s(1) show ?thesis by auto
qed

text \<open>No row of the attention mask of a document is all minus infinity, so the softmax is always
  defined: a document with real tokens masks exactly its padding keys, one without any leaves the
  diagonal open.\<close>

theorem mask_rows_open:
  assumes "i < length vb"
  shows "(\<exists>j < length vb. mask_plane neg vb ! i ! j = 0) \<and> length (mask_plane neg vb ! i) = length vb \<and>
    ((\<exists>v \<in> set vb. v \<noteq> 0) \<longrightarrow> (\<forall>j < length vb. mask_plane neg vb ! i ! j = (if vb ! j \<noteq> 0 then 0 else neg)))"
proof (cases "\<exists>v \<in> set vb. v \<noteq> 0")
  case True
  then obtain j where "j < length vb" "vb ! j \<noteq> 0" by (metis in_set_conv_nth)
  with True assms show ?thesis by (auto simp: mask_plane_def Let_def list_ex_iff)
next
  case False
  with assms show ?thesis by (auto simp: mask_plane_def Let_def list_ex_iff intro!: exI [of _ i])
qed

theorem mask_rows_open_witness:
  "\<exists>j < 3. mask_plane (-1) [0, 1, 0] ! 2 ! j = (0::int)"
  using mask_rows_open [of 2 "[0, 1, 0]" "-1::int"] by (auto simp: numeral_3_eq_3)

end
