(* ===== verification/Scheduler.thy ===== *)
theory Scheduler
  imports Prelude Batching
begin

text \<open>The dynamic batching scheduler of the llama.cpp session pool
  (\<open>detail/llama_scheduler_impl.hpp\<close>): client threads queue requests, one worker thread takes up to
  \<open>max_batch_size_\<close> of them under the lock, runs the callback outside it and fulfils the promises. Each
  critical section is one step; the steps of the clients, of the worker and of \<open>stop\<close> interleave
  freely. A request is identified by its ticket, the position of its \<open>push\<close>.\<close>

section \<open>State\<close>

datatype 'v outcome = Value "'v list" | Failed string

record 'v sched =
  waiting :: "(nat \<times> string) list"
  holding :: "(nat \<times> string) list"
  fulfilled :: "(nat \<times> 'v outcome) list"
  next_ticket :: nat
  max_batch_size :: int
  stopping :: bool
  exited :: bool

definition sched_new :: "int \<Rightarrow> 'v sched" where
  "sched_new limit = \<lparr>waiting = [], holding = [], fulfilled = [], next_ticket = 0, max_batch_size = limit,
     stopping = False, exited = False\<rparr>"

section \<open>Operations\<close>

text \<open>The inner loop of the worker: \<open>while (!requests_.empty() && (int)batch.size() < max_batch_size_)\<close>.\<close>

fun take_batch :: "(nat \<times> string) list \<Rightarrow> (nat \<times> string) list \<Rightarrow> int \<Rightarrow>
    (nat \<times> string) list \<times> (nat \<times> string) list" where
  "take_batch [] batch limit = (batch, [])"
| "take_batch (r # q) batch limit =
     (if int (length batch) < limit then take_batch q (batch @ [r]) limit else (batch, r # q))"

text \<open>The worker from the head of its loop to the end of its critical section. \<open>stop_\<close> is read twice,
  and both reads leave the loop.\<close>

definition wake :: "'v sched \<Rightarrow> 'v sched" where
  "wake s =
     (if stopping s then s\<lparr>exited := True\<rparr>
      else if waiting s = [] then s
      else case take_batch (waiting s) [] (max_batch_size s) of
        (batch, q) \<Rightarrow> s\<lparr>holding := batch, waiting := q\<rparr>)"

text \<open>\<open>std::current_exception()\<close> is null outside a handler, and the loop that fulfils the promises runs
  after the \<open>catch\<close> block has ended.\<close>

definition current_exception :: "string option" where "current_exception = None"

definition run_callback :: "(string list \<Rightarrow> 'v list list option) \<Rightarrow> string list \<Rightarrow> 'v list list" where
  "run_callback cb texts = (case cb texts of Some es \<Rightarrow> es | None \<Rightarrow> replicate (length texts) [])"

definition outcome_at :: "'v list list \<Rightarrow> nat \<Rightarrow> 'v outcome" where
  "outcome_at es i =
     (if i < length es \<and> es ! i \<noteq> [] then Value (es ! i)
      else case current_exception of Some e \<Rightarrow> Failed e | None \<Rightarrow> Failed ''Empty embedding'')"

definition process :: "(string list \<Rightarrow> 'v list list option) \<Rightarrow> 'v sched \<Rightarrow> 'v sched" where
  "process cb s =
     (let batch = holding s; es = run_callback cb (map snd batch)
      in s\<lparr>holding := [],
           fulfilled := fulfilled s @ map (\<lambda>i. (fst (batch ! i), outcome_at es i)) [0..<length batch]\<rparr>)"

text \<open>A future is the ticket of its shared state, or \<open>None\<close> once it has been moved from. \<open>get\<close> on a
  future without a shared state throws.\<close>

definition move_future :: "nat option \<Rightarrow> nat option \<times> nat option" where
  "move_future f = (f, None)"

fun future_get :: "nat option \<Rightarrow> 'v sched \<Rightarrow> string + 'v list option" where
  "future_get None s = Inl ''No associated state''"
| "future_get (Some t) s =
     (case map_of (fulfilled s) t of
        None \<Rightarrow> Inr None
      | Some (Value v) \<Rightarrow> Inr (Some v)
      | Some (Failed e) \<Rightarrow> Inl e)"

text \<open>\<open>submit\<close> up to the end of its critical section: the new state and the local future, which the
  \<open>push\<close> has moved into the queued request; the call then returns \<open>future_get\<close> of it.\<close>

definition submit :: "string \<Rightarrow> 'v sched \<Rightarrow> 'v sched \<times> nat option" where
  "submit text s =
     (case move_future (Some (next_ticket s)) of
        (_, f) \<Rightarrow> (s\<lparr>waiting := waiting s @ [(next_ticket s, text)], next_ticket := next_ticket s + 1\<rparr>, f))"

definition stop :: "'v sched \<Rightarrow> 'v sched" where
  "stop s = s\<lparr>stopping := True\<rparr>"

definition set_max_batch_size :: "int \<Rightarrow> 'v sched \<Rightarrow> 'v sched" where
  "set_max_batch_size n s = s\<lparr>max_batch_size := n\<rparr>"

inductive sched_move :: "(string list \<Rightarrow> 'v list list option) \<Rightarrow> 'v sched \<Rightarrow> 'v sched \<Rightarrow> bool" for cb where
  Wake: "\<not> exited s \<Longrightarrow> holding s = [] \<Longrightarrow> sched_move cb s (wake s)"
| Process: "\<not> exited s \<Longrightarrow> holding s \<noteq> [] \<Longrightarrow> sched_move cb s (process cb s)"
| Stop: "sched_move cb s (stop s)"
| Resize: "sched_move cb s (set_max_batch_size n s)"

inductive_cases sched_moveE: "sched_move cb s t"

text \<open>A run from the constructor; the log lists the submitted texts, so a ticket is an index of it.\<close>

inductive sched_run :: "(string list \<Rightarrow> 'v list list option) \<Rightarrow> int \<Rightarrow> string list \<Rightarrow> 'v sched \<Rightarrow> bool"
  for cb limit where
  Start: "sched_run cb limit [] (sched_new limit)"
| Submit: "sched_run cb limit log s \<Longrightarrow> sched_run cb limit (log @ [text]) (fst (submit text s))"
| Move: "sched_run cb limit log s \<Longrightarrow> sched_move cb s t \<Longrightarrow> sched_run cb limit log t"

text \<open>The pool's callback embeds text by text, and the first failure is thrown.\<close>

fun pool_callback :: "(string \<Rightarrow> 'v list option) \<Rightarrow> string list \<Rightarrow> 'v list list option" where
  "pool_callback embed1 [] = Some []"
| "pool_callback embed1 (t # ts) =
     (case embed1 t of None \<Rightarrow> None
      | Some v \<Rightarrow> (case pool_callback embed1 ts of None \<Rightarrow> None | Some vs \<Rightarrow> Some (v # vs)))"

definition embed_scheduled :: "'v sched option \<Rightarrow> string \<Rightarrow> string + ('v sched \<times> nat option)" where
  "embed_scheduled sch text =
     (case sch of None \<Rightarrow> Inl ''LlamaSessionPool: scheduler not enabled'' | Some s \<Rightarrow> Inr (submit text s))"

text \<open>The worker on its own, a round at a time.\<close>

fun worker_rounds :: "(string list \<Rightarrow> 'v list list option) \<Rightarrow> nat \<Rightarrow> 'v sched \<Rightarrow> 'v sched" where
  "worker_rounds cb 0 s = s"
| "worker_rounds cb (Suc n) s =
     (let s' = wake s in worker_rounds cb n (if holding s' = [] then s' else process cb s'))"

lemmas sched_defs = wake_def process_def submit_def stop_def set_max_batch_size_def Let_def

section \<open>Invariants\<close>

lemma take_batch_spec:
  "take_batch q b limit = (b', q') \<Longrightarrow>
     b' @ q' = b @ q \<and> (int (length b) \<le> limit \<longrightarrow> int (length b') \<le> limit) \<and>
     (int (length b) < limit \<and> q \<noteq> [] \<longrightarrow> length b < length b')"
proof (induction q b limit rule: take_batch.induct)
  case (2 r q batch limit)
  show ?case
  proof (cases "int (length batch) < limit")
    case True
    with 2 show ?thesis by (cases q) (auto split: if_splits)
  qed (use 2 in auto)
qed simp

text \<open>Every ticket is in exactly one place, the places are in the order of the tickets, and a request
  that is not fulfilled still carries its text.\<close>

definition sched_inv :: "string list \<Rightarrow> 'v sched \<Rightarrow> bool" where
  "sched_inv log s \<longleftrightarrow>
     map fst (fulfilled s) @ map fst (holding s) @ map fst (waiting s) = [0..<length log] \<and>
     next_ticket s = length log \<and> (\<forall>r \<in> set (holding s) \<union> set (waiting s). log ! fst r = snd r)"

lemma sched_inv_new [inv_intros]: "sched_inv [] (sched_new limit)"
  by (simp add: sched_inv_def sched_new_def)

lemma sched_inv_submit [inv_intros]:
  assumes "sched_inv log s" shows "sched_inv (log @ [text]) (fst (submit text s))"
proof -
  have t: "map fst (fulfilled s) @ map fst (holding s) @ map fst (waiting s) = [0..<length log]"
    using assms by (simp add: sched_inv_def)
  have "fst r < length log" if "r \<in> set (holding s) \<union> set (waiting s)" for r
  proof -
    from that have "fst r \<in> set (map fst (fulfilled s) @ map fst (holding s) @ map fst (waiting s))" by auto
    then show ?thesis unfolding t by simp
  qed
  with assms t show ?thesis by (auto simp: sched_inv_def submit_def move_future_def nth_append)
qed

lemma sched_inv_wake [inv_intros]:
  assumes "sched_inv log s" and "holding s = []" shows "sched_inv log (wake s)"
proof -
  obtain b q where t: "take_batch (waiting s) [] (max_batch_size s) = (b, q)" by fastforce
  from take_batch_spec [OF t] have w: "waiting s = b @ q" by simp
  show ?thesis
  proof (cases "stopping s \<or> waiting s = []")
    case True
    with assms(1) show ?thesis by (auto simp: wake_def sched_inv_def)
  next
    case False
    have "map fst (waiting s) = map fst b @ map fst q" "set (waiting s) = set b \<union> set q" by (simp_all add: w)
    with False assms t show ?thesis by (simp add: wake_def sched_inv_def)
  qed
qed

lemma process_tickets: "map fst (fulfilled (process cb s)) = map fst (fulfilled s) @ map fst (holding s)"
  by (auto simp: process_def Let_def comp_def intro!: nth_equalityI)

lemma process_frame [simp]:
  "waiting (process cb s) = waiting s" "holding (process cb s) = []" "next_ticket (process cb s) = next_ticket s"
  "stopping (process cb s) = stopping s" "exited (process cb s) = exited s"
  "max_batch_size (process cb s) = max_batch_size s"
  by (simp_all add: process_def Let_def)

lemma sched_inv_process [inv_intros]: "sched_inv log s \<Longrightarrow> sched_inv log (process cb s)"
  using process_tickets [of cb s] by (simp add: sched_inv_def)

lemma sched_inv_move [inv_intros]: "sched_move cb s t \<Longrightarrow> sched_inv log s \<Longrightarrow> sched_inv log t"
  by (erule sched_moveE)
    (auto intro: sched_inv_wake sched_inv_process, simp_all add: sched_inv_def stop_def set_max_batch_size_def)

lemma sched_run_inv: "sched_run cb limit log s \<Longrightarrow> sched_inv log s"
  by (induction rule: sched_run.induct) (auto intro: inv_intros)

lemma fulfilled_frame:
  "fulfilled (wake s) = fulfilled s" "fulfilled (fst (submit text s)) = fulfilled s"
  "fulfilled (stop s) = fulfilled s" "fulfilled (set_max_batch_size n s) = fulfilled s"
  by (simp_all add: sched_defs move_future_def split: prod.split)

lemma fulfilled_ticket:
  assumes "sched_inv log s" and "i < length (fulfilled s)"
  shows "fst (fulfilled s ! i) = i" "i < length log"
proof -
  have t: "map fst (fulfilled s) @ map fst (holding s) @ map fst (waiting s) = [0..<length log]" (is "?l = ?r")
    using assms by (simp add: sched_inv_def)
  have "length ?l = length log" using t by simp
  then show "i < length log" using assms(2) by simp
  then have "?l ! i = i" unfolding t by simp
  then show "fst (fulfilled s ! i) = i" using assms(2) by (simp add: nth_append)
qed

section \<open>What a callback promises\<close>

text \<open>A callback serves \<open>one\<close> when a batch succeeds exactly when every text of it does, with the same
  vectors. \<open>history\<close> is what each ticket was submitted with.\<close>

locale batch_service =
  fixes cb :: "string list \<Rightarrow> 'v list list option" and one :: "string \<Rightarrow> 'v list option"
  assumes cb_Some: "cb ts = Some vs \<Longrightarrow> length vs = length ts \<and> (\<forall>i < length ts. one (ts ! i) = Some (vs ! i))"
    and cb_None: "cb ts = None \<Longrightarrow> \<exists>t \<in> set ts. one t = None"
begin

lemma value_is_one:
  assumes "i < length ts" and "outcome_at (run_callback cb ts) i = Value v"
  shows "one (ts ! i) = Some v"
proof (cases "cb ts")
  case None
  with assms show ?thesis by (auto simp: outcome_at_def run_callback_def current_exception_def split: if_splits)
next
  case (Some vs)
  from cb_Some [OF this] assms Some show ?thesis
    by (auto simp: outcome_at_def run_callback_def current_exception_def split: if_splits)
qed

lemma failed_is_empty:
  assumes "i < length ts" and "outcome_at (run_callback cb ts) i = Failed e"
  shows "e = ''Empty embedding'' \<and> (\<exists>t \<in> set ts. one t = None \<or> one t = Some [])"
proof (cases "cb ts")
  case None
  from cb_None [OF this] None assms show ?thesis
    by (auto simp: outcome_at_def run_callback_def current_exception_def)
next
  case (Some vs)
  from cb_Some [OF this] assms Some show ?thesis
    by (auto simp: outcome_at_def run_callback_def current_exception_def split: if_splits) (metis nth_mem)
qed

text \<open>What the promises of a run hold, by rule induction over the run.\<close>

definition faithful :: "string list \<Rightarrow> nat \<times> 'v outcome \<Rightarrow> bool" where
  "faithful log r \<longleftrightarrow> (case snd r of
     Value v \<Rightarrow> one (log ! fst r) = Some v
   | Failed e \<Rightarrow> e = ''Empty embedding'' \<and> (\<exists>t \<in> set log. one t = None \<or> one t = Some []))"

lemma faithful_process:
  assumes "sched_inv log s" and "\<forall>r \<in> set (fulfilled s). faithful log r"
  shows "\<forall>r \<in> set (fulfilled (process cb s)). faithful log r"
proof
  fix r assume "r \<in> set (fulfilled (process cb s))"
  then consider "r \<in> set (fulfilled s)" | i where "i < length (holding s)"
    "r = (fst (holding s ! i), outcome_at (run_callback cb (map snd (holding s))) i)"
    by (auto simp: process_def Let_def)
  then show "faithful log r"
  proof cases
    case (2 i)
    have texts: "log ! fst x = snd x" if "x \<in> set (holding s)" for x
      using assms(1) that by (simp add: sched_inv_def)
    have "map fst (fulfilled s) @ map fst (holding s) @ map fst (waiting s) = [0..<length log]"
      using assms(1) by (simp add: sched_inv_def)
    then have "set (map fst (holding s)) \<subseteq> {0..<length log}" by (metis set_append set_upt Un_upper1 Un_upper2 order_trans)
    then have sub: "set (map snd (holding s)) \<subseteq> set log" using texts by force
    show ?thesis
    proof (cases "outcome_at (run_callback cb (map snd (holding s))) i")
      case (Value v)
      from value_is_one [OF _ Value] 2 texts [of "holding s ! i"] Value show ?thesis by (simp add: faithful_def)
    next
      case (Failed e)
      from failed_is_empty [OF _ Failed] 2 sub Failed show ?thesis by (auto simp: faithful_def)
    qed
  qed (use assms(2) in blast)
qed

lemma faithful_grow: "fst r < length log \<Longrightarrow> faithful log r \<Longrightarrow> faithful (log @ [text]) r"
  by (auto simp: faithful_def nth_append split: outcome.splits)

lemma run_faithful: "sched_run cb limit log s \<Longrightarrow> \<forall>r \<in> set (fulfilled s). faithful log r"
proof (induction rule: sched_run.induct)
  case (Submit log s x)
  then show ?case using fulfilled_ticket [OF sched_run_inv [OF Submit.hyps]]
    by (metis faithful_grow fulfilled_frame(2) in_set_conv_nth)
next
  case (Move log s t)
  from Move.hyps(2) show ?case
    by (cases rule: sched_move.cases)
       (use Move.IH faithful_process [OF sched_run_inv [OF Move.hyps(1)]] in \<open>auto simp: fulfilled_frame\<close>)
qed (simp add: sched_new_def)

end

interpretation pool: batch_service "pool_callback embed1" embed1
  for embed1 :: "string \<Rightarrow> 'v list option"
proof
  show "pool_callback embed1 ts = Some vs \<Longrightarrow>
      length vs = length ts \<and> (\<forall>i < length ts. embed1 (ts ! i) = Some (vs ! i))" for ts vs
    by (induction ts arbitrary: vs) (auto split: option.splits simp: nth_Cons' less_Suc_eq_0_disj)
  show "pool_callback embed1 ts = None \<Longrightarrow> \<exists>t \<in> set ts. embed1 t = None" for ts
    by (induction ts) (auto split: option.splits)
qed

section \<open>Draining\<close>

lemma wake_takes:
  assumes "0 < max_batch_size s" and "\<not> stopping s" and "waiting s \<noteq> []"
  shows "holding (wake s) \<noteq> [] \<and> holding (wake s) @ waiting (wake s) = waiting s \<and>
    int (length (holding (wake s))) \<le> max_batch_size s \<and> fulfilled (wake s) = fulfilled s \<and>
    stopping (wake s) = False \<and> max_batch_size (wake s) = max_batch_size s"
proof -
  obtain b q where t: "take_batch (waiting s) [] (max_batch_size s) = (b, q)" by fastforce
  from take_batch_spec [OF t] assms t show ?thesis by (auto simp: wake_def)
qed

lemma worker_rounds_idle:
  "waiting s = [] \<Longrightarrow> holding s = [] \<Longrightarrow> \<not> stopping s \<Longrightarrow> worker_rounds cb n s = s"
  by (induction n) (simp_all add: wake_def Let_def)

lemma worker_rounds_drain:
  assumes "0 < max_batch_size s" and "\<not> stopping s" and "holding s = []" and "length (waiting s) \<le> n"
  shows "waiting (worker_rounds cb n s) = [] \<and> holding (worker_rounds cb n s) = [] \<and>
    map fst (fulfilled (worker_rounds cb n s)) = map fst (fulfilled s) @ map fst (waiting s)"
  using assms
proof (induction n arbitrary: s)
  case (Suc n)
  show ?case
  proof (cases "waiting s = []")
    case True
    with Suc.prems worker_rounds_idle [of s cb "Suc n"] show ?thesis by simp
  next
    case False
    note w = wake_takes [OF Suc.prems(1,2) False]
    let ?s = "process cb (wake s)"
    have "length (holding (wake s)) + length (waiting (wake s)) = length (waiting s)"
      using w by (metis length_append)
    then have "length (waiting ?s) \<le> n" using Suc.prems(4) w by (cases "holding (wake s)") auto
    from Suc.IH [of ?s] this w Suc.prems(1)
    have "waiting (worker_rounds cb n ?s) = [] \<and> holding (worker_rounds cb n ?s) = [] \<and>
      map fst (fulfilled (worker_rounds cb n ?s)) = map fst (fulfilled ?s) @ map fst (waiting ?s)" by simp
    moreover have "map fst (fulfilled ?s) @ map fst (waiting ?s) = map fst (fulfilled s) @ map fst (waiting s)"
      using w process_tickets [of cb "wake s"] by (metis append.assoc map_append process_frame(1))
    ultimately show ?thesis using w by (simp add: Let_def)
  qed
qed simp

section \<open>Properties\<close>

text \<open>C1. The scheduler serves every request exactly once and in order: in any interleaving of
  submitters, worker, stop and resizing, each ticket is fulfilled, held by the worker or waiting, in
  the order of submission; and what a promise holds is what embedding its own text gives, or the error
  of an empty embedding, which needs a text that does not embed.\<close>

theorem scheduler_faithful:
  assumes "sched_run (pool_callback embed1) limit log s"
  shows "map fst (fulfilled s) @ map fst (holding s) @ map fst (waiting s) = [0..<length log] \<and>
    (\<forall>r \<in> set (fulfilled s). case snd r of
       Value v \<Rightarrow> embed1 (log ! fst r) = Some v
     | Failed e \<Rightarrow> e = ''Empty embedding'' \<and> (\<exists>t \<in> set log. embed1 t = None \<or> embed1 t = Some []))"
proof
  show "map fst (fulfilled s) @ map fst (holding s) @ map fst (waiting s) = [0..<length log]"
    using sched_run_inv [OF assms] by (simp add: sched_inv_def)
  show "\<forall>r \<in> set (fulfilled s). case snd r of
       Value v \<Rightarrow> embed1 (log ! fst r) = Some v
     | Failed e \<Rightarrow> e = ''Empty embedding'' \<and> (\<exists>t \<in> set log. embed1 t = None \<or> embed1 t = Some [])"
    using pool.run_faithful [OF assms] by (simp add: pool.faithful_def)
qed

definition sample_embed :: "string \<Rightarrow> nat list option" where
  "sample_embed t = (if t = ''bad'' then None else Some [length t])"

definition sample_after_submits :: "nat sched" where
  "sample_after_submits = fst (submit ''abc'' (fst (submit ''a'' (sched_new 1))))"

definition sample_done :: "nat sched" where
  "sample_done = process (pool_callback sample_embed) (wake sample_after_submits)"

lemma sample_run: "sched_run (pool_callback sample_embed) 1 ([''a''] @ [''abc'']) sample_done"
proof -
  have "sched_run (pool_callback sample_embed) 1 (([] @ [''a'']) @ [''abc'']) sample_after_submits"
    unfolding sample_after_submits_def by (intro sched_run.Submit sched_run.Start)
  then have w: "sched_run (pool_callback sample_embed) 1 ([''a''] @ [''abc'']) (wake sample_after_submits)"
    by (intro sched_run.Move [OF _ sched_move.Wake])
       (simp_all add: sample_after_submits_def submit_def move_future_def sched_new_def)
  then show ?thesis unfolding sample_done_def
    by (rule sched_run.Move [OF _ sched_move.Process])
       (simp_all add: sample_after_submits_def submit_def move_future_def sched_new_def wake_def)
qed

theorem scheduler_faithful_witness:
  "fulfilled sample_done = [(0, Value [1])] \<and>
   map fst (fulfilled sample_done) @ map fst (holding sample_done) @ map fst (waiting sample_done) = [0, 1]"
proof
  show "fulfilled sample_done = [(0, Value [1])]"
    by (simp add: sample_done_def process_def Let_def wake_def sample_after_submits_def submit_def move_future_def
        sched_new_def run_callback_def outcome_at_def sample_embed_def)
  show "map fst (fulfilled sample_done) @ map fst (holding sample_done) @ map fst (waiting sample_done) = [0, 1]"
    using scheduler_faithful [OF sample_run] by simp
qed

text \<open>C25. With a positive batch size and no stop, the worker alone fulfils everything that waits: after
  as many rounds as there are requests nothing waits, nothing is held, and the promises were set in the
  order of the queue.\<close>

theorem scheduler_drains:
  assumes "0 < max_batch_size s" and "\<not> stopping s" and "holding s = []"
  shows "waiting (worker_rounds cb (length (waiting s)) s) = [] \<and>
    holding (worker_rounds cb (length (waiting s)) s) = [] \<and>
    map fst (fulfilled (worker_rounds cb (length (waiting s)) s)) = map fst (fulfilled s) @ map fst (waiting s)"
  by (rule worker_rounds_drain) (use assms in simp_all)

theorem scheduler_drains_witness:
  "map fst (fulfilled (worker_rounds (pool_callback sample_embed) (length (waiting sample_after_submits))
     sample_after_submits)) = [0, 1]"
proof -
  have "0 < max_batch_size sample_after_submits" "\<not> stopping sample_after_submits" "holding sample_after_submits = []"
    by (simp_all add: sample_after_submits_def submit_def move_future_def sched_new_def)
  from scheduler_drains [OF this, of "pool_callback sample_embed"] show ?thesis
    by (simp add: sample_after_submits_def submit_def move_future_def sched_new_def)
qed

text \<open>What the code loses: \<open>submit\<close> keeps a future that it has moved away, so whatever the worker does
  the call fails and never returns the embedding; a worker with a batch size below one takes nothing for
  ever; and once the worker has left its loop no promise is set any more, although requests may wait.\<close>

theorem scheduler_loses:
  "(case embed_scheduled (Some s) text of Inr (s', f) \<Rightarrow> future_get f t = Inl ''No associated state'' | Inl e \<Rightarrow> False) \<and>
   (max_batch_size s \<le> 0 \<longrightarrow> \<not> stopping s \<longrightarrow> holding s = [] \<longrightarrow> waiting (wake s) = waiting s \<and> holding (wake s) = []) \<and>
   (exited s \<longrightarrow> sched_move cb s s' \<longrightarrow> fulfilled s' = fulfilled s \<and> waiting s' = waiting s \<and> exited s')"
proof (intro conjI impI)
  show "case embed_scheduled (Some s) text of Inr (s', f) \<Rightarrow> future_get f t = Inl ''No associated state'' | Inl e \<Rightarrow> False"
    by (simp add: embed_scheduled_def submit_def move_future_def)
  show "waiting (wake s) = waiting s" "holding (wake s) = []"
    if "max_batch_size s \<le> 0" "\<not> stopping s" "holding s = []"
    using that by (cases "waiting s"; simp add: wake_def)+
  show "fulfilled s' = fulfilled s" "waiting s' = waiting s" "exited s'"
    if "exited s" "sched_move cb s s'"
    using that(2) by (cases rule: sched_move.cases; use that(1) in \<open>simp add: stop_def set_max_batch_size_def\<close>)+
qed

theorem scheduler_loses_witness:
  "\<exists>s :: nat sched. waiting s \<noteq> [] \<and> exited s \<and>
     waiting (wake (s\<lparr>exited := False, stopping := False, max_batch_size := 0\<rparr>)) = waiting s \<and>
     fulfilled (stop s) = fulfilled s"
proof -
  let ?s = "sample_after_submits\<lparr>exited := True\<rparr> :: nat sched"
  let ?z = "?s\<lparr>exited := False, stopping := False, max_batch_size := 0\<rparr>"
  have w: "waiting ?s \<noteq> []" "exited ?s" "holding ?z = []"
    by (simp_all add: sample_after_submits_def submit_def move_future_def sched_new_def)
  have "waiting (wake ?z) = waiting ?z"
    using scheduler_loses [where s = ?z, THEN conjunct2, THEN conjunct1, rule_format, OF _ _ w(3)] by simp
  moreover have "fulfilled (stop ?s) = fulfilled ?s"
    using scheduler_loses [where s = ?s and s' = "stop ?s" and cb = "pool_callback sample_embed"] w(2) sched_move.Stop by blast
  ultimately show ?thesis using w by (intro exI [of _ ?s]) simp
qed

end
