(* ===== verification/CacheText.thy ===== *)
theory CacheText
  imports Complex_Main Prelude "HOL-Library.Word"
begin

text \<open>The text cache of tuning results (\<open>detail/autotune_cache.hpp\<close>): file names, hashes, the
  line-oriented JSON accessors, the identity block of an entry, the atomic write and the clearing of
  entries. The file system is a list of paths with their contents; \<open>std::stod\<close> followed by
  \<open>isfinite\<close> is the argument \<open>stod\<close>, the number when both succeed. The branches for Windows are
  not modelled.\<close>

unbundle bit_operations_syntax

section \<open>Keys and paths\<close>

definition unsafe_for_key :: "char \<Rightarrow> bool" where
  "unsafe_for_key c \<longleftrightarrow> c = CHR ''/'' \<or> c = CHR 0x5C \<or> c = CHR '':'' \<or> c = CHR '' ''"

definition sanitize_for_key :: "string option \<Rightarrow> string" where
  "sanitize_for_key model_name =
     map (\<lambda>c. if unsafe_for_key c then CHR ''_'' else c) (case model_name of Some m \<Rightarrow> m | None \<Rightarrow> [])"

definition sanitize_brand :: "string \<Rightarrow> string" where
  "sanitize_brand brand =
     map (\<lambda>c. if c \<in> set '' ()@./'' then CHR ''_'' else c) (c_str brand)"

definition autotune_cache_dir :: "string option \<Rightarrow> string" where
  "autotune_cache_dir home =
     (case home of Some h \<Rightarrow> h @ ''/.cache/libembedding/autotune'' | None \<Rightarrow> ''./libembedding_autotune_cache'')"

text \<open>What the machine and the runtime report: \<open>HOME\<close>, the processor and the ONNX Runtime version.\<close>

record machine =
  home_dir :: "string option"
  brand :: string
  logical_cores :: int
  physical_cores :: int
  ort_major :: int
  ort_minor :: int

definition VERSION_MAJOR :: int where "VERSION_MAJOR = 1"

definition VERSION_MINOR :: int where "VERSION_MINOR = 11"

definition get_cache_key :: "machine \<Rightarrow> string option \<Rightarrow> string" where
  "get_cache_key m model_name =
     show_int (logical_cores m) @ ''x'' @ show_int (physical_cores m) @ ''_'' @ sanitize_brand (brand m) @ ''_'' @
     sanitize_for_key model_name @ ''_ort'' @ show_int (ort_major m) @ ''.'' @ show_int (ort_minor m) @
     ''_v'' @ show_int VERSION_MAJOR @ ''.'' @ show_int VERSION_MINOR"

definition get_cache_path :: "machine \<Rightarrow> string option \<Rightarrow> string \<Rightarrow> string \<Rightarrow> string" where
  "get_cache_path m model_name subdir variant =
     (let dir = autotune_cache_dir (home_dir m);
          dir = (if subdir \<noteq> [] then dir @ ''/'' @ subdir else dir);
          key = (case model_name of Some n \<Rightarrow> n | None \<Rightarrow> []);
          key = (if variant \<noteq> [] then key @ ''_'' @ variant else key)
      in dir @ ''/'' @ get_cache_key m (Some key) @ ''.json'')"

section \<open>Percentiles\<close>

definition percentile_sorted :: "'f::floor_ceiling list \<Rightarrow> 'f \<Rightarrow> 'f" where
  "percentile_sorted xs pct =
     (if xs = [] then 0
      else if length xs = 1 then xs ! 0
      else
        let rank = pct * of_nat (length xs - 1); lo = floor rank; hi = ceiling rank
        in if lo = hi then xs ! nat lo
           else xs ! nat lo + (xs ! nat hi - xs ! nat lo) * (rank - of_int lo))"

section \<open>FNV-1a\<close>

definition fnv_prime :: "64 word" where "fnv_prime = 1099511628211"

definition fnv_offset :: "64 word" where "fnv_offset = 1469598103934665603"

definition fnv_step :: "64 word \<Rightarrow> nat \<Rightarrow> 64 word" where
  "fnv_step h b = (h XOR of_nat b) * fnv_prime"

fun fnv1a_update :: "64 word \<Rightarrow> string \<Rightarrow> 64 word" where
  "fnv1a_update h [] = h"
| "fnv1a_update h (c # cs) = fnv1a_update (fnv_step h (byte c)) cs"

definition hex_digit :: "nat \<Rightarrow> char" where
  "hex_digit d = (if d < 10 then chr (48 + d) else chr (87 + d))"

fun hex_fixed :: "nat \<Rightarrow> nat \<Rightarrow> string" where
  "hex_fixed 0 n = []"
| "hex_fixed (Suc k) n = hex_fixed k (n div 16) @ [hex_digit (n mod 16)]"

definition hash64_to_hex :: "64 word \<Rightarrow> string" where
  "hash64_to_hex h = hex_fixed 16 (unat h)"

definition mix_length :: "64 word \<Rightarrow> nat \<Rightarrow> 64 word" where
  "mix_length h len = foldl (\<lambda>h b. fnv_step h ((len div 2 ^ (8 * b)) mod 256)) h [0..<8]"

fun fingerprint_loop :: "64 word \<Rightarrow> string list \<Rightarrow> 64 word" where
  "fingerprint_loop h [] = h"
| "fingerprint_loop h (t # ts) = fingerprint_loop (fnv1a_update (mix_length h (length t)) t) ts"

text \<open>The overload for a vector, and the one for C strings, where a null pointer counts as the empty
  string and a text ends at its NUL.\<close>

definition corpus_fingerprint :: "string list \<Rightarrow> string" where
  "corpus_fingerprint corpus = hash64_to_hex (fingerprint_loop fnv_offset corpus)"

definition corpus_fingerprint_c :: "string option list \<Rightarrow> string" where
  "corpus_fingerprint_c texts =
     hash64_to_hex (fingerprint_loop fnv_offset (map (\<lambda>t. case t of Some s \<Rightarrow> c_str s | None \<Rightarrow> []) texts))"

section \<open>Identity of an entry\<close>

record cache_identity =
  id_model :: string
  id_variant :: string
  id_corpus :: string
  id_objective :: int
  id_mode :: int

definition identity_default :: cache_identity where
  "identity_default = \<lparr>id_model = [], id_variant = [], id_corpus = [], id_objective = -1, id_mode = -1\<rparr>"

definition cache_variant_key :: "string option \<Rightarrow> string \<Rightarrow> int \<Rightarrow> int \<Rightarrow> string" where
  "cache_variant_key variant corpus objective mode =
     (let ident = (case variant of Some v \<Rightarrow> v | None \<Rightarrow> ''default'') @ ''|'' @ corpus @ ''|'' @
                  show_int objective @ ''|'' @ show_int mode
      in take 12 (hash64_to_hex (fnv1a_update fnv_offset ident)))"

section \<open>Line-oriented JSON\<close>

abbreviation (input) QUOTE :: char where "QUOTE \<equiv> CHR 0x22"

definition is_trimmed :: "char \<Rightarrow> bool" where
  "is_trimmed c \<longleftrightarrow> c = CHR '' '' \<or> c = QUOTE \<or> c = CHR '',''"

definition trim_json_value :: "string \<Rightarrow> string" where
  "trim_json_value s = rev (dropWhile is_trimmed (rev (dropWhile is_trimmed s)))"

definition json_value_span :: "string \<Rightarrow> string \<Rightarrow> (nat \<times> nat) option" where
  "json_value_span line key =
     (let search = QUOTE # key @ [QUOTE] in
      case str_find line search 0 of
        None \<Rightarrow> None
      | Some pos \<Rightarrow>
          (case str_find_char line (CHR '':'') (pos + length search) of
             None \<Rightarrow> None
           | Some colon \<Rightarrow> Some (colon + 1, length line)))"

definition json_string :: "string \<Rightarrow> string \<Rightarrow> string option" where
  "json_string line key =
     (case json_value_span line key of
        None \<Rightarrow> None
      | Some (from, until) \<Rightarrow>
          (case str_find_char line QUOTE from of
             None \<Rightarrow> None
           | Some opening \<Rightarrow>
               if opening \<ge> until then None
               else
                 (case str_find_char line QUOTE (opening + 1) of
                    None \<Rightarrow> None
                  | Some closing \<Rightarrow>
                      if closing > until then None
                      else Some (substr line (opening + 1) (closing - opening - 1)))))"

definition json_number :: "(string \<Rightarrow> 'f option) \<Rightarrow> string \<Rightarrow> string \<Rightarrow> 'f option" where
  "json_number stod line key =
     (case json_value_span line key of
        None \<Rightarrow> None
      | Some (from, until) \<Rightarrow>
          let val = trim_json_value (substr line from (until - from))
          in if val = [] then None else stod val)"

text \<open>A C cast of a floating-point number to an integer type.\<close>

definition trunc :: "'f::floor_ceiling \<Rightarrow> int" where
  "trunc d = (if d \<ge> 0 then floor d else ceiling d)"

definition json_number_int :: "(string \<Rightarrow> 'f::floor_ceiling option) \<Rightarrow> string \<Rightarrow> string \<Rightarrow> int option" where
  "json_number_int stod line key =
     (case json_number stod line key of
        None \<Rightarrow> None
      | Some d \<Rightarrow> if d < of_int INT_MIN \<or> d > of_int INT_MAX then None else Some (trunc d))"

text \<open>\<open>std::getline\<close> until the end of the file.\<close>

function getlines :: "string \<Rightarrow> string list" where
  "getlines s =
     (if s = [] then []
      else
        let l = takeWhile (\<lambda>c. c \<noteq> CHR 0x0A) s; r = dropWhile (\<lambda>c. c \<noteq> CHR 0x0A) s
        in l # getlines (drop 1 r))"
  by pat_completeness auto

termination
proof (relation "measure length")
  fix s l r :: string
  assume "s \<noteq> []" and "r = dropWhile (\<lambda>c. c \<noteq> CHR 0x0A) s"
  then have "length r \<le> length s" and "0 < length s" by (simp_all add: length_dropWhile_le)
  then show "(drop 1 r, s) \<in> measure length" by (simp only: in_measure length_drop)
qed simp

declare getlines.simps [simp del]

fun first_some :: "('a \<Rightarrow> 'b option) \<Rightarrow> 'a list \<Rightarrow> 'b option" where
  "first_some f [] = None"
| "first_some f (x # xs) = (case f x of Some y \<Rightarrow> Some y | None \<Rightarrow> first_some f xs)"

type_synonym fsys = "(string \<times> string) list"

definition json_string_in_file :: "fsys \<Rightarrow> string \<Rightarrow> string \<Rightarrow> string option" where
  "json_string_in_file fs path key =
     (case map_of fs path of None \<Rightarrow> None | Some content \<Rightarrow> first_some (\<lambda>l. json_string l key) (getlines content))"

definition json_number_in_file :: "(string \<Rightarrow> 'f option) \<Rightarrow> fsys \<Rightarrow> string \<Rightarrow> string \<Rightarrow> 'f option" where
  "json_number_in_file stod fs path key =
     (case map_of fs path of None \<Rightarrow> None | Some content \<Rightarrow> first_some (\<lambda>l. json_number stod l key) (getlines content))"

definition newline :: string where "newline = [CHR 0x0A]"

definition string_line :: "string \<Rightarrow> string \<Rightarrow> string" where
  "string_line key v = ''  '' @ [QUOTE] @ key @ [QUOTE] @ '': '' @ [QUOTE] @ v @ [QUOTE] @ '',''"

definition field_line :: "string \<Rightarrow> string \<Rightarrow> string" where
  "field_line key rest = ''  '' @ [QUOTE] @ key @ [QUOTE] @ '': '' @ rest"

definition number_line :: "string \<Rightarrow> string \<Rightarrow> string" where
  "number_line key v = field_line key (v @ '','')"

definition identity_lines :: "cache_identity \<Rightarrow> string list" where
  "identity_lines i =
     [string_line ''model'' (id_model i), string_line ''variant'' (id_variant i),
      string_line ''corpus'' (id_corpus i), number_line ''objective'' (show_int (id_objective i)),
      number_line ''mode'' (show_int (id_mode i))]"

definition write_cache_identity :: "cache_identity \<Rightarrow> string" where
  "write_cache_identity i = concat (map (\<lambda>l. l @ newline) (identity_lines i))"

definition cache_identity_matches ::
    "(string \<Rightarrow> 'f::floor_ceiling option) \<Rightarrow> fsys \<Rightarrow> string \<Rightarrow> cache_identity \<Rightarrow> bool" where
  "cache_identity_matches stod fs path want =
     (case json_string_in_file fs path ''model'' of None \<Rightarrow> False | Some model \<Rightarrow>
      case json_string_in_file fs path ''variant'' of None \<Rightarrow> False | Some variant \<Rightarrow>
      case json_string_in_file fs path ''corpus'' of None \<Rightarrow> False | Some corpus \<Rightarrow>
      case json_number_in_file stod fs path ''objective'' of None \<Rightarrow> False | Some objective \<Rightarrow>
      case json_number_in_file stod fs path ''mode'' of None \<Rightarrow> False | Some mode \<Rightarrow>
        model = id_model want \<and> variant = id_variant want \<and> corpus = id_corpus want \<and>
        trunc objective = id_objective want \<and> trunc mode = id_mode want)"

section \<open>Lines and searches\<close>

lemma getlines_line [simp]:
  assumes "CHR 0x0A \<notin> set l" shows "getlines (l @ newline @ rest) = l # getlines rest"
proof -
  have "takeWhile (\<lambda>c. c \<noteq> CHR 0x0A) (l @ newline @ rest) = l"
    "dropWhile (\<lambda>c. c \<noteq> CHR 0x0A) (l @ newline @ rest) = newline @ rest"
    using assms by (induction l) (auto simp: newline_def)
  then show ?thesis by (subst getlines.simps) (simp add: newline_def Let_def)
qed

lemma getlines_lines:
  "\<forall>l \<in> set ls. CHR 0x0A \<notin> set l \<Longrightarrow> getlines (concat (map (\<lambda>l. l @ newline) ls) @ rest) = ls @ getlines rest"
  by (induction ls) simp_all

lemma first_some_append [simp]:
  "first_some f (xs @ ys) = (case first_some f xs of Some y \<Rightarrow> Some y | None \<Rightarrow> first_some f ys)"
  by (induction xs) (simp_all split: option.split)

lemma find_char_less: "find_char c xs = Some i \<Longrightarrow> i < length xs"
  by (induction xs arbitrary: i) (auto split: if_splits)

lemma find_sub_less: "find_sub pat xs = Some i \<Longrightarrow> i + length pat \<le> length xs"
  using find_sub_Some by blast

text \<open>The text after the colon that follows the quoted key.\<close>

definition json_value :: "string \<Rightarrow> string \<Rightarrow> string option" where
  "json_value line key =
     (case find_sub (QUOTE # key @ [QUOTE]) line of
        None \<Rightarrow> None
      | Some p \<Rightarrow>
          let r = drop (p + length key + 2) line
          in map_option (\<lambda>c. drop (c + 1) r) (find_char (CHR '':'') r))"

lemma json_value_suffix:
  assumes "json_value line key = Some v"
  shows "drop (length line - length v) line = v" and "length v \<le> length line"
proof -
  from assms obtain p c where "v = drop (c + 1) (drop (p + length key + 2) line)"
    by (auto simp: json_value_def Let_def split: option.splits)
  then have v: "v = drop (c + 1 + (p + length key + 2)) line" by (simp add: add.commute)
  then show "length v \<le> length line" by simp
  show "drop (length line - length v) line = v" unfolding v
    by (cases "c + 1 + (p + length key + 2) \<le> length line") (simp_all only: length_drop diff_diff_cancel, simp)
qed

lemma json_value_span_value:
  "json_value_span line key = map_option (\<lambda>v. (length line - length v, length line)) (json_value line key)"
proof (cases "find_sub (QUOTE # key @ [QUOTE]) line")
  case None
  then show ?thesis by (simp add: json_value_span_def json_value_def str_find_def)
next
  case (Some p)
  let ?r = "drop (p + length key + 2) line"
  show ?thesis
  proof (cases "find_char (CHR '':'') ?r")
    case None
    with Some show ?thesis
      by (simp add: json_value_span_def json_value_def str_find_def str_find_char_def Let_def add.assoc
          del: find_char_None)
  next
    case (Some c)
    with find_char_less [OF this] \<open>find_sub _ line = Some p\<close> show ?thesis
      by (simp add: json_value_span_def json_value_def str_find_def str_find_char_def Let_def add.assoc)
  qed
qed

definition first_quoted :: "string \<Rightarrow> string option" where
  "first_quoted v =
     (case find_char QUOTE v of
        None \<Rightarrow> None
      | Some i \<Rightarrow> map_option (\<lambda>j. take j (drop (i + 1) v)) (find_char QUOTE (drop (i + 1) v)))"

lemma json_string_value:
  "json_string line key = (case json_value line key of None \<Rightarrow> None | Some v \<Rightarrow> first_quoted v)"
proof (cases "json_value line key")
  case None
  then show ?thesis by (simp add: json_string_def json_value_span_value)
next
  case (Some v)
  let ?n = "length line - length v"
  note v = json_value_suffix [OF Some]
  have dr: "drop (?n + k) line = drop k v" for k
    by (metis add.commute drop_drop v(1))
  show ?thesis
  proof (cases "find_char QUOTE v")
    case None
    with Some v show ?thesis
      by (simp add: json_string_def json_value_span_value str_find_char_def first_quoted_def del: find_char_None)
  next
    case (Some i)
    note i = this find_char_less [OF this]
    show ?thesis
    proof (cases "find_char QUOTE (drop (i + 1) v)")
      case None
      with \<open>json_value line key = Some v\<close> v i dr [of "i + 1"] show ?thesis
        by (simp add: json_string_def json_value_span_value str_find_char_def first_quoted_def add.assoc
            del: find_char_None)
    next
      case (Some j)
      with \<open>json_value line key = Some v\<close> v i dr [of "i + 1"] find_char_less [OF Some] show ?thesis
        by (simp add: json_string_def json_value_span_value str_find_char_def first_quoted_def substr_def add.assoc)
          arith
    qed
  qed
qed

lemma json_number_value:
  "json_number stod line key =
     (case json_value line key of None \<Rightarrow> None
      | Some v \<Rightarrow> if trim_json_value v = [] then None else stod (trim_json_value v))"
proof (cases "json_value line key")
  case None
  then show ?thesis by (simp add: json_number_def json_value_span_value)
next
  case (Some v)
  with json_value_suffix [OF Some] show ?thesis
    by (simp add: json_number_def json_value_span_value substr_def Let_def)
qed

section \<open>The lines this library writes\<close>

definition quote_free :: "string \<Rightarrow> bool" where
  "quote_free s \<longleftrightarrow> QUOTE \<notin> set s"

lemma quote_free_simps [simp]:
  "quote_free []" "quote_free (c # s) \<longleftrightarrow> c \<noteq> QUOTE \<and> quote_free s"
  "quote_free (s @ t) \<longleftrightarrow> quote_free s \<and> quote_free t"
  by (auto simp: quote_free_def)

lemma find_key_skip:
  "quote_free u \<Longrightarrow> find_sub (QUOTE # p) (u @ QUOTE # ys) = map_option ((+) (length u)) (find_sub (QUOTE # p) (QUOTE # ys))"
  unfolding quote_free_def by (rule find_sub_skip) simp_all

lemma find_key_none: "quote_free u \<Longrightarrow> find_sub (QUOTE # p) u = None"
  by (induction u) auto

lemma find_key_last:
  assumes "quote_free u" shows "find_sub (QUOTE # p @ [QUOTE]) (QUOTE # u) = None"
proof -
  have "\<not> prefix (p @ [QUOTE]) u" using assms by (auto simp: prefix_def quote_free_def)
  then show ?thesis using find_key_none [OF assms, of "p @ [QUOTE]"] by simp
qed

lemma prefix_quoted:
  assumes "quote_free p" and "quote_free k"
  shows "prefix (p @ [QUOTE]) (k @ QUOTE # ys) \<longleftrightarrow> p = k"
  using assms
proof (induction p arbitrary: k)
  case Nil
  then show ?case by (cases k) auto
next
  case (Cons c p)
  then show ?case by (cases k) auto
qed

lemma find_key_quoted:
  assumes "quote_free p" and "quote_free k"
  shows "find_sub (QUOTE # p @ [QUOTE]) (QUOTE # k @ QUOTE # ys) =
     (if p = k then Some 0
      else map_option ((+) (Suc (length k))) (find_sub (QUOTE # p @ [QUOTE]) (QUOTE # ys)))"
  using prefix_quoted [OF assms, of ys] find_key_skip [OF assms(2), of "p @ [QUOTE]" ys]
  by simp

lemmas find_key = find_key_skip find_key_none find_key_last find_key_quoted

lemma json_value_free [simp]: "quote_free line \<Longrightarrow> json_value line key = None"
  by (simp add: json_value_def find_key_none)

lemma json_value_field:
  assumes "quote_free key" and "quote_free k" and "quote_free rest"
  shows "json_value (field_line k rest) key = (if key = k then Some ('' '' @ rest) else None)"
proof -
  have "find_sub (QUOTE # key @ [QUOTE]) (QUOTE # '': '' @ rest) = None"
    using assms by (intro find_key_last) simp
  then have "find_sub (QUOTE # key @ [QUOTE]) (field_line k rest) = (if key = k then Some 2 else None)"
    using find_key_skip [of "''  ''" "key @ [QUOTE]" "k @ [QUOTE] @ '': '' @ rest"] assms
      find_key_quoted [OF assms(1,2), of "'': '' @ rest"]
    by (simp add: field_line_def)
  then show ?thesis by (auto simp: json_value_def field_line_def)
qed

lemma json_value_string:
  assumes "quote_free key" and "quote_free k" and "quote_free v" and "key \<noteq> '': ''"
  shows "json_value (string_line k v) key = (if key = k then Some ('' '' @ QUOTE # v @ QUOTE # '','') else None)"
proof -
  let ?pat = "QUOTE # key @ [QUOTE]"
  have 3: "find_sub ?pat (QUOTE # '','') = None" by (rule find_key_last) simp
  have 2: "find_sub ?pat (QUOTE # v @ QUOTE # '','') = (if key = v then Some 0 else None)"
    using find_key_quoted [OF assms(1,3), of "'',''"] 3 by simp
  have 1: "find_sub ?pat (QUOTE # '': '' @ QUOTE # v @ QUOTE # '','') =
      (if key = v then Some 3 else None)"
    using find_key_quoted [OF assms(1), of "'': ''" "v @ QUOTE # '',''"] 2 assms(4) by simp
  have "find_sub ?pat (string_line k v) = (if key = k then Some 2 else if key = v then Some (length k + 6) else None)"
    using find_key_skip [of "''  ''" "key @ [QUOTE]" "k @ QUOTE # '': '' @ QUOTE # v @ QUOTE # '',''"] assms
      find_key_quoted [OF assms(1,2), of "'': '' @ QUOTE # v @ QUOTE # '',''"] 1
    by (auto simp: string_line_def)
  moreover have "drop (length k + 6 + length v + 2) (string_line k v) = '',''"
  proof -
    let ?a = "''  '' @ QUOTE # k @ QUOTE # '': '' @ QUOTE # v @ [QUOTE]"
    have "string_line k v = ?a @ '',''" by (simp add: string_line_def)
    moreover have "length ?a = length k + 6 + length v + 2" by simp
    ultimately show ?thesis by (metis append_eq_conv_conj)
  qed
  moreover have "drop (2 + length k + 2) (string_line k v) = '': '' @ QUOTE # v @ QUOTE # '',''"
    by (simp add: string_line_def)
  ultimately show ?thesis by (simp add: json_value_def)
qed

lemma first_quoted_value: "quote_free v \<Longrightarrow> first_quoted ('' '' @ QUOTE # v @ QUOTE # rest) = Some v"
  by (simp add: first_quoted_def quote_free_def)

lemma trim_json_value_number:
  assumes "v \<noteq> []" and "\<forall>c \<in> set v. \<not> is_trimmed c"
  shows "trim_json_value ('' '' @ v @ '','') = v" and "trim_json_value ('' '' @ v) = v"
proof -
  have sp: "is_trimmed (CHR '' '')" "is_trimmed (CHR '','')" by (simp_all add: is_trimmed_def)
  have d: "dropWhile is_trimmed (w @ u) = w @ u" if "w \<noteq> []" "\<forall>c \<in> set w. \<not> is_trimmed c" for w u
    using that by (cases w) auto
  have "dropWhile is_trimmed (rev v) = rev v"
    using d [of "rev v" "[]"] assms by simp
  then show "trim_json_value ('' '' @ v @ '','') = v" "trim_json_value ('' '' @ v) = v"
    using d [OF assms] d [OF assms, of "[]"] by (simp_all add: trim_json_value_def sp)
qed

section \<open>The identity block\<close>

lemma show_nat_nonempty [simp]: "show_nat n \<noteq> []"
  by (subst show_nat.simps) simp

lemma show_int_nonempty [simp]: "show_int i \<noteq> []"
  by (simp add: show_int_def)

lemma show_int_chars:
  "c \<in> set (show_int i) \<Longrightarrow> c = CHR ''-'' \<or> 48 \<le> byte c \<and> byte c < 58"
  by (auto simp: show_int_def dest: show_nat_digits split: if_splits)

lemma show_int_plain:
  "quote_free (show_int i)" "\<forall>c \<in> set (show_int i). \<not> is_trimmed c" "CHR 0x0A \<notin> set (show_int i)"
  by (auto simp: quote_free_def is_trimmed_def dest!: show_int_chars) (auto simp: byte_def)

definition plain :: "string \<Rightarrow> bool" where
  "plain s \<longleftrightarrow> quote_free s \<and> CHR 0x0A \<notin> set s"

definition plain_identity :: "cache_identity \<Rightarrow> bool" where
  "plain_identity i \<longleftrightarrow> plain (id_model i) \<and> plain (id_variant i) \<and> plain (id_corpus i)"

lemma newline_free_lines:
  assumes "plain_identity i" shows "\<forall>l \<in> set (identity_lines i). CHR 0x0A \<notin> set l"
  using assms show_int_plain(3)
  by (simp add: identity_lines_def plain_identity_def plain_def string_line_def number_line_def field_line_def)

lemma json_string_line:
  assumes "quote_free key" and "quote_free k" and "quote_free v" and "key \<noteq> '': ''"
  shows "json_string (string_line k v) key = (if key = k then Some v else None)"
  using json_value_string [OF assms] first_quoted_value [OF assms(3), of "'',''"]
  by (simp add: json_string_value)

lemma json_number_string_line:
  assumes "quote_free key" and "quote_free k" and "quote_free v" and "key \<noteq> '': ''" and "key \<noteq> k"
  shows "json_number stod (string_line k v) key = None"
  using json_value_string [OF assms(1-4)] assms(5) by (simp add: json_number_value)

lemma json_number_line:
  assumes "quote_free key" and "quote_free k" and "quote_free v" and "v \<noteq> []" and "\<forall>c \<in> set v. \<not> is_trimmed c"
    and "rest = v \<or> rest = v @ '',''"
  shows "json_number stod (field_line k rest) key = (if key = k then stod v else None)"
proof -
  have "quote_free rest" using assms(3,6) by auto
  moreover have "trim_json_value ('' '' @ rest) = v"
    using trim_json_value_number [OF assms(4,5)] assms(6) by auto
  ultimately show ?thesis using assms json_value_field [OF assms(1,2)] by (auto simp: json_number_value)
qed

lemmas json_number_lines =
  json_number_line [OF _ _ _ _ _ disjI1 [OF refl]] json_number_line [OF _ _ _ _ _ disjI2 [OF refl]]

lemma json_string_field_line:
  assumes "quote_free key" and "quote_free k" and "quote_free rest"
  shows "json_string (field_line k rest) key = None"
proof -
  have "find_char QUOTE ('' '' @ rest) = None"
    unfolding find_char_None using assms(3) by (simp add: quote_free_def)
  then have "first_quoted ('' '' @ rest) = None" by (simp only: first_quoted_def option.case)
  with json_value_field [OF assms] show ?thesis by (simp add: json_string_value)
qed

lemma identity_found:
  assumes "plain_identity i" and "\<And>j. stod (show_int j) = Some (of_int j :: 'f::floor_ceiling)"
  shows "first_some (\<lambda>l. json_string l ''model'') (identity_lines i) = Some (id_model i)"
    "first_some (\<lambda>l. json_string l ''variant'') (identity_lines i) = Some (id_variant i)"
    "first_some (\<lambda>l. json_string l ''corpus'') (identity_lines i) = Some (id_corpus i)"
    "first_some (\<lambda>l. json_number stod l ''objective'') (identity_lines i) = Some (of_int (id_objective i))"
    "first_some (\<lambda>l. json_number stod l ''mode'') (identity_lines i) = Some (of_int (id_mode i))"
  using assms
  by (simp_all add: identity_lines_def plain_identity_def plain_def json_string_line json_number_string_line
      json_string_field_line number_line_def json_number_lines show_int_plain)

definition opening_brace :: string where "opening_brace = ''{'' @ newline"

lemma json_brace: "json_string ''{'' key = None" "json_number stod ''{'' key = None"
  by (simp_all add: json_string_value json_number_value)

lemma identity_in_file:
  assumes "plain_identity i"
    and "\<And>j. stod (show_int j) = Some (of_int j :: 'f::floor_ceiling)"
    and "map_of fs path = Some (opening_brace @ write_cache_identity i @ rest)"
  shows "cache_identity_matches stod fs path want \<longleftrightarrow> want = i"
proof -
  have "getlines (opening_brace @ write_cache_identity i @ rest) = [''{''] @ identity_lines i @ getlines rest"
    using getlines_lines [OF newline_free_lines [OF assms(1)], of rest]
      getlines_line [of "''{''" "write_cache_identity i @ rest"]
    by (simp add: opening_brace_def write_cache_identity_def)
  then have "json_string_in_file fs path ''model'' = Some (id_model i)"
    "json_string_in_file fs path ''variant'' = Some (id_variant i)"
    "json_string_in_file fs path ''corpus'' = Some (id_corpus i)"
    "json_number_in_file stod fs path ''objective'' = Some (of_int (id_objective i))"
    "json_number_in_file stod fs path ''mode'' = Some (of_int (id_mode i))"
    using identity_found [OF assms(1,2)] assms(3)
    by (simp_all add: json_string_in_file_def json_number_in_file_def json_brace)
  then show ?thesis
    by (cases want; cases i) (auto simp: cache_identity_matches_def trunc_def)
qed

section \<open>Hashes\<close>

lemma byte_hex_digit: "d < 16 \<Longrightarrow> byte (hex_digit d) = (if d < 10 then 48 + d else 87 + d)"
  by (simp add: hex_digit_def byte_chr)

lemma hex_digit_inject:
  assumes "d < 16" and "e < 16" shows "hex_digit d = hex_digit e \<longleftrightarrow> d = e"
proof
  assume "hex_digit d = hex_digit e"
  then have "(if d < 10 then 48 + d else 87 + d) = (if e < 10 then 48 + e else 87 + e)"
    using byte_hex_digit assms by metis
  then show "d = e" by (simp split: if_splits)
qed simp

lemma length_hex_fixed [simp]: "length (hex_fixed k n) = k"
  by (induction k arbitrary: n) simp_all

lemma hex_fixed_inject: "m < 16 ^ k \<Longrightarrow> n < 16 ^ k \<Longrightarrow> hex_fixed k m = hex_fixed k n \<Longrightarrow> m = n"
proof (induction k arbitrary: m n)
  case (Suc k)
  then have "m div 16 = n div 16" by (intro Suc.IH) auto
  moreover from Suc.prems have "m mod 16 = n mod 16" by (simp add: hex_digit_inject)
  ultimately show ?case by (metis div_mult_mod_eq)
qed simp

lemma hash64_to_hex_inject: "hash64_to_hex g = hash64_to_hex h \<longleftrightarrow> g = h"
proof
  assume "hash64_to_hex g = hash64_to_hex h"
  moreover have "unat g < 16 ^ 16" "unat h < 16 ^ 16"
    using unsigned_less [of g] unsigned_less [of h] by simp_all
  ultimately have "unat g = unat h"
    using hex_fixed_inject [of "unat g" 16 "unat h"] by (simp only: hash64_to_hex_def)
  then show "g = h" by (simp add: word_unat_eq_iff)
qed simp

lemma fnv1a_append: "fnv1a_update h (xs @ ys) = fnv1a_update (fnv1a_update h xs) ys"
  by (induction xs arbitrary: h) simp_all

definition length_bytes :: "nat \<Rightarrow> string" where
  "length_bytes n = map (\<lambda>b. chr ((n div 2 ^ (8 * b)) mod 256)) [0..<8]"

definition corpus_bytes :: "string list \<Rightarrow> string" where
  "corpus_bytes ts = concat (map (\<lambda>t. length_bytes (length t) @ t) ts)"

lemma mix_length_bytes: "mix_length h n = fnv1a_update h (length_bytes n)"
proof -
  have "foldl (\<lambda>h b. fnv_step h ((n div 2 ^ (8 * b)) mod 256)) h bs =
      fnv1a_update h (map (\<lambda>b. chr ((n div 2 ^ (8 * b)) mod 256)) bs)" for bs
    by (induction bs arbitrary: h) (simp_all add: byte_chr)
  then show ?thesis by (simp only: mix_length_def length_bytes_def)
qed

lemma fingerprint_bytes: "fingerprint_loop h ts = fnv1a_update h (corpus_bytes ts)"
  by (induction ts arbitrary: h) (simp_all add: corpus_bytes_def fnv1a_append mix_length_bytes)

lemma byte_digits:
  "n < 256 ^ k \<Longrightarrow> (\<Sum>b<k. (n div 2 ^ (8 * b)) mod 256 * 256 ^ b) = (n :: nat)"
proof (induction k arbitrary: n)
  case (Suc k)
  have "(\<Sum>b<Suc k. (n div 2 ^ (8 * b)) mod 256 * 256 ^ b) =
      n mod 256 + (\<Sum>b<k. (n div 2 ^ (8 * Suc b)) mod 256 * 256 ^ Suc b)"
    by (subst sum.lessThan_Suc_shift) simp
  also have "(\<Sum>b<k. (n div 2 ^ (8 * Suc b)) mod 256 * 256 ^ Suc b) =
      256 * (\<Sum>b<k. (n div 256 div 2 ^ (8 * b)) mod 256 * 256 ^ b)"
    unfolding sum_distrib_left
    by (rule sum.cong) (simp_all add: power_add div_mult2_eq mult_ac)
  also have "(\<Sum>b<k. (n div 256 div 2 ^ (8 * b)) mod 256 * 256 ^ b) = n div 256"
    using Suc.prems by (intro Suc.IH) (simp add: less_mult_imp_div_less mult.commute)
  finally show ?case by (simp add: mult.commute)
qed simp

lemma length_bytes_inject:
  assumes "m < 2 ^ 64" and "n < 2 ^ 64" and "length_bytes m = length_bytes n"
  shows "m = n"
proof -
  have "chr ((m div 2 ^ (8 * b)) mod 256) = chr ((n div 2 ^ (8 * b)) mod 256)" if "b < 8" for b
  proof -
    have "length_bytes m ! b = length_bytes n ! b" by (simp only: assms(3))
    with that show ?thesis by (simp add: length_bytes_def del: upt_rec_numeral)
  qed
  then have "(m div 2 ^ (8 * b)) mod 256 = (n div 2 ^ (8 * b)) mod 256" if "b < 8" for b
    using that byte_chr by (metis mod_less_divisor zero_less_numeral)
  then have "(\<Sum>b<8. (m div 2 ^ (8 * b)) mod 256 * 256 ^ b) = (\<Sum>b<8. (n div 2 ^ (8 * b)) mod 256 * 256 ^ b)"
    by (intro sum.cong) simp_all
  with byte_digits [of m 8] byte_digits [of n 8] assms(1,2) show ?thesis by simp
qed

lemma corpus_bytes_inject:
  assumes "\<forall>t \<in> set ts \<union> set us. length t < 2 ^ 64" and "corpus_bytes ts = corpus_bytes us"
  shows "ts = us"
  using assms
proof (induction ts arbitrary: us)
  case Nil
  then show ?case by (cases us) (auto simp: corpus_bytes_def length_bytes_def)
next
  case (Cons t ts)
  show ?case
  proof (cases us)
    case Nil
    with Cons.prems show ?thesis by (simp add: corpus_bytes_def length_bytes_def)
  next
    case (Cons u us')
    have len: "length (length_bytes n) = 8" for n by (simp add: length_bytes_def)
    from Cons.prems(2) Cons have
      "length_bytes (length t) @ (t @ corpus_bytes ts) = length_bytes (length u) @ (u @ corpus_bytes us')"
      by (simp add: corpus_bytes_def)
    then have "length_bytes (length t) = length_bytes (length u)" "t @ corpus_bytes ts = u @ corpus_bytes us'"
      using len by (metis append_eq_append_conv)+
    moreover from this(1) have "length t = length u"
      using Cons.prems(1) Cons by (intro length_bytes_inject) auto
    ultimately have "t = u" and "corpus_bytes ts = corpus_bytes us'" by auto
    with Cons.IH [of us'] Cons.prems(1) Cons show ?thesis by simp
  qed
qed

lemma percentile_floor:
  fixes xs :: "'f::floor_ceiling list"
  assumes "xs \<noteq> []" and "0 \<le> p" and "p \<le> 1"
  shows "0 \<le> floor (p * of_nat (length xs - 1))" and "ceiling (p * of_nat (length xs - 1)) \<le> int (length xs - 1)"
proof -
  show "0 \<le> floor (p * of_nat (length xs - 1))" using assms(2) by simp
  have "p * of_nat (length xs - 1) \<le> 1 * of_nat (length xs - 1)"
    using assms(3) by (intro mult_right_mono) simp_all
  then have "p * of_nat (length xs - 1) \<le> of_int (int (length xs - 1))" by simp
  then show "ceiling (p * of_nat (length xs - 1)) \<le> int (length xs - 1)" by (simp only: ceiling_le)
qed

section \<open>Properties\<close>

text \<open>An entry that starts with the identity block of an identity, whatever follows the block, is
  served for exactly that identity: reading back what was written accepts the writer's identity and
  rejects every other one. The hypotheses on the names exclude quotes and line breaks, and printing an
  integer and reading it as a number gives the integer.\<close>

theorem identity_roundtrip:
  assumes "plain_identity i"
    and "\<And>j. stod (show_int j) = Some (of_int j :: 'f::floor_ceiling)"
    and "map_of fs path = Some (opening_brace @ write_cache_identity i @ rest)"
  shows "cache_identity_matches stod fs path want \<longleftrightarrow> want = i"
  by (rule identity_in_file [OF assms])

definition sample_stod :: "string \<Rightarrow> rat option" where
  "sample_stod s =
     (case s of [] \<Rightarrow> None | c # cs \<Rightarrow>
        if c = CHR ''-'' then Some (- of_nat (read_nat cs)) else Some (of_nat (read_nat s)))"

lemma sample_stod_show: "sample_stod (show_int j) = Some (of_int j)"
proof (cases "j < 0")
  case True
  then show ?thesis by (simp add: sample_stod_def show_int_def del: read_nat.simps)
next
  case False
  obtain c cs where c: "show_nat (nat j) = c # cs" by (cases "show_nat (nat j)") auto
  have "c \<in> set (show_nat (nat j))" by (simp add: c)
  then have "c \<noteq> CHR ''-''" by (auto dest!: show_nat_digits simp: byte_def)
  moreover have "read_nat (c # cs) = nat j" by (simp only: c [symmetric] read_show_nat)
  ultimately show ?thesis using False
    by (simp add: sample_stod_def show_int_def c del: read_nat.simps)
qed

theorem identity_roundtrip_witness:
  "cache_identity_matches sample_stod
     [(''f.json'', opening_brace @ write_cache_identity (identity_default\<lparr>id_model := ''org/m'', id_variant := ''quantization''\<rparr>) @ ''x'')]
     ''f.json'' (identity_default\<lparr>id_model := ''org/m'', id_variant := ''quantization''\<rparr>) \<and>
   \<not> cache_identity_matches sample_stod
     [(''f.json'', opening_brace @ write_cache_identity (identity_default\<lparr>id_model := ''org/m'', id_variant := ''quantization''\<rparr>) @ ''x'')]
     ''f.json'' (identity_default\<lparr>id_model := ''org/m''\<rparr>)"
proof -
  have "plain_identity (identity_default\<lparr>id_model := ''org/m'', id_variant := ''quantization''\<rparr>)"
    by (simp add: plain_identity_def plain_def identity_default_def)
  from identity_roundtrip [OF this sample_stod_show, of "[(''f.json'', opening_brace @ write_cache_identity
      (identity_default\<lparr>id_model := ''org/m'', id_variant := ''quantization''\<rparr>) @ ''x'')]" "''f.json''" "''x''"]
  show ?thesis by (simp add: identity_default_def)
qed

text \<open>The fingerprint of a corpus is the hash of a byte sequence that determines the corpus, so moving
  text from one entry to its neighbour changes what is hashed; the printed hash determines the hash;
  and the two overloads agree on texts without NUL bytes.\<close>

theorem fingerprint_separates:
  assumes "\<forall>t \<in> set ts \<union> set us. length t < 2 ^ 64"
  shows "corpus_fingerprint ts = hash64_to_hex (fnv1a_update fnv_offset (corpus_bytes ts)) \<and>
    (corpus_bytes ts = corpus_bytes us \<longleftrightarrow> ts = us) \<and>
    (corpus_fingerprint ts = corpus_fingerprint us \<longleftrightarrow>
       fnv1a_update fnv_offset (corpus_bytes ts) = fnv1a_update fnv_offset (corpus_bytes us)) \<and>
    ((\<forall>t \<in> set ts. CHR 0x00 \<notin> set t) \<longrightarrow> corpus_fingerprint_c (map Some ts) = corpus_fingerprint ts)"
proof (intro conjI impI)
  show "corpus_bytes ts = corpus_bytes us \<longleftrightarrow> ts = us"
    using corpus_bytes_inject [OF assms] by blast
  show "corpus_fingerprint_c (map Some ts) = corpus_fingerprint ts" if "\<forall>t \<in> set ts. CHR 0x00 \<notin> set t"
  proof -
    have "map (\<lambda>t. case t of Some s \<Rightarrow> c_str s | None \<Rightarrow> []) (map Some ts) = ts"
      using that by (induction ts) (simp_all add: c_str_no_nul)
    then show ?thesis by (simp only: corpus_fingerprint_c_def corpus_fingerprint_def)
  qed
qed (simp_all only: corpus_fingerprint_def fingerprint_bytes hash64_to_hex_inject)

theorem fingerprint_separates_witness:
  "corpus_bytes [''ab'', ''c''] \<noteq> corpus_bytes [''a'', ''bc''] \<and>
   corpus_fingerprint_c (map Some [''ab'', ''c'']) = corpus_fingerprint [''ab'', ''c'']"
  using fingerprint_separates [of "[''ab'', ''c'']" "[''a'', ''bc'']"] by simp

text \<open>The percentile of a sorted sample for a fraction between 0 and 1 reads inside the sample and lies
  between two neighbouring samples, hence between the least and the greatest.\<close>

theorem percentile_bounded:
  fixes xs :: "'f::floor_ceiling list"
  assumes "sorted xs" and "xs \<noteq> []" and "0 \<le> p" and "p \<le> 1"
  shows "\<exists>i j. i \<le> j \<and> j \<le> i + 1 \<and> j < length xs \<and>
    xs ! i \<le> percentile_sorted xs p \<and> percentile_sorted xs p \<le> xs ! j"
proof (cases "length xs = 1")
  case True
  then show ?thesis using assms(2) by (auto simp: percentile_sorted_def)
next
  case False
  define r where "r = p * of_nat (length xs - 1)"
  have b: "0 \<le> floor r" "ceiling r \<le> int (length xs - 1)"
    using percentile_floor [OF assms(2,3,4)] by (simp_all only: r_def)
  have lt: "nat (ceiling r) < length xs" using b(2) assms(2) by (cases xs) auto
  have v: "percentile_sorted xs p = (if floor r = ceiling r then xs ! nat (floor r)
      else xs ! nat (floor r) + (xs ! nat (ceiling r) - xs ! nat (floor r)) * (r - of_int (floor r)))"
    using False assms(2) by (simp only: percentile_sorted_def Let_def r_def if_False)
  show ?thesis
  proof (cases "floor r = ceiling r")
    case True
    with v lt show ?thesis by (intro exI [of _ "nat (floor r)"]) simp
  next
    case ne: False
    then have c: "ceiling r = floor r + 1" by (metis ceiling_altdef)
    let ?i = "nat (floor r)" let ?d = "r - of_int (floor r)"
    have j: "nat (ceiling r) = Suc ?i" by (metis Suc_nat_eq_nat_zadd1 add.commute b(1) c)
    have le: "xs ! ?i \<le> xs ! Suc ?i" using assms(1) lt j by (simp add: sorted_nth_mono)
    have d: "0 \<le> ?d" "?d \<le> 1" by linarith+
    have "0 \<le> (xs ! Suc ?i - xs ! ?i) * ?d" using le d by simp
    moreover have "(xs ! Suc ?i - xs ! ?i) * ?d \<le> (xs ! Suc ?i - xs ! ?i) * 1"
      using le d by (intro mult_left_mono) simp_all
    ultimately show ?thesis using v ne lt j
      by (intro exI [of _ ?i] exI [of _ "Suc ?i"]) simp
  qed
qed

theorem percentile_bounded_witness:
  "\<exists>i j. i \<le> j \<and> j \<le> i + 1 \<and> j < length [1, 5, 9 :: rat] \<and>
     [1, 5, 9] ! i \<le> percentile_sorted [1, 5, 9 :: rat] (1 / 4) \<and> percentile_sorted [1, 5, 9 :: rat] (1 / 4) \<le> [1, 5, 9] ! j"
  using percentile_bounded [of "[1, 5, 9 :: rat]" "1 / 4"] by simp

end
