(* ===== verification/CacheFiles.thy ===== *)
theory CacheFiles
  imports CacheText
begin

text \<open>The life cycle of the files of the tuning cache (\<open>detail/autotune_cache.hpp\<close>): the write through a
  temporary file and a rename, and the clearing of the entries of a model. The operations run on the
  list of files of \<open>CacheText\<close>; whether a system call succeeds is an argument.\<close>

section \<open>Atomic write\<close>

definition write_at :: "string \<Rightarrow> string \<Rightarrow> fsys \<Rightarrow> fsys" where
  "write_at path content fs = (path, content) # filter (\<lambda>f. fst f \<noteq> path) fs"

definition remove_at :: "string \<Rightarrow> fsys \<Rightarrow> fsys" where
  "remove_at path fs = filter (\<lambda>f. fst f \<noteq> path) fs"

definition rename_at :: "string \<Rightarrow> string \<Rightarrow> fsys \<Rightarrow> fsys" where
  "rename_at from dest fs =
     (case map_of fs from of None \<Rightarrow> fs | Some content \<Rightarrow> remove_at from (write_at dest content fs))"

text \<open>What the calls of one write report: opening the temporary file, flushing it (with the number of
  bytes that reached it when the stream went bad), the two attempts to rename.\<close>

record write_calls =
  open_ok :: bool
  flush_ok :: bool
  flushed :: nat
  rename_ok :: bool
  retry_ok :: bool

text \<open>The states of the file system that another process can see, in order, and the result.\<close>

definition write_file_atomic :: "write_calls \<Rightarrow> string \<Rightarrow> string \<Rightarrow> fsys \<Rightarrow> fsys list \<times> bool" where
  "write_file_atomic w path content fs =
     (let tmp = path @ ''.tmp'' in
      if \<not> open_ok w then ([fs], False)
      else
        let created = write_at tmp [] fs in
        if \<not> flush_ok w then
          let partial = write_at tmp (take (flushed w) content) created
          in ([fs, created, partial, remove_at tmp partial], False)
        else
          let written = write_at tmp content created in
          if rename_ok w then ([fs, created, written, rename_at tmp path written], True)
          else
            let cleared = remove_at path written in
            if retry_ok w then ([fs, created, written, cleared, rename_at tmp path cleared], True)
            else ([fs, created, written, cleared, remove_at tmp cleared], False))"

section \<open>Clearing\<close>

definition ends_with :: "string \<Rightarrow> string \<Rightarrow> bool" where
  "ends_with s e \<longleftrightarrow> length s > length e \<and> drop (length s - length e) s = e"

definition is_cache_file :: "string \<Rightarrow> bool" where
  "is_cache_file path \<longleftrightarrow> ends_with path ''.json'' \<or> ends_with path ''.json.tmp''"

text \<open>The regular files of a directory, without those of its sub-directories.\<close>

definition in_directory :: "string \<Rightarrow> string \<Rightarrow> bool" where
  "in_directory dir path \<longleftrightarrow>
     prefix (dir @ ''/'') path \<and> CHR ''/'' \<notin> set (drop (length dir + 1) path)"

definition belongs_to :: "fsys \<Rightarrow> string \<Rightarrow> string \<Rightarrow> bool" where
  "belongs_to fs model path \<longleftrightarrow>
     (if str_find path (''_'' @ sanitize_for_key (Some model) @ ''_'') 0 \<noteq> None then True
      else json_string_in_file fs path ''model'' = Some model)"

definition clear_autotune_cache_in_dir :: "string \<Rightarrow> string \<Rightarrow> fsys \<Rightarrow> fsys" where
  "clear_autotune_cache_in_dir dir model fs =
     filter (\<lambda>f. \<not> (in_directory dir (fst f) \<and> is_cache_file (fst f) \<and> belongs_to fs model (fst f))) fs"

text \<open>The directories below the root that the iterator reports are an argument.\<close>

definition clear_autotune_cache :: "machine \<Rightarrow> string list \<Rightarrow> string option \<Rightarrow> string \<Rightarrow> fsys \<Rightarrow> fsys" where
  "clear_autotune_cache m subdirs model_name subdir fs =
     (let root = autotune_cache_dir (home_dir m);
          dir = (if subdir \<noteq> [] then root @ ''/'' @ subdir else root)
      in case model_name of
           None \<Rightarrow> filter (\<lambda>f. \<not> prefix (dir @ ''/'') (fst f)) fs
         | Some model \<Rightarrow>
             if subdir \<noteq> [] then clear_autotune_cache_in_dir dir model fs
             else foldl (\<lambda>fs d. clear_autotune_cache_in_dir d model fs) fs (dir # subdirs))"

section \<open>Lemmas\<close>

lemma map_of_filter_path:
  "map_of (filter (\<lambda>f. P (fst f)) fs) p = (if P p then map_of fs p else None)"
  by (induction fs) auto

lemma map_of_write_at [simp]: "map_of (write_at path c fs) p = (if p = path then Some c else map_of fs p)"
  by (simp add: write_at_def map_of_filter_path [of "\<lambda>x. x \<noteq> path"])

lemma map_of_remove_at [simp]: "map_of (remove_at path fs) p = (if p = path then None else map_of fs p)"
  by (simp add: remove_at_def map_of_filter_path [of "\<lambda>x. x \<noteq> path"])

lemma map_of_rename_at [simp]:
  "from \<noteq> dest \<Longrightarrow> map_of (rename_at from dest fs) p =
     (case map_of fs from of None \<Rightarrow> map_of fs p
      | Some c \<Rightarrow> if p = dest then Some c else if p = from then None else map_of fs p)"
  by (simp add: rename_at_def split: option.split)

lemma tmp_differs [simp]: "path @ ''.tmp'' \<noteq> path" "path \<noteq> path @ ''.tmp''"
  by simp_all

lemma write_succeeds:
  "open_ok w \<Longrightarrow> flush_ok w \<Longrightarrow> rename_ok w \<or> retry_ok w \<Longrightarrow>
     map_of (last (fst (write_file_atomic w path content fs))) path = Some content"
  by (auto simp: write_file_atomic_def Let_def)

text \<open>Clearing a directory only looks at files it may remove, so a file elsewhere keeps its status
  through the sweep over the directories.\<close>

lemma json_string_in_file_cong:
  "map_of fs p = map_of gs p \<Longrightarrow> json_string_in_file fs p key = json_string_in_file gs p key"
  by (simp add: json_string_in_file_def)

lemma belongs_to_cong: "map_of fs p = map_of gs p \<Longrightarrow> belongs_to fs model p = belongs_to gs model p"
  by (simp only: belongs_to_def json_string_in_file_cong [of fs p gs])

definition cleared :: "string list \<Rightarrow> string \<Rightarrow> fsys \<Rightarrow> string \<Rightarrow> bool" where
  "cleared dirs model fs p \<longleftrightarrow> (\<exists>d \<in> set dirs. in_directory d p) \<and> is_cache_file p \<and> belongs_to fs model p"

lemma map_of_clear_in_dir:
  "map_of (clear_autotune_cache_in_dir d model fs) p = (if cleared [d] model fs p then None else map_of fs p)"
  using map_of_filter_path [of "\<lambda>q. \<not> (in_directory d q \<and> is_cache_file q \<and> belongs_to fs model q)" fs p]
  by (simp add: clear_autotune_cache_in_dir_def cleared_def)

lemma map_of_clear_dirs:
  "map_of (foldl (\<lambda>fs d. clear_autotune_cache_in_dir d model fs) fs dirs) p =
     (if cleared dirs model fs p then None else map_of fs p)"
proof (induction dirs arbitrary: fs)
  case Nil
  then show ?case by (simp add: cleared_def)
next
  case (Cons d dirs)
  let ?g = "clear_autotune_cache_in_dir d model fs"
  show ?case
  proof (cases "cleared [d] model fs p")
    case True
    then have "map_of ?g p = None" by (simp add: map_of_clear_in_dir)
    with True Cons.IH [of ?g] show ?thesis by (auto simp: cleared_def)
  next
    case False
    then have g: "map_of ?g p = map_of fs p" by (simp add: map_of_clear_in_dir)
    with False Cons.IH [of ?g] belongs_to_cong [OF g] show ?thesis by (auto simp: cleared_def)
  qed
qed

section \<open>Properties\<close>

text \<open>Readers never see a partial entry: in every state the write passes through, the entry holds its
  old content or the whole new one, except that it is absent between the removal and the second rename
  when the first rename was refused; other files but the temporary one are untouched; success leaves the
  new content; and when both renames fail the entry is lost.\<close>

theorem write_never_partial:
  assumes "write_file_atomic w path content fs = (states, ok)"
  shows "(\<forall>s \<in> set states. (map_of s path = map_of fs path \<or> map_of s path = Some content \<or>
             (flush_ok w \<and> \<not> rename_ok w \<and> map_of s path = None)) \<and>
           (\<forall>p. p \<noteq> path \<longrightarrow> p \<noteq> path @ ''.tmp'' \<longrightarrow> map_of s p = map_of fs p)) \<and>
    (ok \<longleftrightarrow> open_ok w \<and> flush_ok w \<and> (rename_ok w \<or> retry_ok w)) \<and>
    (ok \<longrightarrow> map_of (last states) path = Some content) \<and>
    (\<not> ok \<longrightarrow> map_of (last states) path = (if open_ok w \<and> flush_ok w then None else map_of fs path))"
  using assms by (auto simp: write_file_atomic_def Let_def split: if_splits)

definition all_calls_ok :: write_calls where
  "all_calls_ok = \<lparr>open_ok = True, flush_ok = True, flushed = 0, rename_ok = True, retry_ok = True\<rparr>"

theorem write_never_partial_witness:
  "map_of (last (fst (write_file_atomic all_calls_ok ''k.json'' ''new'' [(''k.json'', ''old'')]))) ''k.json'' = Some ''new''"
proof -
  obtain states ok where e: "write_file_atomic all_calls_ok ''k.json'' ''new'' [(''k.json'', ''old'')] = (states, ok)"
    by fastforce
  from write_never_partial [OF e] e show ?thesis by (simp add: all_calls_ok_def)
qed

text \<open>Clearing the cache of a model removes exactly the cache files of the root and of its
  sub-directories that belong to the model, by the field stored in them or by their name, and keeps every
  other file with its content.\<close>

theorem clear_exact:
  "map_of (clear_autotune_cache m subdirs (Some model) [] fs) p =
     (if (\<exists>d \<in> set (autotune_cache_dir (home_dir m) # subdirs). in_directory d p) \<and> is_cache_file p \<and>
         belongs_to fs model p
      then None else map_of fs p)"
  using map_of_clear_dirs [of model fs "autotune_cache_dir (home_dir m) # subdirs" p]
  by (simp add: clear_autotune_cache_def Let_def cleared_def)

theorem clear_exact_witness:
  "map_of (clear_autotune_cache \<lparr>home_dir = Some ''/h'', brand = [], logical_cores = 1, physical_cores = 1,
       ort_major = 1, ort_minor = 1\<rparr> [] (Some ''model'') [] [(''/h/.cache/libembedding/autotune/1_org_model_ort.json'', [])])
     ''/h/.cache/libembedding/autotune/1_org_model_ort.json'' = None"
  unfolding clear_exact
  by (simp add: autotune_cache_dir_def in_directory_def is_cache_file_def ends_with_def belongs_to_def
      sanitize_for_key_def unsafe_for_key_def str_find_def)

end
