(* ===== verification/TuneCache.thy ===== *)
theory TuneCache
  imports CacheFiles CJson Types
begin

text \<open>
  The tuning cache of \<open>detail/autotune_cache_impl.hpp\<close>: one JSON file whose members are entries keyed by a
  hash of the machine, the library and the model. The parser and the printer of cJSON, the outcome of the
  file calls and how much of a write reaches the disk are arguments. \<open>None\<close> is an exception that leaves
  the C interface or an access outside an array. A number read as \<open>float\<close> and its \<open>double\<close> are one value.
\<close>

section \<open>Fingerprints and entries\<close>

record tune_hardware =
  hw_cpu_name :: string
  hw_physical_cores :: int
  hw_logical_cores :: int
  hw_os_name :: string
  hw_ram_mb :: int
  hw_features :: string

record tune_software =
  sw_libembedding :: string
  sw_llama_cpp :: string

record tune_model =
  tm_model_id :: string
  tm_quantization :: string
  tm_dim :: int
  tm_file_size_bytes :: int

record 'd tune_config =
  tc_sessions :: int
  tc_threads :: int
  tc_batch_size :: int
  tc_throughput :: 'd
  tc_latency_p50 :: 'd
  tc_latency_p95 :: 'd

record 'd tune_entry =
  te_schema_version :: int
  te_hardware :: tune_hardware
  te_software :: tune_software
  te_model :: tune_model
  te_backend :: string
  te_num_configs :: int
  te_configs :: "'d tune_config list"
  te_best_idx :: int

definition TUNE_SCHEMA_VERSION :: int where "TUNE_SCHEMA_VERSION = 2"

definition MAX_TUNE_CONFIGS :: nat where "MAX_TUNE_CONFIGS = 16"

definition tune_hardware_zero :: tune_hardware where
  "tune_hardware_zero = \<lparr>hw_cpu_name = [], hw_physical_cores = 0, hw_logical_cores = 0, hw_os_name = [], hw_ram_mb = 0,
     hw_features = []\<rparr>"

definition tune_config_zero :: "'d::zero tune_config" where
  "tune_config_zero = \<lparr>tc_sessions = 0, tc_threads = 0, tc_batch_size = 0, tc_throughput = 0, tc_latency_p50 = 0,
     tc_latency_p95 = 0\<rparr>"

definition tune_entry_zero :: "'d::zero tune_entry" where
  "tune_entry_zero = \<lparr>te_schema_version = 0, te_hardware = tune_hardware_zero,
     te_software = \<lparr>sw_libembedding = [], sw_llama_cpp = []\<rparr>,
     te_model = \<lparr>tm_model_id = [], tm_quantization = [], tm_dim = 0, tm_file_size_bytes = 0\<rparr>, te_backend = [],
     te_num_configs = 0, te_configs = replicate MAX_TUNE_CONFIGS tune_config_zero, te_best_idx = 0\<rparr>"

text \<open>Detection, as compiled for systems other than Windows.\<close>

definition lembed_cache_detect_hardware :: "tune_hardware option \<Rightarrow> status \<times> tune_hardware option" where
  "lembed_cache_detect_hardware hw =
     (case hw of None \<Rightarrow> (INVALID_ARGUMENT, None)
      | Some _ \<Rightarrow> (OK, Some (tune_hardware_zero\<lparr>hw_cpu_name := ''unknown'', hw_physical_cores := 1,
                      hw_logical_cores := 1, hw_os_name := ''unknown''\<rparr>)))"

definition lembed_cache_detect_software :: "tune_software option \<Rightarrow> status \<times> tune_software option" where
  "lembed_cache_detect_software sw =
     (case sw of None \<Rightarrow> (INVALID_ARGUMENT, None)
      | Some _ \<Rightarrow> (OK, Some \<lparr>sw_libembedding = ''1.11.0'', sw_llama_cpp = ''b5434''\<rparr>))"

section \<open>The key\<close>

definition key_field :: "string option \<Rightarrow> string" where
  "key_field v = (case v of None \<Rightarrow> ''unknown'' | Some s \<Rightarrow> c_str s)"

definition fingerprint_text ::
    "tune_hardware option \<Rightarrow> tune_software option \<Rightarrow> tune_model option \<Rightarrow> string option \<Rightarrow> string" where
  "fingerprint_text hw sw model backend =
     key_field (map_option hw_cpu_name hw) @ ''|'' @ key_field (map_option hw_os_name hw) @ ''|'' @
     key_field (map_option sw_libembedding sw) @ ''|'' @ key_field (map_option sw_llama_cpp sw) @ ''|'' @
     key_field (map_option tm_model_id model) @ ''|'' @ key_field backend @ [CHR 0x00]"

definition lembed_tune_cache_key ::
    "tune_hardware option \<Rightarrow> tune_software option \<Rightarrow> tune_model option \<Rightarrow> string option \<Rightarrow> string" where
  "lembed_tune_cache_key hw sw model backend =
     hash64_to_hex (fnv1a_update fnv_offset (fingerprint_text hw sw model backend))"

section \<open>Editing an entry\<close>

definition lembed_tune_cache_add_config ::
    "'d tune_entry option \<Rightarrow> 'd tune_config option \<Rightarrow> 'd tune_entry option option" where
  "lembed_tune_cache_add_config entry config =
     (case (entry, config) of
        (Some e, Some c) \<Rightarrow>
          if te_num_configs e \<ge> int MAX_TUNE_CONFIGS then Some (Some e)
          else if te_num_configs e < 0 then None
          else Some (Some (e\<lparr>te_configs := (te_configs e)[nat (te_num_configs e) := c],
                            te_num_configs := te_num_configs e + 1\<rparr>))
      | _ \<Rightarrow> Some entry)"

definition lembed_tune_cache_set_best :: "'d tune_entry option \<Rightarrow> int \<Rightarrow> 'd tune_entry option" where
  "lembed_tune_cache_set_best entry idx =
     map_option (\<lambda>e. if idx < 0 \<or> idx \<ge> te_num_configs e then e else e\<lparr>te_best_idx := idx\<rparr>) entry"

section \<open>The file\<close>

record 'd tune_io =
  io_home :: "string option"
  io_parse :: "string \<Rightarrow> 'd cjson option"
  io_print :: "'d cjson \<Rightarrow> string option"
  io_read_ok :: bool
  io_dirs_ok :: bool
  io_open_ok :: bool
  io_stored :: "string \<Rightarrow> string"
  io_remove_ok :: bool

definition tune_cache_file :: "string option \<Rightarrow> string" where
  "tune_cache_file home = autotune_cache_dir home @ ''/tune_cache.json''"

definition tune_read_file :: "'d tune_io \<Rightarrow> fsys \<Rightarrow> string \<Rightarrow> string" where
  "tune_read_file io fs path =
     (case map_of fs path of None \<Rightarrow> [] | Some content \<Rightarrow> if io_read_ok io then content else [])"

text \<open>The result of \<open>fwrite\<close> is not looked at; \<open>None\<close> is the exception of \<open>create_directories\<close>.\<close>

definition tune_write_file :: "'d tune_io \<Rightarrow> string \<Rightarrow> string \<Rightarrow> fsys \<Rightarrow> (bool \<times> fsys) option" where
  "tune_write_file io path content fs =
     (if \<not> io_dirs_ok io then None
      else if \<not> io_open_ok io then Some (False, fs)
      else Some (True, write_at path (io_stored io content) fs))"

definition load_cache :: "'d tune_io \<Rightarrow> fsys \<Rightarrow> 'd cjson" where
  "load_cache io fs =
     (let content = tune_read_file io fs (tune_cache_file (io_home io)) in
      if content = [] then CObject []
      else case io_parse io (c_str content) of Some doc \<Rightarrow> doc | None \<Rightarrow> CObject [])"

definition save_cache :: "'d tune_io \<Rightarrow> 'd cjson \<Rightarrow> fsys \<Rightarrow> (bool \<times> fsys) option" where
  "save_cache io doc fs =
     (case io_print io doc of
        None \<Rightarrow> Some (False, fs)
      | Some json \<Rightarrow> tune_write_file io (tune_cache_file (io_home io)) json fs)"

section \<open>Loading and saving\<close>

text \<open>A number as \<open>cJSON_CreateNumber\<close> stores it: the \<open>int\<close> view saturates.\<close>

definition number_of :: "'d::floor_ceiling \<Rightarrow> 'd cjson" where
  "number_of x = CNumber (if x \<ge> of_int INT_MAX then INT_MAX else if x \<le> of_int INT_MIN then INT_MIN else trunc x) x"

definition read_int :: "'d cjson \<Rightarrow> string \<Rightarrow> int \<Rightarrow> int" where
  "read_int obj key old = (case get_object_item (Some obj) key of Some v \<Rightarrow> valueint v | None \<Rightarrow> old)"

definition read_float :: "'d::zero cjson \<Rightarrow> string \<Rightarrow> 'd \<Rightarrow> 'd" where
  "read_float obj key old = (case get_object_item (Some obj) key of Some v \<Rightarrow> valuedouble v | None \<Rightarrow> old)"

definition read_config :: "'d::zero cjson \<Rightarrow> 'd tune_config" where
  "read_config c =
     \<lparr>tc_sessions = read_int c ''sessions'' 0, tc_threads = read_int c ''threads'' 0,
      tc_batch_size = read_int c ''batch_size'' 0, tc_throughput = read_float c ''throughput'' 0,
      tc_latency_p50 = read_float c ''latency_p50'' 0, tc_latency_p95 = read_float c ''latency_p95'' 0\<rparr>"

fun read_configs :: "'d::zero cjson list \<Rightarrow> 'd tune_entry \<Rightarrow> 'd tune_entry" where
  "read_configs [] e = e"
| "read_configs (c # cs) e =
     read_configs cs (case lembed_tune_cache_add_config (Some e) (Some (read_config c)) of Some (Some e1) \<Rightarrow> e1 | _ \<Rightarrow> e)"

definition read_entry :: "'d::zero cjson \<Rightarrow> 'd tune_entry" where
  "read_entry item =
     (let e = tune_entry_zero\<lparr>te_schema_version := read_int item ''schema_version'' TUNE_SCHEMA_VERSION,
                te_best_idx := read_int item ''best_idx'' 0\<rparr>
      in case get_object_item (Some item) ''configs'' of
           None \<Rightarrow> e
         | Some configs \<Rightarrow> read_configs (take MAX_TUNE_CONFIGS (map snd (children configs))) e)"

definition lembed_tune_cache_load ::
    "'d::zero tune_io \<Rightarrow> fsys \<Rightarrow> tune_hardware option \<Rightarrow> tune_software option \<Rightarrow> tune_model option \<Rightarrow> string option
      \<Rightarrow> 'd tune_entry option \<Rightarrow> status \<times> 'd tune_entry option" where
  "lembed_tune_cache_load io fs hw sw model backend entry =
     (if hw = None \<or> sw = None \<or> model = None \<or> backend = None \<or> entry = None then (INVALID_ARGUMENT, entry)
      else case get_object_item (Some (load_cache io fs)) (lembed_tune_cache_key hw sw model backend) of
             None \<Rightarrow> (CACHE_MISS, entry)
           | Some item \<Rightarrow> (OK, Some (read_entry item)))"

definition config_item :: "'d::floor_ceiling tune_config \<Rightarrow> 'd cjson" where
  "config_item c = CObject
     [(''sessions'', number_of (of_int (tc_sessions c))), (''threads'', number_of (of_int (tc_threads c))),
      (''batch_size'', number_of (of_int (tc_batch_size c))), (''throughput'', number_of (tc_throughput c)),
      (''latency_p50'', number_of (tc_latency_p50 c)), (''latency_p95'', number_of (tc_latency_p95 c))]"

definition entry_item :: "'d::floor_ceiling tune_entry \<Rightarrow> 'd cjson" where
  "entry_item e = CObject
     [(''schema_version'', number_of (of_int TUNE_SCHEMA_VERSION)), (''model'', CString (c_str (tm_model_id (te_model e)))),
      (''backend'', CString (c_str (te_backend e))), (''dim'', number_of (of_int (tm_dim (te_model e)))),
      (''best_idx'', number_of (of_int (te_best_idx e))),
      (''configs'', CArray (map config_item (take (nat (te_num_configs e)) (te_configs e)))),
      (''cpu'', CString (c_str (hw_cpu_name (te_hardware e)))), (''os'', CString (c_str (hw_os_name (te_hardware e)))),
      (''libembedding'', CString (c_str (sw_libembedding (te_software e)))),
      (''llama_cpp'', CString (c_str (sw_llama_cpp (te_software e)))),
      (''quantization'', CString (c_str (tm_quantization (te_model e))))]"

definition entry_key :: "'d tune_entry \<Rightarrow> string" where
  "entry_key e = lembed_tune_cache_key (Some (te_hardware e)) (Some (te_software e)) (Some (te_model e)) (Some (te_backend e))"

definition lembed_tune_cache_save ::
    "'d::floor_ceiling tune_io \<Rightarrow> 'd tune_entry option \<Rightarrow> fsys \<Rightarrow> (status \<times> fsys) option" where
  "lembed_tune_cache_save io entry fs =
     (case entry of
        None \<Rightarrow> Some (INVALID_ARGUMENT, fs)
      | Some e \<Rightarrow>
          if int (length (te_configs e)) < te_num_configs e then None
          else (case save_cache io (add_item (entry_key e) (entry_item e) (load_cache io fs)) fs of
                  None \<Rightarrow> None
                | Some (ok, fs') \<Rightarrow> Some (if ok then OK else IO_ERROR, fs')))"

definition lembed_tune_cache_clear :: "'d tune_io \<Rightarrow> fsys \<Rightarrow> (status \<times> fsys) option" where
  "lembed_tune_cache_clear io fs =
     (if io_remove_ok io then Some (OK, remove_at (tune_cache_file (io_home io)) fs) else None)"

section \<open>Facts\<close>

definition int_range :: "int \<Rightarrow> bool" where
  "int_range i \<longleftrightarrow> INT_MIN \<le> i \<and> i \<le> INT_MAX"

text \<open>An entry as the library builds it: sixteen slots, a count within them, \<open>int\<close> values.\<close>

definition entry_ok :: "'d tune_entry \<Rightarrow> bool" where
  "entry_ok e \<longleftrightarrow> 0 \<le> te_num_configs e \<and> te_num_configs e \<le> int MAX_TUNE_CONFIGS \<and>
     length (te_configs e) = MAX_TUNE_CONFIGS \<and> int_range (te_best_idx e) \<and>
     list_all (\<lambda>c. int_range (tc_sessions c) \<and> int_range (tc_threads c) \<and> int_range (tc_batch_size c))
       (take (nat (te_num_configs e)) (te_configs e))"

lemma valueint_number [simp]: "int_range i \<Longrightarrow> valueint (number_of (of_int i)) = i"
  by (auto simp: number_of_def valueint_def int_range_def trunc_def)

lemma valuedouble_number [simp]: "valuedouble (number_of x) = x"
  by (simp add: number_of_def valuedouble_def)

lemma read_config_item:
  "int_range (tc_sessions c) \<Longrightarrow> int_range (tc_threads c) \<Longrightarrow> int_range (tc_batch_size c) \<Longrightarrow>
     read_config (config_item c) = c"
  by (simp add: read_config_def config_item_def read_int_def read_float_def same_name_def lower_byte_def byte_def)

lemma add_config_room:
  assumes "te_num_configs e = int k" and "k < MAX_TUNE_CONFIGS"
  shows "lembed_tune_cache_add_config (Some e) (Some c) =
    Some (Some (e\<lparr>te_configs := (te_configs e)[k := c], te_num_configs := int (Suc k)\<rparr>))"
  using assms by (simp add: lembed_tune_cache_add_config_def)

lemma read_configs_fill:
  assumes "te_num_configs e = int k" and "length (te_configs e) = MAX_TUNE_CONFIGS" and "k + length cs \<le> MAX_TUNE_CONFIGS"
    and "list_all (\<lambda>c. int_range (tc_sessions c) \<and> int_range (tc_threads c) \<and> int_range (tc_batch_size c)) cs"
  shows "read_configs (map config_item cs) e =
    e\<lparr>te_configs := take k (te_configs e) @ cs @ drop (k + length cs) (te_configs e), te_num_configs := int (k + length cs)\<rparr>"
  using assms
proof (induction cs arbitrary: e k)
  case Nil
  then show ?case by (cases e) simp
next
  case (Cons c cs)
  let ?e = "e\<lparr>te_configs := (te_configs e)[k := c], te_num_configs := int (Suc k)\<rparr>"
  have k: "k < length (te_configs e)" using Cons.prems by simp
  have "read_configs (map config_item (c # cs)) e = read_configs (map config_item cs) ?e"
    using Cons.prems add_config_room [of e k c] by (simp add: read_config_item)
  also have "\<dots> = ?e\<lparr>te_configs := take (Suc k) (te_configs ?e) @ cs @ drop (Suc k + length cs) (te_configs ?e),
      te_num_configs := int (Suc k + length cs)\<rparr>"
    using Cons.prems by (intro Cons.IH) simp_all
  also have "\<dots> = e\<lparr>te_configs := take k (te_configs e) @ (c # cs) @ drop (k + length (c # cs)) (te_configs e),
      te_num_configs := int (k + length (c # cs))\<rparr>"
    using k by (simp add: take_Suc_conv_app_nth)
  finally show ?case .
qed

text \<open>What a load finds of a saved entry: the measurements; the fingerprints are not read back.\<close>

definition reloaded :: "'d::zero tune_entry \<Rightarrow> 'd tune_entry" where
  "reloaded e = tune_entry_zero\<lparr>te_schema_version := TUNE_SCHEMA_VERSION, te_best_idx := te_best_idx e,
     te_num_configs := te_num_configs e,
     te_configs := take (nat (te_num_configs e)) (te_configs e) @
       replicate (MAX_TUNE_CONFIGS - nat (te_num_configs e)) tune_config_zero\<rparr>"

lemma read_entry_item:
  assumes "entry_ok e"
  shows "read_entry (entry_item e) = reloaded e"
proof -
  let ?cs = "take (nat (te_num_configs e)) (te_configs e)"
  have len: "length ?cs = nat (te_num_configs e)" using assms by (auto simp: entry_ok_def)
  have v: "valueint (number_of (2::'a)) = 2"
    using valueint_number [where 'a = 'a, of 2] by (simp add: int_range_def INT_MIN_def INT_MAX_def)
  have "read_configs (map config_item ?cs) (tune_entry_zero\<lparr>te_schema_version := TUNE_SCHEMA_VERSION, te_best_idx := te_best_idx e\<rparr>)
      = reloaded e"
    using assms len
    by (subst read_configs_fill [where k = 0])
      (simp_all add: entry_ok_def tune_entry_zero_def reloaded_def)
  moreover have "take MAX_TUNE_CONFIGS (map config_item ?cs) = map config_item ?cs" using assms len by (simp add: entry_ok_def)
  moreover have "read_int (entry_item e) ''schema_version'' TUNE_SCHEMA_VERSION = TUNE_SCHEMA_VERSION"
    "read_int (entry_item e) ''best_idx'' 0 = te_best_idx e"
    "get_object_item (Some (entry_item e)) ''configs'' = Some (CArray (map config_item ?cs))"
    using assms v by (simp_all add: entry_item_def read_int_def same_name_def lower_byte_def byte_def TUNE_SCHEMA_VERSION_def
        entry_ok_def)
  ultimately show ?thesis by (simp add: read_entry_def Let_def o_def)
qed

text \<open>What the round trip relies on: the calls succeed, the text reaches the disk and parses to what was printed.\<close>

definition stores_tree :: "'d tune_io \<Rightarrow> 'd cjson \<Rightarrow> bool" where
  "stores_tree io doc \<longleftrightarrow> io_read_ok io \<and> io_dirs_ok io \<and> io_open_ok io \<and>
     (\<exists>json. io_print io doc = Some json \<and> io_stored io json = json \<and> json \<noteq> [] \<and> io_parse io (c_str json) = Some doc)"

lemma save_load_cache:
  assumes "stores_tree io doc"
  shows "\<exists>fs'. save_cache io doc fs = Some (True, fs') \<and> load_cache io fs' = doc"
  using assms
  by (auto simp: stores_tree_def save_cache_def load_cache_def tune_write_file_def tune_read_file_def write_at_def)

lemma load_cache_object:
  "get_object_item (Some doc) key = Some item \<Longrightarrow> \<exists>kvs. doc = CObject kvs"
  by (cases doc) (auto simp: get_object_item_def same_name_def find_Some_iff)

lemma split_at_bar:
  assumes "a @ CHR ''|'' # x = b @ CHR ''|'' # y" and "CHR ''|'' \<notin> set a" and "CHR ''|'' \<notin> set b"
  shows "a = b \<and> x = y"
  using assms
proof (induction a arbitrary: b)
  case Nil
  then show ?case by (cases b) auto
next
  case (Cons c a)
  then show ?case by (cases b) auto
qed

definition bar_free :: "string \<Rightarrow> bool" where
  "bar_free s \<longleftrightarrow> CHR ''|'' \<notin> set s \<and> CHR 0x00 \<notin> set s"

lemma bar_free_field: "bar_free s \<Longrightarrow> key_field (Some s) = s \<and> CHR ''|'' \<notin> set s"
  by (simp add: bar_free_def key_field_def c_str_def takeWhile_eq_all_conv) metis

section \<open>Properties\<close>

text \<open>C39. The first save of a fingerprint is read back: when the entry is well formed, the file calls succeed and
  cJSON parses what it prints, a load with the same fingerprint returns every measured configuration
  and the index of the best one.\<close>

theorem tune_save_load:
  assumes "entry_ok e" and "stores_tree io (add_item (entry_key e) (entry_item e) (load_cache io fs))"
    and "load_cache io fs = CObject kvs" and "get_object_item (Some (load_cache io fs)) (entry_key e) = None"
  shows "\<exists>fs'. lembed_tune_cache_save io (Some e) fs = Some (OK, fs') \<and>
    lembed_tune_cache_load io fs' (Some (te_hardware e)) (Some (te_software e)) (Some (te_model e)) (Some (te_backend e))
      (Some old) = (OK, Some (reloaded e))"
proof -
  let ?doc = "add_item (entry_key e) (entry_item e) (load_cache io fs)"
  obtain fs' where fs': "save_cache io ?doc fs = Some (True, fs')" "load_cache io fs' = ?doc"
    using save_load_cache [OF assms(2)] by blast
  have "lembed_tune_cache_save io (Some e) fs = Some (OK, fs')"
    using assms(1) fs'(1) by (simp add: lembed_tune_cache_save_def entry_ok_def)
  moreover have "get_object_item (Some ?doc) (entry_key e) = Some (entry_item e)"
    using assms(3,4) by (simp add: get_object_item_append)
  ultimately show ?thesis
    using fs'(2) read_entry_item [OF assms(1)] by (auto simp: lembed_tune_cache_load_def entry_key_def)
qed

text \<open>A second save of the same fingerprint is lost: it reports OK, but as the new member is appended and the
  lookup takes the first one, every later load, of this fingerprint or of any other, returns exactly
  what it returned before.\<close>

theorem tune_resave_ignored:
  assumes "entry_ok e" and "stores_tree io (add_item (entry_key e) (entry_item e) (load_cache io fs))"
    and "get_object_item (Some (load_cache io fs)) (entry_key e) = Some item"
  shows "\<exists>fs'. lembed_tune_cache_save io (Some e) fs = Some (OK, fs') \<and>
    lembed_tune_cache_load io fs' hw sw model backend old = lembed_tune_cache_load io fs hw sw model backend old"
proof -
  obtain kvs where kvs: "load_cache io fs = CObject kvs" using load_cache_object [OF assms(3)] by blast
  let ?doc = "add_item (entry_key e) (entry_item e) (load_cache io fs)"
  obtain fs' where fs': "save_cache io ?doc fs = Some (True, fs')" "load_cache io fs' = ?doc"
    using save_load_cache [OF assms(2)] by blast
  have "lembed_tune_cache_save io (Some e) fs = Some (OK, fs')"
    using assms(1) fs'(1) by (simp add: lembed_tune_cache_save_def entry_ok_def)
  moreover have "get_object_item (Some ?doc) k = get_object_item (Some (load_cache io fs)) k" for k
  proof (cases "same_name k (Some (entry_key e))")
    case True
    then have "same_name k = same_name (entry_key e)"
      by (simp add: fun_eq_iff same_name_def cong: option.case_cong)
    then have "get_object_item (Some (CObject kvs)) k = Some item"
      using assms(3) unfolding kvs get_object_item_def by simp
    then show ?thesis by (simp add: kvs get_object_item_append)
  next
    case False
    then show ?thesis by (simp add: kvs get_object_item_append split: option.split)
  qed
  ultimately show ?thesis using fs'(2) by (auto simp: lembed_tune_cache_load_def)
qed

text \<open>Among fields without a separator the text that is hashed determines the fingerprint. A field may hold a
  separator, though, and then two different fingerprints have one text and one key.\<close>

theorem tune_key_text:
  "(fingerprint_text (Some hw) (Some sw) (Some model) (Some backend) = fingerprint_text (Some hw') (Some sw') (Some model') (Some backend')
      \<longrightarrow> list_all bar_free [hw_cpu_name hw, hw_os_name hw, sw_libembedding sw, sw_llama_cpp sw, tm_model_id model, backend,
            hw_cpu_name hw', hw_os_name hw', sw_libembedding sw', sw_llama_cpp sw', tm_model_id model', backend']
      \<longrightarrow> [hw_cpu_name hw, hw_os_name hw, sw_libembedding sw, sw_llama_cpp sw, tm_model_id model, backend] =
          [hw_cpu_name hw', hw_os_name hw', sw_libembedding sw', sw_llama_cpp sw', tm_model_id model', backend']) \<and>
   lembed_tune_cache_key (Some (hw\<lparr>hw_cpu_name := ''a|b'', hw_os_name := ''c''\<rparr>)) sw0 model0 backend0 =
     lembed_tune_cache_key (Some (hw\<lparr>hw_cpu_name := ''a'', hw_os_name := ''b|c''\<rparr>)) sw0 model0 backend0"
  (is "(?eq \<longrightarrow> ?free \<longrightarrow> ?same) \<and> ?collision")
proof (intro conjI impI)
  show ?collision by (simp add: lembed_tune_cache_key_def fingerprint_text_def key_field_def c_str_def)
  assume eq: ?eq and ?free
  from \<open>?free\<close> have fields: "list_all (\<lambda>s. key_field (Some s) = s \<and> CHR ''|'' \<notin> set s)
      [hw_cpu_name hw, hw_os_name hw, sw_libembedding sw, sw_llama_cpp sw, tm_model_id model, backend,
       hw_cpu_name hw', hw_os_name hw', sw_libembedding sw', sw_llama_cpp sw', tm_model_id model', backend']"
    by (rule list.pred_mono_strong) (rule bar_free_field)
  with eq show ?same by (simp add: fingerprint_text_def) (metis split_at_bar append1_eq_conv)
qed

definition sample_tune :: "rat tune_entry" where
  "sample_tune = tune_entry_zero\<lparr>te_backend := ''onnx'', te_num_configs := 1,
     te_configs := tune_config_zero\<lparr>tc_threads := 4, tc_throughput := 3\<rparr> # replicate 15 tune_config_zero\<rparr>"

definition sample_tree_io :: "rat cjson \<Rightarrow> rat cjson \<Rightarrow> rat tune_io" where
  "sample_tree_io before after = \<lparr>io_home = None, io_parse = \<lambda>t. Some (if t = ''old'' then before else after),
     io_print = \<lambda>_. Some ''new'', io_read_ok = True, io_dirs_ok = True, io_open_ok = True, io_stored = \<lambda>t. t,
     io_remove_ok = True\<rparr>"

lemma sample_tune_ok: "entry_ok sample_tune"
  by (simp add: entry_ok_def sample_tune_def tune_entry_zero_def tune_config_zero_def MAX_TUNE_CONFIGS_def int_range_def
      INT_MIN_def INT_MAX_def)

lemma sample_stores: "stores_tree (sample_tree_io before doc) doc"
  by (simp add: stores_tree_def sample_tree_io_def c_str_def)

theorem tune_save_load_witness:
  "\<exists>fs'. lembed_tune_cache_save (sample_tree_io (CObject []) (CObject [(entry_key sample_tune, entry_item sample_tune)]))
      (Some sample_tune) [] = Some (OK, fs') \<and>
    te_configs (reloaded sample_tune) ! 0 = tune_config_zero\<lparr>tc_threads := 4, tc_throughput := 3\<rparr>"
proof -
  let ?io = "sample_tree_io (CObject []) (CObject [(entry_key sample_tune, entry_item sample_tune)])"
  have c: "load_cache ?io [] = CObject []" by (simp add: load_cache_def tune_read_file_def)
  have "\<exists>fs'. lembed_tune_cache_save ?io (Some sample_tune) [] = Some (OK, fs')"
    using tune_save_load [OF sample_tune_ok _ c] sample_stores by (fastforce simp: c)
  then show ?thesis by (simp add: reloaded_def sample_tune_def)
qed

theorem tune_resave_ignored_witness:
  "\<exists>fs'. lembed_tune_cache_save (sample_tree_io (CObject [(entry_key sample_tune, CNull)])
        (CObject [(entry_key sample_tune, CNull), (entry_key sample_tune, entry_item sample_tune)]))
      (Some sample_tune) [(tune_cache_file None, ''old'')] = Some (OK, fs')"
proof -
  let ?io = "sample_tree_io (CObject [(entry_key sample_tune, CNull)])
        (CObject [(entry_key sample_tune, CNull), (entry_key sample_tune, entry_item sample_tune)])"
  let ?fs = "[(tune_cache_file None, ''old'')]"
  have c: "load_cache ?io ?fs = CObject [(entry_key sample_tune, CNull)]"
    by (simp add: load_cache_def tune_read_file_def sample_tree_io_def c_str_def)
  have "stores_tree ?io (add_item (entry_key sample_tune) (entry_item sample_tune) (load_cache ?io ?fs))"
    using sample_stores by (simp add: c)
  moreover have "get_object_item (Some (load_cache ?io ?fs)) (entry_key sample_tune) = Some CNull" by (simp add: c)
  ultimately show ?thesis using tune_resave_ignored [OF sample_tune_ok] by blast
qed

theorem tune_key_text_witness:
  "fingerprint_text (Some (tune_hardware_zero\<lparr>hw_cpu_name := ''a'', hw_os_name := ''b''\<rparr>)) (Some \<lparr>sw_libembedding = [], sw_llama_cpp = []\<rparr>)
      (Some (te_model sample_tune)) (Some ''x'') \<noteq>
   fingerprint_text (Some (tune_hardware_zero\<lparr>hw_cpu_name := ''ab'', hw_os_name := []\<rparr>)) (Some \<lparr>sw_libembedding = [], sw_llama_cpp = []\<rparr>)
      (Some (te_model sample_tune)) (Some ''x'')"
proof
  assume eq: "fingerprint_text (Some (tune_hardware_zero\<lparr>hw_cpu_name := ''a'', hw_os_name := ''b''\<rparr>)) (Some \<lparr>sw_libembedding = [], sw_llama_cpp = []\<rparr>)
      (Some (te_model sample_tune)) (Some ''x'') =
   fingerprint_text (Some (tune_hardware_zero\<lparr>hw_cpu_name := ''ab'', hw_os_name := []\<rparr>)) (Some \<lparr>sw_libembedding = [], sw_llama_cpp = []\<rparr>)
      (Some (te_model sample_tune)) (Some ''x'')"
  from tune_key_text [THEN conjunct1, rule_format, OF eq] show False
    by (simp add: bar_free_def sample_tune_def tune_entry_zero_def)
qed

end
