(* ===== verification/CpuInfo.thy ===== *)
theory CpuInfo
  imports CacheText
begin

text \<open>
  What \<open>detail/autotune_cache.hpp\<close> reads from \<open>/proc/cpuinfo\<close>: the number of physical cores and the brand
  of the processor, line by line through a buffer of 256 bytes. The file is a string, or \<open>None\<close> when it
  cannot be opened; an outer \<open>None\<close> is undefined behaviour: a number that does not fit an \<open>int\<close>, or a copy
  that starts behind the end of a line.
\<close>

section \<open>Reading lines\<close>

definition LINE_SIZE :: nat where "LINE_SIZE = 256"

definition fgets :: "string \<Rightarrow> string" where
  "fgets s = take (LINE_SIZE - 1)
     (takeWhile (\<lambda>c. c \<noteq> CHR 0x0A) s @ take 1 (dropWhile (\<lambda>c. c \<noteq> CHR 0x0A) s))"

lemma fgets_nonempty: "s \<noteq> [] \<Longrightarrow> fgets s \<noteq> []"
  by (cases s) (auto simp: fgets_def LINE_SIZE_def)

function fgets_lines :: "string \<Rightarrow> string list" where
  "fgets_lines s = (if s = [] then [] else fgets s # fgets_lines (drop (length (fgets s)) s))"
  by pat_completeness auto

termination
  by (relation "measure length") (use fgets_nonempty in \<open>auto simp: diff_less\<close>)

declare fgets_lines.simps [simp del]

section \<open>Scanning a number\<close>

definition is_space :: "char \<Rightarrow> bool" where
  "is_space c \<longleftrightarrow> c \<in> {CHR '' '', CHR 0x09, CHR 0x0A, CHR 0x0B, CHR 0x0C, CHR 0x0D}"

definition is_decimal :: "char \<Rightarrow> bool" where
  "is_decimal c \<longleftrightarrow> 48 \<le> byte c \<and> byte c \<le> 57"

definition skip_literal :: "string \<Rightarrow> string option \<Rightarrow> string option" where
  "skip_literal lit s = (case s of None \<Rightarrow> None
     | Some t \<Rightarrow> if take (length lit) t = lit then Some (drop (length lit) t) else None)"

definition skip_spaces :: "string option \<Rightarrow> string option" where
  "skip_spaces = map_option (dropWhile is_space)"

definition digits_value :: "string \<Rightarrow> int" where
  "digits_value ds = foldl (\<lambda>n d. 10 * n + (int (byte d) - 48)) 0 ds"

text \<open>\<open>%d\<close>: no conversion, or a number; a number out of range is undefined.\<close>

definition scan_int :: "string \<Rightarrow> int option option" where
  "scan_int s =
     (let t = dropWhile is_space s;
          negative = (t \<noteq> [] \<and> hd t = CHR ''-'');
          u = (if t \<noteq> [] \<and> (hd t = CHR ''-'' \<or> hd t = CHR ''+'') then tl t else t);
          ds = takeWhile is_decimal u
      in if ds = [] then Some None
         else map_option Some (c_int (if negative then - digits_value ds else digits_value ds)))"

text \<open>\<open>sscanf(line, "cpu cores : %d", &n) == 1\<close>\<close>

definition scan_cores :: "string \<Rightarrow> int option option" where
  "scan_cores line =
     (case skip_spaces (skip_literal '':'' (skip_spaces (skip_literal ''cores'' (skip_spaces
             (skip_literal ''cpu'' (Some (c_str line))))))) of
        None \<Rightarrow> Some None
      | Some t \<Rightarrow> scan_int t)"

section \<open>Cores and brand\<close>

definition starts_with :: "string \<Rightarrow> string \<Rightarrow> bool" where
  "starts_with p line \<longleftrightarrow> take (length p) (c_str line) = p"

fun most_cores :: "string list \<Rightarrow> int \<Rightarrow> int option" where
  "most_cores [] n = Some n"
| "most_cores (line # lines) n =
     (if starts_with ''cpu cores'' line then
        (case scan_cores line of
           None \<Rightarrow> None
         | Some None \<Rightarrow> most_cores lines n
         | Some (Some k) \<Rightarrow> most_cores lines (if k > n then k else n))
      else most_cores lines n)"

definition cpu_physical_cores :: "int \<Rightarrow> string option \<Rightarrow> int option" where
  "cpu_physical_cores logical cpuinfo =
     (case cpuinfo of
        None \<Rightarrow> Some logical
      | Some content \<Rightarrow> map_option (\<lambda>n. if n > 0 then n else logical) (most_cores (fgets_lines content) 0))"

definition BRAND_SIZE :: nat where "BRAND_SIZE = 64"

definition brand_of_line :: "string \<Rightarrow> string option" where
  "brand_of_line line =
     (let s = c_str line; i = length (takeWhile (\<lambda>c. c \<noteq> CHR '':'') s) in
      if i = length s then Some ''unknown''
      else if i + 2 > length s then None
      else Some (takeWhile (\<lambda>c. c \<noteq> CHR 0x0A) (take (BRAND_SIZE - 1) (drop (i + 2) s))))"

definition raw_brand :: "string option \<Rightarrow> string option" where
  "raw_brand cpuinfo =
     (case cpuinfo of
        None \<Rightarrow> Some ''unknown''
      | Some content \<Rightarrow>
          (case find (starts_with ''model name'') (fgets_lines content) of
             None \<Rightarrow> Some ''unknown'' | Some line \<Rightarrow> brand_of_line line))"

definition cpu_brand_string :: "string option \<Rightarrow> string option" where
  "cpu_brand_string cpuinfo = map_option sanitize_brand (raw_brand cpuinfo)"

section \<open>Facts\<close>

lemma fgets_prefix: "s = fgets s @ drop (length (fgets s)) s"
proof -
  let ?n = "length (takeWhile (\<lambda>c. c \<noteq> CHR 0x0A) s)"
  have "takeWhile (\<lambda>c. c \<noteq> CHR 0x0A) s @ take 1 (dropWhile (\<lambda>c. c \<noteq> CHR 0x0A) s) = take (?n + 1) s"
    by (simp only: take_add dropWhile_eq_drop takeWhile_eq_take [symmetric])
  then have "fgets s = take (min (LINE_SIZE - 1) (?n + 1)) s" by (simp only: fgets_def take_take)
  then obtain k where "fgets s = take k s" by blast
  then show ?thesis by (cases "k \<le> length s") simp_all
qed

lemma fgets_lines_ok:
  "concat (fgets_lines s) = s \<and> (\<forall>l \<in> set (fgets_lines s). l \<noteq> [] \<and> length l < LINE_SIZE)"
proof (induction s rule: fgets_lines.induct)
  case (1 s)
  show ?case
  proof (cases "s = []")
    case True
    then show ?thesis by (simp add: fgets_lines.simps)
  next
    case False
    have "length (fgets s) < LINE_SIZE" by (simp add: fgets_def LINE_SIZE_def)
    then show ?thesis
      using False 1 [OF False] fgets_prefix [of s] fgets_nonempty [OF False]
      by (subst (1 2) fgets_lines.simps) auto
  qed
qed

lemma most_cores_ge: "most_cores lines n = Some k \<Longrightarrow> n \<le> k"
  by (induction lines n rule: most_cores.induct) (auto split: if_splits option.splits)

lemma brand_chars:
  assumes "raw_brand cpuinfo = Some b"
  shows "length b < BRAND_SIZE \<and> CHR 0x0A \<notin> set b"
proof -
  have short: "length (takeWhile P (take n l)) < Suc n" for P n and l :: string
    using length_takeWhile_le [of P "take n l"] by simp
  moreover have "CHR 0x0A \<notin> set (takeWhile (\<lambda>c. c \<noteq> CHR 0x0A) l)" for l by (auto dest: set_takeWhileD)
  ultimately show ?thesis
    using assms short [where n = 63]
    by (auto simp: raw_brand_def brand_of_line_def BRAND_SIZE_def Let_def split: option.splits if_splits)
qed

section \<open>Properties\<close>

text \<open>However the processor describes itself, reading its description terminates, visits every byte once in
  pieces that fit the buffer, and gives a brand of at most 63 characters that can stand in a file name:
  it has no separator, no newline and none of the characters that are replaced. The number of physical
  cores is positive whenever the number of logical ones is.\<close>

theorem cpu_description_safe:
  "concat (fgets_lines content) = content \<and> (\<forall>l \<in> set (fgets_lines content). l \<noteq> [] \<and> length l < 256) \<and>
   (cpu_brand_string cpuinfo = Some b \<longrightarrow> length b \<le> 63 \<and> set b \<inter> set '' ()@./'' = {} \<and> CHR 0x0A \<notin> set b) \<and>
   (cpu_physical_cores logical cpuinfo = Some n \<longrightarrow> 0 < logical \<longrightarrow> 0 < n)"
proof -
  have "length b \<le> 63 \<and> set b \<inter> set '' ()@./'' = {} \<and> CHR 0x0A \<notin> set b" if "cpu_brand_string cpuinfo = Some b"
  proof -
    from that obtain r where r: "raw_brand cpuinfo = Some r" "b = sanitize_brand r" by (auto simp: cpu_brand_string_def)
    have "length (c_str r) \<le> length r" "set (c_str r) \<subseteq> set r"
      by (auto simp: c_str_def length_takeWhile_le dest: set_takeWhileD)
    with brand_chars [OF r(1)] show ?thesis unfolding r(2) by (auto simp: sanitize_brand_def BRAND_SIZE_def)
  qed
  moreover have "0 < n" if "cpu_physical_cores logical cpuinfo = Some n" "0 < logical"
    using that by (auto simp: cpu_physical_cores_def split: option.splits if_splits)
  ultimately show ?thesis using fgets_lines_ok [of content] by (simp add: LINE_SIZE_def)
qed

definition sample_cpuinfo :: string where
  "sample_cpuinfo = ''model name'' @ [CHR 0x09] @ '': Core(TM) i7 @ 2.6'' @ [CHR 0x0A] @ ''cpu cores'' @ [CHR 0x09] @ '': 4'' @ [CHR 0x0A]"

theorem cpu_description_safe_witness:
  "cpu_brand_string (Some sample_cpuinfo) = Some ''Core_TM__i7___2_6'' \<and> cpu_physical_cores 8 (Some sample_cpuinfo) = Some 4 \<and>
   set ''Core_TM__i7___2_6'' \<inter> set '' ()@./'' = {}"
proof -
  have "cpu_brand_string (Some sample_cpuinfo) = Some ''Core_TM__i7___2_6''" by code_simp
  moreover have "cpu_physical_cores 8 (Some sample_cpuinfo) = Some 4" by code_simp
  ultimately show ?thesis
    using cpu_description_safe [of sample_cpuinfo "Some sample_cpuinfo" "''Core_TM__i7___2_6''" 8 4] by blast
qed

end
