(* ===== verification/BpeLoop.thy ===== *)
theory BpeLoop
  imports Tokenizer "HOL-Library.While_Combinator"
begin

text \<open>
  The merge loop of \<open>bpe_tokenize\<close> in \<open>detail/tokenizer_impl.hpp\<close> as the code writes it: one round after
  another until a round finds no pair. \<open>Tokenizer\<close> uses its closed form \<open>bpe_merge\<close>; here the two are
  the same, so the loop of the code ends.
\<close>

text \<open>One round: the pair to merge, or \<open>None\<close> where the loop breaks.\<close>

definition bpe_round :: "(string \<rightharpoonup> int) \<Rightarrow> string list \<Rightarrow> string list option" where
  "bpe_round ranks syms =
     (if length syms > 1
      then map_option (\<lambda>p. merge_at p syms) (snd (bpe_scan ranks syms 0 (INT_MAX, None)))
      else None)"

definition bpe_loop :: "(string \<rightharpoonup> int) \<Rightarrow> string list \<Rightarrow> string list option" where
  "bpe_loop ranks = while_option (\<lambda>syms. bpe_round ranks syms \<noteq> None) (\<lambda>syms. the (bpe_round ranks syms))"

lemma bpe_round_shorter: "bpe_round ranks syms = Some syms' \<Longrightarrow> Suc (length syms') = length syms"
  by (auto simp: bpe_round_def merge_at_def split: if_splits dest!: bpe_scan_pos)

lemma bpe_merge_round:
  "bpe_merge ranks syms = (case bpe_round ranks syms of None \<Rightarrow> syms | Some syms' \<Rightarrow> bpe_merge ranks syms')"
  by (subst bpe_merge.simps) (simp add: bpe_round_def split: option.split)

lemma bpe_loop_merge: "bpe_loop ranks syms = Some (bpe_merge ranks syms)"
proof (induction "length syms" arbitrary: syms rule: less_induct)
  case less
  show ?case
  proof (cases "bpe_round ranks syms")
    case None
    then show ?thesis unfolding bpe_loop_def by (subst while_option_unfold, subst bpe_merge_round) simp
  next
    case (Some syms')
    with bpe_round_shorter [OF Some] have "bpe_loop ranks syms' = Some (bpe_merge ranks syms')"
      by (intro less) simp
    with Some show ?thesis unfolding bpe_loop_def by (subst while_option_unfold, subst bpe_merge_round) simp
  qed
qed

lemma bpe_rounds:
  "\<exists>k. length (bpe_merge ranks syms) + k = length syms \<and> ((\<lambda>s. case s of None \<Rightarrow> None | Some x \<Rightarrow> bpe_round ranks x) ^^ k) (Some syms)
      = Some (bpe_merge ranks syms)"
proof (induction "length syms" arbitrary: syms rule: less_induct)
  case less
  let ?step = "\<lambda>s. case s of None \<Rightarrow> None | Some x \<Rightarrow> bpe_round ranks x"
  show ?case
  proof (cases "bpe_round ranks syms")
    case None
    then show ?thesis by (intro exI [of _ 0], subst bpe_merge_round) (subst bpe_merge_round, simp)
  next
    case (Some syms')
    with bpe_round_shorter [OF Some] less [of syms'] obtain k where k:
      "length (bpe_merge ranks syms') + k = length syms'" "(?step ^^ k) (Some syms') = Some (bpe_merge ranks syms')" by auto
    have "bpe_merge ranks syms = bpe_merge ranks syms'" using Some by (subst bpe_merge_round) simp
    with k Some bpe_round_shorter [OF Some] show ?thesis
      by (intro exI [of _ "Suc k"]) (simp add: funpow_Suc_right del: funpow.simps)
  qed
qed

section \<open>Properties\<close>

text \<open>C34. The merge loop ends on every word, whatever the ranks, with the symbols of the closed form, after one
  round for each symbol that disappears and so after fewer rounds than the word has symbols; the round
  after that finds no pair.\<close>

theorem bpe_loop_ends:
  "bpe_loop ranks syms = Some (bpe_merge ranks syms) \<and> bpe_round ranks (bpe_merge ranks syms) = None \<and>
   (\<exists>k. length (bpe_merge ranks syms) + k = length syms \<and>
     ((\<lambda>s. case s of None \<Rightarrow> None | Some x \<Rightarrow> bpe_round ranks x) ^^ k) (Some syms) = Some (bpe_merge ranks syms))"
proof -
  have "bpe_round ranks (bpe_merge ranks syms) = None"
    using while_option_stop [of "\<lambda>s. bpe_round ranks s \<noteq> None" _ syms "bpe_merge ranks syms"] bpe_loop_merge [of ranks syms]
    by (simp add: bpe_loop_def)
  then show ?thesis using bpe_loop_merge [of ranks syms] bpe_rounds [of ranks syms] by blast
qed

end
