(* ===== verification/TextBackends.thy ===== *)
theory TextBackends
  imports Pooling OnnxSession LlamaSession Batching Tokenizer LruCache Types
begin

text \<open>
  The dense text embedding: the context of \<open>detail/text_embedding_impl.hpp\<close>, its ONNX backend
  (\<open>detail/text_embedding_onnx_impl.hpp\<close>) and its llama.cpp backend
  (\<open>detail/text_embedding_llama_impl.hpp\<close>), composed of the tokenizer, the session wrappers, pooling,
  normalisation, batching and the cache. An exception is \<open>Threw\<close> with its message; an access outside
  a buffer or an \<open>int\<close> overflow is \<open>Undef\<close>. The caller's result buffer is the list of its rows of
  \<open>dim\<close> entries.
\<close>

section \<open>The environment and the context\<close>

datatype embed_fail = Threw string | Undef

text \<open>The message of \<open>std::length_error\<close> is that of the standard library's vector.\<close>

definition length_error_what :: string where
  "length_error_what = ''vector::_M_default_append''"

fun thrown :: "tok_fail \<Rightarrow> embed_fail" where
  "thrown (RuntimeError msg) = Threw msg"
| "thrown LengthError = Threw length_error_what"
| "thrown Undefined = Undef"

text \<open>The runtimes, the float operations, \<open>std::sort\<close> on indices and \<open>malloc\<close> in the cache.\<close>

record ('m, 'f) embed_env =
  env_fails :: ort_faults
  env_infer :: "'f inference"
  env_llama :: "('m, 'f) llama_lib"
  env_sqrt :: "'f \<Rightarrow> 'f"
  env_norm_eps :: 'f
  env_pool_eps :: 'f
  env_sort :: "(nat \<Rightarrow> nat \<Rightarrow> bool) \<Rightarrow> nat list \<Rightarrow> nat list"
  env_put_ok :: "string \<Rightarrow> bool"

record model_desc =
  d_name :: string
  d_dimension :: int
  d_max_length :: int
  d_pooling :: pooling
  d_num_threads :: int
  d_batch_size :: int
  d_provider :: int
  d_device_id :: int

record model_desc_v2 =
  d_base :: model_desc
  d_quantization :: int
  d_cache_size :: int

record ('m, 'f) text_ctx =
  backend_type :: backend
  onnx_sess :: onnx_session
  onnx_tok :: tokenizer
  llama_sess :: "'m llama_session"
  llama_pool_of :: "'m llama_pool"
  cx_pooling :: pooling
  cx_quantization :: int
  cx_dim :: int
  cx_max_length :: int
  output_key :: string
  model_name_str :: string
  cx_num_threads :: int
  cx_batch_size :: int
  cx_provider :: int
  cx_device_id :: int
  cx_desc :: model_desc
  cx_desc_v2 :: model_desc_v2
  texts_embedded :: "64 word"
  batches_run :: "64 word"
  cache_hits :: "64 word"
  cache_misses :: "64 word"
  total_latency :: 'f
  stats_calls :: int
  pooled_buf :: "'f list"
  batch_strategy :: int
  cx_cache :: "'f lru option"

definition BATCH_SEQUENTIAL :: int where "BATCH_SEQUENTIAL = 0"
definition BATCH_FIXED :: int where "BATCH_FIXED = 1"
definition BATCH_LENGTH_BUCKET :: int where "BATCH_LENGTH_BUCKET = 2"

definition update_desc :: "('m, 'f) text_ctx \<Rightarrow> ('m, 'f) text_ctx" where
  "update_desc c =
     (let d = \<lparr>d_name = model_name_str c, d_dimension = cx_dim c, d_max_length = cx_max_length c,
               d_pooling = cx_pooling c, d_num_threads = cx_num_threads c, d_batch_size = cx_batch_size c,
               d_provider = cx_provider c, d_device_id = cx_device_id c\<rparr>
      in c\<lparr>cx_desc := d,
           cx_desc_v2 := \<lparr>d_base = d, d_quantization = cx_quantization c,
             d_cache_size = (case cx_cache c of None \<Rightarrow> 0 | Some l \<Rightarrow> int (capacity l))\<rparr>\<rparr>)"

section \<open>The ONNX backend\<close>

subsection \<open>One batch\<close>

definition flatten_rows :: "nat \<Rightarrow> nat \<Rightarrow> int list list \<Rightarrow> int list" where
  "flatten_rows bsz seq_len rows = concat (map (\<lambda>i. map (\<lambda>j. rows ! i ! j) [0..<seq_len]) [0..<bsz])"

definition flatten_types :: "nat \<Rightarrow> nat \<Rightarrow> int list list \<Rightarrow> int list" where
  "flatten_types bsz seq_len rows =
     concat (map (\<lambda>i. map (\<lambda>j. if length (rows ! i) > j then rows ! i ! j else 0) [0..<seq_len]) [0..<bsz])"

text \<open>Whether pooling stays inside the tensor, the mask and the pooled buffer.\<close>

definition pool_in_bounds :: "pooling \<Rightarrow> nat \<Rightarrow> nat \<Rightarrow> nat \<Rightarrow> nat \<Rightarrow> nat \<Rightarrow> nat \<Rightarrow> nat \<Rightarrow> bool" where
  "pool_in_bounds pool ndim out_batch out_seq out_dim n_data n_mask n_buf \<longleftrightarrow>
     out_batch * out_dim \<le> n_buf \<and>
     (if ndim = 2 then out_batch * out_dim \<le> n_data
      else if pool = POOL_CLS then out_batch = 0 \<or> (out_batch - 1) * out_seq * out_dim + out_dim \<le> n_data
      else out_batch * out_seq * out_dim \<le> n_data \<and> out_batch * out_seq \<le> n_mask)"

text \<open>
  Pooling and normalising one output tensor into the reused buffer: the row width and the buffer.
  The buffer keeps what it held beyond what pooling writes.
\<close>

definition pool_output ::
    "('m, 'f::{zero,one,plus,times,inverse,ord}) embed_env \<Rightarrow> pooling \<Rightarrow> int \<Rightarrow> nat \<Rightarrow> int list \<Rightarrow> 'f list
      \<Rightarrow> 'f tensor_result \<Rightarrow> embed_fail + nat \<times> 'f list" where
  "pool_output env pool width bsz tmask buf t =
     (let shape = tr_shape t; ndim = length shape in
      if shape = [] then Inl Undef
      else
        let out_batch = nat (shape ! 0);
            out_seq = (if ndim \<ge> 3 then nat (shape ! 1) else 0);
            out_width = (if ndim \<ge> 3 then shape ! 2 else if ndim = 2 then shape ! 1 else width)
        in if out_width < 0 then Inl (Threw length_error_what)
           else
             let w = nat out_width; buf1 = resize (bsz * w) 0 buf in
             if \<not> pool_in_bounds pool ndim out_batch out_seq w (length (tr_data t)) (length tmask) (length buf1)
             then Inl Undef
             else
               let p = (if pool = POOL_CLS then pool_cls (tr_data t) out_batch out_seq w (int ndim)
                        else pool_mean (env_pool_eps env) (tr_data t) tmask out_batch out_seq w (int ndim))
               in Inr (w, l2_normalize (env_sqrt env) (env_norm_eps env) (p @ drop (length p) buf1) bsz w))"

definition onnx_batch ::
    "('m, 'f::{zero,one,plus,times,inverse,ord}) embed_env \<Rightarrow> ('m, 'f) text_ctx \<Rightarrow> 'f list \<Rightarrow> string list
      \<Rightarrow> embed_fail + nat \<times> 'f list" where
  "onnx_batch env c buf batch_texts =
     (case encode_batch (onnx_tok c) batch_texts of
        Inl e \<Rightarrow> Inl (thrown e)
      | Inr enc \<Rightarrow>
          let bsz = length batch_texts;
              seq_len = nat (seq_length enc);
              ids = flatten_rows bsz seq_len (input_ids enc);
              attn = flatten_rows bsz seq_len (attention_mask enc);
              types = flatten_types bsz seq_len (token_type_ids enc);
              oi = select_output (onnx_sess c) (if output_key c = [] then None else Some (output_key c))
          in (case fst (onnx_run (env_fails env) (env_infer env) (onnx_sess c) ids attn (Some types) bsz seq_len (int oi)) of
                Inl msg \<Rightarrow> Inl (Threw msg)
              | Inr [] \<Rightarrow> Inl Undef
              | Inr (t # _) \<Rightarrow> pool_output env (cx_pooling c) (cx_dim c) bsz attn buf t))"

subsection \<open>All batches\<close>

text \<open>The order of the texts: by decreasing token count when bucketing.\<close>

definition embed_order ::
    "('m, 'f) embed_env \<Rightarrow> ('m, 'f) text_ctx \<Rightarrow> string list \<Rightarrow> embed_fail + nat list" where
  "embed_order env c texts =
     (if batch_strategy c = BATCH_LENGTH_BUCKET \<and> length texts > 1 then
        (case encode_all (onnx_tok c) texts of
           Inl e \<Rightarrow> Inl (thrown e)
         | Inr ids \<Rightarrow>
             Inr (env_sort env (\<lambda>a b. length (ids ! a) > length (ids ! b)) [0..<length texts]))
      else Inr [0..<length texts])"

text \<open>
  Copying the rows of one batch to the slots of their texts: \<open>i * dim\<close> into the pooled buffer and
  \<open>orig_idx * dim\<close> into the result, both computed in \<open>int\<close>.
\<close>

fun copy_rows :: "nat \<Rightarrow> 'f list \<Rightarrow> nat \<Rightarrow> nat list \<Rightarrow> 'f list list \<Rightarrow> 'f list list option" where
  "copy_rows width pooled i [] out = Some out"
| "copy_rows width pooled i (k # ks) out =
     (if c_int (int k * int width) = None \<or> c_int (int i * int width) = None \<or> length pooled < i * width + width
      then None
      else copy_rows width pooled (Suc i) ks (out[k := row_of (i * width) width pooled]))"

fun onnx_loop ::
    "('m, 'f::{zero,one,plus,times,inverse,ord}) embed_env \<Rightarrow> ('m, 'f) text_ctx \<Rightarrow> string list \<Rightarrow> int
      \<Rightarrow> nat list \<Rightarrow> nat list \<Rightarrow> 'f list \<Rightarrow> 'f list list \<Rightarrow> (embed_fail + 'f list list) \<times> 'f list" where
  "onnx_loop env c texts batch indices [] buf out = (Inr out, buf)"
| "onnx_loop env c texts batch indices (bi # bis) buf out =
     (case get_batch (int bi) (int (length texts)) batch of
        None \<Rightarrow> (Inl Undef, buf)
      | Some r \<Rightarrow>
          let idx = sub_list (nat (range_start r)) (nat (range_end r)) indices in
          (case onnx_batch env c buf (map ((!) texts) idx) of
             Inl e \<Rightarrow> (Inl e, buf)
           | Inr (w, pooled) \<Rightarrow>
               (case copy_rows (nat (cx_dim c)) pooled 0 idx out of
                  None \<Rightarrow> (Inl Undef, pooled)
                | Some out1 \<Rightarrow> onnx_loop env c texts batch indices bis pooled out1)))"

definition onnx_embed ::
    "('m, 'f::{zero,one,plus,times,inverse,ord}) embed_env \<Rightarrow> ('m, 'f) text_ctx \<Rightarrow> string list \<Rightarrow> int
      \<Rightarrow> 'f list list \<Rightarrow> (embed_fail + 'f list list) \<times> 'f list" where
  "onnx_embed env c texts batch_size out =
     (case embed_order env c texts of
        Inl e \<Rightarrow> (Inl e, pooled_buf c)
      | Inr indices \<Rightarrow>
          let batch = (if batch_strategy c = BATCH_SEQUENTIAL then 1 else batch_size) in
          (case batch_count (int (length texts)) batch of
             None \<Rightarrow> (Inl Undef, pooled_buf c)
           | Some n \<Rightarrow> onnx_loop env c texts batch indices [0..<nat n] (pooled_buf c) out))"

text \<open>
  Streaming: batches in the order of the texts, each row handed to the callback as \<open>dim\<close> entries
  from a pointer that advances by the width of the output. The rows delivered come first.
\<close>

fun deliver_rows :: "nat \<Rightarrow> nat \<Rightarrow> 'f list \<Rightarrow> nat \<Rightarrow> nat \<Rightarrow> 'f list list option" where
  "deliver_rows w width pooled i 0 = Some []"
| "deliver_rows w width pooled i (Suc n) =
     (if length pooled < i * w + width then None
      else map_option ((#) (row_of (i * w) width pooled)) (deliver_rows w width pooled (Suc i) n))"

fun stream_loop ::
    "('m, 'f::{zero,one,plus,times,inverse,ord}) embed_env \<Rightarrow> ('m, 'f) text_ctx \<Rightarrow> string list \<Rightarrow> int
      \<Rightarrow> nat list \<Rightarrow> 'f list \<Rightarrow> 'f list list \<times> (embed_fail + unit) \<times> 'f list" where
  "stream_loop env c texts batch [] buf = ([], Inr (), buf)"
| "stream_loop env c texts batch (bi # bis) buf =
     (case get_batch (int bi) (int (length texts)) batch of
        None \<Rightarrow> ([], Inl Undef, buf)
      | Some r \<Rightarrow>
          let batch_texts = sub_list (nat (range_start r)) (nat (range_end r)) texts in
          (case onnx_batch env c buf batch_texts of
             Inl e \<Rightarrow> ([], Inl e, buf)
           | Inr (w, pooled) \<Rightarrow>
               (case deliver_rows w (nat (cx_dim c)) pooled 0 (length batch_texts) of
                  None \<Rightarrow> ([], Inl Undef, pooled)
                | Some rows \<Rightarrow>
                    (case stream_loop env c texts batch bis pooled of
                       (later, r, buf') \<Rightarrow> (rows @ later, r, buf')))))"

definition onnx_embed_stream ::
    "('m, 'f::{zero,one,plus,times,inverse,ord}) embed_env \<Rightarrow> ('m, 'f) text_ctx \<Rightarrow> string list \<Rightarrow> int
      \<Rightarrow> 'f list list \<times> (embed_fail + unit) \<times> 'f list" where
  "onnx_embed_stream env c texts batch_size =
     (case batch_count (int (length texts)) batch_size of
        None \<Rightarrow> ([], Inl Undef, pooled_buf c)
      | Some n \<Rightarrow> stream_loop env c texts batch_size [0..<nat n] (pooled_buf c))"

section \<open>The llama.cpp backend\<close>

definition llama_embed_single ::
    "('m, 'f::zero) embed_env \<Rightarrow> ('m, 'f) text_ctx \<Rightarrow> string \<Rightarrow> embed_fail + 'f list" where
  "llama_embed_single env c txt =
     (case llama_embed (env_llama env) (llama_sess c) txt of
        Inl msg \<Rightarrow> Inl (Threw msg)
      | Inr v \<Rightarrow> if length v < nat (cx_dim c) then Inl Undef else Inr (take (nat (cx_dim c)) v))"

fun llama_rows ::
    "('m, 'f::zero) embed_env \<Rightarrow> ('m, 'f) text_ctx \<Rightarrow> string list \<Rightarrow> embed_fail + 'f list list" where
  "llama_rows env c [] = Inr []"
| "llama_rows env c (t # ts) =
     bind_sum (llama_embed_single env c t) (\<lambda>v. bind_sum (llama_rows env c ts) (\<lambda>vs. Inr (v # vs)))"

definition llama_embed_batch ::
    "('m, 'f::{zero,one,plus,times,inverse,ord}) embed_env \<Rightarrow> ('m, 'f) text_ctx \<Rightarrow> string list
      \<Rightarrow> embed_fail + 'f list list" where
  "llama_embed_batch env c texts =
     bind_sum (llama_rows env c texts)
       (\<lambda>rows. Inr (map (normalize_row (env_sqrt env) (env_norm_eps env)) rows))"

text \<open>Streaming copies each vector into an array of \<open>LEMBED_MAX_DIM\<close> entries.\<close>

definition MAX_DIM :: nat where "MAX_DIM = 4096"

fun llama_embed_stream ::
    "('m, 'f::{zero,one,plus,times,inverse,ord}) embed_env \<Rightarrow> ('m, 'f) text_ctx \<Rightarrow> string list
      \<Rightarrow> 'f list list \<times> (embed_fail + unit)" where
  "llama_embed_stream env c [] = ([], Inr ())"
| "llama_embed_stream env c (t # ts) =
     (case llama_embed_single env c t of
        Inl e \<Rightarrow> ([], Inl e)
      | Inr v \<Rightarrow>
          if length v > MAX_DIM then ([], Inl Undef)
          else case llama_embed_stream env c ts of
                 (later, r) \<Rightarrow> (normalize_row (env_sqrt env) (env_norm_eps env) v # later, r))"

section \<open>One text alone\<close>

text \<open>
  What the ONNX code relies on: with an attention mask, the vectors a model computes for the tokens of
  a row depend on those tokens only (\<open>g\<close>), not on the padding nor on the other rows; what it computes
  at padded positions is unspecified. \<open>w\<close> is the width of the vectors.
\<close>

definition padded_inputs :: "onnx_session \<Rightarrow> int \<Rightarrow> nat \<Rightarrow> int list list \<Rightarrow> (string \<times> int list) list" where
  "padded_inputs sess pad n idss =
     run_inputs sess (concat (map (pad_row n pad) idss))
       (concat (map (\<lambda>ids. pad_row n 0 (map (\<lambda>_. 1) ids)) idss)) (Some (replicate (length idss * n) 0))"

definition respects_mask ::
    "'f inference \<Rightarrow> onnx_session \<Rightarrow> string \<Rightarrow> int \<Rightarrow> nat \<Rightarrow> (int list \<Rightarrow> 'f list list) \<Rightarrow> bool" where
  "respects_mask infer sess out pad w g \<longleftrightarrow>
     (\<forall>idss n. (\<forall>ids \<in> set idss. length ids \<le> n) \<longrightarrow>
        (\<exists>ts. infer (padded_inputs sess pad n idss) (length idss) n [out] =
              Inr [\<lparr>tr_data = concat (map concat ts), tr_shape = [int (length idss), int n, int w]\<rparr>] \<and>
            length ts = length idss \<and>
            (\<forall>i < length idss. length (ts ! i) = n \<and> (\<forall>v \<in> set (ts ! i). length v = w) \<and>
               take (length (idss ! i)) (ts ! i) = g (idss ! i))))"

definition tok_ids :: "tokenizer \<Rightarrow> string \<Rightarrow> int list" where
  "tok_ids t s = (case encode_single t s of Inl _ \<Rightarrow> [] | Inr ids \<Rightarrow> ids)"

definition chosen_output :: "('m, 'f) text_ctx \<Rightarrow> string" where
  "chosen_output c = output_names (onnx_sess c) !
     select_output (onnx_sess c) (if output_key c = [] then None else Some (output_key c))"

text \<open>The vector of one text embedded alone, without padding.\<close>

definition pooled_vector ::
    "('m, 'f::{zero,one,plus,times,inverse,ord}) embed_env \<Rightarrow> ('m, 'f) text_ctx \<Rightarrow> (int list \<Rightarrow> 'f list list)
      \<Rightarrow> int list \<Rightarrow> 'f list" where
  "pooled_vector env c g ids =
     (if cx_pooling c = POOL_CLS then hd (g ids)
      else pool_mean (env_pool_eps env) (concat (g ids)) (replicate (length ids) 1) 1 (length ids) (nat (cx_dim c)) 3)"

definition text_vector ::
    "('m, 'f::{zero,one,plus,times,inverse,ord}) embed_env \<Rightarrow> ('m, 'f) text_ctx \<Rightarrow> (int list \<Rightarrow> 'f list list)
      \<Rightarrow> string \<Rightarrow> 'f list" where
  "text_vector env c g s =
     normalize_row (env_sqrt env) (env_norm_eps env) (pooled_vector env c g (tok_ids (onnx_tok c) s))"

text \<open>A loaded context on a runtime that works.\<close>

definition onnx_ready ::
    "('m, 'f::{zero,one,plus,times,inverse,ord}) embed_env \<Rightarrow> ('m, 'f) text_ctx \<Rightarrow> (int list \<Rightarrow> 'f list list) \<Rightarrow> bool" where
  "onnx_ready env c g \<longleftrightarrow>
     0 < max_length (onnx_tok c) \<and> add_special_tokens (onnx_tok c) \<and> 0 \<le> cx_dim c \<and>
     (\<forall>call. env_fails env call = None) \<and> output_names (onnx_sess c) \<noteq> [] \<and>
     respects_mask (env_infer env) (onnx_sess c) (chosen_output c) (pad_token_id (onnx_tok c)) (nat (cx_dim c)) g"

section \<open>Facts\<close>

subsection \<open>Buffers of equal rows\<close>

lemma row_of_concat:
  "\<forall>v \<in> set vs. length v = w \<Longrightarrow> k < length vs \<Longrightarrow> row_of (k * w) w (concat vs) = vs ! k"
proof (induction vs arbitrary: k)
  case (Cons v vs)
  then show ?case by (cases k) (auto simp: row_of_def)
qed simp

lemma drop_concat_rect:
  "\<forall>v \<in> set vs. length v = w \<Longrightarrow> k \<le> length vs \<Longrightarrow> drop (k * w) (concat vs) = concat (drop k vs)"
proof (induction vs arbitrary: k)
  case (Cons v vs)
  then show ?case by (cases k) auto
qed simp

lemma map_row_of_concat:
  "\<forall>v \<in> set vs. length v = w \<Longrightarrow> map (\<lambda>k. row_of (k * w) w (concat vs)) [0..<length vs] = vs"
  by (intro nth_equalityI) (simp_all add: row_of_concat)

lemma l2_normalize_rows:
  assumes "\<forall>v \<in> set vs. length v = w"
  shows "l2_normalize sqrt' eps (concat vs) (length vs) w = concat (map (normalize_row sqrt' eps) vs)"
proof -
  have "map (\<lambda>i. normalize_row sqrt' eps (row_of (i * w) w (concat vs))) [0..<length vs] =
      map (normalize_row sqrt' eps) vs"
    by (intro nth_equalityI) (simp_all add: row_of_concat [OF assms])
  then show ?thesis
    using length_concat_rect [OF assms] by (simp add: l2_normalize_def)
qed

lemma length_normalize_row [simp]: "length (normalize_row sqrt' eps v) = length v"
  by (simp add: normalize_row_def Let_def)

lemma flatten_rows_rect:
  assumes "\<forall>r \<in> set rows. length r = n"
  shows "flatten_rows (length rows) n rows = concat rows"
proof -
  have "map (\<lambda>i. map (\<lambda>j. rows ! i ! j) [0..<n]) [0..<length rows] = rows"
    using assms by (intro nth_equalityI) auto
  then show ?thesis by (simp add: flatten_rows_def)
qed

lemma flatten_types_zero:
  "flatten_types (length xs) n (map (\<lambda>_. replicate n 0) xs) = replicate (length xs * n) 0"
proof -
  have "concat (replicate b (replicate n x)) = replicate (b * n) x" for b and x :: int
    by (induction b) (simp_all add: replicate_add)
  moreover have "map (\<lambda>i. map (\<lambda>j. if length (map (\<lambda>_. replicate n (0::int)) xs ! i) > j
      then map (\<lambda>_. replicate n 0) xs ! i ! j else (0::int)) [0..<n]) [0..<length xs] =
    replicate (length xs) (replicate n 0)"
    by (rule nth_equalityI) (auto intro!: nth_equalityI)
  ultimately show ?thesis by (simp only: flatten_types_def)
qed

subsection \<open>Tokens of a batch\<close>

lemma length_pad_row [simp]: "length xs \<le> n \<Longrightarrow> length (pad_row n x xs) = n"
  by (simp add: pad_row_def)

lemma encode_all_tok_ids:
  assumes "0 < max_length t"
  shows "encode_all t texts = Inr (map (tok_ids t) texts)"
proof -
  from encode_all_ok [OF assms, of texts] obtain rs where rs: "encode_all t texts = Inr rs"
    "length rs = length texts" "\<forall>i < length texts. encode_single t (texts ! i) = Inr (rs ! i)" by blast
  then have "rs = map (tok_ids t) texts" by (intro nth_equalityI) (simp_all add: tok_ids_def)
  with rs(1) show ?thesis by simp
qed

lemma tok_ids_bounds:
  assumes "0 < max_length t"
  shows "int (length (tok_ids t s)) \<le> max_length t"
  using encode_single_ok [OF assms, of s] by (auto simp: tok_ids_def)

lemma tok_ids_nonempty:
  assumes "0 < max_length t" and "add_special_tokens t"
  shows "tok_ids t s \<noteq> []"
proof -
  obtain r where "encode_single t s = Inr r" using encode_single_ok [OF assms(1), of s] by blast
  moreover from this have "r \<noteq> []"
    using assms by (auto simp: encode_single_body truncate_ids_def Let_def split: if_splits)
  ultimately show ?thesis by (simp add: tok_ids_def)
qed

lemma encode_batch_padded:
  assumes "0 < max_length t"
  shows "\<exists>n. encode_batch t texts = Inr \<lparr>input_ids = map (pad_row n (pad_token_id t)) (map (tok_ids t) texts),
      attention_mask = map (\<lambda>ids. pad_row n 0 (map (\<lambda>_. 1) ids)) (map (tok_ids t) texts),
      token_type_ids = map (\<lambda>ids. replicate n 0) (map (tok_ids t) texts), seq_length = int n\<rparr> \<and>
    (\<forall>ids \<in> set (map (tok_ids t) texts). length ids \<le> n)"
proof -
  let ?rs = "map (tok_ids t) texts"
  let ?m = "fold (\<lambda>ids m. max m (int (length ids))) ?rs 0"
  have "0 \<le> ?m" by (simp add: fold_max_length)
  moreover have "?m \<le> max_length t"
    using assms tok_ids_bounds [OF assms] by (auto simp: fold_max_length)
  moreover have "int (length ids) \<le> ?m" if "ids \<in> set ?rs" for ids
    using that by (auto simp: fold_max_length intro!: Max_ge)
  then have "length ids \<le> nat ?m" if "ids \<in> set ?rs" for ids
    using that by fastforce
  ultimately show ?thesis
    by (intro exI [of _ "nat ?m"]) (simp add: encode_batch_def encode_all_tok_ids [OF assms] Let_def)
qed

subsection \<open>Pooling a padded batch\<close>

lemma mean_loop_append:
  "mean_loop r m w (xs @ ys) acc = mean_loop r m w ys (mean_loop r m w xs acc)"
  by (induction r m w xs acc rule: mean_loop.induct) simp_all

lemma mean_loop_skip: "\<forall>s \<in> set ss. m ! s = 0 \<Longrightarrow> mean_loop r m w ss acc = acc"
  by (induction ss arbitrary: acc) auto

lemma mean_loop_cong:
  "\<forall>s \<in> set ss. (m ! s = 0 \<longleftrightarrow> m' ! s = 0) \<and> row_of (s * w) w r = row_of (s * w) w r' \<Longrightarrow>
     mean_loop r m w ss acc = mean_loop r' m' w ss acc"
  by (induction ss arbitrary: acc) auto

lemma mean_loop_length:
  "\<forall>s \<in> set ss. length (row_of (s * w) w r) = w \<Longrightarrow> length (fst acc) = w \<Longrightarrow>
     length (fst (mean_loop r m w ss acc)) = w"
  by (induction ss arbitrary: acc) auto

text \<open>The tensor and the mask of a padded batch, read at row \<open>i\<close> and position \<open>s\<close>.\<close>

lemma padded_tensor_row:
  assumes "\<forall>r \<in> set ts. length r = n \<and> (\<forall>v \<in> set r. length v = w)" and "i < length ts" and "s < n"
  shows "row_of (s * w) w (drop (i * n * w) (concat (map concat ts))) = ts ! i ! s"
proof -
  let ?V = "concat ts"
  have V: "\<forall>v \<in> set ?V. length v = w" and rect: "\<forall>r \<in> set ts. length r = n" using assms(1) by auto
  have V': "\<forall>v \<in> set (drop k ?V). length v = w" for k using V by (meson in_set_dropD)
  have len: "length ?V = length ts * n" by (rule length_concat_rect [OF rect])
  have "Suc i * n \<le> length ts * n" using assms(2) by (intro mult_le_mono1) simp
  then have i: "i * n + n \<le> length ?V" using len by simp
  have "concat (map concat ts) = concat ?V" by (induction ts) simp_all
  moreover have "drop (i * n * w) (concat ?V) = concat (drop (i * n) ?V)"
    by (rule drop_concat_rect [OF V]) (use i in simp)
  moreover have "row_of (s * w) w (concat (drop (i * n) ?V)) = drop (i * n) ?V ! s"
    by (rule row_of_concat [OF V']) (use i assms(3) in simp)
  moreover have "drop (i * n) ?V ! s = ts ! i ! s"
    using i nth_concat_rect [OF rect assms(2,3)] by simp
  ultimately show ?thesis by simp
qed

lemma padded_mask_row:
  assumes "\<forall>ids \<in> set idss. length ids \<le> n" and "i < length idss" and "s < n"
  shows "drop (i * n) (concat (map (\<lambda>ids. pad_row n 0 (map (\<lambda>_. 1) ids)) idss)) ! s =
    (if s < length (idss ! i) then 1 else (0::int))"
proof -
  let ?R = "map (\<lambda>ids. pad_row n 0 (map (\<lambda>_. 1::int) ids)) idss"
  have rect: "\<forall>r \<in> set ?R. length r = n" using assms(1) by simp
  have "Suc i * n \<le> length idss * n" using assms(2) by (intro mult_le_mono1) simp
  then have "i * n + n \<le> length (concat ?R)" using length_concat_rect [OF rect] by simp
  then have "drop (i * n) (concat ?R) ! s = concat ?R ! (i * n + s)" by simp
  also have "\<dots> = ?R ! i ! s" using assms(2,3) by (intro nth_concat_rect [OF rect]) simp_all
  also have "\<dots> = (if s < length (idss ! i) then 1 else 0)"
    using assms by (auto simp: pad_row_def nth_append)
  finally show ?thesis .
qed

text \<open>Mean pooling of one padded row is that of the row alone.\<close>

lemma mean_loop_padded:
  assumes "\<forall>r \<in> set ts. length r = n \<and> (\<forall>v \<in> set r. length v = w)" and "length ts = length idss"
    and "\<forall>ids \<in> set idss. length ids \<le> n" and "i < length idss"
    and "take (length (idss ! i)) (ts ! i) = vs"
  shows "mean_loop (drop (i * n * w) (concat (map concat ts)))
      (drop (i * n) (concat (map (\<lambda>ids. pad_row n 0 (map (\<lambda>_. 1) ids)) idss))) w [0..<n] acc =
    mean_loop (concat vs) (replicate (length (idss ! i)) 1) w [0..<length (idss ! i)] acc"
    (is "mean_loop ?T ?M w _ acc = _")
proof -
  let ?k = "length (idss ! i)"
  have k: "?k \<le> n" using assms(3,4) by simp
  have i: "i < length ts" and r: "ts ! i \<in> set ts" using assms(2,4) by simp_all
  have vs: "length vs = ?k" "\<forall>v \<in> set vs. length v = w"
    using assms(1,5) r k by (auto dest: in_set_takeD)
  have "mean_loop ?T ?M w [0..<n] acc = mean_loop ?T ?M w ([0..<?k] @ [?k..<n]) acc"
    using upt_add_eq_append [of 0 ?k "n - ?k"] k by simp
  also have "\<dots> = mean_loop ?T ?M w [0..<?k] acc"
    unfolding mean_loop_append by (rule mean_loop_skip) (simp add: padded_mask_row [OF assms(3,4)])
  also have "\<dots> = mean_loop (concat vs) (replicate ?k 1) w [0..<?k] acc"
  proof (rule mean_loop_cong, rule ballI)
    fix s assume "s \<in> set [0..<?k]"
    then have s: "s < ?k" "s < n" using k by simp_all
    have "row_of (s * w) w ?T = ts ! i ! s" by (rule padded_tensor_row [OF assms(1) i s(2)])
    also have "\<dots> = vs ! s" using s(1) assms(5) by auto
    also have "\<dots> = row_of (s * w) w (concat vs)"
      by (rule row_of_concat [symmetric]) (use vs s in simp_all)
    finally show "(?M ! s = 0 \<longleftrightarrow> replicate ?k 1 ! s = (0::int)) \<and>
        row_of (s * w) w ?T = row_of (s * w) w (concat vs)"
      using s padded_mask_row [OF assms(3,4) s(2)] by simp
  qed
  finally show ?thesis .
qed

lemma pool_output_3d:
  "pool_output env pool width b tmask buf \<lparr>tr_data = d, tr_shape = [int b, int n, int w]\<rparr> =
     (if pool_in_bounds pool 3 b n w (length d) (length tmask) (b * w)
      then let p = (if pool = POOL_CLS then pool_cls d b n w 3 else pool_mean (env_pool_eps env) d tmask b n w 3)
           in Inr (w, l2_normalize (env_sqrt env) (env_norm_eps env) (p @ drop (length p) (resize (b * w) 0 buf)) b w)
      else Inl Undef)"
  by (simp add: pool_output_def Let_def eval_nat_numeral)

lemma pool_padded:
  assumes ts: "\<forall>r \<in> set ts. length r = n \<and> (\<forall>v \<in> set r. length v = w)" "length ts = length idss"
    and ids: "\<forall>ids \<in> set idss. length ids \<le> n \<and> ids \<noteq> []"
    and g: "\<forall>i < length idss. take (length (idss ! i)) (ts ! i) = g (idss ! i)"
    and w: "cx_dim c = int w"
  shows "pool_output env (cx_pooling c) (cx_dim c) (length idss)
      (concat (map (\<lambda>ids. pad_row n 0 (map (\<lambda>_. 1) ids)) idss)) buf
      \<lparr>tr_data = concat (map concat ts), tr_shape = [int (length idss), int n, int w]\<rparr> =
    Inr (w, concat (map (normalize_row (env_sqrt env) (env_norm_eps env)) (map (pooled_vector env c g) idss)))"
    and "\<forall>v \<in> set (map (pooled_vector env c g) idss). length v = w"
proof -
  let ?T = "concat (map concat ts)" and ?b = "length idss"
  let ?M = "concat (map (\<lambda>ids. pad_row n 0 (map (\<lambda>_. 1::int) ids)) idss)"
  let ?P = "map (pooled_vector env c g) idss"
  have T: "length ?T = ?b * n * w"
  proof -
    have "\<forall>x \<in> set (map concat ts). length x = n * w"
      using ts(1) by (auto simp: length_concat_rect)
    from length_concat_rect [OF this] ts(2) show ?thesis by simp
  qed
  have le: "\<forall>ids \<in> set idss. length ids \<le> n" using ids by blast
  have M: "length ?M = ?b * n"
    using length_concat_rect [of "map (\<lambda>ids. pad_row n 0 (map (\<lambda>_. 1::int) ids)) idss" n] le by simp
  have n: "0 < n" if "i < ?b" for i
    using ids nth_mem [OF that] by (metis le_zero_eq length_0_conv not_gr_zero)
  have g_rows: "length (g (idss ! i)) = length (idss ! i) \<and> (\<forall>v \<in> set (g (idss ! i)). length v = w)"
    if "i < ?b" for i
  proof -
    have "ts ! i \<in> set ts" using ts(2) that by simp
    with ts(1) have r: "length (ts ! i) = n" "\<forall>v \<in> set (ts ! i). length v = w" by auto
    have "length (idss ! i) \<le> n" using le that by simp
    with r g that show ?thesis by (metis in_set_takeD length_take min.absorb2)
  qed
  have cls: "row_of (i * n * w) w ?T = hd (g (idss ! i))" if "i < ?b" for i
  proof -
    have "row_of (0 * w) w (drop (i * n * w) ?T) = ts ! i ! 0"
      by (rule padded_tensor_row [OF ts(1)]) (use that ts(2) n in auto)
    moreover have "g (idss ! i) ! 0 = ts ! i ! 0"
      using g that ids by (metis length_greater_0_conv nth_mem nth_take)
    moreover have "g (idss ! i) \<noteq> []"
      using g_rows [OF that] ids that by (metis length_0_conv nth_mem)
    ultimately show ?thesis by (simp add: row_of_def hd_conv_nth)
  qed
  let ?mean = "\<lambda>i. case mean_loop (drop (i * n * w) ?T) (drop (i * n) ?M) w [0..<n] (replicate w 0, 0) of
      (dst, mask_sum) \<Rightarrow> let inv = (if mask_sum > env_pool_eps env then 1 / mask_sum else 1) in map (\<lambda>x. x * inv) dst"
  have mean: "?mean i = pool_mean (env_pool_eps env) (concat (g (idss ! i)))
      (replicate (length (idss ! i)) 1) 1 (length (idss ! i)) w 3" if "i < ?b" for i
    using mean_loop_padded [OF ts le that, of "g (idss ! i)"] g that by (simp add: pool_mean_def)
  have mean_len: "length (pool_mean (env_pool_eps env) (concat (g (idss ! i)))
      (replicate (length (idss ! i)) 1) 1 (length (idss ! i)) w 3) = w" if "i < ?b" for i
  proof -
    have "length (row_of (s * w) w (concat (g (idss ! i)))) = w" if "s < length (idss ! i)" for s
      using g_rows [OF \<open>i < ?b\<close>] that by (simp add: row_of_concat)
    then have "length (fst (mean_loop (concat (g (idss ! i))) (replicate (length (idss ! i)) 1) w
        [0..<length (idss ! i)] (replicate w 0, 0))) = w"
      by (intro mean_loop_length) simp_all
    then show ?thesis by (auto simp: pool_mean_def Let_def split: prod.split)
  qed
  have P: "?P ! i = (if cx_pooling c = POOL_CLS then row_of (i * n * w) w ?T else ?mean i)" if "i < ?b" for i
    using that cls [OF that] mean [OF that] w by (simp add: pooled_vector_def)
  show len: "\<forall>v \<in> set ?P. length v = w"
  proof
    fix v assume "v \<in> set ?P"
    then obtain i where i: "i < ?b" "v = ?P ! i" by (auto simp: in_set_conv_nth)
    have "hd (g (idss ! i)) \<in> set (g (idss ! i))"
      using g_rows [OF i(1)] ids i(1) by (metis hd_in_set length_0_conv nth_mem)
    with g_rows [OF i(1)] mean_len [OF i(1)] i w show "length v = w" by (simp add: pooled_vector_def)
  qed
  have pool: "(if cx_pooling c = POOL_CLS then pool_cls ?T ?b n w 3 else pool_mean (env_pool_eps env) ?T ?M ?b n w 3)
      = concat ?P" (is "?p = _")
  proof -
    have "?P = map (\<lambda>i. if cx_pooling c = POOL_CLS then row_of (i * n * w) w ?T else ?mean i) [0..<?b]"
      by (rule nth_equalityI) (simp_all only: length_map length_upt P nth_map_upt diff_zero add_0)
    then show ?thesis by (simp add: pool_cls_def pool_mean_def)
  qed
  have bounds: "pool_in_bounds (cx_pooling c) 3 ?b n w (length ?T) (length ?M) (?b * w)"
  proof (cases "?b = 0")
    case False
    then have "0 < n" using n [of 0] by simp
    then have "(?b - 1) * n * w + w \<le> (?b - 1) * n * w + n * w" by simp
    also have "\<dots> = ?b * n * w" using False by (cases "?b") (simp_all add: algebra_simps)
    finally show ?thesis using T M by (simp add: pool_in_bounds_def)
  qed (simp add: pool_in_bounds_def)
  have "length (concat ?P) = ?b * w" using length_concat_rect [OF len] by simp
  then have "l2_normalize (env_sqrt env) (env_norm_eps env)
      (concat ?P @ drop (length (concat ?P)) (resize (?b * w) 0 buf)) ?b w =
      concat (map (normalize_row (env_sqrt env) (env_norm_eps env)) ?P)"
    using l2_normalize_rows [OF len] by simp
  then show "pool_output env (cx_pooling c) (cx_dim c) ?b ?M buf
      \<lparr>tr_data = ?T, tr_shape = [int ?b, int n, int w]\<rparr> =
      Inr (w, concat (map (normalize_row (env_sqrt env) (env_norm_eps env)) ?P))"
    unfolding pool_output_3d pool Let_def using bounds by (simp only: if_True)
qed

subsection \<open>Batches of texts\<close>

lemma onnx_readyD:
  assumes "onnx_ready env c g"
  shows "0 < max_length (onnx_tok c)" "add_special_tokens (onnx_tok c)" "cx_dim c = int (nat (cx_dim c))"
    "\<forall>call. env_fails env call = None" "output_names (onnx_sess c) \<noteq> []"
    "respects_mask (env_infer env) (onnx_sess c) (chosen_output c) (pad_token_id (onnx_tok c)) (nat (cx_dim c)) g"
  using assms by (simp_all add: onnx_ready_def)

text \<open>A batch gives, row after row, the vectors of its texts alone.\<close>

lemma onnx_batch_ok:
  assumes ready: "onnx_ready env c g"
  shows "onnx_batch env c buf texts = Inr (nat (cx_dim c), concat (map (text_vector env c g) texts))"
    and "\<forall>v \<in> set (map (text_vector env c g) texts). length v = nat (cx_dim c)"
proof -
  note r = onnx_readyD [OF ready]
  let ?t = "onnx_tok c" and ?w = "nat (cx_dim c)"
  let ?idss = "map (tok_ids ?t) texts" and ?b = "length texts"
  from encode_batch_padded [OF r(1), of texts] obtain n where
    enc: "encode_batch ?t texts = Inr \<lparr>input_ids = map (pad_row n (pad_token_id ?t)) ?idss,
      attention_mask = map (\<lambda>ids. pad_row n 0 (map (\<lambda>_. 1) ids)) ?idss,
      token_type_ids = map (\<lambda>ids. replicate n 0) ?idss, seq_length = int n\<rparr>"
    and le: "\<forall>ids \<in> set ?idss. length ids \<le> n" by blast
  from r(6) [unfolded respects_mask_def, THEN spec, THEN spec, THEN mp, OF le] obtain ts where
    ts: "env_infer env (padded_inputs (onnx_sess c) (pad_token_id ?t) n ?idss) ?b n [chosen_output c] =
      Inr [\<lparr>tr_data = concat (map concat ts), tr_shape = [int ?b, int n, int ?w]\<rparr>]"
    and len: "length ts = length ?idss" and rows: "\<forall>i < length ?idss. length (ts ! i) = n \<and>
      (\<forall>v \<in> set (ts ! i). length v = ?w) \<and> take (length (?idss ! i)) (ts ! i) = g (?idss ! i)"
    unfolding length_map by blast
  have rect: "\<forall>r \<in> set ts. length r = n \<and> (\<forall>v \<in> set r. length v = ?w)"
    using rows len by (metis in_set_conv_nth)
  have ids: "\<forall>ids \<in> set ?idss. length ids \<le> n \<and> ids \<noteq> []"
    using le tok_ids_nonempty [OF r(1,2)] by auto
  have g: "\<forall>i < length ?idss. take (length (?idss ! i)) (ts ! i) = g (?idss ! i)" using rows by blast
  note pooled = pool_padded [OF rect len ids g r(3), where env = env]
  have vec: "map (normalize_row (env_sqrt env) (env_norm_eps env)) (map (pooled_vector env c g) ?idss) =
      map (text_vector env c g) texts"
    by (simp add: text_vector_def)
  from pooled(2) show "\<forall>v \<in> set (map (text_vector env c g) texts). length v = ?w"
    by (auto simp: text_vector_def)
  have f: "flatten_rows ?b n (map (pad_row n (pad_token_id ?t)) ?idss) = concat (map (pad_row n (pad_token_id ?t)) ?idss)"
    "flatten_rows ?b n (map (\<lambda>ids. pad_row n 0 (map (\<lambda>_. 1) ids)) ?idss) =
       concat (map (\<lambda>ids. pad_row n 0 (map (\<lambda>_. 1) ids)) ?idss)"
    using flatten_rows_rect [of "map (pad_row n (pad_token_id ?t)) ?idss" n]
      flatten_rows_rect [of "map (\<lambda>ids. pad_row n 0 (map (\<lambda>_. 1) ids)) ?idss" n] le by simp_all
  have ft: "flatten_types ?b n (map (\<lambda>ids. replicate n 0) ?idss) = replicate (?b * n) 0"
    using flatten_types_zero [of ?idss n] by simp
  have run: "onnx_run (env_fails env) (env_infer env) (onnx_sess c)
      (concat (map (pad_row n (pad_token_id ?t)) ?idss))
      (concat (map (\<lambda>ids. pad_row n 0 (map (\<lambda>_. 1) ids)) ?idss)) (Some (replicate (?b * n) 0)) ?b n
      (int (select_output (onnx_sess c) (if output_key c = [] then None else Some (output_key c)))) =
    (Inr [\<lparr>tr_data = concat (map concat ts), tr_shape = [int ?b, int n, int ?w]\<rparr>], 0)"
  proof (rule onnx_run_ok [OF r(4)])
    show "env_infer env (run_inputs (onnx_sess c) (concat (map (pad_row n (pad_token_id ?t)) ?idss))
        (concat (map (\<lambda>ids. pad_row n 0 (map (\<lambda>_. 1) ids)) ?idss)) (Some (replicate (?b * n) 0))) ?b n
      (run_outputs (onnx_sess c)
        (int (select_output (onnx_sess c) (if output_key c = [] then None else Some (output_key c))))) =
      Inr [\<lparr>tr_data = concat (map concat ts), tr_shape = [int ?b, int n, int ?w]\<rparr>]"
      using ts unfolding run_outputs_selected [OF r(5)] chosen_output_def padded_inputs_def by simp
    have "\<forall>x \<in> set (map concat ts). length x = n * ?w" using rect by (auto simp: length_concat_rect)
    from length_concat_rect [OF this] len
    show "\<forall>v \<in> set [\<lparr>tr_data = concat (map concat ts), tr_shape = [int ?b, int n, int ?w]\<rparr>].
        prod_list (tr_shape v) = int (length (tr_data v))"
      by simp
  qed
  show "onnx_batch env c buf texts = Inr (?w, concat (map (text_vector env c g) texts))"
    using pooled(1) [of buf] unfolding vec onnx_batch_def enc
    by (simp add: Let_def f ft run del: map_map)
qed

lemma copy_rows_ok:
  assumes "\<forall>v \<in> set rows. length v = w" and "i + length ks = length rows" and "\<forall>k \<in> set ks. k < n"
    and "length rows \<le> n" and "int n * int w \<le> INT_MAX"
  shows "copy_rows w (concat rows) i ks out = Some (scatter ks (drop i rows) out)"
  using assms(2,3)
proof (induction ks arbitrary: i out)
  case (Cons k ks)
  have fits: "c_int (int j * int w) = Some (int j * int w)" if "j < n" for j
  proof -
    have "int j * int w \<le> int n * int w" using that by (intro mult_right_mono) simp_all
    moreover have "INT_MIN \<le> int j * int w" by (rule order_trans [of _ 0]) (simp_all add: INT_MIN_def)
    ultimately show ?thesis using assms(5) by (simp add: c_int_def)
  qed
  have i: "i < length rows" using Cons.prems(1) by simp
  then have "Suc i * w \<le> length rows * w" by (intro mult_le_mono1) simp
  then have "i * w + w \<le> length (concat rows)" using length_concat_rect [OF assms(1)] by simp
  moreover have "drop i rows = rows ! i # drop (Suc i) rows" using i by (simp add: Cons_nth_drop_Suc)
  moreover have "row_of (i * w) w (concat rows) = rows ! i" by (rule row_of_concat [OF assms(1) i])
  ultimately show ?case
    using Cons i assms(4) fits [of k] fits [of i] by simp
qed simp

text \<open>One round of the loop fills the slots of its batch, whatever the buffer held.\<close>

lemma onnx_loop_ok:
  assumes ready: "onnx_ready env c g" and ind: "length indices = length texts" "\<forall>k \<in> set indices. k < length texts"
    and b: "0 < b" "int (length texts) + int b \<le> INT_MAX" "int (length texts) * cx_dim c \<le> INT_MAX"
    and bis: "\<forall>bi \<in> set bis. bi < (length texts + b - 1) div b" and out: "length out = length texts"
  shows "\<exists>out' buf'. onnx_loop env c texts (int b) indices bis buf out = (Inr out', buf') \<and>
    length out' = length texts \<and> (\<forall>k < length texts. out' ! k =
      (if k \<in> set (concat (map (\<lambda>i. sub_list (i * b) (min (Suc i * b) (length texts)) indices) bis))
       then text_vector env c g (texts ! k) else out ! k))"
  using bis out
proof (induction bis arbitrary: buf out)
  case (Cons i bis)
  let ?n = "length texts" and ?w = "nat (cx_dim c)" and ?f = "text_vector env c g"
  let ?idx = "sub_list (i * b) (min (Suc i * b) ?n) indices"
  have range: "get_batch (int i) (int ?n) (int b) =
      Some \<lparr>range_start = int (i * b), range_end = int (min (Suc i * b) ?n)\<rparr>"
    using Cons.prems(1) by (intro get_batch_nat [OF b(1,2)]) simp
  have idx: "\<forall>k \<in> set ?idx. k < ?n" "length ?idx \<le> ?n"
    using ind by (auto simp: sub_list_def dest!: in_set_takeD in_set_dropD)
  let ?rows = "map ?f (map ((!) texts) ?idx)"
  note batch = onnx_batch_ok(1) [OF ready, of buf "map ((!) texts) ?idx"]
  note width = onnx_batch_ok(2) [OF ready, of "map ((!) texts) ?idx"]
  have "int ?n * int ?w \<le> INT_MAX" using b(3) onnx_readyD(3) [OF ready] by simp
  then have copy: "copy_rows ?w (concat ?rows) 0 ?idx out = Some (scatter ?idx (drop 0 ?rows) out)"
    by (intro copy_rows_ok [OF width, where n = ?n]) (use idx in simp_all)
  let ?out = "scatter ?idx (map (?f \<circ> (!) texts) ?idx) out"
  from Cons.IH [of ?out "concat ?rows"] Cons.prems obtain out' buf' where
    IH: "onnx_loop env c texts (int b) indices bis (concat ?rows) ?out = (Inr out', buf')" "length out' = ?n"
      "\<forall>k < ?n. out' ! k = (if k \<in> set (concat (map (\<lambda>i. sub_list (i * b) (min (Suc i * b) ?n) indices) bis))
        then ?f (texts ! k) else ?out ! k)"
    by auto
  have "onnx_loop env c texts (int b) indices (i # bis) buf out = (Inr out', buf')"
    using IH(1) copy by (simp add: range batch nat_mult_distrib Let_def del: mult_Suc)
  moreover have "?out ! k = (if k \<in> set ?idx then ?f (texts ! k) else out ! k)" if "k < ?n" for k
    using scatter_map [of ?idx out k "?f \<circ> (!) texts"] idx(1) that Cons.prems(2) by simp
  ultimately show ?case using IH(2,3) by (intro exI [of _ out'] exI [of _ buf']) auto
qed simp

lemma batches_cover:
  assumes "0 < (b::nat)" and "length xs = n"
  shows "concat (map (\<lambda>i. sub_list (i * b) (min (Suc i * b) n) xs) [0..<(n + b - 1) div b]) = xs"
proof -
  have "(n + b - 1) mod b < b" using assms(1) by simp
  then have "n \<le> (n + b - 1) div b * b" using div_mult_mod_eq [of "n + b - 1" b] by linarith
  with slices_prefix [of "(n + b - 1) div b" xs b] assms show ?thesis by simp
qed

lemma embed_order_ok:
  assumes "0 < max_length (onnx_tok c)" and "sorter (env_sort env)"
  shows "\<exists>indices. embed_order env c texts = Inr indices \<and> length indices = length texts \<and>
    set indices = {..<length texts}"
  using sorter.set_srt [OF assms(2)] sorter.length_srt [OF assms(2)]
  by (auto simp: embed_order_def encode_all_tok_ids [OF assms(1)])

lemma onnx_embed_ok:
  assumes ready: "onnx_ready env c g" and "sorter (env_sort env)" and "length out = length texts"
    and bound: "0 < batch_size" "int (length texts) + batch_size \<le> INT_MAX"
      "int (length texts) * cx_dim c \<le> INT_MAX"
  shows "\<exists>buf. onnx_embed env c texts batch_size out = (Inr (map (text_vector env c g) texts), buf)"
proof -
  let ?n = "length texts"
  obtain indices where ind: "embed_order env c texts = Inr indices" "length indices = ?n" "set indices = {..<?n}"
    using embed_order_ok [OF onnx_readyD(1) [OF ready] assms(2)] by blast
  define b where "b = nat (if batch_strategy c = BATCH_SEQUENTIAL then 1 else batch_size)"
  have b: "0 < b" "int ?n + int b \<le> INT_MAX"
    and batch: "(if batch_strategy c = BATCH_SEQUENTIAL then 1 else batch_size) = int b"
    using bound by (auto simp: b_def)
  have bis: "\<forall>bi \<in> set [0..<(?n + b - 1) div b]. bi < (?n + b - 1) div b" by simp
  have lt: "\<forall>k \<in> set indices. k < ?n" using ind(3) by simp
  obtain out' buf where loop: "onnx_loop env c texts (int b) indices [0..<(?n + b - 1) div b] (pooled_buf c) out =
      (Inr out', buf)" "length out' = ?n" "\<forall>k < ?n. out' ! k = (if k \<in> set (concat
        (map (\<lambda>i. sub_list (i * b) (min (Suc i * b) ?n) indices) [0..<(?n + b - 1) div b]))
      then text_vector env c g (texts ! k) else out ! k)"
    using onnx_loop_ok [OF ready ind(2) lt b bound(3) bis assms(3)] by blast
  have "out' = map (text_vector env c g) texts"
    using loop(2,3) unfolding batches_cover [OF b(1) ind(2)] ind(3) by (intro nth_equalityI) simp_all
  then show ?thesis
    using loop(1) by (simp add: onnx_embed_def ind(1) batch Let_def batch_count_nat [OF b] del: onnx_loop.simps)
qed

text \<open>The streaming loop delivers the rows of its batches in order.\<close>

lemma deliver_rows_ok:
  assumes "\<forall>v \<in> set rows. length v = w" and "i + n = length rows"
  shows "deliver_rows w w (concat rows) i n = Some (drop i rows)"
  using assms(2)
proof (induction n arbitrary: i)
  case (Suc n)
  then have i: "i < length rows" by simp
  then have "Suc i * w \<le> length rows * w" by (intro mult_le_mono1) simp
  then have "i * w + w \<le> length (concat rows)" using length_concat_rect [OF assms(1)] by simp
  with Suc i show ?case
    by (simp add: row_of_concat [OF assms(1)] Cons_nth_drop_Suc)
qed simp

lemma stream_loop_ok:
  assumes ready: "onnx_ready env c g" and b: "0 < b" "int (length texts) + int b \<le> INT_MAX"
    and bis: "\<forall>bi \<in> set bis. bi < (length texts + b - 1) div b"
  shows "\<exists>buf'. stream_loop env c texts (int b) bis buf =
    (map (text_vector env c g) (concat (map (\<lambda>i. sub_list (i * b) (min (Suc i * b) (length texts)) texts) bis)),
     Inr (), buf')"
  using bis
proof (induction bis arbitrary: buf)
  case (Cons i bis)
  let ?n = "length texts" and ?w = "nat (cx_dim c)" and ?f = "text_vector env c g"
  let ?part = "sub_list (i * b) (min (Suc i * b) ?n) texts"
  have range: "get_batch (int i) (int ?n) (int b) =
      Some \<lparr>range_start = int (i * b), range_end = int (min (Suc i * b) ?n)\<rparr>"
    using Cons.prems by (intro get_batch_nat [OF b]) simp
  note batch = onnx_batch_ok(1) [OF ready, of buf ?part]
  note width = onnx_batch_ok(2) [OF ready, of ?part]
  have "deliver_rows ?w ?w (concat (map ?f ?part)) 0 (length ?part) = Some (map ?f ?part)"
    using deliver_rows_ok [OF width, of 0 "length ?part"] by simp
  moreover obtain buf' where "stream_loop env c texts (int b) bis (concat (map ?f ?part)) =
      (map ?f (concat (map (\<lambda>i. sub_list (i * b) (min (Suc i * b) ?n) texts) bis)), Inr (), buf')"
    using Cons by fastforce
  ultimately show ?case by (simp add: range batch nat_mult_distrib Let_def del: mult_Suc)
qed simp

section \<open>A sample environment\<close>

text \<open>A model whose vector for a token is the token itself, and a context that mean-pools it.\<close>

definition sample_infer :: "real inference" where
  "sample_infer inputs b n outs =
     Inr [\<lparr>tr_data = map real_of_int (snd (hd inputs)), tr_shape = [int b, int n, 1]\<rparr>]"

definition sample_real_lib :: "(int, real) llama_lib" where
  "sample_real_lib = \<lparr>lib_load = \<lambda>p g. Some 2, lib_error = \<lambda>_. [], lib_n_embd = \<lambda>m. m,
     lib_n_ctx_train = \<lambda>_. 8, lib_n_vocab = \<lambda>_. 4, lib_tokenize = \<lambda>m s. map (\<lambda>c. int (byte c)) s,
     lib_init = \<lambda>m p i. True, lib_encode = \<lambda>m b. (0, Some (map real_of_int (b_token b))),
     lib_decode = \<lambda>m b. (0, Some (map real_of_int (b_token b)))\<rparr>"

definition sample_text_env :: "(int, real) embed_env" where
  "sample_text_env = \<lparr>env_fails = \<lambda>_. None, env_infer = sample_infer,
     env_llama = sample_real_lib, env_sqrt = sqrt, env_norm_eps = 0,
     env_pool_eps = 1 / 2, env_sort = sort_by, env_put_ok = \<lambda>_. True\<rparr>"

definition sample_text_ctx :: "('m, real) text_ctx" where
  "sample_text_ctx = \<lparr>backend_type = BACKEND_ONNX,
     onnx_sess = \<lparr>opened = True, input_names = [''input_ids''], output_names = [''last_hidden_state'']\<rparr>,
     onnx_tok = tokenizer_new\<lparr>max_length := 4\<rparr>, llama_sess = llama_session_new, llama_pool_of = llama_pool_new,
     cx_pooling = POOL_MEAN, cx_quantization = 0, cx_dim = 1, cx_max_length = 4, output_key = [],
     model_name_str = ''m'', cx_num_threads = 1, cx_batch_size = 2, cx_provider = 0, cx_device_id = 0,
     cx_desc = \<lparr>d_name = ''m'', d_dimension = 1, d_max_length = 4, d_pooling = POOL_MEAN, d_num_threads = 1,
       d_batch_size = 2, d_provider = 0, d_device_id = 0\<rparr>,
     cx_desc_v2 = \<lparr>d_base = \<lparr>d_name = ''m'', d_dimension = 1, d_max_length = 4, d_pooling = POOL_MEAN,
       d_num_threads = 1, d_batch_size = 2, d_provider = 0, d_device_id = 0\<rparr>, d_quantization = 0, d_cache_size = 0\<rparr>,
     texts_embedded = 0, batches_run = 0, cache_hits = 0, cache_misses = 0, total_latency = 0, stats_calls = 0,
     pooled_buf = [9], batch_strategy = BATCH_LENGTH_BUCKET, cx_cache = Some (lru_new 8 0)\<rparr>"

definition sample_tokens :: "int list \<Rightarrow> real list list" where
  "sample_tokens ids = map (\<lambda>i. [real_of_int i]) ids"

lemma sample_ready: "onnx_ready sample_text_env sample_text_ctx sample_tokens"
proof -
  have "respects_mask sample_infer sess out pad 1 sample_tokens" for sess out pad
    unfolding respects_mask_def
  proof (intro allI impI)
    fix idss :: "int list list" and n assume le: "\<forall>ids \<in> set idss. length ids \<le> n"
    let ?ts = "map (\<lambda>ids. map (\<lambda>i. [real_of_int i]) (pad_row n pad ids)) idss"
    have "concat (map concat ?ts) = map real_of_int (concat (map (pad_row n pad) idss))"
      by (induction idss) (simp_all add: concat_map_singleton)
    moreover have "take (length ids) (pad_row n pad ids) = ids" if "length ids \<le> n" for ids
      using that by (simp add: pad_row_def)
    ultimately show "\<exists>ts. sample_infer (padded_inputs sess pad n idss) (length idss) n [out] =
        Inr [\<lparr>tr_data = concat (map concat ts), tr_shape = [int (length idss), int n, int 1]\<rparr>] \<and>
      length ts = length idss \<and> (\<forall>i < length idss. length (ts ! i) = n \<and> (\<forall>v \<in> set (ts ! i). length v = 1) \<and>
        take (length (idss ! i)) (ts ! i) = sample_tokens (idss ! i))"
      using le by (intro exI [of _ ?ts])
        (auto simp: sample_infer_def padded_inputs_def run_inputs_def sample_tokens_def take_map)
  qed
  then show ?thesis
    by (simp add: onnx_ready_def sample_text_env_def sample_text_ctx_def tokenizer_new_def)
qed

section \<open>Properties\<close>

text \<open>C2. The heart of the dense ONNX path: on a model that respects its attention mask, embedding a list
  of texts gives for every text, in the caller's order, exactly the vector the text has when it is
  embedded alone and without padding. Neither the batch size, nor the batching strategy, nor the
  order \<open>std::sort\<close> picks, nor what the reused buffers held shows in the result.\<close>

theorem onnx_embed_exact:
  assumes "onnx_ready env c g" and "sorter (env_sort env)" and "length out = length texts"
    and "0 < batch_size" and "int (length texts) + batch_size \<le> INT_MAX"
    and "int (length texts) * cx_dim c \<le> INT_MAX"
  shows "fst (onnx_embed env c texts batch_size out) = Inr (map (text_vector env c g) texts)"
  using onnx_embed_ok [OF assms] by auto

theorem onnx_embed_exact_witness:
  "fst (onnx_embed sample_text_env sample_text_ctx [''b'', ''b c d'', []] 2 [[], [], []]) =
     Inr (map (text_vector sample_text_env sample_text_ctx sample_tokens) [''b'', ''b c d'', []])"
  by (rule onnx_embed_exact [OF sample_ready])
    (simp_all add: sample_text_env_def isort.sorter_axioms sample_text_ctx_def INT_MAX_def)

text \<open>Streaming delivers the same vectors, in the order of the texts, and returns normally.\<close>

theorem onnx_stream_exact:
  assumes "onnx_ready env c g" and "0 < batch_size" and "int (length texts) + batch_size \<le> INT_MAX"
  shows "\<exists>buf. onnx_embed_stream env c texts batch_size = (map (text_vector env c g) texts, Inr (), buf)"
proof -
  define b where "b = nat batch_size"
  have b: "0 < b" "int (length texts) + int b \<le> INT_MAX" and batch: "batch_size = int b"
    using assms(2,3) by (simp_all add: b_def)
  from stream_loop_ok [OF assms(1) b, of "[0..<(length texts + b - 1) div b]" "pooled_buf c"]
  show ?thesis unfolding batches_cover [OF b(1) refl]
    by (simp add: onnx_embed_stream_def batch batch_count_nat [OF b] del: stream_loop.simps)
qed

theorem onnx_stream_exact_witness:
  "fst (onnx_embed_stream sample_text_env sample_text_ctx [''b'', ''b c d'', []] 2) =
     map (text_vector sample_text_env sample_text_ctx sample_tokens) [''b'', ''b c d'', []]"
  using onnx_stream_exact [OF sample_ready, of 2 "[''b'', ''b c d'', []]"] by (auto simp: INT_MAX_def)

end
