(* ===== verification/TextEmbedding.thy ===== *)
theory TextEmbedding
  imports TextBackends
begin

text \<open>
  \<open>lembed_text_embedding_embed\<close>, its streaming sibling and the introspection of
  \<open>detail/text_embedding_impl.hpp\<close>, over the backends of \<open>TextBackends\<close> and the cache of \<open>LruCache\<close>.
  A null pointer is \<open>None\<close>; a call that runs into undefined behaviour has the outcome \<open>None\<close>. The
  cache of a context is created without a time to live, so one clock reading per call stands for all.
\<close>

section \<open>Embedding a list of texts\<close>

record 'f embeddings =
  e_data :: "'f list list option"
  e_num :: int
  e_dim :: int

text \<open>The lambda \<open>embed_subset\<close>: the rows written to \<open>out\<close> and the reused buffer.\<close>

definition embed_subset ::
    "('m, 'f::{zero,one,plus,times,inverse,ord}) embed_env \<Rightarrow> ('m, 'f) text_ctx \<Rightarrow> int \<Rightarrow> string list
      \<Rightarrow> 'f list list \<Rightarrow> (embed_fail + 'f list list) \<times> ('m, 'f) text_ctx" where
  "embed_subset env c batch_size part out =
     (if backend_type c = BACKEND_LLAMACPP then (llama_embed_batch env c part, c)
      else case onnx_embed env c part batch_size out of (r, buf) \<Rightarrow> (r, c\<lparr>pooled_buf := buf\<rparr>))"

text \<open>The counters of a call that succeeded; \<open>n\<close> texts went to the model, of \<open>total\<close>.\<close>

definition count_batches :: "('m, 'f) text_ctx \<Rightarrow> int \<Rightarrow> bool \<Rightarrow> nat \<Rightarrow> 64 word option" where
  "count_batches c batch_size always n =
     (if backend_type c = BACKEND_LLAMACPP then Some (if always \<or> n \<noteq> 0 then 1 else 0)
      else map_option of_int (batch_count (int n) batch_size))"

definition count_run ::
    "int \<Rightarrow> bool \<Rightarrow> nat \<Rightarrow> nat \<Rightarrow> ('m, 'f) text_ctx \<Rightarrow> embed_fail + ('m, 'f) text_ctx" where
  "count_run batch_size always n asked c =
     (case count_batches c batch_size always n of
        None \<Rightarrow> Inl Undef
      | Some k \<Rightarrow> Inr (c\<lparr>texts_embedded := texts_embedded c + of_nat asked, batches_run := batches_run c + k\<rparr>))"

text \<open>Serving hits from the cache and the model for the misses.\<close>

definition usable_hit :: "('m, 'f) text_ctx \<Rightarrow> 'f list \<Rightarrow> bool" where
  "usable_hit c v \<longleftrightarrow> int (length v) = cx_dim c"

definition count_hits :: "'f list option list \<Rightarrow> ('m, 'f) text_ctx \<Rightarrow> ('m, 'f) text_ctx" where
  "count_hits rs c =
     c\<lparr>cache_hits := cache_hits c + of_nat (length (filter (\<lambda>r. r \<noteq> None) rs)),
       cache_misses := cache_misses c + of_nat (length (filter (\<lambda>r. r = None) rs))\<rparr>"

definition embed_cached ::
    "('m, 'f::{zero,one,plus,times,inverse,ord}) embed_env \<Rightarrow> int \<Rightarrow> ('m, 'f) text_ctx \<Rightarrow> int \<Rightarrow> string list \<Rightarrow> 'f lru
      \<Rightarrow> (embed_fail + 'f list list) \<times> ('m, 'f) text_ctx" where
  "embed_cached env now c batch_size texts cache =
     (case scan_cache (lru_get_vec now) (usable_hit c) texts cache of (rs, cache1) \<Rightarrow>
        let c1 = (count_hits rs c)\<lparr>cx_cache := Some cache1\<rparr>;
            miss_texts = missing rs texts;
            blank = replicate (length miss_texts) (replicate (nat (cx_dim c)) 0)
        in case (if miss_texts = [] then (Inr [], c1) else embed_subset env c1 batch_size miss_texts blank) of
             (Inl e, c2) \<Rightarrow> (Inl e, c2)
           | (Inr vs, c2) \<Rightarrow>
               let cache2 = store_all (\<lambda>k. lru_put (env_put_ok env k) now k) (zip miss_texts vs) cache1
               in (case count_run batch_size False (length miss_texts) (length texts) (c2\<lparr>cx_cache := Some cache2\<rparr>) of
                     Inl e \<Rightarrow> (Inl e, c2)
                   | Inr c3 \<Rightarrow> (Inr (fill rs vs), c3)))"

definition embed_uncached ::
    "('m, 'f::{zero,one,plus,times,inverse,ord}) embed_env \<Rightarrow> ('m, 'f) text_ctx \<Rightarrow> int \<Rightarrow> string list \<Rightarrow> 'f list list
      \<Rightarrow> (embed_fail + 'f list list) \<times> ('m, 'f) text_ctx" where
  "embed_uncached env c batch_size texts out =
     (case embed_subset env c batch_size texts out of
        (Inl e, c1) \<Rightarrow> (Inl e, c1)
      | (Inr rows, c1) \<Rightarrow>
          (case count_run batch_size True (length texts) (length texts) c1 of
             Inl e \<Rightarrow> (Inl e, c1) | Inr c2 \<Rightarrow> (Inr rows, c2)))"

definition embed_body ::
    "('m, 'f::{zero,one,plus,times,inverse,ord}) embed_env \<Rightarrow> int \<Rightarrow> ('m, 'f) text_ctx \<Rightarrow> int \<Rightarrow> string list \<Rightarrow> 'f list list
      \<Rightarrow> (embed_fail + 'f list list) \<times> ('m, 'f) text_ctx" where
  "embed_body env now c batch_size texts out =
     (case cx_cache c of
        None \<Rightarrow> embed_uncached env c batch_size texts out
      | Some cache \<Rightarrow> embed_cached env now c batch_size texts cache)"

definition backend_status :: "('m, 'f) text_ctx \<Rightarrow> status" where
  "backend_status c = (if backend_type c = BACKEND_LLAMACPP then LLAMA else ONNX_RUNTIME)"

text \<open>
  What a call decides: the status, the result, the context and the error message it sets. \<open>fresh\<close> is
  the buffer \<open>malloc\<close> returns, as rows of unspecified content; \<open>elapsed\<close> is the measured time.
\<close>

type_synonym ('m, 'f) embed_outcome =
  "(status \<times> 'f embeddings option \<times> ('m, 'f) text_ctx option \<times> string option) option"

definition text_embed ::
    "('m, 'f::{zero,one,plus,times,inverse,ord}) embed_env \<Rightarrow> int \<Rightarrow> 'f list list option \<Rightarrow> 'f
      \<Rightarrow> ('m, 'f) text_ctx \<Rightarrow> string list \<Rightarrow> int \<Rightarrow> 'f embeddings \<Rightarrow> ('m, 'f) embed_outcome" where
  "text_embed env now fresh elapsed c texts batch_size r =
     (let b = (if batch_size \<le> 0 then cx_batch_size c else batch_size);
          r1 = r\<lparr>e_dim := cx_dim c, e_num := int (length texts), e_data := fresh\<rparr>
      in case fresh of
           None \<Rightarrow> Some (OUT_OF_MEMORY, Some r1, Some c, None)
         | Some out \<Rightarrow>
             (case embed_body env now c b texts out of
                (Inl Undef, _) \<Rightarrow> None
              | (Inl (Threw msg), c1) \<Rightarrow>
                  Some (backend_status c1, Some (r1\<lparr>e_data := None\<rparr>), Some c1, Some (set_error msg))
              | (Inr rows, c1) \<Rightarrow>
                  Some (OK, Some (r1\<lparr>e_data := Some rows\<rparr>),
                        Some (c1\<lparr>total_latency := total_latency c1 + elapsed, stats_calls := stats_calls c1 + 1\<rparr>),
                        None)))"

definition lembed_text_embedding_embed ::
    "('m, 'f::{zero,one,plus,times,inverse,ord}) embed_env \<Rightarrow> int \<Rightarrow> 'f list list option \<Rightarrow> 'f
      \<Rightarrow> ('m, 'f) text_ctx option \<Rightarrow> string list option \<Rightarrow> int \<Rightarrow> int \<Rightarrow> 'f embeddings option \<Rightarrow> ('m, 'f) embed_outcome" where
  "lembed_text_embedding_embed env now fresh elapsed ctx texts num_texts batch_size result =
     (case (ctx, texts, result) of
        (Some c, Some ts, Some r) \<Rightarrow>
          if num_texts \<le> 0 then Some (INVALID_ARGUMENT, result, ctx, None)
          else text_embed env now fresh elapsed c (take (nat num_texts) ts) batch_size r
      | _ \<Rightarrow> Some (INVALID_ARGUMENT, result, ctx, None))"

section \<open>Streaming\<close>

text \<open>The rows handed to the callback, then the status, the context and the error message.\<close>

definition text_embed_stream ::
    "('m, 'f::{zero,one,plus,times,inverse,ord}) embed_env \<Rightarrow> ('m, 'f) text_ctx \<Rightarrow> string list \<Rightarrow> int
      \<Rightarrow> 'f list list \<times> (status \<times> ('m, 'f) text_ctx option \<times> string option) option" where
  "text_embed_stream env c texts batch_size =
     (let b = (if batch_size \<le> 0 then cx_batch_size c else batch_size) in
      case (if backend_type c = BACKEND_LLAMACPP
            then (case llama_embed_stream env c texts of (rows, r) \<Rightarrow> (rows, r, c))
            else (case onnx_embed_stream env c texts b of (rows, r, buf) \<Rightarrow> (rows, r, c\<lparr>pooled_buf := buf\<rparr>))) of
        (rows, Inl Undef, c1) \<Rightarrow> (rows, None)
      | (rows, Inl (Threw msg), c1) \<Rightarrow> (rows, Some (backend_status c1, Some c1, Some (set_error msg)))
      | (rows, Inr _, c1) \<Rightarrow>
          (case count_run b True (length texts) (length texts) c1 of
             Inl _ \<Rightarrow> (rows, None)
           | Inr c2 \<Rightarrow> (rows, Some (OK, Some c2, None))))"

definition lembed_text_embedding_embed_stream ::
    "('m, 'f::{zero,one,plus,times,inverse,ord}) embed_env \<Rightarrow> ('m, 'f) text_ctx option \<Rightarrow> string list option \<Rightarrow> int
      \<Rightarrow> int \<Rightarrow> bool \<Rightarrow> 'f list list \<times> (status \<times> ('m, 'f) text_ctx option \<times> string option) option" where
  "lembed_text_embedding_embed_stream env ctx texts num_texts batch_size has_callback =
     (case (ctx, texts) of
        (Some c, Some ts) \<Rightarrow>
          if num_texts \<le> 0 \<or> \<not> has_callback then ([], Some (INVALID_ARGUMENT, ctx, None))
          else text_embed_stream env c (take (nat num_texts) ts) batch_size
      | _ \<Rightarrow> ([], Some (INVALID_ARGUMENT, ctx, None)))"

section \<open>Introspection\<close>

record 'f text_stats =
  st_texts :: "64 word"
  st_batches :: "64 word"
  st_latency :: 'f
  st_hits :: "64 word"
  st_misses :: "64 word"
  st_cache_size :: int

definition stats_zero :: "'f::zero text_stats" where
  "stats_zero = \<lparr>st_texts = 0, st_batches = 0, st_latency = 0, st_hits = 0, st_misses = 0, st_cache_size = 0\<rparr>"

text \<open>\<open>stats\<close> fills the first three fields, \<open>stats_v2\<close> all of them.\<close>

definition avg_latency :: "(int \<Rightarrow> 'f) \<Rightarrow> ('m, 'f::{zero,inverse}) text_ctx \<Rightarrow> 'f" where
  "avg_latency of_c c = (if stats_calls c > 0 then total_latency c / of_c (stats_calls c) else 0)"

definition lembed_text_embedding_stats ::
    "(int \<Rightarrow> 'f) \<Rightarrow> ('m, 'f::{zero,inverse}) text_ctx option \<Rightarrow> 'f text_stats option \<Rightarrow> 'f text_stats option" where
  "lembed_text_embedding_stats of_c ctx out =
     (case (ctx, out) of
        (_, None) \<Rightarrow> None
      | (None, Some r) \<Rightarrow> Some (r\<lparr>st_texts := 0, st_batches := 0, st_latency := 0\<rparr>)
      | (Some c, Some r) \<Rightarrow>
          Some (r\<lparr>st_texts := texts_embedded c, st_batches := batches_run c, st_latency := avg_latency of_c c\<rparr>))"

definition lembed_text_embedding_stats_v2 ::
    "(int \<Rightarrow> 'f) \<Rightarrow> ('m, 'f::{zero,inverse}) text_ctx option \<Rightarrow> 'f text_stats option \<Rightarrow> 'f text_stats option" where
  "lembed_text_embedding_stats_v2 of_c ctx out =
     (case (ctx, out) of
        (_, None) \<Rightarrow> None
      | (None, Some r) \<Rightarrow> Some stats_zero
      | (Some c, Some r) \<Rightarrow>
          Some \<lparr>st_texts = texts_embedded c, st_batches = batches_run c, st_latency = avg_latency of_c c,
                st_hits = cache_hits c, st_misses = cache_misses c,
                st_cache_size = (case cx_cache c of None \<Rightarrow> 0 | Some l \<Rightarrow> int (capacity l))\<rparr>)"

definition lembed_text_embedding_dim :: "('m, 'f) text_ctx option \<Rightarrow> int" where
  "lembed_text_embedding_dim ctx = (case ctx of None \<Rightarrow> 0 | Some c \<Rightarrow> cx_dim c)"

definition lembed_text_embedding_desc :: "('m, 'f) text_ctx option \<Rightarrow> model_desc option" where
  "lembed_text_embedding_desc ctx = map_option cx_desc ctx"

definition lembed_text_embedding_desc_v2 :: "('m, 'f) text_ctx option \<Rightarrow> model_desc_v2 option" where
  "lembed_text_embedding_desc_v2 ctx = map_option cx_desc_v2 ctx"

definition lembed_text_embedding_model_name :: "('m, 'f) text_ctx option \<Rightarrow> string option" where
  "lembed_text_embedding_model_name ctx = map_option (\<lambda>c. c_str (model_name_str c)) ctx"

definition lembed_text_embedding_max_length :: "('m, 'f) text_ctx option \<Rightarrow> int" where
  "lembed_text_embedding_max_length ctx = (case ctx of None \<Rightarrow> 0 | Some c \<Rightarrow> cx_max_length c)"

section \<open>Facts\<close>

text \<open>The store the code uses: the LRU cache whose \<open>malloc\<close> may fail on any key.\<close>

interpretation text_store: embedding_store "lru_get_vec now" "\<lambda>k. lru_put (ok k) now k" lru_content lru_inv
  for now ok
  by unfold_locales
    (auto intro: lru_get_vec_inv lru_put_inv lru_store.get_found lru_store.content_get dest: lru_content_put)

lemma text_vector_frame [simp]:
  "text_vector env (c\<lparr>pooled_buf := x\<rparr>) g = text_vector env c g"
  "text_vector env (c\<lparr>cx_cache := y\<rparr>) g = text_vector env c g"
  "text_vector env (c\<lparr>texts_embedded := n\<rparr>) g = text_vector env c g"
  "text_vector env (c\<lparr>batches_run := n\<rparr>) g = text_vector env c g"
  "text_vector env (c\<lparr>cache_hits := n\<rparr>) g = text_vector env c g"
  "text_vector env (c\<lparr>cache_misses := n\<rparr>) g = text_vector env c g"
  "text_vector env (c\<lparr>total_latency := t\<rparr>) g = text_vector env c g"
  "text_vector env (c\<lparr>stats_calls := k\<rparr>) g = text_vector env c g"
  by (simp_all add: text_vector_def pooled_vector_def fun_eq_iff)

lemma onnx_ready_frame [simp]:
  "onnx_ready env (c\<lparr>pooled_buf := x\<rparr>) g = onnx_ready env c g"
  "onnx_ready env (c\<lparr>cx_cache := y\<rparr>) g = onnx_ready env c g"
  "onnx_ready env (c\<lparr>texts_embedded := n\<rparr>) g = onnx_ready env c g"
  "onnx_ready env (c\<lparr>batches_run := n\<rparr>) g = onnx_ready env c g"
  "onnx_ready env (c\<lparr>cache_hits := n\<rparr>) g = onnx_ready env c g"
  "onnx_ready env (c\<lparr>cache_misses := n\<rparr>) g = onnx_ready env c g"
  "onnx_ready env (c\<lparr>total_latency := t\<rparr>) g = onnx_ready env c g"
  "onnx_ready env (c\<lparr>stats_calls := k\<rparr>) g = onnx_ready env c g"
  by (simp_all add: onnx_ready_def chosen_output_def)

text \<open>A ready context whose cache holds only vectors the model gives.\<close>

definition text_ctx_ok ::
    "('m, 'f::{zero,one,plus,times,inverse,ord}) embed_env \<Rightarrow> ('m, 'f) text_ctx \<Rightarrow> (int list \<Rightarrow> 'f list list) \<Rightarrow> bool" where
  "text_ctx_ok env c g \<longleftrightarrow> onnx_ready env c g \<and> backend_type c \<noteq> BACKEND_LLAMACPP \<and>
     (case cx_cache c of None \<Rightarrow> True | Some l \<Rightarrow> lru_inv l \<and> coherent lru_content (text_vector env c g) l)"

lemma count_run_ok:
  assumes "backend_type c \<noteq> BACKEND_LLAMACPP" and "0 < b" and "int n + b \<le> INT_MAX"
  shows "\<exists>k. count_run b always n asked c =
    Inr (c\<lparr>texts_embedded := texts_embedded c + of_nat asked, batches_run := batches_run c + k\<rparr>)"
proof -
  have "batch_count (int n) (int (nat b)) = Some (int ((n + nat b - 1) div nat b))"
    by (rule batch_count_nat) (use assms in simp_all)
  then have "count_run b always n asked c = Inr (c\<lparr>texts_embedded := texts_embedded c + of_nat asked,
      batches_run := batches_run c + of_int (int ((n + nat b - 1) div nat b))\<rparr>)"
    using assms(1,2) by (simp add: count_run_def count_batches_def)
  then show ?thesis by (rule exI)
qed

lemma embed_subset_ok:
  assumes "onnx_ready env c g" and "backend_type c \<noteq> BACKEND_LLAMACPP" and "sorter (env_sort env)"
    and "length out = length texts" and "0 < b" and "int (length texts) + b \<le> INT_MAX"
    and "int (length texts) * cx_dim c \<le> INT_MAX"
  shows "\<exists>buf. embed_subset env c b texts out = (Inr (map (text_vector env c g) texts), c\<lparr>pooled_buf := buf\<rparr>)"
  using onnx_embed_ok [OF assms(1,3,4,5,6,7)] assms(2) by (auto simp: embed_subset_def)

lemma length_missing: "length rs = length ks \<Longrightarrow> length (missing rs ks) = length (filter (\<lambda>r. r = None) rs)"
  by (induction rs ks rule: list_induct2) (auto split: option.split simp: missing_def)

lemma filter_None_add: "length (filter (\<lambda>r. r \<noteq> None) rs) + length (filter (\<lambda>r. r = None) rs) = length rs"
  using sum_length_filter_compl [of "\<lambda>r. r = None" rs] by simp

text \<open>The cached call: right vectors, right counters, and a cache that stays right.\<close>

lemma embed_cached_ok:
  assumes ok: "text_ctx_ok env c g" and cache: "cx_cache c = Some cache" and srt: "sorter (env_sort env)"
    and b: "0 < b" "int (length texts) + b \<le> INT_MAX" "int (length texts) * cx_dim c \<le> INT_MAX"
  shows "\<exists>c'. embed_cached env now c b texts cache = (Inr (map (text_vector env c g) texts), c') \<and>
    text_ctx_ok env c' g \<and> text_vector env c' g = text_vector env c g \<and>
    texts_embedded c' = texts_embedded c + of_nat (length texts) \<and>
    cache_hits c' + cache_misses c' = cache_hits c + cache_misses c + of_nat (length texts) \<and>
    cx_dim c' = cx_dim c \<and> cx_batch_size c' = cx_batch_size c \<and> total_latency c' = total_latency c \<and> stats_calls c' = stats_calls c"
proof -
  let ?f = "text_vector env c g"
  obtain rs cache1 where scan: "scan_cache (lru_get_vec now) (usable_hit c) texts cache = (rs, cache1)" by fastforce
  from ok cache have inv: "lru_inv cache" "coherent lru_content ?f cache" and ready: "onnx_ready env c g"
    and be: "backend_type c \<noteq> BACKEND_LLAMACPP" by (simp_all add: text_ctx_ok_def)
  note sound = text_store.scan_sound [OF inv scan]
  note res = text_store.cached_results [OF inv scan]
  let ?miss = "missing rs texts" and ?c1 = "(count_hits rs c)\<lparr>cx_cache := Some cache1\<rparr>"
  have len: "length ?miss = length (filter (\<lambda>r. r = None) rs)" "length ?miss \<le> length texts"
    using sound length_missing [of rs texts] filter_None_add [of rs] by simp_all
  have c1: "onnx_ready env ?c1 g" "backend_type ?c1 \<noteq> BACKEND_LLAMACPP" "text_vector env ?c1 g = ?f" "cx_dim ?c1 = cx_dim c"
    using ready be by (simp_all add: count_hits_def)
  have dim: "0 \<le> cx_dim c" using ready by (simp add: onnx_ready_def)
  then have "int (length ?miss) * cx_dim c \<le> int (length texts) * cx_dim c"
    using len(2) by (intro mult_right_mono) simp_all
  then have miss_bound: "int (length ?miss) + b \<le> INT_MAX" "int (length ?miss) * cx_dim ?c1 \<le> INT_MAX"
    using b len(2) c1(4) by simp_all
  obtain c2 where c2: "(if ?miss = [] then (Inr [], ?c1) else embed_subset env ?c1 b ?miss
      (replicate (length ?miss) (replicate (nat (cx_dim c)) 0))) = (Inr (map ?f ?miss), c2)"
    and c2': "\<exists>buf. c2 = ?c1\<lparr>pooled_buf := buf\<rparr>"
  proof (cases "?miss = []")
    case True
    show ?thesis
    proof (rule that [of ?c1])
      show "\<exists>buf. ?c1 = ?c1\<lparr>pooled_buf := buf\<rparr>" by (rule exI [of _ "pooled_buf ?c1"]) simp
    qed (simp add: True)
  next
    case False
    from embed_subset_ok [OF c1(1,2) srt _ b(1) miss_bound, of "replicate (length ?miss) (replicate (nat (cx_dim c)) 0)"]
    obtain buf where "embed_subset env ?c1 b ?miss (replicate (length ?miss) (replicate (nat (cx_dim c)) 0)) =
        (Inr (map ?f ?miss), ?c1\<lparr>pooled_buf := buf\<rparr>)" unfolding c1(3) by auto
    then show ?thesis using False by (intro that [of "?c1\<lparr>pooled_buf := buf\<rparr>"]) (simp, blast)
  qed
  let ?cache2 = "store_all (\<lambda>k. lru_put (env_put_ok env k) now k) (zip ?miss (map ?f ?miss)) cache1"
  let ?c2 = "c2\<lparr>cx_cache := Some ?cache2\<rparr>"
  have z: "zip ?miss (map ?f ?miss) = map (\<lambda>k. (k, ?f k)) ?miss" by (simp add: zip_map2 zip_same_conv_map)
  from c2' be obtain k where count: "count_run b False (length ?miss) (length texts) ?c2 =
      Inr (?c2\<lparr>texts_embedded := texts_embedded ?c2 + of_nat (length texts), batches_run := batches_run ?c2 + k\<rparr>)"
    using count_run_ok [of ?c2 b "length ?miss" False "length texts"] b(1) miss_bound(1)
    by (auto simp: count_hits_def)
  let ?c3 = "?c2\<lparr>texts_embedded := texts_embedded ?c2 + of_nat (length texts), batches_run := batches_run ?c2 + k\<rparr>"
  have "embed_cached env now c b texts cache = (Inr (fill rs (map ?f ?miss)), ?c3)"
    unfolding embed_cached_def scan Let_def prod.case c2 sum.case count by simp
  moreover have "fill rs (map ?f ?miss) = map ?f texts" by (rule res(1))
  moreover have "text_ctx_ok env ?c3 g" and "text_vector env ?c3 g = ?f"
    using c2' ready be res(2,3) [where ks' = ?miss and ok = "env_put_ok env"] unfolding text_ctx_ok_def z by (auto simp: count_hits_def)
  moreover have "of_nat (length (filter (\<lambda>r. r \<noteq> None) rs)) + of_nat (length (filter (\<lambda>r. r = None) rs)) =
      (of_nat (length texts) :: 64 word)"
    using sound filter_None_add [of rs] by (metis of_nat_add)
  ultimately show ?thesis using c2' by (intro exI [of _ ?c3]) (auto simp: count_hits_def algebra_simps)
qed

lemma embed_body_ok:
  assumes ok: "text_ctx_ok env c g" and srt: "sorter (env_sort env)" and out: "length out = length texts"
    and b: "0 < b" "int (length texts) + b \<le> INT_MAX" "int (length texts) * cx_dim c \<le> INT_MAX"
  shows "\<exists>c'. embed_body env now c b texts out = (Inr (map (text_vector env c g) texts), c') \<and>
    text_ctx_ok env c' g \<and> text_vector env c' g = text_vector env c g \<and>
    texts_embedded c' = texts_embedded c + of_nat (length texts) \<and>
    cache_hits c' + cache_misses c' = cache_hits c + cache_misses c +
      (if cx_cache c = None then 0 else of_nat (length texts)) \<and>
    cx_dim c' = cx_dim c \<and> cx_batch_size c' = cx_batch_size c \<and> total_latency c' = total_latency c \<and> stats_calls c' = stats_calls c"
proof (cases "cx_cache c")
  case None
  from ok have be: "backend_type c \<noteq> BACKEND_LLAMACPP" and ready: "onnx_ready env c g"
    by (simp_all add: text_ctx_ok_def)
  obtain buf where sub: "embed_subset env c b texts out =
      (Inr (map (text_vector env c g) texts), c\<lparr>pooled_buf := buf\<rparr>)"
    using embed_subset_ok [OF ready be srt out b] by blast
  obtain k where "count_run b True (length texts) (length texts) (c\<lparr>pooled_buf := buf\<rparr>) =
      Inr (c\<lparr>pooled_buf := buf, texts_embedded := texts_embedded c + of_nat (length texts),
             batches_run := batches_run c + k\<rparr>)"
    using count_run_ok [of "c\<lparr>pooled_buf := buf\<rparr>" b "length texts" True "length texts"] be b by auto
  with sub None ok show ?thesis
    by (simp add: embed_body_def embed_uncached_def text_ctx_ok_def)
next
  case (Some cache)
  then show ?thesis using embed_cached_ok [OF ok Some srt b, of now] by (simp add: embed_body_def)
qed

lemma text_ctx_ok_frame [simp]:
  "text_ctx_ok env (c\<lparr>total_latency := t, stats_calls := k\<rparr>) g = text_ctx_ok env c g"
  by (simp add: text_ctx_ok_def cong: option.case_cong)

text \<open>What a call may assume of its arguments: positive batch size, no overflow.\<close>

definition effective_batch :: "('m, 'f) text_ctx \<Rightarrow> int \<Rightarrow> int" where
  "effective_batch c batch_size = (if batch_size \<le> 0 then cx_batch_size c else batch_size)"

definition call_fits :: "('m, 'f) text_ctx \<Rightarrow> string list \<Rightarrow> int \<Rightarrow> bool" where
  "call_fits c texts batch_size \<longleftrightarrow> 0 < effective_batch c batch_size \<and>
     int (length texts) + effective_batch c batch_size \<le> INT_MAX \<and> int (length texts) * cx_dim c \<le> INT_MAX"

lemma text_embed_ok:
  assumes ok: "text_ctx_ok env c g" and srt: "sorter (env_sort env)" and out: "length out = length texts"
    and fits: "call_fits c texts batch_size"
  shows "\<exists>c'. text_embed env now (Some out) elapsed c texts batch_size r =
      Some (OK, Some \<lparr>e_data = Some (map (text_vector env c g) texts), e_num = int (length texts), e_dim = cx_dim c\<rparr>,
            Some c', None) \<and>
    text_ctx_ok env c' g \<and> text_vector env c' g = text_vector env c g \<and>
    texts_embedded c' = texts_embedded c + of_nat (length texts) \<and>
    cache_hits c' + cache_misses c' = cache_hits c + cache_misses c +
      (if cx_cache c = None then 0 else of_nat (length texts)) \<and> stats_calls c' = stats_calls c + 1 \<and>
    cx_dim c' = cx_dim c \<and> cx_batch_size c' = cx_batch_size c"
proof -
  from fits have b: "0 < effective_batch c batch_size" "int (length texts) + effective_batch c batch_size \<le> INT_MAX"
    "int (length texts) * cx_dim c \<le> INT_MAX" by (simp_all add: call_fits_def)
  from embed_body_ok [OF ok srt out b, of now] obtain c' where
    c': "embed_body env now c (effective_batch c batch_size) texts out = (Inr (map (text_vector env c g) texts), c')"
      "text_ctx_ok env c' g" "text_vector env c' g = text_vector env c g"
      "texts_embedded c' = texts_embedded c + of_nat (length texts)"
      "cache_hits c' + cache_misses c' = cache_hits c + cache_misses c +
        (if cx_cache c = None then 0 else of_nat (length texts))" "stats_calls c' = stats_calls c"
      "cx_dim c' = cx_dim c" "cx_batch_size c' = cx_batch_size c" by blast
  let ?c = "c'\<lparr>total_latency := total_latency c' + elapsed, stats_calls := stats_calls c' + 1\<rparr>"
  have "text_embed env now (Some out) elapsed c texts batch_size r =
      Some (OK, Some \<lparr>e_data = Some (map (text_vector env c g) texts), e_num = int (length texts), e_dim = cx_dim c\<rparr>,
            Some ?c, None)"
    using c'(1) by (simp add: text_embed_def effective_batch_def Let_def)
  with c' show ?thesis by (intro exI [of _ ?c]) (auto split: if_split)
qed

subsection \<open>Failing calls\<close>

lemma scan_content_le:
  "lru_inv l \<Longrightarrow> scan_cache (lru_get_vec now) u ks l = (rs, l') \<Longrightarrow> lru_content l' \<subseteq>\<^sub>m lru_content l"
proof (induction ks arbitrary: l rs l')
  case (Cons k ks)
  obtain r l1 where get: "lru_get_vec now k l = (r, l1)" by fastforce
  obtain rs1 l2 where scan: "scan_cache (lru_get_vec now) u ks l1 = (rs1, l2)" by fastforce
  have "lru_inv l1" and "lru_content l1 \<subseteq>\<^sub>m lru_content l"
    using lru_get_vec_inv [OF Cons.prems(1), of now k] lru_store.content_get [OF Cons.prems(1), of now k] get by simp_all
  with Cons.IH [OF _ scan] Cons.prems(2) get scan show ?case by (auto intro: map_le_trans)
qed simp

lemma embed_subset_frame:
  "snd (embed_subset env c b texts out) = c \<or> (\<exists>buf. snd (embed_subset env c b texts out) = c\<lparr>pooled_buf := buf\<rparr>)"
  by (auto simp: embed_subset_def split: prod.split)

definition same_counts :: "('m, 'f) text_ctx \<Rightarrow> ('m, 'f) text_ctx \<Rightarrow> bool" where
  "same_counts c c' \<longleftrightarrow> texts_embedded c' = texts_embedded c \<and> batches_run c' = batches_run c \<and>
     total_latency c' = total_latency c \<and> stats_calls c' = stats_calls c \<and> backend_type c' = backend_type c"

lemma embed_body_failed:
  assumes "embed_body env now c b texts out = (Inl (Threw msg), c')"
    and "\<forall>l. cx_cache c = Some l \<longrightarrow> lru_inv l"
  shows "same_counts c c' \<and> (\<forall>l. cx_cache c = Some l \<longrightarrow>
    (\<exists>l'. cx_cache c' = Some l' \<and> lru_content l' \<subseteq>\<^sub>m lru_content l))"
proof (cases "cx_cache c")
  case None
  then obtain r c1 where sub: "embed_subset env c b texts out = (r, c1)" by fastforce
  with None assms(1) have "c' = c1"
    by (auto simp: embed_body_def embed_uncached_def count_run_def split: sum.splits option.splits)
  with embed_subset_frame [of env c b texts out] sub None show ?thesis by (auto simp: same_counts_def)
next
  case (Some cache)
  obtain rs l1 where scan: "scan_cache (lru_get_vec now) (usable_hit c) texts cache = (rs, l1)" by fastforce
  let ?c1 = "(count_hits rs c)\<lparr>cx_cache := Some l1\<rparr>"
  let ?out = "replicate (length (missing rs texts)) (replicate (nat (cx_dim c)) 0)"
  obtain r c2 where sub: "embed_subset env ?c1 b (missing rs texts) ?out = (r, c2)" by fastforce
  with Some assms(1) scan have "c' = c2 \<and> missing rs texts \<noteq> []"
    by (auto simp: embed_body_def embed_cached_def count_run_def Let_def split: sum.splits option.splits if_splits prod.splits)
  moreover have "c2 = ?c1 \<or> (\<exists>buf. c2 = ?c1\<lparr>pooled_buf := buf\<rparr>)"
    using embed_subset_frame [of env ?c1 b "missing rs texts" ?out] sub by simp
  moreover have "lru_content l1 \<subseteq>\<^sub>m lru_content cache"
    using scan_content_le [OF _ scan] assms(2) Some by blast
  ultimately show ?thesis using Some by (auto simp: same_counts_def count_hits_def)
qed

section \<open>Calls in sequence\<close>

text \<open>One call: the clock, the time it takes, the texts, the batch size and the rows of its buffer.\<close>

type_synonym 'f embed_call = "int \<times> 'f \<times> string list \<times> int \<times> 'f list list"

fun embed_calls ::
    "('m, 'f::{zero,one,plus,times,inverse,ord}) embed_env \<Rightarrow> 'f embed_call list \<Rightarrow> ('m, 'f) text_ctx
      \<Rightarrow> ((status \<times> 'f list list option) list \<times> ('m, 'f) text_ctx) option" where
  "embed_calls env [] c = Some ([], c)"
| "embed_calls env ((now, elapsed, texts, batch_size, out) # calls) c =
     (case text_embed env now (Some out) elapsed c texts batch_size \<lparr>e_data = None, e_num = 0, e_dim = 0\<rparr> of
        Some (s, Some r, Some c1, _) \<Rightarrow>
          map_option (\<lambda>(rs, c2). ((s, e_data r) # rs, c2)) (embed_calls env calls c1)
      | _ \<Rightarrow> None)"

lemma embed_calls_ok:
  assumes "text_ctx_ok env c g" and "sorter (env_sort env)"
    and "\<forall>(now, elapsed, texts, b, out) \<in> set calls. call_fits c texts b \<and> length out = length texts"
  shows "\<exists>c'. embed_calls env calls c = Some (map (\<lambda>(now, elapsed, texts, b, out).
      (OK, Some (map (text_vector env c g) texts))) calls, c') \<and> text_ctx_ok env c' g"
  using assms(1,3)
proof (induction calls arbitrary: c)
  case (Cons call calls)
  obtain now elapsed texts b out where call: "call = (now, elapsed, texts, b, out)" by (cases call)
  with Cons.prems(2) have fits: "call_fits c texts b" and len: "length out = length texts" by simp_all
  from text_embed_ok [OF Cons.prems(1) assms(2) len fits, of now elapsed "\<lparr>e_data = None, e_num = 0, e_dim = 0\<rparr>"]
  obtain c1 where c1: "text_embed env now (Some out) elapsed c texts b \<lparr>e_data = None, e_num = 0, e_dim = 0\<rparr> =
      Some (OK, Some \<lparr>e_data = Some (map (text_vector env c g) texts), e_num = int (length texts), e_dim = cx_dim c\<rparr>,
            Some c1, None)" "text_ctx_ok env c1 g" "text_vector env c1 g = text_vector env c g"
      "cx_dim c1 = cx_dim c" "cx_batch_size c1 = cx_batch_size c" by blast
  from c1(4,5) have "call_fits c1 = call_fits c" by (simp add: call_fits_def effective_batch_def fun_eq_iff)
  with Cons.IH [OF c1(2)] Cons.prems(2) c1 call show ?case by auto
qed simp

section \<open>Properties\<close>

text \<open>C6. A call on a ready context returns OK with, for every text in order, the vector the model gives
  that text alone, whether it came from the cache or from a batch, and the context is as good as
  before. The text counter grows by the number of texts, and with a cache so does the sum of its hits
  and misses.\<close>

theorem text_embed_exact:
  assumes "text_ctx_ok env c g" and "sorter (env_sort env)" and "length out = length texts"
    and "call_fits c texts batch_size"
  shows "\<exists>c'. text_embed env now (Some out) elapsed c texts batch_size r =
      Some (OK, Some \<lparr>e_data = Some (map (text_vector env c g) texts), e_num = int (length texts), e_dim = cx_dim c\<rparr>,
            Some c', None) \<and>
    text_ctx_ok env c' g \<and> texts_embedded c' = texts_embedded c + of_nat (length texts) \<and>
    cache_hits c' + cache_misses c' = cache_hits c + cache_misses c +
      (if cx_cache c = None then 0 else of_nat (length texts))"
  using text_embed_ok [OF assms, of now elapsed r] by blast

text \<open>C26. A call that throws frees its result, reports the error of its backend, counts no text, no batch
  and no time, and stores nothing: the cache holds at most what it held.\<close>

theorem text_embed_failure:
  assumes "text_embed env now (Some out) elapsed c texts batch_size r = Some (s, Some r', Some c', Some msg)"
    and "\<forall>l. cx_cache c = Some l \<longrightarrow> lru_inv l"
  shows "e_data r' = None \<and> s = backend_status c \<and> same_counts c c' \<and>
    (\<forall>l. cx_cache c = Some l \<longrightarrow> (\<exists>l'. cx_cache c' = Some l' \<and> lru_content l' \<subseteq>\<^sub>m lru_content l))"
proof -
  obtain m where body: "embed_body env now c (if batch_size \<le> 0 then cx_batch_size c else batch_size) texts out =
      (Inl (Threw m), c')" and "s = backend_status c'" "e_data r' = None"
    using assms(1) by (auto simp: text_embed_def Let_def split: prod.splits sum.splits embed_fail.splits)
  with embed_body_failed [OF body assms(2)] show ?thesis by (simp add: same_counts_def backend_status_def)
qed

text \<open>C10. Over any sequence of calls, with whatever clock, batch sizes and repeated texts, every call
  returns OK and every text gets the vector the model gives it alone: the cache never shows in the
  results, however often entries are evicted in between.\<close>

theorem embed_calls_exact:
  assumes "text_ctx_ok env c g" and "sorter (env_sort env)"
    and "\<forall>(now, elapsed, texts, b, out) \<in> set calls. call_fits c texts b \<and> length out = length texts"
  shows "\<exists>c'. embed_calls env calls c = Some (map (\<lambda>(now, elapsed, texts, b, out).
      (OK, Some (map (text_vector env c g) texts))) calls, c') \<and> text_ctx_ok env c' g"
  by (rule embed_calls_ok [OF assms])

text \<open>The sample context is ready: its cache is new.\<close>

lemma sample_ctx_ok: "text_ctx_ok sample_text_env sample_text_ctx sample_tokens"
  using sample_ready lru_new_inv [of 8 0]
  by (simp add: text_ctx_ok_def) (simp add: sample_text_ctx_def coherent_def lru_content_def lru_new_def)

lemma sample_sorter: "sorter (env_sort sample_text_env)"
  by (simp add: sample_text_env_def isort.sorter_axioms)

lemma sample_fits: "length texts \<le> 9 \<Longrightarrow> call_fits sample_text_ctx texts 0"
  by (simp add: call_fits_def effective_batch_def sample_text_ctx_def INT_MAX_def)

theorem text_embed_exact_witness:
  "\<exists>c'. text_embed sample_text_env 5 (Some [[], []]) 1 sample_text_ctx [''b'', ''b''] 0 \<lparr>e_data = None, e_num = 0, e_dim = 0\<rparr> =
      Some (OK, Some \<lparr>e_data = Some (map (text_vector sample_text_env sample_text_ctx sample_tokens) [''b'', ''b'']),
        e_num = 2, e_dim = 1\<rparr>, Some c', None) \<and> texts_embedded c' = 2 \<and> cache_hits c' + cache_misses c' = 2"
  using text_embed_exact [OF sample_ctx_ok sample_sorter _ sample_fits, of "[[], []]" "[''b'', ''b'']" 5 1
      "\<lparr>e_data = None, e_num = 0, e_dim = 0\<rparr>"]
  by (fastforce simp: sample_text_ctx_def)

theorem embed_calls_exact_witness:
  "map_option fst (embed_calls sample_text_env [(1, 2, [''b'', ''a''], 0, [[], []]), (3, 2, [''a''], 0, [[]])]
      sample_text_ctx) =
    Some [(OK, Some (map (text_vector sample_text_env sample_text_ctx sample_tokens) [''b'', ''a''])),
          (OK, Some (map (text_vector sample_text_env sample_text_ctx sample_tokens) [''a'']))]"
proof -
  have "\<forall>(now, elapsed, texts, b, out) \<in> set [(1::int, 2::real, [''b'', ''a''], 0, [[], []]), (3, 2, [''a''], 0, [[]])].
      call_fits sample_text_ctx texts b \<and> length out = length texts"
    by (simp add: sample_fits)
  from embed_calls_exact [OF sample_ctx_ok sample_sorter this] obtain c' where
    "embed_calls sample_text_env [(1, 2, [''b'', ''a''], 0, [[], []]), (3, 2, [''a''], 0, [[]])] sample_text_ctx =
      Some (map (\<lambda>(now, elapsed, texts, b, out). (OK, Some (map (text_vector sample_text_env sample_text_ctx sample_tokens) texts)))
        [(1::int, 2::real, [''b'', ''a''], 0::int, [[], [] :: real list]), (3, 2, [''a''], 0, [[]])], c')" by blast
  then show ?thesis by (simp del: embed_calls.simps)
qed

definition failing_ctx :: "(int, real) text_ctx" where
  "failing_ctx = sample_text_ctx\<lparr>backend_type := BACKEND_LLAMACPP,
     llama_sess := \<lparr>ls_model = Some 2, ls_vocab = Some 2, ls_ctx = Some 2, ls_n_ctx = 8, ls_n_embd = 2, ls_n_threads = 1\<rparr>\<rparr>"

theorem text_embed_failure_witness:
  "same_counts failing_ctx (failing_ctx\<lparr>cache_misses := 1\<rparr>)"
proof -
  let ?env = "sample_text_env\<lparr>env_llama := sample_real_lib\<lparr>lib_encode := \<lambda>m b. (1, None)\<rparr>\<rparr>"
  have "text_embed ?env 5 (Some [[]]) 1 failing_ctx [''b''] 0 \<lparr>e_data = None, e_num = 0, e_dim = 0\<rparr> =
      Some (LLAMA, Some \<lparr>e_data = None, e_num = 1, e_dim = 1\<rparr>, Some (failing_ctx\<lparr>cache_misses := 1\<rparr>),
        Some (set_error ''llama_encode failed for embedding extraction''))"
    by (simp add: text_embed_def embed_body_def embed_cached_def embed_subset_def llama_embed_batch_def
        llama_embed_single_def llama_embed_def llama_embed_tokens_def llama_tokens_def take_embedding_def
        failing_ctx_def sample_text_ctx_def sample_real_lib_def count_hits_def lru_get_vec_def lru_get_def
        lru_touch_def lru_new_def backend_status_def)
  from text_embed_failure [OF this] show ?thesis
    by (simp add: failing_ctx_def sample_text_ctx_def lru_new_inv)
qed

end
