(* ===== verification/Reranker.thy ===== *)
theory Reranker
  imports TextEmbedding
begin

text \<open>
  Reranking (\<open>detail/reranker_impl.hpp\<close>, \<open>detail/reranker_llama_impl.hpp\<close>): the context and
  \<open>lembed_reranker_rerank\<close> on both backends, with the cache of scores, and the introspection. An exception is
  \<open>Threw\<close>, an access outside a buffer or an overflow \<open>Undef\<close>. The runtimes, \<open>std::sort\<close>, the clock and
  \<open>malloc\<close> are the arguments of \<open>TextBackends\<close>.
\<close>

section \<open>The context\<close>

record ('m, 'f) reranker =
  rk_backend :: backend
  rk_sess :: onnx_session
  rk_tok :: tokenizer
  rk_llama :: "'m llama_session"
  rk_quantization :: int
  rk_max_length :: int
  rk_model_name :: string
  rk_num_threads :: int
  rk_batch_size :: int
  rk_provider :: int
  rk_device_id :: int
  rk_desc :: model_desc
  rk_desc_v2 :: model_desc_v2
  rk_texts :: "64 word"
  rk_batches :: "64 word"
  rk_hits :: "64 word"
  rk_misses :: "64 word"
  rk_latency :: 'f
  rk_calls :: int
  rk_cache :: "'f lru option"

record 'f rerank_results =
  rr_items :: "(int \<times> 'f) list option"
  rr_count :: int

definition lembed_rerank_results_free :: "'f rerank_results option \<Rightarrow> 'f rerank_results option" where
  "lembed_rerank_results_free result = map_option (\<lambda>r. r\<lparr>rr_items := None, rr_count := 0\<rparr>) result"

definition pair_key :: "string \<Rightarrow> string \<Rightarrow> string" where
  "pair_key query doc = query @ [CHR 0x0A] @ doc"

definition pair_text :: "string \<Rightarrow> string \<Rightarrow> string" where
  "pair_text query doc = query @ '' [SEP] '' @ doc"

section \<open>Scores of a batch\<close>

text \<open>The first entry of each row; rows are as far apart as the last dimension says, in \<open>int\<close>.\<close>

definition first_logits :: "'f tensor_result \<Rightarrow> nat \<Rightarrow> 'f list option" where
  "first_logits t n =
     (if tr_shape t = [] then None
      else let w = last (tr_shape t) in
        if list_all (\<lambda>i. c_int (int i * w) \<noteq> None \<and> 0 \<le> int i * w \<and> int i * w < int (length (tr_data t))) [0..<n]
        then Some (map (\<lambda>i. tr_data t ! nat (int i * w)) [0..<n]) else None)"

definition onnx_scores ::
    "('m, 'f) embed_env \<Rightarrow> ('m, 'f) reranker \<Rightarrow> string \<Rightarrow> string list \<Rightarrow> embed_fail + 'f list" where
  "onnx_scores env c query docs =
     (case encode_batch (rk_tok c) (map (pair_text query) docs) of
        Inl e \<Rightarrow> Inl (thrown e)
      | Inr enc \<Rightarrow>
          let bsz = length docs;
              seq_len = nat (seq_length enc);
              ids = flatten_rows bsz seq_len (input_ids enc);
              attn = flatten_rows bsz seq_len (attention_mask enc);
              types = replicate (bsz * seq_len) 0
          in (case fst (onnx_run (env_fails env) (env_infer env) (rk_sess c) ids attn (Some types) bsz seq_len (-1)) of
                Inl msg \<Rightarrow> Inl (Threw msg)
              | Inr [] \<Rightarrow> Inl Undef
              | Inr (t # _) \<Rightarrow> (case first_logits t bsz of None \<Rightarrow> Inl Undef | Some ss \<Rightarrow> Inr ss)))"

definition llama_classify_pair ::
    "('m, 'f::zero) embed_env \<Rightarrow> ('m, 'f) reranker \<Rightarrow> string \<Rightarrow> string \<Rightarrow> embed_fail + 'f" where
  "llama_classify_pair env c query doc =
     (case llama_classify (env_llama env) (rk_llama c) (pair_text query doc) of
        None \<Rightarrow> Inl Undef | Some (Inl msg) \<Rightarrow> Inl (Threw msg) | Some (Inr s) \<Rightarrow> Inr s)"

fun llama_pair_scores ::
    "('m, 'f::zero) embed_env \<Rightarrow> ('m, 'f) reranker \<Rightarrow> string \<Rightarrow> string list \<Rightarrow> embed_fail + 'f list" where
  "llama_pair_scores env c query [] = Inr []"
| "llama_pair_scores env c query (d # ds) =
     bind_sum (llama_classify_pair env c query d) (\<lambda>s. bind_sum (llama_pair_scores env c query ds) (\<lambda>ss. Inr (s # ss)))"

section \<open>All batches\<close>

text \<open>The keys and scores of a batch enter the cache, if there is one.\<close>

definition store_scores ::
    "('m, 'f) embed_env \<Rightarrow> int \<Rightarrow> string \<Rightarrow> string list \<Rightarrow> 'f list \<Rightarrow> 'f lru option \<Rightarrow> 'f lru option" where
  "store_scores env now query docs ss cache =
     map_option (store_all (\<lambda>k. lru_put (env_put_ok env k) now k) (zip (map (pair_key query) docs) (map (\<lambda>s. [s]) ss))) cache"

fun onnx_rerank_loop ::
    "('m, 'f) embed_env \<Rightarrow> int \<Rightarrow> ('m, 'f) reranker \<Rightarrow> string \<Rightarrow> string list \<Rightarrow> nat list \<Rightarrow> int \<Rightarrow> nat list
      \<Rightarrow> 'f list \<Rightarrow> 'f lru option \<Rightarrow> (embed_fail + 'f list) \<times> 'f lru option" where
  "onnx_rerank_loop env now c query docs miss batch [] scores cache = (Inr scores, cache)"
| "onnx_rerank_loop env now c query docs miss batch (bi # bis) scores cache =
     (case get_batch (int bi) (int (length miss)) batch of
        None \<Rightarrow> (Inl Undef, cache)
      | Some r \<Rightarrow>
          let idx = sub_list (nat (range_start r)) (nat (range_end r)) miss; part = map ((!) docs) idx in
          (case onnx_scores env c query part of
             Inl e \<Rightarrow> (Inl e, cache)
           | Inr ss \<Rightarrow>
               onnx_rerank_loop env now c query docs miss batch bis (scatter idx ss scores)
                 (store_scores env now query part ss cache)))"

fun llama_rerank_loop ::
    "('m, 'f::zero) embed_env \<Rightarrow> ('m, 'f) reranker \<Rightarrow> string \<Rightarrow> string list \<Rightarrow> int \<Rightarrow> nat list \<Rightarrow> 'f list
      \<Rightarrow> embed_fail + 'f list" where
  "llama_rerank_loop env c query docs batch [] scores = Inr scores"
| "llama_rerank_loop env c query docs batch (bi # bis) scores =
     (case get_batch (int bi) (int (length docs)) batch of
        None \<Rightarrow> Inl Undef
      | Some r \<Rightarrow>
          let idx = sub_list (nat (range_start r)) (nat (range_end r)) [0..<length docs] in
          bind_sum (llama_pair_scores env c query (map ((!) docs) idx)) (\<lambda>ss.
            llama_rerank_loop env c query docs batch bis (scatter idx ss scores)))"

definition llama_rerank ::
    "('m, 'f::zero) embed_env \<Rightarrow> ('m, 'f) reranker \<Rightarrow> string \<Rightarrow> string list \<Rightarrow> int \<Rightarrow> 'f list \<Rightarrow> embed_fail + 'f list" where
  "llama_rerank env c query docs batch_size scores =
     (let batch = (if batch_size \<le> 0 then rk_batch_size c else batch_size) in
      case batch_count (int (length docs)) batch of
        None \<Rightarrow> Inl Undef
      | Some n \<Rightarrow> llama_rerank_loop env c query docs batch [0..<nat n] scores)"

section \<open>Reranking\<close>

definition usable_score :: "'f list \<Rightarrow> bool" where
  "usable_score v \<longleftrightarrow> length v = 1"

definition score_of_hit :: "'f::zero list option \<Rightarrow> 'f" where
  "score_of_hit r = (case r of Some v \<Rightarrow> hd v | None \<Rightarrow> 0)"

definition miss_indices :: "'f list option list \<Rightarrow> nat list" where
  "miss_indices rs = filter (\<lambda>i. rs ! i = None) [0..<length rs]"

text \<open>The scores known so far, the documents left, and the context with its counters.\<close>

definition look_up ::
    "int \<Rightarrow> ('m, 'f::zero) reranker \<Rightarrow> string \<Rightarrow> string list \<Rightarrow> 'f list \<times> nat list \<times> ('m, 'f) reranker" where
  "look_up now c query docs =
     (case rk_cache c of
        None \<Rightarrow> (replicate (length docs) 0, [0..<length docs], c\<lparr>rk_misses := rk_misses c + of_nat (length docs)\<rparr>)
      | Some cache \<Rightarrow>
          (case scan_cache (lru_get_vec now) usable_score (map (pair_key query) docs) cache of (rs, cache1) \<Rightarrow>
             (map score_of_hit rs, miss_indices rs,
              c\<lparr>rk_cache := Some cache1, rk_hits := rk_hits c + of_nat (length (filter (\<lambda>r. r \<noteq> None) rs)),
                rk_misses := rk_misses c + of_nat (length (miss_indices rs))\<rparr>)))"

definition compute_scores ::
    "('m, 'f::zero) embed_env \<Rightarrow> int \<Rightarrow> ('m, 'f) reranker \<Rightarrow> string \<Rightarrow> string list \<Rightarrow> int \<Rightarrow> nat list \<Rightarrow> 'f list
      \<Rightarrow> (embed_fail + 'f list) \<times> ('m, 'f) reranker" where
  "compute_scores env now c query docs batch_size miss scores =
     (if miss = [] then (Inr scores, c)
      else if rk_backend c = BACKEND_LLAMACPP then
        (let miss_docs = map ((!) docs) miss in
         case llama_rerank env c query miss_docs batch_size (replicate (length miss) 0) of
           Inl e \<Rightarrow> (Inl e, c)
         | Inr ss \<Rightarrow> (Inr (scatter miss ss scores), c\<lparr>rk_cache := store_scores env now query miss_docs ss (rk_cache c)\<rparr>))
      else
        (case batch_count (int (length miss)) batch_size of
           None \<Rightarrow> (Inl Undef, c)
         | Some n \<Rightarrow>
             (case onnx_rerank_loop env now c query docs miss batch_size [0..<nat n] scores (rk_cache c) of
                (r, cache) \<Rightarrow> (r, c\<lparr>rk_cache := cache\<rparr>))))"

text \<open>The items by decreasing score.\<close>

definition ranked :: "('m, 'f::linorder) embed_env \<Rightarrow> 'f list \<Rightarrow> (int \<times> 'f) list" where
  "ranked env scores = map (\<lambda>i. (int i, scores ! i)) (env_sort env (\<lambda>a b. scores ! a > scores ! b) [0..<length scores])"

type_synonym ('m, 'f) rerank_outcome =
  "(status \<times> 'f rerank_results \<times> ('m, 'f) reranker \<times> string option) option"

definition rerank ::
    "('m, 'f::{linorder,zero,plus}) embed_env \<Rightarrow> int \<Rightarrow> bool \<Rightarrow> 'f \<Rightarrow> ('m, 'f) reranker \<Rightarrow> string \<Rightarrow> string list \<Rightarrow> int
      \<Rightarrow> 'f rerank_results \<Rightarrow> ('m, 'f) rerank_outcome" where
  "rerank env now malloc_ok elapsed c query docs batch_size result =
     (let b = (if batch_size \<le> 0 then rk_batch_size c else batch_size) in
      case look_up now c query docs of (scores, miss, c1) \<Rightarrow>
        (case compute_scores env now c1 query docs b miss scores of
           (Inl Undef, _) \<Rightarrow> None
         | (Inl (Threw msg), c2) \<Rightarrow> Some (ONNX_RUNTIME, result, c2, Some (set_error msg))
         | (Inr all_scores, c2) \<Rightarrow>
             let r = result\<lparr>rr_count := int (length docs)\<rparr> in
             if \<not> malloc_ok then Some (OUT_OF_MEMORY, r\<lparr>rr_items := None\<rparr>, c2, None)
             else (case batch_count (int (length docs)) b of
                     None \<Rightarrow> None
                   | Some k \<Rightarrow> Some (OK, r\<lparr>rr_items := Some (ranked env all_scores)\<rparr>,
                       c2\<lparr>rk_texts := rk_texts c2 + of_nat (length docs), rk_batches := rk_batches c2 + of_int k,
                          rk_latency := rk_latency c2 + elapsed, rk_calls := rk_calls c2 + 1\<rparr>, None))))"

definition lembed_reranker_rerank ::
    "('m, 'f::{linorder,zero,plus}) embed_env \<Rightarrow> int \<Rightarrow> bool \<Rightarrow> 'f \<Rightarrow> ('m, 'f) reranker option \<Rightarrow> string option
      \<Rightarrow> string list option \<Rightarrow> int \<Rightarrow> int \<Rightarrow> 'f rerank_results option
      \<Rightarrow> (status \<times> 'f rerank_results option \<times> ('m, 'f) reranker option \<times> string option) option" where
  "lembed_reranker_rerank env now malloc_ok elapsed ctx query documents num_documents batch_size result =
     (case (ctx, query, documents, result) of
        (Some c, Some q, Some ds, Some r) \<Rightarrow>
          if num_documents \<le> 0 then Some (INVALID_ARGUMENT, result, ctx, None)
          else map_option (\<lambda>(s, r1, c1, m). (s, Some r1, Some c1, m))
                 (rerank env now malloc_ok elapsed c q (take (nat num_documents) ds) batch_size r)
      | _ \<Rightarrow> Some (INVALID_ARGUMENT, result, ctx, None))"

section \<open>Introspection\<close>

definition lembed_reranker_desc :: "('m, 'f) reranker option \<Rightarrow> model_desc option" where
  "lembed_reranker_desc ctx = map_option rk_desc ctx"

definition lembed_reranker_desc_v2 :: "('m, 'f) reranker option \<Rightarrow> model_desc_v2 option" where
  "lembed_reranker_desc_v2 ctx = map_option rk_desc_v2 ctx"

definition lembed_reranker_model_name :: "('m, 'f) reranker option \<Rightarrow> string option" where
  "lembed_reranker_model_name ctx = map_option (\<lambda>c. c_str (rk_model_name c)) ctx"

definition lembed_reranker_max_length :: "('m, 'f) reranker option \<Rightarrow> int" where
  "lembed_reranker_max_length ctx = (case ctx of None \<Rightarrow> 0 | Some c \<Rightarrow> rk_max_length c)"

definition rerank_latency :: "(int \<Rightarrow> 'f) \<Rightarrow> ('m, 'f::{zero,inverse}) reranker \<Rightarrow> 'f" where
  "rerank_latency of_c c = (if rk_calls c > 0 then rk_latency c / of_c (rk_calls c) else 0)"

definition lembed_reranker_stats ::
    "(int \<Rightarrow> 'f) \<Rightarrow> ('m, 'f::{zero,inverse}) reranker option \<Rightarrow> 'f text_stats option \<Rightarrow> 'f text_stats option" where
  "lembed_reranker_stats of_c ctx out =
     (case (ctx, out) of
        (_, None) \<Rightarrow> None
      | (None, Some s) \<Rightarrow> Some (s\<lparr>st_texts := 0, st_batches := 0, st_latency := 0\<rparr>)
      | (Some c, Some s) \<Rightarrow> Some (s\<lparr>st_texts := rk_texts c, st_batches := rk_batches c, st_latency := rerank_latency of_c c\<rparr>))"

definition lembed_reranker_stats_v2 ::
    "(int \<Rightarrow> 'f) \<Rightarrow> ('m, 'f::{zero,inverse}) reranker option \<Rightarrow> 'f text_stats option \<Rightarrow> 'f text_stats option" where
  "lembed_reranker_stats_v2 of_c ctx out =
     (case (ctx, out) of
        (_, None) \<Rightarrow> None
      | (None, Some _) \<Rightarrow> Some stats_zero
      | (Some c, Some _) \<Rightarrow>
          Some \<lparr>st_texts = rk_texts c, st_batches = rk_batches c, st_latency = rerank_latency of_c c, st_hits = rk_hits c,
                st_misses = rk_misses c, st_cache_size = (case rk_cache c of None \<Rightarrow> 0 | Some l \<Rightarrow> int (capacity l))\<rparr>)"

section \<open>One pair alone\<close>

text \<open>
  What the code relies on. With an attention mask, the row of logits a model gives a pair depends on the
  tokens of that pair only (\<open>g\<close>); \<open>w\<close> is the width of the rows. llama.cpp scores one pair at a time.
\<close>

definition scores_model :: "'f inference \<Rightarrow> onnx_session \<Rightarrow> int \<Rightarrow> nat \<Rightarrow> (int list \<Rightarrow> 'f list) \<Rightarrow> bool" where
  "scores_model infer sess pad w g \<longleftrightarrow>
     (\<forall>idss n. (\<forall>ids \<in> set idss. length ids \<le> n) \<longrightarrow>
        (\<exists>rest. infer (padded_inputs sess pad n idss) (length idss) n (output_names sess) =
              Inr (\<lparr>tr_data = concat (map g idss), tr_shape = [int (length idss), int w]\<rparr> # rest) \<and>
            (\<forall>v \<in> set rest. prod_list (tr_shape v) = int (length (tr_data v)))))"

definition rk_scores ::
    "('m, 'f::zero) embed_env \<Rightarrow> ('m, 'f) reranker \<Rightarrow> nat \<Rightarrow> (string \<Rightarrow> string \<Rightarrow> 'f) \<Rightarrow> bool" where
  "rk_scores env c w S \<longleftrightarrow>
     (if rk_backend c = BACKEND_LLAMACPP
      then (\<forall>q d. llama_classify (env_llama env) (rk_llama c) (pair_text q d) = Some (Inr (S q d)))
      else 0 < max_length (rk_tok c) \<and> (\<forall>call. env_fails env call = None) \<and> 0 < w \<and>
        (\<exists>g. (\<forall>ids. length (g ids) = w) \<and> scores_model (env_infer env) (rk_sess c) (pad_token_id (rk_tok c)) w g \<and>
           S = (\<lambda>q d. hd (g (tok_ids (rk_tok c) (pair_text q d))))))"

text \<open>The score a key of the cache stands for, when its query has no newline.\<close>

definition key_score :: "(string \<Rightarrow> string \<Rightarrow> 'f) \<Rightarrow> string \<Rightarrow> 'f list" where
  "key_score S k = [S (takeWhile (\<lambda>ch. ch \<noteq> CHR 0x0A) k) (drop 1 (dropWhile (\<lambda>ch. ch \<noteq> CHR 0x0A) k))]"

definition cache_scores :: "(string \<Rightarrow> string \<Rightarrow> 'f) \<Rightarrow> 'f lru option \<Rightarrow> bool" where
  "cache_scores S cache \<longleftrightarrow> (case cache of None \<Rightarrow> True | Some l \<Rightarrow> lru_inv l \<and> coherent lru_content (key_score S) l)"

definition rk_ok ::
    "('m, 'f::zero) embed_env \<Rightarrow> ('m, 'f) reranker \<Rightarrow> nat \<Rightarrow> (string \<Rightarrow> string \<Rightarrow> 'f) \<Rightarrow> bool" where
  "rk_ok env c w S \<longleftrightarrow> rk_scores env c w S \<and> cache_scores S (rk_cache c)"

section \<open>Facts\<close>

lemma key_score_pair:
  assumes "CHR 0x0A \<notin> set q"
  shows "key_score S (pair_key q d) = [S q d]"
proof -
  have q: "\<forall>ch \<in> set q. ch \<noteq> CHR 0x0A" using assms by auto
  then have "takeWhile (\<lambda>ch. ch \<noteq> CHR 0x0A) (q @ CHR 0x0A # d) = q" by (subst takeWhile_append) simp
  moreover have "dropWhile (\<lambda>ch. ch \<noteq> CHR 0x0A) (q @ CHR 0x0A # d) = CHR 0x0A # d"
    using q by (subst dropWhile_append) simp
  ultimately show ?thesis by (simp add: key_score_def pair_key_def)
qed

lemma first_logits_rect:
  assumes rows: "\<forall>r \<in> set rows. length r = w" and "0 < w" and bound: "int (length rows) * int w \<le> INT_MAX"
  shows "first_logits \<lparr>tr_data = concat rows, tr_shape = [int (length rows), int w]\<rparr> (length rows) = Some (map hd rows)"
proof -
  have fits: "c_int (int i * int w) = Some (int i * int w) \<and> i * w < length (concat rows)" if "i < length rows" for i
  proof -
    have "int i * int w \<le> int (length rows) * int w" using that by (intro mult_right_mono) simp_all
    then have "int i * int w \<le> INT_MAX" using bound by (rule order_trans)
    moreover have "INT_MIN \<le> int i * int w" by (rule order_trans [of _ 0]) (simp_all add: INT_MIN_def)
    moreover have "i * w < length rows * w" using that \<open>0 < w\<close> by simp
    ultimately show ?thesis using length_concat_rect [OF rows] by (simp add: c_int_def)
  qed
  have "map (\<lambda>i. concat rows ! nat (int i * int w)) [0..<length rows] = map hd rows"
  proof (rule nth_equalityI)
    fix i assume "i < length (map (\<lambda>i. concat rows ! nat (int i * int w)) [0..<length rows])"
    then have i: "i < length rows" by simp
    have "concat rows ! (i * w + 0) = rows ! i ! 0" using rows i \<open>0 < w\<close> by (rule nth_concat_rect)
    moreover have "rows ! i \<noteq> []" using rows i \<open>0 < w\<close> by (metis length_0_conv less_not_refl nth_mem)
    ultimately show "map (\<lambda>i. concat rows ! nat (int i * int w)) [0..<length rows] ! i = map hd rows ! i"
      using i by (simp add: nat_mult_distrib hd_conv_nth)
  qed simp
  moreover have "list_all (\<lambda>i. c_int (int i * int w) \<noteq> None \<and> 0 \<le> int i * int w \<and> int i * int w < int (length (concat rows)))
      [0..<length rows]"
  proof (simp only: list_all_iff, intro ballI)
    fix i assume "i \<in> set [0..<length rows]"
    with fits [of i] show "c_int (int i * int w) \<noteq> None \<and> 0 \<le> int i * int w \<and> int i * int w < int (length (concat rows))"
      by (simp flip: of_nat_mult)
  qed
  ultimately show ?thesis by (simp add: first_logits_def)
qed

lemma onnx_scores_ok:
  assumes ready: "rk_scores env c w S" and onnx: "rk_backend c \<noteq> BACKEND_LLAMACPP"
    and bound: "int (length docs) * int w \<le> INT_MAX"
  shows "onnx_scores env c query docs = Inr (map (S query) docs)"
proof -
  let ?t = "rk_tok c" and ?texts = "map (pair_text query) docs"
  let ?idss = "map (tok_ids ?t) ?texts" and ?b = "length docs"
  obtain g where ml: "0 < max_length ?t" and fails: "\<forall>call. env_fails env call = None" and "0 < w"
    and g: "\<forall>ids. length (g ids) = w" "scores_model (env_infer env) (rk_sess c) (pad_token_id ?t) w g"
      "S = (\<lambda>q d. hd (g (tok_ids ?t (pair_text q d))))"
    using ready onnx by (auto simp: rk_scores_def)
  from encode_batch_padded [OF ml, of ?texts] obtain n where
    enc: "encode_batch ?t ?texts = Inr \<lparr>input_ids = map (pad_row n (pad_token_id ?t)) ?idss,
      attention_mask = map (\<lambda>ids. pad_row n 0 (map (\<lambda>_. 1) ids)) ?idss,
      token_type_ids = map (\<lambda>ids. replicate n 0) ?idss, seq_length = int n\<rparr>"
    and le: "\<forall>ids \<in> set ?idss. length ids \<le> n" by blast
  from g(2) [unfolded scores_model_def, THEN spec, THEN spec, THEN mp, OF le] obtain rest where
    run: "env_infer env (padded_inputs (rk_sess c) (pad_token_id ?t) n ?idss) ?b n (output_names (rk_sess c)) =
      Inr (\<lparr>tr_data = concat (map g ?idss), tr_shape = [int ?b, int w]\<rparr> # rest)"
    and rest: "\<forall>v \<in> set rest. prod_list (tr_shape v) = int (length (tr_data v))"
    by auto
  have f: "flatten_rows ?b n (map (pad_row n (pad_token_id ?t)) ?idss) = concat (map (pad_row n (pad_token_id ?t)) ?idss)"
    "flatten_rows ?b n (map (\<lambda>ids. pad_row n 0 (map (\<lambda>_. 1) ids)) ?idss) =
       concat (map (\<lambda>ids. pad_row n 0 (map (\<lambda>_. 1) ids)) ?idss)"
    using flatten_rows_rect [of "map (pad_row n (pad_token_id ?t)) ?idss" n]
      flatten_rows_rect [of "map (\<lambda>ids. pad_row n 0 (map (\<lambda>_. 1) ids)) ?idss" n] le by simp_all
  have rows: "\<forall>r \<in> set (map g ?idss). length r = w" using g(1) by simp
  have "onnx_run (env_fails env) (env_infer env) (rk_sess c) (concat (map (pad_row n (pad_token_id ?t)) ?idss))
      (concat (map (\<lambda>ids. pad_row n 0 (map (\<lambda>_. 1) ids)) ?idss)) (Some (replicate (?b * n) 0)) ?b n (- 1) =
    (Inr (\<lparr>tr_data = concat (map g ?idss), tr_shape = [int ?b, int w]\<rparr> # rest), 0)"
  proof (rule onnx_run_ok [OF fails])
    show "env_infer env (run_inputs (rk_sess c) (concat (map (pad_row n (pad_token_id ?t)) ?idss))
        (concat (map (\<lambda>ids. pad_row n 0 (map (\<lambda>_. 1) ids)) ?idss)) (Some (replicate (?b * n) 0))) ?b n
      (run_outputs (rk_sess c) (- 1)) = Inr (\<lparr>tr_data = concat (map g ?idss), tr_shape = [int ?b, int w]\<rparr> # rest)"
      using run by (simp add: padded_inputs_def run_outputs_def)
    show "\<forall>v \<in> set (\<lparr>tr_data = concat (map g ?idss), tr_shape = [int ?b, int w]\<rparr> # rest).
        prod_list (tr_shape v) = int (length (tr_data v))"
      using rest length_concat_rect [OF rows] by simp
  qed
  moreover have "first_logits \<lparr>tr_data = concat (map g ?idss), tr_shape = [int ?b, int w]\<rparr> ?b = Some (map (S query) docs)"
    using first_logits_rect [OF rows \<open>0 < w\<close>] bound by (simp add: g(3) comp_def)
  ultimately show ?thesis by (simp add: onnx_scores_def enc Let_def f del: map_map)
qed

lemma llama_pair_scores_ok:
  "rk_scores env c w S \<Longrightarrow> rk_backend c = BACKEND_LLAMACPP \<Longrightarrow> llama_pair_scores env c query docs = Inr (map (S query) docs)"
  by (induction docs) (simp_all add: rk_scores_def llama_classify_pair_def)

lemma store_scores_ok:
  assumes "cache_scores S cache" and "CHR 0x0A \<notin> set query"
  shows "cache_scores S (store_scores env now query docs (map (S query) docs) cache)"
proof (cases cache)
  case (Some l)
  have "zip (map (pair_key query) docs) (map (\<lambda>s. [s]) (map (S query) docs)) =
      map (\<lambda>d. (pair_key query d, key_score S (pair_key query d))) docs"
    by (induction docs) (simp_all add: key_score_pair [OF assms(2)])
  moreover have "\<forall>(k, v) \<in> set (map (\<lambda>d. (pair_key query d, key_score S (pair_key query d))) docs). v = key_score S k" by auto
  ultimately show ?thesis
    using assms(1) text_store.store_sound [of l "key_score S" "map (\<lambda>d. (pair_key query d, key_score S (pair_key query d))) docs"
        "env_put_ok env" now]
    by (simp add: Some cache_scores_def store_scores_def)
qed (simp add: cache_scores_def store_scores_def)

lemma sub_list_subset: "set (sub_list a b xs) \<subseteq> set xs"
  by (auto simp: sub_list_def dest!: in_set_takeD in_set_dropD)

lemma length_sub_list_le: "length (sub_list a b xs) \<le> length xs"
  by (simp add: sub_list_def)

text \<open>One round fills the slots of its batch and keeps the cache right.\<close>

lemma onnx_rerank_loop_ok:
  assumes ready: "rk_scores env c w S" and onnx: "rk_backend c \<noteq> BACKEND_LLAMACPP" and nl: "CHR 0x0A \<notin> set query"
    and miss: "\<forall>k \<in> set miss. k < n" and b: "0 < b" "int (length miss) + int b \<le> INT_MAX" "int (length miss) * int w \<le> INT_MAX"
    and bis: "\<forall>bi \<in> set bis. bi < (length miss + b - 1) div b" and "length scores = n" and "cache_scores S cache"
  shows "\<exists>scores' cache'. onnx_rerank_loop env now c query docs miss (int b) bis scores cache = (Inr scores', cache') \<and>
    length scores' = n \<and> cache_scores S cache' \<and> (\<forall>k < n. scores' ! k =
      (if k \<in> set (concat (map (\<lambda>i. sub_list (i * b) (min (Suc i * b) (length miss)) miss) bis))
       then S query (docs ! k) else scores ! k))"
  using bis assms(9,10)
proof (induction bis arbitrary: scores cache)
  case (Cons i bis)
  let ?m = "length miss"
  let ?idx = "sub_list (i * b) (min (Suc i * b) ?m) miss"
  let ?part = "map ((!) docs) ?idx"
  have range: "get_batch (int i) (int ?m) (int b) = Some \<lparr>range_start = int (i * b), range_end = int (min (Suc i * b) ?m)\<rparr>"
    using Cons.prems(1) by (intro get_batch_nat [OF b(1,2)]) simp
  have idx: "\<forall>k \<in> set ?idx. k < n" using miss sub_list_subset [of "i * b" _ miss] by blast
  have "int (length ?part) * int w \<le> int ?m * int w"
    using length_sub_list_le [of "i * b" "min (Suc i * b) ?m" miss] by (intro mult_right_mono) simp_all
  then have "int (length ?part) * int w \<le> INT_MAX" using b(3) by (rule order_trans)
  note batch = onnx_scores_ok [OF ready onnx this, of query]
  let ?scores = "scatter ?idx (map (\<lambda>k. S query (docs ! k)) ?idx) scores"
  let ?cache = "store_scores env now query ?part (map (S query) ?part) cache"
  have step: "onnx_rerank_loop env now c query docs miss (int b) (i # bis) scores cache =
      onnx_rerank_loop env now c query docs miss (int b) bis ?scores ?cache"
    using batch by (simp add: range nat_mult_distrib Let_def comp_def del: mult_Suc)
  have "cache_scores S ?cache" by (rule store_scores_ok [OF Cons.prems(3) nl])
  with Cons.IH [of ?scores ?cache] Cons.prems(1,2) obtain scores' cache' where
    IH: "onnx_rerank_loop env now c query docs miss (int b) bis ?scores ?cache = (Inr scores', cache')"
      "length scores' = n" "cache_scores S cache'"
      "\<forall>k < n. scores' ! k = (if k \<in> set (concat (map (\<lambda>i. sub_list (i * b) (min (Suc i * b) ?m) miss) bis))
        then S query (docs ! k) else ?scores ! k)"
    by auto
  moreover have "?scores ! k = (if k \<in> set ?idx then S query (docs ! k) else scores ! k)" if "k < n" for k
    using scatter_map [of ?idx scores k "\<lambda>k. S query (docs ! k)"] idx that Cons.prems(2) by simp
  ultimately show ?case unfolding step by (intro exI [of _ scores'] exI [of _ cache']) auto
qed simp

lemma llama_rerank_loop_ok:
  assumes ready: "rk_scores env c w S" and llama: "rk_backend c = BACKEND_LLAMACPP"
    and b: "0 < b" "int (length docs) + int b \<le> INT_MAX"
    and bis: "\<forall>bi \<in> set bis. bi < (length docs + b - 1) div b" and "length scores = length docs"
  shows "\<exists>scores'. llama_rerank_loop env c query docs (int b) bis scores = Inr scores' \<and> length scores' = length docs \<and>
    (\<forall>k < length docs. scores' ! k =
      (if k \<in> set (concat (map (\<lambda>i. sub_list (i * b) (min (Suc i * b) (length docs)) [0..<length docs]) bis))
       then S query (docs ! k) else scores ! k))"
  using bis assms(6)
proof (induction bis arbitrary: scores)
  case (Cons i bis)
  let ?n = "length docs"
  let ?idx = "sub_list (i * b) (min (Suc i * b) ?n) [0..<?n]"
  have range: "get_batch (int i) (int ?n) (int b) = Some \<lparr>range_start = int (i * b), range_end = int (min (Suc i * b) ?n)\<rparr>"
    using Cons.prems(1) by (intro get_batch_nat [OF b]) simp
  have idx: "\<forall>k \<in> set ?idx. k < ?n" using sub_list_subset [of "i * b" "min (Suc i * b) ?n" "[0..<?n]"] by fastforce
  let ?scores = "scatter ?idx (map (\<lambda>k. S query (docs ! k)) ?idx) scores"
  have step: "llama_rerank_loop env c query docs (int b) (i # bis) scores = llama_rerank_loop env c query docs (int b) bis ?scores"
    using llama_pair_scores_ok [OF ready llama, of query "map ((!) docs) ?idx"]
    by (simp add: range nat_mult_distrib Let_def comp_def del: mult_Suc)
  from Cons.IH [of ?scores] Cons.prems obtain scores' where
    IH: "llama_rerank_loop env c query docs (int b) bis ?scores = Inr scores'" "length scores' = ?n"
      "\<forall>k < ?n. scores' ! k = (if k \<in> set (concat (map (\<lambda>i. sub_list (i * b) (min (Suc i * b) ?n) [0..<?n]) bis))
        then S query (docs ! k) else ?scores ! k)"
    by auto
  moreover have "?scores ! k = (if k \<in> set ?idx then S query (docs ! k) else scores ! k)" if "k < ?n" for k
    using scatter_map [of ?idx scores k "\<lambda>k. S query (docs ! k)"] idx that Cons.prems(2) by simp
  ultimately show ?case unfolding step by (intro exI [of _ scores']) auto
qed simp

lemma llama_rerank_ok:
  assumes "rk_scores env c w S" and "rk_backend c = BACKEND_LLAMACPP" and "0 < batch" and "int (length docs) + batch \<le> INT_MAX"
    and "length scores = length docs"
  shows "llama_rerank env c query docs batch scores = Inr (map (S query) docs)"
proof -
  let ?n = "length docs" and ?b = "nat batch"
  have b: "0 < ?b" "int ?n + int ?b \<le> INT_MAX" using assms by simp_all
  have bis: "\<forall>bi \<in> set [0..<(?n + ?b - 1) div ?b]. bi < (?n + ?b - 1) div ?b" by simp
  obtain scores' where s: "llama_rerank_loop env c query docs (int ?b) [0..<(?n + ?b - 1) div ?b] scores = Inr scores'"
    "length scores' = ?n" "\<forall>k < ?n. scores' ! k =
      (if k \<in> set (concat (map (\<lambda>i. sub_list (i * ?b) (min (Suc i * ?b) ?n) [0..<?n]) [0..<(?n + ?b - 1) div ?b]))
       then S query (docs ! k) else scores ! k)"
    using llama_rerank_loop_ok [OF assms(1,2) b bis assms(5)] by blast
  have "length [0..<?n] = ?n" by simp
  from s(3) [unfolded batches_cover [OF b(1) this]] have "scores' = map (S query) docs"
    using s(2) by (intro nth_equalityI) simp_all
  then show ?thesis
    using s(1) assms(3) batch_count_nat [OF b] by (simp add: llama_rerank_def Let_def del: llama_rerank_loop.simps)
qed

lemma rk_scores_frame [simp]:
  "rk_scores env (c\<lparr>rk_cache := x\<rparr>) w S = rk_scores env c w S"
  "rk_scores env (c\<lparr>rk_misses := n\<rparr>) w S = rk_scores env c w S"
  "rk_scores env (c\<lparr>rk_hits := n\<rparr>) w S = rk_scores env c w S"
  "rk_scores env (c\<lparr>rk_texts := n\<rparr>) w S = rk_scores env c w S"
  "rk_scores env (c\<lparr>rk_batches := n\<rparr>) w S = rk_scores env c w S"
  "rk_scores env (c\<lparr>rk_latency := t\<rparr>) w S = rk_scores env c w S"
  "rk_scores env (c\<lparr>rk_calls := k\<rparr>) w S = rk_scores env c w S"
  by (simp_all add: rk_scores_def)

lemma length_miss_indices: "length (miss_indices rs) = length (filter (\<lambda>r. r = None) rs)"
proof -
  have "map ((!) rs) (filter (\<lambda>i. rs ! i = None) [0..<length rs]) = filter (\<lambda>r. r = None) (map ((!) rs) [0..<length rs])"
    by (simp add: filter_map comp_def)
  then show ?thesis by (metis length_map map_nth miss_indices_def)
qed

lemma look_up_ok:
  assumes ok: "rk_ok env c w S" and nl: "CHR 0x0A \<notin> set query"
  shows "\<exists>scores miss c1. look_up now c query docs = (scores, miss, c1) \<and> rk_ok env c1 w S \<and>
    length scores = length docs \<and> (\<forall>k \<in> set miss. k < length docs) \<and> length miss \<le> length docs \<and>
    (\<forall>k < length docs. k \<notin> set miss \<longrightarrow> scores ! k = S query (docs ! k)) \<and>
    (\<exists>h m l. c1 = c\<lparr>rk_cache := l, rk_hits := h, rk_misses := m\<rparr> \<and> h + m = rk_hits c + rk_misses c + of_nat (length docs))"
proof (cases "rk_cache c")
  case None
  have c: "c\<lparr>rk_misses := m\<rparr> = c\<lparr>rk_cache := None, rk_hits := rk_hits c, rk_misses := m\<rparr>" for m
    using None by (cases c) simp
  have "rk_ok env (c\<lparr>rk_misses := m\<rparr>) w S" for m using ok None by (simp add: rk_ok_def)
  then show ?thesis using None by (auto simp: look_up_def intro!: exI c)
next
  case (Some cache)
  obtain rs cache1 where scan: "scan_cache (lru_get_vec now) usable_score (map (pair_key query) docs) cache = (rs, cache1)" by fastforce
  from ok Some have inv: "lru_inv cache" "coherent lru_content (key_score S) cache"
    by (simp_all add: rk_ok_def cache_scores_def)
  note sound = text_store.scan_sound [OF inv scan]
  have len: "length rs = length docs" using sound by simp
  have hit: "score_of_hit (rs ! k) = S query (docs ! k)" if "k < length docs" "rs ! k \<noteq> None" for k
  proof -
    from that obtain v where v: "rs ! k = Some v" by blast
    with sound that(1) len have "v = key_score S (pair_key query (docs ! k))" by simp
    with v show ?thesis by (simp add: key_score_pair [OF nl] score_of_hit_def)
  qed
  have counts: "length (filter (\<lambda>r. r \<noteq> None) rs) + length (miss_indices rs) = length docs"
    using filter_None_add [of rs] len by (simp add: length_miss_indices)
  let ?c1 = "c\<lparr>rk_cache := Some cache1, rk_hits := rk_hits c + of_nat (length (filter (\<lambda>r. r \<noteq> None) rs)),
      rk_misses := rk_misses c + of_nat (length (miss_indices rs))\<rparr>"
  have "rk_ok env ?c1 w S" using ok sound by (simp add: rk_ok_def cache_scores_def)
  moreover have "look_up now c query docs = (map score_of_hit rs, miss_indices rs, ?c1)"
    using Some scan by (simp add: look_up_def)
  moreover have "\<exists>h m l. ?c1 = c\<lparr>rk_cache := l, rk_hits := h, rk_misses := m\<rparr> \<and> h + m = rk_hits c + rk_misses c + of_nat (length docs)"
  proof (intro exI conjI)
    show "?c1 = ?c1" ..
    show "rk_hits c + of_nat (length (filter (\<lambda>r. r \<noteq> None) rs)) + (rk_misses c + of_nat (length (miss_indices rs))) =
      rk_hits c + rk_misses c + of_nat (length docs)"
      unfolding counts [symmetric] by (simp add: algebra_simps)
  qed
  moreover have "length (miss_indices rs) \<le> length docs" using counts by linarith
  moreover have "\<forall>k \<in> set (miss_indices rs). k < length docs" using len by (simp add: miss_indices_def)
  moreover have "\<forall>k < length docs. k \<notin> set (miss_indices rs) \<longrightarrow> map score_of_hit rs ! k = S query (docs ! k)"
    using hit len by (simp add: miss_indices_def)
  ultimately show ?thesis using len
    by (intro exI [of _ "map score_of_hit rs"] exI [of _ "miss_indices rs"] exI [of _ ?c1] conjI) simp_all
qed

lemma compute_scores_ok:
  assumes ok: "rk_ok env c w S" and nl: "CHR 0x0A \<notin> set query"
    and miss: "\<forall>k \<in> set miss. k < length docs" "length miss \<le> length docs" and len: "length scores = length docs"
    and known: "\<forall>k < length docs. k \<notin> set miss \<longrightarrow> scores ! k = S query (docs ! k)"
    and b: "0 < b" "int (length docs) + b \<le> INT_MAX" "int (length docs) * int w \<le> INT_MAX"
  shows "\<exists>cache. compute_scores env now c query docs b miss scores = (Inr (map (S query) docs), c\<lparr>rk_cache := cache\<rparr>) \<and>
    cache_scores S cache"
proof -
  let ?n = "length docs" and ?m = "length miss"
  have sc: "rk_scores env c w S" and cache: "cache_scores S (rk_cache c)" using ok by (simp_all add: rk_ok_def)
  have result: "scores' = map (S query) docs" if "length scores' = ?n"
      "\<forall>k < ?n. scores' ! k = (if k \<in> set miss then S query (docs ! k) else scores ! k)" for scores'
    using that known by (intro nth_equalityI) auto
  consider (none) "miss = []" | (llama) "miss \<noteq> []" "rk_backend c = BACKEND_LLAMACPP"
    | (onnx) "miss \<noteq> []" "rk_backend c \<noteq> BACKEND_LLAMACPP" by blast
  then show ?thesis
  proof cases
    case none
    have "c\<lparr>rk_cache := rk_cache c\<rparr> = c" by (cases c) simp
    with none result [of scores] len cache show ?thesis
      by (intro exI [of _ "rk_cache c"]) (simp add: compute_scores_def)
  next
    case llama
    let ?docs = "map ((!) docs) miss"
    have "llama_rerank env c query ?docs b (replicate ?m 0) = Inr (map (S query) ?docs)"
      using miss(2) b by (intro llama_rerank_ok [OF sc llama(2)]) simp_all
    moreover have "scatter miss (map (S query) ?docs) scores = map (S query) docs"
      using miss(1) len scatter_map [of miss scores _ "\<lambda>k. S query (docs ! k)"]
      by (intro result) (simp_all add: comp_def)
    ultimately show ?thesis
      using llama store_scores_ok [OF cache nl, of env now ?docs]
      by (intro exI [of _ "store_scores env now query ?docs (map (S query) ?docs) (rk_cache c)"])
        (simp add: compute_scores_def Let_def)
  next
    case onnx
    have "int ?m * int w \<le> int ?n * int w" using miss(2) by (intro mult_right_mono) simp_all
    then have bound: "int ?m * int w \<le> INT_MAX" using b(3) by (rule order_trans)
    have b': "0 < nat b" "int ?m + int (nat b) \<le> INT_MAX" using b miss(2) by simp_all
    have bis: "\<forall>bi \<in> set [0..<(?m + nat b - 1) div nat b]. bi < (?m + nat b - 1) div nat b" by simp
    from onnx_rerank_loop_ok [OF sc onnx(2) nl miss(1) b' bound bis len cache, of now]
    obtain scores' cache' where loop: "onnx_rerank_loop env now c query docs miss (int (nat b)) [0..<(?m + nat b - 1) div nat b]
        scores (rk_cache c) = (Inr scores', cache')" "length scores' = ?n" "cache_scores S cache'"
      "\<forall>k < ?n. scores' ! k = (if k \<in> set (concat (map (\<lambda>i. sub_list (i * nat b) (min (Suc i * nat b) ?m) miss)
          [0..<(?m + nat b - 1) div nat b])) then S query (docs ! k) else scores ! k)" by blast
    have "scores' = map (S query) docs"
      using result [OF loop(2)] loop(4) [unfolded batches_cover [OF b'(1) refl]] by blast
    with loop(1,3) onnx b(1) batch_count_nat [OF b'] show ?thesis
      by (intro exI [of _ cache']) (simp add: compute_scores_def del: onnx_rerank_loop.simps)
  qed
qed

lemma ranked_ok:
  assumes "sorter (env_sort env)"
  shows "mset (ranked env scores) = mset (map (\<lambda>i. (int i, scores ! i)) [0..<length scores]) \<and>
    sorted_wrt (\<lambda>a b. snd a \<ge> snd b) (ranked env scores)"
proof -
  let ?lt = "\<lambda>a b. scores ! a > scores ! b"
  let ?idx = "env_sort env ?lt [0..<length scores]"
  have "mset ?idx = mset [0..<length scores]" by (rule sorter.srt_perm [OF assms])
  moreover have "sorted_wrt (\<lambda>a b. \<not> ?lt b a) ?idx"
    by (rule sorter.srt_sorted [OF assms]) (auto simp: strict_weak_def)
  ultimately show ?thesis
    by (auto simp: ranked_def sorted_wrt_map not_less elim: sorted_wrt_mono_rel [rotated])
qed

section \<open>Properties\<close>

definition rerank_fits :: "('m, 'f) reranker \<Rightarrow> nat \<Rightarrow> string list \<Rightarrow> int \<Rightarrow> bool" where
  "rerank_fits c w docs batch_size \<longleftrightarrow>
     (let b = (if batch_size \<le> 0 then rk_batch_size c else batch_size) in
      0 < b \<and> int (length docs) + b \<le> INT_MAX \<and> int (length docs) * int w \<le> INT_MAX)"

text \<open>C4. Reranking returns, with OK, one item for every document, with its index and the score the model
  gives the query and that document alone, by decreasing score: neither the batch size nor what the
  cache held changes the result, on either backend, and the context is as good as before, so this holds
  over any sequence of calls. The counter of documents and the sum of hits and misses grow by their
  number. The query must have no newline.\<close>

theorem rerank_exact:
  assumes "rk_ok env c w S" and "sorter (env_sort env)" and "CHR 0x0A \<notin> set query" and "rerank_fits c w docs batch_size"
  shows "\<exists>items c'. rerank env now True elapsed c query docs batch_size r =
      Some (OK, r\<lparr>rr_items := Some items, rr_count := int (length docs)\<rparr>, c', None) \<and>
    mset items = mset (map (\<lambda>i. (int i, S query (docs ! i))) [0..<length docs]) \<and>
    sorted_wrt (\<lambda>a b. snd a \<ge> snd b) items \<and> rk_ok env c' w S \<and>
    rk_texts c' = rk_texts c + of_nat (length docs) \<and>
    rk_hits c' + rk_misses c' = rk_hits c + rk_misses c + of_nat (length docs)"
proof -
  let ?b = "if batch_size \<le> 0 then rk_batch_size c else batch_size"
  have b: "0 < ?b" "int (length docs) + ?b \<le> INT_MAX" "int (length docs) * int w \<le> INT_MAX"
    using assms(4) unfolding rerank_fits_def Let_def by blast+
  obtain scores miss c1 h m l where look: "look_up now c query docs = (scores, miss, c1)" and ok: "rk_ok env c1 w S"
    and facts: "length scores = length docs" "\<forall>k \<in> set miss. k < length docs" "length miss \<le> length docs"
      "\<forall>k < length docs. k \<notin> set miss \<longrightarrow> scores ! k = S query (docs ! k)"
    and c1: "c1 = c\<lparr>rk_cache := l, rk_hits := h, rk_misses := m\<rparr>" "h + m = rk_hits c + rk_misses c + of_nat (length docs)"
    using look_up_ok [OF assms(1,3), of now docs] by blast
  from compute_scores_ok [OF ok assms(3) facts(2,3,1,4) b, of now] obtain cache where
    comp: "compute_scores env now c1 query docs ?b miss scores = (Inr (map (S query) docs), c1\<lparr>rk_cache := cache\<rparr>)"
    and cache: "cache_scores S cache" by blast
  have count: "batch_count (int (length docs)) ?b = Some (int ((length docs + nat ?b - 1) div nat ?b))"
    using batch_count_nat [of "nat ?b" "length docs"] b by simp
  note rank = ranked_ok [OF assms(2), of "map (S query) docs"]
  have "mset (ranked env (map (S query) docs)) = mset (map (\<lambda>i. (int i, S query (docs ! i))) [0..<length docs])"
  proof -
    have "map (\<lambda>i. (int i, map (S query) docs ! i)) [0..<length docs] = map (\<lambda>i. (int i, S query (docs ! i))) [0..<length docs]"
      by (rule map_cong) simp_all
    with rank show ?thesis by (simp only: length_map)
  qed
  moreover have "rk_scores env c w S" using assms(1) by (simp add: rk_ok_def)
  ultimately show ?thesis
    using look comp count cache rank c1
    by (simp add: rerank_def Let_def rk_ok_def) (rule exI [of _ "ranked env (map (S query) docs)"], simp)
qed

text \<open>The key of a score joins query and document with a newline and so does not tell where the query ends:
  after a call cached the score of one pair, asking for the pair with the same key, another query and
  another document, returns that score without running the model.\<close>

theorem rerank_key_clash:
  assumes "rk_cache c = Some cache" and "lru_get_vec now (pair_key query (rest @ CHR 0x0A # doc)) cache = (Some [s], cache1)"
    and "sorter (env_sort env)" and "0 < rk_batch_size c" and "1 + rk_batch_size c \<le> INT_MAX"
  shows "\<exists>c'. rerank env now True elapsed c (query @ CHR 0x0A # rest) [doc] 0 r =
    Some (OK, r\<lparr>rr_items := Some [(0, s)], rr_count := 1\<rparr>, c', None)"
proof -
  have key: "pair_key (query @ CHR 0x0A # rest) doc = pair_key query (rest @ CHR 0x0A # doc)" by (simp add: pair_key_def)
  have "mset (env_sort env (\<lambda>a b. [s] ! a > [s] ! b) [0..<1]) = {#0#}" using sorter.srt_perm [OF assms(3)] by simp
  then have "ranked env [s] = [(0, s)]" by (simp add: ranked_def)
  moreover have "batch_count 1 (rk_batch_size c) \<noteq> None"
    using batch_count_nat [of "nat (rk_batch_size c)" 1] assms(4,5) by simp
  ultimately show ?thesis
    using assms(1,2) key
    by (auto simp: rerank_def look_up_def usable_score_def miss_indices_def score_of_hit_def compute_scores_def Let_def)
qed

text \<open>A library whose only token of a text is its last byte, which is the score.\<close>

definition sample_rerank_env :: "(int, real) embed_env" where
  "sample_rerank_env = sample_text_env\<lparr>env_llama := sample_real_lib\<lparr>lib_tokenize := \<lambda>m s. [int (byte (last s))],
     lib_n_vocab := \<lambda>_. 1, lib_decode := \<lambda>m b. (0, Some (map of_int (b_token b)))\<rparr>\<rparr>"

definition sample_reranker :: "(int, real) reranker" where
  "sample_reranker = \<lparr>rk_backend = BACKEND_LLAMACPP, rk_sess = onnx_session_new, rk_tok = tokenizer_new,
     rk_llama = \<lparr>ls_model = Some 2, ls_vocab = Some 2, ls_ctx = Some 2, ls_n_ctx = 8, ls_n_embd = 2, ls_n_threads = 1\<rparr>,
     rk_quantization = 0, rk_max_length = 512, rk_model_name = ''m'', rk_num_threads = 1, rk_batch_size = 4, rk_provider = 5,
     rk_device_id = 0, rk_desc = cx_desc (sample_text_ctx :: (int, real) text_ctx), rk_desc_v2 = cx_desc_v2 (sample_text_ctx :: (int, real) text_ctx), rk_texts = 0,
     rk_batches = 0, rk_hits = 0, rk_misses = 0, rk_latency = 0, rk_calls = 0, rk_cache = Some (lru_new 8 0)\<rparr>"

definition last_byte :: "string \<Rightarrow> string \<Rightarrow> real" where
  "last_byte q d = of_int (int (byte (last (pair_text q d))))"

lemma sample_rerank_ok: "rk_ok sample_rerank_env sample_reranker 1 last_byte"
proof -
  have "llama_classify (env_llama sample_rerank_env) (rk_llama sample_reranker) (pair_text q d) = Some (Inr (last_byte q d))" for q d
    by (simp add: llama_classify_def llama_tokens_def sample_rerank_env_def sample_text_env_def sample_real_lib_def
        sample_reranker_def build_batch_def last_byte_def c_int_def INT_MIN_def INT_MAX_def)
  moreover have "lru_inv (lru_new 8 0)" by (rule lru_new_inv)
  ultimately show ?thesis
    by (simp add: rk_ok_def rk_scores_def cache_scores_def sample_reranker_def coherent_def lru_content_def lru_new_def)
qed

theorem rerank_exact_witness:
  "\<exists>items c'. rerank sample_rerank_env 5 True 1 sample_reranker ''q'' [''a'', ''c'', ''b''] 2 \<lparr>rr_items = None, rr_count = 0\<rparr> =
      Some (OK, \<lparr>rr_items = Some items, rr_count = 3\<rparr>, c', None) \<and>
    mset items = {#(0, 97), (1, 99), (2, 98)#} \<and> sorted_wrt (\<lambda>a b. snd a \<ge> snd b) items \<and> rk_hits c' + rk_misses c' = 3"
proof -
  have "sorter (env_sort sample_rerank_env)" using sample_sorter by (simp add: sample_rerank_env_def)
  moreover have "rerank_fits sample_reranker 1 [''a'', ''c'', ''b''] 2" by (simp add: rerank_fits_def INT_MAX_def)
  ultimately obtain items c' where rr: "rerank sample_rerank_env 5 True 1 sample_reranker ''q'' [''a'', ''c'', ''b''] 2 \<lparr>rr_items = None, rr_count = 0\<rparr> =
      Some (OK, \<lparr>rr_items = None, rr_count = 0\<rparr>\<lparr>rr_items := Some items, rr_count := int (length [''a'', ''c'', ''b''])\<rparr>, c', None)"
    "mset items = mset (map (\<lambda>i. (int i, last_byte ''q'' ([''a'', ''c'', ''b''] ! i))) [0..<length [''a'', ''c'', ''b'']])"
    "sorted_wrt (\<lambda>a b. snd a \<ge> snd b) items"
    "rk_hits c' + rk_misses c' = rk_hits sample_reranker + rk_misses sample_reranker + of_nat (length [''a'', ''c'', ''b''])"
    using rerank_exact [OF sample_rerank_ok, of "''q''" "[''a'', ''c'', ''b'']" 2 5 1 "\<lparr>rr_items = None, rr_count = 0\<rparr>"]
    by (auto simp del: mset_map)
  have "[0..<length [''a'', ''c'', ''b'']] = [0, 1, 2]" by (simp add: upt_rec)
  with rr(2) have "mset items = {#(0, 97), (1, 99), (2, 98)#}"
    by (simp add: last_byte_def pair_text_def byte_def)
  moreover have "rk_hits c' + rk_misses c' = 3" using rr(4) by (simp add: sample_reranker_def)
  ultimately show ?thesis using rr(1,3) by (intro exI [of _ items] exI [of _ c']) simp
qed

theorem rerank_key_clash_witness:
  "\<exists>c'. rerank sample_rerank_env 6 True 1
      (sample_reranker\<lparr>rk_cache := Some (lru_put True 5 (pair_key ''a'' (''b'' @ CHR 0x0A # ''c'')) [7] (lru_new 8 0))\<rparr>)
      (''a'' @ CHR 0x0A # ''b'') [''c''] 0 \<lparr>rr_items = None, rr_count = 0\<rparr> =
    Some (OK, \<lparr>rr_items = Some [(0, 7)], rr_count = 1\<rparr>, c', None) \<and> last_byte (''a'' @ CHR 0x0A # ''b'') ''c'' = 99"
proof -
  let ?cache = "lru_put True 5 (pair_key ''a'' (''b'' @ CHR 0x0A # ''c'')) [7] (lru_new 8 0) :: real lru"
  let ?c = "sample_reranker\<lparr>rk_cache := Some ?cache\<rparr>"
  obtain cache1 where g: "lru_get_vec 6 (pair_key ''a'' (''b'' @ CHR 0x0A # ''c'')) ?cache = (Some [7], cache1)"
    by (simp add: lru_get_vec_def lru_get_def lru_touch_def lru_put_def lru_new_def Let_def)
  have "sorter (env_sort sample_rerank_env)" using sample_sorter by (simp add: sample_rerank_env_def)
  with rerank_key_clash [of ?c, OF _ g] obtain c' where
    "rerank sample_rerank_env 6 True 1 ?c (''a'' @ CHR 0x0A # ''b'') [''c''] 0 \<lparr>rr_items = None, rr_count = 0\<rparr> =
      Some (OK, \<lparr>rr_items = None, rr_count = 0\<rparr>\<lparr>rr_items := Some [(0, 7)], rr_count := 1\<rparr>, c', None)"
    by (fastforce simp: sample_reranker_def INT_MAX_def)
  then show ?thesis by (simp add: last_byte_def pair_text_def byte_def)
qed

end
