(* ===== verification/Downloader.thy ===== *)
theory Downloader
  imports CacheFiles Types
begin

text \<open>
  The model cache on disk: \<open>detail/downloader_impl.hpp\<close> and the cleanup of \<open>downloader.h\<close>. A disk is
  the list of its files (\<open>fsys\<close> of \<open>CacheText\<close>) and of its directories. What the system answers (the
  environment variables, whether a call succeeds, what the network delivers for a URL) is the record
  \<open>sys_env\<close>. A download yields the states of the disk another process can see, in order.
\<close>

section \<open>The disk and the system\<close>

record disk =
  dk_files :: fsys
  dk_dirs :: "string list"

text \<open>\<open>net\<close> is what reaches the file and whether the transfer ends well; \<open>rm_keeps\<close> is what survives a
  \<open>remove_all\<close> that fails.\<close>

record sys_env =
  getenv :: "string \<Rightarrow> string option"
  mkdir_ok :: "string \<Rightarrow> bool"
  fopen_ok :: "string \<Rightarrow> bool"
  curl_ok :: bool
  net :: "string \<Rightarrow> string \<times> bool"
  mv_ok :: "string \<Rightarrow> bool"
  rm_keeps :: "string \<Rightarrow> (string \<Rightarrow> bool) option"

definition nonempty_env :: "sys_env \<Rightarrow> string \<Rightarrow> string option" where
  "nonempty_env env name = (case getenv env name of Some v \<Rightarrow> if v \<noteq> [] then Some v else None | None \<Rightarrow> None)"

definition get_cache_dir :: "sys_env \<Rightarrow> string option \<Rightarrow> string" where
  "get_cache_dir env override_dir =
     (case override_dir of
        Some (c # cs) \<Rightarrow> c # cs
      | _ \<Rightarrow>
          (case nonempty_env env ''LIBEMBEDDING_CACHE_DIR'' of
             Some v \<Rightarrow> v
           | None \<Rightarrow>
               (case nonempty_env env ''FASTEMBED_CACHE_DIR'' of
                  Some v \<Rightarrow> v
                | None \<Rightarrow>
                    (case getenv env ''HOME'' of
                       Some home \<Rightarrow> home
                     | None \<Rightarrow> (case getenv env ''USERPROFILE'' of Some home \<Rightarrow> home | None \<Rightarrow> ''/tmp''))
                    @ ''/.cache/libembedding'')))"

definition file_exists :: "disk \<Rightarrow> string \<Rightarrow> bool" where
  "file_exists dk path = (map_of (dk_files dk) path \<noteq> None)"

definition read_file_to_string :: "disk \<Rightarrow> string \<Rightarrow> string + string" where
  "read_file_to_string dk path =
     (case map_of (dk_files dk) path of None \<Rightarrow> Inl (''Cannot open file: '' @ path) | Some blob \<Rightarrow> Inr blob)"

text \<open>A trailing slash names the same directory; the root always exists.\<close>

definition dir_key :: "string \<Rightarrow> string" where
  "dir_key path = (if path \<noteq> [] \<and> last path = CHR ''/'' then butlast path else path)"

definition path_exists :: "disk \<Rightarrow> string \<Rightarrow> bool" where
  "path_exists dk path \<longleftrightarrow> dir_key path = [] \<or> dir_key path \<in> set (dk_dirs dk) \<or> file_exists dk path"

fun mkdirs_loop :: "sys_env \<Rightarrow> string \<Rightarrow> string \<Rightarrow> disk \<Rightarrow> bool \<times> disk" where
  "mkdirs_loop env current [] dk = (True, dk)"
| "mkdirs_loop env current (c # cs) dk =
     (let here = current @ [c] in
      if (c = CHR ''/'' \<or> cs = []) \<and> \<not> path_exists dk here then
        if mkdir_ok env here then mkdirs_loop env here cs (dk\<lparr>dk_dirs := dir_key here # dk_dirs dk\<rparr>)
        else (False, dk)
      else mkdirs_loop env here cs dk)"

definition mkdirs :: "sys_env \<Rightarrow> string \<Rightarrow> disk \<Rightarrow> bool \<times> disk" where
  "mkdirs env path dk = mkdirs_loop env [] path dk"

definition repo_to_dirname :: "string \<Rightarrow> string" where
  "repo_to_dirname repo_code = map (\<lambda>c. if c = CHR ''/'' then CHR ''-'' else c) repo_code"

section \<open>One download\<close>

definition get_hf_endpoint :: "sys_env \<Rightarrow> string" where
  "get_hf_endpoint env =
     (case nonempty_env env ''HF_ENDPOINT'' of Some v \<Rightarrow> v | None \<Rightarrow> ''https://huggingface.co'')"

definition hf_url :: "sys_env \<Rightarrow> string \<Rightarrow> string \<Rightarrow> string" where
  "hf_url env repo filename = get_hf_endpoint env @ ''/'' @ repo @ ''/resolve/main/'' @ filename"

text \<open>The directory part up to the last slash.\<close>

definition parent_of :: "string \<Rightarrow> string option" where
  "parent_of path =
     (if CHR ''/'' \<in> set path then Some (rev (tl (dropWhile (\<lambda>c. c \<noteq> CHR ''/'') (rev path)))) else None)"

definition with_files :: "fsys \<Rightarrow> disk \<Rightarrow> disk" where
  "with_files fs dk = dk\<lparr>dk_files := fs\<rparr>"

definition download_hf_file :: "sys_env \<Rightarrow> string \<Rightarrow> string \<Rightarrow> string \<Rightarrow> disk \<Rightarrow> disk list \<times> bool" where
  "download_hf_file env repo filename dest dk =
     (let dk0 = (case parent_of dest of None \<Rightarrow> dk | Some d \<Rightarrow> snd (mkdirs env d dk));
          fs = dk_files dk0; tmp = dest @ ''.tmp''; on_disk = (\<lambda>fs. with_files fs dk0) in
      if \<not> fopen_ok env tmp then ([dk0], False)
      else
        let created = write_at tmp [] fs in
        if \<not> curl_ok env then ([dk0, on_disk created], False)
        else
          let (bytes, ended_well) = net env (hf_url env repo filename);
              filled = write_at tmp bytes created
          in if \<not> ended_well then ([dk0, on_disk created, on_disk filled, on_disk (remove_at tmp filled)], False)
             else
               let cleared = remove_at dest filled in
               if mv_ok env dest
               then ([dk0, on_disk created, on_disk filled, on_disk cleared, on_disk (rename_at tmp dest cleared)], True)
               else ([dk0, on_disk created, on_disk filled, on_disk cleared, on_disk (remove_at tmp cleared)], False))"

text \<open>
  The progress data is a \<open>static\<close> of the function: the callback of the first call is kept for the
  whole process. The result is the new static and the callback that runs.
\<close>

definition progress_target :: "'cb option option \<Rightarrow> 'cb option \<Rightarrow> 'cb option option \<times> 'cb option" where
  "progress_target pd progress_fn =
     (let kept = (case pd of None \<Rightarrow> progress_fn | Some f \<Rightarrow> f)
      in (Some kept, if progress_fn = None then None else kept))"

section \<open>All files of a model\<close>

definition is_optional_file :: "string \<Rightarrow> bool" where
  "is_optional_file filename \<longleftrightarrow>
     filename = ''tokenizer.json'' \<or> filename = ''tokenizer_config.json'' \<or>
     filename = ''special_tokens_map.json'' \<or> filename = ''config.json''"

definition model_dir_of :: "string \<Rightarrow> string \<Rightarrow> string" where
  "model_dir_of cache_dir repo_code = cache_dir @ ''/models--'' @ repo_to_dirname repo_code"

fun ensure_files ::
    "sys_env \<Rightarrow> string \<Rightarrow> string \<Rightarrow> bool \<Rightarrow> string list \<Rightarrow> disk \<Rightarrow> (string + unit) \<times> disk" where
  "ensure_files env repo dir offline [] dk = (Inr (), dk)"
| "ensure_files env repo dir offline (f # fs) dk =
     (let dest = dir @ ''/'' @ f in
      if file_exists dk dest then ensure_files env repo dir offline fs dk
      else if offline then
        if \<not> is_optional_file f then (Inl (''Model file not in cache (offline mode): '' @ dest), dk)
        else ensure_files env repo dir offline fs dk
      else
        (case download_hf_file env repo f dest dk of (states, ok) \<Rightarrow>
           if \<not> ok \<and> \<not> is_optional_file f
           then (Inl (''Failed to download: '' @ repo @ ''/'' @ f), last states)
           else ensure_files env repo dir offline fs (last states)))"

definition model_files :: "string \<Rightarrow> string list \<Rightarrow> string list" where
  "model_files model_file additional =
     [model_file, ''tokenizer.json'', ''config.json'', ''tokenizer_config.json'', ''special_tokens_map.json''] @ additional"

definition ensure_model ::
    "sys_env \<Rightarrow> string \<Rightarrow> string \<Rightarrow> string list \<Rightarrow> string \<Rightarrow> bool \<Rightarrow> disk \<Rightarrow> (string + string) \<times> disk" where
  "ensure_model env repo_code model_file additional cache_dir offline dk =
     (let dir = model_dir_of cache_dir repo_code;
          dk1 = snd (mkdirs env dir dk)
      in case ensure_files env repo_code dir offline (model_files model_file additional) dk1 of
           (Inl msg, dk2) \<Rightarrow> (Inl msg, dk2) | (Inr _, dk2) \<Rightarrow> (Inr dir, dk2))"

text \<open>The variant built without libcurl.\<close>

definition ensure_model_no_download ::
    "string \<Rightarrow> string \<Rightarrow> string \<Rightarrow> disk \<Rightarrow> string + string" where
  "ensure_model_no_download repo_code model_file cache_dir dk =
     (let dir = model_dir_of cache_dir repo_code; full_path = dir @ ''/'' @ model_file
      in if \<not> file_exists dk full_path
         then Inl (''Model not in cache and downloading is disabled: '' @ full_path) else Inr dir)"

section \<open>Cleaning the cache\<close>

text \<open>The sub-directories of the cache, by their names.\<close>

definition sub_directories :: "string \<Rightarrow> disk \<Rightarrow> string list" where
  "sub_directories cache dk =
     map (drop (length cache + 1)) (filter (\<lambda>d. in_directory cache d) (dk_dirs dk))"

definition below :: "string \<Rightarrow> string \<Rightarrow> bool" where
  "below dir path \<longleftrightarrow> prefix (dir @ ''/'') path"

definition dir_bytes :: "string \<Rightarrow> disk \<Rightarrow> 64 word" where
  "dir_bytes dir dk = sum_list (map (\<lambda>f. of_nat (length (snd f))) (filter (\<lambda>f. below dir (fst f)) (dk_files dk)))"

text \<open>\<open>remove_all\<close>: the disk and whether no error was reported.\<close>

definition remove_all :: "sys_env \<Rightarrow> string \<Rightarrow> disk \<Rightarrow> bool \<times> disk" where
  "remove_all env dir dk =
     (case rm_keeps env dir of
        None \<Rightarrow> (True, \<lparr>dk_files = filter (\<lambda>f. \<not> below dir (fst f)) (dk_files dk),
                       dk_dirs = filter (\<lambda>d. d \<noteq> dir \<and> \<not> below dir d) (dk_dirs dk)\<rparr>)
      | Some keeps \<Rightarrow>
          (False, \<lparr>dk_files = filter (\<lambda>f. \<not> below dir (fst f) \<or> keeps (fst f)) (dk_files dk),
                   dk_dirs = filter (\<lambda>d. (d \<noteq> dir \<and> \<not> below dir d) \<or> keeps d) (dk_dirs dk)\<rparr>))"

fun remove_each :: "sys_env \<Rightarrow> string list \<Rightarrow> disk \<Rightarrow> nat \<times> disk" where
  "remove_each env [] dk = (0, dk)"
| "remove_each env (p # ps) dk =
     (case remove_all env p dk of (ok, dk1) \<Rightarrow>
        case remove_each env ps dk1 of (n, dk2) \<Rightarrow> ((if ok then Suc n else n), dk2))"

definition to_delete :: "string \<Rightarrow> string list \<Rightarrow> disk \<Rightarrow> string list" where
  "to_delete cache keep_models dk =
     (let keep_dirs = map (\<lambda>m. ''models--'' @ repo_to_dirname m) keep_models
      in map (\<lambda>name. cache @ ''/'' @ name)
           (filter (\<lambda>name. prefix ''models--'' name \<and> name \<notin> set keep_dirs) (sub_directories cache dk)))"

text \<open>The status, the two counts a caller may ask for, and the disk.\<close>

definition lembed_cleanup_model_cache ::
    "sys_env \<Rightarrow> string option \<Rightarrow> string list option \<Rightarrow> bool \<Rightarrow> disk
      \<Rightarrow> (status \<times> (nat \<times> 64 word) option) \<times> disk" where
  "lembed_cleanup_model_cache env cache_dir keep_models dry_run dk =
     (case keep_models of
        None \<Rightarrow> ((INVALID_ARGUMENT, None), dk)
      | Some keep \<Rightarrow>
          let cache = get_cache_dir env cache_dir in
          if cache \<notin> set (dk_dirs dk) then ((OK, Some (0, 0)), dk)
          else
            let doomed = to_delete cache keep dk; freed = sum_list (map (\<lambda>d. dir_bytes d dk) doomed)
            in if dry_run then ((OK, Some (length doomed, freed)), dk)
               else (case remove_each env doomed dk of (n, dk1) \<Rightarrow> ((OK, Some (n, freed)), dk1)))"

definition lembed_cleanup_model_cache_except ::
    "sys_env \<Rightarrow> string option \<Rightarrow> string option \<Rightarrow> bool \<Rightarrow> disk \<Rightarrow> (status \<times> (nat \<times> 64 word) option) \<times> disk" where
  "lembed_cleanup_model_cache_except env cache_dir active dry_run dk =
     (case active of
        Some (c # cs) \<Rightarrow> lembed_cleanup_model_cache env cache_dir (Some [c # cs]) dry_run dk
      | _ \<Rightarrow> ((INVALID_ARGUMENT, None), dk))"

section \<open>Facts\<close>

lemma mkdirs_loop_files [simp]: "dk_files (snd (mkdirs_loop env current path dk)) = dk_files dk"
  by (induction env current path dk rule: mkdirs_loop.induct) (simp_all add: Let_def)

lemma mkdirs_files [simp]: "dk_files (snd (mkdirs env path dk)) = dk_files dk"
  by (simp add: mkdirs_def)

lemma with_files_simps [simp]: "dk_files (with_files fs dk) = fs" "dk_dirs (with_files fs dk) = dk_dirs dk"
  by (simp_all add: with_files_def)

text \<open>What every state of a download shows at each path.\<close>

lemma download_states:
  assumes "dk' \<in> set (fst (download_hf_file env repo f dest dk))"
  shows "p \<noteq> dest \<Longrightarrow> p \<noteq> dest @ ''.tmp'' \<Longrightarrow> map_of (dk_files dk') p = map_of (dk_files dk) p"
    and "map_of (dk_files dk') dest = map_of (dk_files dk) dest \<or> map_of (dk_files dk') dest = None \<or>
      snd (net env (hf_url env repo f)) \<and> map_of (dk_files dk') dest = Some (fst (net env (hf_url env repo f)))"
  using assms
  by (auto simp: download_hf_file_def Let_def split: if_splits option.splits prod.splits)

lemma download_nonempty: "fst (download_hf_file env repo f dest dk) \<noteq> []"
  by (simp add: download_hf_file_def Let_def split: option.split prod.split)

lemma download_ok:
  assumes "snd (download_hf_file env repo f dest dk)"
  shows "map_of (dk_files (last (fst (download_hf_file env repo f dest dk)))) dest =
    Some (fst (net env (hf_url env repo f)))"
  using assms
  by (auto simp: download_hf_file_def Let_def split: if_splits option.splits prod.splits)

text \<open>A download of a file that is not there leaves it absent or complete.\<close>

lemma download_fresh:
  assumes "\<not> file_exists dk dest" and "p \<noteq> dest @ ''.tmp''"
  shows "map_of (dk_files (last (fst (download_hf_file env repo f dest dk)))) p = map_of (dk_files dk) p \<or>
    (map_of (dk_files dk) p = None \<and> p = dest \<and> snd (net env (hf_url env repo f)) \<and>
     map_of (dk_files (last (fst (download_hf_file env repo f dest dk)))) p = Some (fst (net env (hf_url env repo f))))"
  using download_states(1) [of "last (fst (download_hf_file env repo f dest dk))" env repo f dest dk p]
    download_states(2) [of "last (fst (download_hf_file env repo f dest dk))" env repo f dest dk]
    download_nonempty [of env repo f dest dk] assms
  by (cases "p = dest") (auto simp: file_exists_def)

definition fetched :: "sys_env \<Rightarrow> string \<Rightarrow> string \<Rightarrow> string list \<Rightarrow> disk \<Rightarrow> disk \<Rightarrow> string \<Rightarrow> bool" where
  "fetched env repo dir fs dk dk' p \<longleftrightarrow>
     map_of (dk_files dk') p = map_of (dk_files dk) p \<or>
     (map_of (dk_files dk) p = None \<and> (\<exists>f \<in> set fs. p = dir @ ''/'' @ f \<and> snd (net env (hf_url env repo f)) \<and>
        map_of (dk_files dk') p = Some (fst (net env (hf_url env repo f)))))"

lemma ensure_files_fetched:
  assumes "ensure_files env repo dir offline fs dk = (r, dk')"
    and "\<forall>f \<in> set fs. p \<noteq> dir @ ''/'' @ f @ ''.tmp''"
  shows "fetched env repo dir fs dk dk' p"
  using assms
proof (induction fs arbitrary: dk)
  case (Cons f fs)
  let ?dest = "dir @ ''/'' @ f"
  have step: "fetched env repo dir (f # fs) dk dk' p" if "ensure_files env repo dir offline fs dk = (r, dk')"
    using Cons.IH [OF that] Cons.prems(2) by (auto simp: fetched_def)
  show ?case
  proof (cases "file_exists dk ?dest \<or> offline")
    case True
    with Cons.prems(1) step show ?thesis
      by (auto simp: Let_def fetched_def split: if_splits)
  next
    case False
    let ?d = "download_hf_file env repo f ?dest dk"
    let ?dk1 = "last (fst ?d)"
    have fresh: "fetched env repo dir [f] dk ?dk1 p"
      using download_fresh [of dk ?dest p env repo f] False Cons.prems(2) by (auto simp: fetched_def)
    show ?thesis
    proof (cases "\<not> snd ?d \<and> \<not> is_optional_file f")
      case True
      with False Cons.prems(1) have "dk' = ?dk1" by (auto simp: Let_def split: prod.splits)
      with fresh show ?thesis by (auto simp: fetched_def)
    next
      case later: False
      with False Cons.prems(1) have "ensure_files env repo dir offline fs ?dk1 = (r, dk')"
        by (auto simp: Let_def split: prod.splits if_splits)
      from Cons.IH [OF this] Cons.prems(2) fresh show ?thesis by (auto simp: fetched_def)
    qed
  qed
qed (simp add: fetched_def)

lemma ensure_files_present:
  assumes "ensure_files env repo dir offline fs dk = (Inr (), dk')" and "f \<in> set fs" and "\<not> is_optional_file f"
    and "\<forall>g \<in> set fs. dir @ ''/'' @ f \<noteq> dir @ ''/'' @ g @ ''.tmp''"
  shows "file_exists dk' (dir @ ''/'' @ f)"
  using assms
proof (induction fs arbitrary: dk)
  case (Cons g fs)
  have keep: "file_exists dk' (dir @ ''/'' @ f)" if "ensure_files env repo dir offline fs dk1 = (Inr (), dk')"
      "file_exists dk1 (dir @ ''/'' @ f)" for dk1
    using ensure_files_fetched [OF that(1), of "dir @ ''/'' @ f"] that(2) Cons.prems(4)
    by (auto simp: fetched_def file_exists_def)
  let ?dest = "dir @ ''/'' @ g" and ?d = "download_hf_file env repo g (dir @ ''/'' @ g) dk"
  consider "file_exists dk ?dest" | "\<not> file_exists dk ?dest" "offline" "is_optional_file g"
    | "\<not> file_exists dk ?dest" "\<not> offline" "snd ?d \<or> is_optional_file g"
    using Cons.prems(1) by (auto simp: Let_def split: if_splits prod.splits)
  then show ?case
  proof cases
    case 1
    with Cons.prems(1) have rest: "ensure_files env repo dir offline fs dk = (Inr (), dk')" by (simp add: Let_def)
    show ?thesis
      using Cons.IH [OF rest] keep [OF rest] 1 Cons.prems by (cases "f = g") auto
  next
    case 2
    with Cons.prems show ?thesis using Cons.IH [of dk] by (auto simp: Let_def)
  next
    case 3
    with Cons.prems(1) have rest: "ensure_files env repo dir offline fs (last (fst ?d)) = (Inr (), dk')"
      by (auto simp: Let_def split: prod.splits if_splits)
    show ?thesis
    proof (cases "f = g")
      case True
      with 3 Cons.prems(3) have "snd ?d" by simp
      from keep [OF rest] download_ok [OF this] True show ?thesis by (simp add: file_exists_def)
    qed (use Cons.IH [OF rest] Cons.prems in auto)
  qed
qed simp

lemma ensure_files_offline:
  "ensure_files env repo dir True fs dk = (r, dk') \<Longrightarrow> dk' = dk \<and>
     (r = Inr () \<longleftrightarrow> (\<forall>f \<in> set fs. is_optional_file f \<or> file_exists dk (dir @ ''/'' @ f)))"
  by (induction fs arbitrary: dk) (auto simp: Let_def split: if_splits)

subsection \<open>Cleaning\<close>

lemma remove_each_all:
  assumes "\<forall>d. rm_keeps env d = None"
  shows "remove_each env ps dk = (length ps,
    \<lparr>dk_files = filter (\<lambda>f. \<forall>d \<in> set ps. \<not> below d (fst f)) (dk_files dk),
     dk_dirs = filter (\<lambda>e. \<forall>d \<in> set ps. e \<noteq> d \<and> \<not> below d e) (dk_dirs dk)\<rparr>)"
proof (induction ps arbitrary: dk)
  case (Cons p ps)
  show ?case
    by (simp add: remove_all_def assms Cons.IH)
qed simp

lemma repo_to_dirname_flat: "CHR ''/'' \<notin> set (repo_to_dirname m)"
  by (auto simp: repo_to_dirname_def)

lemma to_delete_form:
  assumes "d \<in> set (to_delete cache keep dk)"
  shows "\<exists>name. d = cache @ ''/'' @ name \<and> CHR ''/'' \<notin> set name \<and> prefix ''models--'' name \<and>
    name \<notin> (\<lambda>m. ''models--'' @ repo_to_dirname m) ` set keep"
  using assms by (auto simp: to_delete_def sub_directories_def in_directory_def Let_def)

lemma takeWhile_stop: "c \<notin> set xs \<Longrightarrow> takeWhile (\<lambda>d. d \<noteq> c) (xs @ c # ys) = xs"
  by (induction xs) auto

lemma below_same_name:
  assumes "below (cache @ ''/'' @ m) p" and "below (cache @ ''/'' @ n) p"
    and "CHR ''/'' \<notin> set m" and "CHR ''/'' \<notin> set n"
  shows "m = n"
proof -
  have "takeWhile (\<lambda>c. c \<noteq> CHR ''/'') (drop (length cache + 1) p) = x"
    if "below (cache @ ''/'' @ x) p" "CHR ''/'' \<notin> set x" for x
  proof -
    from that(1) obtain rest where "p = cache @ ''/'' @ x @ ''/'' @ rest" by (auto simp: below_def prefix_def)
    then have "drop (length cache + 1) p = x @ CHR ''/'' # rest" by simp
    then show ?thesis by (simp only: takeWhile_stop [OF that(2)])
  qed
  from this [OF assms(1,3)] this [OF assms(2,4)] show ?thesis by simp
qed

lemma cleanup_files:
  assumes "\<forall>d. rm_keeps env d = None" and "get_cache_dir env cache_dir \<in> set (dk_dirs dk)"
  shows "map_of (dk_files (snd (lembed_cleanup_model_cache env cache_dir (Some keep) False dk))) p =
    (if \<exists>d \<in> set (to_delete (get_cache_dir env cache_dir) keep dk). below d p then None else map_of (dk_files dk) p)"
  using assms(2) map_of_filter_path [of "\<lambda>p. \<forall>d \<in> set (to_delete (get_cache_dir env cache_dir) keep dk). \<not> below d p"
      "dk_files dk" p]
  by (auto simp: lembed_cleanup_model_cache_def Let_def remove_each_all [OF assms(1)])

text \<open>A model directory of the cache whose repository is not asked for is deleted.\<close>

lemma to_delete_model_dir:
  assumes "model_dir_of cache repo \<in> set (dk_dirs dk)"
    and "\<forall>m \<in> set keep. repo_to_dirname m \<noteq> repo_to_dirname repo"
  shows "model_dir_of cache repo \<in> set (to_delete cache keep dk)"
proof -
  let ?name = "''models--'' @ repo_to_dirname repo"
  have dir: "model_dir_of cache repo = cache @ ''/'' @ ?name" by (simp add: model_dir_of_def)
  then have "in_directory cache (model_dir_of cache repo)"
    using repo_to_dirname_flat [of repo] by (simp add: in_directory_def)
  then have "?name \<in> set (sub_directories cache dk)"
    using assms(1) dir unfolding sub_directories_def by (force intro!: image_eqI [of _ _ "model_dir_of cache repo"])
  moreover have "?name \<notin> set (map (\<lambda>m. ''models--'' @ repo_to_dirname m) keep)" using assms(2) by auto
  ultimately show ?thesis unfolding dir to_delete_def Let_def by (auto intro!: image_eqI [of _ _ ?name])
qed

definition sample_sys :: sys_env where
  "sample_sys = \<lparr>getenv = \<lambda>_. None, mkdir_ok = \<lambda>_. True, fopen_ok = \<lambda>_. True, curl_ok = True,
     net = \<lambda>url. (''x'', True), mv_ok = \<lambda>_. True, rm_keeps = \<lambda>_. None\<rparr>"

definition sample_disk :: disk where
  "sample_disk = \<lparr>dk_files = [(''c/models--a-b/m'', ''w''), (''c/models--o-p/m'', ''v''), (''c/note'', ''n'')],
     dk_dirs = [''c'', ''c/models--a-b'', ''c/models--o-p'']\<rparr>"

section \<open>Properties\<close>

text \<open>C27. At every moment of a download the file another process finds at the destination is the one
  that was there before, or none, or the complete transfer; no other path than the temporary file
  changes; and when the download reports success the complete transfer is in place.\<close>

theorem download_never_partial:
  "(\<forall>dk' \<in> set (fst (download_hf_file env repo f dest dk)).
      (map_of (dk_files dk') dest = map_of (dk_files dk) dest \<or> map_of (dk_files dk') dest = None \<or>
       snd (net env (hf_url env repo f)) \<and> map_of (dk_files dk') dest = Some (fst (net env (hf_url env repo f)))) \<and>
      (\<forall>p. p \<noteq> dest \<and> p \<noteq> dest @ ''.tmp'' \<longrightarrow> map_of (dk_files dk') p = map_of (dk_files dk) p)) \<and>
    (snd (download_hf_file env repo f dest dk) \<longrightarrow>
      map_of (dk_files (last (fst (download_hf_file env repo f dest dk)))) dest = Some (fst (net env (hf_url env repo f))))"
proof (intro conjI ballI allI impI)
  fix dk' assume dk': "dk' \<in> set (fst (download_hf_file env repo f dest dk))"
  show "map_of (dk_files dk') dest = map_of (dk_files dk) dest \<or> map_of (dk_files dk') dest = None \<or>
      snd (net env (hf_url env repo f)) \<and> map_of (dk_files dk') dest = Some (fst (net env (hf_url env repo f)))"
    by (rule download_states(2) [OF dk'])
  show "map_of (dk_files dk') p = map_of (dk_files dk) p" if "p \<noteq> dest \<and> p \<noteq> dest @ ''.tmp''" for p
    using that by (intro download_states(1) [OF dk']) simp_all
qed (rule download_ok)

theorem download_never_partial_witness:
  "snd (download_hf_file sample_sys ''r'' ''f'' ''d'' sample_disk) \<and>
   map_of (dk_files (last (fst (download_hf_file sample_sys ''r'' ''f'' ''d'' sample_disk)))) ''d'' = Some ''x''"
proof -
  have ok: "snd (download_hf_file sample_sys ''r'' ''f'' ''d'' sample_disk)"
    by (simp add: download_hf_file_def sample_sys_def parent_of_def Let_def)
  with download_never_partial [of sample_sys "''r''" "''f''" "''d''" sample_disk]
  have "map_of (dk_files (last (fst (download_hf_file sample_sys ''r'' ''f'' ''d'' sample_disk)))) ''d'' =
      Some (fst (net sample_sys (hf_url sample_sys ''r'' ''f'')))" by (elim conjE) (rule mp)
  with ok show ?thesis by (simp add: sample_sys_def)
qed

text \<open>When a model is ensured, its weights and additional files are in the directory returned; what
  was cached is not touched, and a file that appears holds the whole answer of the server for its
  own name. Temporary files apart, nothing else on the disk changes.\<close>

theorem ensure_model_sound:
  assumes "ensure_model env repo model_file additional cache offline dk = (Inr dir, dk')"
    and "\<forall>f \<in> set (model_files model_file additional). \<forall>g \<in> set (model_files model_file additional). f \<noteq> g @ ''.tmp''"
  shows "dir = model_dir_of cache repo \<and>
    (\<forall>f \<in> set (model_file # additional). \<not> is_optional_file f \<longrightarrow> file_exists dk' (dir @ ''/'' @ f)) \<and>
    (\<forall>p. (\<forall>f \<in> set (model_files model_file additional). p \<noteq> dir @ ''/'' @ f @ ''.tmp'') \<longrightarrow>
       fetched env repo dir (model_files model_file additional) dk dk' p)"
proof -
  let ?fs = "model_files model_file additional"
  let ?start = "snd (mkdirs env (model_dir_of cache repo) dk)"
  obtain r dk2 where e: "ensure_files env repo (model_dir_of cache repo) offline ?fs ?start = (r, dk2)" by fastforce
  with assms(1) have "r = Inr () \<and> dk2 = dk'" and dir: "dir = model_dir_of cache repo"
    by (cases r; simp add: ensure_model_def Let_def)+
  with e have dk1: "ensure_files env repo (model_dir_of cache repo) offline ?fs ?start = (Inr (), dk')"
    "dk_files ?start = dk_files dk" by simp_all
  show ?thesis
  proof (intro conjI ballI allI impI)
    show "dir = model_dir_of cache repo" by (rule dir)
    fix f assume f: "f \<in> set (model_file # additional)" "\<not> is_optional_file f"
    then have "f \<in> set ?fs" by (auto simp: model_files_def)
    with assms(2) have "\<forall>g \<in> set ?fs. f \<noteq> g @ ''.tmp''" by (rule bspec)
    then show "file_exists dk' (dir @ ''/'' @ f)"
      unfolding dir by (intro ensure_files_present [OF dk1(1) \<open>f \<in> set ?fs\<close> f(2)]) simp
  next
    fix p assume "\<forall>f \<in> set ?fs. p \<noteq> dir @ ''/'' @ f @ ''.tmp''"
    from ensure_files_fetched [OF dk1(1) this [unfolded dir]] dk1(2)
    show "fetched env repo dir ?fs dk dk' p" by (simp add: fetched_def dir)
  qed
qed

theorem ensure_model_sound_witness:
  "file_exists (snd (ensure_model sample_sys ''a/b'' ''m'' [''n''] ''c'' False sample_disk)) ''c/models--a-b/n''"
proof -
  have "fst (ensure_model sample_sys ''a/b'' ''m'' [''n''] ''c'' False sample_disk) = Inr ''c/models--a-b''"
    by code_simp
  then obtain dk' where e: "ensure_model sample_sys ''a/b'' ''m'' [''n''] ''c'' False sample_disk =
      (Inr ''c/models--a-b'', dk')" by (metis prod.collapse)
  have "file_exists dk' ''c/models--a-b/n''"
    using ensure_model_sound [OF e] by (simp add: model_files_def is_optional_file_def)
  with e show ?thesis by simp
qed

text \<open>Offline, ensuring a model changes no file, and it succeeds exactly when the weights and every
  additional file that is not optional are cached.\<close>

theorem ensure_model_offline:
  "case ensure_model env repo model_file additional cache True dk of (r, dk') \<Rightarrow>
     dk_files dk' = dk_files dk \<and>
     ((\<exists>dir. r = Inr dir) \<longleftrightarrow> (\<forall>f \<in> set (model_file # additional).
        is_optional_file f \<or> file_exists dk (model_dir_of cache repo @ ''/'' @ f)))"
proof -
  let ?fs = "model_files model_file additional" and ?dk1 = "snd (mkdirs env (model_dir_of cache repo) dk)"
  obtain r dk' where e: "ensure_files env repo (model_dir_of cache repo) True ?fs ?dk1 = (r, dk')" by fastforce
  have "(\<forall>f \<in> set ?fs. is_optional_file f \<or> P f) \<longleftrightarrow> (\<forall>f \<in> set (model_file # additional). is_optional_file f \<or> P f)" for P
    by (auto simp: model_files_def is_optional_file_def)
  with ensure_files_offline [OF e] e show ?thesis
    by (cases r) (auto simp: ensure_model_def Let_def file_exists_def)
qed

theorem ensure_model_offline_witness:
  "dk_files (snd (ensure_model sample_sys ''a/b'' ''m'' [] ''c'' True sample_disk)) = dk_files sample_disk \<and>
   (\<exists>dir. fst (ensure_model sample_sys ''a/b'' ''m'' [] ''c'' True sample_disk) = Inr dir)"
  using ensure_model_offline [where env = sample_sys and repo = "''a/b''" and model_file = "''m''"
      and additional = "[]" and cache = "''c''" and dk = sample_disk]
  by (simp add: split_beta model_dir_of_def repo_to_dirname_def file_exists_def sample_disk_def)

text \<open>When the file system deletes what it is asked to, a cleanup reports what its dry run reports;
  the files that disappear are exactly those below a model directory not asked to be kept; and the
  directories of the models to keep stay whole.\<close>

theorem cleanup_exact:
  assumes "\<forall>d. rm_keeps env d = None" and "get_cache_dir env cache_dir \<in> set (dk_dirs dk)"
  shows "case lembed_cleanup_model_cache env cache_dir (Some keep) False dk of (r, dk') \<Rightarrow>
    let cache = get_cache_dir env cache_dir in
    r = fst (lembed_cleanup_model_cache env cache_dir (Some keep) True dk) \<and>
    snd (lembed_cleanup_model_cache env cache_dir (Some keep) True dk) = dk \<and>
    (\<forall>p. map_of (dk_files dk') p =
       (if \<exists>d \<in> set (to_delete cache keep dk). below d p then None else map_of (dk_files dk) p)) \<and>
    (\<forall>m \<in> set keep. \<forall>p. below (model_dir_of cache m) p \<longrightarrow> map_of (dk_files dk') p = map_of (dk_files dk) p)"
proof -
  let ?cache = "get_cache_dir env cache_dir"
  let ?doomed = "to_delete ?cache keep dk"
  have kept: "\<not> below d p" if "m \<in> set keep" "below (model_dir_of ?cache m) p" "d \<in> set ?doomed" for m p d
  proof
    assume "below d p"
    from to_delete_form [OF that(3)] obtain name where
      name: "d = ?cache @ ''/'' @ name" "CHR ''/'' \<notin> set name"
        "name \<notin> (\<lambda>m. ''models--'' @ repo_to_dirname m) ` set keep"
      by (elim exE conjE)
    have "below (?cache @ ''/'' @ (''models--'' @ repo_to_dirname m)) p" using that(2) by (simp add: model_dir_of_def)
    moreover have "CHR ''/'' \<notin> set (''models--'' @ repo_to_dirname m)" using repo_to_dirname_flat [of m] by simp
    ultimately have "''models--'' @ repo_to_dirname m = name"
      by (intro below_same_name [OF _ \<open>below d p\<close> [unfolded name(1)] _ name(2)])
    with name(3) that(1) show False by (metis image_eqI)
  qed
  obtain r dk' where real: "lembed_cleanup_model_cache env cache_dir (Some keep) False dk = (r, dk')" by fastforce
  have dry: "lembed_cleanup_model_cache env cache_dir (Some keep) True dk = (r, dk)"
    using assms(2) real by (auto simp: lembed_cleanup_model_cache_def Let_def remove_each_all [OF assms(1)])
  have gone: "map_of (dk_files dk') p =
      (if \<exists>d \<in> set ?doomed. below d p then None else map_of (dk_files dk) p)" for p
    using cleanup_files [OF assms, of keep p] real by simp
  show ?thesis
    unfolding real dry prod.case Let_def fst_conv snd_conv
  proof (intro conjI allI ballI impI refl gone)
    fix m p assume "m \<in> set keep" and "below (model_dir_of ?cache m) p"
    with kept have "\<not> (\<exists>d \<in> set ?doomed. below d p)" by blast
    then show "map_of (dk_files dk') p = map_of (dk_files dk) p" unfolding gone by (simp only: if_False)
  qed
qed

theorem cleanup_exact_witness:
  "map_of (dk_files (snd (lembed_cleanup_model_cache sample_sys (Some ''c'') (Some [''a/b'']) False sample_disk)))
     ''c/models--o-p/m'' = None \<and>
   map_of (dk_files (snd (lembed_cleanup_model_cache sample_sys (Some ''c'') (Some [''a/b'']) False sample_disk)))
     ''c/models--a-b/m'' = Some ''w''"
  using cleanup_exact [of sample_sys "Some ''c''" sample_disk "[''a/b'']"]
  by (simp add: split_beta Let_def sample_sys_def get_cache_dir_def sample_disk_def to_delete_def
      sub_directories_def in_directory_def below_def repo_to_dirname_def model_dir_of_def)

end
