(* ===== verification/ModelStore.thy ===== *)
theory ModelStore
  imports Downloader Registry
begin

text \<open>
  What stands between the registry and the disk: \<open>detail/download_manager.hpp\<close> and the C entry points
  of \<open>downloader.h\<close>, with the registry of GGUF models of \<open>detail/gguf_registry_impl.hpp\<close>. An entry
  point returns its status, the string it hands out and the message it leaves in the error buffer.
\<close>

section \<open>GGUF models\<close>

text \<open>The retrieval score is kept in tenths.\<close>

record gguf_model_info =
  gm_name :: string
  gm_url :: string
  gm_code :: string
  gm_description :: string
  gm_dim :: int
  gm_params_m :: int
  gm_file_size_mb :: int
  gm_quality_tenths :: int
  gm_sessions :: int

type_synonym gguf_row = "string \<times> string \<times> string \<times> string \<times> int \<times> int \<times> int \<times> int \<times> int"

fun gguf_info :: "gguf_row \<Rightarrow> gguf_model_info" where
  "gguf_info (n, u, c, d, w, p, m, q, k) =
     \<lparr>gm_name = n, gm_url = u, gm_code = c, gm_description = d, gm_dim = w, gm_params_m = p,
      gm_file_size_mb = m, gm_quality_tenths = q, gm_sessions = k\<rparr>"

definition gguf_rows :: "gguf_row list" where
  "gguf_rows =
    [
     (''Snowflake-XS-Q4'',
      ''https://huggingface.co/ChristianAzinn/snowflake-arctic-embed-xs-gguf/resolve/main/snowflake-arctic-embed-xs--Q4_K_M.GGUF'',
      ''snowflake/snowflake-arctic-embed-xs'',
      ''Best overall: fast (6 layers) with excellent retrieval quality (MTEB 50.2)'',
      384, 22, 20, 502, 4),
     (''MiniLM-L6-Q4'',
      ''https://huggingface.co/second-state/All-MiniLM-L6-v2-Embedding-GGUF/resolve/main/all-MiniLM-L6-v2-Q4_K_M.gguf'',
      ''sentence-transformers/all-MiniLM-L6-v2'',
      ''Fastest small model (6 layers), good for throughput-critical apps'',
      384, 22, 20, 419, 4),
     (''MiniLM-L6-Q8'',
      ''https://huggingface.co/second-state/All-MiniLM-L6-v2-Embedding-GGUF/resolve/main/all-MiniLM-L6-v2-Q8_0.gguf'',
      ''sentence-transformers/all-MiniLM-L6-v2'',
      ''Fast with better quality than Q4 (8-bit quantization)'',
      384, 22, 24, 419, 4),
     (''Snowflake-S-Q4'',
      ''https://huggingface.co/ChristianAzinn/snowflake-arctic-embed-s-gguf/resolve/main/snowflake-arctic-embed-s--Q4_K_M.GGUF'',
      ''snowflake/snowflake-arctic-embed-s'',
      ''Higher quality (MTEB 52.0) for quality-critical applications'',
      384, 33, 28, 520, 4),
     (''E5-small-Q4'',
      ''https://huggingface.co/ChristianAzinn/e5-small-v2-gguf/resolve/main/e5-small-v2.Q4_K_M.gguf'',
      ''intfloat/e5-small-v2'',
      ''Multilingual embedding model, good cross-lingual retrieval'',
      384, 33, 28, 460, 4),
     (''GIST-small-Q4'',
      ''https://huggingface.co/ChristianAzinn/gist-small-embedding-v0-gguf/resolve/main/gist-small-embedding-v0.Q4_K_M.gguf'',
      ''avsolatorio/GIST-small-Embedding-v0'',
      ''Quality-focused small model, good for semantic search'',
      384, 33, 28, 480, 4),
     (''BGE-Reranker-v2-M3'',
      ''https://huggingface.co/smarttasks/bge-reranker-v2-m3-GGUF/resolve/main/bge-reranker-v2-m3-Q4_K_M.gguf'',
      ''BAAI/bge-reranker-v2-m3'',
      ''Default multilingual reranker GGUF (Q4_K_M), 438 MB, validated by SmartTasks'',
      0, 560, 438, 0, 4),
     (''BGE-Reranker-Base'',
      ''https://huggingface.co/sinjab/bge-reranker-base-Q4_K_M-GGUF/resolve/main/bge-reranker-base-Q4_K_M.gguf'',
      ''BAAI/bge-reranker-base'',
      ''Fast lightweight reranker GGUF (Q4_K_M), 219 MB, English/Chinese'',
      0, 110, 219, 0, 4),
     (''BGE-Reranker-Large'',
      ''https://huggingface.co/sinjab/bge-reranker-large-Q4_K_M-GGUF/resolve/main/bge-reranker-large-Q4_K_M.gguf'',
      ''BAAI/bge-reranker-large'',
      ''High-accuracy reranker GGUF (Q4_K_M), 407 MB, English/Chinese'',
      0, 560, 407, 0, 4),
     (''Qwen3-Reranker-0.6B'',
      ''https://huggingface.co/sinjab/Qwen3-Reranker-0.6B-Q4_K_M-GGUF/resolve/main/Qwen3-Reranker-0.6B-Q4_K_M.gguf'',
      ''Qwen/Qwen3-Reranker-0.6B'',
      ''Qwen3 reranker GGUF (Q4_K_M), ~396 MB, modern architecture'',
      0, 600, 396, 0, 4),
     (''Jina-Reranker-v1-Turbo-En'',
      ''https://huggingface.co/sinjab/jina-reranker-v1-turbo-en-Q8_0-GGUF/resolve/main/jina-reranker-v1-turbo-en-Q8_0.gguf'',
      ''jinaai/jina-reranker-v1-turbo-en'',
      ''Edge tiny reranker GGUF (Q8_0), ~36 MB, 6-layer JinaBERT, 8192 ctx'',
      0, 38, 36, 0, 4)]"

definition gguf_models :: "gguf_model_info list" where
  "gguf_models = map gguf_info gguf_rows"

definition lembed_list_gguf_models :: "bool \<Rightarrow> bool \<Rightarrow> status \<times> (gguf_model_info list \<times> int) option" where
  "lembed_list_gguf_models out_ok count_ok =
     (if \<not> out_ok \<or> \<not> count_ok then (INVALID_ARGUMENT, None)
      else (OK, Some (gguf_models, int (length gguf_models))))"

fun find_gguf :: "string \<Rightarrow> gguf_model_info list \<Rightarrow> gguf_model_info option" where
  "find_gguf query [] = None"
| "find_gguf query (m # ms) =
     (if str_find (map lower_byte (gm_name m)) query 0 \<noteq> None then Some m else find_gguf query ms)"

definition lembed_find_gguf_model :: "string option \<Rightarrow> gguf_model_info option" where
  "lembed_find_gguf_model name =
     (case name of None \<Rightarrow> None | Some n \<Rightarrow> find_gguf (map lower_byte n) gguf_models)"

definition lembed_default_gguf_model :: "gguf_model_info option" where
  "lembed_default_gguf_model = (case gguf_models of [] \<Rightarrow> None | m # _ \<Rightarrow> Some m)"

section \<open>Registry models\<close>

fun find_additional :: "int \<Rightarrow> model_kind_t \<Rightarrow> (int \<times> model_kind_t \<times> string list) list \<Rightarrow> string list option" where
  "find_additional model kind [] = None"
| "find_additional model kind ((m, k, fs) # rest) =
     (if m = model \<and> k = kind then Some fs else find_additional model kind rest)"

definition get_additional_files :: "int \<Rightarrow> model_kind_t \<Rightarrow> string list option" where
  "get_additional_files model kind = find_additional model kind additional_files"

definition info_by_kind :: "model_kind_t \<Rightarrow> int \<Rightarrow> status \<times> model_info option" where
  "info_by_kind kind model =
     (case kind of
        KIND_TEXT \<Rightarrow> lembed_get_text_model_info model True
      | KIND_SPARSE \<Rightarrow> lembed_get_sparse_model_info model True
      | KIND_IMAGE \<Rightarrow> lembed_get_image_model_info model True
      | KIND_RERANKER \<Rightarrow> lembed_get_reranker_model_info model True)"

definition ensure_model_by_kind ::
    "sys_env \<Rightarrow> int \<Rightarrow> model_kind_t \<Rightarrow> string option \<Rightarrow> bool \<Rightarrow> disk \<Rightarrow> (string + string) \<times> disk" where
  "ensure_model_by_kind env model kind cache_dir offline dk =
     (case info_by_kind kind model of
        (OK, Some info) \<Rightarrow>
          ensure_model env (model_code info) (model_file info)
            (case get_additional_files model kind of None \<Rightarrow> [] | Some fs \<Rightarrow> fs)
            (get_cache_dir env cache_dir) offline dk
      | _ \<Rightarrow> (Inl (''Unknown model enum: '' @ show_int model), dk))"

type_synonym answer = "status \<times> string option \<times> string option"

text \<open>The four \<open>lembed_ensure_*_model\<close> differ in their kind only.\<close>

definition lembed_ensure_model ::
    "sys_env \<Rightarrow> model_kind_t \<Rightarrow> int \<Rightarrow> string option \<Rightarrow> bool \<Rightarrow> bool \<Rightarrow> disk \<Rightarrow> answer \<times> disk" where
  "lembed_ensure_model env kind model cache_dir offline out_ok dk =
     (if \<not> out_ok then ((INVALID_ARGUMENT, None, None), dk)
      else case ensure_model_by_kind env model kind cache_dir offline dk of
             (Inl msg, dk1) \<Rightarrow> ((DOWNLOAD, None, Some (set_error msg)), dk1)
           | (Inr dir, dk1) \<Rightarrow> ((OK, Some (c_str dir), None), dk1))"

definition lembed_ensure_text_model where "lembed_ensure_text_model env = lembed_ensure_model env KIND_TEXT"
definition lembed_ensure_sparse_model where "lembed_ensure_sparse_model env = lembed_ensure_model env KIND_SPARSE"
definition lembed_ensure_image_model where "lembed_ensure_image_model env = lembed_ensure_model env KIND_IMAGE"
definition lembed_ensure_reranker_model where "lembed_ensure_reranker_model env = lembed_ensure_model env KIND_RERANKER"

section \<open>GGUF files\<close>

definition lembed_ensure_gguf_model ::
    "sys_env \<Rightarrow> string option \<Rightarrow> string option \<Rightarrow> string option \<Rightarrow> bool \<Rightarrow> bool \<Rightarrow> disk \<Rightarrow> answer \<times> disk" where
  "lembed_ensure_gguf_model env repo filename cache_dir offline out_ok dk =
     (case (repo, filename) of
        (Some (r # rs), Some (f # fs)) \<Rightarrow>
          if \<not> out_ok then ((INVALID_ARGUMENT, None, None), dk)
          else
            let dir = model_dir_of (get_cache_dir env cache_dir) (r # rs);
                dk1 = snd (mkdirs env dir dk);
                dest = dir @ ''/'' @ (f # fs)
            in if file_exists dk1 dest then ((OK, Some (c_str dest), None), dk1)
               else if offline
               then ((DOWNLOAD, None, Some (set_error (''GGUF model not in cache (offline mode): '' @ dest))), dk1)
               else (case download_hf_file env (r # rs) (f # fs) dest dk1 of (states, ok) \<Rightarrow>
                       if ok then ((OK, Some (c_str dest), None), last states)
                       else ((DOWNLOAD, None, Some (set_error
                              (''Failed to download GGUF model: '' @ (r # rs) @ ''/'' @ (f # fs)))), last states))
      | _ \<Rightarrow> ((INVALID_ARGUMENT, None, None), dk))"

definition hf_host :: string where "hf_host = ''huggingface.co/''"
definition hf_resolve :: string where "hf_resolve = ''/resolve/main/''"

text \<open>The repository and the file name of a Hugging Face URL.\<close>

definition parse_hf_url :: "string \<Rightarrow> (string \<times> string) option" where
  "parse_hf_url url =
     (case str_find url hf_host 0 of
        None \<Rightarrow> None
      | Some p \<Rightarrow>
          let repo_start = p + length hf_host in
          (case str_find url hf_resolve repo_start of
             None \<Rightarrow> None
           | Some repo_end \<Rightarrow>
               Some (substr url repo_start (repo_end - repo_start), drop (repo_end + length hf_resolve) url)))"

definition is_local_gguf :: "disk \<Rightarrow> string \<Rightarrow> bool" where
  "is_local_gguf dk input \<longleftrightarrow>
     length input > 5 \<and> drop (length input - 5) (map lower_byte input) = ''.gguf'' \<and> file_exists dk input"

definition split_shorthand :: "string \<Rightarrow> (string \<times> string) option" where
  "split_shorthand input =
     (case find_char (CHR ''/'') input of
        None \<Rightarrow> None
      | Some slash \<Rightarrow>
          if 0 < slash \<and> slash < length input - 1 then Some (take slash input, drop (slash + 1) input) else None)"

definition lembed_resolve_gguf_path ::
    "sys_env \<Rightarrow> string option \<Rightarrow> string option \<Rightarrow> bool \<Rightarrow> bool \<Rightarrow> disk \<Rightarrow> answer \<times> disk" where
  "lembed_resolve_gguf_path env name_or_path cache_dir offline out_ok dk =
     (case name_or_path of
        Some (c # cs) \<Rightarrow>
          let input = c # cs;
              ensure = (\<lambda>(repo, filename). lembed_ensure_gguf_model env (Some repo) (Some filename) cache_dir offline True dk)
          in if \<not> out_ok then ((INVALID_ARGUMENT, None, None), dk)
             else if is_local_gguf dk input then ((OK, Some input, None), dk)
             else if prefix ''http://'' input \<or> prefix ''https://'' input then
               (case parse_hf_url input of
                  None \<Rightarrow> ((DOWNLOAD, None, Some (set_error (''Unsupported GGUF URL: '' @ input))), dk)
                | Some rf \<Rightarrow> ensure rf)
             else
               (case (case lembed_find_gguf_model (Some input) of
                        Some info \<Rightarrow> if gm_url info \<noteq> [] then parse_hf_url (gm_url info) else None
                      | None \<Rightarrow> None) of
                  Some rf \<Rightarrow> ensure rf
                | None \<Rightarrow>
                    (case split_shorthand input of
                       Some rf \<Rightarrow> ensure rf
                     | None \<Rightarrow> ((INVALID_ARGUMENT, None, Some (set_error (''Cannot resolve GGUF model: '' @ input))), dk)))
      | _ \<Rightarrow> ((INVALID_ARGUMENT, None, None), dk))"

section \<open>Facts\<close>

text \<open>The slash between owner and name does not start the marker.\<close>

lemma find_resolve:
  assumes "CHR ''/'' \<notin> set owner" and "CHR ''/'' \<notin> set name"
  shows "find_sub hf_resolve (owner @ ''/'' @ name @ hf_resolve @ filename) = Some (length (owner @ ''/'' @ name))"
proof -
  let ?tail = "name @ hf_resolve @ filename"
  have slash: "hf_resolve = CHR ''/'' # ''resolve/main/''" by (simp add: hf_resolve_def)
  have "\<not> prefix hf_resolve (CHR ''/'' # ?tail)"
  proof
    assume "prefix hf_resolve (CHR ''/'' # ?tail)"
    then obtain zs where eq: "''resolve'' @ CHR ''/'' # (''main/'' @ zs) = name @ CHR ''/'' # (''resolve/main/'' @ filename)"
      by (auto simp: hf_resolve_def prefix_def)
    have "takeWhile (\<lambda>d. d \<noteq> CHR ''/'') (''resolve'' @ CHR ''/'' # (''main/'' @ zs)) = ''resolve''"
      by (rule takeWhile_stop) simp
    moreover have "takeWhile (\<lambda>d. d \<noteq> CHR ''/'') (name @ CHR ''/'' # (''resolve/main/'' @ filename)) = name"
      by (rule takeWhile_stop [OF assms(2)])
    ultimately have "name = ''resolve''" using eq by metis
    with eq show False by simp
  qed
  then have "find_sub hf_resolve (CHR ''/'' # ?tail) = map_option Suc (find_sub hf_resolve ?tail)" by simp
  moreover have "find_sub hf_resolve ?tail = Some (length name)"
    using find_sub_skip [OF assms(2) slash, of "hf_resolve @ filename"] by simp
  moreover have "find_sub hf_resolve (owner @ CHR ''/'' # ?tail) =
      map_option ((+) (length owner)) (find_sub hf_resolve (CHR ''/'' # ?tail))"
    by (rule find_sub_skip [OF assms(1) slash])
  ultimately show ?thesis by simp
qed

section \<open>Properties\<close>

text \<open>The address of a file on Hugging Face resolves to its repository, of the form owner and name,
  and to the file's path in it.\<close>

theorem parse_hf_url_roundtrip:
  assumes "CHR ''/'' \<notin> set owner" and "CHR ''/'' \<notin> set name"
  shows "parse_hf_url (''https://'' @ hf_host @ owner @ ''/'' @ name @ hf_resolve @ filename) =
    Some (owner @ ''/'' @ name, filename)"
proof -
  let ?rest = "owner @ ''/'' @ name @ hf_resolve @ filename"
  have "find_sub hf_host (''https://'' @ hf_host @ ?rest) = Some 8"
    by (simp add: hf_host_def)
  then have host: "str_find (''https://'' @ hf_host @ ?rest) hf_host 0 = Some 8"
    by (simp add: str_find_def)
  have "find_sub hf_resolve ?rest = Some (length (owner @ ''/'' @ name))"
    by (rule find_resolve [OF assms])
  then have "str_find (''https://'' @ hf_host @ ?rest) hf_resolve 23 = Some (23 + length (owner @ ''/'' @ name))"
    by (simp add: str_find_def hf_host_def)
  moreover have "drop (23 + length (owner @ ''/'' @ name) + length hf_resolve) (''https://'' @ hf_host @ ?rest) = filename"
  proof -
    let ?all = "''https://'' @ hf_host @ owner @ ''/'' @ name @ hf_resolve"
    have "drop (length ?all) (?all @ filename) = filename" by (metis append_eq_conv_conj)
    moreover have "length ?all = 23 + length (owner @ ''/'' @ name) + length hf_resolve" by (simp add: hf_host_def)
    ultimately show ?thesis by (simp only: append_assoc)
  qed
  moreover have "substr (''https://'' @ hf_host @ ?rest) 23 (length (owner @ ''/'' @ name)) = owner @ ''/'' @ name"
    by (simp add: substr_def hf_host_def)
  moreover have "length hf_host = 15" by (simp add: hf_host_def)
  ultimately show ?thesis unfolding parse_hf_url_def host by (simp only: option.case Let_def) simp
qed

theorem parse_hf_url_roundtrip_witness:
  "parse_hf_url (gm_url (hd gguf_models)) =
     Some (''ChristianAzinn/snowflake-arctic-embed-xs-gguf'', ''snowflake-arctic-embed-xs--Q4_K_M.GGUF'')"
  using parse_hf_url_roundtrip [of "''ChristianAzinn''" "''snowflake-arctic-embed-xs-gguf''"
      "''snowflake-arctic-embed-xs--Q4_K_M.GGUF''"]
  by (simp add: gguf_models_def gguf_rows_def hf_host_def hf_resolve_def)

text \<open>A shorthand with an owner, a repository name and a file is cut at its first slash: the request
  goes to a repository called as the owner alone, with the rest as the file name.\<close>

theorem shorthand_cut_at_owner:
  assumes "owner \<noteq> []" and "CHR ''/'' \<notin> set owner" and "name \<noteq> []"
    and "input = owner @ ''/'' @ name @ ''/'' @ filename"
    and "\<not> is_local_gguf dk input" and "\<not> prefix ''http://'' input" and "\<not> prefix ''https://'' input"
    and "lembed_find_gguf_model (Some input) = None"
  shows "lembed_resolve_gguf_path env (Some input) cache_dir offline True dk =
    lembed_ensure_gguf_model env (Some owner) (Some (name @ ''/'' @ filename)) cache_dir offline True dk"
proof -
  obtain c cs where input: "input = c # cs" using assms(1,4) by (cases owner) simp_all
  have "split_shorthand input = Some (owner, name @ ''/'' @ filename)"
    using assms(1-3) by (simp add: assms(4) split_shorthand_def)
  then show ?thesis
    using assms(5-8) by (auto simp: lembed_resolve_gguf_path_def Let_def input)
qed

theorem shorthand_cut_at_owner_witness:
  "fst (lembed_resolve_gguf_path sample_sys (Some ''org/repo/f.gguf'') (Some ''c'') True True sample_disk) =
     fst (lembed_ensure_gguf_model sample_sys (Some ''org'') (Some ''repo/f.gguf'') (Some ''c'') True True sample_disk)"
proof -
  have "lembed_find_gguf_model (Some ''org/repo/f.gguf'') = None" by code_simp
  then have "lembed_resolve_gguf_path sample_sys (Some ''org/repo/f.gguf'') (Some ''c'') True True sample_disk =
      lembed_ensure_gguf_model sample_sys (Some ''org'') (Some (''repo'' @ ''/'' @ ''f.gguf'')) (Some ''c'') True True sample_disk"
    by (intro shorthand_cut_at_owner) (simp_all add: is_local_gguf_def file_exists_def sample_disk_def)
  then show ?thesis by simp
qed

text \<open>The cleanup asked to keep a registry model by its name, as the interface describes it, deletes
  the files of that very model whenever its repository is called differently: the cached directory
  bears the repository, not the name.\<close>

theorem cleanup_by_name_deletes:
  assumes "lembed_get_text_model_info model True = (OK, Some info)"
    and "repo_to_dirname (model_name info) \<noteq> repo_to_dirname (model_code info)" and "model_name info \<noteq> []"
    and "\<forall>d. rm_keeps env d = None" and "get_cache_dir env cache_dir \<in> set (dk_dirs dk)"
    and "model_dir_of (get_cache_dir env cache_dir) (model_code info) \<in> set (dk_dirs dk)"
    and "below (model_dir_of (get_cache_dir env cache_dir) (model_code info)) p"
  shows "map_of (dk_files (snd (lembed_cleanup_model_cache_except env cache_dir (Some (model_name info)) False dk))) p = None"
proof -
  obtain c cs where name: "model_name info = c # cs" using assms(3) by (cases "model_name info") simp_all
  have "model_dir_of (get_cache_dir env cache_dir) (model_code info) \<in>
      set (to_delete (get_cache_dir env cache_dir) [model_name info] dk)"
    by (rule to_delete_model_dir [OF assms(6)]) (use assms(2) in simp)
  with cleanup_files [OF assms(4,5), of "[model_name info]" p] assms(7) show ?thesis
    by (auto simp: lembed_cleanup_model_cache_except_def name)
qed

text \<open>The default text model is such a model.\<close>

definition default_model_disk :: disk where
  "default_model_disk = \<lparr>dk_files = [(''c/models--Xenova-bge-small-en-v1.5/onnx/model.onnx'', ''w'')],
     dk_dirs = [''c'', ''c/models--Xenova-bge-small-en-v1.5'', ''c/models--Xenova-bge-small-en-v1.5/onnx'']\<rparr>"

theorem cleanup_by_name_deletes_witness:
  "map_of (dk_files (snd (lembed_cleanup_model_cache_except sample_sys (Some ''c'') (Some ''BAAI/bge-small-en-v1.5'')
     False default_model_disk))) ''c/models--Xenova-bge-small-en-v1.5/onnx/model.onnx'' = None"
proof -
  have info: "lembed_get_text_model_info 9 True = (OK, Some (text_models ! 9))" by code_simp
  have row: "model_name (text_models ! 9) = ''BAAI/bge-small-en-v1.5''"
    "model_code (text_models ! 9) = ''Xenova/bge-small-en-v1.5''" by code_simp+
  show ?thesis
    using cleanup_by_name_deletes [OF info, of sample_sys "Some ''c''" default_model_disk
        "''c/models--Xenova-bge-small-en-v1.5/onnx/model.onnx''"]
    unfolding row
    by (simp add: repo_to_dirname_def sample_sys_def get_cache_dir_def default_model_disk_def model_dir_of_def below_def)
qed

end
