(* ===== verification/QuantAuto.thy ===== *)
theory QuantAuto
  imports CacheFiles Types
begin

text \<open>The automatic choice of a quantization variant (\<open>detail/quantization_auto_impl.hpp\<close>): the timing
  loops, the decision rule over the table of measurements, its explanation, and the text file that
  records a decision. Rates are elements of an ordered field; the clock, the embedding calls and the
  conversions between numbers and text are arguments.\<close>

section \<open>The table\<close>

record 'f measurement =
  m_quantization :: int
  docs_per_sec :: 'f
  latency_ms :: 'f
  file_mb :: 'f

record 'f choice =
  c_quantization :: int
  variant_model :: int
  num_measured :: int
  from_cache :: int
  reason :: string
  measured :: "'f measurement list"

definition kQuantMaxVariants :: nat where "kQuantMaxVariants = 4"

definition kQuantMinGain :: "'f::linordered_field" where "kQuantMinGain = 105 / 100"

definition kQuantDynamicPreference :: "'f::linordered_field" where "kQuantDynamicPreference = 115 / 100"

text \<open>The values \<open>memset\<close> leaves.\<close>

definition zero_row :: "'f::zero measurement" where
  "zero_row = \<lparr>m_quantization = 0, docs_per_sec = 0, latency_ms = 0, file_mb = 0\<rparr>"

definition zero_choice :: "'f::zero choice" where
  "zero_choice = \<lparr>c_quantization = 0, variant_model = 0, num_measured = 0, from_cache = 0, reason = [],
     measured = replicate kQuantMaxVariants zero_row\<rparr>"

text \<open>The rows a loop \<open>i < num_measured && i < kQuantMaxVariants\<close> visits.\<close>

definition rows :: "'f choice \<Rightarrow> 'f measurement list" where
  "rows c = take (min (nat (num_measured c)) kQuantMaxVariants) (measured c)"

section \<open>Measurement\<close>

text \<open>The probe. \<open>embed_ok i\<close> is the outcome of the \<open>i\<close>-th embedding call; \<open>reading k\<close> is the time in
  milliseconds since the start that the \<open>k\<close>-th call of the clock reports. The loop returns the rate
  \<open>None\<close> for an early \<open>return 0.0\<close>, or the documents done and the number of readings taken.\<close>

definition kProbeMaxDocs :: nat where "kProbeMaxDocs = 4"

definition kProbeBudgetMs :: "'f::linordered_field" where "kProbeBudgetMs = 250"

definition kProbeRejectRatio :: "'f::linordered_field" where "kProbeRejectRatio = 3"

definition rate_of :: "nat \<Rightarrow> 'f::linordered_field \<Rightarrow> 'f" where
  "rate_of docs ms = of_nat docs / (ms / 1000)"

function probe_loop :: "(nat \<Rightarrow> bool) \<Rightarrow> (nat \<Rightarrow> 'f::linordered_field) \<Rightarrow> nat \<Rightarrow> 'f \<Rightarrow> nat \<Rightarrow> nat \<Rightarrow> nat \<Rightarrow>
    (nat \<times> nat) option" where
  "probe_loop embed_ok reading n best i ndone k =
     (if i < n \<and> ndone < kProbeMaxDocs then
        if reading k \<ge> kProbeBudgetMs then Some (ndone, Suc k)
        else if \<not> embed_ok i then None
        else if Suc ndone \<ge> 2 \<and> best > 0 then
          (if reading (Suc k) > 0 \<and> rate_of (Suc ndone) (reading (Suc k)) * kProbeRejectRatio < best then None
           else probe_loop embed_ok reading n best (Suc i) (Suc ndone) (k + 2))
        else probe_loop embed_ok reading n best (Suc i) (Suc ndone) (Suc k)
      else Some (ndone, k))"
  by pat_completeness auto

termination
  by (relation "measure (\<lambda>(_, _, n, _, i, _, _). n - i)") auto

declare probe_loop.simps [simp del]

definition quant_auto_probe :: "bool \<Rightarrow> (nat \<Rightarrow> bool) \<Rightarrow> (nat \<Rightarrow> 'f::linordered_field) \<Rightarrow> nat \<Rightarrow> 'f \<Rightarrow> 'f" where
  "quant_auto_probe ctx embed_ok reading n best =
     (if \<not> ctx \<or> n = 0 then 0
      else if \<not> embed_ok 0 then 0
      else case probe_loop embed_ok reading n best 1 0 0 of
             None \<Rightarrow> 0
           | Some (ndone, k) \<Rightarrow>
               if ndone = 0 then 0
               else if reading k \<le> 0 then 0
               else rate_of ndone (reading k))"

text \<open>The measurement of a whole corpus; \<open>ms\<close> is the time of the second call. The result is the rate and
  the latency.\<close>

definition quant_auto_measure :: "bool \<Rightarrow> bool \<Rightarrow> 'f::linordered_field \<Rightarrow> nat \<Rightarrow> 'f \<times> 'f" where
  "quant_auto_measure ctx embed_ok ms n =
     (if \<not> ctx \<or> n = 0 then (0, 0)
      else if \<not> embed_ok then (0, 0)
      else if ms \<le> 0 then (0, 0)
      else (rate_of n ms, ms / of_nat n))"

text \<open>The size of the weights: the model file, its sidecar and the sharded sidecars. \<open>size_of\<close> is the size of
  a file, or \<open>None\<close> when it cannot be read.\<close>

definition file_bytes :: "(string \<Rightarrow> nat option) \<Rightarrow> string \<Rightarrow> nat" where
  "file_bytes size_of p = (case size_of p of Some n \<Rightarrow> n | None \<Rightarrow> 0)"

definition quant_auto_file_mb :: "(string \<Rightarrow> nat option) \<Rightarrow> string option \<Rightarrow> string option \<Rightarrow> 'f::linordered_field" where
  "quant_auto_file_mb size_of dir model_file =
     (case (dir, model_file) of
        (Some d, Some f) \<Rightarrow>
          let p = d @ ''/'' @ f; base = p @ ''_data'';
              bytes = file_bytes size_of p + file_bytes size_of base +
                (\<Sum>i \<leftarrow> [0..<16]. file_bytes size_of (base @ ''_'' @ show_nat i))
          in of_nat bytes / (1024 * 1024)
      | _ \<Rightarrow> 0)"

section \<open>Decision\<close>

fun baselines :: "'f::linordered_field measurement list \<Rightarrow> 'f \<times> 'f \<times> bool \<Rightarrow> 'f \<times> 'f \<times> bool" where
  "baselines [] acc = acc"
| "baselines (r # rs) (baseline, dynamic, have_dynamic) =
     baselines rs
       (if docs_per_sec r \<le> 0 then (baseline, dynamic, have_dynamic)
        else if m_quantization r = quant_code Q_NONE then (docs_per_sec r, dynamic, have_dynamic)
        else if m_quantization r = quant_code Q_DYNAMIC then (baseline, docs_per_sec r, True)
        else (baseline, dynamic, have_dynamic))"

fun best_variant :: "'f::linordered_field \<Rightarrow> 'f measurement list \<Rightarrow> int \<times> 'f \<Rightarrow> int \<times> 'f" where
  "best_variant baseline [] acc = acc"
| "best_variant baseline (r # rs) (best, best_dps) =
     best_variant baseline rs
       (if m_quantization r = quant_code Q_NONE \<or> docs_per_sec r \<le> 0 then (best, best_dps)
        else if docs_per_sec r / baseline \<ge> kQuantMinGain \<and> docs_per_sec r > best_dps
        then (m_quantization r, docs_per_sec r)
        else (best, best_dps))"

definition quant_auto_pick :: "'f::linordered_field choice \<Rightarrow> int" where
  "quant_auto_pick c =
     (case baselines (rows c) (0, 0, False) of
        (baseline, dynamic, have_dynamic) \<Rightarrow>
          if baseline \<le> 0 then quant_code Q_NONE
          else case best_variant baseline (rows c) (quant_code Q_NONE, baseline) of
            (best, best_dps) \<Rightarrow>
              if best = quant_code Q_NONE then quant_code Q_NONE
              else if have_dynamic \<and> best \<noteq> quant_code Q_DYNAMIC \<and> best_dps / dynamic < kQuantDynamicPreference
              then quant_code Q_DYNAMIC
              else best)"

text \<open>The explanation; \<open>fmt d x\<close> is \<open>printf\<close> of \<open>x\<close> with \<open>d\<close> decimals.\<close>

fun reason_scan :: "int \<Rightarrow> 'f::linordered_field measurement list \<Rightarrow> 'f \<times> 'f option \<times> 'f \<Rightarrow> 'f \<times> 'f option \<times> 'f" where
  "reason_scan q [] acc = acc"
| "reason_scan q (r # rs) (baseline, chosen, best_quantum) =
     reason_scan q rs
       (let dps = docs_per_sec r in
        if dps \<le> 0 then (baseline, chosen, best_quantum)
        else
          ((if m_quantization r = quant_code Q_NONE then dps else baseline),
           (if chosen = None \<and> m_quantization r = q then Some dps else chosen),
           (if m_quantization r \<noteq> quant_code Q_NONE \<and> dps > best_quantum then dps else best_quantum)))"

definition quant_auto_reason :: "(nat \<Rightarrow> 'f::linordered_field \<Rightarrow> string) \<Rightarrow> 'f choice \<Rightarrow> string" where
  "quant_auto_reason fmt c =
     (case reason_scan (c_quantization c) (rows c) (0, None, 0) of
        (baseline, chosen, best_quantum) \<Rightarrow>
          if baseline \<le> 0 \<or> chosen = None then
            snprintf_s 192 (''no fp32 baseline on this machine, kept '' @ quantization_name (c_quantization c))
          else if c_quantization c = quant_code Q_NONE then
            snprintf_s 192 (''kept FP32: best variant reached '' @ fmt 2 (best_quantum / baseline) @
              ''x, under the '' @ fmt 2 kQuantMinGain @ ''x floor'')
          else
            snprintf_s 192 (fmt 2 (the chosen / baseline) @ ''x the fp32 variant ('' @ fmt 0 baseline @
              '' -> '' @ fmt 0 (the chosen) @ '' docs/s)''))"

section \<open>Text\<close>

definition BACKSLASH :: char where "BACKSLASH = CHR 0x5C"

definition json_escape_char :: "char \<Rightarrow> string" where
  "json_escape_char c =
     (if c = QUOTE then [BACKSLASH, QUOTE]
      else if c = BACKSLASH then [BACKSLASH, BACKSLASH]
      else if c = CHR 0x0A then BACKSLASH # ''n''
      else if c = CHR 0x0D then BACKSLASH # ''r''
      else if c = CHR 0x09 then BACKSLASH # ''t''
      else if byte c < 0x20 then BACKSLASH # CHR ''u'' # hex_fixed 4 (byte c)
      else [c])"

definition quant_auto_json_escape :: "string \<Rightarrow> string" where
  "quant_auto_json_escape s = concat (map json_escape_char s)"

definition hex_value :: "char \<Rightarrow> nat option" where
  "hex_value h =
     (if 48 \<le> byte h \<and> byte h \<le> 57 then Some (byte h - 48)
      else if 97 \<le> byte h \<and> byte h \<le> 102 then Some (byte h - 87)
      else if 65 \<le> byte h \<and> byte h \<le> 70 then Some (byte h - 55)
      else None)"

fun hex_code :: "string \<Rightarrow> nat \<Rightarrow> nat option" where
  "hex_code [] code = Some code"
| "hex_code (h # hs) code = (case hex_value h of None \<Rightarrow> None | Some d \<Rightarrow> hex_code hs (code * 16 + d))"

function quant_auto_json_unescape :: "string \<Rightarrow> string" where
  "quant_auto_json_unescape [] = []"
| "quant_auto_json_unescape [c] = [c]"
| "quant_auto_json_unescape (c # n # rest) =
     (if c \<noteq> BACKSLASH then c # quant_auto_json_unescape (n # rest)
      else if n = QUOTE then QUOTE # quant_auto_json_unescape rest
      else if n = BACKSLASH then BACKSLASH # quant_auto_json_unescape rest
      else if n = CHR ''n'' then CHR 0x0A # quant_auto_json_unescape rest
      else if n = CHR ''r'' then CHR 0x0D # quant_auto_json_unescape rest
      else if n = CHR ''t'' then CHR 0x09 # quant_auto_json_unescape rest
      else if n = CHR ''u'' \<and> length rest \<ge> 4 then
        (case hex_code (take 4 rest) 0 of
           Some code \<Rightarrow>
             if code < 0x20 then chr code # quant_auto_json_unescape (drop 4 rest)
             else c # n # quant_auto_json_unescape rest
         | None \<Rightarrow> c # n # quant_auto_json_unescape rest)
      else c # n # quant_auto_json_unescape rest)"
  by pat_completeness auto

termination
  by (relation "measure length") auto

text \<open>The scan of a quoted value: from after the opening quote to the first quote that is not escaped.\<close>

fun scan_quoted :: "string \<Rightarrow> string \<Rightarrow> string option" where
  "scan_quoted [] raw = None"
| "scan_quoted [c] raw = (if c = QUOTE then Some raw else None)"
| "scan_quoted (c # d # rest) raw =
     (if c = BACKSLASH then scan_quoted rest (raw @ [c, d])
      else if c = QUOTE then Some raw
      else scan_quoted (d # rest) (raw @ [c]))"

definition quant_auto_json_string :: "string \<Rightarrow> string \<Rightarrow> string option" where
  "quant_auto_json_string line key =
     (let pat = QUOTE # key @ [QUOTE] in
      case str_find line pat 0 of
        None \<Rightarrow> None
      | Some k \<Rightarrow>
          (case str_find_char line (CHR '':'') (k + length pat) of
             None \<Rightarrow> None
           | Some colon \<Rightarrow>
               (case dropWhile (\<lambda>c. c = CHR '' '' \<or> c = CHR 0x09) (drop (colon + 1) line) of
                  [] \<Rightarrow> None
                | q # rest \<Rightarrow>
                    if q \<noteq> QUOTE then None else map_option quant_auto_json_unescape (scan_quoted rest []))))"

section \<open>The recorded decision\<close>

definition quant_auto_identity :: "string option \<Rightarrow> cache_identity" where
  "quant_auto_identity model_code =
     \<lparr>id_model = (case model_code of Some m \<Rightarrow> m | None \<Rightarrow> []), id_variant = ''quantization'', id_corpus = [],
       id_objective = -1, id_mode = -1\<rparr>"

definition quant_auto_path :: "machine \<Rightarrow> cache_identity \<Rightarrow> string" where
  "quant_auto_path m i =
     get_cache_path m (Some (id_model i)) ''quantization''
       (cache_variant_key (Some (id_variant i)) (id_corpus i) (id_objective i) (id_mode i))"

definition slot_key :: "nat \<Rightarrow> string \<Rightarrow> string" where
  "slot_key i field = ''q'' @ show_nat i @ ''_'' @ field"

definition row_lines :: "('f \<Rightarrow> string) \<Rightarrow> int \<Rightarrow> nat \<Rightarrow> 'f measurement \<Rightarrow> string list" where
  "row_lines show_num n i r =
     [number_line (slot_key i ''quantization'') (show_int (m_quantization r)),
      number_line (slot_key i ''docs_per_sec'') (show_num (docs_per_sec r)),
      number_line (slot_key i ''latency_ms'') (show_num (latency_ms r)),
      field_line (slot_key i ''file_mb'')
        (show_num (file_mb r) @ (if int i + 1 < n \<and> i + 1 < kQuantMaxVariants then '','' else []))]"

definition choice_lines :: "('f \<Rightarrow> string) \<Rightarrow> 'f choice \<Rightarrow> string list" where
  "choice_lines show_num c =
     [number_line ''quantization'' (show_int (c_quantization c)),
      number_line ''num_measured'' (show_int (num_measured c)),
      string_line ''reason'' (quant_auto_json_escape (reason c))] @
     concat (map (\<lambda>i. row_lines show_num (num_measured c) i (measured c ! i))
       [0..<min (nat (num_measured c)) kQuantMaxVariants]) @ [''}'']"

definition choice_text :: "('f \<Rightarrow> string) \<Rightarrow> cache_identity \<Rightarrow> 'f choice \<Rightarrow> string" where
  "choice_text show_num i c =
     opening_brace @ write_cache_identity i @ concat (map (\<lambda>l. l @ newline) (choice_lines show_num c))"

definition quant_auto_save :: "machine \<Rightarrow> write_calls \<Rightarrow> ('f \<Rightarrow> string) \<Rightarrow> cache_identity \<Rightarrow> 'f choice \<Rightarrow> fsys \<Rightarrow> fsys" where
  "quant_auto_save m w show_num i c fs =
     last (fst (write_file_atomic w (quant_auto_path m i) (choice_text show_num i c) fs))"

record 'f load_state =
  l_best :: int
  l_count :: int
  l_fields :: "nat list"
  l_reason :: string
  l_rows :: "'f measurement list"

definition kFieldQuant :: nat where "kFieldQuant = 1"
definition kFieldRate :: nat where "kFieldRate = 2"
definition kFieldLatency :: nat where "kFieldLatency = 4"
definition kFieldSize :: nat where "kFieldSize = 8"
definition kAllFields :: nat where "kAllFields = kFieldQuant OR kFieldRate OR kFieldLatency OR kFieldSize"

definition load_field :: "'f option \<Rightarrow> nat \<Rightarrow> nat \<Rightarrow> ('f \<Rightarrow> 'f measurement \<Rightarrow> 'f measurement) \<Rightarrow>
    'f load_state \<Rightarrow> 'f load_state" where
  "load_field found i flag set_field st =
     (case found of
        None \<Rightarrow> st
      | Some v \<Rightarrow> st\<lparr>l_rows := (l_rows st)[i := set_field v (l_rows st ! i)],
                   l_fields := (l_fields st)[i := (l_fields st ! i) OR flag]\<rparr>)"

definition load_slot :: "(string \<Rightarrow> 'f::floor_ceiling option) \<Rightarrow> string \<Rightarrow> 'f load_state \<Rightarrow> nat \<Rightarrow> 'f load_state" where
  "load_slot stod line st i =
     load_field (json_number stod line (slot_key i ''file_mb'')) i kFieldSize (\<lambda>v r. r\<lparr>file_mb := v\<rparr>)
      (load_field (json_number stod line (slot_key i ''latency_ms'')) i kFieldLatency (\<lambda>v r. r\<lparr>latency_ms := v\<rparr>)
       (load_field (json_number stod line (slot_key i ''quantization'')) i kFieldQuant (\<lambda>v r. r\<lparr>m_quantization := trunc v\<rparr>)
        (load_field (json_number stod line (slot_key i ''docs_per_sec'')) i kFieldRate (\<lambda>v r. r\<lparr>docs_per_sec := v\<rparr>) st)))"

definition load_line :: "(string \<Rightarrow> 'f::floor_ceiling option) \<Rightarrow> 'f load_state \<Rightarrow> string \<Rightarrow> 'f load_state" where
  "load_line stod st line =
     (case json_number_int stod line ''quantization'' of
        Some v \<Rightarrow> st\<lparr>l_best := v\<rparr>
      | None \<Rightarrow>
          (case json_number_int stod line ''num_measured'' of
             Some v \<Rightarrow> st\<lparr>l_count := v\<rparr>
           | None \<Rightarrow>
               (case quant_auto_json_string line ''reason'' of
                  Some r \<Rightarrow> st\<lparr>l_reason := r\<rparr>
                | None \<Rightarrow> foldl (load_slot stod line) st [0..<kQuantMaxVariants])))"

definition load_start :: "'f::zero load_state" where
  "load_start = \<lparr>l_best = -1, l_count = -1, l_fields = replicate kQuantMaxVariants 0, l_reason = [],
     l_rows = replicate kQuantMaxVariants zero_row\<rparr>"

definition load_finish :: "'f::zero load_state \<Rightarrow> 'f choice option" where
  "load_finish st =
     (let complete = length (takeWhile (\<lambda>f. f = kAllFields) (l_fields st)) in
      if l_best st < 0 \<or> complete = 0 \<or> l_count st \<noteq> int complete then None
      else Some \<lparr>c_quantization = l_best st, variant_model = l_best st, num_measured = int complete,
                 from_cache = 1, reason = snprintf_s 192 (l_reason st), measured = l_rows st\<rparr>)"

definition quant_auto_load :: "machine \<Rightarrow> (string \<Rightarrow> 'f::floor_ceiling option) \<Rightarrow> cache_identity \<Rightarrow> fsys \<Rightarrow>
    'f choice option" where
  "quant_auto_load m stod i fs =
     (let path = quant_auto_path m i in
      if \<not> cache_identity_matches stod fs path i then None
      else case map_of fs path of
             None \<Rightarrow> None
           | Some content \<Rightarrow> load_finish (foldl (load_line stod) load_start (getlines content)))"

section \<open>The decision rule\<close>

definition positive_row :: "quantization \<Rightarrow> 'f::linordered_field measurement list \<Rightarrow> 'f measurement \<Rightarrow> bool" where
  "positive_row q rs r \<longleftrightarrow> r \<in> set rs \<and> m_quantization r = quant_code q \<and> 0 < docs_per_sec r"

lemma baselines_spec:
  assumes "baselines rs (b0, d0, h0) = (b, d, h)" and "distinct (map m_quantization rs)"
  shows "(\<forall>r. positive_row Q_NONE rs r \<longrightarrow> b = docs_per_sec r) \<and> ((\<nexists>r. positive_row Q_NONE rs r) \<longrightarrow> b = b0) \<and>
    (\<forall>r. positive_row Q_DYNAMIC rs r \<longrightarrow> d = docs_per_sec r \<and> h) \<and>
    ((\<nexists>r. positive_row Q_DYNAMIC rs r) \<longrightarrow> d = d0 \<and> h = h0)"
  using assms
proof (induction rs arbitrary: b0 d0 h0)
  case Nil
  then show ?case by (simp add: positive_row_def)
next
  case (Cons r rs)
  obtain b1 d1 h1 where s: "(if docs_per_sec r \<le> 0 then (b0, d0, h0)
        else if m_quantization r = quant_code Q_NONE then (docs_per_sec r, d0, h0)
        else if m_quantization r = quant_code Q_DYNAMIC then (b0, docs_per_sec r, True)
        else (b0, d0, h0)) = (b1, d1, h1)" by (metis prod_cases3)
  with Cons.prems(1) have "baselines rs (b1, d1, h1) = (b, d, h)" by simp
  from Cons.IH [OF this] Cons.prems(2) have ih:
    "(\<forall>r. positive_row Q_NONE rs r \<longrightarrow> b = docs_per_sec r) \<and> ((\<nexists>r. positive_row Q_NONE rs r) \<longrightarrow> b = b1) \<and>
    (\<forall>r. positive_row Q_DYNAMIC rs r \<longrightarrow> d = docs_per_sec r \<and> h) \<and>
    ((\<nexists>r. positive_row Q_DYNAMIC rs r) \<longrightarrow> d = d1 \<and> h = h1)" by simp
  have split: "positive_row q (r # rs) x \<longleftrightarrow>
      positive_row q rs x \<or> (x = r \<and> m_quantization r = quant_code q \<and> 0 < docs_per_sec r)" for q x
    by (auto simp: positive_row_def)
  have fresh: "\<not> positive_row q rs x" if "m_quantization r = quant_code q" for q x
    using Cons.prems(2) that by (auto simp: positive_row_def image_iff)
  show ?case
  proof (cases "0 < docs_per_sec r")
    case False
    with s ih show ?thesis unfolding split by auto
  next
    case pos: True
    consider "m_quantization r = quant_code Q_NONE" | "m_quantization r = quant_code Q_DYNAMIC"
      | "m_quantization r \<noteq> quant_code Q_NONE" "m_quantization r \<noteq> quant_code Q_DYNAMIC" by blast
    then show ?thesis
    proof cases
      case 1
      with s pos have "b1 = docs_per_sec r" "d1 = d0" "h1 = h0" by simp_all
      with ih fresh [OF 1] 1 pos show ?thesis unfolding split by auto
    next
      case 2
      with s pos have "b1 = b0" "d1 = docs_per_sec r" "h1 = True" by (simp_all split: if_splits)
      with ih fresh [OF 2] 2 pos show ?thesis unfolding split by auto
    next
      case 3
      with s pos have "b1 = b0" "d1 = d0" "h1 = h0" by simp_all
      with ih 3 show ?thesis unfolding split by auto
    qed
  qed
qed

definition clears_floor :: "'f::linordered_field \<Rightarrow> 'f measurement \<Rightarrow> bool" where
  "clears_floor b r \<longleftrightarrow> m_quantization r \<noteq> quant_code Q_NONE \<and> 0 < docs_per_sec r \<and> kQuantMinGain * b \<le> docs_per_sec r"

lemma best_variant_spec:
  assumes "best_variant b rs (q0, d0) = (q, d)" and "0 < b"
  shows "d0 \<le> d \<and> (\<forall>r \<in> set rs. clears_floor b r \<longrightarrow> docs_per_sec r \<le> d) \<and>
    ((q = q0 \<and> d = d0) \<or> (\<exists>w \<in> set rs. clears_floor b w \<and> d0 < d \<and> q = m_quantization w \<and> d = docs_per_sec w))"
  using assms(1)
proof (induction rs arbitrary: q0 d0)
  case (Cons r rs)
  have gain: "docs_per_sec r / b \<ge> kQuantMinGain \<longleftrightarrow> kQuantMinGain * b \<le> docs_per_sec r"
    using assms(2) by (simp add: pos_le_divide_eq)
  show ?case
  proof (cases "clears_floor b r \<and> docs_per_sec r > d0")
    case True
    with Cons.prems gain have "best_variant b rs (m_quantization r, docs_per_sec r) = (q, d)"
      by (simp add: clears_floor_def)
    from Cons.IH [OF this] True show ?thesis by auto
  next
    case False
    with Cons.prems gain have "best_variant b rs (q0, d0) = (q, d)"
      by (auto simp: clears_floor_def split: if_splits)
    from Cons.IH [OF this] False show ?thesis by auto
  qed
qed simp

lemma floor_above_base: "0 < b \<Longrightarrow> clears_floor b r \<Longrightarrow> b < docs_per_sec r"
  by (auto simp: clears_floor_def kQuantMinGain_def)

section \<open>Escaping\<close>

lemma hex_value_digit: "d < 16 \<Longrightarrow> hex_value (hex_digit d) = Some d"
  by (simp add: hex_value_def byte_hex_digit)

lemma hex_fixed_4:
  "hex_fixed 4 n = [hex_digit (n div 16 div 16 div 16 mod 16), hex_digit (n div 16 div 16 mod 16),
     hex_digit (n div 16 mod 16), hex_digit (n mod 16)]"
proof -
  have four: "(4::nat) = Suc (Suc (Suc (Suc 0)))" by simp
  show ?thesis unfolding four hex_fixed.simps by simp
qed

lemma hex_code_byte:
  assumes "n < 256" shows "hex_code (hex_fixed 4 n) 0 = Some n"
proof -
  have "n div 16 div 16 = 0" "n div 16 mod 16 = n div 16" using assms by simp_all
  then show ?thesis by (simp add: hex_fixed_4 hex_value_digit)
qed

lemma unescape_other: "c \<noteq> BACKSLASH \<Longrightarrow> quant_auto_json_unescape (c # t) = c # quant_auto_json_unescape t"
  by (cases t) simp_all

lemma unescape_char: "quant_auto_json_unescape (json_escape_char c @ t) = c # quant_auto_json_unescape t"
proof -
  have bs: "BACKSLASH \<noteq> QUOTE" "CHR ''n'' \<noteq> QUOTE" "CHR ''n'' \<noteq> BACKSLASH" "CHR ''r'' \<noteq> QUOTE" "CHR ''r'' \<noteq> BACKSLASH"
    "CHR ''t'' \<noteq> QUOTE" "CHR ''t'' \<noteq> BACKSLASH" "CHR ''u'' \<noteq> QUOTE" "CHR ''u'' \<noteq> BACKSLASH"
    by (simp_all add: BACKSLASH_def)
  show ?thesis
  proof (cases "c = QUOTE \<or> c = BACKSLASH \<or> c = CHR 0x0A \<or> c = CHR 0x0D \<or> c = CHR 0x09")
    case True
    then show ?thesis by (elim disjE) (simp_all add: json_escape_char_def BACKSLASH_def)
  next
    case other: False
    show ?thesis
    proof (cases "byte c < 0x20")
      case True
      have "hex_code (take 4 (hex_fixed 4 (byte c) @ t)) 0 = Some (byte c)" using hex_code_byte by simp
      with other True bs show ?thesis by (simp add: json_escape_char_def)
    next
      case False
      with other show ?thesis by (simp add: json_escape_char_def unescape_other)
    qed
  qed
qed

lemma unescape_escape: "quant_auto_json_unescape (quant_auto_json_escape s) = s"
  by (induction s) (simp_all add: quant_auto_json_escape_def unescape_char)

lemma scan_hex: "scan_quoted (hex_fixed 4 n @ u) raw = scan_quoted u (raw @ hex_fixed 4 n)" if "n < 256" and "u \<noteq> []"
proof -
  have dig: "hex_digit d \<noteq> QUOTE \<and> hex_digit d \<noteq> BACKSLASH" if "d < 16" for d
    using byte_hex_digit [OF that] that by (auto simp: BACKSLASH_def byte_def split: if_splits)
  have step: "scan_quoted (hex_digit d # w) r = scan_quoted w (r @ [hex_digit d])" if "d < 16" "w \<noteq> []" for d w r
    using dig [OF that(1)] that(2) by (cases w) simp_all
  have m: "k mod 16 < (16::nat)" for k by simp
  show ?thesis using that(2) by (simp add: hex_fixed_4 step [OF m] del: scan_quoted.simps)
qed

lemma scan_char: "u \<noteq> [] \<Longrightarrow> scan_quoted (json_escape_char c @ u) raw = scan_quoted u (raw @ json_escape_char c)"
proof -
  assume u: "u \<noteq> []"
  have plain: "scan_quoted (c # u) raw = scan_quoted u (raw @ [c])" if "c \<noteq> QUOTE" "c \<noteq> BACKSLASH"
    using u that by (cases u) simp_all
  show ?thesis using plain scan_hex [OF byte_less u, of c "raw @ [BACKSLASH, CHR ''u'']"]
    by (auto simp: json_escape_char_def)
qed

lemma scan_escape: "scan_quoted (quant_auto_json_escape s @ QUOTE # t) raw = Some (raw @ quant_auto_json_escape s)"
proof (induction s arbitrary: raw)
  case Nil
  then show ?case by (cases t) (simp_all add: quant_auto_json_escape_def BACKSLASH_def)
next
  case (Cons c s)
  have "scan_quoted (json_escape_char c @ (quant_auto_json_escape s @ QUOTE # t)) raw =
      scan_quoted (quant_auto_json_escape s @ QUOTE # t) (raw @ json_escape_char c)"
    by (rule scan_char) simp
  with Cons.IH [of "raw @ json_escape_char c"] show ?case by (simp add: quant_auto_json_escape_def)
qed

lemma quant_string_value:
  "quant_auto_json_string line key =
     (case json_value line key of
        None \<Rightarrow> None
      | Some v \<Rightarrow>
          (case dropWhile (\<lambda>c. c = CHR '' '' \<or> c = CHR 0x09) v of
             [] \<Rightarrow> None
           | q # rest \<Rightarrow> if q \<noteq> QUOTE then None else map_option quant_auto_json_unescape (scan_quoted rest [])))"
proof (cases "find_sub (QUOTE # key @ [QUOTE]) line")
  case None
  then show ?thesis by (simp add: quant_auto_json_string_def json_value_def str_find_def)
next
  case (Some p)
  show ?thesis
  proof (cases "find_char (CHR '':'') (drop (p + length key + 2) line)")
    case None
    with Some show ?thesis
      by (simp add: quant_auto_json_string_def json_value_def str_find_def str_find_char_def Let_def add.assoc
          del: find_char_None)
  next
    case (Some c)
    then have "drop (p + (length key + 2) + c + 1) line = drop (c + 1) (drop (p + length key + 2) line)"
      by (simp add: ac_simps)
    with Some \<open>find_sub _ line = Some p\<close> show ?thesis
      by (simp add: quant_auto_json_string_def json_value_def str_find_def str_find_char_def Let_def ac_simps)
  qed
qed

lemma json_value_key:
  assumes "quote_free k"
  shows "json_value (''  '' @ QUOTE # k @ QUOTE # '': '' @ rest) k = Some ('' '' @ rest)"
proof -
  have "find_sub (QUOTE # k @ [QUOTE]) (''  '' @ QUOTE # k @ QUOTE # '': '' @ rest) = Some 2"
    using find_key_skip [of "''  ''" "k @ [QUOTE]" "k @ QUOTE # '': '' @ rest"]
      find_sub_prefix [of "QUOTE # k @ [QUOTE]" "'': '' @ rest"] by simp
  then show ?thesis by (simp add: json_value_def)
qed

lemma reason_line: "quant_auto_json_string (string_line ''reason'' (quant_auto_json_escape r)) ''reason'' = Some r"
proof -
  have "json_value (string_line ''reason'' (quant_auto_json_escape r)) ''reason'' =
      Some ('' '' @ QUOTE # quant_auto_json_escape r @ QUOTE # '','')"
    using json_value_key [of "''reason''" "QUOTE # quant_auto_json_escape r @ QUOTE # '',''"]
    by (simp add: string_line_def)
  then show ?thesis
    using scan_escape [of r "'',''" "[]"] by (simp add: quant_string_value unescape_escape)
qed

section \<open>Loading what was saved\<close>

definition prints_exactly :: "(string \<Rightarrow> 'f option) \<Rightarrow> ('f \<Rightarrow> string) \<Rightarrow> 'f \<Rightarrow> bool" where
  "prints_exactly stod show_num x \<longleftrightarrow>
     stod (show_num x) = Some x \<and> show_num x \<noteq> [] \<and> plain (show_num x) \<and> (\<forall>c \<in> set (show_num x). \<not> is_trimmed c)"

definition prints_row :: "(string \<Rightarrow> 'f option) \<Rightarrow> ('f \<Rightarrow> string) \<Rightarrow> 'f measurement \<Rightarrow> bool" where
  "prints_row stod show_num r \<longleftrightarrow>
     prints_exactly stod show_num (docs_per_sec r) \<and> prints_exactly stod show_num (latency_ms r) \<and>
     prints_exactly stod show_num (file_mb r)"

lemma show_nat_small: "show_nat 0 = ''0''" "show_nat (Suc 0) = ''1''" "show_nat 2 = ''2''" "show_nat 3 = ''3''"
  by code_simp+

lemma upt4: "[0..<kQuantMaxVariants] = [0, Suc 0, 2, 3]"
  by (simp add: kQuantMaxVariants_def upt_rec numeral_eq_Suc)

lemma quant_string_free: "quote_free rest \<Longrightarrow> key \<noteq> k \<Longrightarrow> quote_free key \<Longrightarrow> quote_free k \<Longrightarrow>
    quant_auto_json_string (field_line k rest) key = None"
  by (simp add: quant_string_value json_value_field)

lemma quant_string_other:
  "quote_free key \<Longrightarrow> quote_free k \<Longrightarrow> quote_free v \<Longrightarrow> key \<noteq> '': '' \<Longrightarrow> key \<noteq> k \<Longrightarrow>
     quant_auto_json_string (string_line k v) key = None"
  by (simp add: quant_string_value json_value_string)

lemma json_number_int_field:
  assumes "\<And>j. stod (show_int j) = Some (of_int j :: 'f::floor_ceiling)"
    and "quote_free key" and "INT_MIN \<le> v" and "v \<le> INT_MAX"
  shows "json_number_int stod (number_line key (show_int v)) key = Some v"
proof -
  have "json_number stod (number_line key (show_int v)) key = Some (of_int v)"
    using assms(1,2) show_int_plain [of v] by (simp add: number_line_def json_number_lines)
  then show ?thesis using assms(3,4) by (simp add: json_number_int_def trunc_def)
qed

lemma json_number_int_None: "json_number stod line key = None \<Longrightarrow> json_number_int stod line key = None"
  by (simp add: json_number_int_def)

text \<open>A line whose keys the loader does not know leaves the state alone.\<close>

definition loader_keys :: "string list" where
  "loader_keys = [''quantization'', ''num_measured'', ''reason''] @
     concat (map (\<lambda>i. map (slot_key i) [''docs_per_sec'', ''quantization'', ''latency_ms'', ''file_mb'']) [0, Suc 0, 2, 3])"

lemma loader_keys_plain: "\<forall>k \<in> set loader_keys. quote_free k \<and> k \<noteq> '': ''"
  by (simp add: loader_keys_def slot_key_def show_nat_small)

lemma load_line_ignored:
  assumes "\<And>k. k \<in> set loader_keys \<Longrightarrow> json_value line k = None"
  shows "load_line stod st line = st"
  using assms
  by (simp add: loader_keys_def load_line_def json_number_int_def json_number_value quant_string_value upt4
      load_slot_def load_field_def)

lemma load_identity: "plain_identity i \<Longrightarrow> foldl (load_line stod) st (identity_lines i) = st"
proof -
  assume p: "plain_identity i"
  have s: "load_line stod st (string_line k v) = st" if "k \<notin> set loader_keys" "quote_free k" "quote_free v" for st k v
    using that loader_keys_plain by (intro load_line_ignored) (metis json_value_string)
  have n: "load_line stod st (field_line k v) = st" if "k \<notin> set loader_keys" "quote_free k" "quote_free v" for st k v
    using that loader_keys_plain by (intro load_line_ignored) (metis json_value_field)
  have keys: "k \<notin> set loader_keys" if "k \<in> {''model'', ''variant'', ''corpus'', ''objective'', ''mode''}" for k
    using that by (auto simp: loader_keys_def slot_key_def show_nat_small)
  show ?thesis
    using p by (simp add: identity_lines_def number_line_def plain_identity_def plain_def s n keys show_int_plain)
qed

lemma load_braces: "load_line stod st ''{'' = st" "load_line stod st ''}'' = st"
  by (rule load_line_ignored; simp)+

lemma slot_line_field:
  assumes "i < 4" and "quote_free v" and "v \<noteq> []" and "\<forall>c \<in> set v. \<not> is_trimmed c" and "rest = v \<or> rest = v @ '',''"
  shows "load_line stod st (field_line (slot_key i ''quantization'') rest) =
      load_field (stod v) i kFieldQuant (\<lambda>v r. r\<lparr>m_quantization := trunc v\<rparr>) st"
    "load_line stod st (field_line (slot_key i ''docs_per_sec'') rest) =
      load_field (stod v) i kFieldRate (\<lambda>v r. r\<lparr>docs_per_sec := v\<rparr>) st"
    "load_line stod st (field_line (slot_key i ''latency_ms'') rest) =
      load_field (stod v) i kFieldLatency (\<lambda>v r. r\<lparr>latency_ms := v\<rparr>) st"
    "load_line stod st (field_line (slot_key i ''file_mb'') rest) =
      load_field (stod v) i kFieldSize (\<lambda>v r. r\<lparr>file_mb := v\<rparr>) st"
proof -
  have i: "i = 0 \<or> i = Suc 0 \<or> i = 2 \<or> i = 3" using assms(1) by auto
  have qr: "quote_free rest" using assms(2,5) by auto
  have num: "json_number stod (field_line k rest) key = (if key = k then stod v else None)"
    if "quote_free key" "quote_free k" for key k
    by (rule json_number_line [OF that assms(2,3,4,5)])
  have nint: "json_number_int stod (field_line k rest) key = None" if "quote_free key" "quote_free k" "key \<noteq> k" for key k
    using num [OF that(1,2)] that(3) by (simp add: json_number_int_def)
  have none: "load_field None j b u s = s" for j b u and s :: "'a load_state" by (simp add: load_field_def)
  note rules = load_line_def upt4 load_slot_def slot_key_def show_nat_small num nint quant_string_free [OF qr] none
  from i show "load_line stod st (field_line (slot_key i ''quantization'') rest) =
      load_field (stod v) i kFieldQuant (\<lambda>v r. r\<lparr>m_quantization := trunc v\<rparr>) st"
    by (elim disjE) (simp_all add: rules)
  from i show "load_line stod st (field_line (slot_key i ''docs_per_sec'') rest) =
      load_field (stod v) i kFieldRate (\<lambda>v r. r\<lparr>docs_per_sec := v\<rparr>) st"
    by (elim disjE) (simp_all add: rules)
  from i show "load_line stod st (field_line (slot_key i ''latency_ms'') rest) =
      load_field (stod v) i kFieldLatency (\<lambda>v r. r\<lparr>latency_ms := v\<rparr>) st"
    by (elim disjE) (simp_all add: rules)
  from i show "load_line stod st (field_line (slot_key i ''file_mb'') rest) =
      load_field (stod v) i kFieldSize (\<lambda>v r. r\<lparr>file_mb := v\<rparr>) st"
    by (elim disjE) (simp_all add: rules)
qed

lemma all_fields: "kAllFields = 15" "(((0 OR kFieldQuant) OR kFieldRate) OR kFieldLatency) OR kFieldSize = kAllFields"
  by (simp_all add: kAllFields_def kFieldQuant_def kFieldRate_def kFieldLatency_def kFieldSize_def)

lemma foldl_slot:
  assumes "i < 4" and "\<And>j. stod (show_int j) = Some (of_int j :: 'f::floor_ceiling)"
    and "prints_row stod show_num r" and "i < length (l_rows st)" and "i < length (l_fields st)" and "l_fields st ! i = 0"
  shows "foldl (load_line stod) st (row_lines show_num n i r) =
    st\<lparr>l_rows := (l_rows st)[i := r], l_fields := (l_fields st)[i := kAllFields]\<rparr>"
proof -
  have num: "stod (show_num x) = Some x" "quote_free (show_num x)" "show_num x \<noteq> []" "\<forall>c \<in> set (show_num x). \<not> is_trimmed c"
    if "x \<in> {docs_per_sec r, latency_ms r, file_mb r}" for x
    using assms(3) that by (auto simp: prints_row_def prints_exactly_def plain_def)
  have q: "load_line stod s (number_line (slot_key i ''quantization'') (show_int (m_quantization r))) =
      load_field (Some (of_int (m_quantization r))) i kFieldQuant (\<lambda>v r. r\<lparr>m_quantization := trunc v\<rparr>) s" for s
    using slot_line_field(1) [OF assms(1) show_int_plain(1) show_int_nonempty show_int_plain(2) disjI2 [OF refl], where stod = stod] assms(2)
    by (simp add: number_line_def)
  have d: "load_line stod s (number_line (slot_key i ''docs_per_sec'') (show_num (docs_per_sec r))) =
      load_field (Some (docs_per_sec r)) i kFieldRate (\<lambda>v r. r\<lparr>docs_per_sec := v\<rparr>) s" for s
    using slot_line_field(2) [OF assms(1) num(2,3,4) disjI2 [OF refl], of "docs_per_sec r" stod] num(1) [of "docs_per_sec r"]
    by (simp add: number_line_def)
  have l: "load_line stod s (number_line (slot_key i ''latency_ms'') (show_num (latency_ms r))) =
      load_field (Some (latency_ms r)) i kFieldLatency (\<lambda>v r. r\<lparr>latency_ms := v\<rparr>) s" for s
    using slot_line_field(3) [OF assms(1) num(2,3,4) disjI2 [OF refl], of "latency_ms r" stod] num(1) [of "latency_ms r"]
    by (simp add: number_line_def)
  have f: "load_line stod s (field_line (slot_key i ''file_mb'') rest) =
      load_field (Some (file_mb r)) i kFieldSize (\<lambda>v r. r\<lparr>file_mb := v\<rparr>) s"
    if "rest = show_num (file_mb r) \<or> rest = show_num (file_mb r) @ '',''" for s rest
    using slot_line_field(4) [OF assms(1) num(2,3,4) that, of stod] num(1) [of "file_mb r"] by simp
  have u: "x\<lparr>m_quantization := m_quantization r, docs_per_sec := docs_per_sec r, latency_ms := latency_ms r,
      file_mb := file_mb r\<rparr> = r" for x :: "'f measurement"
    by (rule measurement.equality) simp_all
  have t: "trunc (of_int (m_quantization r) :: 'f) = m_quantization r" by (simp add: trunc_def)
  obtain rs fs where s: "l_rows st = rs" "l_fields st = fs" by simp
  show ?thesis
    unfolding row_lines_def
    using assms(4-6) all_fields(2) t
    by (simp add: q d l f u load_field_def s or.assoc)
qed

lemma foldl_slots:
  assumes "\<And>j. stod (show_int j) = Some (of_int j :: 'f::floor_ceiling)"
    and "\<forall>r \<in> set rs. prints_row stod show_num r" and "length rs = 4" and "m \<le> 4"
    and "l_rows st = replicate 4 zero_row" and "l_fields st = replicate 4 0"
  shows "foldl (load_line stod) st (concat (map (\<lambda>i. row_lines show_num n i (rs ! i)) [0..<m])) =
    st\<lparr>l_rows := take m rs @ replicate (4 - m) zero_row, l_fields := replicate m kAllFields @ replicate (4 - m) 0\<rparr>"
  using assms(4)
proof (induction m)
  case 0
  from assms(5,6) show ?case by (cases st) simp
next
  case (Suc m)
  have upd: "(xs @ replicate (4 - m) z)[m := x] = (xs @ [x]) @ replicate (4 - Suc m) z"
    if "length xs = m" for xs :: "'b list" and x z
  proof -
    have "4 - m = Suc (4 - Suc m)" using Suc.prems by simp
    then show ?thesis using that by (simp add: list_update_append del: diff_Suc_Suc)
  qed
  let ?st = "st\<lparr>l_rows := take m rs @ replicate (4 - m) zero_row, l_fields := replicate m kAllFields @ replicate (4 - m) 0\<rparr>"
  have "foldl (load_line stod) ?st (row_lines show_num n m (rs ! m)) =
      ?st\<lparr>l_rows := (l_rows ?st)[m := rs ! m], l_fields := (l_fields ?st)[m := kAllFields]\<rparr>"
    using Suc.prems assms(2,3) by (intro foldl_slot [OF _ assms(1)]) (simp_all add: nth_append)
  moreover have "take m rs @ [rs ! m] = take (Suc m) rs" using Suc.prems assms(3) by (simp add: take_Suc_conv_app_nth)
  moreover have "replicate m kAllFields @ [kAllFields] = replicate (Suc m) kAllFields" by (simp add: replicate_append_same)
  ultimately show ?case using Suc assms(3) upd [of "take m rs" zero_row "rs ! m"] upd [of "replicate m kAllFields" 0 kAllFields]
    by simp
qed

definition saveable :: "(string \<Rightarrow> 'f option) \<Rightarrow> ('f \<Rightarrow> string) \<Rightarrow> 'f choice \<Rightarrow> bool" where
  "saveable stod show_num c \<longleftrightarrow>
     0 \<le> c_quantization c \<and> c_quantization c \<le> INT_MAX \<and> 1 \<le> num_measured c \<and> num_measured c \<le> 4 \<and>
     length (measured c) = 4 \<and> (\<forall>r \<in> set (measured c). prints_row stod show_num r) \<and>
     plain (reason c) \<and> quant_auto_json_escape (reason c) = reason c \<and> snprintf_s 192 (reason c) = reason c"

lemma newline_free_choice:
  assumes "saveable stod show_num c" shows "\<forall>l \<in> set (choice_lines show_num c). CHR 0x0A \<notin> set l"
proof -
  have key: "CHR 0x0A \<notin> set (slot_key i f)" if "CHR 0x0A \<notin> set f" for i f
    using that show_nat_digits [of "CHR 0x0A" i] by (auto simp: slot_key_def byte_def)
  have row: "\<forall>l \<in> set (row_lines show_num n i r). CHR 0x0A \<notin> set l" if "prints_row stod show_num r" for n i r
    using that show_int_plain(3) key
    by (simp add: row_lines_def number_line_def field_line_def prints_row_def prints_exactly_def plain_def)
  have rows: "\<forall>i < 4. prints_row stod show_num (measured c ! i)" using assms by (simp add: saveable_def)
  have "CHR 0x0A \<notin> set l"
    if "l \<in> set (concat (map (\<lambda>i. row_lines show_num n i (measured c ! i)) [0..<min k kQuantMaxVariants]))" for l n k
  proof -
    from that obtain i where "i < 4" "l \<in> set (row_lines show_num n i (measured c ! i))"
      by (auto simp: kQuantMaxVariants_def)
    with rows row show ?thesis by blast
  qed
  with assms show_int_plain(3) show ?thesis
    unfolding choice_lines_def set_append ball_Un
    by (simp add: saveable_def number_line_def field_line_def string_line_def plain_def)
qed

lemma load_choice_lines:
  assumes "saveable stod show_num c" and "\<And>j. stod (show_int j) = Some (of_int j :: 'f::floor_ceiling)"
  shows "foldl (load_line stod) load_start (choice_lines show_num c) =
    \<lparr>l_best = c_quantization c, l_count = num_measured c,
     l_fields = replicate (nat (num_measured c)) kAllFields @ replicate (4 - nat (num_measured c)) 0,
     l_reason = reason c, l_rows = take (nat (num_measured c)) (measured c) @ replicate (4 - nat (num_measured c)) zero_row\<rparr>"
proof -
  have q: "load_line stod st (number_line ''quantization'' (show_int (c_quantization c))) = st\<lparr>l_best := c_quantization c\<rparr>" for st
    using json_number_int_field [OF assms(2), of "''quantization''" "c_quantization c"] assms(1)
    by (simp add: load_line_def saveable_def INT_MIN_def)
  have n1: "json_number_int stod (number_line ''num_measured'' (show_int (num_measured c))) ''quantization'' = None"
    using show_int_plain [of "num_measured c"] by (simp add: json_number_int_def number_line_def json_number_lines)
  have n: "load_line stod st (number_line ''num_measured'' (show_int (num_measured c))) = st\<lparr>l_count := num_measured c\<rparr>" for st
    using json_number_int_field [OF assms(2), of "''num_measured''" "num_measured c"] assms(1) n1
    by (simp add: load_line_def saveable_def INT_MIN_def INT_MAX_def)
  have r: "load_line stod st (string_line ''reason'' (quant_auto_json_escape (reason c))) = st\<lparr>l_reason := reason c\<rparr>" for st
    using reason_line [of "reason c"] assms(1)
    by (simp add: load_line_def saveable_def plain_def json_number_int_def json_number_string_line)
  have m: "min (nat (num_measured c)) kQuantMaxVariants = nat (num_measured c)" "nat (num_measured c) \<le> 4"
    using assms(1) by (auto simp: saveable_def kQuantMaxVariants_def)
  let ?st = "load_start\<lparr>l_best := c_quantization c, l_count := num_measured c, l_reason := reason c\<rparr>"
  have "foldl (load_line stod) ?st (concat (map (\<lambda>i. row_lines show_num (num_measured c) i (measured c ! i))
        [0..<nat (num_measured c)])) =
      ?st\<lparr>l_rows := take (nat (num_measured c)) (measured c) @ replicate (4 - nat (num_measured c)) zero_row,
         l_fields := replicate (nat (num_measured c)) kAllFields @ replicate (4 - nat (num_measured c)) 0\<rparr>"
    using assms(1) m by (intro foldl_slots [OF assms(2)]) (simp_all add: saveable_def load_start_def kQuantMaxVariants_def)
  then show ?thesis
    by (simp add: choice_lines_def q n r m load_braces load_start_def)
qed

lemma load_finish_choice:
  assumes "saveable stod show_num c"
  shows "load_finish \<lparr>l_best = c_quantization c, l_count = num_measured c,
     l_fields = replicate (nat (num_measured c)) kAllFields @ replicate (4 - nat (num_measured c)) 0,
     l_reason = reason c, l_rows = rs\<rparr> =
   Some \<lparr>c_quantization = c_quantization c, variant_model = c_quantization c, num_measured = num_measured c,
     from_cache = 1, reason = reason c, measured = rs\<rparr>"
proof -
  have "takeWhile (\<lambda>f. f = kAllFields) (replicate n kAllFields @ replicate k 0) = replicate n kAllFields" for n k
    by (induction n) (cases k; simp add: all_fields(1))+
  with assms show ?thesis by (auto simp: load_finish_def Let_def saveable_def)
qed

section \<open>Properties\<close>

text \<open>C40. The decision rule. Without a positive FP32 row the answer is FP32. Otherwise, if no quantized
  variant reaches the FP32 rate times the minimum gain, it is FP32; else it is the fastest variant that
  does, except that dynamic INT8 is preferred whenever the fastest is less than the preference ratio above
  it. The preference does not ask that dynamic INT8 itself reaches the floor, so it can be chosen although
  it is slower than FP32, as the witness shows.\<close>

theorem pick_correct:
  assumes "distinct (map m_quantization (rows c))"
  shows "((\<nexists>b. positive_row Q_NONE (rows c) b) \<longrightarrow> quant_auto_pick c = quant_code Q_NONE) \<and>
    (\<forall>b. positive_row Q_NONE (rows c) b \<longrightarrow>
      (if \<exists>r \<in> set (rows c). clears_floor (docs_per_sec b) r
       then \<exists>w \<in> set (rows c). clears_floor (docs_per_sec b) w \<and>
              (\<forall>r \<in> set (rows c). clears_floor (docs_per_sec b) r \<longrightarrow> docs_per_sec r \<le> docs_per_sec w) \<and>
              quant_auto_pick c =
                (if m_quantization w \<noteq> quant_code Q_DYNAMIC \<and>
                    (\<exists>d. positive_row Q_DYNAMIC (rows c) d \<and>
                       docs_per_sec w < kQuantDynamicPreference * docs_per_sec d)
                 then quant_code Q_DYNAMIC else m_quantization w)
       else quant_auto_pick c = quant_code Q_NONE))"
proof -
  obtain b0 d0 h0 where base: "baselines (rows c) (0, 0, False) = (b0, d0, h0)" by (metis prod_cases3)
  note bs = baselines_spec [OF base assms]
  show ?thesis
  proof (intro conjI impI allI)
    assume "\<nexists>b. positive_row Q_NONE (rows c) b"
    with bs base show "quant_auto_pick c = quant_code Q_NONE" by (auto simp: quant_auto_pick_def)
  next
    fix b assume b: "positive_row Q_NONE (rows c) b"
    with bs have b0: "b0 = docs_per_sec b" and pos: "0 < docs_per_sec b" by (auto simp: positive_row_def)
    obtain q d where best: "best_variant b0 (rows c) (quant_code Q_NONE, b0) = (q, d)" by fastforce
    note bv = best_variant_spec [OF best pos [folded b0]]
    have dyn: "h0 \<and> d / d0 < kQuantDynamicPreference \<longleftrightarrow>
        (\<exists>x. positive_row Q_DYNAMIC (rows c) x \<and> d < kQuantDynamicPreference * docs_per_sec x)"
    proof (cases "\<exists>x. positive_row Q_DYNAMIC (rows c) x")
      case True
      then obtain x where x: "positive_row Q_DYNAMIC (rows c) x" by blast
      then have pos: "0 < docs_per_sec x" by (simp add: positive_row_def)
      have u: "docs_per_sec y = d0" if "positive_row Q_DYNAMIC (rows c) y" for y using bs that by auto
      from u [OF x] pos have "d / d0 < kQuantDynamicPreference \<longleftrightarrow> d < kQuantDynamicPreference * d0"
        by (simp add: pos_divide_less_eq)
      moreover have h0 using bs x by blast
      ultimately show ?thesis using x u by metis
    next
      case False
      with bs show ?thesis by auto
    qed
    show "if \<exists>r \<in> set (rows c). clears_floor (docs_per_sec b) r
       then \<exists>w \<in> set (rows c). clears_floor (docs_per_sec b) w \<and>
              (\<forall>r \<in> set (rows c). clears_floor (docs_per_sec b) r \<longrightarrow> docs_per_sec r \<le> docs_per_sec w) \<and>
              quant_auto_pick c =
                (if m_quantization w \<noteq> quant_code Q_DYNAMIC \<and>
                    (\<exists>d. positive_row Q_DYNAMIC (rows c) d \<and>
                       docs_per_sec w < kQuantDynamicPreference * docs_per_sec d)
                 then quant_code Q_DYNAMIC else m_quantization w)
       else quant_auto_pick c = quant_code Q_NONE"
    proof (cases "\<exists>r \<in> set (rows c). clears_floor (docs_per_sec b) r")
      case True
      then have "b0 < d" using bv floor_above_base [OF pos] b0 by (metis less_le_trans)
      with bv obtain w where w: "w \<in> set (rows c)" "clears_floor b0 w" "q = m_quantization w" "d = docs_per_sec w"
        by auto
      then have ne: "q \<noteq> quant_code Q_NONE" by (simp add: clears_floor_def)
      have "quant_auto_pick c =
          (if m_quantization w \<noteq> quant_code Q_DYNAMIC \<and>
              (\<exists>d. positive_row Q_DYNAMIC (rows c) d \<and> docs_per_sec w < kQuantDynamicPreference * docs_per_sec d)
           then quant_code Q_DYNAMIC else m_quantization w)"
        using base best ne dyn w(3,4) pos b0 by (auto simp: quant_auto_pick_def)
      with True w bv show ?thesis by (auto simp: b0 intro!: bexI [of _ w])
    next
      case False
      with bv b0 have "q = quant_code Q_NONE" by auto
      with False base best pos b0 show ?thesis by (auto simp: quant_auto_pick_def)
    qed
  qed
qed

definition sample_row :: "quantization \<Rightarrow> rat \<Rightarrow> rat measurement" where
  "sample_row q d = \<lparr>m_quantization = quant_code q, docs_per_sec = d, latency_ms = 1, file_mb = 1\<rparr>"

definition sample_table :: "rat choice" where
  "sample_table = zero_choice\<lparr>num_measured := 3,
     measured := [sample_row Q_NONE 100, sample_row Q_DYNAMIC 95, sample_row Q_FP16 106, zero_row]\<rparr>"

lemma sample_table_rows:
  "rows sample_table = [sample_row Q_NONE 100, sample_row Q_DYNAMIC 95, sample_row Q_FP16 106]"
  by (simp add: rows_def sample_table_def zero_choice_def kQuantMaxVariants_def)

theorem pick_correct_witness: "quant_auto_pick sample_table = quant_code Q_DYNAMIC \<and> (95::rat) < 100"
proof -
  have d: "distinct (map m_quantization (rows sample_table))"
    by (simp add: sample_table_rows sample_row_def)
  have base: "positive_row Q_NONE (rows sample_table) (sample_row Q_NONE 100)"
    by (simp add: positive_row_def sample_table_rows sample_row_def)
  have floor: "clears_floor 100 r \<longleftrightarrow> r = sample_row Q_FP16 106" if "r \<in> set (rows sample_table)" for r
    using that by (auto simp: sample_table_rows clears_floor_def sample_row_def kQuantMinGain_def)
  have dyn: "positive_row Q_DYNAMIC (rows sample_table) (sample_row Q_DYNAMIC 95)"
    by (simp add: positive_row_def sample_table_rows sample_row_def)
  have "sample_row Q_FP16 106 \<in> set (rows sample_table)" by (simp add: sample_table_rows)
  with conjunct2 [OF pick_correct [OF d], rule_format, OF base] floor dyn
  have "quant_auto_pick sample_table = quant_code Q_DYNAMIC"
    by (fastforce simp: sample_row_def kQuantDynamicPreference_def)
  then show ?thesis by simp
qed

text \<open>Escaping is undone by unescaping for every byte string, and a reason written as a line of the
  file is read back from that line, whatever quotes, backslashes or control bytes it holds.\<close>

theorem reason_roundtrip:
  "quant_auto_json_unescape (quant_auto_json_escape s) = s \<and>
   quant_auto_json_string (string_line ''reason'' (quant_auto_json_escape s)) ''reason'' = Some s"
  using unescape_escape reason_line by blast

text \<open>C36. A recorded decision is read back as it was saved: the same winner, the same measured rows and the
  same reason, marked as coming from the cache. It holds for numbers that printing and parsing preserve,
  a reason without bytes to escape, and a write that succeeds; another identity whose hash gives the same
  file is refused.\<close>

theorem decision_roundtrip:
  assumes "saveable stod show_num c" and "plain_identity i"
    and "\<And>j. stod (show_int j) = Some (of_int j :: 'f::floor_ceiling)"
    and "open_ok w" and "flush_ok w" and "rename_ok w \<or> retry_ok w"
  shows "quant_auto_load m stod i (quant_auto_save m w show_num i c fs) =
      Some (c\<lparr>variant_model := c_quantization c, from_cache := 1,
              measured := take (nat (num_measured c)) (measured c) @ replicate (4 - nat (num_measured c)) zero_row\<rparr>) \<and>
    (quant_auto_path m j = quant_auto_path m i \<longrightarrow> j \<noteq> i \<longrightarrow>
      quant_auto_load m stod j (quant_auto_save m w show_num i c fs) = None)"
proof -
  let ?fs = "quant_auto_save m w show_num i c fs"
  have saved: "map_of ?fs (quant_auto_path m i) = Some (choice_text show_num i c)"
    unfolding quant_auto_save_def by (rule write_succeeds [OF assms(4-6)])
  note ident = identity_in_file [OF assms(2,3), of ?fs "quant_auto_path m i" "concat (map (\<lambda>l. l @ newline) (choice_lines show_num c))"]
  have match: "cache_identity_matches stod ?fs (quant_auto_path m i) want \<longleftrightarrow> want = i" for want
    by (rule ident) (simp add: saved choice_text_def)
  have "getlines (choice_text show_num i c) = [''{''] @ identity_lines i @ choice_lines show_num c"
    using getlines_lines [OF newline_free_choice [OF assms(1)], of "[]"]
      getlines_lines [OF newline_free_lines [OF assms(2)]] getlines_line [of "''{''"]
    by (simp add: choice_text_def opening_brace_def write_cache_identity_def getlines.simps [of "[]"])
  then have "foldl (load_line stod) load_start (getlines (choice_text show_num i c)) =
      foldl (load_line stod) load_start (choice_lines show_num c)"
    by (simp add: load_braces load_identity [OF assms(2)])
  moreover have "\<lparr>c_quantization = c_quantization c, variant_model = c_quantization c, num_measured = num_measured c,
      from_cache = 1, reason = reason c, measured = rs\<rparr> =
    c\<lparr>variant_model := c_quantization c, from_cache := 1, measured := rs\<rparr>" for rs
    by (rule choice.equality) simp_all
  ultimately show ?thesis
    using match saved load_finish_choice [OF assms(1), of "take (nat (num_measured c)) (measured c) @
      replicate (4 - nat (num_measured c)) zero_row"] load_choice_lines [OF assms(1,3)]
    by (simp add: quant_auto_load_def)
qed

definition sample_print :: "rat \<Rightarrow> string" where "sample_print x = show_int (floor x)"

lemma sample_prints: "prints_exactly sample_stod sample_print (of_int n)"
  using show_int_plain [of n] by (simp add: prints_exactly_def sample_print_def plain_def sample_stod_show)

lemma sample_prints_numeral:
  "prints_exactly sample_stod sample_print 0" "prints_exactly sample_stod sample_print 1"
  "prints_exactly sample_stod sample_print (numeral k)"
  using sample_prints [of 0] sample_prints [of 1] sample_prints [of "numeral k"] by simp_all

definition sample_saved :: "rat choice" where
  "sample_saved = sample_table\<lparr>c_quantization := 2, reason := ''1.06x''\<rparr>"

lemma sample_saveable: "saveable sample_stod sample_print sample_saved"
  by (simp add: saveable_def sample_saved_def sample_table_def zero_choice_def sample_row_def zero_row_def INT_MAX_def
      prints_row_def sample_prints_numeral plain_def)
     (simp add: quant_auto_json_escape_def json_escape_char_def BACKSLASH_def byte_def snprintf_s_def c_str_def)

definition sample_machine :: machine where
  "sample_machine = \<lparr>home_dir = Some ''/h'', brand = ''cpu'', logical_cores = 8, physical_cores = 4, ort_major = 1,
     ort_minor = 20\<rparr>"

theorem decision_roundtrip_witness:
  "map_option num_measured (quant_auto_load sample_machine sample_stod (quant_auto_identity (Some ''org/m''))
     (quant_auto_save sample_machine all_calls_ok sample_print (quant_auto_identity (Some ''org/m'')) sample_saved [])) = Some 3"
proof -
  have "plain_identity (quant_auto_identity (Some ''org/m''))"
    by (simp add: plain_identity_def plain_def quant_auto_identity_def)
  from decision_roundtrip [OF sample_saveable this sample_stod_show, of all_calls_ok sample_machine "[]"] show ?thesis
    by (simp add: all_calls_ok_def sample_saved_def sample_table_def)
qed

end
