(* ===== verification/QuantSelect.thy ===== *)
theory QuantSelect
  imports QuantAuto Registry
begin

text \<open>The entry point of the quantization choice (\<open>detail/quantization_auto_entry.hpp\<close>): the cache first,
  then a probe of the variants that are on disk, a measurement of the survivors, the decision and its
  record. The sessions are an environment that says which variants open, what their calls return and
  how long they take.\<close>

section \<open>Variants of a model\<close>

definition kQuantOrder :: "int list" where
  "kQuantOrder = [quant_code Q_DYNAMIC, quant_code Q_FP16, quant_code Q_STATIC]"

fun collect_loop :: "string \<Rightarrow> int \<Rightarrow> nat \<Rightarrow> int list \<Rightarrow> int list \<Rightarrow> int list" where
  "collect_loop name baseline max_out [] out = out"
| "collect_loop name baseline max_out (q # qs) out =
     (if length out \<ge> max_out then out
      else
        let v = fst (lembed_find_text_model_variant (Some name) q) in
        if v < 0 \<or> v = baseline then collect_loop name baseline max_out qs out
        else collect_loop name baseline max_out qs (out @ [v]))"

definition quant_auto_collect_variants :: "int \<Rightarrow> nat \<Rightarrow> int list" where
  "quant_auto_collect_variants model max_out =
     (if max_out = 0 then []
      else case lembed_get_text_model_info model True of
        (OK, Some info) \<Rightarrow>
          let none = fst (lembed_find_text_model_variant (Some (model_name info)) (quant_code Q_NONE));
              baseline = (if none \<ge> 0 then none else model)
          in collect_loop (model_name info) baseline max_out kQuantOrder [baseline]
      | _ \<Rightarrow> [])"

section \<open>The corpus\<close>

definition corpus_words :: "string list" where
  "corpus_words =
    [''the'', ''quick'', ''brown'', ''fox'', ''jumps'', ''over'', ''lazy'', ''dog'',
     ''machine'', ''learning'', ''algorithms'', ''process'', ''data'', ''efficiently'',
     ''natural'', ''language'', ''processing'', ''enables'', ''understanding'', ''semantic'',
     ''embeddings'', ''represent'', ''meaningful'', ''vector'', ''representations'',
     ''transformer'', ''models'', ''utilize'', ''attention'', ''mechanisms'',
     ''deep'', ''neural'', ''networks'', ''learn'', ''patterns'', ''from'', ''training'',
     ''inference'', ''latency'', ''throughput'', ''benchmark'', ''performance'']"

definition corpus_lengths :: "nat list" where
  "corpus_lengths = [16, 16, 16, 64, 64, 64, 128, 128]"

definition corpus_text :: "nat \<Rightarrow> string" where
  "corpus_text i =
     (let ntok = corpus_lengths ! (i mod length corpus_lengths) in
      foldl (\<lambda>text j. (if j > 0 then text @ '' '' else text) @ corpus_words ! ((i * 7 + j) mod length corpus_words))
        [] [0..<ntok])"

definition quant_auto_corpus :: "nat \<Rightarrow> string list" where
  "quant_auto_corpus n_samples = map corpus_text [0..<n_samples]"

definition kMeasureDocs :: int where "kMeasureDocs = 16"

definition corpus_size :: "int \<Rightarrow> nat" where
  "corpus_size num_docs =
     (let n = (if num_docs > 0 then num_docs else kMeasureDocs);
          n = (if n < kMeasureDocs then kMeasureDocs else n)
      in nat (if n > 256 then 256 else n))"

section \<open>Selection\<close>

record 'f bench =
  probe_opens :: "int \<Rightarrow> bool"
  measure_opens :: "int \<Rightarrow> bool"
  probe_embeds :: "int \<Rightarrow> nat \<Rightarrow> bool"
  probe_reading :: "int \<Rightarrow> nat \<Rightarrow> 'f"
  batch_embeds :: "int \<Rightarrow> bool"
  batch_ms :: "int \<Rightarrow> 'f"
  weights_dir :: "int \<Rightarrow> string option"
  weights_size :: "string \<Rightarrow> nat option"

fun probe_phase :: "'f::linordered_field bench \<Rightarrow> nat \<Rightarrow> int list \<Rightarrow> 'f \<times> int list \<Rightarrow> int list" where
  "probe_phase b n [] (best_rate, candidates) = candidates"
| "probe_phase b n (v # vs) (best_rate, candidates) =
     (if \<not> probe_opens b v then probe_phase b n vs (best_rate, candidates)
      else
        let rate = quant_auto_probe True (probe_embeds b v) (probe_reading b v) n best_rate in
        if rate \<le> 0 then probe_phase b n vs (best_rate, candidates)
        else probe_phase b n vs (max rate best_rate, candidates @ [v]))"

definition model_file_of :: "int \<Rightarrow> string option" where
  "model_file_of v = (case lembed_get_text_model_info v True of (OK, Some i) \<Rightarrow> Some (model_file i) | _ \<Rightarrow> None)"

definition measured_row :: "'f::linordered_field bench \<Rightarrow> nat \<Rightarrow> int \<Rightarrow> model_info \<Rightarrow> 'f measurement" where
  "measured_row b n v info =
     (case quant_auto_measure True (batch_embeds b v) (batch_ms b v) n of
        (rate, latency) \<Rightarrow>
          \<lparr>m_quantization = quant_code (model_quantization info), docs_per_sec = rate, latency_ms = latency,
           file_mb = quant_auto_file_mb (weights_size b) (weights_dir b v) (model_file_of v)\<rparr>)"

text \<open>A row that could not be measured stays in its slot, but the slot is given back.\<close>

fun measure_phase :: "'f::linordered_field bench \<Rightarrow> nat \<Rightarrow> int list \<Rightarrow> 'f choice \<Rightarrow> 'f choice" where
  "measure_phase b n [] c = c"
| "measure_phase b n (v # vs) c =
     (if num_measured c \<ge> int kQuantMaxVariants then c
      else case lembed_get_text_model_info v True of
        (OK, Some info) \<Rightarrow>
          if \<not> measure_opens b v then measure_phase b n vs c
          else
            let slot = nat (num_measured c); row = measured_row b n v info;
                c1 = c\<lparr>measured := (measured c)[slot := row]\<rparr>
            in measure_phase b n vs
                 (if docs_per_sec row \<le> 0 then c1 else c1\<lparr>num_measured := num_measured c + 1\<rparr>)
      | _ \<Rightarrow> measure_phase b n vs c)"

definition variant_for :: "int \<Rightarrow> model_info \<Rightarrow> int \<Rightarrow> int" where
  "variant_for model info q =
     (if q = quant_code (model_quantization info) then model
      else fst (lembed_find_text_model_variant (Some (model_name info)) q))"

definition have_baseline :: "'f::linordered_field choice \<Rightarrow> bool" where
  "have_baseline c = list_ex (\<lambda>r. m_quantization r = quant_code Q_NONE \<and> docs_per_sec r > 0) (rows c)"

definition decide :: "(nat \<Rightarrow> 'f::linordered_field \<Rightarrow> string) \<Rightarrow> int \<Rightarrow> model_info \<Rightarrow> 'f choice \<Rightarrow> 'f choice" where
  "decide fmt model info c =
     (let requested = quant_code (model_quantization info) in
      if num_measured c \<le> 0 then
        c\<lparr>c_quantization := requested, variant_model := model,
          reason := snprintf_s 192 (''no variant could be measured, kept '' @ quantization_name requested)\<rparr>
      else
        let winner = (if have_baseline c then quant_auto_pick c else requested);
            variant = variant_for model info winner;
            c1 = c\<lparr>c_quantization := (if variant \<ge> 0 then winner else requested),
                    variant_model := (if variant \<ge> 0 then variant else model)\<rparr>
        in c1\<lparr>reason := snprintf_s 192 (quant_auto_reason fmt c1)\<rparr>)"

definition lembed_quantization_auto_select :: "machine \<Rightarrow> (string \<Rightarrow> 'f::{floor_ceiling} option) \<Rightarrow> ('f \<Rightarrow> string) \<Rightarrow>
    (nat \<Rightarrow> 'f \<Rightarrow> string) \<Rightarrow> write_calls \<Rightarrow> 'f bench \<Rightarrow> int \<Rightarrow> int \<Rightarrow> bool \<Rightarrow> bool \<Rightarrow> fsys \<Rightarrow>
    status \<times> 'f choice \<times> fsys" where
  "lembed_quantization_auto_select m stod show_num fmt w b model num_docs dry_run result_ok fs =
     (if \<not> result_ok then (INVALID_ARGUMENT, zero_choice, fs)
      else case lembed_get_text_model_info model True of
        (OK, Some info) \<Rightarrow>
          let ident = quant_auto_identity (Some (model_code info));
              cached = quant_auto_load m stod ident fs;
              hit = (case cached of Some c \<Rightarrow> variant_for model info (c_quantization c) \<ge> 0 | None \<Rightarrow> False)
          in if hit then
               (OK, (the cached)\<lparr>variant_model := variant_for model info (c_quantization (the cached))\<rparr>, fs)
             else
               let variants = quant_auto_collect_variants model (kQuantMaxVariants + 1) in
               if variants = [] then (MODEL_NOT_FOUND, zero_choice, fs)
               else
                 let n = corpus_size num_docs;
                     candidates = probe_phase b n (tl variants) (0, [hd variants]);
                     c = decide fmt model info (measure_phase b n candidates zero_choice)
                 in (OK, c, if num_measured c \<le> 0 \<or> dry_run then fs else quant_auto_save m w show_num ident c fs)
      | _ \<Rightarrow> (MODEL_NOT_FOUND, zero_choice, fs))"

section \<open>Lemmas\<close>

lemma text_info:
  "lembed_get_text_model_info model True = (OK, Some info) \<longleftrightarrow>
     0 \<le> model \<and> model < TEXT_MODEL_COUNT \<and> info = text_models ! nat model"
  by (auto simp: lembed_get_text_model_info_def table_info_def)

lemma find_variant_found:
  assumes "0 \<le> fst (lembed_find_text_model_variant (Some n) q)"
  shows "fst (lembed_find_text_model_variant (Some n) q) < TEXT_MODEL_COUNT \<and>
    model_name (text_models ! nat (fst (lembed_find_text_model_variant (Some n) q))) = n \<and>
    quant_code (model_quantization (text_models ! nat (fst (lembed_find_text_model_variant (Some n) q)))) = q"
proof -
  let ?P = "\<lambda>m. model_name m = n \<and> quant_code (model_quantization m) = q"
  have i: "fst (lembed_find_text_model_variant (Some n) q) = first_index ?P text_models 0"
    using assms by (auto simp: lembed_find_text_model_variant_def Let_def split: if_splits)
  from first_index_spec [of ?P text_models 0] assms obtain k where
    "k < length text_models" "first_index ?P text_models 0 = int k" "?P (text_models ! k)"
    unfolding i by fastforce
  then show ?thesis unfolding i by (simp add: text_models_length TEXT_MODEL_COUNT_def)
qed

definition variant_of :: "int \<Rightarrow> int \<Rightarrow> int \<Rightarrow> bool" where
  "variant_of model q v \<longleftrightarrow> 0 \<le> v \<and> v < TEXT_MODEL_COUNT \<and>
     model_name (text_models ! nat v) = model_name (text_models ! nat model) \<and>
     quant_code (model_quantization (text_models ! nat v)) = q"

lemma variant_for_found:
  assumes "0 \<le> model" and "model < TEXT_MODEL_COUNT" and "0 \<le> variant_for model (text_models ! nat model) q"
  shows "variant_of model q (variant_for model (text_models ! nat model) q)"
  using assms find_variant_found [of "model_name (text_models ! nat model)" q]
  by (auto simp: variant_for_def variant_of_def split: if_splits)

lemma measure_phase_frame:
  "from_cache (measure_phase b n vs c) = from_cache c \<and> (0 \<le> num_measured c \<longrightarrow> 0 \<le> num_measured (measure_phase b n vs c))"
  by (induction vs arbitrary: c) (auto simp: Let_def split: prod.splits status.splits option.splits)

definition was_measured :: "'f::linordered_field choice \<Rightarrow> int \<Rightarrow> bool" where
  "was_measured c q \<longleftrightarrow> (\<exists>r \<in> set (rows c). m_quantization r = q \<and> 0 < docs_per_sec r)"

lemma have_baseline_iff: "have_baseline c \<longleftrightarrow> was_measured c (quant_code Q_NONE)"
  by (auto simp: have_baseline_def was_measured_def list_ex_iff)

lemma baselines_dynamic:
  "baselines rs (b, d, h) = (b', d', True) \<Longrightarrow> h \<or> (\<exists>r \<in> set rs. m_quantization r = quant_code Q_DYNAMIC \<and> 0 < docs_per_sec r)"
proof (induction rs arbitrary: b d h)
  case (Cons r rs)
  then show ?case by (auto split: if_splits)
qed simp

lemma best_variant_in:
  "best_variant B rs (q, d) = (q', d') \<Longrightarrow> q' = q \<or> (\<exists>r \<in> set rs. m_quantization r = q' \<and> 0 < docs_per_sec r)"
proof (induction rs arbitrary: q d)
  case (Cons r rs)
  then show ?case by (fastforce split: if_splits)
qed simp

lemma pick_measured: "have_baseline c \<Longrightarrow> was_measured c (quant_auto_pick c)"
proof -
  assume base: "have_baseline c"
  obtain b d h where bs: "baselines (rows c) (0, 0, False) = (b, d, h)" by (metis prod_cases3)
  obtain best bd where bv: "best_variant b (rows c) (quant_code Q_NONE, b) = (best, bd)" by fastforce
  have "h \<Longrightarrow> was_measured c (quant_code Q_DYNAMIC)"
    using baselines_dynamic [of "rows c"] bs by (fastforce simp: was_measured_def)
  moreover have "best = quant_code Q_NONE \<or> was_measured c best"
    using best_variant_in [OF bv] by (auto simp: was_measured_def)
  ultimately show ?thesis
    using base [unfolded have_baseline_iff] bs bv by (auto simp: quant_auto_pick_def)
qed

lemma rows_update [simp]:
  "rows (c\<lparr>c_quantization := q\<rparr>) = rows c" "rows (c\<lparr>variant_model := v\<rparr>) = rows c" "rows (c\<lparr>reason := r\<rparr>) = rows c"
  by (simp_all add: rows_def)

lemma was_measured_update [simp]:
  "was_measured (c\<lparr>c_quantization := q\<rparr>) x = was_measured c x" "was_measured (c\<lparr>variant_model := v\<rparr>) x = was_measured c x"
  "was_measured (c\<lparr>reason := r\<rparr>) x = was_measured c x"
  by (simp_all add: was_measured_def)

lemma decide_sound:
  assumes "0 \<le> model" and "model < TEXT_MODEL_COUNT" and "info = text_models ! nat model" and "d = decide fmt model info c"
  shows "variant_of model (c_quantization d) (variant_model d) \<and> from_cache d = from_cache c \<and>
    (\<forall>x. was_measured d x = was_measured c x) \<and>
    (variant_model d = model \<or> was_measured d (c_quantization d)) \<and>
    (\<not> was_measured d (quant_code Q_NONE) \<longrightarrow> variant_model d = model)"
proof -
  have self: "variant_of model (quant_code (model_quantization info)) model"
    using assms(1-3) by (simp add: variant_of_def)
  show ?thesis
  proof (cases "num_measured c \<le> 0")
    case True
    with self show ?thesis by (simp add: assms(4) decide_def Let_def)
  next
    case False
    let ?w = "if have_baseline c then quant_auto_pick c else quant_code (model_quantization info)"
    have w: "have_baseline c \<Longrightarrow> was_measured c ?w" using pick_measured by simp
    have nb: "\<not> was_measured c (quant_code Q_NONE) \<Longrightarrow> ?w = quant_code (model_quantization info)"
      by (simp add: have_baseline_iff)
    have m: "variant_for model info (quant_code (model_quantization info)) = model" by (simp add: variant_for_def)
    show ?thesis
    proof (cases "0 \<le> variant_for model info ?w")
      case True
      have v: "variant_of model ?w (variant_for model info ?w)"
        using variant_for_found [OF assms(1,2)] True unfolding assms(3) by blast
      have "c_quantization d = ?w" "variant_model d = variant_for model info ?w"
        "from_cache d = from_cache c" "\<forall>x. was_measured d x = was_measured c x"
        using False True by (simp_all add: assms(4) decide_def Let_def)
      with v w nb m show ?thesis by (cases "have_baseline c") (auto simp: have_baseline_iff)
    next
      case neg: False
      have "c_quantization d = quant_code (model_quantization info)" "variant_model d = model"
        "from_cache d = from_cache c" "\<forall>x. was_measured d x = was_measured c x"
        using False neg by (simp_all add: assms(4) decide_def Let_def)
      with self show ?thesis by simp
    qed
  qed
qed

lemma load_from_cache: "quant_auto_load m stod i fs = Some c \<Longrightarrow> from_cache c = 1"
  by (auto simp: quant_auto_load_def load_finish_def Let_def split: if_splits option.splits)

lemma select_decides:
  assumes "lembed_quantization_auto_select m stod show_num fmt w b model num_docs dry_run True fs = (OK, c, fs')"
  shows "variant_of model (c_quantization c) (variant_model c) \<and>
    (from_cache c = 0 \<longrightarrow>
       (variant_model c = model \<or> was_measured c (c_quantization c)) \<and>
       (\<not> was_measured c (quant_code Q_NONE) \<longrightarrow> variant_model c = model))"
proof -
  from assms obtain info where info: "lembed_get_text_model_info model True = (OK, Some info)"
    by (auto simp: lembed_quantization_auto_select_def split: prod.splits status.splits option.splits)
  then have r: "0 \<le> model" "model < TEXT_MODEL_COUNT" "info = text_models ! nat model" by (simp_all add: text_info)
  let ?cached = "quant_auto_load m stod (quant_auto_identity (Some (model_code info))) fs"
  show ?thesis
  proof (cases "\<exists>k. ?cached = Some k \<and> 0 \<le> variant_for model info (c_quantization k)")
    case True
    then obtain k where k: "?cached = Some k" "0 \<le> variant_for model info (c_quantization k)" by blast
    have "c = k\<lparr>variant_model := variant_for model info (c_quantization k)\<rparr>"
      using assms info k by (simp add: lembed_quantization_auto_select_def Let_def)
    with variant_for_found [OF r(1,2)] k load_from_cache [OF k(1)] r(3) show ?thesis by simp
  next
    case False
    let ?variants = "quant_auto_collect_variants model (kQuantMaxVariants + 1)"
    let ?n = "corpus_size num_docs"
    let ?c = "measure_phase b ?n (probe_phase b ?n (tl ?variants) (0, [hd ?variants])) zero_choice"
    have miss: "(case ?cached of Some c \<Rightarrow> variant_for model info (c_quantization c) \<ge> 0 | None \<Rightarrow> False) = False"
      using False by (auto split: option.split)
    from assms info miss have c: "c = decide fmt model info ?c"
      by (auto simp: lembed_quantization_auto_select_def Let_def split: if_splits)
    from decide_sound [OF r c] show ?thesis by blast
  qed
qed

section \<open>Properties\<close>

text \<open>C31. A successful selection names a registry row that can be loaded: it is in range, it is a variant of
  the model that was asked for and it has the quantization that is reported. A decision measured now
  either keeps the requested entry or names a variant whose weights were opened and timed, so nothing new
  is downloaded; and without an FP32 measurement the requested entry always stands.\<close>

theorem select_sound:
  assumes "lembed_quantization_auto_select m stod show_num fmt w b model num_docs dry_run True fs = (OK, c, fs')"
  shows "variant_of model (c_quantization c) (variant_model c) \<and>
    (from_cache c = 0 \<longrightarrow>
       (variant_model c = model \<or> was_measured c (c_quantization c)) \<and>
       (\<not> was_measured c (quant_code Q_NONE) \<longrightarrow> variant_model c = model))"
  by (rule select_decides [OF assms])

definition sample_bench :: "rat bench" where
  "sample_bench = \<lparr>probe_opens = (\<lambda>_. False), measure_opens = (\<lambda>_. False), probe_embeds = (\<lambda>_ _. True),
     probe_reading = (\<lambda>_ k. of_nat k), batch_embeds = (\<lambda>_. True), batch_ms = (\<lambda>_. 1), weights_dir = (\<lambda>_. None),
     weights_size = (\<lambda>_. None)\<rparr>"

lemma sample_probe_phase: "probe_phase sample_bench n vs acc = snd acc"
  by (induction vs; cases acc) (simp_all add: sample_bench_def)

lemma sample_measure_phase: "measure_phase sample_bench n vs c = c"
  by (induction vs) (auto simp: sample_bench_def split: prod.split status.split option.split)

lemma collect_nonempty: "out \<noteq> [] \<Longrightarrow> collect_loop name baseline k qs out \<noteq> []"
  by (induction qs arbitrary: out) (simp_all add: Let_def)

theorem select_sound_witness:
  "\<exists>c fs'. lembed_quantization_auto_select sample_machine sample_stod sample_print (\<lambda>_ _. []) all_calls_ok sample_bench 6 0 True True []
       = (OK, c, fs') \<and> variant_model c = 6 \<and> variant_of 6 (c_quantization c) 6"
proof -
  have i: "lembed_get_text_model_info 6 True = (OK, Some (text_models ! 6))"
    by (simp add: text_info TEXT_MODEL_COUNT_def)
  have l: "quant_auto_load sample_machine sample_stod i [] = None" for i
    by (simp add: quant_auto_load_def cache_identity_matches_def json_string_in_file_def)
  have v: "quant_auto_collect_variants 6 (kQuantMaxVariants + 1) \<noteq> []"
    by (simp add: quant_auto_collect_variants_def i Let_def collect_nonempty)
  have "\<exists>c fs'. lembed_quantization_auto_select sample_machine sample_stod sample_print (\<lambda>_ _. []) all_calls_ok sample_bench 6 0 True True []
      = (OK, c, fs') \<and> variant_model c = 6"
    using v by (simp add: lembed_quantization_auto_select_def i l Let_def sample_probe_phase sample_measure_phase
        decide_def zero_choice_def)
  then obtain c fs' where c: "lembed_quantization_auto_select sample_machine sample_stod sample_print (\<lambda>_ _. []) all_calls_ok
      sample_bench 6 0 True True [] = (OK, c, fs')" "variant_model c = 6" by blast
  from select_sound [OF c(1)] c show ?thesis by auto
qed

end
