(* ===== verification/TextCreate.thy ===== *)
theory TextCreate
  imports TextEmbedding ModelStore QuantSelect
begin

text \<open>
  Creating a text embedding: \<open>lembed_text_embedding_create\<close>, \<open>_create_v2\<close>, \<open>_create_custom\<close>, the two
  GGUF entry points and \<open>_create_from_path\<close>, with the helpers of \<open>detail/model_loader_impl.hpp\<close> and
  \<open>detail/session_factory.hpp\<close>. A creation yields its status, the context handed out, the message it
  leaves, and whether a context was allocated and lost. \<open>None\<close> is undefined behaviour.
\<close>

section \<open>Helpers of local models\<close>

definition parse_config_json :: "(string \<Rightarrow> 'd cjson option) \<Rightarrow> string \<Rightarrow> int \<times> int \<Rightarrow> bool \<times> int \<times> int" where
  "parse_config_json parse config_blob dl =
     (case parse (c_str config_blob) of
        None \<Rightarrow> (False, dl)
      | Some doc \<Rightarrow>
          let read = (\<lambda>key old. case get_object_item (Some doc) key of
                        Some item \<Rightarrow> if is_number item \<and> valueint item > 0 then valueint item else old
                      | None \<Rightarrow> old)
          in (True, read ''hidden_size'' (fst dl), read ''max_position_embeddings'' (snd dl)))"

definition path_basename :: "string \<Rightarrow> string" where
  "path_basename path = rev (takeWhile (\<lambda>c. c \<noteq> CHR ''/'' \<and> c \<noteq> CHR 0x5C) (rev path))"

definition infer_pooling_from_path :: "string \<Rightarrow> pooling" where
  "infer_pooling_from_path path =
     (let base = map lower_byte (path_basename path) in
      if list_ex (\<lambda>w. str_find base w 0 \<noteq> None) [''bge'', ''snowflake'', ''arctic'', ''gte'', ''mxbai'']
      then POOL_CLS else POOL_MEAN)"

section \<open>The session factory\<close>

definition resolve_effective_backend :: "backend \<Rightarrow> string option \<Rightarrow> backend" where
  "resolve_effective_backend requested name =
     (if requested = BACKEND_ONNX \<or> requested = BACKEND_LLAMACPP then requested
      else case name of
             None \<Rightarrow> BACKEND_ONNX
           | Some s \<Rightarrow>
               let p = map lower_byte s in
               if length p > 4 \<and> drop (length p - 4) p = ''.gguf'' then BACKEND_LLAMACPP
               else if length p > 5 \<and> drop (length p - 5) p = ''.onnx'' then BACKEND_ONNX
               else BACKEND_ONNX)"

text \<open>One enumeration value is looked up as a text model first and as a reranker second.\<close>

definition ensure_onnx_model_dir ::
    "sys_env \<Rightarrow> int \<Rightarrow> string option \<Rightarrow> bool \<Rightarrow> string list option \<Rightarrow> disk \<Rightarrow> (string + string) \<times> disk" where
  "ensure_onnx_model_dir env model cache_dir offline additional dk =
     (if fst (lembed_get_text_model_info model True) \<noteq> OK \<and> fst (lembed_get_reranker_model_info model True) \<noteq> OK
      then (Inl (''Unknown model enum value: '' @ show_int model), dk)
      else
        let (a1, dk1) = lembed_ensure_text_model env model cache_dir offline True dk;
            (a, dk2) = (if fst a1 = OK then (a1, dk1)
                        else lembed_ensure_reranker_model env model cache_dir offline True dk1)
        in (if fst a \<noteq> OK then (Inl ''Failed to ensure model in cache (download may have failed)'', dk2)
            else let dir = (case fst (snd a) of None \<Rightarrow> [] | Some d \<Rightarrow> d) in
              (case find (\<lambda>f. \<not> file_exists dk2 (dir @ ''/'' @ f)) (case additional of None \<Rightarrow> [] | Some fs \<Rightarrow> fs) of
                 Some f \<Rightarrow> (Inl (''Additional model file missing: '' @ dir @ ''/'' @ f), dk2)
               | None \<Rightarrow> (Inr dir, dk2))))"

definition resolve_gguf_path ::
    "sys_env \<Rightarrow> string option \<Rightarrow> string option \<Rightarrow> bool \<Rightarrow> disk \<Rightarrow> (string + string) \<times> disk" where
  "resolve_gguf_path env name_or_path cache_dir offline dk =
     (case lembed_resolve_gguf_path env name_or_path cache_dir offline True dk of
        ((s, path, _), dk1) \<Rightarrow>
          if s \<noteq> OK then (Inl ''Failed to resolve GGUF model path'', dk1)
          else (Inr (case path of None \<Rightarrow> [] | Some p \<Rightarrow> p), dk1))"

text \<open>The registry's code and whole address are passed where a repository and a file name belong.\<close>

definition resolve_gguf_model ::
    "sys_env \<Rightarrow> string \<Rightarrow> string option \<Rightarrow> bool \<Rightarrow> disk \<Rightarrow> (string + string) \<times> disk" where
  "resolve_gguf_model env name cache_dir offline dk =
     (case lembed_find_gguf_model (Some name) of
        None \<Rightarrow> (Inl (snprintf_s 256 (''No GGUF model found matching '' @ [CHR 0x27] @ name @ [CHR 0x27])), dk)
      | Some info \<Rightarrow>
          (case lembed_ensure_gguf_model env (Some (gm_code info)) (Some (gm_url info)) cache_dir offline True dk of
             ((s, path, _), dk1) \<Rightarrow>
               if s \<noteq> OK then (Inl ''Failed to download GGUF model'', dk1)
               else (Inr (case path of None \<Rightarrow> [] | Some p \<Rightarrow> p), dk1)))"

section \<open>Options and results\<close>

record text_options =
  o_model :: int
  o_provider :: int
  o_device_id :: int
  o_cache_dir :: "string option"
  o_max_length :: int
  o_num_threads :: int
  o_batch_size :: int
  o_offline :: bool
  o_pooling :: int
  o_dim :: int
  o_n_ctx :: int
  o_n_gpu_layers :: int
  o_n_batch :: int
  o_auto_workers :: int
  o_cache_size :: int
  o_backend :: int
  o_batch_strategy :: int

definition PROVIDER_LLAMACPP :: int where "PROVIDER_LLAMACPP = 5"
definition DEFAULT_BATCH_SIZE :: int where "DEFAULT_BATCH_SIZE = 256"
definition DEFAULT_MAX_LENGTH :: int where "DEFAULT_MAX_LENGTH = 512"

text \<open>The defaults; what is not named is zeroed.\<close>

definition TEXT_MODEL_DEFAULT :: int where "TEXT_MODEL_DEFAULT = 9"

definition lembed_text_options_default :: text_options where
  "lembed_text_options_default = \<lparr>o_model = TEXT_MODEL_DEFAULT, o_provider = 0, o_device_id = 0, o_cache_dir = None,
     o_max_length = 0, o_num_threads = 0, o_batch_size = DEFAULT_BATCH_SIZE, o_offline = False, o_pooling = 1, o_dim = 0,
     o_n_ctx = 0, o_n_gpu_layers = 0, o_n_batch = 0, o_auto_workers = 0, o_cache_size = 0, o_backend = 2,
     o_batch_strategy = BATCH_LENGTH_BUCKET\<rparr>"

definition lembed_text_options_default_v2 :: "text_options \<times> int" where
  "lembed_text_options_default_v2 = (lembed_text_options_default, quant_code Q_NONE)"

definition lembed_embeddings_free :: "'f embeddings option \<Rightarrow> 'f embeddings option" where
  "lembed_embeddings_free result = map_option (\<lambda>r. r\<lparr>e_data := None, e_num := 0, e_dim := 0\<rparr>) result"

record ('m, 'f, 'd) load_env =
  le_sys :: sys_env
  le_fails :: ort_faults
  le_io :: "string \<Rightarrow> string list \<times> string list"
  le_llama :: "('m, 'f) llama_lib"
  le_parse :: "string \<Rightarrow> 'd cjson option"
  le_onln :: int
  le_conf :: int

record ('m, 'f) created =
  cr_status :: status
  cr_ctx :: "('m, 'f) text_ctx option"
  cr_error :: "string option"
  cr_leaked :: bool

definition refused :: "status \<Rightarrow> string option \<Rightarrow> bool \<Rightarrow> ('m, 'f) created" where
  "refused s err leaked = \<lparr>cr_status = s, cr_ctx = None, cr_error = map_option set_error err, cr_leaked = leaked\<rparr>"

definition granted :: "('m, 'f) text_ctx \<Rightarrow> ('m, 'f) created" where
  "granted c = \<lparr>cr_status = OK, cr_ctx = Some c, cr_error = None, cr_leaked = False\<rparr>"

text \<open>\<open>new lembed_text_embedding()\<close>: every member has its default.\<close>

definition desc_new :: model_desc where
  "desc_new = \<lparr>d_name = [], d_dimension = 0, d_max_length = 0, d_pooling = POOL_CLS, d_num_threads = 0,
     d_batch_size = 0, d_provider = 0, d_device_id = 0\<rparr>"

definition text_ctx_new :: "('m, 'f::zero) text_ctx" where
  "text_ctx_new = \<lparr>backend_type = BACKEND_ONNX, onnx_sess = onnx_session_new, onnx_tok = tokenizer_new,
     llama_sess = llama_session_new, llama_pool_of = llama_pool_new, cx_pooling = POOL_CLS, cx_quantization = 0,
     cx_dim = 0, cx_max_length = 0, output_key = [], model_name_str = [], cx_num_threads = 0, cx_batch_size = 0,
     cx_provider = 0, cx_device_id = 0, cx_desc = desc_new,
     cx_desc_v2 = \<lparr>d_base = desc_new, d_quantization = 0, d_cache_size = 0\<rparr>, texts_embedded = 0, batches_run = 0,
     cache_hits = 0, cache_misses = 0, total_latency = 0, stats_calls = 0, pooled_buf = [],
     batch_strategy = BATCH_LENGTH_BUCKET, cx_cache = None\<rparr>"

definition with_cache :: "int \<Rightarrow> ('m, 'f) text_ctx \<Rightarrow> ('m, 'f) text_ctx" where
  "with_cache cache_size c = (if cache_size > 0 then c\<lparr>cx_cache := Some (lru_new (nat cache_size) 0)\<rparr> else c)"

definition positive_or :: "int \<Rightarrow> int \<Rightarrow> int" where
  "positive_or n d = (if n > 0 then n else d)"

section \<open>ONNX models of the registry\<close>

text \<open>The tokenizer's exceptions are caught with the session's; its undefined index is not.\<close>

definition load_onnx ::
    "('m, 'f, 'd) load_env \<Rightarrow> (string + unit) \<times> onnx_session \<times> nat \<Rightarrow> tok_fail + tokenizer \<Rightarrow> ('m, 'f) text_ctx
      \<Rightarrow> (embed_fail + ('m, 'f) text_ctx)" where
  "load_onnx env session tok c =
     (case session of
        (Inl msg, _) \<Rightarrow> Inl (Threw msg)
      | (Inr _, s, _) \<Rightarrow>
          (case tok of Inl e \<Rightarrow> Inl (thrown e) | Inr t \<Rightarrow> Inr (c\<lparr>onnx_sess := s, onnx_tok := t\<rparr>)))"

definition finish_onnx :: "int \<Rightarrow> embed_fail + ('m, 'f) text_ctx \<Rightarrow> ('m, 'f) created option" where
  "finish_onnx cache_size r =
     (case r of
        Inl Undef \<Rightarrow> None
      | Inl (Threw msg) \<Rightarrow> Some (refused ONNX_RUNTIME (Some msg) True)
      | Inr c \<Rightarrow> Some (granted (update_desc (with_cache cache_size c))))"

definition onnx_context :: "text_options \<Rightarrow> model_info \<Rightarrow> ('m, 'f::zero) text_ctx" where
  "onnx_context opts info =
     text_ctx_new\<lparr>backend_type := BACKEND_ONNX, cx_pooling := model_pooling info,
       cx_quantization := quant_code (model_quantization info), cx_dim := model_dim info,
       cx_max_length := positive_or (o_max_length opts) (max_tokens info), model_name_str := model_name info,
       batch_strategy := o_batch_strategy opts, cx_num_threads := o_num_threads opts,
       cx_batch_size := positive_or (o_batch_size opts) DEFAULT_BATCH_SIZE, cx_provider := o_provider opts,
       cx_device_id := o_device_id opts,
       output_key := (if o_model opts = TEXT_EMBEDDING_GEMMA_300M then ''sentence_embedding'' else [])\<rparr>"

definition lembed_text_embedding_create ::
    "('m, 'f::zero, 'd) load_env \<Rightarrow> text_options option \<Rightarrow> bool \<Rightarrow> disk \<Rightarrow> ('m, 'f) created option \<times> disk" where
  "lembed_text_embedding_create env options out_ok dk =
     (case options of
        None \<Rightarrow> (Some (refused INVALID_ARGUMENT None False), dk)
      | Some opts \<Rightarrow>
          if \<not> out_ok then (Some (refused INVALID_ARGUMENT None False), dk)
          else if o_backend opts < 0 \<or> o_backend opts > 2
          then (Some (refused INVALID_ARGUMENT (Some ''Invalid backend value in text embedding options'') False), dk)
          else case lembed_get_text_model_info (o_model opts) True of (s0, row) \<Rightarrow>
            if s0 \<noteq> OK then (Some (refused s0 None False), dk)
            else case row of None \<Rightarrow> (None, dk) | Some info \<Rightarrow>
            case lembed_ensure_text_model (le_sys env) (o_model opts) (o_cache_dir opts) (o_offline opts) True dk of
              ((s1, model_dir, err), dk1) \<Rightarrow>
                if s1 \<noteq> OK then (Some \<lparr>cr_status = s1, cr_ctx = None, cr_error = err, cr_leaked = False\<rparr>, dk1)
                else case model_dir of None \<Rightarrow> (None, dk1) | Some dir \<Rightarrow>
                  let c = onnx_context opts info;
                      session = onnx_load_from_file (le_fails env) (le_io env) (dir @ ''/'' @ model_file info)
                                  (o_num_threads opts) (o_provider opts) (cx_quantization c) (onnx_sess c);
                      tok = load_from_file (le_parse env) (map_of (dk_files dk1)) (dir @ ''/tokenizer.json'')
                              (cx_max_length c) (onnx_tok c)
                  in (finish_onnx (o_cache_size opts) (load_onnx env session tok c), dk1))"

section \<open>A requested quantization\<close>

text \<open>
  What the automatic selection reads from outside: the machine, the parsing and printing of numbers,
  the outcome of its file calls and of its measurements.
\<close>

record 'g select_env =
  se_machine :: machine
  se_stod :: "string \<Rightarrow> 'g option"
  se_show :: "'g \<Rightarrow> string"
  se_fmt :: "nat \<Rightarrow> 'g \<Rightarrow> string"
  se_calls :: write_calls
  se_bench :: "'g bench"
  se_merged :: bool

text \<open>
  The members of a family are found by comparing the pointers of their names; two equal literals have
  one address when the compiler merged them (\<open>se_merged\<close>).
\<close>

definition family_entries :: "bool \<Rightarrow> int \<Rightarrow> nat" where
  "family_entries merged model =
     length (filter (\<lambda>k. k = nat model \<or> (merged \<and> model_name (text_models ! k) = model_name (text_models ! nat model)))
       [0..<nat TEXT_MODEL_COUNT])"

text \<open>The model to load, the mode to record, and the disk; or the status that refuses the request.\<close>

definition resolve_quantization ::
    "'g::floor_ceiling select_env \<Rightarrow> int \<Rightarrow> int \<Rightarrow> disk \<Rightarrow> (status + int \<times> int) \<times> disk" where
  "resolve_quantization se model requested dk =
     (case lembed_get_text_model_info model True of (s0, row) \<Rightarrow>
        case (if s0 = OK then row else None) of
          None \<Rightarrow> (Inr (model, requested), dk)
        | Some info \<Rightarrow>
            if requested \<noteq> quant_code Q_AUTO then
              if quant_code (model_quantization info) \<noteq> requested then
                let variant = fst (lembed_find_text_model_variant (Some (model_name info)) requested)
                in if variant < 0 then (Inl MODEL_NOT_FOUND, dk) else (Inr (variant, requested), dk)
              else (Inr (model, requested), dk)
            else if family_entries (se_merged se) model > 1 then
              (case lembed_quantization_auto_select (se_machine se) (se_stod se) (se_show se) (se_fmt se) (se_calls se)
                      (se_bench se) model 0 False True (dk_files dk) of
                 (s, choice, fs) \<Rightarrow>
                   (if s = OK \<and> variant_model choice \<ge> 0 then Inr (variant_model choice, c_quantization choice)
                    else Inr (model, requested), with_files fs dk))
            else (Inr (model, requested), dk))"

definition lembed_text_embedding_create_v2 ::
    "('m, 'f::zero, 'd) load_env \<Rightarrow> 'g::floor_ceiling select_env \<Rightarrow> (text_options \<times> int) option \<Rightarrow> bool \<Rightarrow> disk
      \<Rightarrow> ('m, 'f) created option \<times> disk" where
  "lembed_text_embedding_create_v2 env se options out_ok dk =
     (case options of
        None \<Rightarrow> (Some (refused INVALID_ARGUMENT None False), dk)
      | Some (base, requested) \<Rightarrow>
          if \<not> out_ok then (Some (refused INVALID_ARGUMENT None False), dk)
          else case resolve_quantization se (o_model base) requested dk of
            (Inl s, dk1) \<Rightarrow> (Some (refused s None False), dk1)
          | (Inr (model, resolved), dk1) \<Rightarrow>
              (case lembed_text_embedding_create env (Some (base\<lparr>o_model := model\<rparr>)) True dk1 of
                 (Some r, dk2) \<Rightarrow>
                   (case cr_ctx r of
                      Some c \<Rightarrow>
                        if cr_status r \<noteq> OK then (Some r, dk2)
                        else (Some (r\<lparr>cr_ctx := Some (if resolved \<noteq> quant_code Q_AUTO
                                 then c\<lparr>cx_quantization := resolved\<rparr> else c)\<rparr>), dk2)
                    | None \<Rightarrow> (Some r, dk2))
               | (None, dk2) \<Rightarrow> (None, dk2)))"

section \<open>User models\<close>

record user_model =
  um_onnx :: "string option"
  um_tokenizer :: "string option"
  um_dim :: int
  um_pooling :: pooling
  um_max_length :: int

definition lembed_text_embedding_create_custom ::
    "('m, 'f::zero, 'd) load_env \<Rightarrow> user_model option \<Rightarrow> int \<Rightarrow> int \<Rightarrow> bool \<Rightarrow> ('m, 'f) created option" where
  "lembed_text_embedding_create_custom env model provider num_threads out_ok =
     (case model of
        None \<Rightarrow> Some (refused INVALID_ARGUMENT None False)
      | Some m \<Rightarrow>
          (case (um_onnx m, um_tokenizer m) of
             (Some onnx, Some blob) \<Rightarrow>
               if \<not> out_ok then Some (refused INVALID_ARGUMENT None False)
               else
                 let c = text_ctx_new\<lparr>backend_type := BACKEND_ONNX, cx_pooling := um_pooling m, cx_quantization := quant_code Q_NONE,
                           cx_dim := um_dim m, cx_max_length := positive_or (um_max_length m) DEFAULT_MAX_LENGTH,
                           model_name_str := ''custom-model'', cx_num_threads := num_threads,
                           cx_batch_size := DEFAULT_BATCH_SIZE, batch_strategy := BATCH_LENGTH_BUCKET,
                           cx_provider := provider, cx_device_id := 0\<rparr>;
                     session = onnx_load_from_memory (le_fails env) (le_io env) onnx num_threads provider 0 (onnx_sess c);
                     tok = load_from_blob (le_parse env) blob (cx_max_length c) (onnx_tok c)
                 in finish_onnx 0 (load_onnx env session tok c)
           | _ \<Rightarrow> Some (refused INVALID_ARGUMENT None False)))"

section \<open>GGUF models\<close>

text \<open>The file name of a path.\<close>

definition path_filename :: "string \<Rightarrow> string" where
  "path_filename path = rev (takeWhile (\<lambda>c. c \<noteq> CHR ''/'') (rev path))"

definition gguf_context :: "string \<Rightarrow> text_options \<Rightarrow> ('m, 'f::zero) text_ctx" where
  "gguf_context path opts =
     text_ctx_new\<lparr>backend_type := BACKEND_LLAMACPP, cx_pooling := POOL_MEAN, cx_quantization := quant_code Q_NONE,
       cx_max_length := positive_or (o_max_length opts) 0, model_name_str := path_filename path,
       cx_num_threads := positive_or (o_num_threads opts) 4,
       cx_batch_size := positive_or (o_batch_size opts) DEFAULT_BATCH_SIZE, cx_provider := PROVIDER_LLAMACPP,
       cx_device_id := o_device_id opts, output_key := []\<rparr>"

text \<open>The pool or the session is loaded; the dimension and the length are read off the session in both cases.\<close>

definition load_gguf ::
    "('m, 'f::zero, 'd) load_env \<Rightarrow> string \<Rightarrow> text_options \<Rightarrow> ('m, 'f) text_ctx \<Rightarrow> (string + ('m, 'f) text_ctx) option" where
  "load_gguf env path opts c =
     (if o_auto_workers opts \<noteq> 0
      then (case pool_load_auto (le_llama env) (le_onln env) (le_conf env) path (o_n_ctx opts) (o_n_gpu_layers opts)
                   (o_n_batch opts) (llama_pool_of c) of
              None \<Rightarrow> None
            | Some (Inl msg, _) \<Rightarrow> Some (Inl msg)
            | Some (Inr _, p) \<Rightarrow> Some (Inr (c\<lparr>llama_pool_of := p\<rparr>)))
      else (case llama_load (le_llama env) path (cx_num_threads c) (o_n_ctx opts) (o_n_gpu_layers opts)
                   (o_n_batch opts) (llama_sess c) of
              (Inl msg, _) \<Rightarrow> Some (Inl msg)
            | (Inr _, s) \<Rightarrow> Some (Inr (c\<lparr>llama_sess := s\<rparr>))))"

definition sized_by_session :: "('m, 'f) text_ctx \<Rightarrow> ('m, 'f) text_ctx" where
  "sized_by_session c =
     (let c1 = c\<lparr>cx_dim := ls_n_embd (llama_sess c)\<rparr>
      in if cx_max_length c1 = 0 then c1\<lparr>cx_max_length := ls_n_ctx (llama_sess c1)\<rparr> else c1)"

text \<open>Options that are a null pointer are dereferenced.\<close>

definition lembed_text_embedding_create_from_gguf_path ::
    "('m, 'f::zero, 'd) load_env \<Rightarrow> string option \<Rightarrow> text_options option \<Rightarrow> bool \<Rightarrow> ('m, 'f) created option" where
  "lembed_text_embedding_create_from_gguf_path env gguf_path options out_ok =
     (case gguf_path of
        None \<Rightarrow> Some (refused INVALID_ARGUMENT None False)
      | Some path \<Rightarrow>
          if path = [] \<or> \<not> out_ok then Some (refused INVALID_ARGUMENT None False)
          else (case options of
            None \<Rightarrow> None
          | Some opts \<Rightarrow>
              (case load_gguf env path opts (gguf_context path opts) of
                 None \<Rightarrow> None
               | Some (Inl msg) \<Rightarrow> Some (refused LLAMA (Some msg) True)
               | Some (Inr c) \<Rightarrow> Some (granted (update_desc (with_cache (o_cache_size opts) (sized_by_session c)))))))"

definition lembed_text_embedding_create_from_gguf_model ::
    "('m, 'f::zero, 'd) load_env \<Rightarrow> string option \<Rightarrow> string option \<Rightarrow> text_options option \<Rightarrow> bool \<Rightarrow> disk
      \<Rightarrow> ('m, 'f) created option \<times> disk" where
  "lembed_text_embedding_create_from_gguf_model env repo filename options out_ok dk =
     (case (repo, filename) of
        (Some (r # rs), Some (f # fs)) \<Rightarrow>
          if \<not> out_ok then (Some (refused INVALID_ARGUMENT None False), dk)
          else (case lembed_ensure_gguf_model (le_sys env) repo filename
                       (case options of None \<Rightarrow> None | Some opts \<Rightarrow> o_cache_dir opts)
                       (case options of None \<Rightarrow> False | Some opts \<Rightarrow> o_offline opts) True dk of
                  ((s, path, err), dk1) \<Rightarrow>
                    if s \<noteq> OK then (Some \<lparr>cr_status = s, cr_ctx = None, cr_error = err, cr_leaked = False\<rparr>, dk1)
                    else (lembed_text_embedding_create_from_gguf_path env path options True, dk1))
      | _ \<Rightarrow> (Some (refused INVALID_ARGUMENT None False), dk))"

section \<open>Models from a path\<close>

definition local_config ::
    "('m, 'f, 'd) load_env \<Rightarrow> disk \<Rightarrow> string \<Rightarrow> text_options \<Rightarrow> int \<times> int \<times> pooling" where
  "local_config env dk dir opts =
     (let config = map_of (dk_files dk) (dir @ ''/config.json'');
          (d0, l0, p0) = (case config of
             None \<Rightarrow> (0, 0, POOL_MEAN)
           | Some blob \<Rightarrow>
               (case parse_config_json (le_parse env) blob (0, 0) of (_, d, l) \<Rightarrow> (d, l, infer_pooling_from_path dir)));
          d = (if d0 = 0 then o_dim opts else d0);
          l = (if l0 = 0 then o_max_length opts else l0)
      in (d, l, if o_pooling opts = 0 then POOL_CLS else p0))"

definition lembed_text_embedding_create_from_path ::
    "('m, 'f::zero, 'd) load_env \<Rightarrow> string option \<Rightarrow> text_options option \<Rightarrow> bool \<Rightarrow> disk \<Rightarrow> ('m, 'f) created option" where
  "lembed_text_embedding_create_from_path env dir_path options out_ok dk =
     (case (dir_path, options) of
        (Some (ch # cs), Some opts) \<Rightarrow>
          if \<not> out_ok then Some (refused INVALID_ARGUMENT None False)
          else let dir = ch # cs in
            if length dir > 5 \<and> drop (length dir - 5) dir = ''.gguf''
            then lembed_text_embedding_create_from_gguf_path env dir_path options True
            else
              (case (read_file_to_string dk (dir @ ''/model.onnx''), read_file_to_string dk (dir @ ''/tokenizer.json'')) of
                 (Inl msg, _) \<Rightarrow> Some (refused IO_ERROR (Some msg) False)
               | (_, Inl msg) \<Rightarrow> Some (refused IO_ERROR (Some msg) False)
               | (Inr onnx, Inr blob) \<Rightarrow>
                   (case local_config env dk dir opts of (d, l, pool) \<Rightarrow>
                      if d = 0 then Some (refused INVALID_ARGUMENT (Some ''Cannot determine model dimension'') False)
                      else
                        (case lembed_text_embedding_create_custom env
                                (Some \<lparr>um_onnx = Some onnx, um_tokenizer = Some blob, um_dim = d, um_pooling = pool,
                                       um_max_length = l\<rparr>) (o_provider opts) (o_num_threads opts) True of
                           None \<Rightarrow> None
                         | Some r \<Rightarrow>
                             (case cr_ctx r of
                                None \<Rightarrow> Some r
                              | Some c \<Rightarrow>
                                  Some (granted (update_desc (with_cache (o_cache_size opts)
                                    (c\<lparr>model_name_str := path_filename dir,
                                       cx_batch_size := positive_or (o_batch_size opts) DEFAULT_BATCH_SIZE\<rparr>))))))))
      | _ \<Rightarrow> Some (refused INVALID_ARGUMENT None False))"

section \<open>Facts\<close>

lemma ensure_text_ok:
  "lembed_ensure_text_model env model cache offline True dk = ((OK, d, err), dk') \<Longrightarrow> \<exists>dir. d = Some dir"
  by (auto simp: lembed_ensure_text_model_def lembed_ensure_model_def split: prod.splits sum.splits)

lemma text_info_cases:
  obtains "lembed_get_text_model_info model True = (OK, Some (text_models ! nat model))"
  | st where "st \<noteq> OK" and "lembed_get_text_model_info model True = (st, None)"
  by (cases "model < 0 \<or> model \<ge> TEXT_MODEL_COUNT") (simp_all add: lembed_get_text_model_info_def table_info_def)

lemma answer_cases:
  obtains st d err dk where "(X :: (status \<times> 'a option \<times> 'b) \<times> disk) = ((st, d, err), dk)"
  by (metis prod.exhaust)

lemma text_ctx_new_parts [simp]:
  "onnx_sess text_ctx_new = onnx_session_new" "onnx_tok text_ctx_new = tokenizer_new" "cx_cache text_ctx_new = None"
  "llama_sess text_ctx_new = llama_session_new" "llama_pool_of text_ctx_new = llama_pool_new"
  by (simp_all add: text_ctx_new_def)

lemma onnx_context_fields [simp]:
  "backend_type (onnx_context opts info) = BACKEND_ONNX"
  "cx_quantization (onnx_context opts info) = quant_code (model_quantization info)"
  "cx_dim (onnx_context opts info) = model_dim info"
  "cx_max_length (onnx_context opts info) = positive_or (o_max_length opts) (max_tokens info)"
  "cx_batch_size (onnx_context opts info) = positive_or (o_batch_size opts) DEFAULT_BATCH_SIZE"
  "cx_cache (onnx_context opts info) = None" "model_name_str (onnx_context opts info) = model_name info"
  by (simp_all add: onnx_context_def)

text \<open>A creation that gets past its guards: the registry's row, the directory of its files, the two loads.\<close>

lemma create_runs:
  assumes "lembed_text_embedding_create env opts out_ok dk = (Some r, dk')" and "cr_status r = OK \<or> cr_ctx r \<noteq> None"
  obtains o' info dir err s n res tok where "opts = Some o'" and "lembed_get_text_model_info (o_model o') True = (OK, Some info)"
    and "lembed_ensure_text_model (le_sys env) (o_model o') (o_cache_dir o') (o_offline o') True dk = ((OK, Some dir, err), dk')"
    and "onnx_load_from_file (le_fails env) (le_io env) (dir @ ''/'' @ model_file info) (o_num_threads o') (o_provider o')
          (quant_code (model_quantization info)) onnx_session_new = (res, s, n)"
    and "load_from_file (le_parse env) (map_of (dk_files dk')) (dir @ ''/tokenizer.json'')
          (positive_or (o_max_length o') (max_tokens info)) tokenizer_new = tok"
    and "finish_onnx (o_cache_size o') (load_onnx env (res, s, n) tok (onnx_context o' info)) = Some r"
proof -
  obtain o' where o': "opts = Some o'" "out_ok"
    using assms by (cases opts) (auto simp: lembed_text_embedding_create_def refused_def split: if_splits)
  have backend: "\<not> (o_backend o' < 0 \<or> o_backend o' > 2)"
    using assms o' by (auto simp: lembed_text_embedding_create_def refused_def)
  obtain info where info: "lembed_get_text_model_info (o_model o') True = (OK, Some info)"
  proof (cases rule: text_info_cases [of "o_model o'"])
    case 2
    with assms backend o' show ?thesis by (auto simp: lembed_text_embedding_create_def refused_def)
  qed (rule that)
  obtain st d err dk1 where ens: "lembed_ensure_text_model (le_sys env) (o_model o') (o_cache_dir o') (o_offline o') True dk
      = ((st, d, err), dk1)" by (rule answer_cases)
  have "st = OK"
    using assms info backend ens o' by (auto simp: lembed_text_embedding_create_def refused_def split: if_splits)
  with ensure_text_ok ens obtain dir where dir: "d = Some dir" by blast
  obtain res s n where session: "onnx_load_from_file (le_fails env) (le_io env) (dir @ ''/'' @ model_file info) (o_num_threads o')
      (o_provider o') (quant_code (model_quantization info)) onnx_session_new = (res, s, n)" by (rule prod_cases3)
  have parts: "onnx_sess (onnx_context o' info) = onnx_session_new" "onnx_tok (onnx_context o' info) = tokenizer_new"
    by (simp_all add: onnx_context_def)
  let ?tok = "load_from_file (le_parse env) (map_of (dk_files dk1)) (dir @ ''/tokenizer.json'')
      (positive_or (o_max_length o') (max_tokens info)) tokenizer_new"
  have "finish_onnx (o_cache_size o') (load_onnx env (res, s, n) ?tok (onnx_context o' info)) = Some r \<and> dk1 = dk'"
    using assms(1) info backend ens session o' unfolding \<open>st = OK\<close> dir
    by (clarsimp simp: lembed_text_embedding_create_def Let_def parts onnx_context_fields)
  with that [OF o'(1) info] ens session show ?thesis unfolding \<open>st = OK\<close> dir by blast
qed

lemma finish_cases:
  assumes "finish_onnx n (load_onnx env (res, s, k) tok c) = Some r" and "cr_status r = OK \<or> cr_ctx r \<noteq> None"
  obtains t where "res = Inr ()" and "tok = Inr t" and "r = granted (update_desc (with_cache n (c\<lparr>onnx_sess := s, onnx_tok := t\<rparr>)))"
  using assms by (auto simp: finish_onnx_def load_onnx_def refused_def split: sum.splits embed_fail.splits)

text \<open>The model a request resolves to is a row of the same family with the mode that is recorded.\<close>

lemma resolve_sound:
  assumes "resolve_quantization se model requested dk = (Inr (v, resolved), dk')" and "0 \<le> model" and "model < TEXT_MODEL_COUNT"
  shows "(resolved = quant_code Q_AUTO \<and> v = model \<or> variant_of model resolved v) \<and>
    (requested \<noteq> quant_code Q_AUTO \<longrightarrow> resolved = requested)"
proof -
  have info: "lembed_get_text_model_info model True = (OK, Some (text_models ! nat model))"
    using assms(2,3) by (simp add: text_info)
  show ?thesis
  proof (cases "requested = quant_code Q_AUTO")
    case False
    with assms find_variant_found [of "model_name (text_models ! nat model)" requested] show ?thesis
      by (auto simp: resolve_quantization_def info variant_of_def Let_def split: if_splits)
  next
    case True
    obtain s c fs where sel: "lembed_quantization_auto_select (se_machine se) (se_stod se) (se_show se) (se_fmt se) (se_calls se)
        (se_bench se) model 0 False True (dk_files dk) = (s, c, fs)" by (rule prod_cases3)
    show ?thesis
    proof (cases "family_entries (se_merged se) model > 1 \<and> s = OK \<and> variant_model c \<ge> 0")
      case True
      with assms(1) \<open>requested = _\<close> have "v = variant_model c" "resolved = c_quantization c"
        by (auto simp: resolve_quantization_def info sel)
      with select_decides [of _ _ _ _ _ _ model 0 False "dk_files dk" c fs] sel True \<open>requested = _\<close>
      show ?thesis by auto
    next
      case False
      with assms(1) \<open>requested = _\<close> show ?thesis
        by (auto simp: resolve_quantization_def info sel split: if_splits)
    qed
  qed
qed

lemma update_desc_idem: "update_desc (update_desc c) = update_desc c"
  by (simp add: update_desc_def Let_def)

lemma update_desc_fields [simp]:
  "backend_type (update_desc c) = backend_type c" "onnx_sess (update_desc c) = onnx_sess c"
  "onnx_tok (update_desc c) = onnx_tok c" "cx_quantization (update_desc c) = cx_quantization c"
  "cx_dim (update_desc c) = cx_dim c" "cx_max_length (update_desc c) = cx_max_length c"
  "model_name_str (update_desc c) = model_name_str c" "cx_batch_size (update_desc c) = cx_batch_size c"
  "cx_cache (update_desc c) = cx_cache c" "llama_sess (update_desc c) = llama_sess c"
  "llama_pool_of (update_desc c) = llama_pool_of c"
  "d_quantization (cx_desc_v2 (update_desc c)) = cx_quantization c" "d_base (cx_desc_v2 (update_desc c)) = cx_desc (update_desc c)"
  "d_name (cx_desc (update_desc c)) = model_name_str c" "d_dimension (cx_desc (update_desc c)) = cx_dim c"
  by (simp_all add: update_desc_def Let_def)

lemma with_cache_fields [simp]:
  "backend_type (with_cache n c) = backend_type c" "onnx_sess (with_cache n c) = onnx_sess c"
  "onnx_tok (with_cache n c) = onnx_tok c" "cx_quantization (with_cache n c) = cx_quantization c"
  "cx_dim (with_cache n c) = cx_dim c" "cx_max_length (with_cache n c) = cx_max_length c"
  "model_name_str (with_cache n c) = model_name_str c" "cx_batch_size (with_cache n c) = cx_batch_size c"
  "cx_cache (with_cache n c) = (if n > 0 then Some (lru_new (nat n) 0) else cx_cache c)"
  "llama_sess (with_cache n c) = llama_sess c" "llama_pool_of (with_cache n c) = llama_pool_of c"
  by (simp_all add: with_cache_def)

text \<open>What every creation hands out and every call keeps.\<close>

definition text_ctx_typed :: "('m, 'f) text_ctx \<Rightarrow> bool" where
  "text_ctx_typed c \<longleftrightarrow> cx_desc c = cx_desc (update_desc c) \<and> cx_desc_v2 c = cx_desc_v2 (update_desc c) \<and> 0 < cx_batch_size c \<and> (\<forall>l. cx_cache c = Some l \<longrightarrow> lru_inv l) \<and>
     (backend_type c \<noteq> BACKEND_LLAMACPP \<longrightarrow>
        opened (onnx_sess c) \<and> ids_in_table (onnx_tok c) \<and> max_length (onnx_tok c) = cx_max_length c \<and> 0 < cx_max_length c)"

lemma load_blob_typed:
  assumes "load_from_blob parse blob ml tokenizer_new = Inr t"
  shows "ids_in_table t \<and> max_length t = ml"
proof -
  let ?t0 = "tokenizer_new\<lparr>max_length := ml\<rparr>"
  obtain root t1 t2 where "parse (c_str blob) = Some root" and t1: "read_model root ?t0 = Inr t1" and t2: "read_added root (read_flags root t1) = Inr t2"
    and t: "t = read_padding root t2"
    using assms by (auto simp: load_from_blob_def bind_sum_Inr split: option.splits)
  have "ids_in_table ?t0 \<and> max_length ?t0 = ml" by (simp add: ids_in_table_def tokenizer_new_def)
  then have "ids_in_table t1 \<and> max_length t1 = ml" by (rule read_model_inv [OF t1])
  then have "ids_in_table (read_flags root t1) \<and> max_length (read_flags root t1) = ml"
    by (simp add: read_flags_def ids_in_table_def)
  from read_added_inv(1) [OF t2 this] t show ?thesis by simp
qed

lemma create_session_opened: "create_session fails io call calls s = (Inr (), s', n) \<Longrightarrow> opened s'"
  by (auto simp: create_session_def query_io_names_def Let_def split: option.splits sum.splits prod.splits)

lemma positive_or_pos: "0 < d \<Longrightarrow> 0 < positive_or n d" by (simp add: positive_or_def)

lemma finish_typed:
  assumes "finish_onnx n (load_onnx env (res, s, k) tok c) = Some r" and "cr_ctx r = Some c'"
    and "res = Inr () \<Longrightarrow> opened s" and "\<And>t. tok = Inr t \<Longrightarrow> ids_in_table t \<and> max_length t = cx_max_length c"
    and "0 < cx_max_length c" and "0 < cx_batch_size c" and "cx_cache c = None"
  shows "text_ctx_typed c' \<and> cr_status r = OK"
proof -
  from assms(2) have "cr_status r = OK \<or> cr_ctx r \<noteq> None" by simp
  from finish_cases [OF assms(1) this] obtain t where t: "res = Inr ()" "tok = Inr t"
    "r = granted (update_desc (with_cache n (c\<lparr>onnx_sess := s, onnx_tok := t\<rparr>)))" .
  with assms(2-7) show ?thesis by (auto simp: text_ctx_typed_def update_desc_idem lru_new_inv granted_def split: if_splits)
qed

lemma registry_lengths: "\<forall>m \<in> set text_models. 0 < max_tokens m"
  by code_simp

lemma registry_modes: "\<forall>m \<in> set text_models. quant_code (model_quantization m) \<noteq> quant_code Q_AUTO"
  by code_simp

lemma create_typed:
  assumes "lembed_text_embedding_create env opts out_ok dk = (Some r, dk')" and "cr_ctx r = Some c"
  shows "text_ctx_typed c \<and> cr_status r = OK"
proof -
  from assms(2) have "cr_status r = OK \<or> cr_ctx r \<noteq> None" by simp
  from create_runs [OF assms(1) this] obtain o' info dir err s n res tok where "opts = Some o'" and
    info: "lembed_get_text_model_info (o_model o') True = (OK, Some info)"
    and session: "onnx_load_from_file (le_fails env) (le_io env) (dir @ ''/'' @ model_file info) (o_num_threads o') (o_provider o')
          (quant_code (model_quantization info)) onnx_session_new = (res, s, n)"
    and tok: "load_from_file (le_parse env) (map_of (dk_files dk')) (dir @ ''/tokenizer.json'')
          (positive_or (o_max_length o') (max_tokens info)) tokenizer_new = tok"
    and run: "finish_onnx (o_cache_size o') (load_onnx env (res, s, n) tok (onnx_context o' info)) = Some r" .
  have "info \<in> set text_models"
    using info unfolding text_info by (auto simp: TEXT_MODEL_COUNT_def text_models_length intro!: nth_mem)
  then have "0 < positive_or (o_max_length o') (max_tokens info)" using registry_lengths by (auto intro: positive_or_pos)
  moreover have "ids_in_table t \<and> max_length t = cx_max_length (onnx_context o' info)" if "tok = Inr t" for t
    using that tok load_blob_typed by (auto simp: load_from_file_def split: option.splits)
  moreover have "opened s" if "res = Inr ()"
    using that session create_session_opened by (auto simp: onnx_load_from_file_def)
  ultimately show ?thesis
    by (intro finish_typed [OF run assms(2)]) (simp_all add: positive_or_pos DEFAULT_BATCH_SIZE_def)
qed

lemma create_custom_typed:
  assumes "lembed_text_embedding_create_custom env m provider threads out_ok = Some r" and "cr_ctx r = Some c"
  shows "text_ctx_typed c \<and> cr_status r = OK"
proof -
  obtain m' onnx blob where m': "m = Some m'" "um_onnx m' = Some onnx" "um_tokenizer m' = Some blob" "out_ok"
    using assms by (auto simp: lembed_text_embedding_create_custom_def refused_def split: option.splits if_splits)
  define c0 :: "('a, 'b) text_ctx" where
    "c0 = text_ctx_new\<lparr>backend_type := BACKEND_ONNX, cx_pooling := um_pooling m', cx_quantization := quant_code Q_NONE,
       cx_dim := um_dim m', cx_max_length := positive_or (um_max_length m') DEFAULT_MAX_LENGTH,
       model_name_str := ''custom-model'', cx_num_threads := threads, cx_batch_size := DEFAULT_BATCH_SIZE,
       batch_strategy := BATCH_LENGTH_BUCKET, cx_provider := provider, cx_device_id := 0\<rparr>"
  obtain res s n where session: "onnx_load_from_memory (le_fails env) (le_io env) onnx threads provider 0 onnx_session_new = (res, s, n)"
    by (rule prod_cases3)
  let ?tok = "load_from_blob (le_parse env) blob (cx_max_length c0) tokenizer_new"
  have run: "finish_onnx 0 (load_onnx env (res, s, n) ?tok c0) = Some r"
    using assms(1) m' session by (simp add: lembed_text_embedding_create_custom_def Let_def c0_def)
  show ?thesis
  proof (rule finish_typed [OF run assms(2)])
    show "res = Inr () \<Longrightarrow> opened s"
      using create_session_opened session by (auto simp: onnx_load_from_memory_def)
    show "ids_in_table t \<and> max_length t = cx_max_length c0" if "?tok = Inr t" for t
      using that load_blob_typed by blast
  qed (simp_all add: c0_def positive_or_pos DEFAULT_MAX_LENGTH_def DEFAULT_BATCH_SIZE_def)
qed

text \<open>The descriptors of a request that was resolved: what the mode recorded at the end agrees with.\<close>

lemma resolve_refuses: "resolve_quantization se model requested dk = (Inl s, dk') \<Longrightarrow> s = MODEL_NOT_FOUND"
  by (auto simp: resolve_quantization_def Let_def split: prod.splits option.splits if_splits)

lemma quantization_eta: "cx_quantization c = q \<Longrightarrow> c\<lparr>cx_quantization := q\<rparr> = c"
  by (cases c) simp

lemma create_v2_runs:
  assumes "lembed_text_embedding_create_v2 env se (Some (base, requested)) True dk = (Some r, dk')"
    and "cr_status r = OK \<or> cr_ctx r \<noteq> None"
  obtains v dir n t s k dk1 where "lembed_text_embedding_create env (Some (base\<lparr>o_model := v\<rparr>)) True dk1 = (Some r, dk')"
    and "0 \<le> o_model base" and "o_model base < TEXT_MODEL_COUNT" and "0 \<le> v" and "v < TEXT_MODEL_COUNT"
    and "model_name (text_models ! nat v) = model_name (text_models ! nat (o_model base))"
    and "requested \<noteq> quant_code Q_AUTO \<longrightarrow> quant_code (model_quantization (text_models ! nat v)) = requested"
    and "onnx_load_from_file (le_fails env) (le_io env) (dir @ ''/'' @ model_file (text_models ! nat v)) (o_num_threads base)
          (o_provider base) (quant_code (model_quantization (text_models ! nat v))) onnx_session_new = (Inr (), s, n)"
    and "r = granted (update_desc (with_cache k
          ((onnx_context (base\<lparr>o_model := v\<rparr>) (text_models ! nat v))\<lparr>onnx_sess := s, onnx_tok := t\<rparr>)))"
proof -
  obtain v resolved dk1 where res: "resolve_quantization se (o_model base) requested dk = (Inr (v, resolved), dk1)"
    using assms by (auto simp: lembed_text_embedding_create_v2_def refused_def dest: resolve_refuses split: prod.splits sum.splits)
  obtain r0 dk2 where cr: "lembed_text_embedding_create env (Some (base\<lparr>o_model := v\<rparr>)) True dk1 = (Some r0, dk2)"
    using assms(1) res by (auto simp: lembed_text_embedding_create_v2_def split: prod.splits option.splits)
  have r: "r = (case cr_ctx r0 of None \<Rightarrow> r0 | Some c \<Rightarrow> if cr_status r0 \<noteq> OK then r0 else
      r0\<lparr>cr_ctx := Some (if resolved \<noteq> quant_code Q_AUTO then c\<lparr>cx_quantization := resolved\<rparr> else c)\<rparr>)"
    using assms(1) res cr by (simp add: lembed_text_embedding_create_v2_def split: option.splits if_splits) 
  have "cr_status r0 = OK \<or> cr_ctx r0 \<noteq> None" using assms(2) r by (auto split: option.splits if_splits)
  from create_runs [OF cr this] obtain o' info dir err s n res' tok where o': "Some (base\<lparr>o_model := v\<rparr>) = Some o'"
    and info: "lembed_get_text_model_info (o_model o') True = (OK, Some info)"
    and session: "onnx_load_from_file (le_fails env) (le_io env) (dir @ ''/'' @ model_file info) (o_num_threads o') (o_provider o')
          (quant_code (model_quantization info)) onnx_session_new = (res', s, n)"
    and run: "finish_onnx (o_cache_size o') (load_onnx env (res', s, n) tok (onnx_context o' info)) = Some r0" .
  from finish_cases [OF run \<open>cr_status r0 = OK \<or> _\<close>] obtain t where t: "res' = Inr ()"
    "r0 = granted (update_desc (with_cache (o_cache_size o') ((onnx_context o' info)\<lparr>onnx_sess := s, onnx_tok := t\<rparr>)))" .
  from info o' have v: "0 \<le> v" "v < TEXT_MODEL_COUNT" "info = text_models ! nat v" by (auto simp: text_info)
  have range: "0 \<le> o_model base" "o_model base < TEXT_MODEL_COUNT"
  proof -
    have "0 \<le> o_model base \<and> o_model base < TEXT_MODEL_COUNT"
    proof (cases rule: text_info_cases [of "o_model base"])
      case 2
      with res have "v = o_model base" by (simp add: resolve_quantization_def)
      with v show ?thesis by simp
    qed (simp add: text_info)
    then show "0 \<le> o_model base" "o_model base < TEXT_MODEL_COUNT" by simp_all
  qed
  note sound = resolve_sound [OF res range]
  have q: "resolved \<noteq> quant_code Q_AUTO \<Longrightarrow> resolved = quant_code (model_quantization info)"
    and name: "model_name (text_models ! nat v) = model_name (text_models ! nat (o_model base))"
    using sound v(3) by (auto simp: variant_of_def)
  let ?c = "update_desc (with_cache (o_cache_size o') ((onnx_context o' info)\<lparr>onnx_sess := s, onnx_tok := t\<rparr>))"
  have "cx_quantization ?c = quant_code (model_quantization info)" by simp
  then have same: "?c\<lparr>cx_quantization := quant_code (model_quantization info)\<rparr> = ?c" by (rule quantization_eta)
  have "r = r0" using r q same unfolding t(2) by (cases "resolved = quant_code Q_AUTO") (simp_all add: granted_def)
  moreover have "dk2 = dk'" using assms(1) res cr by (simp add: lembed_text_embedding_create_v2_def split: option.splits if_splits)
  moreover have "requested \<noteq> quant_code Q_AUTO \<longrightarrow> quant_code (model_quantization (text_models ! nat v)) = requested"
    using sound q v(3) by auto
  ultimately show ?thesis
    using that [OF _ range v(1,2) name _ _, of dk1 dir s n "o_cache_size base" t] cr session o' t v(3) by auto
qed

lemma load_gguf_frame:
  assumes "load_gguf env path opts c = Some (Inr c1)"
  shows "cx_batch_size c1 = cx_batch_size c \<and> backend_type c1 = backend_type c \<and> cx_cache c1 = cx_cache c"
  using assms by (auto simp: load_gguf_def split: if_splits option.splits sum.splits prod.splits)

lemma gguf_path_loaded:
  assumes "lembed_text_embedding_create_from_gguf_path env path opts out_ok = Some r" and "cr_ctx r = Some c"
  obtains p o' c1 where "path = Some p" and "opts = Some o'" and "load_gguf env p o' (gguf_context p o') = Some (Inr c1)"
    and "c = update_desc (with_cache (o_cache_size o') (sized_by_session c1))" and "cr_status r = OK"
  using assms
  by (auto simp: lembed_text_embedding_create_from_gguf_path_def refused_def granted_def split: option.splits if_splits sum.splits)

lemma gguf_path_typed:
  assumes "lembed_text_embedding_create_from_gguf_path env path opts out_ok = Some r" and "cr_ctx r = Some c"
  shows "text_ctx_typed c \<and> cr_status r = OK"
proof -
  from gguf_path_loaded [OF assms] obtain p o' c1 where c1: "load_gguf env p o' (gguf_context p o') = Some (Inr c1)"
    "c = update_desc (with_cache (o_cache_size o') (sized_by_session c1))" "cr_status r = OK" .
  from load_gguf_frame [OF c1(1)] c1(2,3) show ?thesis
    by (auto simp: text_ctx_typed_def update_desc_idem lru_new_inv positive_or_pos DEFAULT_BATCH_SIZE_def gguf_context_def
      sized_by_session_def Let_def split: if_splits)
qed

lemma gguf_model_typed:
  assumes "lembed_text_embedding_create_from_gguf_model env repo filename opts out_ok dk = (Some r, dk')" and "cr_ctx r = Some c"
  shows "text_ctx_typed c \<and> cr_status r = OK"
  using assms
  by (auto simp: lembed_text_embedding_create_from_gguf_model_def refused_def
      split: option.splits list.splits if_splits prod.splits dest: gguf_path_typed)

lemma from_path_typed:
  assumes "lembed_text_embedding_create_from_path env dir opts out_ok dk = Some r" and "cr_ctx r = Some c"
  shows "text_ctx_typed c \<and> cr_status r = OK"
proof -
  consider (gguf) path o' where "lembed_text_embedding_create_from_gguf_path env path o' True = Some r"
    | (custom) m p t r0 c0 n name b where "lembed_text_embedding_create_custom env m p t True = Some r0" "cr_ctx r0 = Some c0"
        "r = granted (update_desc (with_cache n (c0\<lparr>model_name_str := name, cx_batch_size := positive_or b DEFAULT_BATCH_SIZE\<rparr>)))"
    using assms
    by (auto simp: lembed_text_embedding_create_from_path_def refused_def Let_def
      split: option.splits list.splits if_splits sum.splits prod.splits)
  then show ?thesis
  proof cases
    case gguf
    then show ?thesis using assms(2) by (rule gguf_path_typed)
  next
    case custom
    from create_custom_typed [OF custom(1,2)] assms(2) custom(3) show ?thesis
      by (auto simp: text_ctx_typed_def granted_def update_desc_idem lru_new_inv positive_or_pos DEFAULT_BATCH_SIZE_def
        split: if_splits)
  qed
qed

section \<open>A call keeps its context\<close>

definition kept :: "('m, 'f) text_ctx \<Rightarrow> ('m, 'f) text_ctx \<Rightarrow> bool" where
  "kept c c' \<longleftrightarrow> backend_type c' = backend_type c \<and> onnx_sess c' = onnx_sess c \<and> onnx_tok c' = onnx_tok c \<and>
     cx_pooling c' = cx_pooling c \<and> cx_quantization c' = cx_quantization c \<and> cx_dim c' = cx_dim c \<and>
     cx_max_length c' = cx_max_length c \<and> model_name_str c' = model_name_str c \<and> cx_num_threads c' = cx_num_threads c \<and>
     cx_batch_size c' = cx_batch_size c \<and> cx_provider c' = cx_provider c \<and> cx_device_id c' = cx_device_id c \<and>
     cx_desc c' = cx_desc c \<and> cx_desc_v2 c' = cx_desc_v2 c \<and>
     rel_option (\<lambda>l l'. (lru_inv l \<longrightarrow> lru_inv l') \<and> capacity l' = capacity l) (cx_cache c) (cx_cache c')"

lemma kept_refl [simp]: "kept c c"
  by (simp add: kept_def option.rel_refl)

lemma kept_trans: "kept a b \<Longrightarrow> kept b c \<Longrightarrow> kept a c"
  by (auto simp: kept_def option_rel_Some1 elim!: option.rel_cases) 

lemma kept_typed: "kept c c' \<Longrightarrow> text_ctx_typed c \<Longrightarrow> text_ctx_typed c'"
  by (auto simp: kept_def text_ctx_typed_def update_desc_def Let_def elim!: option.rel_cases)

lemma kept_counts [simp]:
  "kept c (c\<lparr>pooled_buf := x\<rparr>)" "kept c (c\<lparr>texts_embedded := n, batches_run := k\<rparr>)"
  "kept c (count_hits rs c)" "kept c (c\<lparr>total_latency := t, stats_calls := j\<rparr>)"
  by (simp_all add: kept_def option.rel_refl count_hits_def)

lemma kept_cache: "cx_cache c = Some l \<Longrightarrow> (lru_inv l \<longrightarrow> lru_inv l') \<Longrightarrow> capacity l' = capacity l \<Longrightarrow> kept c (c\<lparr>cx_cache := Some l'\<rparr>)"
  by (simp add: kept_def)

lemma lru_get_vec_capacity [simp]: "capacity (snd (lru_get_vec now k c)) = capacity c"
  using exec_op_frame(1) [of "OpGet now k" c] by (simp add: lru_get_vec_touch lru_get_def split_beta)

lemma scan_kept: "scan_cache (lru_get_vec now) u ks l = (rs, l') \<Longrightarrow> (lru_inv l \<longrightarrow> lru_inv l') \<and> capacity l' = capacity l"
proof (induction ks arbitrary: l rs l')
  case (Cons k ks)
  obtain r l1 where get: "lru_get_vec now k l = (r, l1)" by fastforce
  obtain rs1 l2 where scan: "scan_cache (lru_get_vec now) u ks l1 = (rs1, l2)" by fastforce
  have "(lru_inv l \<longrightarrow> lru_inv l1) \<and> capacity l1 = capacity l"
    using lru_get_vec_inv [of l now k] lru_get_vec_capacity [of now k l] get by simp
  with Cons.IH [OF scan] Cons.prems get scan show ?case by auto
qed simp

lemma store_kept: "(lru_inv l \<longrightarrow> lru_inv (store_all (\<lambda>k. lru_put (ok k) now k) kvs l)) \<and>
    capacity (store_all (\<lambda>k. lru_put (ok k) now k) kvs l) = capacity l"
proof (induction kvs arbitrary: l)
  case (Cons kv kvs)
  obtain k v where kv: "kv = (k, v)" by fastforce
  show ?case using Cons.IH [of "lru_put (ok k) now k v l"] lru_put_inv [of l "ok k" now k v]
      exec_op_frame(1) [of "OpPut (ok k) now k v" l] by (simp add: kv)
qed simp

lemma embed_subset_kept: "embed_subset env c b texts out = (r, c') \<Longrightarrow> kept c c'"
  using embed_subset_frame [of env c b texts out] by auto

lemma count_run_kept: "count_run b always n asked c = Inr c' \<Longrightarrow> kept c c'"
  by (auto simp: count_run_def split: option.splits)

lemma embed_body_kept:
  assumes "embed_body env now c b texts out = (r, c')"
  shows "kept c c'"
proof (cases "cx_cache c")
  case None
  with assms show ?thesis
    by (auto simp: embed_body_def embed_uncached_def split: prod.splits sum.splits
      dest: embed_subset_kept count_run_kept intro: kept_trans)
next
  case (Some cache)
  obtain rs l1 where scan: "scan_cache (lru_get_vec now) (usable_hit c) texts cache = (rs, l1)" by fastforce
  let ?c1 = "(count_hits rs c)\<lparr>cx_cache := Some l1\<rparr>"
  let ?miss = "missing rs texts"
  obtain r1 c2 where sub: "(if ?miss = [] then (Inr [], ?c1)
      else embed_subset env ?c1 b ?miss (replicate (length ?miss) (replicate (nat (cx_dim c)) 0))) = (r1, c2)" by fastforce
  have "kept (count_hits rs c) ?c1"
    using scan_kept [OF scan] Some by (intro kept_cache) (simp_all add: count_hits_def)
  then have c1: "kept c ?c1" by (rule kept_trans [OF kept_counts(3)])
  moreover have "kept ?c1 c2" using sub by (auto split: if_splits dest: embed_subset_kept)
  ultimately have c2: "kept c c2" by (rule kept_trans)
  show ?thesis
  proof (cases r1)
    case (Inl e)
    with assms Some scan sub c2 show ?thesis by (simp add: embed_body_def embed_cached_def Let_def)
  next
    case (Inr vs)
    let ?l2 = "store_all (\<lambda>k. lru_put (env_put_ok env k) now k) (zip ?miss vs) l1"
    obtain l where l: "cx_cache c2 = Some l" using c2 Some by (auto simp: kept_def elim: option.rel_cases)
    have "l = l1" using sub l embed_subset_frame [of env ?c1 b ?miss "replicate (length ?miss) (replicate (nat (cx_dim c)) 0)"]
      by (auto split: if_splits)
    with l store_kept [of l1 "env_put_ok env" now "zip ?miss vs"] have "kept c2 (c2\<lparr>cx_cache := Some ?l2\<rparr>)"
      by (intro kept_cache) simp_all
    then have c3: "kept c (c2\<lparr>cx_cache := Some ?l2\<rparr>)" by (rule kept_trans [OF c2])
    from assms Some scan sub Inr c2 show ?thesis
      by (auto simp: embed_body_def embed_cached_def Let_def split: sum.splits
        intro: kept_trans [OF c3] dest: count_run_kept)
  qed
qed

lemma text_embed_kept:
  assumes "text_embed env now fresh elapsed c texts b r = Some (s, r', Some c', m)"
  shows "kept c c'"
  using assms
  by (auto simp: text_embed_def Let_def split: option.splits prod.splits sum.splits embed_fail.splits
    dest: embed_body_kept intro: kept_trans)

lemma text_embed_stream_kept:
  assumes "snd (text_embed_stream env c texts b) = Some (s, Some c', m)"
  shows "kept c c'"
  using assms
  by (auto simp: text_embed_stream_def Let_def split: if_splits prod.splits sum.splits embed_fail.splits
    dest!: count_run_kept intro: kept_trans [OF kept_counts(1)])

text \<open>Every way to create a context.\<close>

inductive creation :: "('m, 'f, 'd) load_env \<Rightarrow> ('g::floor_ceiling) select_env \<Rightarrow> ('m, 'f::zero) created \<Rightarrow> bool"
  for env se where
  by_model: "lembed_text_embedding_create env opts out_ok dk = (Some r, dk') \<Longrightarrow> creation env se r"
| by_mode: "lembed_text_embedding_create_v2 env se opts2 out_ok dk = (Some r, dk') \<Longrightarrow> creation env se r"
| by_user: "lembed_text_embedding_create_custom env model provider threads out_ok = Some r \<Longrightarrow> creation env se r"
| by_gguf_path: "lembed_text_embedding_create_from_gguf_path env path opts out_ok = Some r \<Longrightarrow> creation env se r"
| by_gguf_model: "lembed_text_embedding_create_from_gguf_model env repo filename opts out_ok dk = (Some r, dk') \<Longrightarrow> creation env se r"
| by_path: "lembed_text_embedding_create_from_path env path opts out_ok dk = Some r \<Longrightarrow> creation env se r"

text \<open>
  What a context can become: any sequence of calls that change it, embedding and streaming, with any arguments and
  surroundings, whether they succeed or fail. The other calls only read it.
\<close>

inductive used :: "('m, 'f::{zero,one,plus,times,inverse,ord}) text_ctx \<Rightarrow> ('m, 'f) text_ctx \<Rightarrow> bool" for c where
  unused: "used c c"
| embedded: "used c c1 \<Longrightarrow> lembed_text_embedding_embed run now fresh elapsed (Some c1) texts n b res = Some (s, res', Some c', m)
    \<Longrightarrow> used c c'"
| streamed: "used c c1 \<Longrightarrow> lembed_text_embedding_embed_stream run (Some c1) texts n b has_callback = (vs, Some (s, Some c', m))
    \<Longrightarrow> used c c'"

lemma used_kept: "used c c' \<Longrightarrow> kept c c'"
proof (induction rule: used.induct)
  case (embedded c1 run now fresh elapsed texts n b res s res' c' m)
  have "kept c1 c'"
    using embedded.hyps(2) by (auto simp: lembed_text_embedding_embed_def split: option.splits if_splits dest: text_embed_kept)
  with embedded.IH show ?case by (rule kept_trans)
next
  case (streamed c1 run texts n b has_callback vs s c' m)
  have "kept c1 c'"
    using streamed.hyps(2) text_embed_stream_kept [of run c1 _ b s c' m]
    by (auto simp: lembed_text_embedding_embed_stream_def split: option.splits if_splits) (metis snd_conv)
  with streamed.IH show ?case by (rule kept_trans)
qed simp

lemma create_v2_typed:
  assumes "lembed_text_embedding_create_v2 env se (Some (base, requested)) True dk = (Some r, dk')" and "cr_ctx r = Some c"
  shows "text_ctx_typed c \<and> cr_status r = OK"
proof -
  from assms(2) have "cr_status r = OK \<or> cr_ctx r \<noteq> None" by simp
  from create_v2_runs [OF assms(1) this] obtain v dk1 where
    "lembed_text_embedding_create env (Some (base\<lparr>o_model := v\<rparr>)) True dk1 = (Some r, dk')" by blast
  then show ?thesis using assms(2) by (rule create_typed)
qed

section \<open>Properties\<close>

text \<open>C13. A creation with a requested mode that succeeds has opened the weights of a registry entry of the
  very family that was asked for, in the mode that was asked for unless that was AUTO. The context and its descriptor
  report that entry's name and dimension, the extended descriptor repeats that and reports its mode; AUTO
  itself is never reported.\<close>

theorem create_v2_loads:
  assumes "lembed_text_embedding_create_v2 env se (Some (base, requested)) True dk = (Some r, dk')" and "cr_status r = OK"
  shows "\<exists>c v dir n. cr_ctx r = Some c \<and> 0 \<le> v \<and> v < TEXT_MODEL_COUNT \<and>
    onnx_load_from_file (le_fails env) (le_io env) (dir @ ''/'' @ model_file (text_models ! nat v)) (o_num_threads base)
      (o_provider base) (cx_quantization c) onnx_session_new = (Inr (), onnx_sess c, n) \<and>
    model_name_str c = model_name (text_models ! nat (o_model base)) \<and> model_name (text_models ! nat v) = model_name_str c \<and>
    cx_quantization c = quant_code (model_quantization (text_models ! nat v)) \<and>
    (requested \<noteq> quant_code Q_AUTO \<longrightarrow> cx_quantization c = requested) \<and> cx_quantization c \<noteq> quant_code Q_AUTO \<and>
    cx_dim c = model_dim (text_models ! nat v) \<and>
    d_name (cx_desc c) = model_name_str c \<and> d_dimension (cx_desc c) = cx_dim c \<and>
    d_base (cx_desc_v2 c) = cx_desc c \<and> d_quantization (cx_desc_v2 c) = cx_quantization c"
proof -
  from assms(2) have "cr_status r = OK \<or> cr_ctx r \<noteq> None" by simp
  from create_v2_runs [OF assms(1) this] obtain v dir n t s k where v: "0 \<le> v" "v < TEXT_MODEL_COUNT"
    and name: "model_name (text_models ! nat v) = model_name (text_models ! nat (o_model base))"
    and q: "requested \<noteq> quant_code Q_AUTO \<longrightarrow> quant_code (model_quantization (text_models ! nat v)) = requested"
    and load: "onnx_load_from_file (le_fails env) (le_io env) (dir @ ''/'' @ model_file (text_models ! nat v)) (o_num_threads base)
          (o_provider base) (quant_code (model_quantization (text_models ! nat v))) onnx_session_new = (Inr (), s, n)"
    and r: "r = granted (update_desc (with_cache k
          ((onnx_context (base\<lparr>o_model := v\<rparr>) (text_models ! nat v))\<lparr>onnx_sess := s, onnx_tok := t\<rparr>)))" .
  let ?c = "update_desc (with_cache k ((onnx_context (base\<lparr>o_model := v\<rparr>) (text_models ! nat v))\<lparr>onnx_sess := s, onnx_tok := t\<rparr>))"
  have "text_models ! nat v \<in> set text_models" using v by (auto simp: TEXT_MODEL_COUNT_def text_models_length intro!: nth_mem)
  with registry_modes have "quant_code (model_quantization (text_models ! nat v)) \<noteq> quant_code Q_AUTO" by simp
  then show ?thesis
    using v name q load r by (intro exI [of _ ?c] exI [of _ v] exI [of _ dir] exI [of _ n]) (simp add: granted_def)
qed

definition sample_options :: text_options where
  "sample_options = \<lparr>o_model = 6, o_provider = 0, o_device_id = 0, o_cache_dir = Some ''c'', o_max_length = 0,
     o_num_threads = 1, o_batch_size = 0, o_offline = False, o_pooling = 0, o_dim = 0, o_n_ctx = 0, o_n_gpu_layers = 0,
     o_n_batch = 0, o_auto_workers = 0, o_cache_size = 0, o_backend = 0, o_batch_strategy = 2\<rparr>"

definition sample_load_env :: "(int, real, int) load_env" where
  "sample_load_env = \<lparr>le_sys = sample_sys, le_fails = \<lambda>_. None, le_io = \<lambda>_. ([''input_ids''], [''out'']), le_llama = sample_real_lib,
     le_parse = \<lambda>_. Some (CObject []), le_onln = 8, le_conf = 8\<rparr>"

definition sample_select_env :: "rat select_env" where
  "sample_select_env = \<lparr>se_machine = sample_machine, se_stod = sample_stod, se_show = sample_print, se_fmt = \<lambda>_ _. [],
     se_calls = all_calls_ok, se_bench = sample_bench, se_merged = True\<rparr>"

theorem create_v2_loads_witness:
  "\<exists>c r dk'. lembed_text_embedding_create_v2 sample_load_env sample_select_env (Some (sample_options, 0)) True
      \<lparr>dk_files = [], dk_dirs = []\<rparr> = (Some r, dk') \<and> cr_ctx r = Some c \<and> cx_quantization c = 0 \<and>
    d_quantization (cx_desc_v2 c) = 0 \<and> model_name_str c = model_name (text_models ! 6)"
proof -
  have "case fst (lembed_text_embedding_create_v2 sample_load_env sample_select_env (Some (sample_options, 0)) True
      \<lparr>dk_files = [], dk_dirs = []\<rparr>) of Some r \<Rightarrow> cr_status r = OK | None \<Rightarrow> False" by code_simp
  then obtain r dk' where r: "lembed_text_embedding_create_v2 sample_load_env sample_select_env (Some (sample_options, 0)) True
      \<lparr>dk_files = [], dk_dirs = []\<rparr> = (Some r, dk')" "cr_status r = OK"
    by (auto split: option.splits simp: prod_eq_iff)
  have "o_model sample_options = 6" "(0::int) \<noteq> quant_code Q_AUTO" by (simp_all add: sample_options_def)
  with create_v2_loads [OF r] obtain c where "cr_ctx r = Some c" "cx_quantization c = 0" "d_quantization (cx_desc_v2 c) = 0"
    "model_name_str c = model_name (text_models ! 6)" by fastforce
  with r(1) show ?thesis by blast
qed

text \<open>C17. Every context that any of the six creations hands out comes with OK, and stays well formed over any
  sequence of embedding and streaming calls, whether they succeed or fail: both descriptors are those of the creation and
  agree with the context, the batch size is positive, the cache keeps its invariant, and with the ONNX backend the
  session is open and the tokenizer, cut at the context's maximum length, holds only ids of its table.\<close>

theorem creation_typed:
  assumes "creation env se r" and "cr_ctx r = Some c" and "used c c'"
  shows "cr_status r = OK \<and> text_ctx_typed c' \<and> cx_desc c' = cx_desc c \<and> cx_desc_v2 c' = cx_desc_v2 c"
proof -
  have "text_ctx_typed c \<and> cr_status r = OK"
    using assms(1)
  proof cases
    case (by_mode opts2 out_ok dk dk')
    then obtain base requested where "opts2 = Some (base, requested)" "out_ok"
      using assms(2) by (cases opts2) (auto simp: lembed_text_embedding_create_v2_def refused_def split: if_splits)
    with by_mode assms(2) show ?thesis using create_v2_typed [of env se base requested dk r dk' c] by simp
  next
    case by_model then show ?thesis using assms(2) by (rule create_typed)
  next
    case by_user then show ?thesis using assms(2) by (rule create_custom_typed)
  next
    case by_gguf_path then show ?thesis using assms(2) by (rule gguf_path_typed)
  next
    case by_gguf_model then show ?thesis using assms(2) by (rule gguf_model_typed)
  next
    case by_path then show ?thesis using assms(2) by (rule from_path_typed)
  qed
  moreover have "kept c c'" using assms(3) by (rule used_kept)
  ultimately show ?thesis using kept_typed by (auto simp: kept_def)
qed

theorem creation_typed_witness:
  "\<exists>r c c'. creation sample_load_env sample_select_env r \<and> cr_ctx r = Some c \<and> used c c' \<and> text_ctx_typed c' \<and> cr_status r = OK"
proof -
  let ?call = "lembed_text_embedding_create_custom sample_load_env (Some \<lparr>um_onnx = Some ''m'', um_tokenizer = Some ''{}'',
      um_dim = 3, um_pooling = POOL_MEAN, um_max_length = 0\<rparr>) 0 1 True"
  have "case ?call of Some r \<Rightarrow> cr_ctx r \<noteq> None | None \<Rightarrow> False" by code_simp
  then obtain r c where r: "?call = Some r" "cr_ctx r = Some c" by (auto split: option.splits)
  have made: "creation sample_load_env sample_select_env r" by (rule creation.by_user [OF r(1)])
  from creation_typed [OF made r(2) used.unused] made r(2) show ?thesis by (blast intro: used.unused)
qed

text \<open>Asking for automatic workers loads the pool but the dimension is read off the session, which was not
  loaded: the context has dimension zero and, without a cache, every embedding it returns is empty
  although the call reports OK; the pool of contexts is never used.\<close>

theorem auto_workers_empty:
  assumes "lembed_text_embedding_create_from_gguf_path env (Some path) (Some opts) True = Some r" and "cr_ctx r = Some c"
    and "o_auto_workers opts \<noteq> 0" and "o_cache_size opts \<le> 0"
  shows "cx_dim c = 0 \<and> lp_contexts (llama_pool_of c) \<noteq> [] \<and>
    (\<exists>c'. text_embed run now (Some out) elapsed c texts b res =
       Some (OK, Some \<lparr>e_data = Some (replicate (length texts) []), e_num = int (length texts), e_dim = 0\<rparr>, Some c', None) \<and>
     llama_pool_of c' = llama_pool_of c)"
proof -
  from gguf_path_loaded [OF assms(1,2)] obtain c1 where c1: "load_gguf env path opts (gguf_context path opts) = Some (Inr c1)"
    and c: "c = update_desc (with_cache (o_cache_size opts) (sized_by_session c1))" by blast
  obtain p w where p: "c1 = (gguf_context path opts)\<lparr>llama_pool_of := p\<rparr>"
    "pool_load (le_llama env) path w 1 (o_n_ctx opts) (o_n_gpu_layers opts) (o_n_batch opts) llama_pool_new = (Inr (), p)"
    using c1 assms(3) by (auto simp: load_gguf_def pool_load_auto_def gguf_context_def split: option.splits sum.splits prod.splits)
  have pool: "lp_contexts p \<noteq> []" using pool_load_ok [OF p(2)] by auto
  have parts: "cx_dim c = 0" "backend_type c = BACKEND_LLAMACPP" "cx_cache c = None" "llama_pool_of c = p"
    "llama_sess c = llama_session_new"
    using c p(1) assms(4) by (simp_all add: sized_by_session_def gguf_context_def llama_session_new_def Let_def)
  have one: "llama_embed_single run c t = Inr []" for t
    using parts by (simp add: llama_embed_single_def llama_embed_def llama_embed_tokens_def llama_session_new_def)
  have rows: "llama_rows run c ts = Inr (replicate (length ts) [])" for ts
    by (induction ts) (simp_all add: one)
  have "llama_embed_batch run c texts = Inr (replicate (length texts) [])"
    by (simp add: llama_embed_batch_def rows normalize_row_def)
  with parts pool show ?thesis
    by (simp add: text_embed_def embed_body_def embed_uncached_def embed_subset_def count_run_def count_batches_def Let_def)
qed

theorem auto_workers_empty_witness:
  "\<exists>r c. lembed_text_embedding_create_from_gguf_path sample_load_env (Some ''m'') (Some (sample_options\<lparr>o_auto_workers := 1\<rparr>)) True
     = Some r \<and> cr_ctx r = Some c \<and> cx_dim c = 0 \<and> lp_contexts (llama_pool_of c) \<noteq> []"
proof -
  let ?call = "lembed_text_embedding_create_from_gguf_path sample_load_env (Some ''m'') (Some (sample_options\<lparr>o_auto_workers := 1\<rparr>)) True"
  have "case ?call of Some r \<Rightarrow> cr_ctx r \<noteq> None | None \<Rightarrow> False" by code_simp
  then obtain r c where r: "?call = Some r" "cr_ctx r = Some c" by (auto split: option.splits)
  with auto_workers_empty [OF r] show ?thesis by (auto simp: sample_options_def)
qed

text \<open>Without a backend of its own, a model is never given to llama.cpp: the suffix compared has four
  characters and the text it is compared with has five, so a name that ends in it is loaded by ONNX Runtime.\<close>

theorem auto_backend_never_llama: "resolve_effective_backend BACKEND_AUTO name = BACKEND_ONNX"
  by (auto simp: resolve_effective_backend_def Let_def dest: arg_cong [where f = length] split: option.split)

end
