(* ===== verification/RerankerCreate.thy ===== *)
theory RerankerCreate
  imports Reranker TextCreate
begin

text \<open>
  Creating a reranker (\<open>detail/reranker_impl.hpp\<close>, \<open>detail/reranker_llama_impl.hpp\<close>): from the registry, with
  a requested quantization, from a directory and from a GGUF file. A creation yields its status, the last
  context it stored in \<open>*out\<close>, its message and how many stored contexts it overwrote. \<open>None\<close> is
  undefined behaviour: a null \<open>out\<close> written to, or an undefined index in the tokenizer.
\<close>

section \<open>Options and results\<close>

record reranker_options =
  ro_model :: int
  ro_provider :: int
  ro_device_id :: int
  ro_cache_dir :: "string option"
  ro_max_length :: int
  ro_num_threads :: int
  ro_batch_size :: int
  ro_offline :: bool
  ro_backend :: int
  ro_n_ctx :: int
  ro_n_gpu_layers :: int
  ro_n_batch :: int
  ro_auto_workers :: int
  ro_cache_size :: int

definition RERANKER_MODEL_DEFAULT :: int where "RERANKER_MODEL_DEFAULT = 4"

definition lembed_reranker_options_default :: reranker_options where
  "lembed_reranker_options_default = \<lparr>ro_model = RERANKER_MODEL_DEFAULT, ro_provider = 0, ro_device_id = 0,
     ro_cache_dir = None, ro_max_length = 0, ro_num_threads = 0, ro_batch_size = DEFAULT_BATCH_SIZE, ro_offline = False,
     ro_backend = 2, ro_n_ctx = 0, ro_n_gpu_layers = 0, ro_n_batch = 0, ro_auto_workers = 0, ro_cache_size = 0\<rparr>"

definition lembed_reranker_options_default_v2 :: "reranker_options \<times> int" where
  "lembed_reranker_options_default_v2 = (lembed_reranker_options_default, quant_code Q_NONE)"

record ('m, 'f) reranker_created =
  rc_status :: status
  rc_ctx :: "('m, 'f) reranker option"
  rc_error :: "string option"
  rc_lost :: nat

definition rk_refused :: "status \<Rightarrow> string option \<Rightarrow> ('m, 'f) reranker_created" where
  "rk_refused s err = \<lparr>rc_status = s, rc_ctx = None, rc_error = map_option set_error err, rc_lost = 0\<rparr>"

text \<open>\<open>*out = ctx\<close>\<close>

definition rk_granted :: "bool \<Rightarrow> ('m, 'f) reranker \<Rightarrow> ('m, 'f) reranker_created option" where
  "rk_granted out_ok c = (if out_ok then Some \<lparr>rc_status = OK, rc_ctx = Some c, rc_error = None, rc_lost = 0\<rparr> else None)"

definition reranker_new :: "('m, 'f::zero) reranker" where
  "reranker_new = \<lparr>rk_backend = BACKEND_ONNX, rk_sess = onnx_session_new, rk_tok = tokenizer_new,
     rk_llama = llama_session_new, rk_quantization = 0, rk_max_length = 0, rk_model_name = [], rk_num_threads = 0,
     rk_batch_size = 0, rk_provider = 0, rk_device_id = 0, rk_desc = desc_new,
     rk_desc_v2 = \<lparr>d_base = desc_new, d_quantization = 0, d_cache_size = 0\<rparr>, rk_texts = 0, rk_batches = 0, rk_hits = 0,
     rk_misses = 0, rk_latency = 0, rk_calls = 0, rk_cache = None\<rparr>"

definition rk_set_desc :: "('m, 'f) reranker \<Rightarrow> ('m, 'f) reranker" where
  "rk_set_desc c = c\<lparr>rk_desc := \<lparr>d_name = rk_model_name c, d_dimension = 0, d_max_length = rk_max_length c,
     d_pooling = POOL_MEAN, d_num_threads = rk_num_threads c, d_batch_size = rk_batch_size c,
     d_provider = rk_provider c, d_device_id = rk_device_id c\<rparr>\<rparr>"

definition rk_set_desc_v2 :: "('m, 'f) reranker \<Rightarrow> ('m, 'f) reranker" where
  "rk_set_desc_v2 c = c\<lparr>rk_desc_v2 := \<lparr>d_base = rk_desc c, d_quantization = rk_quantization c,
     d_cache_size = (case rk_cache c of None \<Rightarrow> 0 | Some l \<Rightarrow> int (capacity l))\<rparr>\<rparr>"

definition rk_with_cache :: "int \<Rightarrow> ('m, 'f) reranker \<Rightarrow> ('m, 'f) reranker" where
  "rk_with_cache n c = (if n > 0 then c\<lparr>rk_cache := Some (lru_new (nat n) 0)\<rparr> else c)"

text \<open>Loading the session and the tokenizer; a context whose loading throws is deleted with its cache.\<close>

definition rk_load ::
    "status \<Rightarrow> bool \<Rightarrow> (string + unit) \<times> onnx_session \<times> nat \<Rightarrow> tok_fail + tokenizer \<Rightarrow> ('m, 'f) reranker
      \<Rightarrow> ('m, 'f) reranker_created option" where
  "rk_load failure out_ok session tok c =
     (case session of
        (Inl msg, _) \<Rightarrow> Some (rk_refused failure (Some msg))
      | (Inr _, s, _) \<Rightarrow>
          (case tok of
             Inl e \<Rightarrow> (case thrown e of Undef \<Rightarrow> None | Threw msg \<Rightarrow> Some (rk_refused failure (Some msg)))
           | Inr t \<Rightarrow> rk_granted out_ok (rk_set_desc_v2 (rk_set_desc (c\<lparr>rk_sess := s, rk_tok := t\<rparr>)))))"

section \<open>ONNX models of the registry\<close>

definition reranker_onnx_context ::
    "reranker_options \<Rightarrow> model_info \<Rightarrow> int \<Rightarrow> bool \<Rightarrow> ('m, 'f::zero) reranker" where
  "reranker_onnx_context opts info quantization from_options =
     rk_with_cache (ro_cache_size opts) (reranker_new\<lparr>rk_backend := BACKEND_ONNX,
       rk_quantization := (if from_options then quantization else quant_code (model_quantization info)),
       rk_max_length := positive_or (ro_max_length opts) (max_tokens info), rk_model_name := model_name info,
       rk_num_threads := ro_num_threads opts, rk_batch_size := positive_or (ro_batch_size opts) DEFAULT_BATCH_SIZE,
       rk_provider := ro_provider opts, rk_device_id := ro_device_id opts\<rparr>)"

definition reranker_create_onnx_impl ::
    "('m, 'f::zero, 'd) load_env \<Rightarrow> reranker_options \<Rightarrow> int \<Rightarrow> bool \<Rightarrow> bool \<Rightarrow> disk
      \<Rightarrow> ('m, 'f) reranker_created option \<times> disk" where
  "reranker_create_onnx_impl env opts quantization from_options out_ok dk =
     (case lembed_get_reranker_model_info (ro_model opts) True of (s0, row) \<Rightarrow>
        if s0 \<noteq> OK then (Some (rk_refused s0 None), dk)
        else case row of None \<Rightarrow> (None, dk) | Some info \<Rightarrow>
        case lembed_ensure_reranker_model (le_sys env) (ro_model opts) (ro_cache_dir opts) (ro_offline opts) True dk of
          ((s1, model_dir, err), dk1) \<Rightarrow>
            if s1 \<noteq> OK then (Some \<lparr>rc_status = s1, rc_ctx = None, rc_error = err, rc_lost = 0\<rparr>, dk1)
            else case model_dir of None \<Rightarrow> (None, dk1) | Some dir \<Rightarrow>
              let c = reranker_onnx_context opts info quantization from_options;
                  session = onnx_load_from_file (le_fails env) (le_io env) (dir @ ''/'' @ model_file info)
                              (ro_num_threads opts) (ro_provider opts) (rk_quantization c) (rk_sess c);
                  tok = load_from_file (le_parse env) (map_of (dk_files dk1)) (dir @ ''/tokenizer.json'')
                          (rk_max_length c) (rk_tok c)
              in (rk_load ONNX_RUNTIME out_ok session tok c, dk1))"

section \<open>GGUF models\<close>

definition reranker_gguf_context :: "string \<Rightarrow> reranker_options \<Rightarrow> ('m, 'f::zero) reranker" where
  "reranker_gguf_context path opts =
     reranker_new\<lparr>rk_backend := BACKEND_LLAMACPP, rk_max_length := positive_or (ro_max_length opts) 512,
       rk_model_name := path_filename path, rk_num_threads := positive_or (ro_num_threads opts) 4,
       rk_batch_size := positive_or (ro_batch_size opts) DEFAULT_BATCH_SIZE, rk_provider := PROVIDER_LLAMACPP,
       rk_device_id := ro_device_id opts\<rparr>"

text \<open>The session gets 512, 0 and 0 for the context, the GPU layers and the batch, whatever the options say.\<close>

definition lembed_reranker_create_from_gguf_path ::
    "('m, 'f::zero, 'd) load_env \<Rightarrow> string option \<Rightarrow> reranker_options option \<Rightarrow> bool \<Rightarrow> disk
      \<Rightarrow> ('m, 'f) reranker_created option \<times> disk" where
  "lembed_reranker_create_from_gguf_path env gguf_path options out_ok dk =
     (case (gguf_path, options) of
        (Some path, Some opts) \<Rightarrow>
          if path = [] \<or> \<not> out_ok then (Some (rk_refused INVALID_ARGUMENT None), dk)
          else (case lembed_resolve_gguf_path (le_sys env) (Some path) (ro_cache_dir opts) (ro_offline opts) True dk of
            ((s, resolved, err), dk1) \<Rightarrow>
              if s \<noteq> OK then (Some \<lparr>rc_status = s, rc_ctx = None, rc_error = err, rc_lost = 0\<rparr>, dk1)
              else (case resolved of None \<Rightarrow> (None, dk1) | Some p \<Rightarrow>
                let c = reranker_gguf_context p opts in
                (case llama_load (le_llama env) p (rk_num_threads c) 512 0 0 (rk_llama c) of
                   (Inl msg, _) \<Rightarrow> (Some (rk_refused LLAMA (Some msg)), dk1)
                 | (Inr _, session) \<Rightarrow>
                     let c1 = c\<lparr>rk_llama := session\<rparr>;
                         c2 = (if rk_max_length c1 = 0 then c1\<lparr>rk_max_length := ls_n_ctx session\<rparr> else c1)
                     in (rk_granted True (rk_set_desc c2), dk1))))
      | _ \<Rightarrow> (Some (rk_refused INVALID_ARGUMENT None), dk))"

definition lembed_reranker_create_from_gguf_model ::
    "('m, 'f::zero, 'd) load_env \<Rightarrow> string option \<Rightarrow> string option \<Rightarrow> reranker_options option \<Rightarrow> bool \<Rightarrow> disk
      \<Rightarrow> ('m, 'f) reranker_created option \<times> disk" where
  "lembed_reranker_create_from_gguf_model env repo filename options out_ok dk =
     (case (repo, filename) of
        (Some (r # rs), Some (f # fs)) \<Rightarrow>
          if \<not> out_ok then (Some (rk_refused INVALID_ARGUMENT None), dk)
          else (case lembed_ensure_gguf_model (le_sys env) repo filename
                       (case options of None \<Rightarrow> None | Some opts \<Rightarrow> ro_cache_dir opts)
                       (case options of None \<Rightarrow> False | Some opts \<Rightarrow> ro_offline opts) True dk of
                  ((s, path, err), dk1) \<Rightarrow>
                    if s \<noteq> OK then (Some \<lparr>rc_status = s, rc_ctx = None, rc_error = err, rc_lost = 0\<rparr>, dk1)
                    else lembed_reranker_create_from_gguf_path env path options True dk1)
      | _ \<Rightarrow> (Some (rk_refused INVALID_ARGUMENT None), dk))"

section \<open>The entry points\<close>

text \<open>The GGUF model of a registry row, by its name or its code, when it has an address.\<close>

definition reranker_gguf_url :: "model_info \<Rightarrow> string option" where
  "reranker_gguf_url info =
     (let found = (case lembed_find_gguf_model (Some (model_name info)) of
                     None \<Rightarrow> lembed_find_gguf_model (Some (model_code info)) | Some g \<Rightarrow> Some g)
      in case found of None \<Rightarrow> None | Some g \<Rightarrow> if gm_url g \<noteq> [] then Some (gm_url g) else None)"

definition reranker_from_registry_gguf ::
    "('m, 'f::zero, 'd) load_env \<Rightarrow> reranker_options \<Rightarrow> bool \<Rightarrow> disk \<Rightarrow> ('m, 'f) reranker_created option \<times> disk" where
  "reranker_from_registry_gguf env opts out_ok dk =
     (let url = (case lembed_get_reranker_model_info (ro_model opts) True of (s, row) \<Rightarrow>
                   case (if s = OK then row else None) of None \<Rightarrow> None | Some info \<Rightarrow> reranker_gguf_url info)
      in case url of
           Some u \<Rightarrow> lembed_reranker_create_from_gguf_path env (Some u) (Some opts) out_ok dk
         | None \<Rightarrow>
             (Some (rk_refused MODEL_NOT_FOUND
               (if ro_backend opts = 1 then Some ''No GGUF model found for reranker and llama.cpp backend requested'' else None)), dk))"

definition lembed_reranker_create ::
    "('m, 'f::zero, 'd) load_env \<Rightarrow> reranker_options option \<Rightarrow> bool \<Rightarrow> disk \<Rightarrow> ('m, 'f) reranker_created option \<times> disk" where
  "lembed_reranker_create env options out_ok dk =
     (case options of
        None \<Rightarrow> (Some (rk_refused INVALID_ARGUMENT None), dk)
      | Some opts \<Rightarrow>
          if \<not> out_ok then (Some (rk_refused INVALID_ARGUMENT None), dk)
          else if ro_backend opts < 0 \<or> ro_backend opts > 2
          then (Some (rk_refused INVALID_ARGUMENT (Some ''Invalid backend value in reranker options'')), dk)
          else if ro_backend opts = 1 then reranker_from_registry_gguf env opts out_ok dk
          else (case reranker_create_onnx_impl env opts (quant_code Q_NONE) False out_ok dk of
                  (None, dk1) \<Rightarrow> (None, dk1)
                | (Some r, dk1) \<Rightarrow>
                    if rc_status r = OK \<or> ro_backend opts = 0 \<or> rc_status r \<noteq> MODEL_NOT_FOUND then (Some r, dk1)
                    else reranker_from_registry_gguf env opts out_ok dk1))"

text \<open>\<open>create_v2\<close> does not look at \<open>out\<close>; with AUTO it creates once more over the first result.\<close>

definition lembed_reranker_create_v2 ::
    "('m, 'f::zero, 'd) load_env \<Rightarrow> (reranker_options \<times> int) option \<Rightarrow> bool \<Rightarrow> disk
      \<Rightarrow> ('m, 'f) reranker_created option \<times> disk" where
  "lembed_reranker_create_v2 env options out_ok dk =
     (case options of
        None \<Rightarrow> (Some (rk_refused INVALID_ARGUMENT None), dk)
      | Some (base, quantization) \<Rightarrow>
          if ro_backend base = 1 then lembed_reranker_create env (Some base) out_ok dk
          else (case reranker_create_onnx_impl env base quantization True out_ok dk of
                  (None, dk1) \<Rightarrow> (None, dk1)
                | (Some r, dk1) \<Rightarrow>
                    if rc_status r \<noteq> OK \<or> ro_backend base \<noteq> 2 then (Some r, dk1)
                    else (case lembed_reranker_create env (Some base) out_ok dk1 of
                            (None, dk2) \<Rightarrow> (None, dk2)
                          | (Some r2, dk2) \<Rightarrow>
                              (Some (case rc_ctx r2 of
                                       None \<Rightarrow> r2\<lparr>rc_ctx := rc_ctx r\<rparr> | Some _ \<Rightarrow> r2\<lparr>rc_lost := rc_lost r2 + 1\<rparr>), dk2))))"

definition path_ends_with_gguf :: "string option \<Rightarrow> bool" where
  "path_ends_with_gguf path =
     (case path of None \<Rightarrow> False
      | Some s \<Rightarrow> let p = map lower_byte s in length p > 4 \<and> drop (length p - 4) p = ''.gguf'')"

definition reranker_dir_context :: "string \<Rightarrow> reranker_options \<Rightarrow> int \<Rightarrow> ('m, 'f::zero) reranker" where
  "reranker_dir_context path opts ml =
     rk_with_cache (ro_cache_size opts) (reranker_new\<lparr>rk_backend := BACKEND_ONNX, rk_quantization := quant_code Q_NONE,
       rk_max_length := ml, rk_model_name := path, rk_num_threads := ro_num_threads opts,
       rk_batch_size := positive_or (ro_batch_size opts) DEFAULT_BATCH_SIZE, rk_provider := ro_provider opts,
       rk_device_id := ro_device_id opts\<rparr>)"

definition lembed_reranker_create_from_path ::
    "('m, 'f::zero, 'd) load_env \<Rightarrow> string option \<Rightarrow> reranker_options option \<Rightarrow> bool \<Rightarrow> disk
      \<Rightarrow> ('m, 'f) reranker_created option \<times> disk" where
  "lembed_reranker_create_from_path env path options out_ok dk =
     (case (path, options) of
        (Some (ch # cs), Some opts) \<Rightarrow>
          if \<not> out_ok then (Some (rk_refused INVALID_ARGUMENT None), dk)
          else if path_ends_with_gguf path then lembed_reranker_create_from_gguf_path env path options out_ok dk
          else (let p = ch # cs in
            (case (read_file_to_string dk (p @ ''/model.onnx''), read_file_to_string dk (p @ ''/tokenizer.json'')) of
               (Inl msg, _) \<Rightarrow> (Some (rk_refused IO_ERROR (Some msg)), dk)
             | (_, Inl msg) \<Rightarrow> (Some (rk_refused IO_ERROR (Some msg)), dk)
             | (Inr onnx, Inr blob) \<Rightarrow>
                 let len = (case map_of (dk_files dk) (p @ ''/config.json'') of None \<Rightarrow> 0
                            | Some config \<Rightarrow> snd (snd (parse_config_json (le_parse env) config (0, 0))));
                     c = reranker_dir_context p opts (positive_or len (positive_or (ro_max_length opts) DEFAULT_MAX_LENGTH));
                     session = onnx_load_from_memory (le_fails env) (le_io env) onnx (ro_num_threads opts) (ro_provider opts)
                                 (rk_quantization c) (rk_sess c);
                     tok = load_from_blob (le_parse env) blob (rk_max_length c) (rk_tok c)
                 in (rk_load IO_ERROR out_ok session tok c, dk)))
      | _ \<Rightarrow> (Some (rk_refused INVALID_ARGUMENT None), dk))"

section \<open>Facts\<close>

text \<open>A creation from the registry either keeps the context it was asked for or none, and never fails for want
  of a model, so that the fallback to a GGUF model is not taken.\<close>

definition onnx_reranker_of ::
    "('m, 'f::zero, 'd) load_env \<Rightarrow> reranker_options \<Rightarrow> int \<Rightarrow> bool \<Rightarrow> ('m, 'f) reranker \<Rightarrow> bool" where
  "onnx_reranker_of env opts q from_options c \<longleftrightarrow>
     (\<exists>info dir s t n. lembed_get_reranker_model_info (ro_model opts) True = (OK, Some info) \<and>
        c = rk_set_desc_v2 (rk_set_desc ((reranker_onnx_context opts info q from_options)\<lparr>rk_sess := s, rk_tok := t\<rparr>)) \<and>
        onnx_load_from_file (le_fails env) (le_io env) (dir @ ''/'' @ model_file info) (ro_num_threads opts) (ro_provider opts)
          (rk_quantization c) onnx_session_new = (Inr (), s, n))"

lemma reranker_info_cases:
  obtains (refused) "lembed_get_reranker_model_info model True = (INVALID_ARGUMENT, None)"
    | (found) info where "lembed_get_reranker_model_info model True = (OK, Some info)"
  by (cases "model < 0 \<or> model \<ge> RERANKER_MODEL_COUNT") (simp_all add: lembed_get_reranker_model_info_def table_info_def)

lemma ensure_reranker_status:
  "lembed_ensure_reranker_model env model cache_dir offline True dk = ((s, dir, err), dk') \<Longrightarrow> s = OK \<or> s = DOWNLOAD"
  by (auto simp: lembed_ensure_reranker_model_def lembed_ensure_model_def split: prod.splits sum.splits)

lemma onnx_context_parts [simp]:
  "rk_sess (reranker_onnx_context opts info q fo) = onnx_session_new"
  "rk_backend (reranker_onnx_context opts info q fo) = BACKEND_ONNX"
  "rk_quantization (reranker_onnx_context opts info q fo) = (if fo then q else quant_code (model_quantization info))"
  by (simp_all add: reranker_onnx_context_def rk_with_cache_def reranker_new_def)

lemma set_desc_parts [simp]:
  "rk_backend (rk_set_desc_v2 (rk_set_desc c)) = rk_backend c"
  "rk_quantization (rk_set_desc_v2 (rk_set_desc c)) = rk_quantization c"
  "rk_sess (rk_set_desc_v2 (rk_set_desc c)) = rk_sess c"
  "d_quantization (rk_desc_v2 (rk_set_desc_v2 (rk_set_desc c))) = rk_quantization c"
  by (simp_all add: rk_set_desc_def rk_set_desc_v2_def)

lemma onnx_reranker_parts:
  assumes "onnx_reranker_of env opts q fo c"
  obtains info dir n where "lembed_get_reranker_model_info (ro_model opts) True = (OK, Some info)" "rk_backend c = BACKEND_ONNX"
    "rk_quantization c = (if fo then q else quant_code (model_quantization info))"
    "d_quantization (rk_desc_v2 c) = rk_quantization c"
    "onnx_load_from_file (le_fails env) (le_io env) (dir @ ''/'' @ model_file info) (ro_num_threads opts) (ro_provider opts)
       (rk_quantization c) onnx_session_new = (Inr (), rk_sess c, n)"
proof -
  from assms obtain info dir s t n where "lembed_get_reranker_model_info (ro_model opts) True = (OK, Some info)"
    "c = rk_set_desc_v2 (rk_set_desc ((reranker_onnx_context opts info q fo)\<lparr>rk_sess := s, rk_tok := t\<rparr>))"
    "onnx_load_from_file (le_fails env) (le_io env) (dir @ ''/'' @ model_file info) (ro_num_threads opts) (ro_provider opts)
       (rk_quantization c) onnx_session_new = (Inr (), s, n)" unfolding onnx_reranker_of_def by blast
  then show thesis by (intro that [of info dir n]) simp_all
qed

lemma rk_load_cases:
  assumes "rk_load failure True (res, s, n) tok c = Some r"
  shows "(rc_status r = OK \<and> rc_lost r = 0 \<and> res = Inr () \<and>
      (\<exists>t. rc_ctx r = Some (rk_set_desc_v2 (rk_set_desc (c\<lparr>rk_sess := s, rk_tok := t\<rparr>))))) \<or>
    (rc_status r = failure \<and> rc_ctx r = None)"
  using assms by (auto simp: rk_load_def rk_granted_def rk_refused_def split: sum.splits embed_fail.splits)

lemma onnx_impl_cases:
  fixes env :: "('m, 'f::zero, 'd) load_env"
  assumes "reranker_create_onnx_impl env opts q fo True dk = (Some r, dk')"
  shows "(rc_status r = OK \<and> rc_lost r = 0 \<and> (\<exists>c. rc_ctx r = Some c \<and> onnx_reranker_of env opts q fo c)) \<or>
    (rc_status r \<noteq> OK \<and> rc_status r \<noteq> MODEL_NOT_FOUND)"
proof (cases rule: reranker_info_cases [of "ro_model opts"])
  case refused
  with assms show ?thesis by (auto simp: reranker_create_onnx_impl_def rk_refused_def)
next
  case (found info)
  obtain s1 d err dk1 where ensure: "lembed_ensure_reranker_model (le_sys env) (ro_model opts) (ro_cache_dir opts)
      (ro_offline opts) True dk = ((s1, d, err), dk1)" by (rule answer_cases)
  from ensure_reranker_status [OF this] show ?thesis
  proof
    assume "s1 = DOWNLOAD"
    with assms found ensure show ?thesis by (auto simp: reranker_create_onnx_impl_def)
  next
    assume s1: "s1 = OK"
    then obtain dir where d: "d = Some dir"
      using assms found ensure by (cases d) (simp_all add: reranker_create_onnx_impl_def)
    let ?c = "reranker_onnx_context opts info q fo :: ('m, 'f) reranker"
    obtain res s n where session: "onnx_load_from_file (le_fails env) (le_io env) (dir @ ''/'' @ model_file info)
        (ro_num_threads opts) (ro_provider opts) (rk_quantization ?c) (rk_sess ?c) = (res, s, n)" by (rule prod_cases3)
    have "rk_load ONNX_RUNTIME True (res, s, n) (load_from_file (le_parse env) (map_of (dk_files dk1)) (dir @ ''/tokenizer.json'')
        (rk_max_length ?c) (rk_tok ?c)) ?c = Some r"
      using assms found ensure s1 d session by (auto simp: reranker_create_onnx_impl_def Let_def)
    from rk_load_cases [OF this] show ?thesis
    proof (elim disjE conjE exE)
      fix t
      assume t: "rc_status r = OK" "rc_lost r = 0" "res = Inr ()"
        "rc_ctx r = Some (rk_set_desc_v2 (rk_set_desc (?c\<lparr>rk_sess := s, rk_tok := t\<rparr>)))"
      have "onnx_reranker_of env opts q fo (rk_set_desc_v2 (rk_set_desc (?c\<lparr>rk_sess := s, rk_tok := t\<rparr>)))"
        unfolding onnx_reranker_of_def
        by (rule exI [of _ info], rule exI [of _ dir], rule exI [of _ s], rule exI [of _ t], rule exI [of _ n])
          (use found session t(3) in simp)
      with t show ?thesis by blast
    qed simp
  qed
qed

lemma create_auto_cases:
  assumes "lembed_reranker_create env (Some opts) True dk = (Some r, dk')" and "ro_backend opts = 2"
  shows "(rc_status r = OK \<and> rc_lost r = 0 \<and> (\<exists>c. rc_ctx r = Some c \<and> onnx_reranker_of env opts q' False c)) \<or>
    (rc_status r \<noteq> OK \<and> rc_status r \<noteq> MODEL_NOT_FOUND)"
proof -
  obtain r1 dk1 where impl: "reranker_create_onnx_impl env opts (quant_code Q_NONE) False True dk = (Some r1, dk1)"
    using assms by (auto simp: lembed_reranker_create_def split: prod.splits option.splits)
  have any: "onnx_reranker_of env opts q False c = onnx_reranker_of env opts q' False c" for q and c :: "('a, 'b) reranker"
    by (simp add: onnx_reranker_of_def reranker_onnx_context_def)
  from onnx_impl_cases [OF impl] have "r = r1"
    using assms impl by (auto simp: lembed_reranker_create_def split: if_splits)
  with onnx_impl_cases [OF impl] any show ?thesis by blast
qed

section \<open>Properties\<close>

text \<open>A reranker created with a requested quantization runs on ONNX Runtime with the session of the
  registry's file. With the backend ONNX the session and the context have the requested mode. With AUTO
  the model is loaded twice: the context handed out has the registry's mode, whatever was requested, and
  the first one, which had the requested mode, is lost.\<close>

theorem reranker_auto_drops_mode:
  assumes "lembed_reranker_create_v2 env (Some (base, requested)) True dk = (Some r, dk')" and "rc_status r = OK"
    and "ro_backend base \<noteq> 1"
  shows "\<exists>c info dir n. rc_ctx r = Some c \<and> rk_backend c = BACKEND_ONNX \<and>
    lembed_get_reranker_model_info (ro_model base) True = (OK, Some info) \<and>
    onnx_load_from_file (le_fails env) (le_io env) (dir @ ''/'' @ model_file info) (ro_num_threads base) (ro_provider base)
      (rk_quantization c) onnx_session_new = (Inr (), rk_sess c, n) \<and> d_quantization (rk_desc_v2 c) = rk_quantization c \<and>
    (if ro_backend base = 2 then rk_quantization c = quant_code (model_quantization info) \<and> rc_lost r = 1
     else rk_quantization c = requested \<and> rc_lost r = 0)"
proof -
  obtain r1 dk1 where impl: "reranker_create_onnx_impl env base requested True True dk = (Some r1, dk1)"
    using assms by (auto simp: lembed_reranker_create_v2_def split: prod.splits option.splits)
  note cases1 = onnx_impl_cases [OF impl]
  show ?thesis
  proof (cases "ro_backend base = 2")
    case False
    with assms impl have "r = r1" by (auto simp: lembed_reranker_create_v2_def split: if_splits)
    with cases1 assms(2) obtain c where c: "rc_ctx r = Some c" "rc_lost r = 0" "onnx_reranker_of env base requested True c" by blast
    from onnx_reranker_parts [OF c(3)] obtain info dir n where
      "lembed_get_reranker_model_info (ro_model base) True = (OK, Some info)" "rk_backend c = BACKEND_ONNX"
      "rk_quantization c = requested" "d_quantization (rk_desc_v2 c) = rk_quantization c"
      "onnx_load_from_file (le_fails env) (le_io env) (dir @ ''/'' @ model_file info) (ro_num_threads base) (ro_provider base)
         (rk_quantization c) onnx_session_new = (Inr (), rk_sess c, n)" unfolding if_True .
    with c False show ?thesis
      by (intro exI [of _ c] exI [of _ info] exI [of _ dir] exI [of _ n]) simp
  next
    case True
    have ok1: "rc_status r1 = OK"
      using assms impl by (auto simp: lembed_reranker_create_v2_def split: if_splits)
    obtain r2 where create: "lembed_reranker_create env (Some base) True dk1 = (Some r2, dk')"
      and r: "r = (case rc_ctx r2 of None \<Rightarrow> r2\<lparr>rc_ctx := rc_ctx r1\<rparr> | Some _ \<Rightarrow> r2\<lparr>rc_lost := rc_lost r2 + 1\<rparr>)"
      using assms True impl ok1
      by (cases "lembed_reranker_create env (Some base) True dk1") (auto simp: lembed_reranker_create_v2_def split: option.splits)
    have "rc_status r2 = OK" using r assms(2) by (auto split: option.splits)
    with create_auto_cases [OF create True, of 0] obtain c where c: "rc_ctx r2 = Some c" "rc_lost r2 = 0"
      "onnx_reranker_of env base 0 False c" by blast
    from onnx_reranker_parts [OF c(3)] obtain info dir n where
      "lembed_get_reranker_model_info (ro_model base) True = (OK, Some info)" "rk_backend c = BACKEND_ONNX"
      "rk_quantization c = quant_code (model_quantization info)" "d_quantization (rk_desc_v2 c) = rk_quantization c"
      "onnx_load_from_file (le_fails env) (le_io env) (dir @ ''/'' @ model_file info) (ro_num_threads base) (ro_provider base)
         (rk_quantization c) onnx_session_new = (Inr (), rk_sess c, n)" unfolding if_False .
    with c r True show ?thesis
      by (intro exI [of _ c] exI [of _ info] exI [of _ dir] exI [of _ n]) simp
  qed
qed

text \<open>The default reranker, whose file is quantized to INT8, requested without quantization, from a full cache.\<close>

definition sample_reranker_options :: reranker_options where
  "sample_reranker_options = lembed_reranker_options_default\<lparr>ro_cache_dir := Some ''c'', ro_num_threads := 1\<rparr>"

theorem reranker_auto_drops_mode_witness:
  "\<exists>c r dk'. lembed_reranker_create_v2 sample_load_env (Some (sample_reranker_options, quant_code Q_NONE)) True
      \<lparr>dk_files = [], dk_dirs = []\<rparr> = (Some r, dk') \<and> rc_ctx r = Some c \<and> rc_lost r = 1 \<and>
    rk_quantization c = quant_code Q_STATIC"
proof -
  let ?call = "lembed_reranker_create_v2 sample_load_env (Some (sample_reranker_options, quant_code Q_NONE)) True
      \<lparr>dk_files = [], dk_dirs = []\<rparr>"
  have "case fst ?call of Some r \<Rightarrow> rc_status r = OK | None \<Rightarrow> False" by code_simp
  then obtain r dk' where r: "?call = (Some r, dk')" "rc_status r = OK"
    by (auto split: option.splits simp: prod_eq_iff)
  have opts: "ro_backend sample_reranker_options = 2" "ro_model sample_reranker_options = 4"
    by (simp_all add: sample_reranker_options_def lembed_reranker_options_default_def RERANKER_MODEL_DEFAULT_def)
  have info: "lembed_get_reranker_model_info 4 True = (OK, Some (reranker_models ! 4))" by code_simp
  have mode: "model_quantization (reranker_models ! 4) = Q_STATIC" by code_simp
  from reranker_auto_drops_mode [OF r] opts info mode show ?thesis using r(1) by fastforce
qed

end
