(* ===== verification/SparseEmbedding.thy ===== *)
theory SparseEmbedding
  imports GgufSession TextEmbedding
begin

text \<open>
  The sparse embedding of texts (\<open>sparse_text_embedding.h\<close>, \<open>detail/sparse_text_embedding_gguf_impl.hpp\<close>):
  the context, \<open>lembed_sparse_text_embedding_embed\<close> on ONNX Runtime and on the GGUF session, the freeing of
  results, introspection and statistics. An exception is \<open>Threw\<close>, an access outside a buffer \<open>Undef\<close>;
  the runtimes, \<open>std::log\<close>, the two sorts and the allocations are arguments.
\<close>

section \<open>The environment, options and the context\<close>

record ('t, 'f) sparse_env =
  sp_fails :: ort_faults
  sp_infer :: "'f inference"
  sp_ln :: "'f \<Rightarrow> 'f"
  sp_sort :: "'f term_sort"
  sp_psort :: "'f term_sort"
  sp_calloc :: bool
  sp_malloc :: "nat \<Rightarrow> bool \<times> bool"
  sp_build :: "nat \<Rightarrow> nat \<Rightarrow> bool"
  sp_compute :: "('t, 'f) compute"
  sp_neg :: 'f

record 'f sparse_options =
  so_model :: int
  so_provider :: int
  so_device_id :: int
  so_cache_dir :: "string option"
  so_max_length :: int
  so_num_threads :: int
  so_batch_size :: int
  so_offline :: bool
  so_top_k :: int
  so_min_weight :: 'f
  so_format :: int

text \<open>A context has a GGUF session or an ONNX session, never both.\<close>

record ('t, 'f) sparse_ctx =
  sx_sess :: onnx_session
  sx_tok :: tokenizer
  sx_gguf :: "('t, 'f) session option"
  sx_model :: int
  sx_max_length :: int
  sx_model_name :: string
  sx_num_threads :: int
  sx_batch_size :: int
  sx_provider :: int
  sx_device_id :: int
  sx_desc :: model_desc
  sx_top_k :: int
  sx_min_weight :: 'f
  sx_texts :: "64 word"
  sx_batches :: "64 word"
  sx_latency :: 'f
  sx_calls :: int
  sx_format :: int

record 'f sparse_embeddings =
  sr_items :: "'f sparse_item list option"
  sr_count :: int

text \<open>\<open>lembed_sparse_embeddings_free\<close> walks \<open>count\<close> items; \<open>None\<close> when the array has fewer.\<close>

definition lembed_sparse_embeddings_free :: "'f sparse_embeddings \<Rightarrow> 'f sparse_embeddings option" where
  "lembed_sparse_embeddings_free r =
     (if sr_count r > (case sr_items r of None \<Rightarrow> 0 | Some items \<Rightarrow> int (length items)) then None
      else Some (r\<lparr>sr_items := None, sr_count := 0\<rparr>))"

text \<open>Given options win over those of the context, a \<open>top_k\<close> of 0 included.\<close>

definition sparse_filter :: "'f sparse_options option \<Rightarrow> ('t, 'f) sparse_ctx \<Rightarrow> int \<times> 'f \<times> int" where
  "sparse_filter opts c =
     (case opts of
        Some o' \<Rightarrow> (so_top_k o', so_min_weight o', so_format o')
      | None \<Rightarrow> (sx_top_k c, sx_min_weight c, sx_format c))"

text \<open>Pruning one vector and storing it in the slot \<open>idx\<close>.\<close>

definition publish ::
    "('t, 'f::{linorder,zero}) sparse_env \<Rightarrow> int \<times> 'f \<times> int \<Rightarrow> nat \<Rightarrow> 'f sparse_result \<Rightarrow> 'f sparse_item" where
  "publish env flt idx sr =
     (case flt of (top_k, min_weight, fmt) \<Rightarrow>
        sparse_result_store (fst (sp_malloc env idx)) (snd (sp_malloc env idx))
          (sparse_prune_and_sort (sp_sort env) (sp_psort env) top_k min_weight fmt sr))"

fun store_vectors ::
    "('t, 'f::{linorder,zero}) sparse_env \<Rightarrow> int \<times> 'f \<times> int \<Rightarrow> nat \<Rightarrow> 'f sparse_result list
      \<Rightarrow> 'f sparse_item list \<Rightarrow> 'f sparse_item list" where
  "store_vectors env flt idx [] items = items"
| "store_vectors env flt idx (sr # srs) items =
     store_vectors env flt (Suc idx) srs (items[idx := publish env flt idx sr])"

text \<open>What \<open>calloc\<close> leaves in a slot.\<close>

definition empty_item :: "'f sparse_item" where
  "empty_item = \<lparr>item_length = 0, item_indices = None, item_values = None\<rparr>"

definition count_embed ::
    "nat \<Rightarrow> int \<Rightarrow> 'f::plus \<Rightarrow> ('t, 'f) sparse_ctx \<Rightarrow> ('t, 'f) sparse_ctx" where
  "count_embed texts batches elapsed c =
     c\<lparr>sx_texts := sx_texts c + of_nat texts, sx_batches := sx_batches c + of_int batches,
       sx_latency := sx_latency c + elapsed, sx_calls := sx_calls c + 1\<rparr>"

section \<open>ONNX Runtime\<close>

text \<open>Pooling reads the row of every token the mask keeps.\<close>

definition reads_inside :: "int list \<Rightarrow> nat \<Rightarrow> nat \<Rightarrow> bool" where
  "reads_inside attn v n_data \<longleftrightarrow> list_all (\<lambda>k. attn ! k = 0 \<or> (k + 1) * v \<le> n_data) [0..<length attn]"

definition sparse_onnx_batch ::
    "('t, 'f::{linorder,zero,one,plus}) sparse_env \<Rightarrow> ('t, 'f) sparse_ctx \<Rightarrow> string list
      \<Rightarrow> embed_fail + 'f sparse_result list" where
  "sparse_onnx_batch env c texts =
     (case encode_batch (sx_tok c) texts of
        Inl e \<Rightarrow> Inl (thrown e)
      | Inr enc \<Rightarrow>
          let bsz = length texts;
              seq_len = nat (seq_length enc);
              ids = flatten_rows bsz seq_len (input_ids enc);
              attn = flatten_rows bsz seq_len (attention_mask enc);
              types = replicate (bsz * seq_len) 0
          in (case fst (onnx_run (sp_fails env) (sp_infer env) (sx_sess c) ids attn (Some types) bsz seq_len (-1)) of
                Inl msg \<Rightarrow> Inl (Threw msg)
              | Inr [] \<Rightarrow> Inl Undef
              | Inr (t # _) \<Rightarrow>
                  if length (tr_shape t) < 2 then Inl Undef
                  else let v = nat (if length (tr_shape t) \<ge> 3 then tr_shape t ! 2 else tr_shape t ! 1) in
                    if \<not> reads_inside attn v (length (tr_data t)) then Inl Undef
                    else Inr (splade_postprocess (sp_ln env) (tr_data t) (Some attn) bsz seq_len v)))"

text \<open>A text may be a null pointer, which a \<open>std::string\<close> cannot be made of.\<close>

fun sparse_loop ::
    "('t, 'f::{linorder,zero,one,plus}) sparse_env \<Rightarrow> ('t, 'f) sparse_ctx \<Rightarrow> int \<times> 'f \<times> int \<Rightarrow> string option list \<Rightarrow> int
      \<Rightarrow> nat list \<Rightarrow> nat \<Rightarrow> 'f sparse_item list \<Rightarrow> embed_fail + 'f sparse_item list" where
  "sparse_loop env c flt texts batch [] off items = Inr items"
| "sparse_loop env c flt texts batch (bi # bis) off items =
     (case get_batch (int bi) (int (length texts)) batch of
        None \<Rightarrow> Inl Undef
      | Some r \<Rightarrow>
          let part = sub_list (nat (range_start r)) (nat (range_end r)) texts in
          if list_ex (\<lambda>t. t = None) part then Inl Undef
          else (case sparse_onnx_batch env c (map the part) of
             Inl e \<Rightarrow> Inl e
           | Inr vs \<Rightarrow> sparse_loop env c flt texts batch bis (off + length part) (store_vectors env flt off vs items)))"

type_synonym ('t, 'f) sparse_outcome =
  "(status \<times> 'f sparse_embeddings \<times> ('t, 'f) sparse_ctx \<times> string option) option"

definition sparse_embed_onnx ::
    "('t, 'f::{linorder,zero,one,plus}) sparse_env \<Rightarrow> 'f \<Rightarrow> ('t, 'f) sparse_ctx \<Rightarrow> string option list \<Rightarrow> int
      \<Rightarrow> 'f sparse_options option \<Rightarrow> 'f sparse_embeddings \<Rightarrow> ('t, 'f) sparse_outcome" where
  "sparse_embed_onnx env elapsed c texts batch opts result =
     (let n = length texts in
      if \<not> sp_calloc env then Some (OUT_OF_MEMORY, result\<lparr>sr_items := None, sr_count := int n\<rparr>, c, None)
      else case batch_count (int n) batch of
        None \<Rightarrow> None
      | Some nb \<Rightarrow>
          (case sparse_loop env c (sparse_filter opts c) texts batch [0..<nat nb] 0 (replicate n empty_item) of
             Inl Undef \<Rightarrow> None
           | Inl (Threw msg) \<Rightarrow> Some (ONNX_RUNTIME, result\<lparr>sr_items := None, sr_count := 0\<rparr>, c, Some (set_error msg))
           | Inr items \<Rightarrow>
               Some (OK, result\<lparr>sr_items := Some items, sr_count := int n\<rparr>, count_embed n nb elapsed c, None)))"

section \<open>The GGUF session\<close>

text \<open>A null text is the empty text here. After an exception the result is freed as the caller left it.\<close>

definition sparse_embed_gguf ::
    "('t, 'f::{linorder,zero,one,plus}) sparse_env \<Rightarrow> 'f \<Rightarrow> ('t, 'f) sparse_ctx \<Rightarrow> ('t, 'f) session \<Rightarrow> string option list
      \<Rightarrow> int \<Rightarrow> 'f sparse_options option \<Rightarrow> 'f sparse_embeddings \<Rightarrow> ('t, 'f) sparse_outcome" where
  "sparse_embed_gguf env elapsed c s texts batch opts result =
     (let n = length texts in
      case session_embed (sp_ln env) (sp_build env) (sp_compute env) (sp_neg env)
             (map (\<lambda>t. case t of None \<Rightarrow> [] | Some x \<Rightarrow> x) texts) batch s of
        Inl e \<Rightarrow>
          (case thrown e of
             Undef \<Rightarrow> None
           | Threw msg \<Rightarrow> map_option (\<lambda>r. (GGUF, r, c, Some (set_error msg))) (lembed_sparse_embeddings_free result))
      | Inr (vs, s1) \<Rightarrow>
          let c1 = c\<lparr>sx_gguf := Some s1\<rparr> in
          if \<not> sp_calloc env then Some (OUT_OF_MEMORY, result\<lparr>sr_items := None, sr_count := 0\<rparr>, c1, None)
          else case batch_count (int n) batch of
            None \<Rightarrow> None
          | Some nb \<Rightarrow>
              let m = min n (length vs);
                  items = store_vectors env (sparse_filter opts c) 0 (take n vs) (replicate n empty_item)
              in Some (OK, result\<lparr>sr_items := Some items, sr_count := int m\<rparr>, count_embed m nb elapsed c1, None))"

section \<open>The entry point\<close>

definition sparse_embed ::
    "('t, 'f::{linorder,zero,one,plus}) sparse_env \<Rightarrow> 'f \<Rightarrow> ('t, 'f) sparse_ctx \<Rightarrow> string option list \<Rightarrow> int
      \<Rightarrow> 'f sparse_options option \<Rightarrow> 'f sparse_embeddings \<Rightarrow> ('t, 'f) sparse_outcome" where
  "sparse_embed env elapsed c texts batch_size opts result =
     (let b = (if batch_size \<le> 0 then sx_batch_size c else batch_size) in
      case sx_gguf c of
        Some s \<Rightarrow> sparse_embed_gguf env elapsed c s texts b opts result
      | None \<Rightarrow> sparse_embed_onnx env elapsed c texts b opts result)"

definition lembed_sparse_text_embedding_embed ::
    "('t, 'f::{linorder,zero,one,plus}) sparse_env \<Rightarrow> 'f \<Rightarrow> ('t, 'f) sparse_ctx option \<Rightarrow> string option list option \<Rightarrow> int
      \<Rightarrow> int \<Rightarrow> 'f sparse_options option \<Rightarrow> 'f sparse_embeddings option
      \<Rightarrow> (status \<times> 'f sparse_embeddings option \<times> ('t, 'f) sparse_ctx option \<times> string option) option" where
  "lembed_sparse_text_embedding_embed env elapsed ctx texts num_texts batch_size opts result =
     (case (ctx, texts, result) of
        (Some c, Some ts, Some r) \<Rightarrow>
          if num_texts \<le> 0 then Some (INVALID_ARGUMENT, result, ctx, None)
          else map_option (\<lambda>(s, r1, c1, m). (s, Some r1, Some c1, m))
                 (sparse_embed env elapsed c (take (nat num_texts) ts) batch_size opts r)
      | _ \<Rightarrow> Some (INVALID_ARGUMENT, result, ctx, None))"

section \<open>Introspection\<close>

definition lembed_sparse_text_embedding_desc :: "('t, 'f) sparse_ctx option \<Rightarrow> model_desc option" where
  "lembed_sparse_text_embedding_desc ctx = map_option sx_desc ctx"

definition lembed_sparse_text_embedding_model_name :: "('t, 'f) sparse_ctx option \<Rightarrow> string option" where
  "lembed_sparse_text_embedding_model_name ctx = map_option (\<lambda>c. c_str (sx_model_name c)) ctx"

definition lembed_sparse_text_embedding_max_length :: "('t, 'f) sparse_ctx option \<Rightarrow> int" where
  "lembed_sparse_text_embedding_max_length ctx = (case ctx of None \<Rightarrow> 0 | Some c \<Rightarrow> sx_max_length c)"

definition sparse_latency :: "(int \<Rightarrow> 'f) \<Rightarrow> ('t, 'f::{zero,inverse}) sparse_ctx \<Rightarrow> 'f" where
  "sparse_latency of_c c = (if sx_calls c > 0 then sx_latency c / of_c (sx_calls c) else 0)"

definition lembed_sparse_text_embedding_stats ::
    "(int \<Rightarrow> 'f) \<Rightarrow> ('t, 'f::{zero,inverse}) sparse_ctx option \<Rightarrow> 'f text_stats option \<Rightarrow> 'f text_stats option" where
  "lembed_sparse_text_embedding_stats of_c ctx out =
     (case (ctx, out) of
        (_, None) \<Rightarrow> None
      | (None, Some s) \<Rightarrow> Some (s\<lparr>st_texts := 0, st_batches := 0, st_latency := 0\<rparr>)
      | (Some c, Some s) \<Rightarrow> Some (s\<lparr>st_texts := sx_texts c, st_batches := sx_batches c, st_latency := sparse_latency of_c c\<rparr>))"

definition lembed_sparse_text_embedding_stats_v2 ::
    "(int \<Rightarrow> 'f) \<Rightarrow> ('t, 'f::{zero,inverse}) sparse_ctx option \<Rightarrow> 'f text_stats option \<Rightarrow> 'f text_stats option" where
  "lembed_sparse_text_embedding_stats_v2 of_c ctx out =
     (case (ctx, out) of
        (_, None) \<Rightarrow> None
      | (None, Some _) \<Rightarrow> Some stats_zero
      | (Some c, Some _) \<Rightarrow>
          Some (stats_zero\<lparr>st_texts := sx_texts c, st_batches := sx_batches c, st_latency := sparse_latency of_c c\<rparr>))"

section \<open>One text alone\<close>

text \<open>
  What the ONNX code relies on: with an attention mask, the logits of the tokens of a row depend on those
  tokens only (\<open>g\<close>), whatever is computed at padded positions; \<open>v\<close> is the size of the vocabulary.
\<close>

definition logits_model :: "'f inference \<Rightarrow> onnx_session \<Rightarrow> int \<Rightarrow> nat \<Rightarrow> (int list \<Rightarrow> 'f list list) \<Rightarrow> bool" where
  "logits_model infer sess pad v g \<longleftrightarrow>
     (\<forall>idss n. (\<forall>ids \<in> set idss. length ids \<le> n) \<longrightarrow>
        (\<exists>ts rest. infer (padded_inputs sess pad n idss) (length idss) n (output_names sess) =
              Inr (\<lparr>tr_data = concat (map concat ts), tr_shape = [int (length idss), int n, int v]\<rparr> # rest) \<and>
            (\<forall>t \<in> set rest. prod_list (tr_shape t) = int (length (tr_data t))) \<and> length ts = length idss \<and>
            (\<forall>i < length idss. length (ts ! i) = n \<and> (\<forall>x \<in> set (ts ! i). length x = v) \<and>
               take (length (idss ! i)) (ts ! i) = g (idss ! i))))"

definition sparse_ready ::
    "('t, 'f) sparse_env \<Rightarrow> ('t, 'f) sparse_ctx \<Rightarrow> nat \<Rightarrow> (int list \<Rightarrow> 'f list list) \<Rightarrow> bool" where
  "sparse_ready env c v g \<longleftrightarrow>
     sx_gguf c = None \<and> 0 < max_length (sx_tok c) \<and> (\<forall>call. sp_fails env call = None) \<and> sp_calloc env \<and>
     logits_model (sp_infer env) (sx_sess c) (pad_token_id (sx_tok c)) v g"

text \<open>The vector of one text: the pooled logits of its own tokens, without padding.\<close>

definition sparse_vector ::
    "('t, 'f::{linorder,zero,one,plus}) sparse_env \<Rightarrow> ('t, 'f) sparse_ctx \<Rightarrow> nat \<Rightarrow> (int list \<Rightarrow> 'f list list)
      \<Rightarrow> string \<Rightarrow> 'f sparse_result" where
  "sparse_vector env c v g s =
     (let ids = tok_ids (sx_tok c) s
      in splade_pool (sp_ln env) (Some (concat (g ids))) (int v) None (int (length ids)))"

section \<open>Facts\<close>

lemma pool_tokens_same:
  "\<forall>s \<in> set ss. (kept_token m s \<longleftrightarrow> kept_token m' s) \<and> (kept_token m s \<longrightarrow> row_at s v l = row_at s v l') \<Longrightarrow>
     pool_tokens ln' v l m ss acc = pool_tokens ln' v l' m' ss acc"
  by (induction ss arbitrary: acc) (auto simp: kept_token_def split: option.splits)

text \<open>Pooling one row of a padded batch is pooling the row alone.\<close>

lemma sparse_pool_padded:
  assumes ts: "\<forall>r \<in> set ts. length r = n \<and> (\<forall>x \<in> set r. length x = v)" and len: "length ts = length idss"
    and le: "\<forall>ids \<in> set idss. length ids \<le> n" and i: "i < length idss" and g: "take (length (idss ! i)) (ts ! i) = rows"
  shows "splade_pool ln' (Some (drop (i * n * v) (concat (map concat ts)))) (int v)
      (Some (drop (i * n) (concat (map (\<lambda>ids. pad_row n 0 (map (\<lambda>_. 1) ids)) idss)))) (int n) =
    splade_pool ln' (Some (concat rows)) (int v) None (int (length (idss ! i)))"
    (is "splade_pool ln' (Some ?T) _ (Some ?M) _ = _")
proof -
  let ?k = "length (idss ! i)"
  have k: "?k \<le> n" and r: "ts ! i \<in> set ts" using le len i by simp_all
  have rows: "length rows = ?k" "\<forall>x \<in> set rows. length x = v"
    using g k r ts by (auto dest: in_set_takeD)
  have mask: "kept_token (Some ?M) s \<longleftrightarrow> s < ?k" if "s < n" for s
    using padded_mask_row [OF le i that] by (simp add: kept_token_def)
  have same: "row_at s v ?T = row_at s v (concat rows)" if "s < ?k" for s
  proof -
    have "row_of (s * v) v ?T = ts ! i ! s" using padded_tensor_row [OF ts, of i s] that k len i by simp
    moreover have "row_of (s * v) v (concat rows) = rows ! s" using rows that by (simp add: row_of_concat)
    moreover have "rows ! s = ts ! i ! s" using g that by (metis nth_take)
    ultimately show ?thesis by (simp add: row_at_def row_of_def)
  qed
  have "[0..<n] = [0..<?k] @ [?k..<n]" using k upt_add_eq_append [of 0 ?k "n - ?k"] by simp
  then have "pool_tokens ln' v ?T (Some ?M) [0..<n] acc = pool_tokens ln' v ?T (Some ?M) [0..<?k] acc" for acc
    using mask by (simp add: pool_tokens_append pool_tokens_masked)
  moreover have "pool_tokens ln' v ?T (Some ?M) [0..<?k] acc = pool_tokens ln' v (concat rows) None [0..<?k] acc" for acc
    using mask same k by (intro pool_tokens_same) (simp add: kept_token_def)
  ultimately have pool: "pool_tokens ln' v ?T (Some ?M) [0..<n] acc = pool_tokens ln' v (concat rows) None [0..<?k] acc" for acc
    by simp
  have none: "above 0 (replicate v (0::'a)) = sparse_empty" by (simp add: above_def sparse_empty_def)
  show ?thesis
  proof (cases "v = 0 \<or> ?k = 0")
    case True
    then show ?thesis using pool none by (auto simp: splade_pool_def)
  next
    case False
    then have "0 < n" using k by linarith
    then show ?thesis using False pool by (simp add: splade_pool_def)
  qed
qed

lemma reads_inside_all:
  assumes "length attn * v \<le> n"
  shows "reads_inside attn v n"
proof -
  have "(k + 1) * v \<le> n" if "k < length attn" for k
  proof -
    have "(k + 1) * v \<le> length attn * v" using that by (intro mult_le_mono1) simp
    then show ?thesis using assms by simp
  qed
  then show ?thesis by (simp add: reads_inside_def list_all_iff)
qed

lemma sparse_onnx_batch_ok:
  assumes ready: "sparse_ready env c v g"
  shows "sparse_onnx_batch env c texts = Inr (map (sparse_vector env c v g) texts)"
proof -
  let ?t = "sx_tok c" and ?idss = "map (tok_ids (sx_tok c)) texts" and ?b = "length texts"
  let ?attn = "\<lambda>n. concat (map (\<lambda>ids. pad_row n 0 (map (\<lambda>_. 1::int) ids)) ?idss)"
  have ml: "0 < max_length ?t" and fails: "\<forall>call. sp_fails env call = None"
    and model: "logits_model (sp_infer env) (sx_sess c) (pad_token_id ?t) v g"
    using ready by (simp_all add: sparse_ready_def)
  from encode_batch_padded [OF ml, of texts] obtain n where
    enc: "encode_batch ?t texts = Inr \<lparr>input_ids = map (pad_row n (pad_token_id ?t)) ?idss,
      attention_mask = map (\<lambda>ids. pad_row n 0 (map (\<lambda>_. 1) ids)) ?idss,
      token_type_ids = map (\<lambda>ids. replicate n 0) ?idss, seq_length = int n\<rparr>"
    and le: "\<forall>ids \<in> set ?idss. length ids \<le> n" by blast
  from model [unfolded logits_model_def, THEN spec, THEN spec, THEN mp, OF le] obtain ts rest where
    run: "sp_infer env (padded_inputs (sx_sess c) (pad_token_id ?t) n ?idss) ?b n (output_names (sx_sess c)) =
      Inr (\<lparr>tr_data = concat (map concat ts), tr_shape = [int ?b, int n, int v]\<rparr> # rest)"
    and rest: "\<forall>t \<in> set rest. prod_list (tr_shape t) = int (length (tr_data t))" and len: "length ts = ?b"
    and ts: "\<forall>i < ?b. length (ts ! i) = n \<and> (\<forall>x \<in> set (ts ! i). length x = v) \<and>
      take (length (?idss ! i)) (ts ! i) = g (?idss ! i)"
    by auto
  have rect: "\<forall>r \<in> set ts. length r = n \<and> (\<forall>x \<in> set r. length x = v)"
  proof
    fix r assume "r \<in> set ts"
    then obtain i where "i < ?b" "r = ts ! i" using len by (auto simp: in_set_conv_nth)
    with ts show "length r = n \<and> (\<forall>x \<in> set r. length x = v)" by blast
  qed
  have data: "length (concat (map concat ts)) = ?b * n * v"
  proof -
    have "\<forall>r \<in> set (map concat ts). length r = n * v" using rect by (auto intro!: length_concat_rect)
    from length_concat_rect [OF this] len show ?thesis by simp
  qed
  have f: "flatten_rows ?b n (map (pad_row n (pad_token_id ?t)) ?idss) = concat (map (pad_row n (pad_token_id ?t)) ?idss)"
    "flatten_rows ?b n (map (\<lambda>ids. pad_row n 0 (map (\<lambda>_. 1) ids)) ?idss) = ?attn n"
    using flatten_rows_rect [of "map (pad_row n (pad_token_id ?t)) ?idss" n]
      flatten_rows_rect [of "map (\<lambda>ids. pad_row n 0 (map (\<lambda>_. 1) ids)) ?idss" n] le by simp_all
  have attn: "length (?attn n) = ?b * n"
    using le by (subst length_concat_rect [where d = n]) auto
  have "onnx_run (sp_fails env) (sp_infer env) (sx_sess c) (concat (map (pad_row n (pad_token_id ?t)) ?idss))
      (?attn n) (Some (replicate (?b * n) 0)) ?b n (- 1) =
    (Inr (\<lparr>tr_data = concat (map concat ts), tr_shape = [int ?b, int n, int v]\<rparr> # rest), 0)"
  proof (rule onnx_run_ok [OF fails])
    show "sp_infer env (run_inputs (sx_sess c) (concat (map (pad_row n (pad_token_id ?t)) ?idss)) (?attn n)
        (Some (replicate (?b * n) 0))) ?b n (run_outputs (sx_sess c) (- 1)) =
      Inr (\<lparr>tr_data = concat (map concat ts), tr_shape = [int ?b, int n, int v]\<rparr> # rest)"
      using run by (simp add: padded_inputs_def run_outputs_def)
    show "\<forall>t \<in> set (\<lparr>tr_data = concat (map concat ts), tr_shape = [int ?b, int n, int v]\<rparr> # rest).
        prod_list (tr_shape t) = int (length (tr_data t))"
      using rest data by (simp add: algebra_simps)
  qed
  moreover have "reads_inside (?attn n) v (length (concat (map concat ts)))"
    by (rule reads_inside_all) (simp only: attn data)
  moreover have "splade_postprocess (sp_ln env) (concat (map concat ts)) (Some (?attn n)) ?b n v =
      map (sparse_vector env c v g) texts"
  proof (rule nth_equalityI)
    fix i assume "i < length (splade_postprocess (sp_ln env) (concat (map concat ts)) (Some (?attn n)) ?b n v)"
    then have i: "i < ?b" by (simp add: splade_postprocess_def)
    then have i': "i < length ?idss" by simp
    from ts i have g: "take (length (?idss ! i)) (ts ! i) = g (?idss ! i)" by blast
    from sparse_pool_padded [OF rect _ le i' g, of "sp_ln env"] len i show
      "splade_postprocess (sp_ln env) (concat (map concat ts)) (Some (?attn n)) ?b n v ! i =
       map (sparse_vector env c v g) texts ! i"
      by (simp add: splade_postprocess_def sparse_vector_def Let_def)
  qed (simp add: splade_postprocess_def)
  ultimately show ?thesis by (simp add: sparse_onnx_batch_def enc Let_def f numeral_eq_Suc del: map_map)
qed

lemma store_vectors_nth:
  assumes "off + length vs \<le> length items"
  shows "length (store_vectors env flt off vs items) = length items \<and>
    (\<forall>k < length items. store_vectors env flt off vs items ! k =
       (if off \<le> k \<and> k < off + length vs then publish env flt k (vs ! (k - off)) else items ! k))"
  using assms
proof (induction vs arbitrary: off items)
  case (Cons x vs)
  let ?items = "items[off := publish env flt off x]"
  have IH: "length (store_vectors env flt (Suc off) vs ?items) = length items"
    "\<forall>k < length items. store_vectors env flt (Suc off) vs ?items ! k =
      (if Suc off \<le> k \<and> k < Suc off + length vs then publish env flt k (vs ! (k - Suc off)) else ?items ! k)"
    using Cons.IH [of "Suc off" ?items] Cons.prems by simp_all
  have "store_vectors env flt (Suc off) vs ?items ! k =
      (if off \<le> k \<and> k < off + length (x # vs) then publish env flt k ((x # vs) ! (k - off)) else items ! k)"
    if "k < length items" for k
    using IH(2) that by (cases "k = off") (auto simp: nth_Cons' nth_list_update)
  with IH(1) show ?case by simp
next
  case Nil
  then show ?case by (auto simp: not_less)
qed

text \<open>Batch after batch, the slots fill in the order of the texts.\<close>

lemma sparse_loop_ok:
  assumes ready: "sparse_ready env c v g" and b: "0 < b" "int n + int b \<le> INT_MAX" and n: "n = length texts"
    and "bis = [j..<(n + b - 1) div b]" and "length items = n"
    and "\<forall>k < n. k < j * b \<longrightarrow> items ! k = publish env flt k (sparse_vector env c v g (texts ! k))"
  shows "sparse_loop env c flt (map Some texts) (int b) bis (min (j * b) n) items =
    Inr (map (\<lambda>k. publish env flt k (sparse_vector env c v g (texts ! k))) [0..<n])"
  using assms(5-7)
proof (induction bis arbitrary: j items)
  case Nil
  have "n \<le> (n + b - 1) div b * b"
    using div_mult_mod_eq [of "n + b - 1" b] mod_less_divisor [OF b(1), of "n + b - 1"] by linarith
  moreover have "(n + b - 1) div b \<le> j" using Nil(1) [symmetric] by (simp only: upt_eq_Nil_conv) linarith
  then have "(n + b - 1) div b * b \<le> j * b" by (rule mult_le_mono1)
  ultimately have "n \<le> j * b" by linarith
  with Nil(2,3) have "items = map (\<lambda>k. publish env flt k (sparse_vector env c v g (texts ! k))) [0..<n]"
    by (intro nth_equalityI) simp_all
  then show ?case by simp
next
  case (Cons i bis)
  let ?q = "(n + b - 1) div b"
  have j: "i = j" "j < ?q" "bis = [Suc j..<?q]"
    using upt_eq_Cons_conv [THEN iffD1, OF Cons.prems(1) [symmetric]] by auto
  have below: "j * b < n" by (rule batch_ranges_below [OF j(2) b(1)])
  have range: "get_batch (int j) (int (length (map Some texts))) (int b) =
      Some \<lparr>range_start = int (j * b), range_end = int (min (Suc j * b) n)\<rparr>"
    using get_batch_nat [OF b j(2)] n by simp
  let ?part = "sub_list (j * b) (min (Suc j * b) n) texts"
  have part: "sub_list (j * b) (min (Suc j * b) n) (map Some texts) = map Some ?part"
    by (simp add: sub_list_def take_map drop_map)
  have lp: "length ?part = min (Suc j * b) n - j * b" using below n by (simp add: sub_list_def)
  let ?items = "store_vectors env flt (j * b) (map (sparse_vector env c v g) ?part) items"
  have fit: "j * b + length (map (sparse_vector env c v g) ?part) \<le> length items"
    using lp Cons.prems(2) below by simp
  note st = store_vectors_nth [OF fit, of env flt]
  have new: "\<forall>k < n. k < Suc j * b \<longrightarrow> ?items ! k = publish env flt k (sparse_vector env c v g (texts ! k))"
  proof (intro allI impI)
    fix k assume k: "k < n" "k < Suc j * b"
    show "?items ! k = publish env flt k (sparse_vector env c v g (texts ! k))"
    proof (cases "k < j * b")
      case True
      with st k Cons.prems(2,3) show ?thesis by simp
    next
      case False
      then have in_part: "k - j * b < length ?part" using k lp by auto
      moreover have "?part ! (k - j * b) = texts ! k"
        using False k n by (simp add: sub_list_def)
      moreover have "j * b \<le> k \<and> k < j * b + length (map (sparse_vector env c v g) ?part)"
        using in_part False unfolding length_map by linarith
      then have "?items ! k = publish env flt k (map (sparse_vector env c v g) ?part ! (k - j * b))"
        using st k(1) Cons.prems(2) by presburger
      ultimately show ?thesis by (simp only: nth_map)
    qed
  qed
  have step: "sparse_loop env c flt (map Some texts) (int b) (i # bis) (min (j * b) n) items =
      sparse_loop env c flt (map Some texts) (int b) bis (min (Suc j * b) n) ?items"
  proof -
    have "j * b + length (map Some ?part) = min (Suc j * b) n" "min (j * b) n = j * b"
      using below lp unfolding length_map by (simp_all del: length_sub_list)
    moreover have "\<not> list_ex (\<lambda>t. t = None) (map Some ?part)" by (simp add: list_ex_iff)
    moreover have "map the (map Some ?part) = ?part" by simp
    moreover have "nat (int j * int b) = j * b" by (simp flip: of_nat_mult)
    ultimately show ?thesis
      by (simp add: j(1) range part Let_def sparse_onnx_batch_ok [OF ready] del: map_map mult_Suc length_map)
  qed
  show ?case
    unfolding step using Cons.prems j st new by (intro Cons.IH) simp_all
qed

lemma above_lengths: "length (indices (above b xs)) = length (weights (above b xs))"
  by (simp add: above_def Let_def)

lemma drop_special_lengths:
  "length (indices r) = length (weights r) \<Longrightarrow>
     length (indices (drop_special_tokens ids r)) = length (weights (drop_special_tokens ids r))"
  by (simp add: drop_special_tokens_def)

definition paired :: "'f sparse_result \<Rightarrow> bool" where
  "paired r \<longleftrightarrow> length (indices r) = length (weights r)"

lemma session_embed_batch_paired:
  "session_embed_batch ln' build_ok compute neg texts s = Inr (rs, s') \<Longrightarrow> \<forall>r \<in> set rs. paired r"
  by (auto simp: session_embed_batch_def Let_def paired_def sparse_empty_def drop_special_lengths splade_pool_lengths bind_sum_Inr
      split: if_splits prod.splits option.splits)

lemma embed_chunks_paired:
  "embed_chunks ln' build_ok compute neg bs texts s = Inr (rs, s') \<Longrightarrow> \<forall>r \<in> set rs. paired r"
proof (induction "length texts" arbitrary: texts s rs s' rule: less_induct)
  case less
  show ?case
  proof (cases "texts = [] \<or> bs = 0")
    case True
    with less.prems show ?thesis by (auto simp: embed_chunks.simps)
  next
    case False
    with less.prems obtain r1 s1 r2 s2 where
      "session_embed_batch ln' build_ok compute neg (take bs texts) s = Inr (r1, s1)"
      "embed_chunks ln' build_ok compute neg bs (drop bs texts) s1 = Inr (r2, s2)" "rs = r1 @ r2"
      by (subst (asm) embed_chunks.simps) (auto simp: bind_sum_Inr)
    moreover have "length (drop bs texts) < length texts" using False by (cases texts) auto
    ultimately have "\<forall>r \<in> set r1. paired r" "\<forall>r \<in> set r2. paired r" "rs = r1 @ r2"
      by (blast dest: session_embed_batch_paired less.hyps)+
    then show ?thesis by auto
  qed
qed

lemma session_embed_paired:
  "session_embed ln' build_ok compute neg texts b s = Inr (rs, s') \<Longrightarrow> \<forall>r \<in> set rs. paired r"
  by (auto simp: session_embed_def split: if_splits dest: embed_chunks_paired)

text \<open>What a published item holds, whichever backend the vector came from.\<close>

lemma publish_item:
  assumes "sorter (sp_sort env)" and "sorter (sp_psort env)" and "paired sr"
    and "item_indices (publish env (top_k, min_weight, fmt) k sr) = Some ids"
  shows "\<exists>ws. item_values (publish env (top_k, min_weight, fmt) k sr) = Some ws \<and> length ws = length ids \<and>
    item_length (publish env (top_k, min_weight, fmt) k sr) = length ids \<and>
    set ids \<subseteq> set (indices sr) \<and> (0 < top_k \<longrightarrow> int (length ids) \<le> top_k) \<and>
    (0 < min_weight \<longrightarrow> (\<forall>w \<in> set ws. min_weight \<le> w))"
proof -
  define out where "out = sparse_prune_and_sort (sp_sort env) (sp_psort env) top_k min_weight fmt sr"
  have ids: "ids = indices out"
    and item: "item_values (publish env (top_k, min_weight, fmt) k sr) = Some (weights out)"
      "item_length (publish env (top_k, min_weight, fmt) k sr) = length (indices out)"
    using assms(4) by (auto simp: publish_def sparse_result_store_def out_def split: if_splits)
  have len: "length (indices sr) = length (weights sr)" using assms(3) by (simp add: paired_def)
  have spec: "(\<exists>dropped. mset (terms_of sr) = mset (terms_of out) + mset dropped \<and>
      (\<forall>d \<in> set dropped. (0 < min_weight \<and> fst d < min_weight) \<or>
         (int (length (indices out)) = top_k \<and> (\<forall>t \<in> set (terms_of out). fst d \<le> fst t)))) \<and>
    (\<forall>w \<in> set (weights out). 0 < min_weight \<longrightarrow> min_weight \<le> w) \<and>
    (0 < top_k \<longrightarrow> int (length (indices out)) \<le> top_k) \<and>
    (if fmt = FORMAT_INDEX_ORDER then sorted (indices out) else sorted_wrt (\<ge>) (weights out))"
    by (rule prune_sort_spec [OF assms(1,2) len out_def])
  have out: "length (indices out) = length (weights out)"
    by (simp add: out_def sparse_prune_and_sort_def order_terms_def)
  have "set (map snd (terms_of out)) \<subseteq> set (map snd (terms_of sr))"
    using spec by (metis list.set_map image_mono mset_subset_eq_add_left set_mset_mono set_mset_mset)
  then have "set (indices out) \<subseteq> set (indices sr)" using out len by (simp add: terms_of_def)
  with item ids out spec show ?thesis by auto
qed

lemma sparse_embed_ok:
  assumes "sparse_ready env c v g" and "b = (if batch_size \<le> 0 then sx_batch_size c else batch_size)" and "0 < b"
    and "int (length texts) + b \<le> INT_MAX"
  shows "\<exists>nb. sparse_embed env elapsed c (map Some texts) batch_size opts r =
    Some (OK, r\<lparr>sr_items := Some (map (\<lambda>k. publish env (sparse_filter opts c) k (sparse_vector env c v g (texts ! k)))
        [0..<length texts]), sr_count := int (length texts)\<rparr>, count_embed (length texts) nb elapsed c, None)"
proof -
  let ?n = "length texts"
  have b: "0 < nat b" "int ?n + int (nat b) \<le> INT_MAX" using assms(3,4) by simp_all
  have count: "batch_count (int ?n) b = Some (int ((?n + nat b - 1) div nat b))"
    using batch_count_nat [OF b] assms(3) by simp
  have "sparse_loop env c (sparse_filter opts c) (map Some texts) b [0..<(?n + nat b - 1) div nat b] 0
      (replicate ?n empty_item) = Inr (map (\<lambda>k. publish env (sparse_filter opts c) k (sparse_vector env c v g (texts ! k))) [0..<?n])"
    using sparse_loop_ok [OF assms(1) b refl, of "[0..<(?n + nat b - 1) div nat b]" 0 "replicate ?n empty_item"
      "sparse_filter opts c"] assms(3) by simp
  moreover have "sx_gguf c = None" "sp_calloc env" using assms(1) by (simp_all add: sparse_ready_def)
  ultimately show ?thesis
    using count unfolding sparse_embed_def Let_def assms(2) [symmetric]
    by (intro exI [of _ "int ((?n + nat b - 1) div nat b)"]) (simp add: sparse_embed_onnx_def Let_def)
qed

section \<open>Properties\<close>

text \<open>C14. Embedding on ONNX Runtime fills one slot per text, in order, with the pruned and sorted vector of
  that text alone: neither the batch size nor the other texts of a batch, whose padding the model
  computes logits for, change it. The status is OK, the count is the number of texts, and only the
  counters of the context change.\<close>

theorem sparse_embed_exact:
  assumes "sparse_ready env c v g" and "b = (if batch_size \<le> 0 then sx_batch_size c else batch_size)" and "0 < b"
    and "int (length texts) + b \<le> INT_MAX"
  shows "\<exists>nb. sparse_embed env elapsed c (map Some texts) batch_size opts r =
    Some (OK, r\<lparr>sr_items := Some (map (\<lambda>k. publish env (sparse_filter opts c) k (sparse_vector env c v g (texts ! k)))
        [0..<length texts]), sr_count := int (length texts)\<rparr>, count_embed (length texts) nb elapsed c, None)"
  using assms by (rule sparse_embed_ok)

text \<open>A model whose logits are its token ids, and one that pools by itself.\<close>

definition sample_logits :: "'f::ring_1 inference" where
  "sample_logits inputs b n outs = Inr [\<lparr>tr_data = map of_int (snd (hd inputs)), tr_shape = [int b, int n, 1]\<rparr>]"

definition sample_pooled :: "'f::one inference" where
  "sample_pooled inputs b n outs = Inr [\<lparr>tr_data = replicate b 1, tr_shape = [int b, 1]\<rparr>]"

definition sample_sparse_env :: "'f inference \<Rightarrow> bool \<Rightarrow> (nat, 'f::linordered_idom) sparse_env" where
  "sample_sparse_env infer calloc = \<lparr>sp_fails = \<lambda>_. None, sp_infer = infer, sp_ln = \<lambda>x. x, sp_sort = sort_by,
     sp_psort = sort_by, sp_calloc = calloc, sp_malloc = \<lambda>_. (True, True), sp_build = \<lambda>_ _. True,
     sp_compute = \<lambda>_ _ _ _ _ _. None, sp_neg = -1\<rparr>"

definition sample_sparse_ctx :: "(nat, int) session option \<Rightarrow> (nat, int) sparse_ctx" where
  "sample_sparse_ctx s = \<lparr>sx_sess = \<lparr>opened = True, input_names = [''input_ids''], output_names = [''logits'']\<rparr>,
     sx_tok = tokenizer_new\<lparr>max_length := 4\<rparr>, sx_gguf = s, sx_model = 0, sx_max_length = 4, sx_model_name = ''m'',
     sx_num_threads = 1, sx_batch_size = 2, sx_provider = 0, sx_device_id = 0,
     sx_desc = \<lparr>d_name = ''m'', d_dimension = 0, d_max_length = 4, d_pooling = POOL_MEAN, d_num_threads = 1, d_batch_size = 2,
       d_provider = 0, d_device_id = 0\<rparr>,
     sx_top_k = 0, sx_min_weight = 0, sx_texts = 0, sx_batches = 0, sx_latency = 0, sx_calls = 0, sx_format = 0\<rparr>"

lemma sample_sparse_ready:
  assumes "sx_gguf c = None" and "0 < max_length (sx_tok c)"
  shows "sparse_ready (sample_sparse_env (sample_logits :: 'f::linordered_idom inference) True) c 1 (map (\<lambda>i. [of_int i]))"
proof -
  have "logits_model sample_logits sess pad 1 (map (\<lambda>i. [of_int i :: 'f]))" for sess pad
    unfolding logits_model_def
  proof (intro allI impI)
    fix idss :: "int list list" and n assume le: "\<forall>ids \<in> set idss. length ids \<le> n"
    let ?ts = "map (\<lambda>ids. map (\<lambda>i. [of_int i :: 'f]) (pad_row n pad ids)) idss"
    have "concat (map concat ?ts) = map of_int (concat (map (pad_row n pad) idss))"
      by (induction idss) (simp_all add: concat_map_singleton)
    moreover have "take (length ids) (pad_row n pad ids) = ids" if "length ids \<le> n" for ids
      using that by (simp add: pad_row_def)
    ultimately show "\<exists>ts rest. sample_logits (padded_inputs sess pad n idss) (length idss) n (output_names sess) =
          Inr (\<lparr>tr_data = concat (map concat ts), tr_shape = [int (length idss), int n, int 1]\<rparr> # rest) \<and>
        (\<forall>t \<in> set rest. prod_list (tr_shape t) = int (length (tr_data t))) \<and> length ts = length idss \<and>
        (\<forall>i < length idss. length (ts ! i) = n \<and> (\<forall>x \<in> set (ts ! i). length x = 1) \<and>
           take (length (idss ! i)) (ts ! i) = map (\<lambda>i. [of_int i :: 'f]) (idss ! i))"
      using le by (intro exI [of _ ?ts] exI [of _ "[]"])
        (auto simp: sample_logits_def padded_inputs_def run_inputs_def take_map)
  qed
  with assms show ?thesis by (simp add: sparse_ready_def sample_sparse_env_def)
qed

lemma sample_ctx_parts: "sx_gguf (sample_sparse_ctx s) = s" "0 < max_length (sx_tok (sample_sparse_ctx s))"
  by (simp_all add: sample_sparse_ctx_def)

theorem sparse_embed_exact_witness:
  "\<exists>items c'. sparse_embed (sample_sparse_env sample_logits True) 1 (sample_sparse_ctx None) [Some ''a'', Some ''b c'', Some []] 2
      None \<lparr>sr_items = None, sr_count = 0\<rparr> = Some (OK, \<lparr>sr_items = Some items, sr_count = 3\<rparr>, c', None) \<and> length items = 3"
proof -
  have b: "2 = (if (2::int) \<le> 0 then sx_batch_size (sample_sparse_ctx None) else 2)" by simp
  from sparse_embed_exact [OF sample_sparse_ready [OF sample_ctx_parts] b, of "[''a'', ''b c'', []]" 1 None "\<lparr>sr_items = None, sr_count = 0\<rparr>"]
  show ?thesis by (auto simp: INT_MAX_def)
qed

text \<open>Embedding with the session of a loaded GGUF file returns OK and one item per text, for any batch
  size whose tokens an \<open>int\<close> can count, and whether or not the graph builds and computes. No item holds a special token of the file, more
  than \<open>top_k\<close> terms or a weight below a positive \<open>min_weight\<close>, and its length ids that of both its arrays.\<close>

theorem sparse_gguf_items:
  assumes "session_load parse genv path ml session_new = Inr s" and "sx_gguf c = Some s" and "sp_calloc env"
    and "sorter (sp_sort env)" and "sorter (sp_psort env)" and "texts \<noteq> []" and "0 < batch_size"
    and "int (length texts) + batch_size \<le> INT_MAX" and "sparse_filter opts c = (top_k, min_weight, fmt)"
    and "batch_fits s (map (\<lambda>t. case t of None \<Rightarrow> [] | Some x \<Rightarrow> x) texts) batch_size"
  shows "\<exists>items c'. sparse_embed env elapsed c texts batch_size opts r =
      Some (OK, r\<lparr>sr_items := Some items, sr_count := int (length texts)\<rparr>, c', None) \<and> length items = length texts \<and>
    (\<forall>it \<in> set items. \<forall>ids. item_indices it = Some ids \<longrightarrow>
       (\<exists>ws. item_values it = Some ws \<and> length ws = length ids \<and> item_length it = length ids \<and>
          (\<forall>i \<in> set ids. int i \<notin> set (s_special s)) \<and> (0 < top_k \<longrightarrow> int (length ids) \<le> top_k) \<and>
          (0 < min_weight \<longrightarrow> (\<forall>w \<in> set ws. min_weight \<le> w))))"
proof -
  let ?ts = "map (\<lambda>t. case t of None \<Rightarrow> [] | Some x \<Rightarrow> x) texts" and ?n = "length texts"
  obtain vs s' where run: "session_embed (sp_ln env) (sp_build env) (sp_compute env) (sp_neg env) ?ts batch_size s = Inr (vs, s')"
    and vs: "length vs = ?n" "\<forall>r \<in> set vs. \<forall>i \<in> set (indices r). int i \<notin> set (s_special s)"
    using session_embed_spec [OF assms(1,10), of "sp_ln env" "sp_build env" "sp_compute env" "sp_neg env"] by (auto simp: clean_def)
  have "batch_count (int ?n) batch_size = Some (int ((?n + nat batch_size - 1) div nat batch_size))"
    using batch_count_nat [of "nat batch_size" ?n] assms(7,8) by simp
  moreover define items where "items = store_vectors env (top_k, min_weight, fmt) 0 vs (replicate ?n empty_item)"
  ultimately have call: "sparse_embed env elapsed c texts batch_size opts r =
      Some (OK, r\<lparr>sr_items := Some items, sr_count := int ?n\<rparr>,
        count_embed ?n (int ((?n + nat batch_size - 1) div nat batch_size)) elapsed (c\<lparr>sx_gguf := Some s'\<rparr>), None)"
    using assms(2,3,7,9) run vs(1) by (simp add: sparse_embed_def sparse_embed_gguf_def sparse_filter_def Let_def)
  have items: "length items = ?n" "\<forall>k < ?n. items ! k = publish env (top_k, min_weight, fmt) k (vs ! k)"
    using store_vectors_nth [of 0 vs "replicate ?n empty_item" env "(top_k, min_weight, fmt)"] vs(1) by (simp_all add: items_def)
  have "\<exists>ws. item_values it = Some ws \<and> length ws = length ids \<and> item_length it = length ids \<and>
      (\<forall>i \<in> set ids. int i \<notin> set (s_special s)) \<and> (0 < top_k \<longrightarrow> int (length ids) \<le> top_k) \<and>
      (0 < min_weight \<longrightarrow> (\<forall>w \<in> set ws. min_weight \<le> w))"
    if it: "it \<in> set items" and idx: "item_indices it = Some ids" for it ids
  proof -
    obtain k where k: "k < ?n" "it = publish env (top_k, min_weight, fmt) k (vs ! k)"
      using it items by (auto simp: in_set_conv_nth)
    have v: "vs ! k \<in> set vs" using k(1) vs(1) by simp
    then have "paired (vs ! k)" using session_embed_paired [OF run] by blast
    from publish_item [OF assms(4,5) this idx [unfolded k(2)]] show ?thesis
      using vs(2) v unfolding k(2) by blast
  qed
  with call items(1) show ?thesis by blast
qed

theorem sparse_gguf_items_witness:
  "\<exists>s items c'. session_load (\<lambda>_. Some sample_file) sample_env (Some ''m.gguf'') 0 session_new = Inr s \<and>
    sparse_embed (sample_sparse_env sample_logits True) 1 (sample_sparse_ctx (Some s)) [Some ''a'', None] 2 None
      \<lparr>sr_items = None, sr_count = 0\<rparr> = Some (OK, \<lparr>sr_items = Some items, sr_count = 2\<rparr>, c', None) \<and> length items = 2"
proof -
  obtain s :: "(nat, int) session" where s: "session_load (\<lambda>_. Some sample_file) sample_env (Some ''m.gguf'') 0 session_new = Inr s"
    "max_length (s_tok s) = 16" using sample_session by blast
  then have fits: "batch_fits s [''a'', []] 2" by (simp add: batch_fits_def INT_MAX_def)
  from sparse_gguf_items [OF s(1), of "sample_sparse_ctx (Some s)" "sample_sparse_env sample_logits True" "[Some ''a'', None]" 2 None 0 0 0
      1 "\<lparr>sr_items = None, sr_count = 0\<rparr>"] isort.sorter_axioms fits
  have "\<exists>items c'. sparse_embed (sample_sparse_env sample_logits True) 1 (sample_sparse_ctx (Some s)) [Some ''a'', None] 2 None
      \<lparr>sr_items = None, sr_count = 0\<rparr> = Some (OK, \<lparr>sr_items = Some items, sr_count = 2\<rparr>, c', None) \<and> length items = 2"
    by (fastforce simp: sample_sparse_ctx_def sample_sparse_env_def sparse_filter_def INT_MAX_def)
  with s(1) show ?thesis by blast
qed

text \<open>The branch for models that pool themselves is wrong: with an output of two dimensions, batch and
  vocabulary, pooling still walks the tokens of the text and reads past the end of the data as soon as
  the text has two tokens.\<close>

theorem sparse_pooled_overread:
  assumes "sx_gguf c = None" and "0 < max_length (sx_tok c)" and "\<forall>call. sp_fails env call = None" and "sp_calloc env"
    and "\<forall>ids n. \<exists>x. sp_infer env (padded_inputs (sx_sess c) (pad_token_id (sx_tok c)) n [ids]) 1 n (output_names (sx_sess c)) =
      Inr [\<lparr>tr_data = x, tr_shape = [1, int v]\<rparr>] \<and> length x = v"
    and "0 < v" and "2 \<le> length (tok_ids (sx_tok c) s)" and "0 < sx_batch_size c" and "1 + sx_batch_size c \<le> INT_MAX"
  shows "sparse_embed env elapsed c [Some s] 0 opts r = None"
proof -
  let ?t = "sx_tok c" and ?ids = "tok_ids (sx_tok c) s"
  from encode_batch_padded [OF assms(2), of "[s]"] obtain n where
    enc: "encode_batch ?t [s] = Inr \<lparr>input_ids = [pad_row n (pad_token_id ?t) ?ids],
      attention_mask = [pad_row n 0 (map (\<lambda>_. 1) ?ids)], token_type_ids = [replicate n 0], seq_length = int n\<rparr>"
    and le: "length ?ids \<le> n" by auto
  let ?attn = "pad_row n 0 (map (\<lambda>_. 1::int) ?ids)"
  obtain x where run: "sp_infer env (padded_inputs (sx_sess c) (pad_token_id ?t) n [?ids]) 1 n (output_names (sx_sess c)) =
      Inr [\<lparr>tr_data = x, tr_shape = [1, int v]\<rparr>]" and x: "length x = v" using assms(5) by blast
  have f: "flatten_rows (Suc 0) n [pad_row n (pad_token_id ?t) ?ids] = pad_row n (pad_token_id ?t) ?ids"
    "flatten_rows (Suc 0) n [?attn] = ?attn"
    using flatten_rows_rect [of "[pad_row n (pad_token_id ?t) ?ids]" n] flatten_rows_rect [of "[?attn]" n] le by simp_all
  have "onnx_run (sp_fails env) (sp_infer env) (sx_sess c) (pad_row n (pad_token_id ?t) ?ids) ?attn (Some (replicate n 0)) 1 n (- 1) =
    (Inr [\<lparr>tr_data = x, tr_shape = [1, int v]\<rparr>], 0)"
    using run x by (intro onnx_run_ok [OF assms(3)]) (simp_all add: padded_inputs_def run_outputs_def)
  moreover have "\<not> reads_inside ?attn v v"
  proof -
    have "length ?attn = n" "1 < length ?ids" using le assms(7) by simp_all
    moreover from this have "1 < length ?attn \<and> ?attn ! 1 \<noteq> 0" using le by (auto simp: pad_row_def nth_append)
    ultimately show ?thesis using assms(6) by (auto simp: reads_inside_def list_all_iff intro!: bexI [of _ 1])
  qed
  ultimately have "sparse_onnx_batch env c [s] = Inl Undef"
    using x by (simp add: sparse_onnx_batch_def enc f Let_def)
  moreover have "batch_count 1 (sx_batch_size c) = Some 1" "get_batch 0 1 (sx_batch_size c) = Some \<lparr>range_start = 0, range_end = 1\<rparr>"
    using batch_count_nat [of "nat (sx_batch_size c)" 1] get_batch_nat [of "nat (sx_batch_size c)" 1 0] assms(8,9) by simp_all
  ultimately show ?thesis
    using assms(1,4) by (simp add: sparse_embed_def sparse_embed_onnx_def Let_def sub_list_def)
qed

theorem sparse_pooled_overread_witness:
  "sparse_embed (sample_sparse_env sample_pooled True) 1 (sample_sparse_ctx None) [Some ''a''] 0 None
     \<lparr>sr_items = None, sr_count = 0\<rparr> = None"
proof (rule sparse_pooled_overread [where v = 1])
  show "2 \<le> length (tok_ids (sx_tok (sample_sparse_ctx None)) ''a'')" by code_simp
qed (simp_all add: sample_sparse_env_def sample_sparse_ctx_def sample_pooled_def tokenizer_new_def INT_MAX_def)

text \<open>When the array of results cannot be allocated, the ONNX path has already set the count: freeing
  the result, as the caller of a failed call does, walks a null pointer. The GGUF path leaves a result
  that can be freed.\<close>

theorem sparse_oom_unfreeable:
  assumes "\<not> sp_calloc env" and "texts \<noteq> []" and "0 < sx_batch_size c"
    and "\<forall>s. sx_gguf c = Some s \<longrightarrow> session_load parse genv path ml session_new = Inr s \<and>
      batch_fits s (map (\<lambda>t. case t of None \<Rightarrow> [] | Some x \<Rightarrow> x) texts) (if batch_size \<le> 0 then sx_batch_size c else batch_size)"
  shows "\<exists>r' c'. sparse_embed env elapsed c texts batch_size opts r = Some (OUT_OF_MEMORY, r', c', None) \<and>
    (lembed_sparse_embeddings_free r' = None \<longleftrightarrow> sx_gguf c = None)"
proof (cases "sx_gguf c")
  case None
  with assms(1,2) show ?thesis
    by (simp add: sparse_embed_def sparse_embed_onnx_def lembed_sparse_embeddings_free_def Let_def)
next
  case (Some s)
  with assms(4) have "session_load parse genv path ml session_new = Inr s"
    "batch_fits s (map (\<lambda>t. case t of None \<Rightarrow> [] | Some x \<Rightarrow> x) texts) (if batch_size \<le> 0 then sx_batch_size c else batch_size)"
    by blast+
  from session_embed_spec [OF this] obtain vs s' where
    "session_embed (sp_ln env) (sp_build env) (sp_compute env) (sp_neg env) (map (\<lambda>t. case t of None \<Rightarrow> [] | Some x \<Rightarrow> x) texts)
      (if batch_size \<le> 0 then sx_batch_size c else batch_size) s = Inr (vs, s')" by blast
  with Some assms(1) show ?thesis
    by (simp add: sparse_embed_def sparse_embed_gguf_def lembed_sparse_embeddings_free_def Let_def)
qed

theorem sparse_oom_unfreeable_witness:
  "\<exists>r' c'. sparse_embed (sample_sparse_env sample_logits False) 1 (sample_sparse_ctx None) [Some ''a''] 1 None
      \<lparr>sr_items = None, sr_count = 0\<rparr> = Some (OUT_OF_MEMORY, r', c', None) \<and> lembed_sparse_embeddings_free r' = None"
  using sparse_oom_unfreeable [of "sample_sparse_env sample_logits False" "[Some ''a'']" "sample_sparse_ctx None" Map.empty
      sample_env None 0 1 1 None "\<lparr>sr_items = None, sr_count = 0\<rparr>"]
  by (simp add: sample_sparse_env_def sample_sparse_ctx_def)

end
