(* ===== verification/SparseCreate.thy ===== *)
theory SparseCreate
  imports SparseEmbedding TextCreate
begin

text \<open>
  Creating a sparse embedding context (\<open>sparse_text_embedding.h\<close>,
  \<open>detail/sparse_text_embedding_gguf_impl.hpp\<close>): from the registry, from a directory, from a GGUF file and
  from a repository, and the search for the best filter, \<open>lembed_sparse_best_config\<close>. A creation yields its
  status, the context it stored in \<open>*out\<close>, its message and how many contexts it allocated and lost.
  \<open>None\<close> is undefined behaviour.
\<close>

section \<open>Options and results\<close>

definition SPARSE_MODEL_DEFAULT :: int where "SPARSE_MODEL_DEFAULT = 0"

definition lembed_sparse_options_default :: "'f::zero sparse_options" where
  "lembed_sparse_options_default = \<lparr>so_model = SPARSE_MODEL_DEFAULT, so_provider = 0, so_device_id = 0, so_cache_dir = None,
     so_max_length = 0, so_num_threads = 0, so_batch_size = DEFAULT_BATCH_SIZE, so_offline = False, so_top_k = 0,
     so_min_weight = 0, so_format = 0\<rparr>"

record ('t, 'f) sparse_created =
  sc_status :: status
  sc_ctx :: "('t, 'f) sparse_ctx option"
  sc_error :: "string option"
  sc_lost :: nat

definition sx_refused :: "status \<Rightarrow> string option \<Rightarrow> ('t, 'f) sparse_created" where
  "sx_refused s err = \<lparr>sc_status = s, sc_ctx = None, sc_error = map_option set_error err, sc_lost = 0\<rparr>"

definition sx_granted :: "('t, 'f) sparse_ctx \<Rightarrow> ('t, 'f) sparse_created" where
  "sx_granted c = \<lparr>sc_status = OK, sc_ctx = Some c, sc_error = None, sc_lost = 0\<rparr>"

definition sparse_ctx_new :: "('t, 'f::zero) sparse_ctx" where
  "sparse_ctx_new = \<lparr>sx_sess = onnx_session_new, sx_tok = tokenizer_new, sx_gguf = None, sx_model = 0, sx_max_length = 0,
     sx_model_name = [], sx_num_threads = 0, sx_batch_size = 0, sx_provider = 0, sx_device_id = 0, sx_desc = desc_new,
     sx_top_k = 0, sx_min_weight = 0, sx_texts = 0, sx_batches = 0, sx_latency = 0, sx_calls = 0, sx_format = 0\<rparr>"

text \<open>What the three constructors take from the options, and the descriptor they fill in last.\<close>

definition sparse_context :: "'f sparse_options \<Rightarrow> int \<Rightarrow> string \<Rightarrow> int \<Rightarrow> int \<Rightarrow> ('t, 'f::zero) sparse_ctx" where
  "sparse_context opts model name ml provider =
     sparse_ctx_new\<lparr>sx_model := model, sx_max_length := ml, sx_model_name := name, sx_num_threads := so_num_threads opts,
       sx_batch_size := positive_or (so_batch_size opts) DEFAULT_BATCH_SIZE, sx_provider := provider,
       sx_device_id := so_device_id opts\<rparr>"

definition sx_finish :: "'f sparse_options \<Rightarrow> ('t, 'f) sparse_ctx \<Rightarrow> ('t, 'f) sparse_ctx" where
  "sx_finish opts c = c\<lparr>sx_desc := \<lparr>d_name = sx_model_name c, d_dimension = 0, d_max_length = sx_max_length c,
       d_pooling = POOL_MEAN, d_num_threads = sx_num_threads c, d_batch_size = sx_batch_size c,
       d_provider = sx_provider c, d_device_id = sx_device_id c\<rparr>,
     sx_top_k := so_top_k opts, sx_min_weight := so_min_weight opts, sx_format := so_format opts\<rparr>"

text \<open>When loading throws, the context is neither stored nor deleted.\<close>

definition sx_load ::
    "status \<Rightarrow> 'f sparse_options \<Rightarrow> (string + unit) \<times> onnx_session \<times> nat \<Rightarrow> tok_fail + tokenizer \<Rightarrow> ('t, 'f) sparse_ctx
      \<Rightarrow> ('t, 'f) sparse_created option" where
  "sx_load failure opts session tok c =
     (case session of
        (Inl msg, _) \<Rightarrow> Some ((sx_refused failure (Some msg))\<lparr>sc_lost := 1\<rparr>)
      | (Inr _, s, _) \<Rightarrow>
          (case tok of
             Inl e \<Rightarrow> (case thrown e of Undef \<Rightarrow> None | Threw msg \<Rightarrow> Some ((sx_refused failure (Some msg))\<lparr>sc_lost := 1\<rparr>))
           | Inr t \<Rightarrow> Some (sx_granted (sx_finish opts (c\<lparr>sx_sess := s, sx_tok := t\<rparr>)))))"

section \<open>The registry\<close>

definition lembed_sparse_text_embedding_create ::
    "('m, 'f::zero, 'd) load_env \<Rightarrow> 'f sparse_options option \<Rightarrow> bool \<Rightarrow> disk \<Rightarrow> ('t, 'f) sparse_created option \<times> disk" where
  "lembed_sparse_text_embedding_create env options out_ok dk =
     (case options of
        None \<Rightarrow> (Some (sx_refused INVALID_ARGUMENT None), dk)
      | Some opts \<Rightarrow>
          if \<not> out_ok then (Some (sx_refused INVALID_ARGUMENT None), dk)
          else (case lembed_get_sparse_model_info (so_model opts) True of (s0, row) \<Rightarrow>
            if s0 \<noteq> OK then (Some (sx_refused s0 None), dk)
            else case row of None \<Rightarrow> (None, dk) | Some info \<Rightarrow>
            case lembed_ensure_sparse_model (le_sys env) (so_model opts) (so_cache_dir opts) (so_offline opts) True dk of
              ((s1, model_dir, err), dk1) \<Rightarrow>
                if s1 \<noteq> OK then (Some \<lparr>sc_status = s1, sc_ctx = None, sc_error = err, sc_lost = 0\<rparr>, dk1)
                else case model_dir of None \<Rightarrow> (None, dk1) | Some dir \<Rightarrow>
                  let c = sparse_context opts (so_model opts) (model_name info)
                            (positive_or (so_max_length opts) (max_tokens info)) (so_provider opts);
                      session = onnx_load_from_file (le_fails env) (le_io env) (dir @ ''/'' @ model_file info)
                                  (so_num_threads opts) (so_provider opts) 0 (sx_sess c);
                      tok = load_from_file (le_parse env) (map_of (dk_files dk1)) (dir @ ''/tokenizer.json'')
                              (sx_max_length c) (sx_tok c)
                  in (sx_load ONNX_RUNTIME opts session tok c, dk1)))"

section \<open>GGUF files\<close>

text \<open>\<open>gguf_files\<close> is what parsing a file yields, \<open>ggml\<close> what ggml answers.\<close>

definition lembed_sparse_text_embedding_create_from_gguf_path ::
    "(string \<rightharpoonup> 'f gguf_file) \<Rightarrow> 't ggml_env \<Rightarrow> string option \<Rightarrow> 'f::{linorder,zero} sparse_options option \<Rightarrow> bool
      \<Rightarrow> ('t, 'f) sparse_created" where
  "lembed_sparse_text_embedding_create_from_gguf_path gguf_files ggml path options out_ok =
     (case path of
        Some (ch # cs) \<Rightarrow>
          if \<not> out_ok then sx_refused INVALID_ARGUMENT None
          else let opts = (case options of None \<Rightarrow> lembed_sparse_options_default | Some o' \<Rightarrow> o') in
            (case session_load gguf_files ggml path (so_max_length opts) session_new of
               Inl err \<Rightarrow> sx_refused UNSUPPORTED (Some (c_str err))
             | Inr s \<Rightarrow>
                 sx_granted (sx_finish opts ((sparse_context opts SPARSE_MODEL_COUNT (ch # cs) (s_max_length s) 0)
                   \<lparr>sx_gguf := Some s\<rparr>)))
      | _ \<Rightarrow> sx_refused INVALID_ARGUMENT None)"

definition lembed_sparse_text_embedding_create_from_gguf_model ::
    "sys_env \<Rightarrow> (string \<rightharpoonup> 'f gguf_file) \<Rightarrow> 't ggml_env \<Rightarrow> string option \<Rightarrow> string option
      \<Rightarrow> 'f::{linorder,zero} sparse_options option \<Rightarrow> bool \<Rightarrow> disk \<Rightarrow> ('t, 'f) sparse_created option \<times> disk" where
  "lembed_sparse_text_embedding_create_from_gguf_model sys gguf_files ggml repo filename options out_ok dk =
     (case (repo, filename) of
        (Some (r # rs), Some (f # fs)) \<Rightarrow>
          if \<not> out_ok then (Some (sx_refused INVALID_ARGUMENT None), dk)
          else let opts = (case options of None \<Rightarrow> lembed_sparse_options_default | Some o' \<Rightarrow> o') in
            (case lembed_ensure_gguf_model sys repo filename (so_cache_dir opts) (so_offline opts) True dk of
               ((s, path, err), dk1) \<Rightarrow>
                 if s \<noteq> OK then (Some \<lparr>sc_status = s, sc_ctx = None, sc_error = err, sc_lost = 0\<rparr>, dk1)
                 else case path of
                   None \<Rightarrow> (None, dk1)
                 | Some p \<Rightarrow>
                     (Some (lembed_sparse_text_embedding_create_from_gguf_path gguf_files ggml (Some p) (Some opts) out_ok), dk1))
      | _ \<Rightarrow> (Some (sx_refused INVALID_ARGUMENT None), dk))"

section \<open>Directories\<close>

definition ends_with_gguf :: "string \<Rightarrow> bool" where
  "ends_with_gguf path \<longleftrightarrow> length path \<ge> 5 \<and>
     (let s = drop (length path - 5) path in
      s ! 0 = CHR ''.'' \<and> s ! 1 \<in> {CHR ''g'', CHR ''G''} \<and> s ! 2 \<in> {CHR ''g'', CHR ''G''} \<and>
      s ! 3 \<in> {CHR ''u'', CHR ''U''} \<and> s ! 4 \<in> {CHR ''f'', CHR ''F''})"

definition lembed_sparse_text_embedding_create_from_path ::
    "('m, 'f::{linorder,zero}, 'd) load_env \<Rightarrow> (string \<rightharpoonup> 'f gguf_file) \<Rightarrow> 't ggml_env \<Rightarrow> string option
      \<Rightarrow> 'f sparse_options option \<Rightarrow> bool \<Rightarrow> disk \<Rightarrow> ('t, 'f) sparse_created option" where
  "lembed_sparse_text_embedding_create_from_path env gguf_files ggml dir_path options out_ok dk =
     (case (dir_path, options) of
        (Some (ch # cs), Some opts) \<Rightarrow>
          if \<not> out_ok then Some (sx_refused INVALID_ARGUMENT None)
          else if ends_with_gguf (ch # cs)
          then Some (lembed_sparse_text_embedding_create_from_gguf_path gguf_files ggml dir_path options out_ok)
          else (let p = ch # cs in
            (case (read_file_to_string dk (p @ ''/model.onnx''), read_file_to_string dk (p @ ''/tokenizer.json'')) of
               (Inl msg, _) \<Rightarrow> Some (sx_refused IO_ERROR (Some msg))
             | (_, Inl msg) \<Rightarrow> Some (sx_refused IO_ERROR (Some msg))
             | (Inr onnx, Inr blob) \<Rightarrow>
                 let len = (case map_of (dk_files dk) (p @ ''/config.json'') of None \<Rightarrow> 0
                            | Some config \<Rightarrow> snd (snd (parse_config_json (le_parse env) config (0, 0))));
                     c = sparse_context opts SPARSE_MODEL_COUNT p
                           (positive_or len (positive_or (so_max_length opts) DEFAULT_MAX_LENGTH)) (so_provider opts);
                     session = onnx_load_from_memory (le_fails env) (le_io env) onnx (so_num_threads opts) (so_provider opts)
                                 0 (sx_sess c);
                     tok = load_from_blob (le_parse env) blob (sx_max_length c) (sx_tok c)
                 in sx_load IO_ERROR opts session tok c))
      | _ \<Rightarrow> Some (sx_refused INVALID_ARGUMENT None))"

section \<open>The best filter\<close>

record 'f sparse_tuning =
  tn_top_k :: int
  tn_min_weight :: 'f
  tn_format :: int
  tn_threads :: int
  tn_batch_size :: int
  tn_throughput :: 'f
  tn_latency :: 'f
  tn_memory :: 'f

definition tuning_zero :: "'f::zero sparse_tuning" where
  "tuning_zero = \<lparr>tn_top_k = 0, tn_min_weight = 0, tn_format = 0, tn_threads = 0, tn_batch_size = 0, tn_throughput = 0,
     tn_latency = 0, tn_memory = 0\<rparr>"

record 'f sparse_best =
  bb_top_k :: int
  bb_min_weight :: 'f
  bb_throughput :: 'f
  bb_tested :: int

definition best_none :: "'f::zero sparse_best" where
  "best_none = \<lparr>bb_top_k = 0, bb_min_weight = 0, bb_throughput = 0, bb_tested = 0\<rparr>"

definition sparse_grid :: "(int \<times> 'f::linordered_field) list" where
  "sparse_grid = concat (map (\<lambda>tk. map (\<lambda>mw. (tk, mw)) [0, 1 / 100, 5 / 100]) [16, 32, 64, 128])"

definition throughput :: "nat \<Rightarrow> 'f::linordered_field \<Rightarrow> 'f" where
  "throughput n ms = (if ms > 0 then of_nat n / (ms / 1000) else 0)"

definition note_best :: "int \<times> 'f::linorder \<Rightarrow> 'f \<Rightarrow> 'f sparse_best \<Rightarrow> 'f sparse_best" where
  "note_best cand tp b =
     (let b1 = (if tp > bb_throughput b then b\<lparr>bb_throughput := tp, bb_top_k := fst cand, bb_min_weight := snd cand\<rparr> else b)
      in b1\<lparr>bb_tested := bb_tested b1 + 1\<rparr>)"

text \<open>
  A warm-up run and a timed run per candidate: \<open>run k\<close> is what the runtimes answer in the \<open>k\<close>-th run,
  \<open>inner k\<close> the time the run itself measures and \<open>ms k\<close> what the search measures for the \<open>k\<close>-th candidate.
\<close>

fun sparse_probe ::
    "(nat \<Rightarrow> ('t, 'f::linordered_field) sparse_env) \<Rightarrow> (nat \<Rightarrow> 'f) \<Rightarrow> (nat \<Rightarrow> 'f) \<Rightarrow> 'f sparse_options
      \<Rightarrow> string option list \<Rightarrow> nat \<Rightarrow> (int \<times> 'f) list \<Rightarrow> ('t, 'f) sparse_ctx \<Rightarrow> 'f sparse_best \<Rightarrow> 'f sparse_best option" where
  "sparse_probe run inner ms base texts k [] c b = Some b"
| "sparse_probe run inner ms base texts k (cand # cands) c b =
     (let probe = base\<lparr>so_top_k := fst cand, so_min_weight := snd cand\<rparr>;
          blank = \<lparr>sr_items = None, sr_count = 0\<rparr>
      in case sparse_embed (run (2 * k)) (inner (2 * k)) c texts (so_batch_size base) (Some probe) blank of
           None \<Rightarrow> None
         | Some (s, warm, c1, _) \<Rightarrow>
             if s \<noteq> OK then sparse_probe run inner ms base texts (Suc k) cands c1 b
             else (case lembed_sparse_embeddings_free warm of
               None \<Rightarrow> None
             | Some _ \<Rightarrow>
                 (case sparse_embed (run (2 * k + 1)) (inner (2 * k + 1)) c1 texts (so_batch_size base) (Some probe) blank of
                    None \<Rightarrow> None
                  | Some (s2, emb, c2, _) \<Rightarrow>
                      (case lembed_sparse_embeddings_free emb of
                         None \<Rightarrow> None
                       | Some _ \<Rightarrow>
                           sparse_probe run inner ms base texts (Suc k) cands c2
                             (if s2 = OK \<and> sr_count emb > 0 then note_best cand (throughput (length texts) (ms k)) b else b)))))"

definition probe_base :: "int \<Rightarrow> nat \<Rightarrow> 'f::zero sparse_options" where
  "probe_base model hw = lembed_sparse_options_default\<lparr>so_model := model,
     so_num_threads := (let cores = (if hw = 0 then 1 else int hw) in if cores > 4 then 4 else cores),
     so_batch_size := 32, so_offline := True\<rparr>"

text \<open>A regular file is local, anything else must be a code of the registry.\<close>

definition lembed_sparse_best_config ::
    "('m, 'f::linordered_field, 'd) load_env \<Rightarrow> (string \<rightharpoonup> 'f gguf_file) \<Rightarrow> 't ggml_env \<Rightarrow> nat
      \<Rightarrow> (nat \<Rightarrow> ('t, 'f) sparse_env) \<Rightarrow> (nat \<Rightarrow> 'f) \<Rightarrow> (nat \<Rightarrow> 'f) \<Rightarrow> 'f \<Rightarrow> string option \<Rightarrow> string option list option \<Rightarrow> int
      \<Rightarrow> 'f sparse_tuning option \<Rightarrow> disk \<Rightarrow> (status \<times> 'f sparse_tuning option \<times> disk) option" where
  "lembed_sparse_best_config env gguf_files ggml hw run inner ms total_ms name texts n_texts result dk =
     (case (name, texts, result) of
        (Some nm, Some ts, Some _) \<Rightarrow>
          if n_texts \<le> 0 then Some (INVALID_ARGUMENT, result, dk)
          else
            let local = file_exists dk nm;
                idx = (if local then 0 else lembed_find_sparse_model_by_code name);
                base = probe_base idx hw
            in if idx < 0 then Some (MODEL_NOT_FOUND, Some tuning_zero, dk)
               else (case (if local then (lembed_sparse_text_embedding_create_from_path env gguf_files ggml name (Some base) True dk, dk)
                           else lembed_sparse_text_embedding_create env (Some base) True dk) of
                 (None, _) \<Rightarrow> None
               | (Some r, dk1) \<Rightarrow>
                   if sc_status r \<noteq> OK then Some (sc_status r, Some tuning_zero, dk1)
                   else (case sc_ctx r of
                     None \<Rightarrow> None
                   | Some c \<Rightarrow>
                       (case sparse_probe run inner ms base (take (nat n_texts) ts) 0 sparse_grid c best_none of
                          None \<Rightarrow> None
                        | Some b \<Rightarrow>
                            if bb_tested b = 0 \<or> bb_throughput b \<le> 0 then Some (ONNX_RUNTIME, Some tuning_zero, dk1)
                            else Some (OK, Some \<lparr>tn_top_k = bb_top_k b, tn_min_weight = bb_min_weight b, tn_format = 0,
                                   tn_threads = so_num_threads base, tn_batch_size = so_batch_size base,
                                   tn_throughput = bb_throughput b, tn_latency = total_ms / of_int n_texts, tn_memory = 0\<rparr>, dk1))))
      | _ \<Rightarrow> Some (INVALID_ARGUMENT, result, dk))"

section \<open>Facts\<close>

lemma count_embed_ready [simp]: "sparse_ready env (count_embed n nb e c) v g \<longleftrightarrow> sparse_ready env c v g"
  by (simp add: sparse_ready_def count_embed_def)

text \<open>With runtimes that work, every candidate is measured.\<close>

definition note_all :: "nat \<Rightarrow> (nat \<Rightarrow> 'f::linordered_field) \<Rightarrow> nat \<Rightarrow> (int \<times> 'f) list \<Rightarrow> 'f sparse_best \<Rightarrow> 'f sparse_best" where
  "note_all n ms k cands b = fold (\<lambda>(i, cand). note_best cand (throughput n (ms i))) (zip [k..<k + length cands] cands) b"

lemma note_all_simps [simp]:
  "note_all n ms k [] b = b"
  "note_all n ms k (x # xs) b = note_all n ms (Suc k) xs (note_best x (throughput n (ms k)) b)"
proof -
  have "[k..<k + length (x # xs)] = k # [Suc k..<Suc k + length xs]" by (simp add: upt_rec)
  then show "note_all n ms k (x # xs) b = note_all n ms (Suc k) xs (note_best x (throughput n (ms k)) b)"
    by (simp add: note_all_def)
qed (simp add: note_all_def)

lemma sparse_probe_ok:
  assumes "\<forall>k. sparse_ready (run k) c v g" and "ts \<noteq> []" and "0 < so_batch_size base"
    and "int (length ts) + so_batch_size base \<le> INT_MAX"
  shows "sparse_probe run inner ms base (map Some ts) k cands c b = Some (note_all (length ts) ms k cands b)"
  using assms(1)
proof (induction cands arbitrary: k c b)
  case (Cons cand cands)
  let ?probe = "base\<lparr>so_top_k := fst cand, so_min_weight := snd cand\<rparr>" and ?blank = "\<lparr>sr_items = None, sr_count = 0\<rparr>"
  have batch: "so_batch_size base = (if so_batch_size base \<le> 0 then sx_batch_size d else so_batch_size base)"
    for d :: "('a, 'b) sparse_ctx" using assms(3) by simp
  have call: "\<exists>items nb. sparse_embed (run i) e d (map Some ts) (so_batch_size base) (Some ?probe) ?blank =
      Some (OK, \<lparr>sr_items = Some items, sr_count = int (length ts)\<rparr>, count_embed (length ts) nb e d, None) \<and>
      length items = length ts" if "\<forall>k. sparse_ready (run k) d v g" for d i e
    using sparse_embed_ok [OF that [THEN spec, of i] batch assms(3,4), of e "Some ?probe" ?blank] by auto
  obtain w nb where one: "sparse_embed (run (2 * k)) (inner (2 * k)) c (map Some ts) (so_batch_size base) (Some ?probe) ?blank =
      Some (OK, \<lparr>sr_items = Some w, sr_count = int (length ts)\<rparr>, count_embed (length ts) nb (inner (2 * k)) c, None)"
    "length w = length ts" using call [OF Cons.prems] by blast
  let ?c1 = "count_embed (length ts) nb (inner (2 * k)) c"
  have ready1: "\<forall>k. sparse_ready (run k) ?c1 v g" using Cons.prems by simp
  obtain m nb' where two: "sparse_embed (run (2 * k + 1)) (inner (2 * k + 1)) ?c1 (map Some ts) (so_batch_size base)
      (Some ?probe) ?blank = Some (OK, \<lparr>sr_items = Some m, sr_count = int (length ts)\<rparr>,
        count_embed (length ts) nb' (inner (2 * k + 1)) ?c1, None)" "length m = length ts" using call [OF ready1] by blast
  have "\<forall>i. sparse_ready (run i) (count_embed (length ts) nb' (inner (2 * k + 1)) ?c1) v g" using ready1 by simp
  note IH = Cons.IH [OF this]
  show ?case
    using one two IH assms(2) by (simp add: lembed_sparse_embeddings_free_def Let_def)
qed simp

lemma note_best_parts:
  "bb_tested (note_best cand tp b) = bb_tested b + 1" "bb_throughput (note_best cand tp b) = max (bb_throughput b) tp"
  "bb_throughput b < tp \<Longrightarrow> (bb_top_k (note_best cand tp b), bb_min_weight (note_best cand tp b)) = cand"
  "\<not> bb_throughput b < tp \<Longrightarrow> note_best cand tp b = b\<lparr>bb_tested := bb_tested b + 1\<rparr>"
  by (auto simp: note_best_def Let_def max_def)

lemma note_all_best:
  "bb_tested (note_all n ms k cands b) = bb_tested b + int (length cands) \<and>
   bb_throughput b \<le> bb_throughput (note_all n ms k cands b) \<and>
   (\<forall>i < length cands. throughput n (ms (k + i)) \<le> bb_throughput (note_all n ms k cands b)) \<and>
   (if bb_throughput b < bb_throughput (note_all n ms k cands b)
    then \<exists>i < length cands. bb_throughput (note_all n ms k cands b) = throughput n (ms (k + i)) \<and>
      (bb_top_k (note_all n ms k cands b), bb_min_weight (note_all n ms k cands b)) = cands ! i
    else (bb_top_k (note_all n ms k cands b), bb_min_weight (note_all n ms k cands b)) = (bb_top_k b, bb_min_weight b))"
proof (induction cands arbitrary: k b)
  case (Cons cand cands)
  let ?b1 = "note_best cand (throughput n (ms k)) b"
  let ?r = "note_all n ms (Suc k) cands ?b1"
  note IH = Cons.IH [of "Suc k" ?b1]
  have "throughput n (ms (k + i)) \<le> bb_throughput ?r" if "i < length (cand # cands)" for i
    using IH that note_best_parts(2) [of cand "throughput n (ms k)" b] by (cases i) auto
  moreover have "\<exists>i < length (cand # cands). bb_throughput ?r = throughput n (ms (k + i)) \<and>
      (bb_top_k ?r, bb_min_weight ?r) = (cand # cands) ! i" if less: "bb_throughput b < bb_throughput ?r"
  proof (cases "bb_throughput ?b1 < bb_throughput ?r")
    case True
    with IH obtain i where "i < length cands" "bb_throughput ?r = throughput n (ms (Suc k + i))"
      "(bb_top_k ?r, bb_min_weight ?r) = cands ! i" by auto
    then show ?thesis by (intro exI [of _ "Suc i"]) simp
  next
    case False
    with IH less have eq: "bb_throughput ?r = bb_throughput ?b1" by simp
    with less have "bb_throughput b < throughput n (ms k)" by (simp add: note_best_parts(2) max_def split: if_splits)
    with IH False eq note_best_parts(2) [of cand "throughput n (ms k)" b] note_best_parts(3) [of b "throughput n (ms k)" cand]
    show ?thesis by (intro exI [of _ 0]) simp
  qed
  moreover have "(bb_top_k ?r, bb_min_weight ?r) = (bb_top_k b, bb_min_weight b)" if "\<not> bb_throughput b < bb_throughput ?r"
  proof -
    have "\<not> bb_throughput b < throughput n (ms k)" "\<not> bb_throughput ?b1 < bb_throughput ?r"
      using that IH note_best_parts(2) [of cand "throughput n (ms k)" b] by auto
    with IH note_best_parts(4) [of b "throughput n (ms k)" cand] show ?thesis by simp
  qed
  ultimately show ?case using IH note_best_parts(1,2) [of cand "throughput n (ms k)" b] by auto
qed simp

lemma grid_length: "length (sparse_grid :: (int \<times> 'f::linordered_field) list) = 12"
  by (simp add: sparse_grid_def)

section \<open>Properties\<close>

text \<open>The search for the best filter measures the whole grid and answers with a candidate no other one
  is faster than, its throughput, and the threads and the batch size it was measured with.\<close>

theorem best_config_best:
  fixes env :: "('m, 'f::linordered_field, 'd) load_env" and c :: "('t, 'f) sparse_ctx"
  assumes "\<not> file_exists dk nm" and "lembed_find_sparse_model_by_code (Some nm) = idx" and "0 \<le> idx"
    and "lembed_sparse_text_embedding_create env (Some (probe_base idx hw)) True dk = (Some r, dk')"
    and "sc_status r = OK" and "sc_ctx r = Some c" and "\<forall>k. sparse_ready (run k) c v g" and "ts \<noteq> []"
    and "int (length ts) + 32 \<le> INT_MAX" and "i < 12" and "0 < ms i"
  shows "\<exists>j < 12. lembed_sparse_best_config env gguf_files ggml hw run inner ms total_ms (Some nm) (Some (map Some ts))
      (int (length ts)) (Some old) dk =
    Some (OK, Some \<lparr>tn_top_k = fst (sparse_grid ! j :: int \<times> 'f), tn_min_weight = snd (sparse_grid ! j), tn_format = 0,
      tn_threads = so_num_threads (probe_base idx hw :: 'f sparse_options), tn_batch_size = 32,
      tn_throughput = throughput (length ts) (ms j), tn_latency = total_ms / of_nat (length ts), tn_memory = 0\<rparr>, dk') \<and>
    (\<forall>i < 12. throughput (length ts) (ms i) \<le> throughput (length ts) (ms j))"
proof -
  let ?b = "note_all (length ts) ms 0 sparse_grid best_none"
  have batch: "so_batch_size (probe_base idx hw :: 'f sparse_options) = 32" by (simp add: probe_base_def)
  have probe: "sparse_probe run inner ms (probe_base idx hw) (map Some ts) 0 sparse_grid c best_none = Some ?b"
    using assms(9) batch by (intro sparse_probe_ok [OF assms(7,8)]) simp_all
  note best = note_all_best [of "length ts" ms 0 sparse_grid best_none, unfolded grid_length]
  have "0 < throughput (length ts) (ms i)"
    using assms(8,11) by (simp add: throughput_def)
  also have "\<dots> \<le> bb_throughput ?b" using best assms(10) by simp
  finally have pos: "0 < bb_throughput ?b" .
  with best obtain j where j: "j < 12" "bb_throughput ?b = throughput (length ts) (ms j)"
    "(bb_top_k ?b, bb_min_weight ?b) = sparse_grid ! j" by (auto simp: best_none_def)
  from j(3) have jj: "bb_top_k ?b = fst (sparse_grid ! j :: int \<times> 'f)" "bb_min_weight ?b = snd (sparse_grid ! j :: int \<times> 'f)"
    by (simp_all add: prod_eq_iff)
  have "bb_tested ?b \<noteq> 0" using best by (simp add: best_none_def)
  with assms(1-6,8) probe pos j(2) jj batch have "lembed_sparse_best_config env gguf_files ggml hw run inner ms total_ms (Some nm)
      (Some (map Some ts)) (int (length ts)) (Some old) dk =
    Some (OK, Some \<lparr>tn_top_k = fst (sparse_grid ! j :: int \<times> 'f), tn_min_weight = snd (sparse_grid ! j), tn_format = 0,
      tn_threads = so_num_threads (probe_base idx hw :: 'f sparse_options), tn_batch_size = 32,
      tn_throughput = throughput (length ts) (ms j), tn_latency = total_ms / of_nat (length ts), tn_memory = 0\<rparr>, dk')"
    by (simp add: lembed_sparse_best_config_def Let_def)
  moreover have "\<forall>i < 12. throughput (length ts) (ms i) \<le> throughput (length ts) (ms j)" using best j(2) by auto
  ultimately show ?thesis using j(1) by blast
qed

text \<open>The grid on a runtime where the fifth candidate is the fastest, with the default model in the cache.\<close>

definition sample_ms :: "nat \<Rightarrow> real" where "sample_ms i = (if i = 4 then 10 else 20)"

definition sample_sparse_disk :: disk where
  "sample_sparse_disk = snd (lembed_ensure_sparse_model sample_sys 0 None False True \<lparr>dk_files = [], dk_dirs = []\<rparr>)"

theorem best_config_best_witness:
  "\<exists>t dk'. lembed_sparse_best_config sample_load_env Map.empty sample_env 8 (\<lambda>_. sample_sparse_env sample_logits True) (\<lambda>_. 1)
      sample_ms 300 (Some ''Qdrant/Splade_PP_en_v1'') (Some [Some ''a'', Some ''b c'']) 2 (Some tuning_zero)
      sample_sparse_disk = (Some (OK, Some t, dk')) \<and> tn_throughput t = 200 \<and> tn_threads t = 4"
proof -
  let ?create = "lembed_sparse_text_embedding_create sample_load_env (Some (probe_base 0 8)) True sample_sparse_disk
    :: (nat, real) sparse_created option \<times> disk"
  have "case fst ?create of Some r \<Rightarrow>
      (case sc_ctx r of Some c \<Rightarrow> sc_status r = OK \<and> sx_gguf c = None \<and> 0 < max_length (sx_tok c) | None \<Rightarrow> False)
    | None \<Rightarrow> False" by code_simp
  then obtain r dk' c where r: "?create = (Some r, dk')" "sc_status r = OK" "sc_ctx r = Some c" "sx_gguf c = None"
    "0 < max_length (sx_tok c)" by (auto split: option.splits simp: prod_eq_iff)
  have idx: "lembed_find_sparse_model_by_code (Some ''Qdrant/Splade_PP_en_v1'') = 0" by code_simp
  have no_file: "\<not> file_exists sample_sparse_disk ''Qdrant/Splade_PP_en_v1''" by code_simp
  have ready: "\<forall>k::nat. sparse_ready (sample_sparse_env sample_logits True) c 1 (map (\<lambda>i. [of_int i]))"
    using sample_sparse_ready [OF r(4,5)] by simp
  let ?ts = "[''a'', ''b c'']"
  have "\<exists>j < 12. lembed_sparse_best_config sample_load_env Map.empty sample_env 8 (\<lambda>_. sample_sparse_env sample_logits True) (\<lambda>_. 1)
      sample_ms 300 (Some ''Qdrant/Splade_PP_en_v1'') (Some (map Some ?ts)) (int (length ?ts)) (Some tuning_zero) sample_sparse_disk =
     Some (OK, Some \<lparr>tn_top_k = fst (sparse_grid ! j :: int \<times> real), tn_min_weight = snd (sparse_grid ! j), tn_format = 0,
      tn_threads = so_num_threads (probe_base 0 8 :: real sparse_options), tn_batch_size = 32,
      tn_throughput = throughput (length ?ts) (sample_ms j), tn_latency = 300 / of_nat (length ?ts), tn_memory = 0\<rparr>, dk') \<and>
    (\<forall>i < 12. throughput (length ?ts) (sample_ms i) \<le> throughput (length ?ts) (sample_ms j))"
    by (rule best_config_best [OF no_file idx _ r(1-3) ready, where i = 4]) (simp_all add: INT_MAX_def sample_ms_def)
  then obtain j where j: "j < 12"
    "lembed_sparse_best_config sample_load_env Map.empty sample_env 8 (\<lambda>_. sample_sparse_env sample_logits True) (\<lambda>_. 1)
      sample_ms 300 (Some ''Qdrant/Splade_PP_en_v1'') (Some (map Some ?ts)) (int (length ?ts)) (Some tuning_zero) sample_sparse_disk =
     Some (OK, Some \<lparr>tn_top_k = fst (sparse_grid ! j :: int \<times> real), tn_min_weight = snd (sparse_grid ! j), tn_format = 0,
      tn_threads = so_num_threads (probe_base 0 8 :: real sparse_options), tn_batch_size = 32,
      tn_throughput = throughput (length ?ts) (sample_ms j), tn_latency = 300 / of_nat (length ?ts), tn_memory = 0\<rparr>, dk')"
    "\<forall>i < 12. throughput (length ?ts) (sample_ms i) \<le> throughput (length ?ts) (sample_ms j)" by blast
  have "throughput (length ?ts) (sample_ms 4) \<le> throughput (length ?ts) (sample_ms j)" using j(3) by simp
  then have "j = 4" by (simp add: throughput_def sample_ms_def split: if_splits)
  then have "throughput (length ?ts) (sample_ms j) = 200" by (simp add: throughput_def sample_ms_def)
  moreover have "so_num_threads (probe_base 0 8 :: real sparse_options) = 4" by (simp add: probe_base_def Let_def)
  ultimately show ?thesis using j(2) by simp
qed

text \<open>A context the ONNX creation hands out runs the session of the registry's file with a tokenizer cut at
  the context's maximum length; a creation that fails on loading hands out nothing and has lost the
  context it had allocated.\<close>

theorem sparse_create_outcomes:
  fixes env :: "('m, 'f::zero, 'd) load_env" and r :: "('t, 'f) sparse_created"
  assumes "lembed_sparse_text_embedding_create env (Some opts) True dk = (Some r, dk')"
  shows "(\<exists>c info dir n. sc_status r = OK \<and> sc_ctx r = Some c \<and> sc_lost r = 0 \<and>
      lembed_get_sparse_model_info (so_model opts) True = (OK, Some info) \<and>
      onnx_load_from_file (le_fails env) (le_io env) (dir @ ''/'' @ model_file info) (so_num_threads opts) (so_provider opts) 0
        onnx_session_new = (Inr (), sx_sess c, n) \<and> max_length (sx_tok c) = sx_max_length c \<and> sx_gguf c = None \<and>
      d_max_length (sx_desc c) = sx_max_length c \<and> sparse_filter None c = (so_top_k opts, so_min_weight opts, so_format opts)) \<or>
    (sc_ctx r = None \<and> (sc_status r = ONNX_RUNTIME \<and> sc_lost r = 1 \<or> sc_status r \<in> {INVALID_ARGUMENT, DOWNLOAD} \<and> sc_lost r = 0))"
proof (cases "so_model opts < 0 \<or> so_model opts \<ge> SPARSE_MODEL_COUNT")
  case True
  with assms show ?thesis
    by (auto simp: lembed_sparse_text_embedding_create_def lembed_get_sparse_model_info_def table_info_def sx_refused_def)
next
  case False
  define info where "info = sparse_models ! nat (so_model opts)"
  have info: "lembed_get_sparse_model_info (so_model opts) True = (OK, Some info)"
    using False by (simp add: lembed_get_sparse_model_info_def table_info_def info_def)
  obtain s1 d err dk1 where ensure: "lembed_ensure_sparse_model (le_sys env) (so_model opts) (so_cache_dir opts)
      (so_offline opts) True dk = ((s1, d, err), dk1)" by (rule answer_cases)
  then have "s1 = OK \<or> s1 = DOWNLOAD"
    by (auto simp: lembed_ensure_sparse_model_def lembed_ensure_model_def split: prod.splits sum.splits)
  then show ?thesis
  proof
    assume "s1 = DOWNLOAD"
    with assms info ensure show ?thesis by (auto simp: lembed_sparse_text_embedding_create_def)
  next
    assume s1: "s1 = OK"
    then obtain dir where d: "d = Some dir"
      using assms info ensure by (cases d) (simp_all add: lembed_sparse_text_embedding_create_def)
    define c :: "('t, 'f) sparse_ctx" where "c = sparse_context opts (so_model opts) (model_name info)
      (positive_or (so_max_length opts) (max_tokens info)) (so_provider opts)"
    let ?tok = "load_from_file (le_parse env) (map_of (dk_files dk1)) (dir @ ''/tokenizer.json'') (sx_max_length c) (sx_tok c)"
    obtain res s n where session: "onnx_load_from_file (le_fails env) (le_io env) (dir @ ''/'' @ model_file info)
        (so_num_threads opts) (so_provider opts) 0 (sx_sess c) = (res, s, n)" by (rule prod_cases3)
    have load: "sx_load ONNX_RUNTIME opts (res, s, n) ?tok c = Some r"
      using assms info ensure s1 d session by (auto simp: lembed_sparse_text_embedding_create_def Let_def c_def)
    have new: "sx_sess c = onnx_session_new" "sx_gguf c = None" "sx_tok c = tokenizer_new" by (simp_all add: c_def sparse_context_def sparse_ctx_new_def)
    show ?thesis
    proof (cases res)
      case (Inl msg)
      with load show ?thesis by (auto simp: sx_load_def sx_refused_def)
    next
      case (Inr u)
      show ?thesis
      proof (cases ?tok)
        case (Inl e)
        with load Inr show ?thesis by (auto simp: sx_load_def sx_refused_def split: embed_fail.splits)
      next
        case tok: (Inr t)
        have "max_length t = sx_max_length c"
          using tok load_blob_typed new(3) by (auto simp: load_from_file_def split: option.splits)
        moreover have "r = sx_granted (sx_finish opts (c\<lparr>sx_sess := s, sx_tok := t\<rparr>))"
          using load Inr tok by (simp add: sx_load_def)
        moreover have "onnx_load_from_file (le_fails env) (le_io env) (dir @ ''/'' @ model_file info)
            (so_num_threads opts) (so_provider opts) 0 onnx_session_new = (Inr (), s, n)" using session Inr new by simp
        ultimately show ?thesis using info new(2)
          by (intro disjI1 exI [of _ "sx_finish opts (c\<lparr>sx_sess := s, sx_tok := t\<rparr>)"] exI [of _ info] exI [of _ dir] exI [of _ n])
            (simp add: sx_granted_def sx_finish_def sparse_filter_def)
      qed
    qed
  qed
qed

theorem sparse_create_outcomes_witness:
  "\<exists>r dk'. (lembed_sparse_text_embedding_create (sample_load_env\<lparr>le_parse := \<lambda>_. None\<rparr>) (Some lembed_sparse_options_default) True
      \<lparr>dk_files = [], dk_dirs = []\<rparr> :: (nat, real) sparse_created option \<times> disk) = (Some r, dk') \<and> sc_ctx r = None \<and> sc_lost r = 1"
proof -
  let ?create = "lembed_sparse_text_embedding_create (sample_load_env\<lparr>le_parse := \<lambda>_. None\<rparr>) (Some lembed_sparse_options_default)
    True \<lparr>dk_files = [], dk_dirs = []\<rparr> :: (nat, real) sparse_created option \<times> disk"
  have "case fst ?create of Some r \<Rightarrow> sc_status r = ONNX_RUNTIME | None \<Rightarrow> False" by code_simp
  then obtain r dk' where r: "?create = (Some r, dk')" "sc_status r = ONNX_RUNTIME"
    by (auto split: option.splits simp: prod_eq_iff)
  from sparse_create_outcomes [OF r(1)] r(2) have "sc_ctx r = None \<and> sc_lost r = 1" by auto
  with r(1) show ?thesis by blast
qed

text \<open>A path is given to the GGUF loader exactly when its last five characters, in lower case, are .gguf.\<close>

theorem ends_with_gguf_correct:
  "ends_with_gguf path \<longleftrightarrow> 5 \<le> length path \<and> map lower_byte (drop (length path - 5) path) = ''.gguf''"
proof (cases "5 \<le> length path")
  case True
  then have "length (drop (length path - 5) path) = Suc (Suc (Suc (Suc (Suc 0))))" by simp
  then obtain a b c d e where s: "drop (length path - 5) path = [a, b, c, d, e]"
    by (auto simp only: length_Suc_conv length_0_conv)
  have eq: "y = z \<longleftrightarrow> byte y = byte z" for y z by simp
  have low_byte: "byte (lower_byte x) = (if 65 \<le> byte x \<and> byte x \<le> 90 then byte x + 32 else byte x)" for x
    by (auto simp: lower_byte_def byte_chr)
  have codes: "byte (CHR ''g'') = 103" "byte (CHR ''G'') = 71" "byte (CHR ''u'') = 117" "byte (CHR ''U'') = 85"
    "byte (CHR ''f'') = 102" "byte (CHR ''F'') = 70" "byte (CHR ''.'') = 46" by (simp_all add: byte_def)
  have low: "(lower_byte x = CHR ''g'') = (x \<in> {CHR ''g'', CHR ''G''})" "(lower_byte x = CHR ''u'') = (x \<in> {CHR ''u'', CHR ''U''})"
    "(lower_byte x = CHR ''f'') = (x \<in> {CHR ''f'', CHR ''F''})" "(lower_byte x = CHR ''.'') = (x = CHR ''.'')" for x
    unfolding insert_iff empty_iff eq [of "lower_byte x"] eq [of x] low_byte codes by auto
  show ?thesis using True unfolding ends_with_gguf_def s Let_def by (simp add: low)
qed (simp add: ends_with_gguf_def)

end
