(* ===== verification/ImagePreprocess.thy ===== *)
theory ImagePreprocess
  imports TextBackends
begin

text \<open>
  Preparing an image for a vision model (\<open>detail/image_preprocess.hpp\<close>): decoding, resizing the shorter
  side, the centred crop, the normalisation and the reordering of the pixels by channel. stb_image and
  stb_image_resize2 are arguments, as is the rounding of a real number to \<open>float\<close>; the pixels are
  computed without rounding. An access outside a buffer, an \<open>int\<close> overflow or a division by zero is
  \<open>Undef\<close>, an exception \<open>Threw\<close>.
\<close>

section \<open>The environment\<close>

text \<open>A decoded image: width, height and three bytes per pixel, row by row.\<close>

type_synonym image = "int \<times> int \<times> nat list"

record 'f image_env =
  ig_fails :: ort_faults
  ig_infer :: "string \<times> 'f list \<times> int list \<Rightarrow> string list \<Rightarrow> string + 'f tensor_result list"
  ig_sqrt :: "'f \<Rightarrow> 'f"
  ig_norm_eps :: 'f
  ig_decode_file :: "string \<Rightarrow> image option"
  ig_decode :: "string option \<Rightarrow> int \<Rightarrow> image option"
  ig_resize :: "image \<Rightarrow> int \<Rightarrow> int \<Rightarrow> nat list"
  ig_round :: "'f \<Rightarrow> 'f"

definition IMAGE_NET_MEAN :: "nat \<Rightarrow> 'f::linordered_field" where
  "IMAGE_NET_MEAN ch = [485 / 1000, 456 / 1000, 406 / 1000] ! ch"

definition IMAGE_NET_STD :: "nat \<Rightarrow> 'f::linordered_field" where
  "IMAGE_NET_STD ch = [229 / 1000, 224 / 1000, 225 / 1000] ! ch"

section \<open>Geometry\<close>

text \<open>\<open>(int)((float)a / b * target_size)\<close>, every operation rounded to \<open>float\<close>.\<close>

definition scaled :: "('f \<Rightarrow> 'f) \<Rightarrow> int \<Rightarrow> int \<Rightarrow> int \<Rightarrow> 'f::{linordered_field,floor_ceiling} itself \<Rightarrow> int option" where
  "scaled rnd a b ts ty =
     (if b = 0 then None
      else let x = rnd (rnd (rnd (of_int a) / rnd (of_int b)) * rnd (of_int ts))
           in c_int (if x \<ge> 0 then \<lfloor>x\<rfloor> else \<lceil>x\<rceil>))"

text \<open>The size after resizing the shorter side to \<open>target_size\<close>.\<close>

definition resized_size :: "('f::{linordered_field,floor_ceiling} \<Rightarrow> 'f) \<Rightarrow> int \<Rightarrow> int \<Rightarrow> int \<Rightarrow> (int \<times> int) option" where
  "resized_size rnd ts w h =
     (if w < h then map_option (\<lambda>nh. (ts, nh)) (scaled rnd h w ts TYPE('f))
      else map_option (\<lambda>nw. (nw, ts)) (scaled rnd w h ts TYPE('f)))"

definition crop_start :: "int \<Rightarrow> int \<Rightarrow> int" where
  "crop_start n ts = trunc_div (n - ts) 2"

section \<open>Pixels by channel\<close>

definition normalized :: "nat \<Rightarrow> nat \<Rightarrow> 'f::linordered_field" where
  "normalized ch v = (of_nat v / 255 - IMAGE_NET_MEAN ch) / IMAGE_NET_STD ch"

text \<open>The loop over the pixels: reads three bytes of the source, writes one entry in each plane.\<close>

fun chw_loop ::
    "nat list \<Rightarrow> int \<Rightarrow> int \<Rightarrow> int \<Rightarrow> nat \<Rightarrow> nat \<Rightarrow> (nat \<times> nat) list \<Rightarrow> 'f::linordered_field list \<Rightarrow> 'f list option" where
  "chw_loop rgb src_w crop_x crop_y ts off [] out = Some out"
| "chw_loop rgb src_w crop_x crop_y ts off ((y, x) # ps) out =
     (let src = ((crop_y + int y) * src_w + crop_x) * 3 + int x * 3;
          dst = off + y * ts + x; stride = ts * ts
      in if src < 0 \<or> src + 2 \<ge> int (length rgb) \<or> dst + 2 * stride \<ge> length out then None
         else chw_loop rgb src_w crop_x crop_y ts off ps
           (out[dst := normalized 0 (rgb ! nat src), dst + stride := normalized 1 (rgb ! nat (src + 1)),
                dst + 2 * stride := normalized 2 (rgb ! nat (src + 2))]))"

definition rgb_to_chw_float ::
    "nat list \<Rightarrow> int \<Rightarrow> int \<Rightarrow> int \<Rightarrow> nat \<Rightarrow> nat \<Rightarrow> 'f::linordered_field list \<Rightarrow> 'f list option" where
  "rgb_to_chw_float rgb src_w crop_x crop_y ts off out =
     chw_loop rgb src_w crop_x crop_y ts off (concat (map (\<lambda>y. map (Pair y) [0..<ts]) [0..<ts])) out"

section \<open>A decoded image into a buffer\<close>

definition preprocess ::
    "'f::{linordered_field,floor_ceiling} image_env \<Rightarrow> nat \<Rightarrow> image \<Rightarrow> nat \<Rightarrow> 'f list \<Rightarrow> embed_fail + 'f list" where
  "preprocess env ts img off out =
     (case img of (w, h, px) \<Rightarrow>
        case resized_size (ig_round env) (int ts) w h of
          None \<Rightarrow> Inl Undef
        | Some (new_w, new_h) \<Rightarrow>
            if c_int (new_w * new_h) = None \<or> c_int (new_w * new_h * 3) = None then Inl Undef
            else (case rgb_to_chw_float (ig_resize env img new_w new_h) new_w (crop_start new_w (int ts))
                         (crop_start new_h (int ts)) ts off out of
                    None \<Rightarrow> Inl Undef | Some out1 \<Rightarrow> Inr out1))"

definition file_image :: "'f image_env \<Rightarrow> string option \<Rightarrow> embed_fail + image" where
  "file_image env path =
     (case path of
        None \<Rightarrow> Inl Undef
      | Some p \<Rightarrow> (case ig_decode_file env p of None \<Rightarrow> Inl (Threw (''Failed to load image: '' @ p)) | Some img \<Rightarrow> Inr img))"

definition bytes_image :: "'f image_env \<Rightarrow> string option \<times> int \<Rightarrow> embed_fail + image" where
  "bytes_image env src =
     (case ig_decode env (fst src) (snd src) of
        None \<Rightarrow> Inl (Threw ''Failed to decode image from memory'') | Some img \<Rightarrow> Inr img)"

definition preprocess_image_to_buffer ::
    "'f::{linordered_field,floor_ceiling} image_env \<Rightarrow> string option \<Rightarrow> nat \<Rightarrow> nat \<Rightarrow> 'f list \<Rightarrow> embed_fail + 'f list" where
  "preprocess_image_to_buffer env path off ts out = bind_sum (file_image env path) (\<lambda>img. preprocess env ts img off out)"

definition preprocess_image_bytes_to_buffer ::
    "'f::{linordered_field,floor_ceiling} image_env \<Rightarrow> string option \<times> int \<Rightarrow> nat \<Rightarrow> nat \<Rightarrow> 'f list \<Rightarrow> embed_fail + 'f list" where
  "preprocess_image_bytes_to_buffer env src off ts out = bind_sum (bytes_image env src) (\<lambda>img. preprocess env ts img off out)"

text \<open>The same into a fresh tensor of three planes.\<close>

record 'f image_tensor =
  it_data :: "'f list"
  it_channels :: int
  it_height :: int
  it_width :: int

definition fresh_tensor :: "nat \<Rightarrow> (embed_fail + 'f list) \<Rightarrow> embed_fail + 'f image_tensor" where
  "fresh_tensor ts filled =
     bind_sum filled (\<lambda>d. Inr \<lparr>it_data = d, it_channels = 3, it_height = int ts, it_width = int ts\<rparr>)"

definition load_and_preprocess_image ::
    "'f::{linordered_field,floor_ceiling} image_env \<Rightarrow> string option \<Rightarrow> nat \<Rightarrow> embed_fail + 'f image_tensor" where
  "load_and_preprocess_image env path ts =
     fresh_tensor ts (bind_sum (file_image env path) (\<lambda>img. preprocess env ts img 0 (replicate (3 * ts * ts) 0)))"

definition load_and_preprocess_image_bytes ::
    "'f::{linordered_field,floor_ceiling} image_env \<Rightarrow> string option \<times> int \<Rightarrow> nat \<Rightarrow> embed_fail + 'f image_tensor" where
  "load_and_preprocess_image_bytes env src ts =
     fresh_tensor ts (bind_sum (bytes_image env src) (\<lambda>img. preprocess env ts img 0 (replicate (3 * ts * ts) 0)))"

section \<open>What a prepared image is\<close>

text \<open>
  Rounding to \<open>float\<close>: monotone, and exact on 1 and on the target size. An image is usable when it is not
  empty, its resized size does not overflow and the resizer fills the buffer.
\<close>

definition float_rounding :: "('f::linordered_field \<Rightarrow> 'f) \<Rightarrow> nat \<Rightarrow> bool" where
  "float_rounding rnd ts \<longleftrightarrow> mono rnd \<and> rnd 1 = 1 \<and> rnd (of_nat ts) = of_nat ts"

definition usable_image :: "'f::{linordered_field,floor_ceiling} image_env \<Rightarrow> nat \<Rightarrow> image \<Rightarrow> bool" where
  "usable_image env ts img \<longleftrightarrow>
     (case img of (w, h, px) \<Rightarrow> 0 < w \<and> 0 < h \<and>
        (case resized_size (ig_round env) (int ts) w h of
           None \<Rightarrow> False
         | Some (new_w, new_h) \<Rightarrow> new_w * new_h * 3 \<le> INT_MAX \<and>
             length (ig_resize env img new_w new_h) = nat (new_w * new_h * 3)))"

text \<open>The entry of channel \<open>ch\<close>, row \<open>y\<close> and column \<open>x\<close>: the pixel of the centred window, normalised.\<close>

definition window_pixel :: "'f::{linordered_field,floor_ceiling} image_env \<Rightarrow> nat \<Rightarrow> image \<Rightarrow> nat \<Rightarrow> nat \<Rightarrow> nat \<Rightarrow> 'f" where
  "window_pixel env ts img ch y x =
     (case img of (w, h, px) \<Rightarrow>
        (case the (resized_size (ig_round env) (int ts) w h) of (new_w, new_h) \<Rightarrow>
           normalized ch (ig_resize env img new_w new_h !
             nat (((crop_start new_h (int ts) + int y) * new_w + crop_start new_w (int ts) + int x) * 3 + int ch))))"

definition image_planes :: "'f::{linordered_field,floor_ceiling} image_env \<Rightarrow> nat \<Rightarrow> image \<Rightarrow> 'f list" where
  "image_planes env ts img =
     map (\<lambda>r. window_pixel env ts img (r div (ts * ts)) (r mod (ts * ts) div ts) (r mod ts)) [0..<3 * ts * ts]"

section \<open>Facts\<close>

lemma scaled_ge:
  fixes rnd :: "'f::{linordered_field,floor_ceiling} \<Rightarrow> 'f"
  assumes "float_rounding rnd ts" and "0 < b" and "b \<le> a" and "scaled rnd a b (int ts) TYPE('f) = Some n"
  shows "int ts \<le> n"
proof -
  have mono: "rnd x \<le> rnd y" if "x \<le> y" for x y using assms(1) that by (auto simp: float_rounding_def mono_def)
  have one: "rnd 1 = 1" and ts: "rnd (of_nat ts) = of_nat ts" using assms(1) by (simp_all add: float_rounding_def)
  have "1 \<le> rnd (of_int b)" using mono [of 1 "of_int b"] one assms(2) by simp
  moreover have "rnd (of_int b) \<le> rnd (of_int a)" using assms(3) by (intro mono) simp
  ultimately have "1 \<le> rnd (of_int a) / rnd (of_int b)" by simp
  then have "1 \<le> rnd (rnd (of_int a) / rnd (of_int b))" using mono [of 1] one by simp
  then have "of_nat ts \<le> rnd (rnd (of_int a) / rnd (of_int b)) * rnd (of_nat ts)"
    using mult_right_mono [of 1 _ "of_nat ts :: 'f"] ts by simp
  then have x: "of_nat ts \<le> rnd (rnd (rnd (of_int a) / rnd (of_int b)) * rnd (of_nat ts))"
    using mono [of "of_nat ts"] ts by simp
  moreover have "(0::'f) \<le> of_nat ts" by simp
  ultimately have "0 \<le> rnd (rnd (rnd (of_int a) / rnd (of_int b)) * rnd (of_nat ts))" by linarith
  moreover from x have "int ts \<le> \<lfloor>rnd (rnd (rnd (of_int a) / rnd (of_int b)) * rnd (of_nat ts))\<rfloor>" by (simp add: le_floor_iff)
  ultimately show ?thesis using assms(2,4) by (simp add: scaled_def Let_def)
qed

text \<open>The window lies inside the resized image.\<close>

lemma resized_window:
  fixes env :: "'f::{linordered_field,floor_ceiling} image_env"
  assumes "float_rounding (ig_round env) ts" and "0 < w" and "0 < h"
    and "resized_size (ig_round env) (int ts) w h = Some (new_w, new_h)"
  shows "0 \<le> crop_start new_w (int ts) \<and> crop_start new_w (int ts) + int ts \<le> new_w \<and>
    0 \<le> crop_start new_h (int ts) \<and> crop_start new_h (int ts) + int ts \<le> new_h"
proof -
  have "int ts \<le> new_w \<and> int ts \<le> new_h"
    using assms(2-4) scaled_ge [OF assms(1), of w h] scaled_ge [OF assms(1), of h w]
    by (auto simp: resized_size_def split: if_splits)
  then show ?thesis by (auto simp: crop_start_def trunc_div_nonneg)
qed

lemma three_updates:
  fixes d s :: nat
  assumes "d + 2 * s < length xs" and "0 < s"
  shows "xs[d := a, d + s := b, d + 2 * s := c] ! k = (if k = d then a else if k = d + s then b else if k = d + 2 * s then c else xs ! k)"
  using assms by (auto simp: nth_list_update)

lemma quot_rest: "q < s \<Longrightarrow> (c * s + q) div s = (c::nat)" "q < s \<Longrightarrow> (c * s + q) mod s = (q::nat)"
  by simp_all

lemma pixel_index:
  fixes r :: nat
  assumes "y < ts" and "x < ts"
  shows "r = c * (ts * ts) + y * ts + x \<longleftrightarrow> r div (ts * ts) = c \<and> r mod (ts * ts) div ts = y \<and> r mod ts = x"
proof
  have "Suc y * ts \<le> ts * ts" using assms(1) by (intro mult_le_mono1) simp
  then have small: "y * ts + x < ts * ts" using assms(2) by simp
  assume r: "r = c * (ts * ts) + y * ts + x"
  have "(c * (ts * ts) + (y * ts + x)) div (ts * ts) = c" "(c * (ts * ts) + (y * ts + x)) mod (ts * ts) = y * ts + x"
    using small by (rule quot_rest)+
  moreover have "(y * ts + x) div ts = y" "(y * ts + x) mod ts = x" using assms(2) by simp_all
  moreover have "r mod ts = r mod (ts * ts) mod ts" by (simp add: mod_mod_cancel)
  ultimately show "r div (ts * ts) = c \<and> r mod (ts * ts) div ts = y \<and> r mod ts = x"
    unfolding r by (simp add: add.assoc)
next
  assume r: "r div (ts * ts) = c \<and> r mod (ts * ts) div ts = y \<and> r mod ts = x"
  have "r = r div (ts * ts) * (ts * ts) + r mod (ts * ts)" by (rule div_mult_mod_eq [symmetric])
  moreover have "r mod (ts * ts) = r mod (ts * ts) div ts * ts + r mod (ts * ts) mod ts" by (rule div_mult_mod_eq [symmetric])
  moreover have "r mod (ts * ts) mod ts = r mod ts" by (simp add: mod_mod_cancel)
  ultimately show "r = c * (ts * ts) + y * ts + x" using r by simp
qed

text \<open>The entry the loop leaves at position \<open>r\<close> of the tensor.\<close>

definition window_entry :: "nat list \<Rightarrow> int \<Rightarrow> int \<Rightarrow> int \<Rightarrow> nat \<Rightarrow> nat \<Rightarrow> 'f::linordered_field" where
  "window_entry rgb sw cx cy ts r =
     normalized (r div (ts * ts)) (rgb ! nat (((cy + int (r mod (ts * ts) div ts)) * sw + cx + int (r mod ts)) * 3 +
       int (r div (ts * ts))))"

lemma chw_loop_ok:
  assumes "\<forall>(y, x) \<in> set ps. y < ts \<and> x < ts" and "off + 3 * (ts * ts) \<le> length out"
    and "\<forall>(y, x) \<in> set ps. 0 \<le> ((cy + int y) * sw + cx) * 3 + int x * 3 \<and>
      ((cy + int y) * sw + cx) * 3 + int x * 3 + 2 < int (length rgb)"
  shows "\<exists>out'. chw_loop rgb sw cx cy ts off ps out = Some out' \<and> length out' = length out \<and>
    (\<forall>k < length out. out' ! k =
       (if off \<le> k \<and> k < off + 3 * (ts * ts) \<and> ((k - off) mod (ts * ts) div ts, (k - off) mod ts) \<in> set ps
        then window_entry rgb sw cx cy ts (k - off) else out ! k))"
  using assms
proof (induction ps arbitrary: out)
  case (Cons p ps)
  obtain y x where p: "p = (y, x)" by fastforce
  let ?S = "ts * ts" and ?src = "((cy + int y) * sw + cx) * 3 + int x * 3" and ?dst = "off + y * ts + x"
  have yx: "y < ts" "x < ts" and src: "0 \<le> ?src" "?src + 2 < int (length rgb)" using Cons.prems(1,3) p by auto
  have "Suc y * ts \<le> ts * ts" using yx(1) by (intro mult_le_mono1) simp
  then have small: "y * ts + x < ?S" using yx(2) by simp
  define out1 where "out1 = out[?dst := normalized 0 (rgb ! nat ?src), ?dst + ?S := normalized 1 (rgb ! nat (?src + 1)),
    ?dst + 2 * ?S := normalized 2 (rgb ! nat (?src + 2))]"
  have S: "0 < ?S" using small by linarith
  have bound: "?dst + 2 * ?S < length out" using small Cons.prems(2) by simp
  note upd = three_updates [OF bound S, of "normalized 0 (rgb ! nat ?src)" "normalized 1 (rgb ! nat (?src + 1))"
    "normalized 2 (rgb ! nat (?src + 2))", folded out1_def]
  have entry: "window_entry rgb sw cx cy ts (c * ?S + y * ts + x) = normalized c (rgb ! nat (?src + int c))" for c
    using pixel_index [OF yx, of "c * ?S + y * ts + x" c] by (simp add: window_entry_def algebra_simps)
  have at: "out1 ! k = (if off \<le> k \<and> k < off + 3 * ?S \<and> ((k - off) mod ?S div ts, (k - off) mod ts) = (y, x)
      then window_entry rgb sw cx cy ts (k - off) else out ! k)" if k: "k < length out" for k
  proof (cases "off \<le> k \<and> k < off + 3 * ?S \<and> ((k - off) mod ?S div ts, (k - off) mod ts) = (y, x)")
    case True
    let ?c = "(k - off) div ?S"
    have r: "k - off = ?c * ?S + y * ts + x" using pixel_index [OF yx, of "k - off" ?c] True by simp
    from trans [OF arg_cong [OF r, of "window_entry rgb sw cx cy ts"] entry [of ?c]]
    have e: "window_entry rgb sw cx cy ts (k - off) = normalized ?c (rgb ! nat (?src + int ?c))" .
    have "k - off < 3 * ?S" using True by linarith
    then have "?c < 3" by (rule less_mult_imp_div_less)
    then consider "?c = 0" | "?c = 1" | "?c = 2" by linarith
    then show ?thesis
    proof cases
      case 1
      with r have "k - off = y * ts + x" by simp
      with True have "k = ?dst" by linarith
      then have "out1 ! k = normalized 0 (rgb ! nat ?src)" by (simp add: upd)
      also have "\<dots> = window_entry rgb sw cx cy ts (k - off)" using e [symmetric] unfolding 1 by simp
      finally show ?thesis unfolding if_P [OF True] .
    next
      case 2
      with r have "k - off = ?S + (y * ts + x)" by simp
      with True have "k = ?dst + ?S" by linarith
      then have "out1 ! k = normalized 1 (rgb ! nat (?src + 1))" using S by (simp add: upd)
      also have "\<dots> = window_entry rgb sw cx cy ts (k - off)" using e [symmetric] unfolding 2 by simp
      finally show ?thesis unfolding if_P [OF True] .
    next
      case 3
      with r have "k - off = 2 * ?S + (y * ts + x)" by simp
      with True have "k = ?dst + 2 * ?S" by linarith
      then have "out1 ! k = normalized 2 (rgb ! nat (?src + 2))" using S by (simp add: upd)
      also have "\<dots> = window_entry rgb sw cx cy ts (k - off)" using e [symmetric] unfolding 3 by simp
      finally show ?thesis unfolding if_P [OF True] .
    qed
  next
    case False
    have "k \<noteq> ?dst + c * ?S" if "c < 3" for c
    proof
      assume kk: "k = ?dst + c * ?S"
      then have r: "k - off = c * ?S + y * ts + x" by simp
      have "Suc c * ?S \<le> 3 * ?S" using that by (intro mult_le_mono1) simp
      then have "c * ?S + ?S \<le> 3 * ?S" by (simp only: mult_Suc add.commute)
      then have "off \<le> k" "k < off + 3 * ?S" using kk small by linarith+
      with False pixel_index [OF yx, of "k - off" c] r show False by simp
    qed
    from this [of 0] this [of 1] this [of 2] False show ?thesis by (auto simp: upd)
  qed
  have step: "chw_loop rgb sw cx cy ts off (p # ps) out = chw_loop rgb sw cx cy ts off ps out1"
    using src bound by (simp add: p Let_def out1_def)
  have len: "length out1 = length out" by (simp add: out1_def)
  from Cons.IH [of out1] Cons.prems len obtain out' where out': "chw_loop rgb sw cx cy ts off ps out1 = Some out'"
    "length out' = length out"
    "\<forall>k < length out. out' ! k =
       (if off \<le> k \<and> k < off + 3 * ?S \<and> ((k - off) mod ?S div ts, (k - off) mod ts) \<in> set ps
        then window_entry rgb sw cx cy ts (k - off) else out1 ! k)" by auto
  have "\<forall>k < length out. out' ! k =
       (if off \<le> k \<and> k < off + 3 * ?S \<and> ((k - off) mod ?S div ts, (k - off) mod ts) \<in> set (p # ps)
        then window_entry rgb sw cx cy ts (k - off) else out ! k)"
    using out'(3) at by (auto simp: p)
  with out' step show ?case by simp
qed simp

lemma set_pixels: "set (concat (map (\<lambda>y. map (Pair y) [0..<ts]) [0..<ts])) = {(y, x). y < ts \<and> x < (ts::nat)}"
  by auto

lemma length_image_planes [simp]: "length (image_planes env ts img) = 3 * ts * ts"
  by (simp add: image_planes_def)

lemma row_bytes:
  fixes a b w c x :: int
  assumes "0 \<le> a" and "a \<le> b - w" and "0 \<le> c" and "0 \<le> x" and "c + x + 1 \<le> w"
  shows "0 \<le> (a + c) * 3 + x * 3 \<and> (a + c) * 3 + x * 3 + 2 < b * 3"
  using assms by presburger

text \<open>Any usable image is written over its part of the buffer, and nothing else is.\<close>

lemma preprocess_ok:
  fixes env :: "'f::{linordered_field,floor_ceiling} image_env"
  assumes rnd: "float_rounding (ig_round env) ts" and img: "usable_image env ts img" and room: "off + 3 * ts * ts \<le> length out"
  shows "preprocess env ts img off out = Inr (take off out @ image_planes env ts img @ drop (off + 3 * ts * ts) out)"
proof -
  obtain w h px where i: "img = (w, h, px)" by (rule prod_cases3)
  obtain nw nh where size: "resized_size (ig_round env) (int ts) w h = Some (nw, nh)"
    and wh: "0 < w" "0 < h" and fits: "nw * nh * 3 \<le> INT_MAX" and len: "length (ig_resize env img nw nh) = nat (nw * nh * 3)"
    using img by (auto simp: usable_image_def i split: option.splits)
  let ?cx = "crop_start nw (int ts)" and ?cy = "crop_start nh (int ts)" and ?rgb = "ig_resize env img nw nh"
  note win = resized_window [OF rnd wh size]
  have pos: "0 \<le> nw" "0 \<le> nh" using win by linarith+
  have src: "0 \<le> ((?cy + int y) * nw + ?cx) * 3 + int x * 3 \<and> ((?cy + int y) * nw + ?cx) * 3 + int x * 3 + 2 < int (length ?rgb)"
    if "y < ts" "x < ts" for y x
  proof -
    have "?cy + int y \<le> nh - 1" "0 \<le> ?cy + int y" using win that by linarith+
    then have "(?cy + int y) * nw \<le> (nh - 1) * nw" "0 \<le> (?cy + int y) * nw" using pos by (simp_all add: mult_right_mono)
    moreover have "(nh - 1) * nw = nw * nh - nw" by (simp add: algebra_simps)
    moreover have "int (length ?rgb) = nw * nh * 3" using len pos by simp
    moreover have "0 \<le> ?cx" "?cx + int x + 1 \<le> nw" using win that by linarith+
    ultimately show ?thesis using row_bytes [of "(?cy + int y) * nw" "nw * nh" nw ?cx "int x"] by simp
  qed
  have room': "off + 3 * (ts * ts) \<le> length out" using room by (simp add: mult.assoc)
  from chw_loop_ok [of "concat (map (\<lambda>y. map (Pair y) [0..<ts]) [0..<ts])" ts off out ?cy nw ?cx ?rgb, unfolded set_pixels, OF _ room']
    src obtain out' where loop: "chw_loop ?rgb nw ?cx ?cy ts off (concat (map (\<lambda>y. map (Pair y) [0..<ts]) [0..<ts])) out = Some out'"
    and lo: "length out' = length out" and at: "\<forall>k < length out. out' ! k =
       (if off \<le> k \<and> k < off + 3 * (ts * ts) \<and> (k - off) mod (ts * ts) div ts < ts \<and> (k - off) mod ts < ts
        then window_entry ?rgb nw ?cx ?cy ts (k - off) else out ! k)" by auto
  have "out' = take off out @ image_planes env ts img @ drop (off + 3 * ts * ts) out"
  proof (rule nth_equalityI)
    show "length out' = length (take off out @ image_planes env ts img @ drop (off + 3 * ts * ts) out)" using lo room by simp
    fix k assume "k < length out'"
    then have k: "k < length out" using lo by simp
    show "out' ! k = (take off out @ image_planes env ts img @ drop (off + 3 * ts * ts) out) ! k"
    proof (cases "off \<le> k \<and> k < off + 3 * (ts * ts)")
      case True
      then have "0 < ts" by (cases ts) auto
      moreover from this have "(k - off) mod (ts * ts) div ts < ts"
        by (intro less_mult_imp_div_less) simp
      ultimately have "out' ! k = window_entry ?rgb nw ?cx ?cy ts (k - off)" using at k True by simp
      moreover have "window_entry ?rgb nw ?cx ?cy ts r =
          window_pixel env ts img (r div (ts * ts)) (r mod (ts * ts) div ts) (r mod ts)" for r
        by (simp add: window_entry_def window_pixel_def i size)
      moreover have "k - off < 3 * ts * ts" using True by (simp add: mult.assoc) linarith
      ultimately show ?thesis using True room k by (simp add: nth_append image_planes_def)
    next
      case False
      then have "out' ! k = out ! k" using at k by auto
      with False room k show ?thesis by (auto simp: nth_append mult.assoc)
    qed
  qed
  moreover have "0 \<le> nw * nh" using pos by simp
  then have "c_int (nw * nh) = Some (nw * nh)" "c_int (nw * nh * 3) = Some (nw * nh * 3)"
    using fits by (simp_all add: INT_MIN_def INT_MAX_def)
  ultimately show ?thesis using loop size by (simp add: preprocess_def i rgb_to_chw_float_def)
qed

lemma crop_centred:
  assumes "0 \<le> crop_start n ts" and "crop_start n ts + ts \<le> n"
  shows "n - (crop_start n ts + ts) - crop_start n ts \<in> {0, 1}"
proof -
  have "ts \<le> n" using assms by linarith
  then have "crop_start n ts = (n - ts) div 2" by (simp add: crop_start_def trunc_div_nonneg)
  then show ?thesis by auto
qed

section \<open>Properties\<close>

text \<open>C22. Preparing an image that decodes, is not empty and whose resized size does not overflow reads only
  pixels of the resized image and writes exactly its three planes: the entry of a channel, a row and a
  column is the normalised byte of the window centred in the resized image, whose margins on opposite sides
  differ by a pixel at most. Rounding to \<open>float\<close>, as long
  as it is monotone and exact on 1 and the target size, cannot push the window outside.\<close>

theorem preprocess_in_window:
  fixes env :: "'f::{linordered_field,floor_ceiling} image_env"
  assumes "float_rounding (ig_round env) ts" and "ig_decode_file env path = Some (w, h, px)"
    and "usable_image env ts (w, h, px)" and "off + 3 * ts * ts \<le> length out"
  shows "\<exists>nw nh out'. resized_size (ig_round env) (int ts) w h = Some (nw, nh) \<and>
    0 \<le> crop_start nw (int ts) \<and> crop_start nw (int ts) + int ts \<le> nw \<and>
    0 \<le> crop_start nh (int ts) \<and> crop_start nh (int ts) + int ts \<le> nh \<and>
    nw - (crop_start nw (int ts) + int ts) - crop_start nw (int ts) \<in> {0, 1} \<and>
    nh - (crop_start nh (int ts) + int ts) - crop_start nh (int ts) \<in> {0, 1} \<and>
    preprocess_image_to_buffer env (Some path) off ts out = Inr out' \<and> length out' = length out \<and>
    take off out' = take off out \<and> drop (off + 3 * ts * ts) out' = drop (off + 3 * ts * ts) out \<and>
    (\<forall>ch < 3. \<forall>y < ts. \<forall>x < ts. out' ! (off + ch * (ts * ts) + y * ts + x) =
       normalized ch (ig_resize env (w, h, px) nw nh !
         nat (((crop_start nh (int ts) + int y) * nw + crop_start nw (int ts) + int x) * 3 + int ch)))"
proof -
  obtain nw nh where size: "resized_size (ig_round env) (int ts) w h = Some (nw, nh)" and wh: "0 < w" "0 < h"
    using assms(3) by (auto simp: usable_image_def split: option.splits)
  let ?out = "take off out @ image_planes env ts (w, h, px) @ drop (off + 3 * ts * ts) out"
  have "?out ! (off + ch * (ts * ts) + y * ts + x) = normalized ch (ig_resize env (w, h, px) nw nh !
      nat (((crop_start nh (int ts) + int y) * nw + crop_start nw (int ts) + int x) * 3 + int ch))"
    if "ch < 3" "y < ts" "x < ts" for ch y x
  proof -
    let ?r = "ch * (ts * ts) + y * ts + x"
    have "Suc y * ts \<le> ts * ts" "Suc ch * (ts * ts) \<le> 3 * (ts * ts)" using that by (simp_all only: mult_le_mono1 Suc_le_eq)
    then have "y * ts + ts \<le> ts * ts" "ch * (ts * ts) + ts * ts \<le> 3 * (ts * ts)" by (simp_all only: mult_Suc add.commute)
    with that(3) have "?r < 3 * (ts * ts)" by linarith
    then have r: "?r < 3 * ts * ts" by (simp only: mult.assoc)
    have "?out ! (off + ?r) = image_planes env ts (w, h, px) ! ?r" using r assms(4) by (simp add: nth_append)
    then show ?thesis using r pixel_index [OF that(2,3), of ?r ch]
      by (simp add: image_planes_def window_pixel_def size add.assoc)
  qed
  moreover have "preprocess_image_to_buffer env (Some path) off ts out = Inr ?out"
    using assms(2) preprocess_ok [OF assms(1,3,4)] by (simp add: preprocess_image_to_buffer_def file_image_def)
  ultimately show ?thesis
    using size resized_window [OF assms(1) wh size] assms(4) crop_centred [of nw "int ts"] crop_centred [of nh "int ts"]
    by (intro exI [of _ nw] exI [of _ nh] exI [of _ ?out]) simp
qed

text \<open>A thin image needs no attack to overflow: its resized size is computed in \<open>int\<close>.\<close>

theorem thin_image_overflows:
  fixes env :: "'f::{linordered_field,floor_ceiling} image_env"
  assumes "\<forall>x. ig_round env x = x" and "0 < w" and "w < h" and "(h * int ts) div w * int ts * 3 > INT_MAX"
  shows "preprocess env ts (w, h, px) off out = Inl Undef"
proof -
  have "(of_int h / of_int w * of_nat ts :: 'f) = of_int (h * int ts) / of_int w" by simp
  then have floor: "\<lfloor>of_int h / of_int w * of_nat ts :: 'f\<rfloor> = (h * int ts) div w"
    by (simp only: floor_divide_of_int_eq)
  have "(0::'f) \<le> of_int h / of_int w * of_nat ts" using assms(2,3) by simp
  with floor assms(1-3) have "scaled (ig_round env) h w (int ts) TYPE('f) = c_int ((h * int ts) div w)"
    by (simp add: scaled_def Let_def)
  moreover have "c_int (int ts * nh) \<noteq> None \<longrightarrow> c_int (int ts * nh * 3) = None" if "(h * int ts) div w = nh" for nh
    using assms(4) that by (auto simp: c_int_def mult.commute)
  ultimately show ?thesis using assms(3)
    by (auto simp: preprocess_def resized_size_def c_int_def split: if_splits)
qed

definition sample_image_env :: "rat image_env" where
  "sample_image_env = \<lparr>ig_fails = \<lambda>_. None,
     ig_infer = \<lambda>(n, px, shape) outs. Inr [\<lparr>tr_data = map hd (map (\<lambda>i. take 12 (drop (i * 12) px)) [0..<nat (hd shape)]), tr_shape = [hd shape, 1]\<rparr>],
     ig_sqrt = \<lambda>x. x, ig_norm_eps = 0, ig_decode_file = \<lambda>p. Some (int (length p), 2, []), ig_decode = \<lambda>b n. Some (2, 2, []),
     ig_resize = \<lambda>img w h. map (\<lambda>i. i mod 256) [0..<nat (w * h * 3)], ig_round = \<lambda>x. x\<rparr>"

lemma sample_rounding: "float_rounding (ig_round sample_image_env) ts"
  by (simp add: float_rounding_def sample_image_env_def mono_def)

theorem preprocess_in_window_witness:
  "\<exists>out'. preprocess_image_to_buffer sample_image_env (Some ''abc'') 0 2 (replicate 12 0) = Inr out' \<and> length out' = 12"
proof -
  have "ig_decode_file sample_image_env ''abc'' = Some (3, 2, [])" by (simp add: sample_image_env_def)
  moreover have "usable_image sample_image_env 2 (3, 2, [])" by code_simp
  ultimately show ?thesis
    using preprocess_in_window [OF sample_rounding, of "''abc''" 3 2 "[]" 2 0 "replicate 12 0"] by fastforce
qed

theorem thin_image_overflows_witness: "preprocess sample_image_env 224 (1, 20000, []) 0 [] = Inl Undef"
  by (rule thin_image_overflows) (simp_all add: sample_image_env_def INT_MAX_def)

end
