(* ===== verification/ImageEmbedding.thy ===== *)
theory ImageEmbedding
  imports ImagePreprocess TextCreate
begin

text \<open>
  The image embedding context of \<open>image_embedding.h\<close>: creation from the registry and from a directory,
  embedding of image files and of images in memory, introspection and statistics. \<open>None\<close> is undefined
  behaviour. The result's rows lie one after the other in one buffer, as in the code.
\<close>

section \<open>The context\<close>

record 'f image_ctx =
  im_session :: onnx_session
  im_dim :: int
  im_target_size :: nat
  im_model_name :: string
  im_num_threads :: int
  im_batch_size :: int
  im_provider :: int
  im_device_id :: int
  im_desc :: model_desc
  im_texts :: "64 word"
  im_batches :: "64 word"
  im_latency :: 'f
  im_calls :: int

record image_options =
  io_model :: int
  io_provider :: int
  io_device_id :: int
  io_cache_dir :: "string option"
  io_num_threads :: int
  io_batch_size :: int
  io_offline :: bool
  io_dim :: int

definition IMAGE_MODEL_DEFAULT :: int where "IMAGE_MODEL_DEFAULT = 0"

definition lembed_image_options_default :: image_options where
  "lembed_image_options_default = \<lparr>io_model = IMAGE_MODEL_DEFAULT, io_provider = 0, io_device_id = 0, io_cache_dir = None,
     io_num_threads = 0, io_batch_size = DEFAULT_BATCH_SIZE, io_offline = False, io_dim = 0\<rparr>"

definition image_ctx_new :: "'f::zero image_ctx" where
  "image_ctx_new = \<lparr>im_session = onnx_session_new, im_dim = 0, im_target_size = 0, im_model_name = [], im_num_threads = 0,
     im_batch_size = 0, im_provider = 0, im_device_id = 0, im_desc = desc_new, im_texts = 0, im_batches = 0,
     im_latency = 0, im_calls = 0\<rparr>"

section \<open>Creation\<close>

text \<open>Its status, the context stored in \<open>*out\<close>, the message, and whether a context was allocated and lost.\<close>

record 'f image_created =
  ic_status :: status
  ic_ctx :: "'f image_ctx option"
  ic_error :: "string option"
  ic_leaked :: bool

definition im_refused :: "status \<Rightarrow> string option \<Rightarrow> 'f image_created" where
  "im_refused s err = \<lparr>ic_status = s, ic_ctx = None, ic_error = map_option set_error err, ic_leaked = False\<rparr>"

definition image_context :: "image_options \<Rightarrow> int \<Rightarrow> string \<Rightarrow> 'f::zero image_ctx" where
  "image_context opts width name =
     image_ctx_new\<lparr>im_dim := width, im_target_size := 224, im_model_name := name, im_num_threads := io_num_threads opts,
       im_batch_size := positive_or (io_batch_size opts) DEFAULT_BATCH_SIZE, im_provider := io_provider opts,
       im_device_id := io_device_id opts\<rparr>"

definition im_finish :: "'f image_ctx \<Rightarrow> 'f image_ctx" where
  "im_finish c = c\<lparr>im_desc := \<lparr>d_name = im_model_name c, d_dimension = im_dim c, d_max_length = 0, d_pooling = POOL_MEAN,
     d_num_threads = im_num_threads c, d_batch_size = im_batch_size c, d_provider = im_provider c,
     d_device_id = im_device_id c\<rparr>\<rparr>"

definition im_load :: "status \<Rightarrow> (string + unit) \<times> onnx_session \<times> nat \<Rightarrow> 'f image_ctx \<Rightarrow> 'f image_created" where
  "im_load failure session c =
     (case session of
        (Inl msg, _) \<Rightarrow> (im_refused failure (Some msg))\<lparr>ic_leaked := True\<rparr>
      | (Inr _, s, _) \<Rightarrow>
          \<lparr>ic_status = OK, ic_ctx = Some (im_finish (c\<lparr>im_session := s\<rparr>)), ic_error = None, ic_leaked = False\<rparr>)"

definition lembed_image_embedding_create ::
    "('m, 'f::zero, 'd) load_env \<Rightarrow> image_options option \<Rightarrow> bool \<Rightarrow> disk \<Rightarrow> 'f image_created option \<times> disk" where
  "lembed_image_embedding_create env options out_ok dk =
     (case options of
        None \<Rightarrow> (Some (im_refused INVALID_ARGUMENT None), dk)
      | Some opts \<Rightarrow>
          if \<not> out_ok then (Some (im_refused INVALID_ARGUMENT None), dk)
          else (case lembed_get_image_model_info (io_model opts) True of (s0, row) \<Rightarrow>
            if s0 \<noteq> OK then (Some (im_refused s0 None), dk)
            else case row of None \<Rightarrow> (None, dk) | Some info \<Rightarrow>
            case lembed_ensure_image_model (le_sys env) (io_model opts) (io_cache_dir opts) (io_offline opts) True dk of
              ((s1, model_dir, err), dk1) \<Rightarrow>
                if s1 \<noteq> OK then (Some \<lparr>ic_status = s1, ic_ctx = None, ic_error = err, ic_leaked = False\<rparr>, dk1)
                else case model_dir of None \<Rightarrow> (None, dk1) | Some dir \<Rightarrow>
                  let c = image_context opts (model_dim info) (model_name info)
                  in (Some (im_load ONNX_RUNTIME
                        (onnx_load_from_file (le_fails env) (le_io env) (dir @ ''/'' @ model_file info)
                           (io_num_threads opts) (io_provider opts) 0 (im_session c)) c), dk1)))"

text \<open>A directory: \<open>model.onnx\<close>, and the dimension of \<open>config.json\<close> or else of the options.\<close>

definition image_local_dim :: "('m, 'f, 'd) load_env \<Rightarrow> disk \<Rightarrow> string \<Rightarrow> image_options \<Rightarrow> int" where
  "image_local_dim env dk dir opts =
     (let d0 = (case map_of (dk_files dk) (dir @ ''/config.json'') of
                  None \<Rightarrow> 0 | Some blob \<Rightarrow> (case parse_config_json (le_parse env) blob (0, 0) of (_, d, _) \<Rightarrow> d))
      in if d0 = 0 then io_dim opts else d0)"

definition lembed_image_embedding_create_from_path ::
    "('m, 'f::zero, 'd) load_env \<Rightarrow> string option \<Rightarrow> image_options option \<Rightarrow> bool \<Rightarrow> disk \<Rightarrow> 'f image_created" where
  "lembed_image_embedding_create_from_path env dir_path options out_ok dk =
     (case (dir_path, options) of
        (Some (ch # cs), Some opts) \<Rightarrow>
          if \<not> out_ok then im_refused INVALID_ARGUMENT None
          else let dir = ch # cs in
            (case read_file_to_string dk (dir @ ''/model.onnx'') of
               Inl msg \<Rightarrow> im_refused IO_ERROR (Some msg)
             | Inr onnx \<Rightarrow>
                 let d = image_local_dim env dk dir opts in
                 if d = 0
                 then im_refused INVALID_ARGUMENT
                        (Some ''Cannot determine model dimension: no config.json found and options.dim not set'')
                 else
                   let c = image_context opts d dir
                   in im_load IO_ERROR
                        (onnx_load_from_memory (le_fails env) (le_io env) onnx (io_num_threads opts) (io_provider opts) 0
                           (im_session c)) c)
      | _ \<Rightarrow> im_refused INVALID_ARGUMENT None)"

section \<open>One batch\<close>

text \<open>How a source is written into the batch: \<open>preprocess_image_to_buffer\<close> or its sibling for bytes.\<close>

type_synonym ('s, 'f) image_fill = "'s \<Rightarrow> nat \<Rightarrow> nat \<Rightarrow> 'f list \<Rightarrow> embed_fail + 'f list"

fun fill_batch :: "('s, 'f) image_fill \<Rightarrow> nat \<Rightarrow> nat \<Rightarrow> 's list \<Rightarrow> 'f list \<Rightarrow> embed_fail + 'f list" where
  "fill_batch prep ts i [] data = Inr data"
| "fill_batch prep ts i (s # ss) data =
     bind_sum (prep s (i * 3 * ts * ts) ts data) (fill_batch prep ts (Suc i) ss)"

text \<open>The name of the input, which depends on the model.\<close>

definition pixel_input :: "onnx_session \<Rightarrow> string option" where
  "pixel_input s =
     (if has_input s ''pixel_values'' then Some ''pixel_values''
      else if has_input s ''input'' then Some ''input''
      else case input_names s of [] \<Rightarrow> None | n # _ \<Rightarrow> Some n)"

text \<open>Files are normalised over the last dimension of the output, bytes over the context's.\<close>

definition normal_width :: "bool \<Rightarrow> 'f image_ctx \<Rightarrow> int list \<Rightarrow> int" where
  "normal_width files c shape = (if files \<and> length shape \<ge> 2 then last shape else im_dim c)"

definition image_batch ::
    "'f::linordered_field image_env \<Rightarrow> ('s, 'f) image_fill \<Rightarrow> bool \<Rightarrow> 'f image_ctx \<Rightarrow> 's list \<Rightarrow> embed_fail + 'f list" where
  "image_batch env prep files c srcs =
     (let bsz = length srcs; ts = im_target_size c in
      if c_int (int (bsz * 3 * ts * ts)) = None then Inl Undef
      else bind_sum (fill_batch prep ts 0 srcs (replicate (bsz * 3 * ts * ts) 0)) (\<lambda>pixels.
        case pixel_input (im_session c) of
          None \<Rightarrow> Inl Undef
        | Some name \<Rightarrow>
            (case fst (onnx_run_float (ig_fails env) (ig_infer env) (im_session c) name pixels
                         [int bsz, 3, int ts, int ts]) of
               Inl msg \<Rightarrow> Inl (Threw msg)
             | Inr [] \<Rightarrow> Inl Undef
             | Inr (t # _) \<Rightarrow>
                 let w = nat (normal_width files c (tr_shape t)) in
                 if bsz * w > length (tr_data t) then Inl Undef
                 else Inr (l2_normalize (ig_sqrt env) (ig_norm_eps env) (tr_data t) bsz w))))"

section \<open>All batches\<close>

fun image_loop ::
    "'f::linordered_field image_env \<Rightarrow> ('s, 'f) image_fill \<Rightarrow> bool \<Rightarrow> 'f image_ctx \<Rightarrow> 's list \<Rightarrow> int \<Rightarrow> nat list \<Rightarrow> int
      \<Rightarrow> 'f list \<Rightarrow> embed_fail + 'f list" where
  "image_loop env prep files c srcs batch [] off out = Inr out"
| "image_loop env prep files c srcs batch (bi # bis) off out =
     (case get_batch (int bi) (int (length srcs)) batch of
        None \<Rightarrow> Inl Undef
      | Some r \<Rightarrow>
          bind_sum (image_batch env prep files c (sub_list (nat (range_start r)) (nat (range_end r)) srcs)) (\<lambda>rows.
            let n = nat ((range_end r - range_start r) * im_dim c) in
            case c_int (off * im_dim c) of
              None \<Rightarrow> Inl Undef
            | Some pos \<Rightarrow>
                if pos < 0 \<or> n > length rows \<or> nat pos + n > length out then Inl Undef
                else image_loop env prep files c srcs batch bis (off + (range_end r - range_start r))
                       (take (nat pos) out @ take n rows @ drop (nat pos + n) out)))"

record 'f image_result =
  ir_data :: "'f list option"
  ir_num :: int
  ir_dim :: int

text \<open>
  The body of the two functions. \<open>fresh\<close> is what \<open>malloc\<close> returns. Only \<open>embed_bytes\<close> counts.
\<close>

type_synonym 'f image_outcome = "(status \<times> 'f image_result option \<times> 'f image_ctx option \<times> string option) option"

definition image_counted :: "nat \<Rightarrow> int \<Rightarrow> 'f::plus \<Rightarrow> 'f image_ctx \<Rightarrow> 'f image_ctx" where
  "image_counted n batches elapsed c =
     c\<lparr>im_texts := im_texts c + of_nat n, im_batches := im_batches c + of_int batches,
       im_latency := im_latency c + elapsed, im_calls := im_calls c + 1\<rparr>"

definition image_embed ::
    "'f::linordered_field image_env \<Rightarrow> ('s, 'f) image_fill \<Rightarrow> bool \<Rightarrow> 'f list option \<Rightarrow> 'f \<Rightarrow> 'f image_ctx \<Rightarrow> 's list \<Rightarrow> int
      \<Rightarrow> 'f image_result \<Rightarrow> 'f image_outcome" where
  "image_embed env prep files fresh elapsed c srcs batch_size r =
     (let b = (if batch_size \<le> 0 then im_batch_size c else batch_size);
          r1 = r\<lparr>ir_dim := im_dim c, ir_num := int (length srcs), ir_data := fresh\<rparr>
      in case fresh of
           None \<Rightarrow> Some (OUT_OF_MEMORY, Some r1, Some c, None)
         | Some out \<Rightarrow>
             (case batch_count (int (length srcs)) b of
                None \<Rightarrow> None
              | Some n \<Rightarrow>
                  (case image_loop env prep files c srcs b [0..<nat n] 0 out of
                     Inl Undef \<Rightarrow> None
                   | Inl (Threw msg) \<Rightarrow>
                       Some (ONNX_RUNTIME, Some (r1\<lparr>ir_data := None\<rparr>), Some c, Some (set_error msg))
                   | Inr vecs \<Rightarrow>
                       Some (OK, Some (r1\<lparr>ir_data := Some vecs\<rparr>),
                         Some (if files then c else image_counted (length srcs) n elapsed c), None))))"

definition lembed_image_embedding_embed_files ::
    "'f::{linordered_field,floor_ceiling} image_env \<Rightarrow> 'f list option \<Rightarrow> 'f \<Rightarrow> 'f image_ctx option
      \<Rightarrow> string option list option \<Rightarrow> int \<Rightarrow> int \<Rightarrow> 'f image_result option \<Rightarrow> 'f image_outcome" where
  "lembed_image_embedding_embed_files env fresh elapsed ctx paths num_images batch_size result =
     (case (ctx, paths, result) of
        (Some c, Some ps, Some r) \<Rightarrow>
          if num_images \<le> 0 then Some (INVALID_ARGUMENT, result, ctx, None)
          else if nat num_images > length ps then None
          else image_embed env (preprocess_image_to_buffer env) True fresh elapsed c (take (nat num_images) ps) batch_size r
      | _ \<Rightarrow> Some (INVALID_ARGUMENT, result, ctx, None))"

definition lembed_image_embedding_embed_bytes ::
    "'f::{linordered_field,floor_ceiling} image_env \<Rightarrow> 'f list option \<Rightarrow> 'f \<Rightarrow> 'f image_ctx option
      \<Rightarrow> string option list option \<Rightarrow> int list option \<Rightarrow> int \<Rightarrow> int \<Rightarrow> 'f image_result option \<Rightarrow> 'f image_outcome" where
  "lembed_image_embedding_embed_bytes env fresh elapsed ctx data sizes num_images batch_size result =
     (case (ctx, data, sizes, result) of
        (Some c, Some bs, Some ns, Some r) \<Rightarrow>
          if num_images \<le> 0 then Some (INVALID_ARGUMENT, result, ctx, None)
          else if nat num_images > length bs \<or> nat num_images > length ns then None
          else image_embed env (preprocess_image_bytes_to_buffer env) False fresh elapsed c
                 (take (nat num_images) (zip bs ns)) batch_size r
      | _ \<Rightarrow> Some (INVALID_ARGUMENT, result, ctx, None))"

section \<open>Introspection\<close>

definition lembed_image_embedding_dim :: "'f image_ctx option \<Rightarrow> int" where
  "lembed_image_embedding_dim ctx = (case ctx of None \<Rightarrow> 0 | Some c \<Rightarrow> im_dim c)"

definition lembed_image_embedding_desc :: "'f image_ctx option \<Rightarrow> model_desc option" where
  "lembed_image_embedding_desc ctx = map_option im_desc ctx"

definition lembed_image_embedding_model_name :: "'f image_ctx option \<Rightarrow> string option" where
  "lembed_image_embedding_model_name ctx = map_option (c_str \<circ> im_model_name) ctx"

definition lembed_image_embedding_max_length :: "'f image_ctx option \<Rightarrow> int" where
  "lembed_image_embedding_max_length ctx = 0"

definition image_latency :: "(int \<Rightarrow> 'f) \<Rightarrow> 'f::{zero,inverse} image_ctx \<Rightarrow> 'f" where
  "image_latency of_c c = (if im_calls c > 0 then im_latency c / of_c (im_calls c) else 0)"

definition lembed_image_embedding_stats ::
    "(int \<Rightarrow> 'f) \<Rightarrow> 'f::{zero,inverse} image_ctx option \<Rightarrow> 'f text_stats option \<Rightarrow> 'f text_stats option" where
  "lembed_image_embedding_stats of_c ctx out =
     (case (ctx, out) of
        (_, None) \<Rightarrow> None
      | (None, Some s) \<Rightarrow> Some (s\<lparr>st_texts := 0, st_batches := 0, st_latency := 0\<rparr>)
      | (Some c, Some s) \<Rightarrow> Some (s\<lparr>st_texts := im_texts c, st_batches := im_batches c, st_latency := image_latency of_c c\<rparr>))"

definition lembed_image_embedding_stats_v2 ::
    "(int \<Rightarrow> 'f) \<Rightarrow> 'f::{zero,inverse} image_ctx option \<Rightarrow> 'f text_stats option \<Rightarrow> 'f text_stats option" where
  "lembed_image_embedding_stats_v2 of_c ctx out =
     (case (ctx, out) of
        (_, None) \<Rightarrow> None
      | (None, Some _) \<Rightarrow> Some stats_zero
      | (Some c, Some _) \<Rightarrow>
          Some (stats_zero\<lparr>st_texts := im_texts c, st_batches := im_batches c, st_latency := image_latency of_c c\<rparr>))"

definition lembed_image_embedding_free :: "'f image_ctx option \<Rightarrow> 'f image_ctx option" where
  "lembed_image_embedding_free ctx = None"

section \<open>A model of single images\<close>

text \<open>
  The model computes \<open>g\<close> on every image of a batch and puts the vectors one after the other in its first
  output, whose rows have the context's dimension.
\<close>

definition embeds_planes ::
    "'f::linordered_field image_env \<Rightarrow> 'f image_ctx \<Rightarrow> ('f list \<Rightarrow> 'f list) \<Rightarrow> bool" where
  "embeds_planes env c g \<longleftrightarrow> (let ts = im_target_size c in
     \<forall>pls name. pixel_input (im_session c) = Some name \<longrightarrow> (\<forall>p \<in> set pls. length p = 3 * ts * ts) \<longrightarrow>
       (\<exists>others. ig_infer env (name, concat pls, [int (length pls), 3, int ts, int ts]) (output_names (im_session c)) =
          Inr (\<lparr>tr_data = concat (map g pls), tr_shape = [int (length pls), im_dim c]\<rparr> # others) \<and>
          (\<forall>v \<in> set others. prod_list (tr_shape v) = int (length (tr_data v)))) \<and>
       (\<forall>p \<in> set pls. length (g p) = nat (im_dim c)))"

definition image_ready ::
    "'f::{linordered_field,floor_ceiling} image_env \<Rightarrow> 'f image_ctx \<Rightarrow> ('f list \<Rightarrow> 'f list) \<Rightarrow> bool" where
  "image_ready env c g \<longleftrightarrow>
     (\<forall>call. ig_fails env call = None) \<and> input_names (im_session c) \<noteq> [] \<and> 0 \<le> im_dim c \<and>
     float_rounding (ig_round env) (im_target_size c) \<and> embeds_planes env c g"

text \<open>The vector of one image.\<close>

definition image_vector ::
    "'f::{linordered_field,floor_ceiling} image_env \<Rightarrow> 'f image_ctx \<Rightarrow> ('f list \<Rightarrow> 'f list) \<Rightarrow> image \<Rightarrow> 'f list" where
  "image_vector env c g img =
     normalize_row (ig_sqrt env) (ig_norm_eps env) (g (image_planes env (im_target_size c) img))"

definition decode_path :: "'f image_env \<Rightarrow> string option \<Rightarrow> image option" where
  "decode_path env path = (case path of None \<Rightarrow> None | Some p \<Rightarrow> ig_decode_file env p)"

definition decode_bytes :: "'f image_env \<Rightarrow> string option \<times> int \<Rightarrow> image option" where
  "decode_bytes env src = ig_decode env (fst src) (snd src)"

definition decodes_usable ::
    "'f::{linordered_field,floor_ceiling} image_env \<Rightarrow> 'f image_ctx \<Rightarrow> ('s \<Rightarrow> image option) \<Rightarrow> 's list \<Rightarrow> bool" where
  "decodes_usable env c decode srcs \<longleftrightarrow>
     list_all (\<lambda>s. case decode s of None \<Rightarrow> False | Some img \<Rightarrow> usable_image env (im_target_size c) img) srcs"

lemma pixel_input_some: "input_names s \<noteq> [] \<Longrightarrow> \<exists>name. pixel_input s = Some name"
  by (cases "input_names s") (auto simp: pixel_input_def)

lemma onnx_run_float_ok:
  assumes "\<forall>c. fails c = None" and "take (nat (prod_list shape)) pixels = pixels"
    and "infer (name, pixels, shape) (output_names s) = Inr vs"
    and "\<forall>v \<in> set vs. prod_list (tr_shape v) = int (length (tr_data v))"
  shows "onnx_run_float fails infer s name pixels shape = (Inr vs, 0)"
  using assms by (simp add: onnx_run_float_def read_outputs_ok)

section \<open>Sources of images\<close>

text \<open>What the loops need of a source: what decodes and is usable is written as its planes.\<close>

lemma take_written: "a \<le> length xs \<Longrightarrow> a + length ys = n \<Longrightarrow> take n (take a xs @ ys @ zs) = take a xs @ ys"
  by auto

locale image_source =
  fixes env :: "'f::{linordered_field,floor_ceiling} image_env"
    and decode :: "'s \<Rightarrow> image option"
    and prep :: "('s, 'f) image_fill"
  assumes prep_writes: "\<lbrakk>float_rounding (ig_round env) ts; decode s = Some img; usable_image env ts img;
      off + 3 * ts * ts \<le> length out\<rbrakk>
    \<Longrightarrow> prep s off ts out = Inr (take off out @ image_planes env ts img @ drop (off + 3 * ts * ts) out)"
begin

lemma fill_batch_ok:
  assumes "float_rounding (ig_round env) ts"
    and "list_all (\<lambda>s. case decode s of None \<Rightarrow> False | Some img \<Rightarrow> usable_image env ts img) ss"
    and "length out = (i + length ss) * (3 * ts * ts)"
  shows "fill_batch prep ts i ss out =
    Inr (take (i * (3 * ts * ts)) out @ concat (map (image_planes env ts \<circ> the \<circ> decode) ss))"
  using assms(2,3)
proof (induction ss arbitrary: i out)
  case (Cons s ss)
  let ?P = "3 * ts * ts"
  obtain img where img: "decode s = Some img" "usable_image env ts img" using Cons.prems(1) by (auto split: option.splits)
  let ?out = "take (i * ?P) out @ image_planes env ts img @ drop (i * ?P + ?P) out"
  have len: "length out = i * ?P + ?P + length ss * ?P" using Cons.prems(2) by (simp add: algebra_simps)
  have off: "i * 3 * ts * ts = i * ?P" by simp
  have "prep s (i * ?P) ts out = Inr ?out" using len by (intro prep_writes [OF assms(1) img]) simp
  moreover have IH: "fill_batch prep ts (Suc i) ss ?out =
      Inr (take (Suc i * ?P) ?out @ concat (map (image_planes env ts \<circ> the \<circ> decode) ss))"
    using Cons.prems(1) len by (intro Cons.IH) (simp_all add: algebra_simps)
  moreover have cut: "take (Suc i * ?P) ?out = take (i * ?P) out @ image_planes env ts img"
    using len by (simp add: algebra_simps)
  ultimately show ?case unfolding fill_batch.simps off by (simp only: IH [unfolded cut] bind_sum_simps) (simp add: img(1) comp_def)
qed simp

lemma image_batch_ok:
  assumes ready: "image_ready env c g" and ok: "decodes_usable env c decode srcs"
    and fits: "int (length srcs * (3 * im_target_size c * im_target_size c)) \<le> INT_MAX"
  shows "image_batch env prep files c srcs = Inr (concat (map (image_vector env c g \<circ> the \<circ> decode) srcs))"
    and "\<forall>v \<in> set (map (image_vector env c g \<circ> the \<circ> decode) srcs). length v = nat (im_dim c)"
proof -
  let ?ts = "im_target_size c" and ?n = "length srcs"
  let ?pls = "map (image_planes env ?ts \<circ> the \<circ> decode) srcs"
  have r: "\<forall>call. ig_fails env call = None" "input_names (im_session c) \<noteq> []" "0 \<le> im_dim c"
    "float_rounding (ig_round env) ?ts" using ready by (simp_all add: image_ready_def)
  obtain name where name: "pixel_input (im_session c) = Some name"
    using pixel_input_some [OF r(2)] by blast
  have "\<forall>p \<in> set ?pls. length p = 3 * ?ts * ?ts" by simp
  with ready name obtain others where
    inf: "ig_infer env (name, concat ?pls, [int ?n, 3, int ?ts, int ?ts]) (output_names (im_session c)) =
      Inr (\<lparr>tr_data = concat (map g ?pls), tr_shape = [int ?n, im_dim c]\<rparr> # others)"
    and oth: "\<forall>v \<in> set others. prod_list (tr_shape v) = int (length (tr_data v))"
    and g: "\<forall>p \<in> set ?pls. length (g p) = nat (im_dim c)"
    unfolding image_ready_def embeds_planes_def Let_def by (metis length_map)
  show "\<forall>v \<in> set (map (image_vector env c g \<circ> the \<circ> decode) srcs). length v = nat (im_dim c)"
    using g by (simp add: image_vector_def)
  have rect: "\<forall>v \<in> set (map g ?pls). length v = nat (im_dim c)" using g by simp
  have len: "length (concat (map g ?pls)) = ?n * nat (im_dim c)" using length_concat_rect [OF rect] by simp
  have "length (concat ?pls) = ?n * (3 * ?ts * ?ts)" using length_concat_rect [of ?pls "3 * ?ts * ?ts"] by simp
  then have px: "take (nat (prod_list [int ?n, 3, int ?ts, int ?ts])) (concat ?pls) = concat ?pls"
    by (simp add: nat_mult_distrib)
  have run: "onnx_run_float (ig_fails env) (ig_infer env) (im_session c) name (concat ?pls) [int ?n, 3, int ?ts, int ?ts] =
      (Inr (\<lparr>tr_data = concat (map g ?pls), tr_shape = [int ?n, im_dim c]\<rparr> # others), 0)"
    by (rule onnx_run_float_ok, rule r(1), rule px, rule inf, use oth len r(3) in simp)
  have filled: "fill_batch prep ?ts 0 srcs (replicate (?n * 3 * ?ts * ?ts) 0) = Inr (concat ?pls)"
    using fill_batch_ok [OF r(4), of srcs "replicate (?n * 3 * ?ts * ?ts) 0" 0] ok
    by (simp add: decodes_usable_def mult.assoc)
  have int: "c_int (int (?n * 3 * ?ts * ?ts)) \<noteq> None"
  proof -
    have "INT_MIN \<le> int (?n * 3 * ?ts * ?ts)" by (rule order_trans [of _ 0]) (simp_all add: INT_MIN_def)
    then show ?thesis using fits by (simp add: c_int_def mult.assoc)
  qed
  have norm: "l2_normalize (ig_sqrt env) (ig_norm_eps env) (concat (map g ?pls)) ?n (nat (im_dim c)) =
      concat (map (image_vector env c g \<circ> the \<circ> decode) srcs)"
    using l2_normalize_rows [OF rect, of "ig_sqrt env" "ig_norm_eps env"] by (simp add: image_vector_def comp_def)
  show "image_batch env prep files c srcs = Inr (concat (map (image_vector env c g \<circ> the \<circ> decode) srcs))"
    using int len norm by (simp add: image_batch_def Let_def filled bind_sum_def name run normal_width_def)
qed

lemma image_loop_ok:
  assumes ready: "image_ready env c g" and ok: "decodes_usable env c decode srcs"
    and b: "0 < b" "int (length srcs) + int b \<le> INT_MAX" "int (length srcs) * im_dim c \<le> INT_MAX"
    and fits: "int (min b (length srcs) * (3 * im_target_size c * im_target_size c)) \<le> INT_MAX"
    and k: "k \<le> (length srcs + b - 1) div b" and out: "length out = length srcs * nat (im_dim c)"
  shows "image_loop env prep files c srcs (int b) [k..<(length srcs + b - 1) div b] (int (min (k * b) (length srcs))) out =
    Inr (take (min (k * b) (length srcs) * nat (im_dim c)) out @
      concat (map (image_vector env c g \<circ> the \<circ> decode) (drop (min (k * b) (length srcs)) srcs)))"
  using k out
proof (induction k arbitrary: out rule: inc_induct)
  case base
  let ?n = "length srcs"
  have "(?n + b - 1) mod b < b" using b(1) by simp
  then have "?n \<le> (?n + b - 1) div b * b" using div_mult_mod_eq [of "?n + b - 1" b] by linarith
  then show ?case using base by (simp add: min_def)
next
  case (step k)
  let ?n = "length srcs" and ?w = "nat (im_dim c)" and ?v = "image_vector env c g \<circ> the \<circ> decode"
  let ?e = "min (Suc k * b) ?n"
  let ?part = "sub_list (k * b) ?e srcs"
  have w: "0 \<le> im_dim c" using ready by (simp add: image_ready_def)
  have lt: "k * b < ?n" by (rule batch_ranges_below [OF step.hyps(2) b(1)])
  then have le: "k * b \<le> ?e" by simp
  have range: "get_batch (int k) (int ?n) (int b) = Some \<lparr>range_start = int (k * b), range_end = int ?e\<rparr>"
    by (rule get_batch_nat [OF b(1,2) step.hyps(2)])
  have part: "length ?part = ?e - k * b" by simp
  have "?e - k * b \<le> min b ?n" using lt by (auto simp: min_def)
  then have "(?e - k * b) * (3 * im_target_size c * im_target_size c) \<le> min b ?n * (3 * im_target_size c * im_target_size c)"
    by (rule mult_le_mono1)
  then have small: "int (length ?part * (3 * im_target_size c * im_target_size c)) \<le> INT_MAX"
    unfolding part using fits by linarith
  have usable: "decodes_usable env c decode ?part"
    using ok by (auto simp: decodes_usable_def sub_list_def list_all_iff dest!: in_set_takeD in_set_dropD)
  note batch = image_batch_ok [OF ready usable small]
  have rows: "length (concat (map ?v ?part)) = (?e - k * b) * ?w"
    using length_concat_rect [OF batch(2)] part by simp
  have pos: "c_int (int (k * b) * im_dim c) = Some (int (k * b * ?w))"
  proof -
    have "int (k * b) \<le> int ?n" using lt by (simp only: of_nat_le_iff less_imp_le)
    then have "int (k * b) * im_dim c \<le> int ?n * im_dim c" using w by (rule mult_right_mono)
    moreover have "0 \<le> int (k * b) * im_dim c" using w by simp
    then have "INT_MIN \<le> int (k * b) * im_dim c" by (rule order_trans [rotated]) (simp add: INT_MIN_def)
    moreover have "int (k * b * ?w) = int (k * b) * im_dim c" using w by simp
    ultimately show ?thesis using b(3) by (simp only: c_int_Some) (blast intro: order_trans)
  qed
  have nn: "\<not> int k * int b * im_dim c < 0" using w by (simp add: not_less mult_nonneg_nonneg)
  have count: "nat ((int ?e - int (k * b)) * im_dim c) = (?e - k * b) * ?w"
  proof -
    have "int ?e - int (k * b) = int (?e - k * b)" using le by (rule of_nat_diff [symmetric])
    then show ?thesis by (simp only: nat_mult_distrib of_nat_0_le_iff nat_int)
  qed
  have split: "k * b * ?w + (?e - k * b) * ?w = ?e * ?w" using le by (metis add_mult_distrib le_add_diff_inverse)
  have "?e * ?w \<le> ?n * ?w" by (intro mult_le_mono1) simp
  then have room: "k * b * ?w + (?e - k * b) * ?w \<le> length out" using step.prems split by simp
  have kb: "k * b * ?w \<le> length srcs * ?w" using lt by (intro mult_le_mono1) simp
  let ?out = "take (k * b * ?w) out @ concat (map ?v ?part) @ drop (k * b * ?w + (?e - k * b) * ?w) out"
  have off: "int (k * b) + (int ?e - int (k * b)) = int ?e" by simp
  have "image_loop env prep files c srcs (int b) [k..<(?n + b - 1) div b] (int (k * b)) out =
      image_loop env prep files c srcs (int b) [Suc k..<(?n + b - 1) div b] (int ?e) ?out"
    unfolding upt_conv_Cons [OF step.hyps(2)] image_loop.simps range option.case batch_range.simps nat_int batch(1) bind_sum_simps
      count pos Let_def off
    using rows room w nn by simp
  also have "\<dots> = Inr (take (?e * ?w) ?out @ concat (map ?v (drop ?e srcs)))"
    using rows room kb step.prems by (intro step.IH) simp_all
  also have "take (?e * ?w) ?out = take (k * b * ?w) out @ concat (map ?v ?part)"
    using rows room split by (intro take_written) simp_all
  also have "(take (k * b * ?w) out @ concat (map ?v ?part)) @ concat (map ?v (drop ?e srcs)) =
      take (k * b * ?w) out @ concat (map ?v (?part @ drop ?e srcs))" by simp
  also have "?part @ drop ?e srcs = drop (k * b) srcs"
    using le by (metis sub_list_def append_take_drop_id drop_drop le_add_diff_inverse2)
  finally show ?case using lt by (simp add: min_def)
qed

lemma image_embed_ok:
  assumes ready: "image_ready env c g" and ok: "decodes_usable env c decode srcs"
    and out: "length out = length srcs * nat (im_dim c)"
    and b: "0 < b" "(if batch_size \<le> 0 then im_batch_size c else batch_size) = int b"
    and fits: "int (length srcs) + int b \<le> INT_MAX" "int (length srcs) * im_dim c \<le> INT_MAX"
      "int (length srcs) * (3 * int (im_target_size c) * int (im_target_size c)) \<le> INT_MAX"
  shows "image_embed env prep files (Some out) elapsed c srcs batch_size r =
    Some (OK, Some (r\<lparr>ir_data := Some (concat (map (image_vector env c g \<circ> the \<circ> decode) srcs)),
        ir_num := int (length srcs), ir_dim := im_dim c\<rparr>),
      Some (if files then c else image_counted (length srcs) (int ((length srcs + b - 1) div b)) elapsed c), None)"
proof -
  have "min b (length srcs) * (3 * im_target_size c * im_target_size c) \<le> length srcs * (3 * im_target_size c * im_target_size c)"
    by (rule mult_le_mono1) simp
  then have "int (min b (length srcs) * (3 * im_target_size c * im_target_size c)) \<le>
      int (length srcs * (3 * im_target_size c * im_target_size c))" by (rule of_nat_mono)
  also have "\<dots> \<le> INT_MAX" using fits(3) by simp
  finally have small: "int (min b (length srcs) * (3 * im_target_size c * im_target_size c)) \<le> INT_MAX" .
  from image_loop_ok [OF ready ok b(1) fits(1,2) small _ out, of 0 files]
  have "image_loop env prep files c srcs (int b) [0..<(length srcs + b - 1) div b] 0 out =
      Inr (concat (map (image_vector env c g \<circ> the \<circ> decode) srcs))" by simp
  then show ?thesis
    unfolding image_embed_def Let_def b(2) batch_count_nat [OF b(1) fits(1)] by simp
qed

end

section \<open>Files and bytes are sources\<close>

interpretation files: image_source env "decode_path env" "preprocess_image_to_buffer env"
  for env :: "'f::{linordered_field,floor_ceiling} image_env"
  by unfold_locales
    (auto simp: decode_path_def preprocess_image_to_buffer_def file_image_def preprocess_ok split: option.splits)

interpretation memory: image_source env "decode_bytes env" "preprocess_image_bytes_to_buffer env"
  for env :: "'f::{linordered_field,floor_ceiling} image_env"
  by unfold_locales
    (auto simp: decode_bytes_def preprocess_image_bytes_to_buffer_def bytes_image_def preprocess_ok split: option.splits)

lemma decoded_all:
  assumes "map decode srcs = map Some imgs"
  shows "length srcs = length imgs" and "map (f \<circ> the \<circ> decode) srcs = map f imgs"
    and "decodes_usable env c decode srcs \<longleftrightarrow> list_all (usable_image env (im_target_size c)) imgs"
proof -
  show "length srcs = length imgs" using arg_cong [OF assms, of length] by simp
  have "map (f \<circ> the) (map decode srcs) = map f imgs" unfolding assms by simp
  then show "map (f \<circ> the \<circ> decode) srcs = map f imgs" by (simp add: comp_assoc)
  have "decodes_usable env c decode srcs \<longleftrightarrow>
      list_all (\<lambda>d. case d of None \<Rightarrow> False | Some img \<Rightarrow> usable_image env (im_target_size c) img) (map decode srcs)"
    by (simp add: decodes_usable_def list_all_iff)
  then show "decodes_usable env c decode srcs \<longleftrightarrow> list_all (usable_image env (im_target_size c)) imgs"
    unfolding assms by (simp add: list_all_iff)
qed

section \<open>Properties\<close>

text \<open>C20. Image embedding does not depend on how the images are batched or where they come from: from files
  and from memory, and with any batch size, the result holds one row per image, the normalised vector of
  the model on that image's planes alone, in the order of the images. Only the call on memory counts its
  images and batches.\<close>

theorem image_embed_exact:
  fixes env :: "'f::{linordered_field,floor_ceiling} image_env"
  assumes ready: "image_ready env c g" and some: "imgs \<noteq> []" and usable: "list_all (usable_image env (im_target_size c)) imgs"
    and paths: "map (decode_path env) paths = map Some imgs"
    and bytes: "map (decode_bytes env) (zip data sizes) = map Some imgs" "length data = length imgs" "length sizes = length imgs"
    and out: "length out = length imgs * nat (im_dim c)"
    and b: "0 < b" "(if batch_size \<le> 0 then im_batch_size c else batch_size) = int b"
    and fits: "int (length imgs) + int b \<le> INT_MAX" "int (length imgs) * im_dim c \<le> INT_MAX"
      "int (length imgs) * (3 * int (im_target_size c) * int (im_target_size c)) \<le> INT_MAX"
  shows "let res = r\<lparr>ir_data := Some (concat (map (image_vector env c g) imgs)), ir_num := int (length imgs), ir_dim := im_dim c\<rparr> in
    lembed_image_embedding_embed_files env (Some out) elapsed (Some c) (Some paths) (int (length imgs)) batch_size (Some r) =
      Some (OK, Some res, Some c, None) \<and>
    lembed_image_embedding_embed_bytes env (Some out) elapsed (Some c) (Some data) (Some sizes) (int (length imgs)) batch_size (Some r) =
      Some (OK, Some res, Some (image_counted (length imgs) (int ((length imgs + b - 1) div b)) elapsed c), None)"
proof -
  note p = decoded_all [OF paths] and m = decoded_all [OF bytes(1)]
  have "image_embed env (preprocess_image_to_buffer env) True (Some out) elapsed c paths batch_size r =
    Some (OK, Some (r\<lparr>ir_data := Some (concat (map (image_vector env c g) imgs)), ir_num := int (length imgs), ir_dim := im_dim c\<rparr>), Some c, None)"
    using files.image_embed_ok [OF ready _ _ b, of paths out True elapsed r] usable out fits unfolding p by simp
  moreover have "image_embed env (preprocess_image_bytes_to_buffer env) False (Some out) elapsed c (zip data sizes) batch_size r =
    Some (OK, Some (r\<lparr>ir_data := Some (concat (map (image_vector env c g) imgs)), ir_num := int (length imgs), ir_dim := im_dim c\<rparr>),
      Some (image_counted (length imgs) (int ((length imgs + b - 1) div b)) elapsed c), None)"
    using memory.image_embed_ok [OF ready _ _ b, of "zip data sizes" out False elapsed r] usable out fits unfolding m by simp
  ultimately show ?thesis
    using some bytes(2,3) p(1) by (simp add: lembed_image_embedding_embed_files_def lembed_image_embedding_embed_bytes_def Let_def)
qed

definition sample_image_ctx :: "rat image_ctx" where
  "sample_image_ctx = image_ctx_new\<lparr>im_session := \<lparr>opened = True, input_names = [''input''], output_names = [''out'']\<rparr>,
     im_dim := 1, im_target_size := 2, im_batch_size := 2\<rparr>"

lemma sample_image_ready: "image_ready sample_image_env sample_image_ctx (\<lambda>p. [hd p])"
proof -
  have "map hd (map (\<lambda>i. take 12 (drop (i * 12) (concat pls))) [0..<length pls]) = map hd pls"
    if "\<forall>p \<in> set pls. length p = 12" for pls :: "rat list list"
    using map_row_of_concat [OF that] by (simp add: row_of_def)
  moreover have "concat (map (\<lambda>p. [hd p]) pls) = map hd pls" for pls :: "rat list list" by (induction pls) simp_all
  ultimately have "embeds_planes sample_image_env sample_image_ctx (\<lambda>p. [hd p])"
    by (simp add: embeds_planes_def sample_image_env_def sample_image_ctx_def Let_def)
  then show ?thesis
    using sample_rounding by (simp add: image_ready_def sample_image_env_def sample_image_ctx_def)
qed

theorem image_embed_exact_witness:
  "\<exists>res c'. lembed_image_embedding_embed_files sample_image_env (Some [0, 0, 0]) 0 (Some sample_image_ctx)
      (Some [Some ''ab'', Some ''cd'', Some ''ef'']) 3 2 (Some \<lparr>ir_data = None, ir_num = 0, ir_dim = 0\<rparr>) = Some (OK, Some res, Some c', None) \<and>
    ir_num res = 3"
proof -
  let ?imgs = "[(2, 2, []), (2, 2, []), (2, 2, [])] :: image list" and ?r = "\<lparr>ir_data = None, ir_num = 0, ir_dim = 0\<rparr> :: rat image_result"
  have "usable_image sample_image_env 2 (2, 2, [])" by code_simp
  then have usable: "list_all (usable_image sample_image_env (im_target_size sample_image_ctx)) ?imgs"
    by (simp add: sample_image_ctx_def)
  have paths: "map (decode_path sample_image_env) [Some ''ab'', Some ''cd'', Some ''ef''] = map Some ?imgs"
    by (simp add: decode_path_def sample_image_env_def)
  have bytes: "map (decode_bytes sample_image_env) (zip [Some [], Some [], Some []] [0, 0, 0]) = map Some ?imgs"
    by (simp add: decode_bytes_def sample_image_env_def)
  have bounds: "length [0, 0, 0 :: rat] = length ?imgs * nat (im_dim sample_image_ctx)"
    "(if (2::int) \<le> 0 then im_batch_size sample_image_ctx else 2) = int 2" "int (length ?imgs) + int 2 \<le> INT_MAX"
    "int (length ?imgs) * im_dim sample_image_ctx \<le> INT_MAX"
    "int (length ?imgs) * (3 * int (im_target_size sample_image_ctx) * int (im_target_size sample_image_ctx)) \<le> INT_MAX"
    by (simp_all add: sample_image_ctx_def INT_MAX_def)
  from image_embed_exact [OF sample_image_ready _ usable paths bytes _ _ bounds(1) _ bounds(2-5), of ?r 0]
  show ?thesis unfolding Let_def by fastforce
qed

end
