(* ===== verification/TuneBench.thy ===== *)
theory TuneBench
  imports QuantAuto RerankerCreate SparseCreate ImageEmbedding
begin

text \<open>
  What the auto-tuners share: choosing a best entry while a grid is walked, the times of repeated runs,
  and the entries of the text cache (\<open>detail/autotune_bench_text.hpp\<close>,
  \<open>detail/autotune_bench_reranker.hpp\<close>). What a measured call returns and how long it takes comes from an
  environment.
\<close>

section \<open>The measured calls\<close>

text \<open>
  The machine, the parsing and printing of numbers and the outcome of file calls; then, for each kind of
  model, the status of a creation and what the runs on the created context return. The text tuner only
  measures the whole time of its rounds. A context may differ from run to run: the index is the run's.
\<close>

record 'f tune_env =
  bn_machine :: machine
  bn_stod :: "string \<Rightarrow> 'f option"
  bn_show :: "'f \<Rightarrow> string"
  bn_calls :: write_calls
  bn_text_open :: "text_options \<Rightarrow> nat \<Rightarrow> status"
  bn_text_ms :: "text_options \<Rightarrow> string list list \<Rightarrow> 'f"
  bn_rerank_open :: "reranker_options \<Rightarrow> status"
  bn_rerank_run :: "reranker_options \<Rightarrow> string \<Rightarrow> string list \<Rightarrow> nat \<Rightarrow> status \<times> 'f"
  bn_sparse_open :: "'f sparse_options \<Rightarrow> status"
  bn_sparse_run :: "'f sparse_options \<Rightarrow> string list \<Rightarrow> nat \<Rightarrow> status \<times> 'f"
  bn_image_open :: "image_options \<Rightarrow> status"
  bn_image_run :: "image_options \<Rightarrow> nat list list \<Rightarrow> nat \<Rightarrow> status \<times> 'f"

definition AUTOTUNE_QUICK :: int where "AUTOTUNE_QUICK = 0"

text \<open>The latency that marks a configuration that could not be measured.\<close>

definition SENTINEL :: "'f::linordered_field" where "SENTINEL = 999999"

text \<open>The times of the runs that succeeded, and the median they are summarised by.\<close>

fun run_times :: "(nat \<Rightarrow> status \<times> 'f) \<Rightarrow> nat list \<Rightarrow> 'f list" where
  "run_times run [] = []"
| "run_times run (i # is) = (case run i of (s, t) \<Rightarrow> if s = OK then t # run_times run is else run_times run is)"

definition median_time :: "'f::floor_ceiling list \<Rightarrow> 'f" where
  "median_time ts = percentile_sorted (sort ts) (1 / 2)"

text \<open>\<open>(1000.0 / p50) * n\<close>, or 0 for a median that is not positive.\<close>

definition rate_at :: "'f::linordered_field \<Rightarrow> nat \<Rightarrow> 'f" where
  "rate_at p50 n = (if p50 > 0 then (1000 / p50) * of_nat n else 0)"

text \<open>A clock that always shows the same time.\<close>

lemma constant_times: "run_times (\<lambda>i. (OK, c)) is = replicate (length is) c"
  by (induction "is") simp_all

lemma constant_percentile:
  fixes c :: "'f::floor_ceiling"
  assumes "0 < n" and "0 \<le> p" and "p \<le> 1"
  shows "percentile_sorted (replicate n c) p = c"
proof -
  have "p * of_nat (n - 1) \<le> of_int (int (n - 1))" using mult_right_mono [OF assms(3), of "of_nat (n - 1)"] by simp
  then have "\<lceil>p * of_nat (n - 1)\<rceil> \<le> int (n - 1)" by (rule ceiling_le)
  then have "nat \<lceil>p * of_nat (n - 1)\<rceil> < n" using assms(1) by linarith
  moreover have "nat \<lfloor>p * of_nat (n - 1)\<rfloor> \<le> nat \<lceil>p * of_nat (n - 1)\<rceil>" by (intro nat_mono floor_le_ceiling)
  ultimately have "replicate n c ! nat \<lfloor>p * of_nat (n - 1)\<rfloor> = c" "replicate n c ! nat \<lceil>p * of_nat (n - 1)\<rceil> = c"
    using nth_replicate le_less_trans by metis+
  then show ?thesis using assms(1) unfolding percentile_sorted_def Let_def by auto
qed

section \<open>Keeping the best\<close>

fun keep_best :: "('a \<Rightarrow> 'a \<Rightarrow> bool) \<Rightarrow> 'a \<Rightarrow> 'a list \<Rightarrow> 'a" where
  "keep_best better best [] = best"
| "keep_best better best (x # xs) = keep_best better (if better x best then x else best) xs"

text \<open>
  A strict weak order: the loop ends with its start if nothing is better, else with the first of the
  entries that nothing beats.
\<close>

locale ranking =
  fixes better :: "'a \<Rightarrow> 'a \<Rightarrow> bool"
  assumes asym: "better x y \<Longrightarrow> \<not> better y x"
    and negtrans: "\<not> better x y \<Longrightarrow> \<not> better y z \<Longrightarrow> \<not> better x z"
begin

lemma irrefl: "\<not> better x x" using asym by blast

lemma trans_left: "better x y \<Longrightarrow> \<not> better z y \<Longrightarrow> better x z" using negtrans by blast

lemma better_trans: "better x y \<Longrightarrow> better y z \<Longrightarrow> better x z" using negtrans asym by blast

lemma keep_best_cases:
  obtains "keep_best better b xs = b" "\<forall>x \<in> set xs. \<not> better x b"
  | r pre post where "keep_best better b xs = r" "xs = pre @ r # post" "better r b"
      "\<forall>x \<in> set pre. better r x" "\<forall>x \<in> set post. \<not> better x r"
proof -
  have "(keep_best better b xs = b \<and> (\<forall>x \<in> set xs. \<not> better x b)) \<or>
    (\<exists>r pre post. keep_best better b xs = r \<and> xs = pre @ r # post \<and> better r b \<and>
       (\<forall>x \<in> set pre. better r x) \<and> (\<forall>x \<in> set post. \<not> better x r))"
  proof (induction xs arbitrary: b)
    case (Cons x xs)
    show ?case
    proof (cases "better x b")
      case True
      from Cons.IH [of x] show ?thesis
      proof (elim disjE exE conjE)
        assume "keep_best better x xs = x" "\<forall>y \<in> set xs. \<not> better y x"
        with True show ?thesis by (intro disjI2 exI [of _ x] exI [of _ "[]"] exI [of _ xs]) simp
      next
        fix r pre post assume r: "keep_best better x xs = r" "xs = pre @ r # post" "better r x"
          "\<forall>y \<in> set pre. better r y" "\<forall>y \<in> set post. \<not> better y r"
        with True better_trans [of r x b] show ?thesis
          by (intro disjI2 exI [of _ r] exI [of _ "x # pre"] exI [of _ post]) simp
      qed
    next
      case False
      from Cons.IH [of b] show ?thesis
      proof (elim disjE exE conjE)
        fix r pre post assume r: "keep_best better b xs = r" "xs = pre @ r # post" "better r b"
          "\<forall>y \<in> set pre. better r y" "\<forall>y \<in> set post. \<not> better y r"
        with False trans_left [of r b x] show ?thesis
          by (intro disjI2 exI [of _ r] exI [of _ "x # pre"] exI [of _ post]) simp
      qed (use False in auto)
    qed
  qed simp
  then show thesis using that by blast
qed

lemma keep_best_unbeaten: "\<forall>x \<in> set (b # xs). \<not> better x (keep_best better b xs)"
proof (cases rule: keep_best_cases [of b xs])
  case 1
  then show ?thesis using irrefl by simp
next
  case (2 r pre post)
  then show ?thesis using asym irrefl by auto
qed

lemma keep_best_in: "keep_best better b xs \<in> set (b # xs)"
  by (cases rule: keep_best_cases [of b xs]) auto

lemma keep_best_none: "\<forall>x \<in> set xs. \<not> better x b \<Longrightarrow> keep_best better b xs = b"
  by (induction xs) auto

end

text \<open>Comparing a key is a strict weak order.\<close>

lemma ranking_less: "ranking (\<lambda>x y. (f x :: 'b::linorder) < f y)"
  by unfold_locales (simp_all add: not_less)

lemma ranking_greater: "ranking (\<lambda>x y. (f x :: 'b::linorder) > f y)"
  by unfold_locales (simp_all add: not_less)

section \<open>Entries of the text cache\<close>

text \<open>
  One line of an entry is offered to the readers of its fields in turn, and the first that succeeds takes
  it; the number of lines taken is counted.
\<close>

datatype ('f, 'r) field = IntField string "int \<Rightarrow> 'r \<Rightarrow> 'r" | NumField string "'f \<Rightarrow> 'r \<Rightarrow> 'r"

fun read_field :: "(string \<Rightarrow> 'f::floor_ceiling option) \<Rightarrow> ('f, 'r) field \<Rightarrow> string \<Rightarrow> ('r \<Rightarrow> 'r) option" where
  "read_field stod (IntField key upd) line = map_option upd (json_number_int stod line key)"
| "read_field stod (NumField key upd) line = map_option upd (json_number stod line key)"

fun read_line :: "(string \<Rightarrow> 'f::floor_ceiling option) \<Rightarrow> ('f, 'r) field list \<Rightarrow> 'r \<times> nat \<Rightarrow> string \<Rightarrow> 'r \<times> nat" where
  "read_line stod [] acc line = acc"
| "read_line stod (f # fs) acc line =
     (case read_field stod f line of Some upd \<Rightarrow> (upd (fst acc), Suc (snd acc)) | None \<Rightarrow> read_line stod fs acc line)"

definition entry_path :: "machine \<Rightarrow> string \<Rightarrow> cache_identity \<Rightarrow> string" where
  "entry_path m subdir i =
     get_cache_path m (Some (id_model i)) subdir (cache_variant_key (Some (id_variant i)) (id_corpus i) (id_objective i) (id_mode i))"

definition read_tuning_entry ::
    "'f::floor_ceiling tune_env \<Rightarrow> string \<Rightarrow> cache_identity \<Rightarrow> ('f, 'r) field list \<Rightarrow> 'r \<Rightarrow> nat \<Rightarrow> fsys \<Rightarrow> 'r option" where
  "read_tuning_entry env subdir i readers zero expected fs =
     (let path = entry_path (bn_machine env) subdir i in
      if \<not> cache_identity_matches (bn_stod env) fs path i then None
      else (case map_of fs path of
              None \<Rightarrow> None
            | Some content \<Rightarrow>
                (case foldl (read_line (bn_stod env) readers) (zero, 0) (getlines content) of
                   (r, found) \<Rightarrow> if found < expected then None else Some r)))"

text \<open>The text of an entry: the identity, one line per number, a comma behind all but the last.\<close>

fun value_lines :: "(string \<times> string) list \<Rightarrow> string list" where
  "value_lines [] = []"
| "value_lines [(k, v)] = [field_line k v]"
| "value_lines ((k, v) # kvs) = number_line k v # value_lines kvs"

definition entry_text :: "cache_identity \<Rightarrow> (string \<times> string) list \<Rightarrow> string" where
  "entry_text i kvs = opening_brace @ write_cache_identity i @ concat (map (\<lambda>l. l @ newline) (value_lines kvs @ [''}'']))"

definition write_entry :: "'f tune_env \<Rightarrow> string \<Rightarrow> cache_identity \<Rightarrow> (string \<times> string) list \<Rightarrow> fsys \<Rightarrow> fsys" where
  "write_entry env subdir i kvs fs =
     last (fst (write_file_atomic (bn_calls env) (entry_path (bn_machine env) subdir i) (entry_text i kvs) fs))"

section \<open>Reading what was written\<close>

text \<open>A number that printing and parsing preserve, and the writes that succeed.\<close>

definition writes_work :: "'f::floor_ceiling tune_env \<Rightarrow> bool" where
  "writes_work env \<longleftrightarrow> open_ok (bn_calls env) \<and> flush_ok (bn_calls env) \<and> (rename_ok (bn_calls env) \<or> retry_ok (bn_calls env)) \<and>
     (\<forall>j. bn_stod env (show_int j) = Some (of_int j))"

definition field_key :: "('f, 'r) field \<Rightarrow> string" where
  "field_key f = (case f of IntField k _ \<Rightarrow> k | NumField k _ \<Rightarrow> k)"

definition value_text :: "string \<Rightarrow> bool" where
  "value_text v \<longleftrightarrow> v \<noteq> [] \<and> plain v \<and> (\<forall>c \<in> set v. \<not> is_trimmed c)"

lemma value_text_int [simp]: "value_text (show_int j)"
  using show_int_plain [of j] by (simp add: value_text_def plain_def)

lemma value_text_exact: "prints_exactly stod show_num x \<Longrightarrow> value_text (show_num x)"
  by (simp add: prints_exactly_def value_text_def)

lemma read_line_none:
  "(\<And>f. f \<in> set readers \<Longrightarrow> json_number stod line (field_key f) = None) \<Longrightarrow> read_line stod readers acc line = acc"
proof (induction readers)
  case (Cons f readers)
  have "read_field stod f line = None"
    using Cons.prems [of f] by (cases f) (simp_all add: field_key_def json_number_int_def)
  with Cons show ?case by simp
qed simp

definition plain_keys :: "('f, 'r) field list \<Rightarrow> bool" where
  "plain_keys readers \<longleftrightarrow> (\<forall>f \<in> set readers. quote_free (field_key f) \<and> field_key f \<noteq> '': '' \<and>
     field_key f \<notin> {''model'', ''variant'', ''corpus'', ''objective'', ''mode''})"

lemma read_identity:
  assumes "plain_keys readers" and "plain_identity i"
  shows "foldl (read_line stod readers) acc (''{'' # identity_lines i) = acc"
proof -
  have k: "quote_free (field_key f)" "field_key f \<noteq> '': ''" "field_key f \<notin> {''model'', ''variant'', ''corpus'', ''objective'', ''mode''}"
    if "f \<in> set readers" for f using assms(1) that by (auto simp: plain_keys_def)
  have i: "quote_free (id_model i)" "quote_free (id_variant i)" "quote_free (id_corpus i)"
    using assms(2) by (simp_all add: plain_identity_def plain_def)
  have s: "read_line stod readers acc (string_line key v) = acc"
    if "key \<in> {''model'', ''variant'', ''corpus''}" "quote_free v" for key v acc
  proof (rule read_line_none)
    fix f assume f: "f \<in> set readers"
    have "quote_free key" using that(1) by auto
    then show "json_number stod (string_line key v) (field_key f) = None"
      using k [OF f] that by (intro json_number_string_line) auto
  qed
  have n: "read_line stod readers acc (number_line key (show_int j)) = acc" if "key \<in> {''objective'', ''mode''}" for key j acc
  proof (rule read_line_none)
    fix f assume f: "f \<in> set readers"
    have "quote_free key" using that by auto
    then show "json_number stod (number_line key (show_int j)) (field_key f) = None"
      using k [OF f] that json_number_lines(2) [of "field_key f" key "show_int j"] show_int_plain [of j]
      by (auto simp: number_line_def)
  qed
  have b: "read_line stod readers acc ''{'' = acc" for acc by (rule read_line_none) (simp add: json_brace)
  show ?thesis using i by (simp add: identity_lines_def b s n)
qed

lemma read_brace: "read_line stod readers acc ''}'' = acc"
  by (rule read_line_none) (simp add: json_number_value)

text \<open>A line of a value reaches the field of its key, or none.\<close>

definition takes :: "(string \<Rightarrow> 'f::floor_ceiling option) \<Rightarrow> ('f, 'r) field \<Rightarrow> string \<Rightarrow> ('r \<Rightarrow> 'r) option" where
  "takes stod f v = (case f of
      IntField _ u \<Rightarrow> (case stod v of None \<Rightarrow> None | Some d \<Rightarrow>
         if of_int INT_MIN \<le> d \<and> d \<le> of_int INT_MAX then Some (u (trunc d)) else None)
    | NumField _ u \<Rightarrow> map_option u (stod v))"

definition take_value :: "(string \<Rightarrow> 'f::floor_ceiling option) \<Rightarrow> ('f, 'r) field list \<Rightarrow> 'r \<times> nat \<Rightarrow> string \<times> string \<Rightarrow> 'r \<times> nat" where
  "take_value stod readers acc kv =
     (case find (\<lambda>f. field_key f = fst kv \<and> takes stod f (snd kv) \<noteq> None) readers of
        None \<Rightarrow> acc | Some f \<Rightarrow> (the (takes stod f (snd kv)) (fst acc), Suc (snd acc)))"

lemma read_field_value:
  assumes "quote_free (field_key f)" and "quote_free k" and "value_text v" and "rest = v \<or> rest = v @ '',''"
  shows "read_field stod f (field_line k rest) = (if field_key f = k then takes stod f v else None)"
proof -
  have "json_number stod (field_line k rest) (field_key f) = (if field_key f = k then stod v else None)"
    using assms by (intro json_number_line) (simp_all add: value_text_def plain_def)
  then show ?thesis
    by (cases f) (auto simp: field_key_def takes_def json_number_int_def not_less split: option.split)
qed

lemma read_line_value:
  assumes "\<forall>f \<in> set readers. quote_free (field_key f)" and "quote_free k" and "value_text v" and "rest = v \<or> rest = v @ '',''"
  shows "read_line stod readers acc (field_line k rest) = take_value stod readers acc (k, v)"
  using assms(1)
proof (induction readers)
  case (Cons f readers)
  then show ?case
    using read_field_value [OF _ assms(2-4), of f stod] by (auto simp: take_value_def split: option.split)
qed (simp add: take_value_def)

definition entry_values :: "(string \<times> string) list \<Rightarrow> bool" where
  "entry_values kvs \<longleftrightarrow> (\<forall>(k, v) \<in> set kvs. plain k \<and> value_text v)"

lemma read_values:
  assumes "\<forall>f \<in> set readers. quote_free (field_key f)" and "entry_values kvs"
  shows "foldl (read_line stod readers) acc (value_lines kvs) = foldl (take_value stod readers) acc kvs"
  using assms(2)
proof (induction kvs arbitrary: acc rule: value_lines.induct)
  case (2 k v)
  then show ?case using read_line_value [OF assms(1), of k v] by (simp add: entry_values_def plain_def)
next
  case (3 k v kv kvs)
  then have "plain k" "value_text v" "entry_values (kv # kvs)" by (auto simp: entry_values_def)
  with 3(1) show ?case
    using read_line_value [OF assms(1), of k v "v @ '',''" stod acc] by (simp add: number_line_def plain_def)
qed simp

lemma value_lines_newline: "entry_values kvs \<Longrightarrow> l \<in> set (value_lines kvs) \<Longrightarrow> CHR 0x0A \<notin> set l"
  by (induction kvs rule: value_lines.induct)
    (auto simp: entry_values_def field_line_def number_line_def plain_def value_text_def)

text \<open>An entry that was written is read back, value by value.\<close>

lemma read_written:
  assumes "writes_work env" and "plain_identity i" and "plain_keys readers" and "entry_values kvs"
  shows "read_tuning_entry env subdir i readers zero expected (write_entry env subdir i kvs fs) =
    (case foldl (take_value (bn_stod env) readers) (zero, 0) kvs of (r, found) \<Rightarrow> if found < expected then None else Some r)"
proof -
  let ?fs = "write_entry env subdir i kvs fs" and ?path = "entry_path (bn_machine env) subdir i"
  have w: "open_ok (bn_calls env)" "flush_ok (bn_calls env)" "rename_ok (bn_calls env) \<or> retry_ok (bn_calls env)"
    and stod: "\<And>j. bn_stod env (show_int j) = Some (of_int j)" using assms(1) by (simp_all add: writes_work_def)
  have saved: "map_of ?fs ?path = Some (entry_text i kvs)"
    unfolding write_entry_def by (rule write_succeeds [OF w])
  have match: "cache_identity_matches (bn_stod env) ?fs ?path i"
    using identity_in_file [OF assms(2) stod, of ?fs ?path] saved by (simp add: entry_text_def)
  have free: "\<forall>f \<in> set readers. quote_free (field_key f)" using assms(3) by (simp add: plain_keys_def)
  have nl: "\<forall>l \<in> set (value_lines kvs @ [''}'']). CHR 0x0A \<notin> set l"
    using value_lines_newline [OF assms(4)] by auto
  have "getlines (entry_text i kvs) = (''{'' # identity_lines i) @ value_lines kvs @ [''}'']"
    using getlines_lines [OF nl, of "[]"] getlines_lines [OF newline_free_lines [OF assms(2)]] getlines_line [of "''{''"]
    by (simp add: entry_text_def opening_brace_def write_cache_identity_def getlines.simps [of "[]"])
  then have "foldl (read_line (bn_stod env) readers) (zero, 0) (getlines (entry_text i kvs)) =
      foldl (take_value (bn_stod env) readers) (zero, 0) kvs"
    using read_identity [OF assms(3,2), where acc = "(zero, 0)" and stod = "bn_stod env"]
      read_values [OF free assms(4), of "bn_stod env" "(zero, 0)"]
    by (simp only: foldl_append read_brace foldl.simps)
  then show ?thesis using match saved by (simp add: read_tuning_entry_def Let_def)
qed

text \<open>A write leaves every other path alone, except the temporary one.\<close>

lemma write_entry_other:
  assumes "p \<noteq> entry_path (bn_machine env) subdir i" and "p \<noteq> entry_path (bn_machine env) subdir i @ ''.tmp''"
  shows "map_of (write_entry env subdir i kvs fs) p = map_of fs p"
  using assms by (simp add: write_entry_def write_file_atomic_def Let_def)

end
