(* ===== verification/AutotuneText.thy ===== *)
theory AutotuneText
  imports TuneBench
begin

text \<open>
  The auto-tuner of dense text models (\<open>detail/autotune_bench_text.hpp\<close>, \<open>autotune_bench_text_custom.hpp\<close>
  and its entry points in \<open>src/python/csrc/libembedding_shlib.cpp\<close>): the grid of workers, threads and batch
  sizes, the measurement of one configuration, the score, and the text cache of the result. \<open>None\<close> is
  undefined behaviour or an exception that leaves the C interface.
\<close>

section \<open>Results and their cache\<close>

record 'f text_tuning =
  tt_workers :: int
  tt_threads :: int
  tt_batch :: int
  tt_throughput :: 'f
  tt_latency :: 'f
  tt_memory :: 'f

definition text_zero :: "'f::zero text_tuning" where
  "text_zero = \<lparr>tt_workers = 0, tt_threads = 0, tt_batch = 0, tt_throughput = 0, tt_latency = 0, tt_memory = 0\<rparr>"

definition text_cache_identity :: "string option \<Rightarrow> string option \<Rightarrow> string \<Rightarrow> int \<Rightarrow> cache_identity" where
  "text_cache_identity code variant corpus mode =
     \<lparr>id_model = (case code of None \<Rightarrow> [] | Some m \<Rightarrow> m), id_variant = (case variant of None \<Rightarrow> [] | Some v \<Rightarrow> v),
      id_corpus = corpus, id_objective = -1, id_mode = mode\<rparr>"

definition text_values :: "('f \<Rightarrow> string) \<Rightarrow> 'f text_tuning \<Rightarrow> (string \<times> string) list" where
  "text_values show_num r =
     [(''workers'', show_int (tt_workers r)), (''threads'', show_int (tt_threads r)), (''batch_size'', show_int (tt_batch r)),
      (''throughput_docs_sec'', show_num (tt_throughput r)), (''latency_ms'', show_num (tt_latency r)),
      (''memory_mb'', show_num (tt_memory r))]"

definition write_text_cache :: "'f tune_env \<Rightarrow> cache_identity \<Rightarrow> 'f text_tuning \<Rightarrow> fsys \<Rightarrow> fsys" where
  "write_text_cache env i r fs = write_entry env [] i (text_values (bn_show env) r) fs"

definition text_fields :: "('f, 'f text_tuning) field list" where
  "text_fields =
     [IntField ''workers'' (\<lambda>v r. r\<lparr>tt_workers := v\<rparr>), IntField ''threads'' (\<lambda>v r. r\<lparr>tt_threads := v\<rparr>),
      IntField ''batch_size'' (\<lambda>v r. r\<lparr>tt_batch := v\<rparr>), NumField ''throughput_docs_sec'' (\<lambda>v r. r\<lparr>tt_throughput := v\<rparr>),
      NumField ''latency_ms'' (\<lambda>v r. r\<lparr>tt_latency := v\<rparr>), NumField ''memory_mb'' (\<lambda>v r. r\<lparr>tt_memory := v\<rparr>)]"

definition read_text_cache :: "'f::floor_ceiling tune_env \<Rightarrow> cache_identity \<Rightarrow> fsys \<Rightarrow> 'f text_tuning option" where
  "read_text_cache env i fs = read_tuning_entry env [] i text_fields text_zero 6 fs"

section \<open>The corpus\<close>

definition bench_words :: "string list" where
  "bench_words =
    [''the'', ''quick'', ''brown'', ''fox'', ''jumps'', ''over'', ''lazy'', ''dog'',
     ''machine'', ''learning'', ''algorithms'', ''process'', ''data'', ''efficiently'',
     ''natural'', ''language'', ''processing'', ''enables'', ''understanding'', ''semantic'',
     ''embeddings'', ''represent'', ''meaningful'', ''vector'', ''representations'',
     ''transformer'', ''models'', ''utilize'', ''attention'', ''mechanisms'',
     ''deep'', ''neural'', ''networks'', ''learn'', ''patterns'', ''from'', ''training'',
     ''optimization'', ''techniques'', ''improve'', ''convergence'', ''accuracy'',
     ''inference'', ''latency'', ''throughput'', ''benchmark'', ''performance'',
     ''production'', ''deployment'', ''scalable'', ''reliable'', ''systems'']"

definition bench_lengths :: "nat list" where
  "bench_lengths = [16, 16, 16, 16, 64, 64, 64, 64, 128, 128]"

definition bench_text :: "nat \<Rightarrow> string" where
  "bench_text i =
     foldl (\<lambda>text j. (if j > 0 then text @ '' '' else text) @ bench_words ! ((i * 7 + j) mod length bench_words))
       [] [0..<bench_lengths ! (i mod length bench_lengths)]"

definition generate_corpus :: "nat \<Rightarrow> string list" where
  "generate_corpus n_samples = map bench_text [0..<n_samples]"

section \<open>Measuring one configuration\<close>

text \<open>The texts of worker \<open>i\<close>: the last one takes the rest.\<close>

definition worker_texts :: "string list \<Rightarrow> nat \<Rightarrow> nat \<Rightarrow> string list" where
  "worker_texts corpus workers i =
     (let n = length corpus; per = n div workers; start = i * per;
          cnt = (if i = workers - 1 then n - start else per)
      in take cnt (drop start corpus))"

definition worker_options :: "int \<Rightarrow> int \<Rightarrow> text_options" where
  "worker_options threads batch =
     lembed_text_options_default\<lparr>o_num_threads := threads, o_batch_size := batch, o_offline := True\<rparr>"

text \<open>The rate and the latency written to \<open>out_latency_ms\<close>, which starts at 0. The statuses of the calls are not read.\<close>

definition benchmark_text_config ::
    "'f::floor_ceiling tune_env \<Rightarrow> string list \<Rightarrow> int \<Rightarrow> int \<Rightarrow> int \<Rightarrow> ('f \<times> 'f) option" where
  "benchmark_text_config env corpus workers threads batch =
     (if corpus = [] then Some (0, 0)
      else if workers \<le> 0 then None
      else
        let opts = worker_options threads batch; w = nat workers in
        if list_ex (\<lambda>i. bn_text_open env opts i \<noteq> OK) [0..<w] then Some (0, 0)
        else
          let ms = bn_text_ms env opts (map (worker_texts corpus w) [0..<w]);
              texts = 3 * of_nat (length corpus)
          in if ms \<le> 0 then Some (0, 0) else Some (texts / (ms / 1000), ms / texts))"

definition score_text_config :: "'f::linordered_field \<Rightarrow> 'f \<Rightarrow> 'f \<Rightarrow> 'f" where
  "score_text_config thr lat mem =
     thr - (if mem > 500 then (mem - 500) / 100 else 0) - (if lat > 20 then (lat - 20) / 5 else 0)"

section \<open>The grid\<close>

definition text_grid :: "int \<Rightarrow> int \<Rightarrow> (int \<times> int \<times> int) list" where
  "text_grid mode cores =
     (if mode = AUTOTUNE_QUICK
      then map (\<lambda>w. (w, 1, 32)) (filter (\<lambda>w. \<not> w > cores) [1, min 4 cores, min 8 cores])
      else concat (map (\<lambda>w. if w > cores then []
             else concat (map (\<lambda>t. if w * t > cores then [] else map (\<lambda>b. (w, t, b)) [16, 32, 64, 128, 256]) [1, 2, 4]))
           [1, 2, 4, 8, 16]))"

fun text_loop ::
    "'f::floor_ceiling tune_env \<Rightarrow> string list \<Rightarrow> (int \<times> int \<times> int) list \<Rightarrow> 'f \<Rightarrow> nat \<Rightarrow> 'f text_tuning
      \<Rightarrow> (nat \<times> 'f text_tuning) option" where
  "text_loop env corpus [] best_score benchmarked best = Some (benchmarked, best)"
| "text_loop env corpus ((w, t, b) # cfgs) best_score benchmarked best =
     (case benchmark_text_config env corpus w t b of
        None \<Rightarrow> None
      | Some (thr, lat) \<Rightarrow>
          if thr \<le> 0 then text_loop env corpus cfgs best_score benchmarked best
          else
            let mem = of_int w * 100; score = score_text_config thr lat mem in
            if score > best_score
            then text_loop env corpus cfgs score (Suc benchmarked)
                   \<lparr>tt_workers = w, tt_threads = t, tt_batch = b, tt_throughput = thr, tt_latency = lat, tt_memory = mem\<rparr>
            else text_loop env corpus cfgs best_score (Suc benchmarked) best)"

text \<open>The status, what is stored in \<open>*result\<close> if anything is, and the file system.\<close>

definition bench_corpus :: "string list \<Rightarrow> int \<Rightarrow> string list" where
  "bench_corpus corpus mode = (if corpus = [] then generate_corpus (if mode = AUTOTUNE_QUICK then 16 else 64) else corpus)"

definition text_identity :: "model_info \<Rightarrow> string list \<Rightarrow> int \<Rightarrow> cache_identity" where
  "text_identity info corpus mode =
     text_cache_identity (Some (model_code info)) (Some (if corpus = [] then ''synthetic'' else ''custom''))
       (corpus_fingerprint (bench_corpus corpus mode)) mode"

definition autotune_text_impl ::
    "'f::floor_ceiling tune_env \<Rightarrow> int \<Rightarrow> string list \<Rightarrow> int \<Rightarrow> fsys \<Rightarrow> (status \<times> 'f text_tuning option \<times> fsys) option" where
  "autotune_text_impl env model corpus mode fs =
     (case lembed_get_text_model_info model True of
        (OK, Some info) \<Rightarrow>
          let cores = logical_cores (bn_machine env); i = text_identity info corpus mode in
          (case read_text_cache env i fs of
             Some cached \<Rightarrow> Some (OK, Some cached, fs)
           | None \<Rightarrow>
               (case text_loop env (bench_corpus corpus mode) (text_grid mode cores) (- (10 ^ 18)) 0
                       \<lparr>tt_workers = 1, tt_threads = 1, tt_batch = 64, tt_throughput = 0, tt_latency = 0, tt_memory = 0\<rparr> of
                  None \<Rightarrow> None
                | Some (benchmarked, best) \<Rightarrow>
                    if benchmarked = 0 then Some (ONNX_RUNTIME, Some text_zero, fs)
                    else Some (OK, Some best, write_text_cache env i best fs)))
      | _ \<Rightarrow> Some (MODEL_NOT_FOUND, None, fs))"

section \<open>Entry points\<close>

definition lembed_autotune ::
    "'f::floor_ceiling tune_env \<Rightarrow> string option \<Rightarrow> int \<Rightarrow> bool \<Rightarrow> fsys \<Rightarrow> (status \<times> 'f text_tuning option \<times> fsys) option" where
  "lembed_autotune env name mode result_ok fs =
     (if name = None \<or> \<not> result_ok then Some (INVALID_ARGUMENT, None, fs)
      else let idx = fst (lembed_resolve_text_model name) in
        if idx < 0 then Some (MODEL_NOT_FOUND, None, fs) else autotune_text_impl env idx [] mode fs)"

definition c_texts :: "string option list \<Rightarrow> string list" where
  "c_texts texts = map (\<lambda>t. case t of None \<Rightarrow> [] | Some s \<Rightarrow> c_str s) texts"

definition lembed_autotune_custom ::
    "'f::floor_ceiling tune_env \<Rightarrow> string option \<Rightarrow> string option list option \<Rightarrow> int \<Rightarrow> int \<Rightarrow> bool \<Rightarrow> fsys
      \<Rightarrow> (status \<times> 'f text_tuning option \<times> fsys) option" where
  "lembed_autotune_custom env name texts n_texts mode result_ok fs =
     (case (name, texts) of
        (Some _, Some ts) \<Rightarrow>
          if n_texts \<le> 0 \<or> \<not> result_ok then Some (INVALID_ARGUMENT, None, fs)
          else let idx = fst (lembed_resolve_text_model name) in
            if idx < 0 then Some (MODEL_NOT_FOUND, None, fs)
            else if nat n_texts > length ts then None
            else (case autotune_text_impl env idx (c_texts (take (nat n_texts) ts)) mode fs of
                    Some (s, None, fs1) \<Rightarrow> Some (s, Some text_zero, fs1)
                  | r \<Rightarrow> r)
      | _ \<Rightarrow> Some (INVALID_ARGUMENT, None, fs))"

definition lembed_autotune_clear_cache :: "machine \<Rightarrow> string list \<Rightarrow> string option \<Rightarrow> fsys \<Rightarrow> fsys" where
  "lembed_autotune_clear_cache m subdirs name fs =
     (case name of
        None \<Rightarrow> clear_autotune_cache m subdirs None [] fs
      | Some _ \<Rightarrow>
          let idx = fst (lembed_resolve_text_model name) in
          if idx < 0 then fs else clear_autotune_cache m subdirs (Some (model_code (text_models ! nat idx))) [] fs)"

section \<open>Facts\<close>

text \<open>What one configuration contributes: its score and its result.\<close>

definition text_candidate ::
    "'f::floor_ceiling tune_env \<Rightarrow> string list \<Rightarrow> int \<times> int \<times> int \<Rightarrow> ('f \<times> 'f text_tuning) option" where
  "text_candidate env corpus cfg =
     (case cfg of (w, t, b) \<Rightarrow>
        (case benchmark_text_config env corpus w t b of
           None \<Rightarrow> None
         | Some (thr, lat) \<Rightarrow>
             if thr \<le> 0 then None
             else Some (score_text_config thr lat (of_int w * 100),
               \<lparr>tt_workers = w, tt_threads = t, tt_batch = b, tt_throughput = thr, tt_latency = lat, tt_memory = of_int w * 100\<rparr>)))"

interpretation scored: ranking "\<lambda>x y. (fst x :: 'f::floor_ceiling) > fst y"
  by (rule ranking_greater)

lemma benchmark_defined: "0 < w \<Longrightarrow> \<exists>thr lat. benchmark_text_config env corpus w t b = Some (thr, lat)"
  by (auto simp: benchmark_text_config_def Let_def)

lemma text_loop_keeps:
  assumes "\<forall>cfg \<in> set cfgs. 0 < fst cfg"
  shows "text_loop env corpus cfgs s n b =
    Some (n + length (List.map_filter (text_candidate env corpus) cfgs),
      snd (keep_best (\<lambda>x y. fst x > fst y) (s, b) (List.map_filter (text_candidate env corpus) cfgs)))"
  using assms
proof (induction cfgs arbitrary: s n b)
  case (Cons cfg cfgs)
  obtain w t bt where cfg: "cfg = (w, t, bt)" by (rule prod_cases3)
  with Cons.prems obtain thr lat where bench: "benchmark_text_config env corpus w t bt = Some (thr, lat)"
    using benchmark_defined by fastforce
  from Cons show ?case
    by (auto simp: cfg bench text_candidate_def map_filter_simps Let_def)
qed (simp add: map_filter_simps)

lemma map_filter_split:
  "List.map_filter f xs = ys @ y # zs \<Longrightarrow>
     \<exists>pre x post. xs = pre @ x # post \<and> f x = Some y \<and> List.map_filter f pre = ys \<and> List.map_filter f post = zs"
proof (induction xs arbitrary: ys)
  case (Cons x xs)
  show ?case
  proof (cases "f x")
    case None
    with Cons.prems have "List.map_filter f xs = ys @ y # zs" by (simp add: map_filter_simps)
    with Cons.IH obtain pre z post where "xs = pre @ z # post" "f z = Some y" "List.map_filter f pre = ys" "List.map_filter f post = zs"
      by blast
    with None show ?thesis by (intro exI [of _ "x # pre"] exI [of _ z] exI [of _ post]) (simp add: map_filter_simps)
  next
    case (Some v)
    show ?thesis
    proof (cases ys)
      case Nil
      with Some Cons.prems show ?thesis by (intro exI [of _ "[]"] exI [of _ x] exI [of _ xs]) (simp add: map_filter_simps)
    next
      case (Cons u us)
      with Some Cons.prems have v: "v = u" "List.map_filter f xs = us @ y # zs" by (simp_all add: map_filter_simps)
      with Cons.IH obtain pre z post where "xs = pre @ z # post" "f z = Some y" "List.map_filter f pre = us" "List.map_filter f post = zs"
        by blast
      with Some v Cons show ?thesis by (intro exI [of _ "x # pre"] exI [of _ z] exI [of _ post]) (simp add: map_filter_simps)
    qed
  qed
qed (simp add: map_filter_simps)

lemma in_map_filter: "x \<in> set xs \<Longrightarrow> f x = Some y \<Longrightarrow> y \<in> set (List.map_filter f xs)"
  by (force simp: List.map_filter_def)

text \<open>No configuration of the grid asks for more threads than there are cores.\<close>

lemma text_grid_fits:
  assumes "1 \<le> cores" and "cfg \<in> set (text_grid mode cores)"
  shows "0 < fst cfg \<and> fst cfg * fst (snd cfg) \<le> cores"
proof -
  obtain w t b where cfg: "cfg = (w, t, b)" by (rule prod_cases3)
  show ?thesis
  proof (cases "mode = AUTOTUNE_QUICK")
    case True
    with assms show ?thesis by (auto simp: text_grid_def cfg)
  next
    case False
    with assms(2) have "w \<in> {1, 2, 4, 8, 16}" "w * t \<le> cores"
      by (simp_all add: text_grid_def cfg split: if_splits) (elim disjE; simp)+
    then show ?thesis by (auto simp: cfg)
  qed
qed

lemma text_info_known:
  assumes "0 \<le> model" and "model < TEXT_MODEL_COUNT"
  shows "lembed_get_text_model_info model True = (OK, Some (text_models ! nat model))"
  using assms by (simp add: lembed_get_text_model_info_def table_info_def)

definition text_cold :: "'f::floor_ceiling tune_env \<Rightarrow> int \<Rightarrow> string list \<Rightarrow> int \<Rightarrow> fsys \<Rightarrow> bool" where
  "text_cold env model corpus mode fs \<longleftrightarrow> read_text_cache env (text_identity (text_models ! nat model) corpus mode) fs = None"

definition default_tuning :: "'f::zero text_tuning" where
  "default_tuning = \<lparr>tt_workers = 1, tt_threads = 1, tt_batch = 64, tt_throughput = 0, tt_latency = 0, tt_memory = 0\<rparr>"

lemma autotune_cold:
  assumes "0 \<le> model" and "model < TEXT_MODEL_COUNT" and "1 \<le> logical_cores (bn_machine env)" and "text_cold env model corpus mode fs"
  defines "found \<equiv> List.map_filter (text_candidate env (bench_corpus corpus mode)) (text_grid mode (logical_cores (bn_machine env)))"
  defines "best \<equiv> snd (keep_best (\<lambda>x y. fst x > fst y) (- (10 ^ 18), default_tuning) found)"
  shows "autotune_text_impl env model corpus mode fs =
    (if found = [] then Some (ONNX_RUNTIME, Some text_zero, fs)
     else Some (OK, Some best, write_text_cache env (text_identity (text_models ! nat model) corpus mode) best fs))"
proof -
  have "\<forall>cfg \<in> set (text_grid mode (logical_cores (bn_machine env))). 0 < fst cfg"
    using text_grid_fits [OF assms(3)] by blast
  then show ?thesis
    using assms(4) text_info_known [OF assms(1,2)]
    by (simp add: autotune_text_impl_def Let_def text_cold_def found_def best_def default_tuning_def text_loop_keeps)
qed

section \<open>The cache holds what was measured\<close>

lemma registry_codes_plain: "list_all (\<lambda>m. plain (model_code m)) text_models"
  by (simp add: text_models_def text_rows_1_def text_rows_2_def plain_def)

lemma hex_fixed_digits: "c \<in> set (hex_fixed k n) \<Longrightarrow> \<exists>d < 16. c = hex_digit d"
proof (induction k arbitrary: n)
  case (Suc k)
  have "n mod 16 < 16" by simp
  moreover from Suc.prems have "c \<in> set (hex_fixed k (n div 16)) \<or> c = hex_digit (n mod 16)" by auto
  ultimately show ?case using Suc.IH by blast
qed simp

lemma hash_plain: "plain (hash64_to_hex h)"
proof -
  have d: "hex_digit d \<noteq> QUOTE" "hex_digit d \<noteq> CHR 0x0A" if "d < 16" for d
    using byte_hex_digit [OF that] that by (auto simp: byte_def split: if_splits)
  have "QUOTE \<notin> set (hash64_to_hex h)" "CHR 0x0A \<notin> set (hash64_to_hex h)"
    unfolding hash64_to_hex_def using hex_fixed_digits d by metis+
  then show ?thesis by (simp add: plain_def quote_free_def)
qed

lemma text_identity_plain:
  assumes "0 \<le> model" and "model < TEXT_MODEL_COUNT"
  shows "plain_identity (text_identity (text_models ! nat model) corpus mode)"
proof -
  have "nat model < length text_models" using assms by (simp add: TEXT_MODEL_COUNT_def text_models_length)
  then have "plain (model_code (text_models ! nat model))" using registry_codes_plain by (simp add: list_all_length)
  then show ?thesis
    using hash_plain by (simp add: plain_identity_def text_identity_def text_cache_identity_def corpus_fingerprint_def plain_def)
qed

definition text_printable :: "'f::floor_ceiling tune_env \<Rightarrow> 'f text_tuning \<Rightarrow> bool" where
  "text_printable env r \<longleftrightarrow>
     (\<forall>x \<in> {tt_throughput r, tt_latency r, tt_memory r}. prints_exactly (bn_stod env) (bn_show env) x) \<and>
     (\<forall>n \<in> {tt_workers r, tt_threads r, tt_batch r}. INT_MIN \<le> n \<and> n \<le> INT_MAX)"

lemma text_cache_roundtrip:
  assumes "writes_work env" and "plain_identity i" and "text_printable env r"
  shows "read_text_cache env i (write_text_cache env i r fs) = Some r"
proof -
  have stod: "bn_stod env (show_int j) = Some (of_int j)" for j using assms(1) by (simp add: writes_work_def)
  have num: "bn_stod env (bn_show env x) = Some x" "value_text (bn_show env x)"
    if "x \<in> {tt_throughput r, tt_latency r, tt_memory r}" for x
  proof -
    have "prints_exactly (bn_stod env) (bn_show env) x" using assms(3) that unfolding text_printable_def by blast
    then show "bn_stod env (bn_show env x) = Some x" "value_text (bn_show env x)"
      by (simp_all add: value_text_exact) (simp add: prints_exactly_def)
  qed
  have int: "INT_MIN \<le> n" "n \<le> INT_MAX" if "n \<in> {tt_workers r, tt_threads r, tt_batch r}" for n
    using assms(3) that by (auto simp: text_printable_def)
  have "plain_keys text_fields" by (simp add: plain_keys_def text_fields_def field_key_def)
  moreover have "entry_values (text_values (bn_show env) r)"
    using num by (simp add: entry_values_def text_values_def plain_def)
  ultimately have "read_text_cache env i (write_text_cache env i r fs) =
      (case foldl (take_value (bn_stod env) text_fields) (text_zero, 0) (text_values (bn_show env) r) of
         (r', found) \<Rightarrow> if found < 6 then None else Some r')"
    unfolding read_text_cache_def write_text_cache_def by (rule read_written [OF assms(1,2)])
  also have "\<dots> = Some r"
    using num(1) int by (simp add: text_values_def text_fields_def take_value_def takes_def field_key_def stod trunc_def)
  finally show ?thesis .
qed

section \<open>Properties\<close>

text \<open>C37. On a cold cache the text tuner answers with the first of the configurations of its grid that scores
  highest among those that ran, never with more threads than there are cores, and records it; if none ran,
  it reports a runtime error, clears the result and records nothing.\<close>

theorem text_autotune_best:
  fixes env :: "'f::floor_ceiling tune_env"
  assumes "0 \<le> model" and "model < TEXT_MODEL_COUNT" and "1 \<le> logical_cores (bn_machine env)"
    and "text_cold env model corpus mode fs"
    and "\<forall>cfg \<in> set (text_grid mode (logical_cores (bn_machine env))). \<forall>x.
      text_candidate env (bench_corpus corpus mode) cfg = Some x \<longrightarrow> - (10 ^ 18) < fst x"
  shows "\<exists>s r fs'. autotune_text_impl env model corpus mode fs = Some (s, Some r, fs') \<and>
    (if \<exists>cfg \<in> set (text_grid mode (logical_cores (bn_machine env))). text_candidate env (bench_corpus corpus mode) cfg \<noteq> None
     then s = OK \<and> fs' = write_text_cache env (text_identity (text_models ! nat model) corpus mode) r fs \<and>
       tt_workers r * tt_threads r \<le> logical_cores (bn_machine env) \<and>
       (\<exists>pre cfg post score. text_grid mode (logical_cores (bn_machine env)) = pre @ cfg # post \<and>
          text_candidate env (bench_corpus corpus mode) cfg = Some (score, r) \<and>
          (\<forall>c \<in> set pre. \<forall>x. text_candidate env (bench_corpus corpus mode) c = Some x \<longrightarrow> fst x < score) \<and>
          (\<forall>c \<in> set post. \<forall>x. text_candidate env (bench_corpus corpus mode) c = Some x \<longrightarrow> fst x \<le> score))
     else s = ONNX_RUNTIME \<and> r = text_zero \<and> fs' = fs)"
proof -
  let ?cand = "text_candidate env (bench_corpus corpus mode)" and ?grid = "text_grid mode (logical_cores (bn_machine env))"
  let ?found = "List.map_filter ?cand ?grid"
  note run = autotune_cold [OF assms(1-4)]
  show ?thesis
  proof (cases "?found = []")
    case True
    have "?cand cfg = None" if "cfg \<in> set ?grid" for cfg
      using in_map_filter [OF that, of ?cand] True by (cases "?cand cfg") simp_all
    with True run show ?thesis by simp
  next
    case False
    then have ex: "\<exists>cfg \<in> set ?grid. ?cand cfg \<noteq> None" by (auto simp: List.map_filter_def filter_empty_conv)
    have above: "\<forall>x \<in> set ?found. fst x > fst (- (10 ^ 18) :: 'f, default_tuning :: 'f text_tuning)"
      using assms(5) by (fastforce simp: List.map_filter_def)
    show ?thesis
    proof (cases rule: scored.keep_best_cases [of "(- (10 ^ 18), default_tuning)" ?found])
      case 1
      with above False show ?thesis by (metis hd_in_set)
    next
      case (2 r pre post)
      then obtain gpre cfg gpost where split: "?grid = gpre @ cfg # gpost" "?cand cfg = Some r"
        "List.map_filter ?cand gpre = pre" "List.map_filter ?cand gpost = post" using map_filter_split [OF 2(2)] by blast
      have "tt_workers (snd r) = fst cfg \<and> tt_threads (snd r) = fst (snd cfg)"
        using split(2) by (auto simp: text_candidate_def split: prod.splits option.splits if_splits)
      then have fits: "tt_workers (snd r) * tt_threads (snd r) \<le> logical_cores (bn_machine env)"
        using text_grid_fits [OF assms(3), of cfg mode] split(1) by simp
      have "\<forall>c \<in> set gpre. \<forall>x. ?cand c = Some x \<longrightarrow> fst x < fst r"
        "\<forall>c \<in> set gpost. \<forall>x. ?cand c = Some x \<longrightarrow> fst x \<le> fst r"
        using 2(4,5) in_map_filter [of _ _ ?cand] unfolding split(3,4) [symmetric] by (auto simp: not_less)
      then have first: "\<exists>pre cfg post score. ?grid = pre @ cfg # post \<and> ?cand cfg = Some (score, snd r) \<and>
          (\<forall>c \<in> set pre. \<forall>x. ?cand c = Some x \<longrightarrow> fst x < score) \<and> (\<forall>c \<in> set post. \<forall>x. ?cand c = Some x \<longrightarrow> fst x \<le> score)"
        using split(1,2) by (intro exI [of _ gpre] exI [of _ cfg] exI [of _ gpost] exI [of _ "fst r"] conjI) simp_all
      have answer: "autotune_text_impl env model corpus mode fs =
          Some (OK, Some (snd r), write_text_cache env (text_identity (text_models ! nat model) corpus mode) (snd r) fs)"
        using run False 2(1) by simp
      show ?thesis unfolding if_P [OF ex] 
        by (intro exI [of _ OK] exI [of _ "snd r"] conjI refl fits first
            exI [of _ "write_text_cache env (text_identity (text_models ! nat model) corpus mode) (snd r) fs"] answer)
    qed
  qed
qed

text \<open>C28. The tuner never loads the model it is asked to tune: the options of its workers are the defaults,
  so any two models of the registry get the same status and the same result on a cold cache.\<close>

theorem autotune_ignores_model:
  assumes "0 \<le> m1" and "m1 < TEXT_MODEL_COUNT" and "0 \<le> m2" and "m2 < TEXT_MODEL_COUNT"
    and "1 \<le> logical_cores (bn_machine env)" and "text_cold env m1 corpus mode fs" and "text_cold env m2 corpus mode fs"
  shows "map_option (\<lambda>(s, r, _). (s, r)) (autotune_text_impl env m1 corpus mode fs) =
    map_option (\<lambda>(s, r, _). (s, r)) (autotune_text_impl env m2 corpus mode fs)"
  using autotune_cold [OF assms(1,2,5,6)] autotune_cold [OF assms(3,4,5,7)] by simp

text \<open>A tuning that was recorded is served again: the second call returns the same result whatever would be
  measured now, and leaves the files as they are. It holds when the write succeeds and printing and
  parsing preserve the numbers.\<close>

theorem autotune_cached:
  assumes "0 \<le> model" and "model < TEXT_MODEL_COUNT" and "1 \<le> logical_cores (bn_machine env)"
    and "text_cold env model corpus mode fs" and "writes_work env"
    and "autotune_text_impl env model corpus mode fs = Some (OK, Some r, fs1)" and "text_printable env r"
    and "bn_machine later = bn_machine env" and "bn_stod later = bn_stod env"
  shows "autotune_text_impl later model corpus mode fs1 = Some (OK, Some r, fs1)"
proof -
  have fs1: "fs1 = write_text_cache env (text_identity (text_models ! nat model) corpus mode) r fs"
    using assms(6) autotune_cold [OF assms(1-4)] by (auto split: if_splits)
  have "read_text_cache later i fs1 = read_text_cache env i fs1" for i
    unfolding read_text_cache_def read_tuning_entry_def assms(8,9) ..
  then have "read_text_cache later (text_identity (text_models ! nat model) corpus mode) fs1 = Some r"
    using text_cache_roundtrip [OF assms(5) text_identity_plain [OF assms(1,2)] assms(7)] fs1 by simp
  then show ?thesis using text_info_known [OF assms(1,2)] by (simp add: autotune_text_impl_def Let_def)
qed

section \<open>A sample machine\<close>

text \<open>
  Every worker opens. A round takes a time that depends on the number of its workers only. The clock of
  the other runs depends on the batch size.
\<close>

definition sample_tune_env :: "rat tune_env" where
  "sample_tune_env = \<lparr>bn_machine = sample_machine, bn_stod = sample_stod, bn_show = sample_print, bn_calls = all_calls_ok,
     bn_text_open = \<lambda>opts i. OK, bn_text_ms = \<lambda>opts parts. if length parts = 4 then 6 else 12,
     bn_rerank_open = \<lambda>opts. OK, bn_rerank_run = \<lambda>opts q ds i. (OK, of_int (ro_batch_size opts)),
     bn_sparse_open = \<lambda>opts. OK, bn_sparse_run = \<lambda>opts ts i. (OK, of_int (so_top_k opts)),
     bn_image_open = \<lambda>opts. OK, bn_image_run = \<lambda>opts imgs i. (OK, of_int (io_batch_size opts))\<rparr>"

lemma sample_cores: "logical_cores (bn_machine sample_tune_env) = 8"
  by (simp add: sample_tune_env_def sample_machine_def)

lemma empty_cold: "text_cold env model corpus mode []"
  by (simp add: text_cold_def read_text_cache_def read_tuning_entry_def cache_identity_matches_def json_string_in_file_def Let_def)

lemma sample_candidates:
  "text_candidate sample_tune_env [''a'', ''b''] (w, t, b) =
     (if w \<le> 0 then None
      else let thr = (if w = 4 then 1000 else 500); lat = (if w = 4 then 1 else 2) in
        Some (score_text_config thr lat (of_int w * 100),
          \<lparr>tt_workers = w, tt_threads = t, tt_batch = b, tt_throughput = thr, tt_latency = lat, tt_memory = of_int w * 100\<rparr>))"
proof -
  have n: "nat w = 4 \<longleftrightarrow> w = 4" by auto
  have "benchmark_text_config sample_tune_env [''a'', ''b''] w t b =
      (if w \<le> 0 then None else Some (if w = 4 then 1000 else 500, if w = 4 then 1 else 2))"
    by (simp add: benchmark_text_config_def sample_tune_env_def list_ex_iff n)
  then show ?thesis by (simp add: text_candidate_def Let_def)
qed

lemma quick_grid: "text_grid 0 8 = [(1, 1, 32), (4, 1, 32), (8, 1, 32)]"
  by (simp add: text_grid_def AUTOTUNE_QUICK_def)

lemma two_texts: "bench_corpus [''a'', ''b''] 0 = [''a'', ''b'']"
  by (simp add: bench_corpus_def)

theorem text_autotune_best_witness:
  "\<exists>r fs'. autotune_text_impl sample_tune_env 9 [''a'', ''b''] 0 [] = Some (OK, Some r, fs') \<and> tt_workers r * tt_threads r \<le> 8"
proof -
  note grid = quick_grid and corpus = two_texts
  have "\<forall>cfg \<in> set (text_grid 0 8). \<forall>x. text_candidate sample_tune_env [''a'', ''b''] cfg = Some x \<longrightarrow> - (10 ^ 18) < fst x"
    by (simp add: grid sample_candidates score_text_config_def Let_def)
  moreover have "text_candidate sample_tune_env [''a'', ''b''] (1, 1, 32) \<noteq> None" by (simp add: sample_candidates Let_def)
  then have "\<exists>cfg \<in> set (text_grid 0 8). text_candidate sample_tune_env [''a'', ''b''] cfg \<noteq> None" by (auto simp: grid)
  ultimately show ?thesis
    using text_autotune_best [of 9 sample_tune_env "[''a'', ''b'']" 0 "[]"] empty_cold [of sample_tune_env 9 "[''a'', ''b'']" 0]
    unfolding sample_cores corpus by (auto simp: TEXT_MODEL_COUNT_def)
qed

theorem autotune_ignores_model_witness:
  "map_option (\<lambda>(s, r, _). (s, r)) (autotune_text_impl sample_tune_env 0 [] 0 []) =
     map_option (\<lambda>(s, r, _). (s, r)) (autotune_text_impl sample_tune_env 9 [] 0 [])"
  by (rule autotune_ignores_model) (simp_all add: TEXT_MODEL_COUNT_def sample_cores empty_cold)

definition sample_tuning :: "rat text_tuning" where
  "sample_tuning = \<lparr>tt_workers = 4, tt_threads = 1, tt_batch = 32, tt_throughput = 1000, tt_latency = 1, tt_memory = 400\<rparr>"

theorem autotune_cached_witness:
  "\<exists>fs1. autotune_text_impl (sample_tune_env\<lparr>bn_text_ms := \<lambda>_ _. 1\<rparr>) 9 [''a'', ''b''] 0 fs1 = Some (OK, Some sample_tuning, fs1) \<and> fs1 \<noteq> []"
proof -
  have tm: "0 \<le> (9::int)" "9 < TEXT_MODEL_COUNT" "1 \<le> logical_cores (bn_machine sample_tune_env)"
    by (simp_all add: TEXT_MODEL_COUNT_def sample_cores)
  have "List.map_filter (text_candidate sample_tune_env [''a'', ''b'']) (text_grid 0 8) =
    [(500, \<lparr>tt_workers = 1, tt_threads = 1, tt_batch = 32, tt_throughput = 500, tt_latency = 2, tt_memory = 100\<rparr>), (1000, sample_tuning),
     (497, \<lparr>tt_workers = 8, tt_threads = 1, tt_batch = 32, tt_throughput = 500, tt_latency = 2, tt_memory = 800\<rparr>)]"
    by (simp add: quick_grid sample_candidates map_filter_simps score_text_config_def sample_tuning_def Let_def)
  then obtain fs1 where run: "autotune_text_impl sample_tune_env 9 [''a'', ''b''] 0 [] = Some (OK, Some sample_tuning, fs1)"
    and fs1: "fs1 = write_text_cache sample_tune_env (text_identity (text_models ! nat 9) [''a'', ''b''] 0) sample_tuning []"
    using autotune_cold [OF tm empty_cold, of "[''a'', ''b'']" 0] by (simp add: sample_cores two_texts)
  have works: "writes_work sample_tune_env" by (simp add: writes_work_def sample_tune_env_def all_calls_ok_def sample_stod_show)
  moreover have "text_printable sample_tune_env sample_tuning"
    using sample_prints_numeral by (simp add: text_printable_def sample_tuning_def sample_tune_env_def INT_MIN_def INT_MAX_def)
  moreover have "fs1 \<noteq> []"
  proof -
    have "map_of fs1 (entry_path (bn_machine sample_tune_env) [] (text_identity (text_models ! nat 9) [''a'', ''b''] 0)) \<noteq> None"
      unfolding fs1 write_text_cache_def write_entry_def using works write_succeeds by (simp add: writes_work_def)
    then show ?thesis by auto
  qed
  ultimately show ?thesis
    using autotune_cached [OF tm empty_cold _ run, of "sample_tune_env\<lparr>bn_text_ms := \<lambda>_ _. 1\<rparr>"] by auto
qed

end
