(* ===== verification/AutotuneReranker.thy ===== *)
theory AutotuneReranker
  imports AutotuneText
begin

text \<open>
  The auto-tuner of rerankers (\<open>detail/autotune_bench_reranker.hpp\<close>, \<open>autotune_bench_reranker_custom.hpp\<close>):
  the synthetic corpus, the measurement of one configuration, the score of each objective, the search of
  the grid, the two searches under constraints, the profiles and the text cache.
\<close>

section \<open>Results and their cache\<close>

record 'f rerank_tuning =
  rt_threads :: int
  rt_batch :: int
  rt_max_tokens :: int
  rt_throughput :: 'f
  rt_latency :: 'f
  rt_memory :: 'f
  rt_p95 :: 'f

definition rerank_zero :: "'f::zero rerank_tuning" where
  "rerank_zero = \<lparr>rt_threads = 0, rt_batch = 0, rt_max_tokens = 0, rt_throughput = 0, rt_latency = 0, rt_memory = 0, rt_p95 = 0\<rparr>"

definition OBJECTIVE_LATENCY :: int where "OBJECTIVE_LATENCY = 0"
definition OBJECTIVE_THROUGHPUT :: int where "OBJECTIVE_THROUGHPUT = 1"
definition OBJECTIVE_BALANCED :: int where "OBJECTIVE_BALANCED = 2"
definition OBJECTIVE_MEMORY :: int where "OBJECTIVE_MEMORY = 3"

definition reranker_cache_identity :: "string \<Rightarrow> string \<Rightarrow> string \<Rightarrow> int \<Rightarrow> int \<Rightarrow> cache_identity" where
  "reranker_cache_identity name variant corpus objective mode =
     \<lparr>id_model = name, id_variant = variant, id_corpus = corpus, id_objective = objective, id_mode = mode\<rparr>"

definition rerank_values :: "'f tune_env \<Rightarrow> 'f rerank_tuning \<Rightarrow> (string \<times> string) list" where
  "rerank_values env r =
     [(''cores'', show_int (logical_cores (bn_machine env))), (''threads'', show_int (rt_threads r)),
      (''batch_size'', show_int (rt_batch r)), (''max_tokens'', show_int (rt_max_tokens r)),
      (''throughput_docs_sec'', bn_show env (rt_throughput r)), (''latency_ms'', bn_show env (rt_latency r)),
      (''p95_latency_ms'', bn_show env (rt_p95 r)), (''memory_mb'', bn_show env (rt_memory r))]"

definition write_reranker_cache :: "'f tune_env \<Rightarrow> cache_identity \<Rightarrow> 'f rerank_tuning \<Rightarrow> fsys \<Rightarrow> fsys" where
  "write_reranker_cache env i r fs = write_entry env ''reranker'' i (rerank_values env r) fs"

definition rerank_fields :: "('f, 'f rerank_tuning) field list" where
  "rerank_fields =
     [IntField ''threads'' (\<lambda>v r. r\<lparr>rt_threads := v\<rparr>), IntField ''batch_size'' (\<lambda>v r. r\<lparr>rt_batch := v\<rparr>),
      IntField ''max_tokens'' (\<lambda>v r. r\<lparr>rt_max_tokens := v\<rparr>), NumField ''throughput_docs_sec'' (\<lambda>v r. r\<lparr>rt_throughput := v\<rparr>),
      NumField ''latency_ms'' (\<lambda>v r. r\<lparr>rt_latency := v\<rparr>), NumField ''p95_latency_ms'' (\<lambda>v r. r\<lparr>rt_p95 := v\<rparr>),
      NumField ''memory_mb'' (\<lambda>v r. r\<lparr>rt_memory := v\<rparr>)]"

definition read_reranker_cache :: "'f::floor_ceiling tune_env \<Rightarrow> cache_identity \<Rightarrow> fsys \<Rightarrow> 'f rerank_tuning option" where
  "read_reranker_cache env i fs = read_tuning_entry env ''reranker'' i rerank_fields rerank_zero 7 fs"

section \<open>The corpus\<close>

definition rerank_words :: "string list" where
  "rerank_words =
    [''the'', ''quick'', ''brown'', ''fox'', ''jumps'', ''over'', ''lazy'', ''dog'',
     ''machine'', ''learning'', ''data'', ''model'', ''system'', ''algorithm'',
     ''search'', ''query'', ''document'', ''text'', ''information'', ''result'',
     ''process'', ''analysis'', ''method'', ''approach'', ''technique'',
     ''application'', ''performance'', ''evaluation'', ''research'', ''study'']"

definition generate_synthetic_doc :: "int \<Rightarrow> nat \<Rightarrow> string" where
  "generate_synthetic_doc target_tokens seed =
     foldl (\<lambda>doc i. (if i > 0 then doc @ '' '' else doc) @ rerank_words ! ((seed + i) mod length rerank_words))
       [] [0..<nat (max 1 (trunc_div (3 * target_tokens) 4))]"

definition reranker_bench_corpus_tokens :: int where "reranker_bench_corpus_tokens = 256"

definition reranker_bench_query :: string where "reranker_bench_query = ''What is deep learning?''"

definition generate_synthetic_corpus :: "nat \<Rightarrow> string list" where
  "generate_synthetic_corpus n_docs = map (\<lambda>i. generate_synthetic_doc reranker_bench_corpus_tokens (i + 1)) [0..<n_docs]"

section \<open>Measuring one configuration\<close>

definition rerank_index :: "string \<Rightarrow> int" where
  "rerank_index name = first_index (\<lambda>m. name = model_name m \<or> name = model_code m) reranker_models 0"

definition bench_options :: "int \<Rightarrow> int \<Rightarrow> int \<Rightarrow> int \<Rightarrow> reranker_options" where
  "bench_options model threads batch max_toks =
     lembed_reranker_options_default\<lparr>ro_model := model, ro_num_threads := threads, ro_batch_size := batch,
       ro_max_length := max_toks\<rparr>"

definition bench_reranker_config ::
    "'f::floor_ceiling tune_env \<Rightarrow> string \<Rightarrow> string list \<Rightarrow> string \<Rightarrow> nat \<Rightarrow> nat \<Rightarrow> int \<times> int \<times> int \<Rightarrow> 'f rerank_tuning" where
  "bench_reranker_config env name docs query warmup iters cfg =
     (case cfg of (threads, batch, max_toks) \<Rightarrow>
        let res = rerank_zero\<lparr>rt_threads := threads, rt_batch := batch, rt_max_tokens := max_toks\<rparr>;
            failed = res\<lparr>rt_latency := SENTINEL\<rparr>;
            idx = rerank_index name;
            opts = bench_options idx threads batch max_toks
        in if docs = [] then failed
           else if idx < 0 then failed
           else if bn_rerank_open env opts \<noteq> OK then failed
           else
             let ts = run_times (bn_rerank_run env opts query docs) [warmup..<warmup + iters] in
             if ts = [] then failed
             else
               let p50 = median_time ts; p95 = percentile_sorted (sort ts) (95 / 100)
               in res\<lparr>rt_latency := p50, rt_p95 := p95, rt_throughput := rate_at p50 (length docs), rt_memory := 0\<rparr>)"

definition score_reranker_config :: "'f::linordered_field rerank_tuning \<Rightarrow> int \<Rightarrow> 'f" where
  "score_reranker_config r obj =
     (if obj = OBJECTIVE_LATENCY then rt_latency r + (rt_p95 r - rt_latency r) * (1 / 2)
      else if obj = OBJECTIVE_THROUGHPUT then (if rt_throughput r > 0 then (1 / rt_throughput r) * 1000000 else 999999)
      else if obj = OBJECTIVE_BALANCED then rt_latency r * (1 / 2) + (1 / (rt_throughput r + 1)) * 1000
      else if obj = OBJECTIVE_MEMORY then (if rt_memory r > 0 then rt_memory r else rt_latency r)
      else rt_latency r)"

section \<open>The search\<close>

definition threads_within :: "int \<Rightarrow> int list \<Rightarrow> int list" where
  "threads_within cores ts = (let valid = filter (\<lambda>t. t \<le> cores) ts in if valid = [] then [1] else valid)"

definition product3 :: "int list \<Rightarrow> int list \<Rightarrow> int list \<Rightarrow> (int \<times> int \<times> int) list" where
  "product3 ts bs ks = concat (map (\<lambda>t. concat (map (\<lambda>b. map (\<lambda>k. (t, b, k)) ks) bs)) ts)"

definition rerank_options_grid :: "int \<Rightarrow> int list \<times> int list \<times> int list" where
  "rerank_options_grid mode =
     (if mode = AUTOTUNE_QUICK then ([1, 4, 8], [4, 16], [64, 256]) else ([1, 2, 4, 8], [4, 8, 16], [32, 64, 128, 256]))"

definition rerank_grid :: "int \<Rightarrow> int \<Rightarrow> (int \<times> int \<times> int) list" where
  "rerank_grid mode cores =
     (case rerank_options_grid mode of (ts, bs, ks) \<Rightarrow> product3 (threads_within cores ts) bs ks)"

definition bench_iters :: "int \<Rightarrow> nat" where
  "bench_iters mode = (if mode = AUTOTUNE_QUICK then 5 else 15)"

definition no_tuning :: "'f::linordered_field rerank_tuning" where
  "no_tuning = rerank_zero\<lparr>rt_latency := SENTINEL\<rparr>"

text \<open>Lower scores win.\<close>

definition beats :: "int \<Rightarrow> 'f::linordered_field rerank_tuning \<Rightarrow> 'f rerank_tuning \<Rightarrow> bool" where
  "beats obj r best \<longleftrightarrow> score_reranker_config r obj < score_reranker_config best obj"

type_synonym 'f rerank_answer = "status \<times> 'f rerank_tuning option \<times> fsys"

definition lembed_reranker_autotune_impl ::
    "'f::floor_ceiling tune_env \<Rightarrow> string \<Rightarrow> string list \<Rightarrow> string \<Rightarrow> int \<Rightarrow> int \<Rightarrow> cache_identity \<Rightarrow> fsys \<Rightarrow> 'f rerank_answer" where
  "lembed_reranker_autotune_impl env name docs query mode objective i fs =
     (case read_reranker_cache env i fs of
        Some cached \<Rightarrow> (OK, Some cached, fs)
      | None \<Rightarrow>
          let best = keep_best (beats objective) no_tuning
                (map (bench_reranker_config env name docs query 1 (bench_iters mode)) (rerank_grid mode (logical_cores (bn_machine env))))
          in if rt_latency best \<ge> SENTINEL then (ONNX_RUNTIME, Some rerank_zero, fs)
             else (OK, Some best, write_reranker_cache env i best fs))"

definition canonical_reranker_id :: "string option \<Rightarrow> string" where
  "canonical_reranker_id model =
     (case model of
        None \<Rightarrow> []
      | Some m \<Rightarrow>
          let idx = fst (lembed_resolve_reranker_model model) in
          if idx < 0 then m else model_code (reranker_models ! nat idx))"

definition default_reranker_identity :: "string \<Rightarrow> string list \<Rightarrow> int \<Rightarrow> int \<Rightarrow> cache_identity" where
  "default_reranker_identity name docs objective mode =
     reranker_cache_identity name ''default'' (corpus_fingerprint docs) objective mode"

text \<open>The default tuning of a model named by either form.\<close>

definition default_tune :: "'f::floor_ceiling tune_env \<Rightarrow> string option \<Rightarrow> int \<Rightarrow> int \<Rightarrow> fsys \<Rightarrow> 'f rerank_answer" where
  "default_tune env name mode objective fs =
     (let docs = generate_synthetic_corpus 20; canon = canonical_reranker_id name
      in lembed_reranker_autotune_impl env canon docs reranker_bench_query mode objective
           (default_reranker_identity canon docs objective mode) fs)"

definition lembed_reranker_autotune ::
    "'f::floor_ceiling tune_env \<Rightarrow> string option \<Rightarrow> int \<Rightarrow> int \<Rightarrow> bool \<Rightarrow> fsys \<Rightarrow> 'f rerank_answer" where
  "lembed_reranker_autotune env name mode objective result_ok fs =
     (if name = None \<or> \<not> result_ok then (INVALID_ARGUMENT, None, fs) else default_tune env name mode objective fs)"

section \<open>Under constraints\<close>

definition tokens_within :: "int \<Rightarrow> int list \<Rightarrow> int list" where
  "tokens_within min_tokens ks = (let valid = filter (\<lambda>k. k \<ge> min_tokens) ks in if valid = [] then [min_tokens] else valid)"

definition constrained_grid :: "int \<Rightarrow> int \<Rightarrow> int \<Rightarrow> (int \<times> int \<times> int) list" where
  "constrained_grid mode cores min_tokens =
     (case rerank_options_grid mode of (ts, bs, ks) \<Rightarrow> product3 (threads_within cores ts) bs (tokens_within min_tokens ks))"

text \<open>A configuration that ran, within the latency.\<close>

definition affordable :: "'f::linordered_field \<Rightarrow> 'f rerank_tuning \<Rightarrow> bool" where
  "affordable budget r \<longleftrightarrow> \<not> rt_latency r \<ge> SENTINEL \<and> \<not> rt_p95 r > budget"

definition lembed_reranker_autotune_constrained ::
    "'f::floor_ceiling tune_env \<Rightarrow> string option \<Rightarrow> int \<Rightarrow> int \<Rightarrow> int \<Rightarrow> 'f \<Rightarrow> bool \<Rightarrow> fsys \<Rightarrow> 'f rerank_answer" where
  "lembed_reranker_autotune_constrained env name mode objective min_tokens max_latency result_ok fs =
     (case name of
        None \<Rightarrow> (INVALID_ARGUMENT, None, fs)
      | Some n \<Rightarrow>
          if \<not> result_ok then (INVALID_ARGUMENT, None, fs)
          else
            let docs = generate_synthetic_corpus 20;
                best = keep_best (beats objective) no_tuning (filter (affordable max_latency)
                  (map (bench_reranker_config env n docs reranker_bench_query 1 (bench_iters mode))
                    (constrained_grid mode (logical_cores (bn_machine env)) min_tokens)))
            in if rt_latency best \<ge> SENTINEL then default_tune env name mode objective fs
               else (OK, Some best, fs))"

definition auto_grid :: "int \<Rightarrow> (int \<times> int \<times> int) list" where
  "auto_grid cores = product3 (filter (\<lambda>t. \<not> t > cores) [1, 4, 8]) [4, 16] [64, 256]"

definition lembed_reranker_auto_config ::
    "'f::floor_ceiling tune_env \<Rightarrow> string option \<Rightarrow> 'f \<Rightarrow> int \<Rightarrow> bool \<Rightarrow> fsys \<Rightarrow> 'f rerank_answer" where
  "lembed_reranker_auto_config env name target objective result_ok fs =
     (case name of
        None \<Rightarrow> (INVALID_ARGUMENT, None, fs)
      | Some n \<Rightarrow>
          if \<not> result_ok then (INVALID_ARGUMENT, None, fs)
          else
            let docs = generate_synthetic_corpus 20;
                best = keep_best (\<lambda>r best. rt_throughput r > rt_throughput best) no_tuning (filter (affordable target)
                  (map (bench_reranker_config env n docs reranker_bench_query 2 10) (auto_grid (logical_cores (bn_machine env)))))
            in if rt_latency best \<ge> SENTINEL then default_tune env name AUTOTUNE_QUICK objective fs
               else (OK, Some best, fs))"

definition profile_target :: "int \<Rightarrow> 'f::linordered_field" where
  "profile_target profile = (if profile = 0 then 100 else if profile = 1 then 300 else if profile = 2 then 1000 else 300)"

definition lembed_reranker_auto_config_profile ::
    "'f::floor_ceiling tune_env \<Rightarrow> string option \<Rightarrow> int \<Rightarrow> bool \<Rightarrow> fsys \<Rightarrow> 'f rerank_answer" where
  "lembed_reranker_auto_config_profile env name profile result_ok fs =
     (if name = None \<or> \<not> result_ok then (INVALID_ARGUMENT, None, fs)
      else lembed_reranker_auto_config env name (profile_target profile) OBJECTIVE_BALANCED result_ok fs)"

section \<open>Custom corpora and clearing\<close>

text \<open>The last text is the query; a single text is its own document.\<close>

definition split_query_and_documents :: "string list \<Rightarrow> (string \<times> string list) option" where
  "split_query_and_documents texts =
     (if texts = [] then None
      else
        let docs = (if length texts = 1 then [texts ! 0] else butlast texts)
        in if docs = [] then None else Some (last texts, docs))"

definition lembed_reranker_autotune_custom ::
    "'f::floor_ceiling tune_env \<Rightarrow> string option \<Rightarrow> string option list option \<Rightarrow> int \<Rightarrow> int \<Rightarrow> int \<Rightarrow> bool \<Rightarrow> fsys
      \<Rightarrow> 'f rerank_answer option" where
  "lembed_reranker_autotune_custom env name texts n_texts mode objective result_ok fs =
     (case (name, texts) of
        (Some _, Some ts) \<Rightarrow>
          if n_texts \<le> 0 \<or> \<not> result_ok then Some (INVALID_ARGUMENT, None, fs)
          else if nat n_texts > length ts then None
          else (case split_query_and_documents (c_texts (take (nat n_texts) ts)) of
                  None \<Rightarrow> Some (INVALID_ARGUMENT, None, fs)
                | Some (query, docs) \<Rightarrow>
                    let canon = canonical_reranker_id name
                    in Some (lembed_reranker_autotune_impl env canon docs query mode objective
                         (reranker_cache_identity canon ''custom'' (corpus_fingerprint docs) objective mode) fs))
      | _ \<Rightarrow> Some (INVALID_ARGUMENT, None, fs))"

definition lembed_reranker_autotune_clear_cache :: "machine \<Rightarrow> string list \<Rightarrow> string option \<Rightarrow> fsys \<Rightarrow> fsys" where
  "lembed_reranker_autotune_clear_cache m subdirs name fs =
     (case name of
        None \<Rightarrow> clear_autotune_cache m subdirs None ''reranker'' fs
      | Some _ \<Rightarrow> clear_autotune_cache m subdirs (Some (canonical_reranker_id name)) ''reranker'' fs)"

section \<open>Facts\<close>

interpretation fitter: ranking "beats obj :: 'f::linordered_field rerank_tuning \<Rightarrow> 'f rerank_tuning \<Rightarrow> bool" for obj
  by unfold_locales (simp_all add: beats_def not_less)

lemma product3_in: "(t, b, k) \<in> set (product3 ts bs ks) \<longleftrightarrow> t \<in> set ts \<and> b \<in> set bs \<and> k \<in> set ks"
  by (auto simp: product3_def)

lemma threads_within_in: "t \<in> set (threads_within cores ts) \<Longrightarrow> t \<in> set ts \<and> t \<le> cores \<or> t = 1"
  by (auto simp: threads_within_def Let_def split: if_splits)

lemma tokens_within_in: "k \<in> set (tokens_within m ks) \<Longrightarrow> m \<le> k"
  by (auto simp: tokens_within_def Let_def split: if_splits)

lemma bench_keeps [simp]:
  "rt_threads (bench_reranker_config env name docs query w n (t, b, k)) = t"
  "rt_batch (bench_reranker_config env name docs query w n (t, b, k)) = b"
  "rt_max_tokens (bench_reranker_config env name docs query w n (t, b, k)) = k"
  by (simp_all add: bench_reranker_config_def Let_def)

lemma map_split:
  "map f xs = pre @ y # post \<Longrightarrow> \<exists>as x bs. xs = as @ x # bs \<and> f x = y \<and> map f as = pre \<and> map f bs = post"
  by (auto simp: map_eq_append_conv map_eq_Cons_conv)

definition rerank_printable :: "'f::floor_ceiling tune_env \<Rightarrow> 'f rerank_tuning \<Rightarrow> bool" where
  "rerank_printable env r \<longleftrightarrow>
     (\<forall>x \<in> {rt_throughput r, rt_latency r, rt_p95 r, rt_memory r}. prints_exactly (bn_stod env) (bn_show env) x) \<and>
     (\<forall>n \<in> {rt_threads r, rt_batch r, rt_max_tokens r}. INT_MIN \<le> n \<and> n \<le> INT_MAX)"

lemma reranker_cache_roundtrip:
  assumes "writes_work env" and "plain_identity i" and "rerank_printable env r"
  shows "read_reranker_cache env i (write_reranker_cache env i r fs) = Some r"
proof -
  have stod: "bn_stod env (show_int j) = Some (of_int j)" for j using assms(1) by (simp add: writes_work_def)
  have num: "bn_stod env (bn_show env x) = Some x" "value_text (bn_show env x)"
    if "x \<in> {rt_throughput r, rt_latency r, rt_p95 r, rt_memory r}" for x
  proof -
    have "prints_exactly (bn_stod env) (bn_show env) x" using assms(3) that unfolding rerank_printable_def by blast
    then show "bn_stod env (bn_show env x) = Some x" "value_text (bn_show env x)"
      by (simp_all add: value_text_exact) (simp add: prints_exactly_def)
  qed
  have int: "INT_MIN \<le> n" "n \<le> INT_MAX" if "n \<in> {rt_threads r, rt_batch r, rt_max_tokens r}" for n
    using assms(3) that by (auto simp: rerank_printable_def)
  have "plain_keys rerank_fields" by (simp add: plain_keys_def rerank_fields_def field_key_def)
  moreover have "entry_values (rerank_values env r)"
    using num by (simp add: entry_values_def rerank_values_def plain_def)
  ultimately have "read_reranker_cache env i (write_reranker_cache env i r fs) =
      (case foldl (take_value (bn_stod env) rerank_fields) (rerank_zero, 0) (rerank_values env r) of
         (r', found) \<Rightarrow> if found < 7 then None else Some r')"
    unfolding read_reranker_cache_def write_reranker_cache_def by (rule read_written [OF assms(1,2)])
  also have "\<dots> = Some r"
    using num(1) int by (simp add: rerank_values_def rerank_fields_def take_value_def takes_def field_key_def stod trunc_def)
  finally show ?thesis .
qed

abbreviation default_bench :: "'f::floor_ceiling tune_env \<Rightarrow> int \<Rightarrow> string \<Rightarrow> int \<times> int \<times> int \<Rightarrow> 'f rerank_tuning" where
  "default_bench env mode n \<equiv> bench_reranker_config env n (generate_synthetic_corpus 20) reranker_bench_query 1 (bench_iters mode)"

section \<open>Properties\<close>

text \<open>On a cold cache the reranker tuner answers with the first of its configurations whose score is lowest,
  provided that score is below the one of the sentinel, and records it; its threads do not exceed the
  cores unless there is one. Otherwise it reports a runtime error, clears the result and records nothing.\<close>

theorem reranker_autotune_best:
  fixes env :: "'f::floor_ceiling tune_env"
  assumes "read_reranker_cache env i fs = None"
  shows "(\<exists>pre cfg post. rerank_grid mode (logical_cores (bn_machine env)) = pre @ cfg # post \<and>
      lembed_reranker_autotune_impl env name docs query mode obj i fs =
        (let r = bench_reranker_config env name docs query 1 (bench_iters mode) cfg in
           if rt_latency r < SENTINEL then (OK, Some r, write_reranker_cache env i r fs) else (ONNX_RUNTIME, Some rerank_zero, fs)) \<and>
      beats obj (bench_reranker_config env name docs query 1 (bench_iters mode) cfg) no_tuning \<and>
      (\<forall>c \<in> set pre. beats obj (bench_reranker_config env name docs query 1 (bench_iters mode) cfg)
         (bench_reranker_config env name docs query 1 (bench_iters mode) c)) \<and>
      (\<forall>c \<in> set post. \<not> beats obj (bench_reranker_config env name docs query 1 (bench_iters mode) c)
         (bench_reranker_config env name docs query 1 (bench_iters mode) cfg)) \<and>
      (fst cfg \<le> logical_cores (bn_machine env) \<or> fst cfg = 1)) \<or>
    (lembed_reranker_autotune_impl env name docs query mode obj i fs = (ONNX_RUNTIME, Some rerank_zero, fs) \<and>
      (\<forall>cfg \<in> set (rerank_grid mode (logical_cores (bn_machine env))).
         \<not> beats obj (bench_reranker_config env name docs query 1 (bench_iters mode) cfg) no_tuning))"
proof -
  let ?bench = "bench_reranker_config env name docs query 1 (bench_iters mode)" and ?grid = "rerank_grid mode (logical_cores (bn_machine env))"
  have run: "lembed_reranker_autotune_impl env name docs query mode obj i fs =
    (let r = keep_best (beats obj) no_tuning (map ?bench ?grid) in
       if rt_latency r < SENTINEL then (OK, Some r, write_reranker_cache env i r fs) else (ONNX_RUNTIME, Some rerank_zero, fs))"
    using assms by (auto simp: lembed_reranker_autotune_impl_def Let_def)
  show ?thesis
  proof (cases rule: fitter.keep_best_cases [where obj = obj and b = no_tuning and xs = "map ?bench ?grid"])
    case 1
    have "\<not> rt_latency (no_tuning :: 'f rerank_tuning) < SENTINEL" by (simp add: no_tuning_def)
    with 1 run show ?thesis by (intro disjI2) simp
  next
    case (2 r pre post)
    then obtain gpre cfg gpost where split: "?grid = gpre @ cfg # gpost" "?bench cfg = r" "map ?bench gpre = pre" "map ?bench gpost = post"
      using map_split [OF 2(2)] by blast
    obtain t b k where cfg: "cfg = (t, b, k)" by (rule prod_cases3)
    have "cfg \<in> set ?grid" using split(1) by simp
    then have "t \<le> logical_cores (bn_machine env) \<or> t = 1"
      using threads_within_in by (auto simp: rerank_grid_def cfg product3_in split: prod.splits)
    with 2 split run cfg show ?thesis
      by (intro disjI1 exI [of _ gpre] exI [of _ cfg] exI [of _ gpost]) (auto simp: split(3,4) [symmetric])
  qed
qed

text \<open>Tuning for throughput refuses slow rerankers. The score of the sentinel, 999999, stands for about one
  document per second: when no configuration exceeds one document per second, a runtime error is reported
  although every one of them may have been measured.\<close>

theorem slow_throughput_refused:
  assumes "read_reranker_cache env i fs = None"
    and "\<forall>cfg \<in> set (rerank_grid mode (logical_cores (bn_machine env))).
      rt_throughput (bench_reranker_config env name docs query 1 (bench_iters mode) cfg) \<le> 1"
  shows "lembed_reranker_autotune_impl env name docs query mode OBJECTIVE_THROUGHPUT i fs = (ONNX_RUNTIME, Some rerank_zero, fs)"
proof -
  have "\<not> beats OBJECTIVE_THROUGHPUT r no_tuning" if "rt_throughput r \<le> 1" for r :: "'a rerank_tuning"
  proof (cases "rt_throughput r > 0")
    case True
    then have "1 \<le> 1 / rt_throughput r" using that by simp
    then have "(999999 :: 'a) \<le> 1 / rt_throughput r * 1000000" using mult_right_mono [of 1 "1 / rt_throughput r" "1000000 :: 'a"] by simp
    with True show ?thesis
      by (simp add: beats_def score_reranker_config_def OBJECTIVE_THROUGHPUT_def OBJECTIVE_LATENCY_def no_tuning_def rerank_zero_def not_less)
  next
    case False
    then show ?thesis
      by (simp add: beats_def score_reranker_config_def OBJECTIVE_THROUGHPUT_def OBJECTIVE_LATENCY_def no_tuning_def rerank_zero_def)
  qed
  then have "keep_best (beats OBJECTIVE_THROUGHPUT) no_tuning
      (map (bench_reranker_config env name docs query 1 (bench_iters mode)) (rerank_grid mode (logical_cores (bn_machine env)))) = no_tuning"
    using assms(2) by (intro fitter.keep_best_none) auto
  with assms(1) show ?thesis by (simp add: lembed_reranker_autotune_impl_def Let_def no_tuning_def)
qed

text \<open>C32. The search under constraints keeps them when it can: its answer is the best of the configurations that
  ran, stay within the latency and reach the token limit. But when none of those beats the sentinel it
  answers as the search without constraints does, and so may exceed both limits.\<close>

theorem constraints_kept_or_dropped:
  fixes env :: "'f::floor_ceiling tune_env"
  shows "(\<exists>cfg \<in> set (constrained_grid mode (logical_cores (bn_machine env)) min_tokens).
      lembed_reranker_autotune_constrained env (Some n) mode obj min_tokens max_latency True fs = (OK, Some (default_bench env mode n cfg), fs) \<and>
      rt_p95 (default_bench env mode n cfg) \<le> max_latency \<and> min_tokens \<le> rt_max_tokens (default_bench env mode n cfg) \<and>
      (\<forall>c \<in> set (constrained_grid mode (logical_cores (bn_machine env)) min_tokens).
         affordable max_latency (default_bench env mode n c) \<longrightarrow> \<not> beats obj (default_bench env mode n c) (default_bench env mode n cfg))) \<or>
    (lembed_reranker_autotune_constrained env (Some n) mode obj min_tokens max_latency True fs =
       lembed_reranker_autotune env (Some n) mode obj True fs \<and>
     (\<forall>c \<in> set (constrained_grid mode (logical_cores (bn_machine env)) min_tokens).
         affordable max_latency (default_bench env mode n c) \<longrightarrow> \<not> beats obj (default_bench env mode n c) no_tuning))"
proof -
  let ?grid = "constrained_grid mode (logical_cores (bn_machine env)) min_tokens"
  let ?rs = "filter (affordable max_latency) (map (default_bench env mode n) ?grid)"
  let ?best = "keep_best (beats obj) no_tuning ?rs"
  have run: "lembed_reranker_autotune_constrained env (Some n) mode obj min_tokens max_latency True fs =
    (if rt_latency ?best \<ge> SENTINEL then lembed_reranker_autotune env (Some n) mode obj True fs else (OK, Some ?best, fs))"
    by (simp add: lembed_reranker_autotune_constrained_def lembed_reranker_autotune_def Let_def)
  note unbeaten = fitter.keep_best_unbeaten [where obj = obj and b = no_tuning and xs = ?rs]
  have "?best = no_tuning \<or> ?best \<in> set ?rs" using fitter.keep_best_in [where obj = obj and b = no_tuning and xs = ?rs] by auto
  then show ?thesis
  proof
    assume none: "?best = no_tuning"
    then have "rt_latency ?best \<ge> SENTINEL" by (simp add: no_tuning_def)
    with run unbeaten none show ?thesis by (intro disjI2) auto
  next
    assume "?best \<in> set ?rs"
    then obtain cfg where cfg: "cfg \<in> set ?grid" "?best = default_bench env mode n cfg" "affordable max_latency (default_bench env mode n cfg)" by auto
    obtain t b k where tbk: "cfg = (t, b, k)" by (rule prod_cases3)
    have "min_tokens \<le> k"
      using cfg(1) tokens_within_in by (auto simp: constrained_grid_def tbk product3_in split: prod.splits)
    moreover have "rt_max_tokens (default_bench env mode n cfg) = k" by (simp add: tbk)
    ultimately show ?thesis
      using run unbeaten cfg by (intro disjI1 bexI [of _ cfg]) (auto simp: affordable_def)
  qed
qed

text \<open>A custom tuning does not depend on the query. The identity of the entry covers the documents only: after
  a corpus was tuned, another corpus that differs in its last text, the query, is answered from the cache.\<close>

theorem custom_query_ignored:
  fixes env :: "'f::floor_ceiling tune_env"
  assumes "writes_work env" and "rerank_printable env r" and "plain (canonical_reranker_id (Some name))" and "docs \<noteq> []"
    and "read_reranker_cache env (reranker_cache_identity (canonical_reranker_id (Some name)) ''custom''
      (corpus_fingerprint (c_texts docs)) obj mode) fs = None"
    and "lembed_reranker_autotune_custom env (Some name) (Some (docs @ [q1])) (int (length docs) + 1) mode obj True fs =
      Some (OK, Some r, fs1)"
    and "bn_machine later = bn_machine env" and "bn_stod later = bn_stod env"
  shows "lembed_reranker_autotune_custom later (Some name) (Some (docs @ [q2])) (int (length docs) + 1) mode obj True fs1 =
    Some (OK, Some r, fs1)"
proof -
  let ?i = "reranker_cache_identity (canonical_reranker_id (Some name)) ''custom'' (corpus_fingerprint (c_texts docs)) obj mode"
  have n: "nat (int (length docs) + 1) = Suc (length docs)" by simp
  have split: "split_query_and_documents (c_texts (docs @ [q])) = Some (last (c_texts (docs @ [q])), c_texts docs)" for q
    using assms(4) by (simp add: split_query_and_documents_def c_texts_def)
  have custom: "lembed_reranker_autotune_custom e (Some name) (Some (docs @ [q])) (int (length docs) + 1) mode obj True f =
      Some (lembed_reranker_autotune_impl e (canonical_reranker_id (Some name)) (c_texts docs) (last (c_texts (docs @ [q]))) mode obj ?i f)"
    for e :: "'f tune_env" and q f
    by (simp add: lembed_reranker_autotune_custom_def n split Let_def)
  have "fs1 = write_reranker_cache env ?i r fs"
    using assms(6) unfolding custom by (auto simp: lembed_reranker_autotune_impl_def assms(5) Let_def split: if_splits)
  moreover have "plain_identity ?i"
    using assms(3) hash_plain by (simp add: plain_identity_def reranker_cache_identity_def corpus_fingerprint_def plain_def)
  ultimately have "read_reranker_cache env ?i fs1 = Some r" using reranker_cache_roundtrip [OF assms(1) _ assms(2)] by simp
  moreover have "read_reranker_cache later i f = read_reranker_cache env i f" for i f
    unfolding read_reranker_cache_def read_tuning_entry_def assms(7,8) ..
  ultimately show ?thesis unfolding custom by (simp add: lembed_reranker_autotune_impl_def)
qed

section \<open>Concrete tunings\<close>

text \<open>A reranker that opens and always needs the same time for a configuration.\<close>

lemma steady_bench:
  fixes env :: "'f::floor_ceiling tune_env"
  assumes "rerank_index name = idx" and "0 \<le> idx" and "docs \<noteq> []" and "\<And>opts. bn_rerank_open env opts = OK"
    and "bn_rerank_run env (bench_options idx t b k) q docs = (\<lambda>i. (OK, c))" and "0 < n"
  shows "bench_reranker_config env name docs q w n (t, b, k) =
    \<lparr>rt_threads = t, rt_batch = b, rt_max_tokens = k, rt_throughput = rate_at c (length docs), rt_latency = c, rt_memory = 0, rt_p95 = c\<rparr>"
  using assms
  by (simp add: bench_reranker_config_def Let_def constant_times median_time_def constant_percentile rerank_zero_def)

lemma base_index: "rerank_index ''BAAI/bge-reranker-base'' = 0"
  by code_simp

lemma sample_rerank_bench:
  "bench_reranker_config sample_tune_env ''BAAI/bge-reranker-base'' [''d''] q w (bench_iters mode) (t, b, k) =
    \<lparr>rt_threads = t, rt_batch = b, rt_max_tokens = k, rt_throughput = rate_at (of_int b) 1, rt_latency = of_int b, rt_memory = 0,
      rt_p95 = of_int b\<rparr>"
  by (subst steady_bench [OF base_index])
    (simp_all add: sample_tune_env_def bench_options_def bench_iters_def)

lemma quick_rerank_grid: "rerank_grid 0 8 =
    [(1, 4, 64), (1, 4, 256), (1, 16, 64), (1, 16, 256), (4, 4, 64), (4, 4, 256), (4, 16, 64), (4, 16, 256),
     (8, 4, 64), (8, 4, 256), (8, 16, 64), (8, 16, 256)]"
  by (simp add: rerank_grid_def rerank_options_grid_def AUTOTUNE_QUICK_def product3_def threads_within_def)

definition sample_rerank_identity :: cache_identity where
  "sample_rerank_identity = reranker_cache_identity ''BAAI/bge-reranker-base'' ''default'' ''0'' 0 0"

lemma empty_rerank_cold: "read_reranker_cache env i [] = None"
  by (simp add: read_reranker_cache_def read_tuning_entry_def cache_identity_matches_def json_string_in_file_def Let_def)

theorem reranker_autotune_best_witness:
  "fst (lembed_reranker_autotune_impl sample_tune_env ''BAAI/bge-reranker-base'' [''d''] ''q'' 0 OBJECTIVE_LATENCY sample_rerank_identity []) = OK"
proof -
  let ?bench = "bench_reranker_config sample_tune_env ''BAAI/bge-reranker-base'' [''d''] ''q'' 1 (bench_iters 0)"
  have fast: "rt_latency (?bench cfg) < SENTINEL" if "cfg \<in> set (rerank_grid 0 8)" for cfg
    using that by (auto simp: quick_rerank_grid sample_rerank_bench SENTINEL_def)
  have "(1, 4, 64) \<in> set (rerank_grid 0 8)" by (simp add: quick_rerank_grid)
  moreover have "beats OBJECTIVE_LATENCY (?bench (1, 4, 64)) no_tuning"
    by (simp add: beats_def sample_rerank_bench score_reranker_config_def no_tuning_def rerank_zero_def SENTINEL_def)
  ultimately show ?thesis
    using reranker_autotune_best [OF empty_rerank_cold, of 0 sample_tune_env "''BAAI/bge-reranker-base''" "[''d'']" "''q''" OBJECTIVE_LATENCY sample_rerank_identity] fast
    unfolding sample_cores by (auto simp: Let_def)
qed

text \<open>At least 100 tokens within ten milliseconds.\<close>

theorem constraints_kept_or_dropped_witness:
  "\<exists>r. lembed_reranker_autotune_constrained sample_tune_env (Some ''BAAI/bge-reranker-base'') 0 OBJECTIVE_LATENCY 100 10 True [] =
     (OK, Some r, []) \<and> rt_p95 r \<le> 10 \<and> 100 \<le> rt_max_tokens r"
proof -
  have "default_bench sample_tune_env 0 ''BAAI/bge-reranker-base'' (1, 4, 256) =
    \<lparr>rt_threads = 1, rt_batch = 4, rt_max_tokens = 256, rt_throughput = rate_at 4 20, rt_latency = 4, rt_memory = 0, rt_p95 = 4\<rparr>"
    by (subst steady_bench [OF base_index])
      (simp_all add: sample_tune_env_def bench_options_def bench_iters_def generate_synthetic_corpus_def)
  then have "affordable 10 (default_bench sample_tune_env 0 ''BAAI/bge-reranker-base'' (1, 4, 256))"
    "beats OBJECTIVE_LATENCY (default_bench sample_tune_env 0 ''BAAI/bge-reranker-base'' (1, 4, 256)) no_tuning"
    by (simp_all add: affordable_def beats_def score_reranker_config_def no_tuning_def rerank_zero_def SENTINEL_def)
  moreover have "(1, 4, 256) \<in> set (constrained_grid 0 8 100)"
    by (simp add: constrained_grid_def rerank_options_grid_def AUTOTUNE_QUICK_def product3_def threads_within_def tokens_within_def)
  ultimately show ?thesis
    using constraints_kept_or_dropped [of 0 sample_tune_env 100 "''BAAI/bge-reranker-base''" OBJECTIVE_LATENCY 10 "[]"]
    unfolding sample_cores by blast
qed

text \<open>Two seconds for one document.\<close>

definition slow_tune_env :: "rat tune_env" where
  "slow_tune_env = sample_tune_env\<lparr>bn_rerank_run := \<lambda>opts q ds i. (OK, 2000)\<rparr>"

theorem slow_throughput_refused_witness:
  "lembed_reranker_autotune_impl slow_tune_env ''BAAI/bge-reranker-base'' [''d''] ''q'' 0 OBJECTIVE_THROUGHPUT sample_rerank_identity [] =
     (ONNX_RUNTIME, Some rerank_zero, []) \<and>
   rt_latency (bench_reranker_config slow_tune_env ''BAAI/bge-reranker-base'' [''d''] ''q'' 1 (bench_iters 0) (1, 4, 64)) = 2000"
proof -
  have bench: "bench_reranker_config slow_tune_env ''BAAI/bge-reranker-base'' [''d''] ''q'' w (bench_iters 0) (t, b, k) =
      \<lparr>rt_threads = t, rt_batch = b, rt_max_tokens = k, rt_throughput = rate_at 2000 1, rt_latency = 2000, rt_memory = 0, rt_p95 = 2000\<rparr>"
    for w t b k
    by (subst steady_bench [OF base_index]) (simp_all add: slow_tune_env_def sample_tune_env_def bench_iters_def)
  have "rt_throughput (bench_reranker_config slow_tune_env ''BAAI/bge-reranker-base'' [''d''] ''q'' 1 (bench_iters 0) cfg) \<le> 1" for cfg
    by (cases cfg rule: prod_cases3) (simp add: bench rate_at_def)
  then show ?thesis by (simp add: slow_throughput_refused [OF empty_rerank_cold] bench)
qed

text \<open>The first configuration is the best one, with 250 documents per second.\<close>

definition sample_rerank_tuning :: "rat rerank_tuning" where
  "sample_rerank_tuning = \<lparr>rt_threads = 1, rt_batch = 4, rt_max_tokens = 64, rt_throughput = 250, rt_latency = 4, rt_memory = 0, rt_p95 = 4\<rparr>"

lemma sample_rerank_best:
  "keep_best (beats OBJECTIVE_LATENCY) no_tuning
     (map (bench_reranker_config sample_tune_env ''BAAI/bge-reranker-base'' [''d''] q w (bench_iters 0)) (rerank_grid 0 8)) =
   sample_rerank_tuning"
  by (simp add: quick_rerank_grid sample_rerank_bench beats_def score_reranker_config_def no_tuning_def rerank_zero_def
      SENTINEL_def sample_rerank_tuning_def rate_at_def)

lemma base_canonical: "canonical_reranker_id (Some ''BAAI/bge-reranker-base'') = ''BAAI/bge-reranker-base''"
  by code_simp

theorem custom_query_ignored_witness:
  "\<exists>fs1. lembed_reranker_autotune_custom (sample_tune_env\<lparr>bn_rerank_run := \<lambda>_ _ _ _. (OK, 1)\<rparr>)
     (Some ''BAAI/bge-reranker-base'') (Some [Some ''d'', Some ''other'']) 2 0 OBJECTIVE_LATENCY True fs1 = Some (OK, Some sample_rerank_tuning, fs1)"
proof -
  let ?name = "''BAAI/bge-reranker-base''"
  let ?i = "reranker_cache_identity ?name ''custom'' (corpus_fingerprint (c_texts [Some ''d''])) OBJECTIVE_LATENCY 0"
  let ?fs1 = "write_reranker_cache sample_tune_env ?i sample_rerank_tuning []"
  have texts: "c_texts [Some ''d''] = [''d'']" "split_query_and_documents (c_texts [Some ''d'', Some ''q'']) = Some (''q'', [''d''])"
    by (simp_all add: c_texts_def c_str_def split_query_and_documents_def)
  have run: "lembed_reranker_autotune_custom sample_tune_env (Some ?name) (Some ([Some ''d''] @ [Some ''q'']))
      (int (length [Some ''d'']) + 1) 0 OBJECTIVE_LATENCY True [] = Some (OK, Some sample_rerank_tuning, ?fs1)"
    by (simp add: lembed_reranker_autotune_custom_def texts base_canonical lembed_reranker_autotune_impl_def
        empty_rerank_cold sample_cores sample_rerank_best)
      (simp add: sample_rerank_tuning_def SENTINEL_def Let_def)
  have "plain ?name" by (simp add: plain_def quote_free_def)
  moreover have "writes_work sample_tune_env" by (simp add: writes_work_def sample_tune_env_def all_calls_ok_def sample_stod_show)
  moreover have "rerank_printable sample_tune_env sample_rerank_tuning"
    using sample_prints_numeral by (simp add: rerank_printable_def sample_rerank_tuning_def sample_tune_env_def INT_MIN_def INT_MAX_def)
  ultimately have "lembed_reranker_autotune_custom (sample_tune_env\<lparr>bn_rerank_run := \<lambda>_ _ _ _. (OK, 1)\<rparr>)
      (Some ?name) (Some ([Some ''d''] @ [Some ''other''])) (int (length [Some ''d'']) + 1) 0 OBJECTIVE_LATENCY True ?fs1 =
      Some (OK, Some sample_rerank_tuning, ?fs1)"
    by (intro custom_query_ignored [OF _ _ _ _ _ run]) (simp_all add: base_canonical empty_rerank_cold)
  then show ?thesis by (intro exI [of _ ?fs1]) simp
qed

end
