(* ===== verification/AutotuneTasks.thy ===== *)
theory AutotuneTasks
  imports AutotuneReranker
begin

text \<open>
  The auto-tuners of sparse and image models (\<open>detail/autotune_bench_sparse.hpp\<close>,
  \<open>autotune_bench_image.hpp\<close>), with the bitmap the latter generates, and the unified tuner that dispatches on
  the task (\<open>detail/autotuner_impl.hpp\<close>). Neither of the two tuners reads or writes a cache. \<open>None\<close> is
  undefined behaviour.
\<close>

section \<open>Sparse models\<close>

record 'f sparse_tune_result =
  st_top_k :: int
  st_min_weight :: 'f
  st_format :: int
  st_threads :: int
  st_batch :: int
  st_throughput :: 'f
  st_latency :: 'f
  st_memory :: 'f

definition sparse_zero :: "'f::zero sparse_tune_result" where
  "sparse_zero = \<lparr>st_top_k = 0, st_min_weight = 0, st_format = 0, st_threads = 0, st_batch = 0, st_throughput = 0,
     st_latency = 0, st_memory = 0\<rparr>"

definition bench_sparse_config ::
    "'f::floor_ceiling tune_env \<Rightarrow> string \<Rightarrow> int \<Rightarrow> int \<Rightarrow> string list \<Rightarrow> nat \<Rightarrow> nat \<Rightarrow> int \<times> 'f \<times> int \<Rightarrow> 'f sparse_tune_result" where
  "bench_sparse_config env name threads batch texts warmup iters cfg =
     (case cfg of (top_k, min_weight, format) \<Rightarrow>
        let res = sparse_zero\<lparr>st_top_k := top_k, st_min_weight := min_weight, st_format := format, st_threads := threads,
              st_batch := batch\<rparr>;
            failed = res\<lparr>st_latency := SENTINEL\<rparr>;
            idx = lembed_find_sparse_model_by_code (Some name);
            opts = lembed_sparse_options_default\<lparr>so_num_threads := threads, so_batch_size := batch, so_top_k := top_k,
              so_min_weight := min_weight, so_format := format, so_model := idx\<rparr>
        in if idx < 0 then failed
           else if bn_sparse_open env opts \<noteq> OK then failed
           else
             let ts = run_times (bn_sparse_run env opts texts) [warmup..<warmup + iters] in
             if ts = [] then failed
             else let p50 = median_time ts in res\<lparr>st_latency := p50, st_throughput := rate_at p50 (length texts)\<rparr>)"

definition sparse_bench_text :: string where
  "sparse_bench_text =
     ''Machine learning is a branch of artificial intelligence that enables systems to learn from data.''"

definition tuned_sparse_grid :: "(int \<times> 'f::linordered_field \<times> int) list" where
  "tuned_sparse_grid =
     concat (map (\<lambda>t. concat (map (\<lambda>w. map (\<lambda>s. (t, w, s)) [0, 1]) [0, 1 / 100, 5 / 100])) [32, 64, 128])"

definition sparse_start :: "'f::linordered_field sparse_tune_result" where
  "sparse_start = sparse_zero\<lparr>st_latency := SENTINEL\<rparr>"

text \<open>Configurations that failed are skipped; a higher rate wins.\<close>

definition lembed_sparse_autotune ::
    "'f::floor_ceiling tune_env \<Rightarrow> string option \<Rightarrow> int \<Rightarrow> bool \<Rightarrow> status \<times> 'f sparse_tune_result option" where
  "lembed_sparse_autotune env name mode result_ok =
     (case name of
        None \<Rightarrow> (INVALID_ARGUMENT, None)
      | Some n \<Rightarrow>
          if \<not> result_ok then (INVALID_ARGUMENT, None)
          else
            let best = keep_best (\<lambda>r best. st_throughput r > st_throughput best) sparse_start
                  (filter (\<lambda>r. \<not> st_latency r \<ge> SENTINEL)
                    (map (bench_sparse_config env n 4 256 (replicate 20 sparse_bench_text) 2 (bench_iters mode)) tuned_sparse_grid))
            in if st_latency best \<ge> SENTINEL then (ONNX_RUNTIME, Some sparse_zero) else (OK, Some best))"

section \<open>A generated bitmap\<close>

definition in_int :: "int \<Rightarrow> bool" where
  "in_int v \<longleftrightarrow> INT_MIN \<le> v \<and> v \<le> INT_MAX"

text \<open>What \<open>push_back\<close> stores of an \<open>int\<close>, and the four bytes of a number, the lowest first.\<close>

definition to_byte :: "int \<Rightarrow> nat" where
  "to_byte v = nat (v mod 256)"

definition le_bytes :: "int \<Rightarrow> nat list" where
  "le_bytes v = [to_byte v, to_byte (v div 256), to_byte (v div 65536), to_byte (v div 16777216)]"

definition row_size :: "int \<Rightarrow> int" where
  "row_size width = trunc_div (width * 3 + 3) 4 * 4"

definition bmp_header :: "int \<Rightarrow> int \<Rightarrow> nat list" where
  "bmp_header width height =
     [66, 77] @ le_bytes (54 + row_size width * height) @ [0, 0, 0, 0] @ [54, 0, 0, 0] @
     [40, 0, 0, 0] @ le_bytes width @ le_bytes height @ [1, 0] @ [24, 0] @ [0, 0, 0, 0] @ replicate 20 0"

definition bmp_pixel :: "int \<Rightarrow> int \<Rightarrow> nat \<Rightarrow> nat \<Rightarrow> nat list" where
  "bmp_pixel width height y x = [to_byte (trunc_div (int x * 255) width), to_byte (trunc_div (int y * 255) height), 128]"

definition bmp_row :: "int \<Rightarrow> int \<Rightarrow> nat \<Rightarrow> nat list" where
  "bmp_row width height y =
     concat (map (bmp_pixel width height y) [0..<nat width]) @ replicate (nat (row_size width - width * 3)) 0"

definition create_benchmark_image :: "int \<Rightarrow> int \<Rightarrow> nat list option" where
  "create_benchmark_image width height =
     (if in_int (width * 3) \<and> in_int (width * 3 + 3) \<and> in_int (row_size width * height) \<and> in_int (54 + row_size width * height) \<and>
         (0 < width \<and> 0 < height \<longrightarrow> in_int ((width - 1) * 255) \<and> in_int ((height - 1) * 255))
      then Some (bmp_header width height @ concat (map (bmp_row width height) [0..<nat height]))
      else None)"

section \<open>Image models\<close>

record 'f image_tuning =
  gt_threads :: int
  gt_batch :: int
  gt_throughput :: 'f
  gt_latency :: 'f
  gt_memory :: 'f

definition image_zero :: "'f::zero image_tuning" where
  "image_zero = \<lparr>gt_threads = 0, gt_batch = 0, gt_throughput = 0, gt_latency = 0, gt_memory = 0\<rparr>"

definition bench_image_config ::
    "'f::floor_ceiling tune_env \<Rightarrow> string \<Rightarrow> nat \<Rightarrow> nat \<Rightarrow> nat \<Rightarrow> int \<times> int \<Rightarrow> 'f image_tuning option" where
  "bench_image_config env name n_images warmup iters cfg =
     (case cfg of (threads, batch) \<Rightarrow>
        let res = image_zero\<lparr>gt_threads := threads, gt_batch := batch\<rparr>;
            failed = res\<lparr>gt_latency := SENTINEL\<rparr>;
            idx = lembed_find_image_model_by_code (Some name);
            opts = lembed_image_options_default\<lparr>io_num_threads := threads, io_batch_size := batch, io_model := idx\<rparr>
        in if idx < 0 then Some failed
           else if bn_image_open env opts \<noteq> OK then Some failed
           else (case create_benchmark_image 224 224 of
                   None \<Rightarrow> None
                 | Some img \<Rightarrow>
                     let ts = run_times (bn_image_run env opts (replicate n_images img)) [warmup..<warmup + iters] in
                     if ts = [] then Some failed
                     else let p50 = median_time ts in
                       Some (res\<lparr>gt_latency := p50, gt_throughput := rate_at p50 n_images\<rparr>)))"

definition image_grid :: "int \<Rightarrow> (int \<times> int) list" where
  "image_grid cores = concat (map (\<lambda>t. map (\<lambda>b. (t, b)) [1, 4, 8, 16]) (threads_within cores [1, 2, 4, 8]))"

definition image_start :: "'f::linordered_field image_tuning" where
  "image_start = image_zero\<lparr>gt_latency := SENTINEL\<rparr>"

definition lembed_image_autotune ::
    "'f::floor_ceiling tune_env \<Rightarrow> string option \<Rightarrow> int \<Rightarrow> bool \<Rightarrow> (status \<times> 'f image_tuning option) option" where
  "lembed_image_autotune env name mode result_ok =
     (case name of
        None \<Rightarrow> Some (INVALID_ARGUMENT, None)
      | Some n \<Rightarrow>
          if \<not> result_ok then Some (INVALID_ARGUMENT, None)
          else
            (case those (map (bench_image_config env n 16 2 (bench_iters mode)) (image_grid (logical_cores (bn_machine env)))) of
               None \<Rightarrow> None
             | Some results \<Rightarrow>
                 let best = keep_best (\<lambda>r best. gt_latency r < gt_latency best) image_start results in
                 if gt_latency best \<ge> SENTINEL then Some (ONNX_RUNTIME, Some image_zero) else Some (OK, Some best)))"

section \<open>One tuner for all tasks\<close>

definition TASK_EMBEDDING :: int where "TASK_EMBEDDING = 0"
definition TASK_RERANKING :: int where "TASK_RERANKING = 1"
definition TASK_IMAGE :: int where "TASK_IMAGE = 2"
definition TASK_SPARSE :: int where "TASK_SPARSE = 3"

record 'f unified_tuning =
  ut_task :: int
  ut_threads :: int
  ut_batch :: int
  ut_workers :: int
  ut_max_tokens :: int
  ut_top_k :: int
  ut_min_weight :: 'f
  ut_format :: int
  ut_throughput :: 'f
  ut_latency :: 'f
  ut_p95 :: 'f
  ut_memory :: 'f

definition unified_zero :: "int \<Rightarrow> 'f::zero unified_tuning" where
  "unified_zero task = \<lparr>ut_task = task, ut_threads = 0, ut_batch = 0, ut_workers = 0, ut_max_tokens = 0, ut_top_k = 0,
     ut_min_weight = 0, ut_format = 0, ut_throughput = 0, ut_latency = 0, ut_p95 = 0, ut_memory = 0\<rparr>"

definition of_text :: "'f::zero text_tuning \<Rightarrow> 'f unified_tuning" where
  "of_text r = (unified_zero TASK_EMBEDDING)\<lparr>ut_threads := tt_threads r, ut_batch := tt_batch r, ut_workers := tt_workers r,
     ut_throughput := tt_throughput r, ut_latency := tt_latency r, ut_memory := tt_memory r\<rparr>"

definition of_rerank :: "'f::zero rerank_tuning \<Rightarrow> 'f unified_tuning" where
  "of_rerank r = (unified_zero TASK_RERANKING)\<lparr>ut_threads := rt_threads r, ut_batch := rt_batch r,
     ut_max_tokens := rt_max_tokens r, ut_throughput := rt_throughput r, ut_latency := rt_latency r, ut_p95 := rt_p95 r,
     ut_memory := rt_memory r\<rparr>"

definition of_image :: "'f::zero image_tuning \<Rightarrow> 'f unified_tuning" where
  "of_image r = (unified_zero TASK_IMAGE)\<lparr>ut_threads := gt_threads r, ut_batch := gt_batch r,
     ut_throughput := gt_throughput r, ut_latency := gt_latency r, ut_memory := gt_memory r\<rparr>"

definition of_sparse :: "'f::zero sparse_tune_result \<Rightarrow> 'f unified_tuning" where
  "of_sparse r = (unified_zero TASK_SPARSE)\<lparr>ut_threads := st_threads r, ut_batch := st_batch r, ut_top_k := st_top_k r,
     ut_min_weight := st_min_weight r, ut_format := st_format r, ut_throughput := st_throughput r,
     ut_latency := st_latency r, ut_memory := st_memory r\<rparr>"

text \<open>The fields are copied on success only; the local result of the called tuner starts cleared.\<close>

definition passed_on :: "int \<Rightarrow> ('r \<Rightarrow> 'f::zero unified_tuning) \<Rightarrow> 'r \<Rightarrow> status \<times> 'r option \<Rightarrow> status \<times> 'f unified_tuning" where
  "passed_on task convert zero answer =
     (case answer of (s, r) \<Rightarrow>
        if s \<noteq> OK then (s, unified_zero task) else (OK, convert (case r of None \<Rightarrow> zero | Some r \<Rightarrow> r)))"

type_synonym 'f unified_answer = "(status \<times> 'f unified_tuning option \<times> fsys) option"

definition tune_text :: "'f::floor_ceiling tune_env \<Rightarrow> string option \<Rightarrow> int \<Rightarrow> fsys \<Rightarrow> 'f unified_answer" where
  "tune_text env name mode fs =
     (case lembed_autotune env name mode True fs of
        None \<Rightarrow> None
      | Some (s, r, fs') \<Rightarrow> (case passed_on TASK_EMBEDDING of_text text_zero (s, r) of (s, u) \<Rightarrow> Some (s, Some u, fs')))"

definition tune_image :: "'f::floor_ceiling tune_env \<Rightarrow> string option \<Rightarrow> int \<Rightarrow> fsys \<Rightarrow> 'f unified_answer" where
  "tune_image env name mode fs =
     (case lembed_image_autotune env name mode True of
        None \<Rightarrow> None
      | Some (s, r) \<Rightarrow> (case passed_on TASK_IMAGE of_image image_zero (s, r) of (s, u) \<Rightarrow> Some (s, Some u, fs)))"

definition tune_rerank :: "'f::floor_ceiling rerank_answer \<Rightarrow> 'f unified_answer" where
  "tune_rerank answer =
     (case answer of (s, r, fs') \<Rightarrow> (case passed_on TASK_RERANKING of_rerank rerank_zero (s, r) of (s, u) \<Rightarrow> Some (s, Some u, fs')))"

definition tune_sparse :: "'f::floor_ceiling tune_env \<Rightarrow> string option \<Rightarrow> int \<Rightarrow> fsys \<Rightarrow> 'f unified_answer" where
  "tune_sparse env name mode fs =
     (case passed_on TASK_SPARSE of_sparse sparse_zero (lembed_sparse_autotune env name mode True) of (s, u) \<Rightarrow> Some (s, Some u, fs))"

definition lembed_autotune_unified ::
    "'f::floor_ceiling tune_env \<Rightarrow> int \<Rightarrow> string option \<Rightarrow> int \<Rightarrow> bool \<Rightarrow> fsys \<Rightarrow> 'f unified_answer" where
  "lembed_autotune_unified env task name mode result_ok fs =
     (if \<not> result_ok then Some (INVALID_ARGUMENT, None, fs)
      else if task = TASK_EMBEDDING then tune_text env name mode fs
      else if task = TASK_RERANKING then tune_rerank (lembed_reranker_autotune env name mode OBJECTIVE_BALANCED True fs)
      else if task = TASK_IMAGE then tune_image env name mode fs
      else if task = TASK_SPARSE then tune_sparse env name mode fs
      else Some (INVALID_ARGUMENT, Some (unified_zero task), fs))"

definition lembed_autotune_unified_config ::
    "'f::floor_ceiling tune_env \<Rightarrow> int \<Rightarrow> string option \<Rightarrow> 'f \<Rightarrow> bool \<Rightarrow> fsys \<Rightarrow> 'f unified_answer" where
  "lembed_autotune_unified_config env task name target result_ok fs =
     (if \<not> result_ok then Some (INVALID_ARGUMENT, None, fs)
      else if task = TASK_RERANKING then tune_rerank (lembed_reranker_auto_config env name target OBJECTIVE_BALANCED True fs)
      else if task = TASK_EMBEDDING then tune_text env name AUTOTUNE_QUICK fs
      else if task = TASK_IMAGE then tune_image env name AUTOTUNE_QUICK fs
      else if task = TASK_SPARSE then Some (UNSUPPORTED, Some (unified_zero task), fs)
      else Some (INVALID_ARGUMENT, Some (unified_zero task), fs))"

definition lembed_autotune_unified_clear_cache :: "machine \<Rightarrow> string list \<Rightarrow> int \<Rightarrow> string option \<Rightarrow> fsys \<Rightarrow> fsys" where
  "lembed_autotune_unified_clear_cache m subdirs task name fs =
     (if task = TASK_EMBEDDING then lembed_autotune_clear_cache m subdirs name fs
      else if task = TASK_RERANKING then lembed_reranker_autotune_clear_cache m subdirs name fs
      else fs)"

section \<open>Facts\<close>

lemma le_bytes_bytes: "\<forall>b \<in> set (le_bytes v). b < 256"
  by (simp add: le_bytes_def to_byte_def nat_less_iff)

lemma to_byte_less [simp]: "to_byte v < 256"
  by (simp add: to_byte_def nat_less_iff)

text \<open>Four bytes hold every number that is not negative.\<close>

definition of_le :: "nat list \<Rightarrow> int" where
  "of_le bs = int (bs ! 0) + 256 * int (bs ! 1) + 65536 * int (bs ! 2) + 16777216 * int (bs ! 3)"

lemma of_le_bytes:
  assumes "0 \<le> v" and "v \<le> INT_MAX"
  shows "of_le (le_bytes v) = v"
proof -
  have v: "v div 65536 = v div 256 div 256" "v div 16777216 = v div 256 div 256 div 256" by (simp_all add: div_mult2_eq [symmetric])
  have "v div 256 div 256 div 256 < 256" "0 \<le> v div 256 div 256 div 256" using assms by (simp_all add: INT_MAX_def)
  then have "v div 256 div 256 div 256 mod 256 = v div 256 div 256 div 256" by simp
  moreover have "v = v mod 256 + 256 * (v div 256)" "v div 256 = v div 256 mod 256 + 256 * (v div 256 div 256)"
    "v div 256 div 256 = v div 256 div 256 mod 256 + 256 * (v div 256 div 256 div 256)" by (simp_all only: mod_mult_div_eq)
  moreover have "of_le (le_bytes v) = v mod 256 + 256 * (v div 256 mod 256) + 65536 * (v div 65536 mod 256) + 16777216 * (v div 16777216 mod 256)"
    by (simp add: of_le_def le_bytes_def to_byte_def)
  ultimately show ?thesis unfolding v by linarith
qed

lemma row_size_fits:
  assumes "0 < w"
  shows "3 * w \<le> row_size w" and "row_size w < 3 * w + 4" and "row_size w mod 4 = 0"
proof -
  have "row_size w = (w * 3 + 3) div 4 * 4" using assms by (simp add: row_size_def trunc_div_nonneg)
  then show "3 * w \<le> row_size w" "row_size w < 3 * w + 4" "row_size w mod 4 = 0" by (presburger, presburger, simp)
qed

lemma three_entries: "k + 2 < length xs \<Longrightarrow> take 3 (drop k xs) = [xs ! k, xs ! (k + 1), xs ! (k + 2)]"
proof -
  assume k: "k + 2 < length xs"
  have "drop k xs = xs ! k # xs ! Suc k # xs ! Suc (Suc k) # drop (Suc (Suc (Suc k))) xs"
    using k by (simp add: Cons_nth_drop_Suc)
  then show ?thesis by (simp add: numeral_3_eq_3)
qed

lemma bmp_header_length: "length (bmp_header w h) = 54"
  by (simp add: bmp_header_def le_bytes_def)

lemma bmp_pixels_rect: "\<forall>xs \<in> set (map (bmp_pixel w h y) [0..<n]). length xs = 3"
  by (simp add: bmp_pixel_def)

lemma bmp_row_length:
  assumes "0 < w"
  shows "length (bmp_row w h y) = nat (row_size w)"
  using length_concat_rect [OF bmp_pixels_rect, of w h y "nat w"] row_size_fits(1) [OF assms] assms by (simp add: bmp_row_def)

lemma bmp_row_pixel:
  assumes "0 < w" and "x < nat w" and "c < 3"
  shows "bmp_row w h y ! (x * 3 + c) = bmp_pixel w h y x ! c"
proof -
  have "x * 3 + c < 3 * nat w" using assms(2,3) by linarith
  moreover have "concat (map (bmp_pixel w h y) [0..<nat w]) ! (x * 3 + c) = map (bmp_pixel w h y) [0..<nat w] ! x ! c"
    using assms by (intro nth_concat_rect [OF bmp_pixels_rect]) simp_all
  ultimately show ?thesis
    using assms(2) length_concat_rect [OF bmp_pixels_rect, of w h y "nat w"] by (simp add: bmp_row_def nth_append mult.commute)
qed

lemma bmp_bytes: "create_benchmark_image w h = Some img \<Longrightarrow> \<forall>b \<in> set img. b < 256"
  using le_bytes_bytes by (auto simp: create_benchmark_image_def bmp_header_def bmp_row_def bmp_pixel_def split: if_splits)

interpretation faster: ranking "\<lambda>r b :: 'f::linordered_field image_tuning. gt_latency r < gt_latency b"
  by (rule ranking_less)

interpretation denser: ranking "\<lambda>r b :: 'f::linordered_field sparse_tune_result. st_throughput r > st_throughput b"
  by (rule ranking_greater)

text \<open>A result is stored, for the task, and cleared on failure.\<close>

definition answered :: "int \<Rightarrow> 'f::zero unified_answer \<Rightarrow> bool" where
  "answered task a \<longleftrightarrow> (case a of None \<Rightarrow> True
     | Some (s, r, _) \<Rightarrow> (\<exists>u. r = Some u \<and> ut_task u = task \<and> (s \<noteq> OK \<longrightarrow> u = unified_zero task)))"

lemma zero_task [simp]: "ut_task (unified_zero task) = task"
  by (simp add: unified_zero_def)

lemma converted_task [simp]:
  "ut_task (of_text t) = TASK_EMBEDDING" "ut_task (of_rerank r) = TASK_RERANKING" "ut_task (of_image g) = TASK_IMAGE"
  "ut_task (of_sparse p) = TASK_SPARSE"
  by (simp_all add: of_text_def of_rerank_def of_image_def of_sparse_def)

lemma answered_tasks:
  "answered TASK_EMBEDDING (tune_text env name mode fs)" "answered TASK_RERANKING (tune_rerank a)"
  "answered TASK_IMAGE (tune_image env name mode fs)" "answered TASK_SPARSE (tune_sparse env name mode fs)"
  by (auto simp: answered_def tune_text_def tune_rerank_def tune_image_def tune_sparse_def passed_on_def
      split: option.splits prod.splits if_splits)

lemma answered_refused: "answered task (Some (s, Some (unified_zero task), fs))"
  by (simp add: answered_def)

section \<open>Properties\<close>

text \<open>C29. The generated bitmap is the file its header announces. When no computation overflows, its length is the
  file size of the header, the header also holds the width, the height and the offset 54 of the pixels,
  every entry is a byte, the rows are padded to a multiple of four, and pixel x of row y stands where the
  format puts it.\<close>

theorem benchmark_image_exact:
  assumes "0 < w" and "0 < h" and "create_benchmark_image w h = Some img"
  shows "int (length img) = 54 + row_size w * h \<and> row_size w mod 4 = 0 \<and> (\<forall>b \<in> set img. b < 256) \<and>
    of_le (take 4 (drop 2 img)) = int (length img) \<and> of_le (take 4 (drop 10 img)) = 54 \<and>
    of_le (take 4 (drop 18 img)) = w \<and> of_le (take 4 (drop 22 img)) = h \<and>
    (\<forall>x < nat w. \<forall>y < nat h. take 3 (drop (54 + y * nat (row_size w) + x * 3) img) =
       [to_byte (int x * 255 div w), to_byte (int y * 255 div h), 128])"
proof -
  let ?rows = "map (bmp_row w h) [0..<nat h]"
  have img: "img = bmp_header w h @ concat ?rows" and fits: "54 + row_size w * h \<le> INT_MAX" "w * 3 \<le> INT_MAX" "row_size w * h \<le> INT_MAX"
    using assms(3) by (auto simp: create_benchmark_image_def in_int_def split: if_splits)
  have rect: "\<forall>r \<in> set ?rows. length r = nat (row_size w)" using bmp_row_length [OF assms(1)] by simp
  have pos: "0 < row_size w" using row_size_fits(1) [OF assms(1)] assms(1) by linarith
  have body: "length (concat ?rows) = nat h * nat (row_size w)" using length_concat_rect [OF rect] by simp
  then have len: "int (length img) = 54 + row_size w * h"
    using pos assms(2) by (simp add: img bmp_header_length)
  have "h * 1 \<le> h * row_size w" using pos assms(2) by (intro mult_left_mono) simp_all
  then have h: "h \<le> INT_MAX" using fits(3) by (simp add: mult.commute)
  have w: "w \<le> INT_MAX" using fits(2) assms(1) by linarith
  have head: "take 4 (drop 2 img) = le_bytes (54 + row_size w * h)" "take 4 (drop 10 img) = [54, 0, 0, 0]"
    "take 4 (drop 18 img) = le_bytes w" "take 4 (drop 22 img) = le_bytes h"
    by (simp_all add: img bmp_header_def le_bytes_def)
  have "take 3 (drop (54 + y * nat (row_size w) + x * 3) img) = [to_byte (int x * 255 div w), to_byte (int y * 255 div h), 128]"
    if x: "x < nat w" and y: "y < nat h" for x y
  proof -
    have in_row: "x * 3 + c < nat (row_size w)" if "c < 3" for c
      using that x row_size_fits(1) [OF assms(1)] by linarith
    have at: "img ! (54 + y * nat (row_size w) + x * 3 + c) = bmp_pixel w h y x ! c" if "c < 3" for c
    proof -
      have "img ! (54 + y * nat (row_size w) + x * 3 + c) = concat ?rows ! (y * nat (row_size w) + (x * 3 + c))"
        by (simp add: img nth_append bmp_header_length)
      also have "\<dots> = ?rows ! y ! (x * 3 + c)" using y in_row [OF that] by (intro nth_concat_rect [OF rect]) simp_all
      finally show ?thesis using y bmp_row_pixel [OF assms(1) x that] by simp
    qed
    have "y * nat (row_size w) + nat (row_size w) \<le> nat h * nat (row_size w)"
      using y by (metis Suc_leI mult_Suc add.commute mult_le_mono1)
    then have "54 + y * nat (row_size w) + x * 3 + 2 < length img"
      using in_row [of 2] body by (simp add: img bmp_header_length)
    then have "take 3 (drop (54 + y * nat (row_size w) + x * 3) img) = bmp_pixel w h y x"
      using at [of 0] at [of 1] at [of 2] by (simp add: three_entries bmp_pixel_def)
    moreover have "int (x * 255) = int x * 255" by simp
    ultimately show ?thesis using assms(1,2) by (simp add: bmp_pixel_def trunc_div_nonneg)
  qed
  moreover have "of_le (take 4 (drop 2 img)) = int (length img)"
    using pos assms(2) fits(1) len unfolding head by (subst of_le_bytes) simp_all
  moreover have "of_le (take 4 (drop 10 img)) = 54" unfolding head by (simp add: of_le_def)
  moreover have "of_le (take 4 (drop 18 img)) = w" "of_le (take 4 (drop 22 img)) = h"
    unfolding head using of_le_bytes w h assms(1,2) by simp_all
  ultimately show ?thesis using len bmp_bytes [OF assms(3)] row_size_fits(3) [OF assms(1)] by blast
qed

text \<open>A latency budget has no effect on the text and image tasks of the unified tuner: any two budgets give the
  same answer, and for sparse models every budget is refused.\<close>

theorem budget_ignored:
  "lembed_autotune_unified_config env TASK_EMBEDDING name b1 result_ok fs =
     lembed_autotune_unified_config env TASK_EMBEDDING name b2 result_ok fs \<and>
   lembed_autotune_unified_config env TASK_IMAGE name b1 result_ok fs =
     lembed_autotune_unified_config env TASK_IMAGE name b2 result_ok fs \<and>
   lembed_autotune_unified_config env TASK_SPARSE name b1 True fs = Some (UNSUPPORTED, Some (unified_zero TASK_SPARSE), fs)"
  by (simp add: lembed_autotune_unified_config_def TASK_EMBEDDING_def TASK_IMAGE_def TASK_SPARSE_def TASK_RERANKING_def)

text \<open>Whatever the task, the unified tuner leaves no field of the result undefined: it stores a result for the
  task it was given, all of whose other fields are zero unless the status is success.\<close>

theorem unified_result_total:
  assumes "lembed_autotune_unified env task name mode True fs = Some (s, r, fs') \<or>
    lembed_autotune_unified_config env task name target True fs = Some (s, r, fs')"
  shows "\<exists>u. r = Some u \<and> ut_task u = task \<and> (s \<noteq> OK \<longrightarrow> u = unified_zero task)"
proof -
  have "answered task (lembed_autotune_unified env task name mode True fs)"
    "answered task (lembed_autotune_unified_config env task name target True fs)"
    by (simp_all add: lembed_autotune_unified_def lembed_autotune_unified_config_def answered_tasks answered_refused)
  with assms show ?thesis by (auto simp: answered_def)
qed

text \<open>A model that is not in its registry is reported as missing by the text task only: the rerank, image and
  sparse tasks report a runtime error, because each of their configurations fails on its own.\<close>

theorem unknown_model_reported:
  fixes env :: "'f::floor_ceiling tune_env"
  assumes "lembed_resolve_text_model (Some n) = (-1, e)" and "lembed_resolve_reranker_model (Some n) = (-1, e2)" and "rerank_index n < 0"
    and "lembed_find_image_model_by_code (Some n) < 0" and "lembed_find_sparse_model_by_code (Some n) < 0"
    and "read_reranker_cache env (default_reranker_identity n (generate_synthetic_corpus 20) OBJECTIVE_BALANCED mode) fs = None"
  shows "lembed_autotune_unified env TASK_EMBEDDING (Some n) mode True fs = Some (MODEL_NOT_FOUND, Some (unified_zero TASK_EMBEDDING), fs) \<and>
    lembed_autotune_unified env TASK_RERANKING (Some n) mode True fs = Some (ONNX_RUNTIME, Some (unified_zero TASK_RERANKING), fs) \<and>
    lembed_autotune_unified env TASK_IMAGE (Some n) mode True fs = Some (ONNX_RUNTIME, Some (unified_zero TASK_IMAGE), fs) \<and>
    lembed_autotune_unified env TASK_SPARSE (Some n) mode True fs = Some (ONNX_RUNTIME, Some (unified_zero TASK_SPARSE), fs)"
proof -
  note tasks = TASK_EMBEDDING_def TASK_RERANKING_def TASK_IMAGE_def TASK_SPARSE_def
  have embedding: "lembed_autotune env (Some n) mode True fs = Some (MODEL_NOT_FOUND, None, fs)"
    by (simp add: lembed_autotune_def assms(1))
  have "bench_reranker_config env n docs q w k cfg = (case cfg of (t, b, m) \<Rightarrow>
      rerank_zero\<lparr>rt_threads := t, rt_batch := b, rt_max_tokens := m, rt_latency := SENTINEL\<rparr>)" for docs q w k cfg
    using assms(3) by (auto simp: bench_reranker_config_def Let_def split: prod.splits)
  then have "keep_best (beats OBJECTIVE_BALANCED) no_tuning (map (bench_reranker_config env n docs q w k) cfgs) = no_tuning" for docs q w k cfgs
    by (intro fitter.keep_best_none)
      (auto simp: beats_def score_reranker_config_def no_tuning_def rerank_zero_def OBJECTIVE_BALANCED_def OBJECTIVE_LATENCY_def
        OBJECTIVE_THROUGHPUT_def split: prod.splits)
  moreover have "canonical_reranker_id (Some n) = n" by (simp add: canonical_reranker_id_def assms(2))
  ultimately have rerank: "lembed_reranker_autotune env (Some n) mode OBJECTIVE_BALANCED True fs = (ONNX_RUNTIME, Some rerank_zero, fs)"
    using assms(6) by (simp add: lembed_reranker_autotune_def default_tune_def lembed_reranker_autotune_impl_def Let_def no_tuning_def)
  have "bench_image_config env n im w k cfg = Some (case cfg of (t, b) \<Rightarrow>
      image_zero\<lparr>gt_threads := t, gt_batch := b, gt_latency := SENTINEL\<rparr>)" for im w k cfg
    using assms(4) by (auto simp: bench_image_config_def Let_def split: prod.splits)
  then have "those (map (bench_image_config env n im w k) cfgs) =
      Some (map (\<lambda>(t, b). image_zero\<lparr>gt_threads := t, gt_batch := b, gt_latency := SENTINEL\<rparr>) cfgs)" for im w k cfgs
    by (induction cfgs) auto
  moreover have "keep_best (\<lambda>r best. gt_latency r < gt_latency best) (image_start :: 'f image_tuning)
      (map (\<lambda>(t, b). image_zero\<lparr>gt_threads := t, gt_batch := b, gt_latency := SENTINEL\<rparr>) cfgs) = image_start" for cfgs
    by (intro faster.keep_best_none) (auto simp: image_start_def)
  ultimately have image: "lembed_image_autotune env (Some n) mode True = Some (ONNX_RUNTIME, Some image_zero)"
    by (simp add: lembed_image_autotune_def Let_def image_start_def)
  have "filter (\<lambda>r. \<not> st_latency r \<ge> SENTINEL) (map (bench_sparse_config env n th b ts w k) cfgs) = []" for th b ts w k cfgs
    using assms(5) by (auto simp: filter_empty_conv bench_sparse_config_def Let_def split: prod.splits)
  then have sparse: "lembed_sparse_autotune env (Some n) mode True = (ONNX_RUNTIME, Some sparse_zero)"
    by (simp add: lembed_sparse_autotune_def Let_def sparse_start_def)
  show ?thesis
    by (simp add: lembed_autotune_unified_def tune_text_def tune_rerank_def tune_image_def tune_sparse_def embedding rerank image sparse
        passed_on_def tasks)
qed

section \<open>Concrete tunings\<close>

theorem benchmark_image_exact_witness:
  "\<exists>img. create_benchmark_image 224 224 = Some img \<and> int (length img) = 150582 \<and> of_le (take 4 (drop 2 img)) = 150582"
proof -
  have r: "row_size 224 = 672" by (simp add: row_size_def trunc_div_nonneg)
  obtain img where "create_benchmark_image 224 224 = Some img"
    by (simp add: create_benchmark_image_def in_int_def INT_MIN_def INT_MAX_def r)
  with benchmark_image_exact [OF _ _ this] show ?thesis by (simp add: r)
qed

lemma sample_sparse_bench:
  "bench_sparse_config sample_tune_env ''Qdrant/Splade_PP_en_v1'' 4 256 (replicate 20 sparse_bench_text) w (bench_iters 0) (k, m, f) =
    sparse_zero\<lparr>st_top_k := k, st_min_weight := m, st_format := f, st_threads := 4, st_batch := 256,
      st_latency := of_int k, st_throughput := rate_at (of_int k) 20\<rparr>"
proof -
  have i: "lembed_find_sparse_model_by_code (Some ''Qdrant/Splade_PP_en_v1'') = 0" by code_simp
  have run: "bn_sparse_run sample_tune_env opts ts = (\<lambda>i. (OK, of_int (so_top_k opts)))" for opts ts
    by (simp add: sample_tune_env_def)
  have "bn_sparse_open sample_tune_env opts = OK" for opts by (simp add: sample_tune_env_def)
  then show ?thesis
    by (simp add: bench_sparse_config_def i run constant_times median_time_def constant_percentile bench_iters_def Let_def sparse_zero_def)
qed

lemma sample_sparse_tuned:
  "lembed_sparse_autotune sample_tune_env (Some ''Qdrant/Splade_PP_en_v1'') 0 True =
     (OK, Some (sparse_zero\<lparr>st_top_k := 32, st_threads := 4, st_batch := 256, st_latency := 32, st_throughput := 625\<rparr>))"
  unfolding lembed_sparse_autotune_def tuned_sparse_grid_def
  by (simp add: sample_sparse_bench rate_at_def SENTINEL_def sparse_start_def sparse_zero_def)

theorem unified_result_total_witness:
  "\<exists>u. lembed_autotune_unified sample_tune_env TASK_SPARSE (Some ''Qdrant/Splade_PP_en_v1'') 0 True [] = Some (OK, Some u, []) \<and>
     ut_task u = TASK_SPARSE \<and> ut_top_k u = 32"
proof -
  let ?r = "sparse_zero\<lparr>st_top_k := 32, st_threads := 4, st_batch := 256, st_latency := 32, st_throughput := 625\<rparr> :: rat sparse_tune_result"
  have run: "lembed_autotune_unified sample_tune_env TASK_SPARSE (Some ''Qdrant/Splade_PP_en_v1'') 0 True [] = Some (OK, Some (of_sparse ?r), [])"
    by (simp add: lembed_autotune_unified_def tune_sparse_def sample_sparse_tuned passed_on_def TASK_EMBEDDING_def TASK_RERANKING_def
        TASK_IMAGE_def TASK_SPARSE_def)
  show ?thesis
    using unified_result_total [OF disjI1 [OF run]] run by (simp add: of_sparse_def unified_zero_def sparse_zero_def)
qed

theorem unknown_model_reported_witness:
  "lembed_autotune_unified sample_tune_env TASK_SPARSE (Some ''none'') 0 True [] = Some (ONNX_RUNTIME, Some (unified_zero TASK_SPARSE), []) \<and>
   lembed_autotune_unified sample_tune_env TASK_EMBEDDING (Some ''none'') 0 True [] =
     Some (MODEL_NOT_FOUND, Some (unified_zero TASK_EMBEDDING), [])"
proof -
  have "fst (lembed_resolve_text_model (Some ''none'')) = -1" "fst (lembed_resolve_reranker_model (Some ''none'')) = -1"
    "rerank_index ''none'' < 0" "lembed_find_image_model_by_code (Some ''none'') < 0" "lembed_find_sparse_model_by_code (Some ''none'') < 0"
    by code_simp+
  then show ?thesis
    using unknown_model_reported [of "''none''" "snd (lembed_resolve_text_model (Some ''none''))"
        "snd (lembed_resolve_reranker_model (Some ''none''))" sample_tune_env 0 "[]"] empty_rerank_cold
    by (metis prod.collapse)
qed

end
