(* ===== verification/ModelSelect.thy ===== *)
theory ModelSelect
  imports AutotuneText
begin

text \<open>
  The selection of a text model for a use case (\<open>detail/model_selector.hpp\<close> and \<open>lembed_auto_select_model\<close> in
  \<open>src/python/csrc/libembedding_shlib.cpp\<close>), which tunes every candidate and compares weighted sums, and the
  models recommended for the embedding modes (\<open>detail/embedding_mode_impl.hpp\<close>).
\<close>

section \<open>Candidates\<close>

record 'f category =
  ca_code :: string
  ca_name :: string
  ca_dim :: int
  ca_max_tokens :: int
  ca_quantization :: int
  ca_quality :: 'f

definition g_models :: "'f::linordered_field category list" where
  "g_models = map (\<lambda>(code, name, d, n, q, quality).
       \<lparr>ca_code = code, ca_name = name, ca_dim = d, ca_max_tokens = n, ca_quantization = q, ca_quality = quality\<rparr>)
     [(''Qdrant/all-MiniLM-L6-v2-onnx'', ''all-MiniLM-L6-v2'', 384, 512, 0, 7),
      (''Xenova/all-MiniLM-L6-v2'', ''all-MiniLM-L6-v2-Q'', 384, 512, 2, 65 / 10),
      (''Qdrant/all-MiniLM-L12-v2-onnx'', ''all-MiniLM-L12-v2'', 384, 512, 0, 75 / 10),
      (''Xenova/bge-small-en-v1.5'', ''bge-small-en-v1.5'', 384, 512, 0, 85 / 10),
      (''Xenova/bge-base-en-v1.5'', ''bge-base-en-v1.5'', 768, 512, 0, 9),
      (''Xenova/paraphrase-multilingual-MiniLM-L12-v2'', ''paraphrase-multilingual-MiniLM-L12-v2'', 384, 512, 0, 7),
      (''intfloat/multilingual-e5-small'', ''multilingual-e5-small'', 384, 512, 0, 8)]"

record 'f model_selection =
  ms_code :: string
  ms_name :: string
  ms_dim :: int
  ms_workers :: int
  ms_threads :: int
  ms_batch :: int
  ms_throughput :: 'f
  ms_latency :: 'f
  ms_memory :: 'f
  ms_score :: 'f

section \<open>Selection\<close>

definition score_model :: "'f::linordered_field \<Rightarrow> 'f \<Rightarrow> 'f \<Rightarrow> 'f \<Rightarrow> string \<Rightarrow> 'f" where
  "score_model thr lat mem quality use_case =
     (if use_case = ''speed'' then thr * 10 - lat * (1 / 2) - mem * (1 / 100) + quality * 2
      else if use_case = ''quality'' then quality * 100 + thr * (1 / 10) - lat * (1 / 10) - mem * (5 / 1000)
      else thr * 5 + quality * 10 - lat * (2 / 10) - mem * (1 / 100))"

definition selection_of :: "'f::linordered_field category \<Rightarrow> 'f text_tuning \<Rightarrow> string \<Rightarrow> 'f model_selection" where
  "selection_of cat tune use_case =
     (let mem = of_int (tt_workers tune) * 100
      in \<lparr>ms_code = ca_code cat, ms_name = ca_name cat, ms_dim = ca_dim cat, ms_workers = tt_workers tune,
          ms_threads = tt_threads tune, ms_batch = tt_batch tune, ms_throughput = tt_throughput tune,
          ms_latency = tt_latency tune, ms_memory = mem,
          ms_score = score_model (tt_throughput tune) (tt_latency tune) mem (ca_quality cat) use_case\<rparr>)"

text \<open>
  The best score, the selection if one was found, and the file system, which every tuning may extend. A
  tuning that fails may still have stored its result, which is not read. Every tuning times its runs anew: the
  \<open>i\<close>-th one sees the clock \<open>clock i\<close>, so two candidates need not get the same times for the same configuration.
\<close>

type_synonym 'f tune_clock = "nat \<Rightarrow> text_options \<Rightarrow> string list list \<Rightarrow> 'f"

definition timed :: "'f::floor_ceiling tune_env \<Rightarrow> 'f tune_clock \<Rightarrow> nat \<Rightarrow> 'f tune_env" where
  "timed env clock i = env\<lparr>bn_text_ms := clock i\<rparr>"

fun select_loop ::
    "'f::floor_ceiling tune_env \<Rightarrow> 'f tune_clock \<Rightarrow> string \<Rightarrow> nat \<Rightarrow> 'f category list \<Rightarrow> 'f \<Rightarrow> 'f model_selection option \<Rightarrow> fsys
      \<Rightarrow> ('f model_selection option \<times> fsys) option" where
  "select_loop env clock use_case i [] best_score sel fs = Some (sel, fs)"
| "select_loop env clock use_case i (cat # cats) best_score sel fs =
     (case lembed_autotune (timed env clock i) (Some (ca_code cat)) AUTOTUNE_QUICK True fs of
        None \<Rightarrow> None
      | Some (s, r, fs') \<Rightarrow>
          if s \<noteq> OK then select_loop env clock use_case (Suc i) cats best_score sel fs'
          else
            let found = selection_of cat (case r of Some tune \<Rightarrow> tune | None \<Rightarrow> text_zero) use_case in
            if ms_score found > best_score then select_loop env clock use_case (Suc i) cats (ms_score found) (Some found) fs'
            else select_loop env clock use_case (Suc i) cats best_score sel fs')"

type_synonym 'f select_answer = "(status \<times> 'f model_selection option \<times> fsys) option"

definition auto_select_impl :: "'f::floor_ceiling tune_env \<Rightarrow> 'f tune_clock \<Rightarrow> string option \<Rightarrow> fsys \<Rightarrow> 'f select_answer" where
  "auto_select_impl env clock use_case fs =
     (let use = (case use_case of None \<Rightarrow> ''balanced'' | Some u \<Rightarrow> u) in
      if use \<noteq> ''speed'' \<and> use \<noteq> ''quality'' \<and> use \<noteq> ''balanced'' then Some (INVALID_ARGUMENT, None, fs)
      else (case select_loop env clock use 0 g_models (- (10 ^ 18)) None fs of
              None \<Rightarrow> None
            | Some (None, fs') \<Rightarrow> Some (MODEL_NOT_FOUND, None, fs')
            | Some (Some sel, fs') \<Rightarrow> Some (OK, Some sel, fs')))"

definition lembed_auto_select_model ::
    "'f::floor_ceiling tune_env \<Rightarrow> 'f tune_clock \<Rightarrow> string option \<Rightarrow> bool \<Rightarrow> fsys \<Rightarrow> 'f select_answer" where
  "lembed_auto_select_model env clock use_case result_ok fs =
     (if \<not> result_ok then Some (INVALID_ARGUMENT, None, fs)
      else auto_select_impl env clock (Some (case use_case of None \<Rightarrow> ''balanced'' | Some u \<Rightarrow> u)) fs)"

section \<open>Modes\<close>

definition MODE_FAST :: int where "MODE_FAST = 0"
definition MODE_BALANCED :: int where "MODE_BALANCED = 1"
definition MODE_QUALITY :: int where "MODE_QUALITY = 2"

definition mode_to_string :: "int \<Rightarrow> string" where
  "mode_to_string mode =
     (if mode = MODE_FAST then ''fast'' else if mode = MODE_BALANCED then ''balanced''
      else if mode = MODE_QUALITY then ''quality'' else ''unknown'')"

definition TEXT_BGE_BASE_EN_V15 :: int where "TEXT_BGE_BASE_EN_V15 = 5"
definition TEXT_BGE_SMALL_EN_V15 :: int where "TEXT_BGE_SMALL_EN_V15 = 9"
definition TEXT_PARAPHRASE_ML_MINILM_L12_V2_Q :: int where "TEXT_PARAPHRASE_ML_MINILM_L12_V2_Q = 15"

definition recommended_model_for_mode :: "int \<Rightarrow> int" where
  "recommended_model_for_mode mode =
     (if mode = MODE_FAST then TEXT_PARAPHRASE_ML_MINILM_L12_V2_Q
      else if mode = MODE_BALANCED then TEXT_BGE_SMALL_EN_V15
      else if mode = MODE_QUALITY then TEXT_BGE_BASE_EN_V15
      else TEXT_MODEL_COUNT)"

section \<open>Facts\<close>

lemma timed_fields [simp]:
  "bn_machine (timed env clock i) = bn_machine env" "bn_stod (timed env clock i) = bn_stod env"
  "bn_show (timed env clock i) = bn_show env" "bn_calls (timed env clock i) = bn_calls env"
  by (simp_all add: timed_def)

lemma timed_files [simp]:
  "text_cold (timed env clock i) = text_cold env" "write_text_cache (timed env clock i) = write_text_cache env"
  unfolding fun_eq_iff text_cold_def read_text_cache_def read_tuning_entry_def write_text_cache_def write_entry_def timed_fields
  by simp_all

lemma score_quality: "score_model t l m q1 u < score_model t l m q2 u \<longleftrightarrow> q1 < q2"
  by (simp add: score_model_def)

text \<open>Entries of different models have different files, none of which is the temporary file of another.\<close>

lemma text_paths:
  assumes "sanitize_for_key (Some a) \<noteq> sanitize_for_key (Some b)"
  shows "entry_path m [] (text_cache_identity (Some a) v c mode) \<noteq> entry_path m [] (text_cache_identity (Some b) v c mode)"
    and "entry_path m [] (text_cache_identity (Some a) v c mode) \<noteq> entry_path m [] (text_cache_identity (Some b) v c mode) @ ''.tmp''"
proof -
  let ?k = "cache_variant_key (Some (case v of None \<Rightarrow> [] | Some v \<Rightarrow> v)) c (-1) mode"
  have s: "sanitize_for_key (Some (x @ y)) = sanitize_for_key (Some x) @ sanitize_for_key (Some y)" for x y
    by (simp add: sanitize_for_key_def)
  show "entry_path m [] (text_cache_identity (Some a) v c mode) \<noteq> entry_path m [] (text_cache_identity (Some b) v c mode)"
    using assms by (cases "?k = []") (simp_all add: entry_path_def get_cache_path_def get_cache_key_def text_cache_identity_def s)
  have last: "last (entry_path m [] i) = CHR ''n''" for i
    by (simp add: entry_path_def get_cache_path_def Let_def)
  show "entry_path m [] (text_cache_identity (Some a) v c mode) \<noteq> entry_path m [] (text_cache_identity (Some b) v c mode) @ ''.tmp''"
  proof
    assume "entry_path m [] (text_cache_identity (Some a) v c mode) = entry_path m [] (text_cache_identity (Some b) v c mode) @ ''.tmp''"
    then have "last (entry_path m [] (text_cache_identity (Some a) v c mode)) = CHR ''p''" by simp
    then show False by (simp add: last)
  qed
qed

lemma read_text_same:
  assumes "map_of fs (entry_path (bn_machine env) [] i) = map_of fs' (entry_path (bn_machine env) [] i)"
  shows "read_text_cache env i fs = read_text_cache env i fs'"
  unfolding read_text_cache_def read_tuning_entry_def cache_identity_matches_def json_string_in_file_def
    json_number_in_file_def Let_def assms ..

text \<open>Recording the tuning of one model leaves the others without one.\<close>

lemma cold_after_other:
  assumes "sanitize_for_key (Some (model_code (text_models ! nat a))) \<noteq> sanitize_for_key (Some (model_code (text_models ! nat b)))"
    and "text_cold env a [] mode fs"
  shows "text_cold env a [] mode (write_text_cache env (text_identity (text_models ! nat b) [] mode) r fs)"
proof -
  have "map_of (write_text_cache env (text_identity (text_models ! nat b) [] mode) r fs)
      (entry_path (bn_machine env) [] (text_identity (text_models ! nat a) [] mode)) =
    map_of fs (entry_path (bn_machine env) [] (text_identity (text_models ! nat a) [] mode))"
    unfolding write_text_cache_def using text_paths [OF assms(1)] by (intro write_entry_other) (simp_all add: text_identity_def)
  then show ?thesis using assms(2) read_text_same unfolding text_cold_def by metis
qed

definition fresh_category :: "'f::floor_ceiling tune_env \<Rightarrow> fsys \<Rightarrow> 'f category \<Rightarrow> bool" where
  "fresh_category env fs cat \<longleftrightarrow>
     (let idx = fst (lembed_resolve_text_model (Some (ca_code cat))) in
      idx < 0 \<or> idx < TEXT_MODEL_COUNT \<and> model_code (text_models ! nat idx) = ca_code cat \<and> text_cold env idx [] AUTOTUNE_QUICK fs)"

definition quick_found :: "'f::floor_ceiling tune_env \<Rightarrow> ('f \<times> 'f text_tuning) list" where
  "quick_found env = List.map_filter (text_candidate env (bench_corpus [] AUTOTUNE_QUICK))
     (text_grid AUTOTUNE_QUICK (logical_cores (bn_machine env)))"

definition quick_best :: "'f::floor_ceiling tune_env \<Rightarrow> 'f text_tuning" where
  "quick_best env = snd (keep_best (\<lambda>x y. fst x > fst y) (- (10 ^ 18), default_tuning) (quick_found env))"

text \<open>What one candidate contributes, and the loop over the candidates as a search for the best of these.\<close>

fun made :: "'f::floor_ceiling tune_env \<Rightarrow> 'f tune_clock \<Rightarrow> string \<Rightarrow> nat \<times> 'f category \<Rightarrow> 'f model_selection option" where
  "made env clock use (i, cat) =
     (if fst (lembed_resolve_text_model (Some (ca_code cat))) < 0 \<or> quick_found (timed env clock i) = [] then None
      else Some (selection_of cat (quick_best (timed env clock i)) use))"

abbreviation ranked :: "'f model_selection list \<Rightarrow> ('f \<times> 'f model_selection option) list" where
  "ranked ms \<equiv> map (\<lambda>m. (ms_score m, Some m)) ms"

lemma select_loop_cold:
  assumes "1 \<le> logical_cores (bn_machine env)" and "\<forall>cat \<in> set cats. fresh_category env fs cat"
    and "distinct (map (\<lambda>cat. sanitize_for_key (Some (ca_code cat))) cats)"
  shows "\<exists>fs'. select_loop env clock use i cats s sel fs =
    Some (snd (keep_best (\<lambda>x y. fst x > fst y) (s, sel) (ranked (List.map_filter (made env clock use) (enumerate i cats)))), fs')"
  using assms(2,3)
proof (induction cats arbitrary: i s sel fs)
  case (Cons cat cats)
  let ?idx = "fst (lembed_resolve_text_model (Some (ca_code cat)))" and ?env = "timed env clock i"
  show ?case
  proof (cases "?idx < 0")
    case True
    then have "lembed_autotune ?env (Some (ca_code cat)) AUTOTUNE_QUICK True fs = Some (MODEL_NOT_FOUND, None, fs)"
      by (simp add: lembed_autotune_def)
    with True Cons show ?thesis by (simp add: map_filter_simps)
  next
    case False
    let ?fs = "write_text_cache env (text_identity (text_models ! nat ?idx) [] AUTOTUNE_QUICK) (quick_best ?env) fs"
    have idx: "0 \<le> ?idx" "?idx < TEXT_MODEL_COUNT" "text_cold env ?idx [] AUTOTUNE_QUICK fs" "model_code (text_models ! nat ?idx) = ca_code cat"
      using False Cons.prems(1) by (simp_all add: fresh_category_def Let_def)
    then have run: "lembed_autotune ?env (Some (ca_code cat)) AUTOTUNE_QUICK True fs =
        (if quick_found ?env = [] then Some (ONNX_RUNTIME, Some text_zero, fs) else Some (OK, Some (quick_best ?env), ?fs))"
      using autotune_cold [OF idx(1,2), of ?env "[]" AUTOTUNE_QUICK fs] assms(1) False
      by (simp add: lembed_autotune_def quick_found_def quick_best_def)
    have "fresh_category env ?fs c" if "c \<in> set cats" for c
    proof -
      have "sanitize_for_key (Some (ca_code c)) \<in> (\<lambda>cat. sanitize_for_key (Some (ca_code cat))) ` set cats"
        using that by (rule imageI)
      moreover have "sanitize_for_key (Some (ca_code cat)) \<notin> (\<lambda>cat. sanitize_for_key (Some (ca_code cat))) ` set cats"
        using Cons.prems(2) by simp
      ultimately have "sanitize_for_key (Some (ca_code c)) \<noteq> sanitize_for_key (Some (ca_code cat))" by metis
      moreover have "fresh_category env fs c" using that Cons.prems(1) by simp
      ultimately show ?thesis 
        using cold_after_other [of "fst (lembed_resolve_text_model (Some (ca_code c)))" ?idx env AUTOTUNE_QUICK fs "quick_best ?env"] idx(4)
        by (auto simp: fresh_category_def Let_def)
    qed
    then have "\<exists>fs'. select_loop env clock use (Suc i) cats s' sel' ?fs = Some (snd (keep_best (\<lambda>x y. fst x > fst y) (s', sel')
        (ranked (List.map_filter (made env clock use) (enumerate (Suc i) cats)))), fs')" for s' sel'
      using Cons.IH Cons.prems(2) by simp
    with False run Cons show ?thesis by (simp add: map_filter_simps Let_def)
  qed
qed (simp add: map_filter_simps)

definition category_codes :: "string list" where
  "category_codes = [''Qdrant/all-MiniLM-L6-v2-onnx'', ''Xenova/all-MiniLM-L6-v2'', ''Qdrant/all-MiniLM-L12-v2-onnx'',
     ''Xenova/bge-small-en-v1.5'', ''Xenova/bge-base-en-v1.5'', ''Xenova/paraphrase-multilingual-MiniLM-L12-v2'',
     ''intfloat/multilingual-e5-small'']"

lemma g_models_codes: "map ca_code g_models = category_codes"
  by (simp add: g_models_def category_codes_def)

lemma codes_resolve: "map (\<lambda>c. fst (lembed_resolve_text_model (Some c))) category_codes = [0, 1, -1, 9, 5, 14, 21]"
  by code_simp

lemma codes_found: "list_all2 (\<lambda>c i. i < 0 \<or> model_code (text_models ! nat i) = c) category_codes [0, 1, -1, 9, 5, 14, 21]"
  by code_simp

lemma codes_distinct: "distinct (map (\<lambda>c. sanitize_for_key (Some c)) category_codes)"
  by code_simp

lemma selection_ranks: "ms_score (selection_of c t u) < ms_score (selection_of d t u) \<longleftrightarrow> ca_quality c < ca_quality d"
  by (simp add: selection_of_def score_quality Let_def)

section \<open>Properties\<close>

text \<open>The candidates as numbers, and what each offers when its numbers are those of the default model.\<close>

definition DEFAULT_CODE :: string where "DEFAULT_CODE = ''Xenova/bge-small-en-v1.5''"

definition offer :: "'f::floor_ceiling tune_env \<Rightarrow> 'f tune_clock \<Rightarrow> string \<Rightarrow> fsys \<Rightarrow> nat \<Rightarrow> 'f model_selection option" where
  "offer env clock use fs i =
     (if i \<in> {0, 1, 3, 4, 5, 6}
      then case lembed_autotune (timed env clock i) (Some DEFAULT_CODE) AUTOTUNE_QUICK True fs of
             Some (s, Some t, _) \<Rightarrow> if s = OK then Some (selection_of (g_models ! i) t use) else None
           | _ \<Rightarrow> None
      else None)"

lemma fresh_candidates:
  assumes "\<forall>model \<in> {0, 1, 5, 9, 14, 21}. text_cold env model [] AUTOTUNE_QUICK fs"
  shows "\<forall>cat \<in> set (g_models :: 'f::floor_ceiling category list). fresh_category env fs cat"
proof
  fix cat :: "'f category" assume "cat \<in> set g_models"
  then have "ca_code cat \<in> set category_codes" using g_models_codes by (metis image_eqI list.set_map)
  then obtain i where i: "i < length category_codes" "ca_code cat = category_codes ! i" by (metis in_set_conv_nth)
  let ?r = "[0, 1, -1, 9, 5, 14, 21] :: int list"
  have "fst (lembed_resolve_text_model (Some (ca_code cat))) = ?r ! i"
    using i codes_resolve by (metis (no_types, lifting) nth_map)
  moreover have "?r ! i < 0 \<or> model_code (text_models ! nat (?r ! i)) = ca_code cat"
    using codes_found i by (simp add: list_all2_conv_all_nth)
  moreover have "?r ! i \<in> set ?r" using i(1) by (intro nth_mem) (simp add: category_codes_def)
  ultimately show "fresh_category env fs cat" using assms by (auto simp: fresh_category_def TEXT_MODEL_COUNT_def Let_def)
qed

lemma offer_made:
  assumes "1 \<le> logical_cores (bn_machine env)" and "text_cold env 9 [] AUTOTUNE_QUICK fs" and "i < 7"
  shows "offer env clock use fs i = made env clock use (i, g_models ! i)"
proof -
  have idx: "fst (lembed_resolve_text_model (Some DEFAULT_CODE)) = 9"
    using codes_resolve by (simp add: category_codes_def DEFAULT_CODE_def)
  have run: "lembed_autotune (timed env clock i) (Some DEFAULT_CODE) AUTOTUNE_QUICK True fs =
      (if quick_found (timed env clock i) = [] then Some (ONNX_RUNTIME, Some text_zero, fs)
       else Some (OK, Some (quick_best (timed env clock i)),
         write_text_cache env (text_identity (text_models ! nat 9) [] AUTOTUNE_QUICK) (quick_best (timed env clock i)) fs))"
    using autotune_cold [of 9 "timed env clock i" "[]" AUTOTUNE_QUICK fs] assms(1,2) idx
    by (simp add: lembed_autotune_def quick_found_def quick_best_def TEXT_MODEL_COUNT_def)
  have "map (\<lambda>cat. fst (lembed_resolve_text_model (Some (ca_code cat)))) (g_models :: 'a category list) = [0, 1, -1, 9, 5, 14, 21]"
    using codes_resolve g_models_codes by (metis (no_types, lifting) list.map_comp map_cong comp_apply)
  moreover have "length (g_models :: 'a category list) = 7" by (simp add: g_models_def)
  ultimately have "fst (lembed_resolve_text_model (Some (ca_code (g_models ! i :: 'a category)))) = [0, 1, -1, 9, 5, 14, 21] ! i"
    using assms(3) by (metis (no_types, lifting) nth_map)
  moreover have "i \<in> {0, 1, 2, 3, 4, 5, 6}" using assms(3) by auto
  ultimately show ?thesis using run by (auto simp: offer_def)
qed

lemma numbered: "enumerate 0 (g_models :: 'f::linordered_field category list) = map (\<lambda>i. (i, g_models ! i)) [0..<7]"
proof (rule nth_equalityI)
  have "length (g_models :: 'f category list) = 7" by (simp add: g_models_def)
  then show "length (enumerate 0 (g_models :: 'f category list)) = length (map (\<lambda>i. (i, g_models ! i :: 'f category)) [0..<7])" by simp
  fix i
  assume "i < length (enumerate 0 (g_models :: 'f category list))"
  with \<open>length g_models = 7\<close> show "enumerate 0 (g_models :: 'f category list) ! i = map (\<lambda>i. (i, g_models ! i)) [0..<7] ! i"
    by (simp add: nth_enumerate_eq)
qed

lemma map_filter_image: "(\<And>x. x \<in> set xs \<Longrightarrow> f (g x) = h x) \<Longrightarrow> List.map_filter f (map g xs) = List.map_filter h xs"
  by (induction xs) (auto simp: map_filter_simps split: option.split)

text \<open>The first of the best among numbered selections.\<close>

lemma first_best:
  fixes f :: "nat \<Rightarrow> 'f::floor_ceiling model_selection option"
  assumes "\<forall>i. f i \<noteq> None \<longrightarrow> i < n"
  obtains "keep_best (\<lambda>x y. fst x > fst y) (s, None) (ranked (List.map_filter f [0..<n])) = (s, None)"
      "\<forall>j m. f j = Some m \<longrightarrow> ms_score m \<le> s"
  | i m where "keep_best (\<lambda>x y. fst x > fst y) (s, None) (ranked (List.map_filter f [0..<n])) = (ms_score m, Some m)"
      "f i = Some m" "s < ms_score m"
      "\<forall>j m'. f j = Some m' \<longrightarrow> ms_score m' \<le> ms_score m \<and> (j < i \<longrightarrow> ms_score m' < ms_score m)"
proof (cases rule: scored.keep_best_cases [of "(s, None)" "ranked (List.map_filter f [0..<n])"])
  case 1
  have "ms_score m \<le> s" if "f j = Some m" for j m
  proof -
    have "j \<in> set [0..<n]" using that assms by fastforce
    then have "m \<in> set (List.map_filter f [0..<n])" using that by (force simp: List.map_filter_def)
    with 1(2) show ?thesis by (auto simp: not_less)
  qed
  with 1(1) that(1) show thesis by blast
next
  case (2 r pre post)
  then obtain f1 m f2 where parts: "List.map_filter f [0..<n] = f1 @ m # f2" "r = (ms_score m, Some m)" "pre = ranked f1" "post = ranked f2"
    by (auto simp: map_eq_append_conv)
  obtain p i q where split: "[0..<n] = p @ i # q" "f i = Some m" "List.map_filter f p = f1" "List.map_filter f q = f2"
    using map_filter_split [OF parts(1)] by auto
  have "ms_score m' \<le> ms_score m \<and> (j < i \<longrightarrow> ms_score m' < ms_score m)" if j: "f j = Some m'" for j m'
  proof -
    have "j \<in> set [0..<n]" using j assms by fastforce
    then have "j \<in> set p \<or> j = i \<or> j \<in> set q" unfolding split(1) by auto
    moreover have "ms_score m' < ms_score m" if "j \<in> set p"
      using in_map_filter [OF that, of f] j split(3) 2(4) parts(2,3) by fastforce
    moreover have "ms_score m' \<le> ms_score m" if "j \<in> set q"
      using in_map_filter [OF that, of f] j split(4) 2(5) parts(2,4) by fastforce
    moreover have "sorted_wrt (<) (p @ i # q)" using split(1) by (metis sorted_wrt_upt)
    ultimately show ?thesis using j split(2) by (fastforce simp: sorted_wrt_append)
  qed
  with 2(1,3) parts(2) split(2) that(2) show thesis by auto
qed

text \<open>With the same times for every tuning, the nominal quality decides.\<close>

lemma equal_clocks:
  assumes "offer env clock use fs i = Some sel" and "\<forall>j. clock j = clock 0"
    and "\<forall>j s. offer env clock use fs j = Some s \<longrightarrow> ms_score s \<le> ms_score sel"
  shows "ms_name sel = ''bge-base-en-v1.5''"
proof -
  have i: "i \<in> {0, 1, 3, 4, 5, 6}" using assms(1) unfolding offer_def by (metis option.distinct(1))
  then obtain t fs1 where sel: "sel = selection_of (g_models ! i) t use"
    and tuned: "lembed_autotune (timed env clock i) (Some DEFAULT_CODE) AUTOTUNE_QUICK True fs = Some (OK, Some t, fs1)"
    using assms(1) unfolding offer_def if_P [OF i] by (auto split: option.splits prod.splits if_splits)
  have "clock 4 = clock i" using assms(2) by metis
  then have "timed env clock 4 = timed env clock i" by (simp add: timed_def)
  then have "offer env clock use fs 4 = Some (selection_of (g_models ! 4) t use)" by (simp add: offer_def tuned)
  then have "\<not> ca_quality (g_models ! i :: 'a category) < ca_quality (g_models ! 4 :: 'a category)"
    using assms(3) unfolding selection_ranks [of _ t use, symmetric] sel by (simp add: not_less)
  then have "i = 4" using i by (auto simp: g_models_def)
  then show ?thesis by (simp add: sel selection_of_def g_models_def Let_def)
qed

lemma cold_loop:
  assumes "1 \<le> logical_cores (bn_machine env)" and "\<forall>model \<in> {0, 1, 5, 9, 14, 21}. text_cold env model [] AUTOTUNE_QUICK fs"
  shows "\<exists>fs'. select_loop env clock use 0 g_models (- (10 ^ 18)) None fs =
    Some (snd (keep_best (\<lambda>x y. fst x > fst y) (- (10 ^ 18), None) (ranked (List.map_filter (offer env clock use fs) [0..<7]))), fs')"
proof -
  have distinct: "distinct (map (\<lambda>cat. sanitize_for_key (Some (ca_code cat))) (g_models :: 'a category list))"
    using codes_distinct g_models_codes by (metis (no_types, lifting) list.map_comp map_cong comp_apply)
  have "offer env clock use fs i = made env clock use (i, g_models ! i)" if "i < 7" for i
    using offer_made [OF assms(1) _ that] assms(2) by simp
  then have "List.map_filter (made env clock use) (enumerate 0 g_models) = List.map_filter (offer env clock use fs) [0..<7]"
    unfolding numbered by (intro map_filter_image) simp
  then show ?thesis
    using select_loop_cold [OF assms(1) fresh_candidates [OF assms(2)] distinct, of clock use 0 "- (10 ^ 18)" None] by auto
qed

text \<open>C18. On a cold cache the selection says nothing about the candidates' own speed. Whatever the clock shows in each
  of the tunings, a candidate of the registry is judged by what tuning the default model at that moment would have
  measured; the answer is the first candidate whose score from these numbers is best, and there is none exactly if
  no such tuning gives a score above the initial one. If every tuning measures the same, the nominal quality alone
  decides, also for \<open>speed\<close>: the answer is \<open>bge-base-en-v1.5\<close>.\<close>

theorem selection_times_default:
  assumes "1 \<le> logical_cores (bn_machine env)" and "\<forall>model \<in> {0, 1, 5, 9, 14, 21}. text_cold env model [] AUTOTUNE_QUICK fs"
    and "use \<in> {''speed'', ''quality'', ''balanced''}"
  shows "\<exists>fs'. (\<exists>i sel. lembed_auto_select_model env clock (Some use) True fs = Some (OK, Some sel, fs') \<and>
        offer env clock use fs i = Some sel \<and> - (10 ^ 18) < ms_score sel \<and>
        (\<forall>j s. offer env clock use fs j = Some s \<longrightarrow> ms_score s \<le> ms_score sel \<and> (j < i \<longrightarrow> ms_score s < ms_score sel)) \<and>
        ((\<forall>j. clock j = clock 0) \<longrightarrow> ms_name sel = ''bge-base-en-v1.5'')) \<or>
      lembed_auto_select_model env clock (Some use) True fs = Some (MODEL_NOT_FOUND, None, fs') \<and>
        (\<forall>j s. offer env clock use fs j = Some s \<longrightarrow> ms_score s \<le> - (10 ^ 18))"
proof -
  let ?offer = "offer env clock use fs"
  have valid: "\<not> (use \<noteq> ''speed'' \<and> use \<noteq> ''quality'' \<and> use \<noteq> ''balanced'')" using assms(3) by blast
  obtain fs' where loop: "select_loop env clock use 0 g_models (- (10 ^ 18)) None fs =
      Some (snd (keep_best (\<lambda>x y. fst x > fst y) (- (10 ^ 18), None) (ranked (List.map_filter ?offer [0..<7]))), fs')"
    using cold_loop [OF assms(1,2)] by blast
  have few: "\<forall>i. ?offer i \<noteq> None \<longrightarrow> i < 7" by (auto simp: offer_def)
  show ?thesis
  proof (cases rule: first_best [where f = ?offer and n = 7 and s = "- (10 ^ 18)", OF few])
    case 1
    then have "lembed_auto_select_model env clock (Some use) True fs = Some (MODEL_NOT_FOUND, None, fs')"
      using loop by (simp add: lembed_auto_select_model_def auto_select_impl_def valid)
    with 1(2) show ?thesis by blast
  next
    case (2 i sel)
    then have "lembed_auto_select_model env clock (Some use) True fs = Some (OK, Some sel, fs')"
      using loop by (simp add: lembed_auto_select_model_def auto_select_impl_def valid)
    with 2 equal_clocks [OF 2(2)] show ?thesis by blast
  qed
qed

text \<open>The third candidate can never be selected: its repository is not in the registry, so its tuning reports a
  missing model on every machine. Every other candidate is found, with the dimension of its registry entry.\<close>

theorem third_candidate_missing:
  "lembed_autotune env (Some (ca_code (g_models ! 2 :: rat category))) mode True fs = Some (MODEL_NOT_FOUND, None, fs) \<and>
   list_all (\<lambda>i. let idx = fst (lembed_resolve_text_model (Some (ca_code (g_models ! i :: rat category))))
      in 0 \<le> idx \<and> model_dim (text_models ! nat idx) = ca_dim (g_models ! i :: rat category)) [0, 1, 3, 4, 5, 6]"
proof -
  have "fst (lembed_resolve_text_model (Some (ca_code (g_models ! 2 :: rat category)))) = -1" by code_simp
  moreover have "list_all (\<lambda>i. let idx = fst (lembed_resolve_text_model (Some (ca_code (g_models ! i :: rat category))))
      in 0 \<le> idx \<and> model_dim (text_models ! nat idx) = ca_dim (g_models ! i :: rat category)) [0, 1, 3, 4, 5, 6]" by code_simp
  ultimately show ?thesis by (simp add: lembed_autotune_def Let_def)
qed

section \<open>A sample selection\<close>

lemma sample_corpus: "length (bench_corpus [] 0) = 16" "bench_corpus [] 0 \<noteq> []"
  by (simp_all add: bench_corpus_def generate_corpus_def AUTOTUNE_QUICK_def)

lemma sample_synthetic:
  "text_candidate sample_tune_env (bench_corpus [] 0) (w, t, b) =
     (if w \<le> 0 then None
      else let thr = (if w = 4 then 8000 else 4000); lat = (if w = 4 then 1 / 8 else 1 / 4) in
        Some (score_text_config thr lat (of_int w * 100),
          \<lparr>tt_workers = w, tt_threads = t, tt_batch = b, tt_throughput = thr, tt_latency = lat, tt_memory = of_int w * 100\<rparr>))"
proof -
  have n: "nat w = 4 \<longleftrightarrow> w = 4" by auto
  have "benchmark_text_config sample_tune_env (bench_corpus [] 0) w t b =
      (if w \<le> 0 then None else Some (if w = 4 then 8000 else 4000, if w = 4 then 1 / 8 else 1 / 4))"
    using sample_corpus by (simp add: benchmark_text_config_def sample_tune_env_def list_ex_iff n)
  then show ?thesis by (simp add: text_candidate_def Let_def)
qed

text \<open>On the sample machine, where every model runs and every tuning sees the same clock, with an empty cache and the
  use case \<open>speed\<close>.\<close>

theorem selection_times_default_witness:
  "\<exists>sel fs'. lembed_auto_select_model sample_tune_env (\<lambda>_. bn_text_ms sample_tune_env) (Some ''speed'') True [] =
       Some (OK, Some sel, fs') \<and> ms_name sel = ''bge-base-en-v1.5''"
proof -
  let ?clock = "\<lambda>_ :: nat. bn_text_ms sample_tune_env"
  have env: "timed sample_tune_env ?clock i = sample_tune_env" for i by (simp add: timed_def)
  have cores: "1 \<le> logical_cores (bn_machine sample_tune_env)" by (simp add: sample_cores)
  have "List.map_filter (text_candidate sample_tune_env (bench_corpus [] 0)) (text_grid 0 8) =
    [(4000, \<lparr>tt_workers = 1, tt_threads = 1, tt_batch = 32, tt_throughput = 4000, tt_latency = 1 / 4, tt_memory = 100\<rparr>),
     (8000, \<lparr>tt_workers = 4, tt_threads = 1, tt_batch = 32, tt_throughput = 8000, tt_latency = 1 / 8, tt_memory = 400\<rparr>),
     (3997, \<lparr>tt_workers = 8, tt_threads = 1, tt_batch = 32, tt_throughput = 4000, tt_latency = 1 / 4, tt_memory = 800\<rparr>)]"
    by (simp add: quick_grid sample_synthetic map_filter_simps score_text_config_def Let_def)
  then have found: "quick_found sample_tune_env \<noteq> []" "tt_workers (quick_best sample_tune_env) = 4"
    "tt_throughput (quick_best sample_tune_env) = 8000" "tt_latency (quick_best sample_tune_env) = 1 / 8"
    by (simp_all add: quick_found_def quick_best_def sample_cores AUTOTUNE_QUICK_def)
  have "\<not> fst (lembed_resolve_text_model (Some (ca_code (g_models ! 4 :: rat category)))) < 0" by code_simp
  then have "offer sample_tune_env ?clock ''speed'' [] 4 = Some (selection_of (g_models ! 4) (quick_best sample_tune_env) ''speed'')"
    using found(1) by (simp add: offer_made [OF cores empty_cold] env)
  moreover have "- (10 ^ 18) < ms_score (selection_of (g_models ! 4) (quick_best sample_tune_env) ''speed'')"
    by (simp add: selection_of_def score_model_def found g_models_def Let_def)
  ultimately have above: "\<not> (\<forall>j s. offer sample_tune_env ?clock ''speed'' [] j = Some s \<longrightarrow> ms_score s \<le> - (10 ^ 18))"
    using not_le by blast
  show ?thesis
    using selection_times_default [OF cores, of "[]" "''speed''" ?clock] empty_cold above by blast
qed

end
