(* ===== verification/EmbeddingBenchmark.thy ===== *)
theory EmbeddingBenchmark
  imports TextCreate Pooling AutotuneReranker
begin

text \<open>
  The choice among the GGUF models of a directory (\<open>detail/embedding_benchmark_impl.hpp\<close>,
  \<open>embedding_benchmark.h\<close>): the retrieval quality of a model, the number of sessions, the hard constraints,
  the Pareto frontier, the score. \<open>None\<close> is undefined behaviour.
\<close>

section \<open>The world and the data\<close>

record 'f bench_weights =
  bw_quality :: 'f
  bw_throughput :: 'f
  bw_cost :: 'f

record 'f bench_constraints =
  bc_quality_min :: 'f
  bc_throughput_min :: 'f
  bc_memory_max :: 'f

record 'f candidate =
  cd_path :: string
  cd_name :: string
  cd_quality :: 'f
  cd_throughput :: 'f
  cd_file_mb :: 'f
  cd_score :: 'f
  cd_sessions :: int
  cd_dim :: int
  cd_dominated :: bool

text \<open>
  The square root; a session created from a file, with the dimension it reports; the row it computes for
  a text, if any; the measured rate of a pool of sessions, 0 if it cannot be loaded; the size of a file,
  0 if it cannot be read; what \<open>std::sort\<close> makes of the candidates; and the directories.
\<close>

record 'f bench_world =
  eb_sqrt :: "'f \<Rightarrow> 'f"
  eb_open :: "string \<Rightarrow> status \<times> int"
  eb_embed :: "string \<Rightarrow> string \<Rightarrow> 'f list option"
  eb_pool_rate :: "string \<Rightarrow> nat \<Rightarrow> 'f"
  eb_file_mb :: "string \<Rightarrow> 'f"
  eb_sort :: "'f candidate list \<Rightarrow> 'f candidate list"
  eb_scan :: "string \<Rightarrow> (string \<times> bool) list option"
  eb_profile :: "string option"
  eb_home :: "string option"

section \<open>Retrieval quality\<close>

definition q_corpus :: "string list" where
  "q_corpus =
    [''Machine learning algorithms learn patterns from data without explicit programming'',
     ''Deep neural networks use backpropagation for training multi-layer architectures'',
     ''The stock market experienced significant volatility due to economic uncertainty'',
     ''Investment portfolios should be diversified across asset classes'',
     ''The football match ended in a dramatic penalty shootout championship'',
     ''Soccer players train extensively for endurance and tactical awareness'',
     ''Climate change is causing rising sea levels and extreme weather events'',
     ''Renewable energy sources like solar and wind reduce carbon emissions'',
     ''The Renaissance period saw remarkable achievements in art and science'',
     ''Ancient Roman architecture influenced building design for centuries'',
     ''Quantum computing uses qubits to perform calculations faster than classical computers'',
     ''Cryptographic protocols secure communications using mathematical primitives'']"

definition q_tests :: "(string \<times> nat list) list" where
  "q_tests =
    [(''AI and machine learning'', [0, 1]), (''neural network training'', [1, 0]),
     (''financial markets and investing'', [2, 3]), (''sports competition'', [4, 5]),
     (''environmental science'', [6, 7]), (''history and culture'', [8, 9]), (''computer science advances'', [10, 11])]"

definition cosine_sim :: "('f::linordered_field \<Rightarrow> 'f) \<Rightarrow> 'f list \<Rightarrow> 'f list \<Rightarrow> 'f" where
  "cosine_sim sqrt' a b =
     (let denom = sqrt' (dot a a) * sqrt' (dot b b) in if denom > 1 / 10 ^ 8 then dot a b / denom else 0)"

text \<open>The row that is copied; a row that is missing or too short is read outside its buffer.\<close>

definition bench_row :: "'f bench_world \<Rightarrow> string \<Rightarrow> int \<Rightarrow> string \<Rightarrow> 'f list option" where
  "bench_row w path width t =
     (case eb_embed w path t of None \<Rightarrow> None | Some row \<Rightarrow> if int (length row) < width then None else Some (take (nat width) row))"

text \<open>\<open>std::greater\<close> on pairs.\<close>

definition pair_greater :: "'f::linorder \<times> nat \<Rightarrow> 'f \<times> nat \<Rightarrow> bool" where
  "pair_greater x y \<longleftrightarrow> fst x > fst y \<or> fst x = fst y \<and> snd x > snd y"

definition test_hit :: "'f::linordered_field list \<Rightarrow> nat list \<Rightarrow> bool" where
  "test_hit sims relevant =
     list_ex (\<lambda>s. snd s \<in> set relevant) (take 3 (sort_by pair_greater (zip sims [0..<length sims])))"

fun count_recalls :: "'f::linordered_field bench_world \<Rightarrow> string \<Rightarrow> int \<Rightarrow> 'f list list \<Rightarrow> (string \<times> nat list) list \<Rightarrow> nat option" where
  "count_recalls w path width docs [] = Some 0"
| "count_recalls w path width docs ((query, relevant) # ts) =
     (case bench_row w path width query of
        None \<Rightarrow> None
      | Some q \<Rightarrow>
          (case count_recalls w path width docs ts of
             None \<Rightarrow> None
           | Some n \<Rightarrow> Some ((if test_hit (map (cosine_sim (eb_sqrt w) q) docs) relevant then 1 else 0) + n)))"

definition measure_quality :: "'f::linordered_field bench_world \<Rightarrow> string \<Rightarrow> int \<Rightarrow> 'f option" where
  "measure_quality w path width =
     (case those (map (bench_row w path width) q_corpus) of
        None \<Rightarrow> None
      | Some docs \<Rightarrow>
          (case count_recalls w path width docs q_tests of None \<Rightarrow> None | Some hits \<Rightarrow> Some (of_nat hits / of_nat (length q_tests))))"

section \<open>Sessions\<close>

fun sessions_loop :: "(nat \<Rightarrow> 'f::linordered_field) \<Rightarrow> nat list \<Rightarrow> 'f \<Rightarrow> nat \<Rightarrow> nat \<Rightarrow> nat \<times> 'f" where
  "sessions_loop rate [] best best_n plateau = (best_n, best)"
| "sessions_loop rate (n # ns) best best_n plateau =
     (if rate n > best then sessions_loop rate ns (rate n) n 0
      else if rate n < best * (95 / 100)
      then (if Suc plateau \<ge> 2 then (best_n, best) else sessions_loop rate ns best best_n (Suc plateau))
      else sessions_loop rate ns best best_n plateau)"

definition detect_optimal_sessions :: "'f::linordered_field bench_world \<Rightarrow> string \<Rightarrow> int \<Rightarrow> nat \<times> 'f" where
  "detect_optimal_sessions w path max_sessions = sessions_loop (eb_pool_rate w path) [1..<Suc (nat max_sessions)] 0 1 0"

section \<open>The Pareto frontier\<close>

text \<open>The comparison the candidates are sorted by, and the one that prunes, both with tolerances.\<close>

definition before :: "'f::linordered_field candidate \<Rightarrow> 'f candidate \<Rightarrow> bool" where
  "before a b =
     (if \<bar>cd_quality a - cd_quality b\<bar> > 1 / 100 then cd_quality a > cd_quality b
      else if \<bar>cd_throughput a - cd_throughput b\<bar> > 1 then cd_throughput a > cd_throughput b
      else cd_file_mb a < cd_file_mb b)"

definition outdoes :: "'f::linordered_field candidate \<Rightarrow> 'f candidate \<Rightarrow> bool" where
  "outdoes a b \<longleftrightarrow>
     (cd_throughput a \<ge> cd_throughput b - 1 \<and> cd_file_mb a \<le> cd_file_mb b + 1 / 2) \<and>
     (cd_quality a > cd_quality b + 1 / 100 \<or> cd_throughput a > cd_throughput b + 1 \<or> cd_file_mb a < cd_file_mb b - 1 / 2)"

function frontier_search :: "'f::linordered_field candidate list \<Rightarrow> nat list \<Rightarrow> 'f \<Rightarrow> nat \<Rightarrow> nat \<Rightarrow> nat" where
  "frontier_search cs frontier t lo hi =
     (if lo < hi
      then let mid = lo + (hi - lo) div 2 in
        if cd_throughput (cs ! (frontier ! mid)) \<ge> t - 1 then frontier_search cs frontier t (Suc mid) hi
        else frontier_search cs frontier t lo mid
      else lo)"
  by pat_completeness auto
termination by (relation "measure (\<lambda>(cs, frontier, t, lo, hi). hi - lo)") auto

declare frontier_search.simps [simp del]

text \<open>Inserting behind the end of what the pruning has left of the frontier is undefined.\<close>

definition pareto_step :: "'f::linordered_field candidate list \<times> nat list \<Rightarrow> nat \<Rightarrow> ('f candidate list \<times> nat list) option" where
  "pareto_step st i =
     (case st of (cs, frontier) \<Rightarrow>
        let lo = frontier_search cs frontier (cd_throughput (cs ! i)) 0 (length frontier)
        in if list_ex (\<lambda>idx. outdoes (cs ! idx) (cs ! i)) (take lo frontier)
           then Some (cs[i := (cs ! i)\<lparr>cd_dominated := True\<rparr>], frontier)
           else
             let left = filter (\<lambda>idx. \<not> outdoes (cs ! i) (cs ! idx)) frontier
             in if lo > length left then None else Some (cs, take lo left @ i # drop lo left))"

fun pareto_loop :: "'f::linordered_field candidate list \<times> nat list \<Rightarrow> nat list \<Rightarrow> ('f candidate list \<times> nat list) option" where
  "pareto_loop st [] = Some st"
| "pareto_loop st (i # is) = (case pareto_step st i of None \<Rightarrow> None | Some st' \<Rightarrow> pareto_loop st' is)"

definition compute_pareto :: "'f::linordered_field bench_world \<Rightarrow> 'f candidate list \<Rightarrow> 'f candidate list option" where
  "compute_pareto w cands =
     (let cs = map (\<lambda>c. c\<lparr>cd_dominated := False\<rparr>) cands in
      if length cs \<le> 1 then Some cs
      else map_option fst (pareto_loop (eb_sort w cs, []) [0..<length cs]))"

section \<open>One model\<close>

definition lembed_benchmark_profile_weights :: "int \<Rightarrow> 'f::linordered_field bench_weights" where
  "lembed_benchmark_profile_weights obj =
     (if obj = OBJECTIVE_THROUGHPUT then \<lparr>bw_quality = 20 / 100, bw_throughput = 70 / 100, bw_cost = 10 / 100\<rparr>
      else if obj = OBJECTIVE_LATENCY then \<lparr>bw_quality = 70 / 100, bw_throughput = 20 / 100, bw_cost = 10 / 100\<rparr>
      else if obj = OBJECTIVE_MEMORY then \<lparr>bw_quality = 40 / 100, bw_throughput = 10 / 100, bw_cost = 50 / 100\<rparr>
      else \<lparr>bw_quality = 50 / 100, bw_throughput = 30 / 100, bw_cost = 20 / 100\<rparr>)"

definition lembed_benchmark_custom_weights :: "'f::linordered_field \<Rightarrow> 'f \<Rightarrow> 'f \<Rightarrow> 'f bench_weights" where
  "lembed_benchmark_custom_weights q t c =
     (let s = q + t + c; s = (if s \<le> 0 then 1 else s)
      in \<lparr>bw_quality = q / s, bw_throughput = t / s, bw_cost = c / s\<rparr>)"

text \<open>The two checks of the constraints, of which 0 disables each, and the candidate with its score.\<close>

definition unfit :: "'f::linordered_field bench_constraints option \<Rightarrow> 'f \<Rightarrow> 'f \<Rightarrow> bool" where
  "unfit constraints quality mb \<longleftrightarrow> (case constraints of None \<Rightarrow> False | Some c \<Rightarrow>
     bc_quality_min c > 0 \<and> quality < bc_quality_min c \<or> bc_memory_max c > 0 \<and> mb > bc_memory_max c)"

definition too_slow :: "'f::linordered_field bench_constraints option \<Rightarrow> 'f \<Rightarrow> bool" where
  "too_slow constraints tps \<longleftrightarrow> (case constraints of None \<Rightarrow> False | Some c \<Rightarrow> bc_throughput_min c > 0 \<and> tps < bc_throughput_min c)"

definition composite_score :: "'f::linordered_field bench_weights \<Rightarrow> 'f \<Rightarrow> 'f \<Rightarrow> 'f \<Rightarrow> 'f" where
  "composite_score wts quality tps mb =
     bw_quality wts * quality + bw_throughput wts * min (tps / 300) 1 + bw_cost wts * min (20 / max mb 1) 1"

definition candidate_of :: "string \<Rightarrow> string \<Rightarrow> 'f::linordered_field bench_weights \<Rightarrow> 'f \<Rightarrow> 'f \<Rightarrow> nat \<times> 'f \<Rightarrow> int \<Rightarrow> 'f candidate" where
  "candidate_of path name wts quality mb found width =
     \<lparr>cd_path = path, cd_name = name, cd_quality = quality, cd_throughput = snd found, cd_file_mb = mb,
      cd_score = composite_score wts quality (snd found) mb, cd_sessions = int (fst found), cd_dim = width, cd_dominated = False\<rparr>"

text \<open>The score and the candidate, or nothing with the score -1.\<close>

definition benchmark_model ::
    "'f::linordered_field bench_world \<Rightarrow> string \<Rightarrow> string \<Rightarrow> 'f bench_constraints option \<Rightarrow> 'f bench_weights
      \<Rightarrow> ('f \<times> 'f candidate option) option" where
  "benchmark_model w path name constraints wts =
     (if fst (eb_open w path) \<noteq> OK then Some (-1, None)
      else
        let width = snd (eb_open w path) in
        (case measure_quality w path width of
           None \<Rightarrow> None
         | Some quality \<Rightarrow>
             if unfit constraints quality (eb_file_mb w path) then Some (-1, None)
             else
               let found = detect_optimal_sessions w path 8 in
               if too_slow constraints (snd found) then Some (-1, None)
               else
                 let c = candidate_of path name wts quality (eb_file_mb w path) found width in Some (cd_score c, Some c)))"

section \<open>Selection\<close>

text \<open>\<open>extension()\<close> and \<open>stem()\<close> of a path.\<close>

definition path_extension :: "string \<Rightarrow> string" where
  "path_extension p =
     (let f = path_filename p; ext = rev (takeWhile (\<lambda>c. c \<noteq> CHR ''.'') (rev f))
      in if f = ''..'' \<or> CHR ''.'' \<notin> set f \<or> length f = Suc (length ext) then [] else CHR ''.'' # ext)"

definition path_stem :: "string \<Rightarrow> string" where
  "path_stem p = (let f = path_filename p in take (length f - length (path_extension p)) f)"

record 'f bench_result =
  br_path :: string
  br_name :: string
  br_backend :: string
  br_batch :: int
  br_threads :: int
  br_dim :: int
  br_throughput :: 'f
  br_quality :: 'f
  br_score :: 'f
  br_file_mb :: 'f
  br_rank :: int

definition lembed_benchmark_default_cache_dir :: "'f bench_world \<Rightarrow> string" where
  "lembed_benchmark_default_cache_dir w =
     (case eb_profile w of Some p \<Rightarrow> p | None \<Rightarrow> (case eb_home w of Some h \<Rightarrow> h | None \<Rightarrow> ''.'')) @ ''/.cache/libembedding''"

definition gguf_files :: "(string \<times> bool) list \<Rightarrow> string list" where
  "gguf_files listed = map fst (filter (\<lambda>(p, regular). regular \<and> path_extension p = ''.gguf'') listed)"

fun benchmark_all ::
    "'f::linordered_field bench_world \<Rightarrow> 'f bench_constraints option \<Rightarrow> 'f bench_weights \<Rightarrow> string list \<Rightarrow> 'f candidate list option" where
  "benchmark_all w constraints wts [] = Some []"
| "benchmark_all w constraints wts (m # ms) =
     (case benchmark_model w m (path_stem m) constraints wts of
        None \<Rightarrow> None
      | Some (score, c) \<Rightarrow>
          (case benchmark_all w constraints wts ms of
             None \<Rightarrow> None
           | Some cs \<Rightarrow> Some ((case c of Some c \<Rightarrow> if score \<ge> 0 then [c] else [] | None \<Rightarrow> []) @ cs)))"

text \<open>The score to beat starts at -1.\<close>

fun best_undominated :: "'f::linordered_field candidate list \<Rightarrow> 'f \<Rightarrow> 'f candidate option \<Rightarrow> 'f candidate option" where
  "best_undominated [] best_score best = best"
| "best_undominated (c # cs) best_score best =
     (if cd_dominated c then best_undominated cs best_score best
      else if cd_score c > best_score then best_undominated cs (cd_score c) (Some c)
      else best_undominated cs best_score best)"

definition truncated :: "nat \<Rightarrow> string \<Rightarrow> string" where
  "truncated size_of s = take (size_of - 1) s"

definition result_of :: "'f::linordered_field candidate \<Rightarrow> 'f bench_result" where
  "result_of c =
     \<lparr>br_path = truncated 512 (cd_path c), br_name = truncated 128 (cd_name c), br_backend = ''llama.cpp'', br_batch = cd_sessions c,
      br_threads = (if cd_sessions c > 1 then 1 else 4), br_dim = cd_dim c, br_throughput = cd_throughput c,
      br_quality = cd_quality c, br_score = cd_score c, br_file_mb = cd_file_mb c, br_rank = 1\<rparr>"

definition lembed_benchmark_select_model ::
    "'f::linordered_field bench_world \<Rightarrow> string option \<Rightarrow> int \<Rightarrow> 'f bench_constraints option \<Rightarrow> 'f bench_weights option \<Rightarrow> bool
      \<Rightarrow> (status \<times> 'f bench_result option) option" where
  "lembed_benchmark_select_model w model_dir objective constraints custom result_ok =
     (if \<not> result_ok then Some (INVALID_ARGUMENT, None)
      else
        let dir = (case model_dir of Some d \<Rightarrow> d | None \<Rightarrow> lembed_benchmark_default_cache_dir w);
            wts = (case custom of Some v \<Rightarrow> v | None \<Rightarrow> lembed_benchmark_profile_weights objective)
        in (case eb_scan w dir of
              None \<Rightarrow> Some (IO_ERROR, None)
            | Some listed \<Rightarrow>
                if gguf_files listed = [] then Some (MODEL_NOT_FOUND, None)
                else (case benchmark_all w constraints wts (gguf_files listed) of
                        None \<Rightarrow> None
                      | Some cands \<Rightarrow>
                          if cands = [] then Some (MODEL_NOT_FOUND, None)
                          else (case compute_pareto w cands of
                                  None \<Rightarrow> None
                                | Some cs \<Rightarrow>
                                    (case best_undominated cs (-1) None of
                                       None \<Rightarrow> Some (MODEL_NOT_FOUND, None)
                                     | Some c \<Rightarrow> Some (OK, Some (result_of c)))))))"

definition lembed_benchmark_detect_sessions ::
    "'f::linordered_field bench_world \<Rightarrow> string option \<Rightarrow> int \<Rightarrow> bool \<Rightarrow> status \<times> (nat \<times> 'f) option" where
  "lembed_benchmark_detect_sessions w path max_sessions optimal_ok =
     (case path of
        None \<Rightarrow> (INVALID_ARGUMENT, None)
      | Some p \<Rightarrow> if \<not> optimal_ok \<or> max_sessions \<le> 0 then (INVALID_ARGUMENT, None)
                 else (OK, Some (detect_optimal_sessions w p max_sessions)))"

text \<open>The listed of one directory; a failure of the iteration keeps what was listed before it.\<close>

definition lembed_benchmark_list_models :: "(string \<times> bool) list \<Rightarrow> bool \<Rightarrow> bool \<Rightarrow> int \<Rightarrow> string list" where
  "lembed_benchmark_list_models listed dir_ok paths_ok max_models =
     (if \<not> dir_ok \<or> \<not> paths_ok \<or> max_models \<le> 0 then []
      else map (truncated 512) (take (nat max_models) (gguf_files listed)))"

section \<open>Facts\<close>

text \<open>The search only returns positions of the frontier, whatever the order of the frontier is.\<close>

lemma frontier_search_bounds: "lo \<le> hi \<Longrightarrow> lo \<le> frontier_search cs frontier t lo hi \<and> frontier_search cs frontier t lo hi \<le> hi"
proof (induction cs frontier t lo hi rule: frontier_search.induct)
  case (1 cs frontier t lo hi)
  show ?case
  proof (cases "lo < hi")
    case True
    let ?mid = "lo + (hi - lo) div 2"
    have mid: "lo \<le> ?mid" "Suc ?mid \<le> hi" "?mid \<le> hi" using True by auto
    show ?thesis
      using 1 True mid by (subst (1 2) frontier_search.simps) (auto simp: Let_def)
  qed (use 1 in \<open>simp add: frontier_search.simps\<close>)
qed

text \<open>What a run of the loop keeps: only flags change, the frontier holds positions, and every candidate that is
  marked is outdone by another one.\<close>

definition unmark :: "'f candidate \<Rightarrow> 'f candidate" where
  "unmark c = c\<lparr>cd_dominated := False\<rparr>"

lemma unmark_id: "\<not> cd_dominated c \<Longrightarrow> unmark c = c"
  by (cases c) (simp add: unmark_def)

lemma outdoes_flags [simp]:
  "outdoes (c\<lparr>cd_dominated := x\<rparr>) d = outdoes c d" "outdoes c (d\<lparr>cd_dominated := x\<rparr>) = outdoes c d"
  "outdoes (unmark c) d = outdoes c d" "outdoes c (unmark d) = outdoes c d"
  by (simp_all add: outdoes_def unmark_def)

definition marks_sound :: "'f::linordered_field candidate list \<Rightarrow> bool" where
  "marks_sound cs \<longleftrightarrow> (\<forall>i < length cs. cd_dominated (cs ! i) \<longrightarrow> (\<exists>j < length cs. outdoes (cs ! j) (cs ! i)))"

lemma pareto_step_keeps:
  assumes "pareto_step (cs, frontier) i = Some (cs', frontier')" and "i < length cs" and "set frontier \<subseteq> {..<length cs}" and "marks_sound cs"
  shows "length cs' = length cs \<and> map unmark cs' = map unmark cs \<and> set frontier' \<subseteq> {..<length cs} \<and> marks_sound cs' \<and>
    (\<forall>k < length cs. k \<noteq> i \<longrightarrow> cs' ! k = cs ! k)"
proof -
  let ?lo = "frontier_search cs frontier (cd_throughput (cs ! i)) 0 (length frontier)"
  show ?thesis
  proof (cases "list_ex (\<lambda>idx. outdoes (cs ! idx) (cs ! i)) (take ?lo frontier)")
    case True
    then obtain j where j: "j \<in> set frontier" "outdoes (cs ! j) (cs ! i)" by (auto simp: list_ex_iff dest: in_set_takeD)
    have cs': "cs' = cs[i := (cs ! i)\<lparr>cd_dominated := True\<rparr>]" "frontier' = frontier"
      using True assms(1) by (simp_all add: pareto_step_def Let_def)
    have same: "outdoes (cs' ! a) (cs' ! b) = outdoes (cs ! a) (cs ! b)" if "a < length cs" "b < length cs" for a b
      using that assms(2) by (auto simp: cs' nth_list_update)
    have "\<exists>l < length cs. outdoes (cs' ! l) (cs' ! k)" if "k < length cs" "cd_dominated (cs' ! k)" for k
    proof (cases "k = i")
      case True
      then show ?thesis using j assms(2,3) same by auto
    next
      case False
      then have "cd_dominated (cs ! k)" using that by (simp add: cs')
      then show ?thesis using assms(4) that(1) same unfolding marks_sound_def by metis
    qed
    then have "marks_sound cs'" by (simp add: marks_sound_def cs')
    moreover have "map unmark cs' = map unmark cs"
      using assms(2) by (intro nth_equalityI) (auto simp: cs' nth_list_update unmark_def)
    ultimately show ?thesis using assms(3) by (simp add: cs')
  next
    case False
    let ?left = "filter (\<lambda>idx. \<not> outdoes (cs ! i) (cs ! idx)) frontier"
    have "cs' = cs" "frontier' = take ?lo ?left @ i # drop ?lo ?left"
      using False assms(1) by (auto simp: pareto_step_def Let_def split: if_splits)
    moreover have "set (take ?lo ?left) \<subseteq> set frontier" "set (drop ?lo ?left) \<subseteq> set frontier"
      by (auto dest: in_set_takeD in_set_dropD)
    ultimately show ?thesis using assms(2,3,4) by auto
  qed
qed

lemma pareto_loop_keeps:
  "pareto_loop (cs, frontier) is = Some (cs', frontier') \<Longrightarrow> set is \<subseteq> {..<length cs} \<Longrightarrow> set frontier \<subseteq> {..<length cs} \<Longrightarrow> marks_sound cs \<Longrightarrow>
    length cs' = length cs \<and> map unmark cs' = map unmark cs \<and> marks_sound cs' \<and> (\<forall>k < length cs. k \<notin> set is \<longrightarrow> cs' ! k = cs ! k)"
proof (induction "is" arbitrary: cs frontier)
  case (Cons i "is")
  then obtain cs1 frontier1 where step: "pareto_step (cs, frontier) i = Some (cs1, frontier1)"
    and rest: "pareto_loop (cs1, frontier1) is = Some (cs', frontier')"
    by (auto split: option.splits)
  note kept = pareto_step_keeps [OF step]
  with Cons.prems Cons.IH [OF rest] show ?case by auto
qed simp

text \<open>The first candidate meets an empty frontier, so it stays.\<close>

lemma first_step: "pareto_step (cs, []) i = Some (cs, [i])"
proof -
  have "frontier_search cs [] t 0 0 = 0" for t by (subst frontier_search.simps) simp
  then show ?thesis by (simp add: pareto_step_def)
qed

text \<open>The loop over the undominated candidates.\<close>

lemma best_undominated_cases:
  "best_undominated cs s b = b \<and> (\<forall>c \<in> set cs. \<not> cd_dominated c \<longrightarrow> cd_score c \<le> s) \<or>
   (\<exists>c \<in> set cs. best_undominated cs s b = Some c \<and> \<not> cd_dominated c \<and> s < cd_score c \<and>
      (\<forall>d \<in> set cs. \<not> cd_dominated d \<longrightarrow> cd_score d \<le> cd_score c))"
proof (induction cs arbitrary: s b)
  case (Cons c cs)
  show ?case
  proof (cases "\<not> cd_dominated c \<and> s < cd_score c")
    case True
    then show ?thesis using Cons.IH [of "cd_score c" "Some c"] by (auto intro: less_imp_le)
  next
    case False
    then show ?thesis using Cons.IH [of s b] by auto
  qed
qed simp

text \<open>What one benchmark yields.\<close>

definition meets :: "'f::linordered_field bench_constraints option \<Rightarrow> 'f candidate \<Rightarrow> bool" where
  "meets constraints c \<longleftrightarrow> (case constraints of None \<Rightarrow> True | Some k \<Rightarrow>
     (bc_quality_min k > 0 \<longrightarrow> bc_quality_min k \<le> cd_quality c) \<and>
     (bc_memory_max k > 0 \<longrightarrow> cd_file_mb c \<le> bc_memory_max k) \<and>
     (bc_throughput_min k > 0 \<longrightarrow> bc_throughput_min k \<le> cd_throughput c))"

lemma benchmark_model_yields:
  assumes "benchmark_model w path name constraints wts = Some (s, Some c)"
  shows "meets constraints c \<and> cd_path c = path \<and> cd_name c = name \<and> cd_score c = s \<and> cd_file_mb c = eb_file_mb w path \<and>
    fst (eb_open w path) = OK \<and> \<not> cd_dominated c"
  using assms
  by (auto simp: benchmark_model_def Let_def candidate_of_def meets_def unfit_def too_slow_def not_less not_le
      split: if_splits option.splits)

lemma benchmark_all_yields:
  "benchmark_all w constraints wts ms = Some cs \<Longrightarrow> c \<in> set cs \<Longrightarrow>
    \<exists>m \<in> set ms. benchmark_model w m (path_stem m) constraints wts = Some (cd_score c, Some c) \<and> 0 \<le> cd_score c"
proof (induction ms arbitrary: cs)
  case (Cons m ms)
  obtain s answer where one: "benchmark_model w m (path_stem m) constraints wts = Some (s, answer)"
    using Cons.prems(1) by (cases "benchmark_model w m (path_stem m) constraints wts") auto
  then obtain cs' where rest: "benchmark_all w constraints wts ms = Some cs'"
    using Cons.prems(1) by (cases "benchmark_all w constraints wts ms") auto
  with one have cs: "cs = (case answer of Some c \<Rightarrow> if s \<ge> 0 then [c] else [] | None \<Rightarrow> []) @ cs'" using Cons.prems(1) by simp
  show ?case
  proof (cases "c \<in> set cs'")
    case True
    then show ?thesis using Cons.IH rest by auto
  next
    case False
    then have "answer = Some c" "0 \<le> s" using Cons.prems(2) cs by (auto split: option.splits if_splits)
    then show ?thesis using one benchmark_model_yields by fastforce
  qed
qed simp

lemma benchmark_all_complete:
  "benchmark_all w constraints wts ms = Some cs \<Longrightarrow> m \<in> set ms \<Longrightarrow>
    benchmark_model w m (path_stem m) constraints wts = Some (s, Some c) \<Longrightarrow> 0 \<le> s \<Longrightarrow> c \<in> set cs"
  by (induction ms arbitrary: cs) (auto split: option.splits prod.splits if_splits)

text \<open>A candidate that the benchmark of one of the models yields.\<close>

definition measured ::
    "'f::linordered_field bench_world \<Rightarrow> 'f bench_constraints option \<Rightarrow> 'f bench_weights \<Rightarrow> string list \<Rightarrow> 'f candidate \<Rightarrow> bool" where
  "measured w constraints wts models c \<longleftrightarrow>
     (\<exists>m \<in> set models. benchmark_model w m (path_stem m) constraints wts = Some (cd_score c, Some c))"

lemma measured_iff:
  assumes "benchmark_all w constraints wts models = Some cands"
  shows "c \<in> set cands \<longleftrightarrow> measured w constraints wts models c \<and> 0 \<le> cd_score c"
  using benchmark_all_yields [OF assms] benchmark_all_complete [OF assms] unfolding measured_def by blast

lemma measured_yields:
  assumes "measured w constraints wts models c"
  shows "cd_path c \<in> set models \<and> fst (eb_open w (cd_path c)) = OK \<and> meets constraints c \<and> \<not> cd_dominated c"
  using assms benchmark_model_yields unfolding measured_def by blast

lemma sessions_loop_rate: "0 \<le> best \<Longrightarrow> 0 \<le> snd (sessions_loop rate ns best n p)"
  by (induction ns arbitrary: best n p) (auto intro: less_imp_le order_trans)

lemma count_recalls_bound: "count_recalls w path width docs ts = Some n \<Longrightarrow> n \<le> length ts"
  by (induction ts arbitrary: n) (auto split: option.splits prod.splits if_splits)

lemma quality_bounds: "measure_quality w path width = Some q \<Longrightarrow> 0 \<le> q \<and> q \<le> 1"
proof -
  assume "measure_quality w path width = Some q"
  then obtain docs hits where "count_recalls w path width docs q_tests = Some hits" "q = of_nat hits / of_nat (length q_tests)"
    by (auto simp: measure_quality_def split: option.splits)
  moreover from this have "of_nat hits \<le> (of_nat (length q_tests) :: 'a)" using count_recalls_bound of_nat_mono by blast
  moreover have "0 < (of_nat (length q_tests) :: 'a)" by (simp add: q_tests_def)
  ultimately show ?thesis by (simp add: divide_le_eq)
qed

text \<open>In a list that a strict total order sorts, the position of an element is the number of those before it.\<close>

lemma position_counts:
  assumes "sorted_wrt (\<lambda>a b. \<not> lt b a) xs" and "distinct xs" and "k < length xs"
    and "\<And>a b. a \<in> set xs \<Longrightarrow> b \<in> set xs \<Longrightarrow> a \<noteq> b \<Longrightarrow> lt a b \<or> lt b a" and "\<And>a b. lt a b \<Longrightarrow> \<not> lt b a"
  shows "card {x \<in> set xs. lt x (xs ! k)} = k"
proof -
  have less: "lt (xs ! i) (xs ! j)" if "i < j" "j < length xs" for i j
  proof -
    have "\<not> lt (xs ! j) (xs ! i)" using sorted_wrt_nth_less [OF assms(1) that] .
    moreover have "xs ! i \<noteq> xs ! j" using that assms(2) by (simp add: nth_eq_iff_index_eq)
    ultimately show ?thesis using assms(4) [of "xs ! i" "xs ! j"] that by auto
  qed
  have "{x \<in> set xs. lt x (xs ! k)} = (\<lambda>i. xs ! i) ` {..<k}"
  proof (intro set_eqI iffI)
    fix x assume "x \<in> {x \<in> set xs. lt x (xs ! k)}"
    then obtain i where i: "i < length xs" "x = xs ! i" "lt (xs ! i) (xs ! k)" by (auto simp: in_set_conv_nth)
    have "i < k"
    proof (rule ccontr)
      assume "\<not> i < k"
      then have "k < i \<or> k = i" by linarith
      then show False using less [of k i] i assms(5) by blast
    qed
    then show "x \<in> (\<lambda>i. xs ! i) ` {..<k}" using i by blast
  qed (use less assms(3) in auto)
  moreover have "inj_on (\<lambda>i. xs ! i) {..<k}" using assms(2,3) by (auto simp: inj_on_def nth_eq_iff_index_eq)
  ultimately show ?thesis by (simp add: card_image)
qed

lemma pair_greater_total: "x \<noteq> y \<Longrightarrow> pair_greater x y \<or> pair_greater y x"
  by (cases x; cases y) (auto simp: pair_greater_def)

lemma pair_greater_asym: "pair_greater x y \<Longrightarrow> \<not> pair_greater y x"
  by (auto simp: pair_greater_def)

lemma pair_greater_weak: "strict_weak pair_greater"
  by (auto simp: strict_weak_def pair_greater_def)

lemma bex_take: "(\<exists>x \<in> set (take n ys). P x) \<longleftrightarrow> (\<exists>k < min n (length ys). P (ys ! k))"
proof
  assume "\<exists>x \<in> set (take n ys). P x"
  then obtain k where "k < length (take n ys)" "P (take n ys ! k)" by (metis in_set_conv_nth)
  then show "\<exists>k < min n (length ys). P (ys ! k)" by (auto simp: min.commute)
next
  assume "\<exists>k < min n (length ys). P (ys ! k)"
  then obtain k where k: "k < length (take n ys)" "P (take n ys ! k)" by auto
  then show "\<exists>x \<in> set (take n ys). P x" using nth_mem by blast
qed

text \<open>What holds after \<open>k\<close> measurements.\<close>

definition sessions_ok :: "(nat \<Rightarrow> 'f::linordered_field) \<Rightarrow> nat \<Rightarrow> 'f \<Rightarrow> nat \<Rightarrow> bool" where
  "sessions_ok rate k best n \<longleftrightarrow> best = Max (insert 0 (rate ` {1..k})) \<and>
     (best = rate n \<and> 1 \<le> n \<and> n \<le> k \<and> (\<forall>m \<in> {1..<n}. rate m < best) \<or> best = 0 \<and> n = 1)"

definition slow_after :: "(nat \<Rightarrow> 'f::linordered_field) \<Rightarrow> nat \<Rightarrow> 'f \<Rightarrow> nat \<Rightarrow> bool" where
  "slow_after rate k best n \<longleftrightarrow> (\<exists>j \<in> {n..k}. rate j < best * (95 / 100))"

lemma sessions_ok_step:
  assumes "sessions_ok rate k best n"
  shows "sessions_ok rate (Suc k) (max (rate (Suc k)) best) (if rate (Suc k) > best then Suc k else n)"
proof -
  have "{1..Suc k} = insert (Suc k) {1..k}" by auto
  then have "rate ` {1..Suc k} = insert (rate (Suc k)) (rate ` {1..k})" by simp
  then have "Max (insert 0 (rate ` {1..Suc k})) = max (rate (Suc k)) (Max (insert 0 (rate ` {1..k})))"
    by (simp only:) (subst insert_commute, subst Max_insert, auto)
  then have "Max (insert 0 (rate ` {1..Suc k})) = max (rate (Suc k)) best" using assms by (simp add: sessions_ok_def)
  moreover have "rate m \<le> best" if "m \<in> {1..k}" for m
  proof -
    have "rate m \<le> Max (insert 0 (rate ` {1..k}))" using that by (intro Max_ge) auto
    then show ?thesis using assms by (simp add: sessions_ok_def)
  qed
  ultimately show ?thesis
  proof (cases "rate (Suc k) > best")
    case True
    have "rate m < rate (Suc k)" if "m \<in> {1..<Suc k}" for m
    proof -
      have "rate m \<le> best" using \<open>\<And>m. m \<in> {1..k} \<Longrightarrow> rate m \<le> best\<close> that by simp
      then show ?thesis using True by (rule le_less_trans)
    qed
    with True \<open>Max (insert 0 (rate ` {1..Suc k})) = max (rate (Suc k)) best\<close> show ?thesis by (simp add: sessions_ok_def)
  next
    case False
    have "best = rate n \<and> 1 \<le> n \<and> n \<le> Suc k \<and> (\<forall>m \<in> {1..<n}. rate m < best) \<or> best = 0 \<and> n = 1"
      using assms by (metis le_Suc_eq sessions_ok_def)
    with False \<open>Max (insert 0 (rate ` {1..Suc k})) = max (rate (Suc k)) best\<close> show ?thesis by (simp add: sessions_ok_def)
  qed
qed

lemma sessions_loop_ok:
  assumes "sessions_ok rate k best n" and "k \<le> last_k" and "plateau < 2" and "plateau = 1 \<longrightarrow> slow_after rate k best n"
  shows "\<exists>k'. k' \<le> last_k \<and> (case sessions_loop rate [Suc k..<Suc last_k] best n plateau of (n', best') \<Rightarrow>
    sessions_ok rate k' best' n' \<and> (k' = last_k \<or> (\<exists>j \<in> {n'..<k'}. rate j < best' * (95 / 100) \<and> rate k' < best' * (95 / 100))))"
  using assms
proof (induction "last_k - k" arbitrary: k best n plateau)
  case 0
  then show ?case by (intro exI [of _ k]) simp
next
  case (Suc d)
  have front: "[Suc k..<Suc last_k] = Suc k # [Suc (Suc k)..<Suc last_k]" using Suc.hyps(2) by (intro upt_conv_Cons) simp
  have k: "d = last_k - Suc k" "Suc k \<le> last_k" using Suc.hyps(2) by auto
  note ok = sessions_ok_step [OF Suc.prems(1)]
  show ?case
  proof (cases "rate (Suc k) > best")
    case True
    then have "sessions_ok rate (Suc k) (rate (Suc k)) (Suc k)" using ok by (simp add: max_def split: if_splits)
    from Suc.hyps(1) [OF k(1) this k(2), of 0] True show ?thesis by (simp add: front del: upt_Suc)
  next
    case False
    then have same: "sessions_ok rate (Suc k) best n" using ok by (simp add: max_def)
    have later: "slow_after rate (Suc k) best n" if "slow_after rate k best n" using that by (auto simp: slow_after_def)
    show ?thesis
    proof (cases "rate (Suc k) < best * (95 / 100)")
      case slow: True
      show ?thesis
      proof (cases "plateau = 1")
        case True
        then obtain j where "j \<in> {n..k}" "rate j < best * (95 / 100)" using Suc.prems(4) by (auto simp: slow_after_def)
        then show ?thesis using same slow False True k(2)
          by (intro exI [of _ "Suc k"]) (auto simp: front simp del: upt_Suc intro!: bexI [of _ j])
      next
        case p: False
        have "n \<le> Suc k" using same by (auto simp: sessions_ok_def)
        then have "slow_after rate (Suc k) best n" using slow by (auto simp: slow_after_def)
        with Suc.hyps(1) [OF k(1) same k(2), of "Suc plateau"] p Suc.prems(3) slow False show ?thesis by (simp add: front del: upt_Suc)
      qed
    next
      case fast: False
      with Suc.hyps(1) [OF k(1) same k(2), of plateau] Suc.prems(3,4) later False show ?thesis by (simp add: front del: upt_Suc)
    qed
  qed
qed

section \<open>Properties\<close>

text \<open>C11. Two models of nearly the same speed make the selection undefined. When a directory holds two GGUF models
  whose rates differ by at most one document per second, of which the better one is more than half a
  megabyte larger, the smaller one prunes the larger one from the frontier and is then inserted behind its
  end.\<close>

theorem similar_models_undefined:
  assumes "eb_scan w dir = Some [(p1, True), (p2, True)]" and "path_extension p1 = ''.gguf''" and "path_extension p2 = ''.gguf''"
    and "benchmark_model w p1 (path_stem p1) constraints wts = Some (s1, Some a)" and "0 \<le> s1"
    and "benchmark_model w p2 (path_stem p2) constraints wts = Some (s2, Some b)" and "0 \<le> s2"
    and "cd_quality b + 1 / 100 < cd_quality a" and "\<bar>cd_throughput a - cd_throughput b\<bar> \<le> 1" and "cd_file_mb b < cd_file_mb a - 1 / 2"
    and "mset (eb_sort w [a, b]) = mset [a, b]" and "sorted_wrt (\<lambda>x y. \<not> before y x) (eb_sort w [a, b])"
  shows "lembed_benchmark_select_model w (Some dir) objective constraints (Some wts) True = None"
proof -
  have fresh: "\<not> cd_dominated a" "\<not> cd_dominated b" using benchmark_model_yields assms(4,6) by blast+
  then have same: "map (\<lambda>c. c\<lparr>cd_dominated := False\<rparr>) [a, b] = [a, b]" by simp
  have "before a b" using assms(8) by (simp add: before_def)
  obtain x y where xy: "eb_sort w [a, b] = [x, y]"
    using mset_eq_length [OF assms(11)] by (auto simp: length_Suc_conv numeral_2_eq_2)
  have "x = a \<and> y = b \<or> x = b \<and> y = a" using assms(11) unfolding xy by (auto simp: add_eq_conv_ex)
  moreover have "\<not> before y x" using assms(12) by (simp add: xy)
  ultimately have sorted: "eb_sort w [a, b] = [a, b]" using \<open>before a b\<close> xy by auto
  have near: "cd_throughput a \<ge> cd_throughput b - 1" "cd_throughput b \<ge> cd_throughput a - 1" using assms(9) by linarith+
  have out: "\<not> outdoes a b" "outdoes b a" using assms(10) near by (auto simp: outdoes_def)
  have "frontier_search [a, b] [0] (cd_throughput b) 0 1 = 1"
  proof -
    have "frontier_search cs fr t 1 1 = 1" for cs :: "'a candidate list" and fr t by (subst frontier_search.simps) simp
    then show ?thesis using near by (subst frontier_search.simps) simp
  qed
  then have "pareto_step ([a, b], [0]) 1 = None" using out by (simp add: pareto_step_def)
  then have "compute_pareto w [a, b] = None"
    unfolding compute_pareto_def same Let_def by (simp add: sorted first_step)
  moreover have "benchmark_all w constraints wts [p1, p2] = Some [a, b]" using assms(4-7) by simp
  ultimately show ?thesis
    using assms(1-3) by (simp add: lembed_benchmark_select_model_def gguf_files_def)
qed

text \<open>What the pruning leaves: the candidates it was given, with sound marks.\<close>

lemma compute_pareto_sound:
  assumes "compute_pareto w cands = Some cs" and "\<And>cs. mset (eb_sort w cs) = mset cs"
  shows "marks_sound cs \<and> unmark ` set cs = unmark ` set cands"
proof -
  let ?start = "map (\<lambda>c. c\<lparr>cd_dominated := False\<rparr>) cands"
  have clear: "\<not> cd_dominated d" if "d \<in> set ?start" for d using that by auto
  have "mset (eb_sort w ?start) = mset ?start" by (rule assms(2))
  then have perm: "set (eb_sort w ?start) = set ?start" "length (eb_sort w ?start) = length ?start"
    by (rule mset_eq_setD, rule mset_eq_length)
  show ?thesis
  proof (cases "length cands \<le> 1")
    case True
    then have "cs = ?start" using assms(1) by (simp add: compute_pareto_def)
    moreover have "unmark ` set ?start = unmark ` set cands" by (simp add: unmark_def image_image)
    moreover have "\<not> cd_dominated (?start ! i)" if "i < length ?start" for i using that by simp
    ultimately show ?thesis by (simp add: marks_sound_def)
  next
    case False
    then obtain fr where loop: "pareto_loop (eb_sort w ?start, []) [0..<length ?start] = Some (cs, fr)"
      using assms(1) by (auto simp: compute_pareto_def)
    have "\<not> cd_dominated (eb_sort w ?start ! i)" if "i < length (eb_sort w ?start)" for i
      using clear nth_mem [OF that] perm(1) by blast
    then have "marks_sound (eb_sort w ?start)" by (simp add: marks_sound_def)
    then have kept: "marks_sound cs" "map unmark cs = map unmark (eb_sort w ?start)"
      using pareto_loop_keeps [OF loop] perm(2) by (auto simp: atLeast0LessThan)
    have "unmark ` set cs = unmark ` set ?start" using perm(1) kept(2) by (metis list.set_map)
    also have "\<dots> = unmark ` set cands" by (simp add: unmark_def image_image)
    finally show ?thesis using kept(1) by simp
  qed
qed

text \<open>C15. A selection that succeeds returns the best of the models it measured. Its result describes a GGUF file of the
  directory that could be opened and that meets every constraint, with the numbers of its own benchmark, and of every
  other file of the directory whose benchmark yields a candidate either the score is no higher, or a third
  file's benchmark outdoes it in throughput, size or quality.\<close>

theorem selection_sound:
  assumes "lembed_benchmark_select_model w (Some dir) objective constraints custom True = Some (OK, Some r)"
    and "\<And>cs. mset (eb_sort w cs) = mset cs"
    and "wts = (case custom of Some v \<Rightarrow> v | None \<Rightarrow> lembed_benchmark_profile_weights objective)"
  shows "\<exists>listed c. eb_scan w dir = Some listed \<and> r = result_of c \<and> measured w constraints wts (gguf_files listed) c \<and>
    cd_path c \<in> set (gguf_files listed) \<and> fst (eb_open w (cd_path c)) = OK \<and> meets constraints c \<and>
    (\<forall>d. measured w constraints wts (gguf_files listed) d \<longrightarrow>
       cd_score d \<le> cd_score c \<or> (\<exists>e. measured w constraints wts (gguf_files listed) e \<and> outdoes e d))"
proof -
  obtain listed cands cs c where run: "eb_scan w dir = Some listed"
    "benchmark_all w constraints wts (gguf_files listed) = Some cands"
    "compute_pareto w cands = Some cs" "best_undominated cs (-1) None = Some c" "r = result_of c"
    using assms(1) unfolding assms(3) by (auto simp: lembed_benchmark_select_model_def Let_def split: option.splits if_splits)
  let ?M = "measured w constraints wts (gguf_files listed)"
  have marks: "marks_sound cs" "unmark ` set cs = unmark ` set cands" using compute_pareto_sound [OF run(3) assms(2)] by blast+
  have original: "unmark d \<in> set cands" if "d \<in> set cs" for d
  proof -
    have "unmark d \<in> unmark ` set cands" using that marks(2) by blast
    then obtain d' where d': "d' \<in> set cands" "unmark d = unmark d'" by blast
    then have "\<not> cd_dominated d'" using measured_iff [OF run(2)] measured_yields by blast
    then show ?thesis using d' by (simp add: unmark_id)
  qed
  have best: "c \<in> set cs" "\<not> cd_dominated c" "\<forall>d \<in> set cs. \<not> cd_dominated d \<longrightarrow> cd_score d \<le> cd_score c"
    using best_undominated_cases [of cs "-1" None] run(4) by auto
  then have "unmark c = c" by (simp add: unmark_id)
  then have c: "?M c" "0 \<le> cd_score c" using original [OF best(1)] measured_iff [OF run(2)] by auto
  have "cd_score d \<le> cd_score c \<or> (\<exists>e. ?M e \<and> outdoes e d)" if d: "?M d" for d
  proof (cases "0 \<le> cd_score d")
    case True
    with d have "d \<in> set cands" using measured_iff [OF run(2)] by blast
    then have "unmark d \<in> unmark ` set cs" using marks(2) by blast
    then obtain d' where d': "d' \<in> set cs" "unmark d = unmark d'" by blast
    then have same: "cd_score d = cd_score d'" "outdoes e d = outdoes e d'" for e
      by (metis candidate.simps(6) candidate.surjective candidate.update_convs(9) unmark_def, metis outdoes_flags(4))
    show ?thesis
    proof (cases "cd_dominated d'")
      case True
      then obtain e where "e \<in> set cs" "outdoes e d'" using marks(1) d'(1) unfolding marks_sound_def by (metis in_set_conv_nth)
      then have "?M (unmark e) \<and> outdoes (unmark e) d" using original measured_iff [OF run(2)] same(2) by simp
      then show ?thesis by blast
    qed (use best(3) d'(1) same(1) in simp)
  qed (use c(2) in linarith)
  then show ?thesis using run(1,5) c(1) measured_yields [OF c(1)] by blast
qed

text \<open>C33. The retrieval quality is recall at three: a test counts as a hit exactly if one of its relevant documents
  has fewer than three documents before it, where ties go to the document with the larger index.\<close>

theorem hit_is_recall:
  "test_hit sims relevant \<longleftrightarrow>
     (\<exists>r \<in> set relevant. r < length sims \<and>
        card {d. d < length sims \<and> (sims ! r < sims ! d \<or> sims ! d = sims ! r \<and> r < d)} < 3)"
proof -
  let ?xs = "zip sims [0..<length sims]" and ?ys = "sort_by pair_greater (zip sims [0..<length sims])"
  have set_ys: "set ?ys = (\<lambda>d. (sims ! d, d)) ` {..<length sims}" by (auto simp: set_zip)
  have "distinct ?xs" by (simp add: distinct_zipI2)
  then have ys: "distinct ?ys" "length ?ys = length sims" "sorted_wrt (\<lambda>a b. \<not> pair_greater b a) ?ys"
    using isort.srt_sorted [OF pair_greater_weak] by simp_all
  have count: "card {x \<in> set ?ys. pair_greater x (?ys ! k)} = k" if "k < length sims" for k
  proof (rule position_counts [OF ys(3,1)])
    show "k < length ?ys" using that ys(2) by simp
  qed (rule pair_greater_total, assumption, rule pair_greater_asym)
  have before_r: "card {x \<in> set ?ys. pair_greater x (sims ! r, r)} = card {d. d < length sims \<and> (sims ! r < sims ! d \<or> sims ! d = sims ! r \<and> r < d)}"
    for r
  proof -
    have "{x \<in> set ?ys. pair_greater x (sims ! r, r)} = (\<lambda>d. (sims ! d, d)) ` {d. d < length sims \<and> (sims ! r < sims ! d \<or> sims ! d = sims ! r \<and> r < d)}"
      unfolding set_ys by (auto simp: pair_greater_def)
    then show ?thesis by (simp add: card_image inj_on_def)
  qed
  have pos: "\<exists>k < length sims. ?ys ! k = (sims ! r, r)" if "r < length sims" for r
    using that set_ys ys(2) by (metis (no_types, lifting) imageI in_set_conv_nth lessThan_iff)
  have entry: "\<exists>r < length sims. ?ys ! k = (sims ! r, r)" if "k < length sims" for k
    using that set_ys ys(2) nth_mem [of k ?ys] by auto
  have "test_hit sims relevant \<longleftrightarrow> (\<exists>k < min 3 (length sims). snd (?ys ! k) \<in> set relevant)"
    unfolding test_hit_def list_ex_iff bex_take using ys(2) by simp
  also have "\<dots> \<longleftrightarrow> (\<exists>r \<in> set relevant. r < length sims \<and> (\<exists>k < 3. k < length sims \<and> ?ys ! k = (sims ! r, r)))"
  proof
    assume "\<exists>k < min 3 (length sims). snd (?ys ! k) \<in> set relevant"
    then obtain k where k: "k < 3" "k < length sims" "snd (?ys ! k) \<in> set relevant" by auto
    with entry [OF k(2)] show "\<exists>r \<in> set relevant. r < length sims \<and> (\<exists>k < 3. k < length sims \<and> ?ys ! k = (sims ! r, r))" by force
  next
    assume "\<exists>r \<in> set relevant. r < length sims \<and> (\<exists>k < 3. k < length sims \<and> ?ys ! k = (sims ! r, r))"
    then obtain r k where "r \<in> set relevant" "k < 3" "k < length sims" "?ys ! k = (sims ! r, r)" by blast
    then show "\<exists>k < min 3 (length sims). snd (?ys ! k) \<in> set relevant" by (intro exI [of _ k]) simp
  qed
  also have "\<dots> \<longleftrightarrow> (\<exists>r \<in> set relevant. r < length sims \<and> card {x \<in> set ?ys. pair_greater x (sims ! r, r)} < 3)"
  proof (intro bex_cong refl conj_cong)
    fix r assume r: "r < length sims"
    from pos [OF r] obtain k where k: "k < length sims" "?ys ! k = (sims ! r, r)" by blast
    have "k' = k" if "k' < length sims" "?ys ! k' = (sims ! r, r)" for k'
      using that k ys(1,2) by (metis nth_eq_iff_index_eq)
    then have "(\<exists>k < 3. k < length sims \<and> ?ys ! k = (sims ! r, r)) \<longleftrightarrow> k < 3" using k by blast
    moreover have "card {x \<in> set ?ys. pair_greater x (sims ! r, r)} = k" using count [OF k(1)] unfolding k(2) .
    ultimately show "(\<exists>k < 3. k < length sims \<and> ?ys ! k = (sims ! r, r)) \<longleftrightarrow> card {x \<in> set ?ys. pair_greater x (sims ! r, r)} < 3"
      by (simp only:)
  qed
  finally show ?thesis unfolding before_r .
qed

text \<open>The number of sessions is measured honestly up to where the search stops: the rate returned is the best
  of the measured prefix, reached first by the number returned, and the search only stops early after two
  measurements more than five per cent below it, which need not be consecutive.\<close>

theorem sessions_best:
  assumes "1 \<le> max_sessions" and "detect_optimal_sessions w path max_sessions = (n, best)"
  shows "\<exists>k. 1 \<le> n \<and> n \<le> k \<and> k \<le> nat max_sessions \<and> best = Max (insert 0 (eb_pool_rate w path ` {1..k})) \<and>
    (best = eb_pool_rate w path n \<and> (\<forall>m \<in> {1..<n}. eb_pool_rate w path m < best) \<or> best = 0 \<and> n = 1) \<and>
    (k = nat max_sessions \<or> (\<exists>j \<in> {n..<k}. eb_pool_rate w path j < best * (95 / 100) \<and> eb_pool_rate w path k < best * (95 / 100)))"
proof -
  have start: "sessions_ok (eb_pool_rate w path) 0 0 1 \<and> (0::nat) < 2 \<and> ((0::nat) = 1 \<longrightarrow> slow_after (eb_pool_rate w path) 0 0 1)"
    by (simp add: sessions_ok_def)
  from sessions_loop_ok [OF conjunct1 [OF start], of "nat max_sessions" 0] assms(2)
  obtain k where k: "k \<le> nat max_sessions" "sessions_ok (eb_pool_rate w path) k best n"
    "k = nat max_sessions \<or> (\<exists>j \<in> {n..<k}. eb_pool_rate w path j < best * (95 / 100) \<and> eb_pool_rate w path k < best * (95 / 100))"
    by (auto simp: detect_optimal_sessions_def)
  moreover have "1 \<le> k" using k(1,3) assms(1) by auto
  ultimately show ?thesis by (intro exI [of _ k]) (auto simp: sessions_ok_def)
qed

section \<open>Sample models\<close>

text \<open>
  The model \<open>/m/a.gguf\<close> puts the first three documents in front, \<open>/m/b.gguf\<close> knows nothing and has an empty row;
  both are equally fast, and the second one is smaller. The square root plays no part in the order.
\<close>

definition sample_world :: "(string \<times> bool) list \<Rightarrow> rat bench_world" where
  "sample_world listed = \<lparr>eb_sqrt = \<lambda>x. 1, eb_open = \<lambda>p. (OK, if p = ''/m/a.gguf'' then 1 else 0),
     eb_embed = \<lambda>p t. Some (if p = ''/m/a.gguf'' then [if t \<in> set (drop 3 q_corpus) then 0 else 1] else []),
     eb_pool_rate = \<lambda>p n. of_nat n, eb_file_mb = \<lambda>p. if p = ''/m/a.gguf'' then 100 else 10, eb_sort = sort_by before,
     eb_scan = \<lambda>d. Some listed, eb_profile = None, eb_home = None\<rparr>"

lemma sample_quality:
  "measure_quality (sample_world listed) ''/m/a.gguf'' 1 = Some (3 / 7)"
  "measure_quality (sample_world listed) ''/m/b.gguf'' 0 = Some (2 / 7)"
  unfolding sample_world_def by code_simp+

lemma sample_sessions: "detect_optimal_sessions (sample_world listed) p 8 = (8, 8)"
  by (simp add: detect_optimal_sessions_def sample_world_def upt_rec)

definition sample_a :: "rat candidate" where
  "sample_a = candidate_of ''/m/a.gguf'' ''a'' (lembed_benchmark_profile_weights 2) (3 / 7) 100 (8, 8) 1"

definition sample_b :: "rat candidate" where
  "sample_b = candidate_of ''/m/b.gguf'' ''b'' (lembed_benchmark_profile_weights 2) (2 / 7) 10 (8, 8) 0"

lemma sample_models:
  "benchmark_model (sample_world listed) ''/m/a.gguf'' ''a'' None (lembed_benchmark_profile_weights 2) = Some (cd_score sample_a, Some sample_a)"
  "benchmark_model (sample_world listed) ''/m/b.gguf'' ''b'' None (lembed_benchmark_profile_weights 2) = Some (cd_score sample_b, Some sample_b)"
proof -
  have w: "eb_open (sample_world listed) p = (OK, if p = ''/m/a.gguf'' then 1 else 0)"
    "eb_file_mb (sample_world listed) p = (if p = ''/m/a.gguf'' then 100 else 10)" for p by (simp_all add: sample_world_def)
  show "benchmark_model (sample_world listed) ''/m/a.gguf'' ''a'' None (lembed_benchmark_profile_weights 2) = Some (cd_score sample_a, Some sample_a)"
    by (simp add: benchmark_model_def w sample_quality sample_sessions unfit_def too_slow_def sample_a_def Let_def)
  show "benchmark_model (sample_world listed) ''/m/b.gguf'' ''b'' None (lembed_benchmark_profile_weights 2) = Some (cd_score sample_b, Some sample_b)"
    by (simp add: benchmark_model_def w sample_quality sample_sessions unfit_def too_slow_def sample_b_def Let_def)
qed

lemma sample_paths: "path_extension ''/m/a.gguf'' = ''.gguf''" "path_extension ''/m/b.gguf'' = ''.gguf''"
  "path_stem ''/m/a.gguf'' = ''a''" "path_stem ''/m/b.gguf'' = ''b''"
  by code_simp+

lemma sample_scores: "0 \<le> cd_score sample_a" "0 \<le> cd_score sample_b"
  by (simp_all add: sample_a_def sample_b_def candidate_of_def composite_score_def lembed_benchmark_profile_weights_def
      OBJECTIVE_THROUGHPUT_def OBJECTIVE_LATENCY_def OBJECTIVE_MEMORY_def)

theorem similar_models_undefined_witness:
  "lembed_benchmark_select_model (sample_world [(''/m/a.gguf'', True), (''/m/b.gguf'', True)]) (Some ''/m'') 2 None
     (Some (lembed_benchmark_profile_weights 2)) True = None"
proof -
  let ?w = "sample_world [(''/m/a.gguf'', True), (''/m/b.gguf'', True)]"
  have "eb_sort ?w [sample_a, sample_b] = [sample_a, sample_b]"
    by (simp add: sample_world_def before_def sample_a_def sample_b_def candidate_of_def)
  moreover have "\<not> before sample_b sample_a" by (simp add: before_def sample_a_def sample_b_def candidate_of_def)
  moreover have "cd_quality sample_b + 1 / 100 < cd_quality sample_a" "\<bar>cd_throughput sample_a - cd_throughput sample_b\<bar> \<le> 1"
    "cd_file_mb sample_b < cd_file_mb sample_a - 1 / 2" by (simp_all add: sample_a_def sample_b_def candidate_of_def)
  moreover have "eb_scan ?w ''/m'' = Some [(''/m/a.gguf'', True), (''/m/b.gguf'', True)]" by (simp add: sample_world_def)
  ultimately show ?thesis
    using sample_models sample_scores sample_paths
    by (intro similar_models_undefined [where ?p1.0 = "''/m/a.gguf''" and ?p2.0 = "''/m/b.gguf''" and a = sample_a and b = sample_b and ?s1.0 = "cd_score sample_a" and ?s2.0 = "cd_score sample_b"])
      simp_all
qed

theorem selection_sound_witness:
  "\<exists>r c. lembed_benchmark_select_model (sample_world [(''/m/b.gguf'', True), (''/m/notes.txt'', True)]) (Some ''/m'') 2 None
     (Some (lembed_benchmark_profile_weights 2)) True = Some (OK, Some r) \<and> r = result_of c \<and>
     cd_path c \<in> set (gguf_files [(''/m/b.gguf'', True), (''/m/notes.txt'', True)])"
proof -
  let ?w = "sample_world [(''/m/b.gguf'', True), (''/m/notes.txt'', True)]"
  have files: "gguf_files [(''/m/b.gguf'', True), (''/m/notes.txt'', True)] = [''/m/b.gguf'']" by code_simp
  have scan: "eb_scan ?w ''/m'' = Some [(''/m/b.gguf'', True), (''/m/notes.txt'', True)]" by (simp add: sample_world_def)
  have "-1 < cd_score sample_b" using sample_scores(2) by linarith
  then have run: "lembed_benchmark_select_model ?w (Some ''/m'') 2 None (Some (lembed_benchmark_profile_weights 2)) True =
      Some (OK, Some (result_of (sample_b\<lparr>cd_dominated := False\<rparr>)))"
    by (simp add: lembed_benchmark_select_model_def scan files sample_paths sample_models sample_scores compute_pareto_def)
  have perm: "mset (eb_sort ?w cs) = mset cs" for cs by (simp add: sample_world_def mset_sort_by)
  show ?thesis using selection_sound [OF run perm refl] run scan by auto
qed

theorem sessions_best_witness:
  "\<exists>k. 1 \<le> k \<and> k \<le> (8::nat) \<and> detect_optimal_sessions (sample_world []) ''/m/a.gguf'' 8 = (8, Max (insert 0 (eb_pool_rate (sample_world []) ''/m/a.gguf'' ` {1..k})))"
  using sessions_best [OF _ sample_sessions [of "[]" "''/m/a.gguf''"]] sample_sessions [of "[]" "''/m/a.gguf''"] by fastforce

end
