(* ===== verification/EmbeddingPool.thy ===== *)
theory EmbeddingPool
  imports TextCreate Pooling
begin

text \<open>
  The C++ pool of text embedding contexts (\<open>cpp/embedding_pool.hpp\<close>, \<open>cpp/provider.hpp\<close>): its construction, the
  parallel embedding of a corpus, whose parts are collected in order, and the streaming variant, whose
  threads deliver to one callback under a mutex, as a step relation over the interleavings of the loop that starts the
  threads with the threads that have been started.
  Exceptions are values; \<open>None\<close> is undefined behaviour.
\<close>

section \<open>Options and construction\<close>

definition PROVIDER_CPU :: int where "PROVIDER_CPU = 0"
definition PROVIDER_CUDA :: int where "PROVIDER_CUDA = 1"
definition PROVIDER_COREML :: int where "PROVIDER_COREML = 2"
definition PROVIDER_DIRECTML :: int where "PROVIDER_DIRECTML = 3"
definition PROVIDER_TENSORRT :: int where "PROVIDER_TENSORRT = 4"

definition parse_provider :: "string \<Rightarrow> string + int" where
  "parse_provider name =
     (if name = ''cpu'' \<or> name = [] then Inr PROVIDER_CPU
      else if name = ''cuda'' then Inr PROVIDER_CUDA
      else if name = ''coreml'' then Inr PROVIDER_COREML
      else if name = ''directml'' then Inr PROVIDER_DIRECTML
      else if name = ''tensorrt'' then Inr PROVIDER_TENSORRT
      else Inl (''Unknown execution provider: '' @ name))"

record pool_options =
  po_model_path :: string
  po_num_workers :: int
  po_threads_per_worker :: int
  po_batch_size :: int
  po_offline :: bool
  po_cache_dir :: string
  po_provider :: string
  po_device_id :: int
  po_max_length :: int
  po_pooling :: int
  po_dim :: int

text \<open>
  What the C interface does: creating a context, by registry index or by path, yields a status, the last
  error and the dimension; embedding texts with a worker yields the status, the number of rows, their
  width and the buffer.
\<close>

record 'f pool_env =
  pe_cores :: int
  pe_create :: "text_options \<Rightarrow> nat \<Rightarrow> status \<times> string \<times> int"
  pe_create_path :: "string \<Rightarrow> text_options \<Rightarrow> nat \<Rightarrow> status \<times> string \<times> int"
  pe_embed :: "nat \<Rightarrow> string list \<Rightarrow> status \<times> nat \<times> nat \<times> 'f list"

record pool_worker =
  pw_dim :: int
  pw_batch_size :: int

definition pool_text_options :: "pool_options \<Rightarrow> int \<Rightarrow> text_options" where
  "pool_text_options opts provider =
     lembed_text_options_default\<lparr>o_provider := provider, o_device_id := po_device_id opts, o_max_length := po_max_length opts,
       o_num_threads := po_threads_per_worker opts, o_batch_size := po_batch_size opts, o_offline := po_offline opts,
       o_dim := po_dim opts, o_pooling := po_pooling opts\<rparr>"

definition new_worker :: "'f pool_env \<Rightarrow> pool_options \<Rightarrow> nat \<Rightarrow> string + pool_worker" where
  "new_worker env opts i =
     (case parse_provider (po_provider opts) of
        Inl e \<Rightarrow> Inl e
      | Inr provider \<Rightarrow>
          let c_opts = pool_text_options opts provider;
              idx = fst (lembed_resolve_text_model (Some (c_str (po_model_path opts))));
              (s, e, d) = (if idx \<ge> 0 then pe_create env (c_opts\<lparr>o_model := idx\<rparr>) i
                           else pe_create_path env (c_str (po_model_path opts)) c_opts i)
          in if s \<noteq> OK then Inl (''libembedding: '' @ e)
             else Inr \<lparr>pw_dim = d, pw_batch_size = (if o_batch_size c_opts > 0 then o_batch_size c_opts else 256)\<rparr>)"

record embedding_pool =
  ep_num_workers :: int
  ep_workers :: "pool_worker list"

fun new_workers :: "'f pool_env \<Rightarrow> pool_options \<Rightarrow> nat list \<Rightarrow> string + pool_worker list" where
  "new_workers env opts [] = Inr []"
| "new_workers env opts (i # is) =
     (case new_worker env opts i of
        Inl e \<Rightarrow> Inl e
      | Inr w \<Rightarrow> (case new_workers env opts is of Inl e \<Rightarrow> Inl e | Inr ws \<Rightarrow> Inr (w # ws)))"

definition embedding_pool_new :: "'f pool_env \<Rightarrow> pool_options \<Rightarrow> string + embedding_pool" where
  "embedding_pool_new env opts =
     (let nw = po_num_workers opts;
          nw = (if nw \<le> 0 then (if pe_cores env > 0 then min (pe_cores env) 8 else 2) else nw)
      in (case new_workers env opts [0..<nat nw] of
            Inl e \<Rightarrow> Inl e
          | Inr ws \<Rightarrow> Inr \<lparr>ep_num_workers = nw, ep_workers = ws\<rparr>))"

definition pool_close :: "embedding_pool \<Rightarrow> embedding_pool" where
  "pool_close p = p\<lparr>ep_workers := []\<rparr>"

definition pool_dimension :: "embedding_pool \<Rightarrow> int" where
  "pool_dimension p = (case ep_workers p of [] \<Rightarrow> 0 | w # _ \<Rightarrow> pw_dim w)"

section \<open>One worker\<close>

text \<open>The rows of a buffer; a buffer that is too short is read outside its bounds.\<close>

definition rows_of :: "nat \<Rightarrow> nat \<Rightarrow> 'f list \<Rightarrow> 'f list list option" where
  "rows_of n width buf = (if length buf < n * width then None else Some (map (\<lambda>k. row_of (k * width) width buf) [0..<n]))"

text \<open>A batch that fails contributes nothing.\<close>

definition embed_chunk :: "'f pool_env \<Rightarrow> nat \<Rightarrow> string list \<Rightarrow> 'f list list option" where
  "embed_chunk env w texts =
     (case pe_embed env w (map c_str texts) of (s, n, width, buf) \<Rightarrow> if s = OK then rows_of n width buf else Some [])"

function embed_range :: "'f pool_env \<Rightarrow> nat \<Rightarrow> string list \<Rightarrow> int \<Rightarrow> int \<Rightarrow> int \<Rightarrow> 'f list list option" where
  "embed_range env w texts i last_i bs =
     (if i < last_i \<and> bs > 0
      then (case embed_chunk env w (take (nat (min bs (last_i - i))) (drop (nat i) texts)) of
              None \<Rightarrow> None
            | Some vecs \<Rightarrow>
                (case c_int (i + bs) of
                   None \<Rightarrow> None
                 | Some i' \<Rightarrow> (case embed_range env w texts i' last_i bs of None \<Rightarrow> None | Some rest \<Rightarrow> Some (vecs @ rest))))
      else Some [])"
  by pat_completeness auto
termination by (relation "measure (\<lambda>(env, w, texts, i, last_i, bs). nat (last_i - i))") (auto simp: c_int_def split: if_splits)

declare embed_range.simps [simp del]

section \<open>All workers\<close>

definition effective_bs :: "embedding_pool \<Rightarrow> int \<Rightarrow> int option" where
  "effective_bs p batch_size =
     (if batch_size \<le> 0 then (case ep_workers p of [] \<Rightarrow> None | w # _ \<Rightarrow> Some (pw_batch_size w)) else Some batch_size)"

definition per_worker :: "embedding_pool \<Rightarrow> string list \<Rightarrow> int option" where
  "per_worker p texts =
     (case c_int (int (length texts)) of
        None \<Rightarrow> None
      | Some n \<Rightarrow> (case c_int (n + ep_num_workers p) of
                    None \<Rightarrow> None
                  | Some m \<Rightarrow> (if ep_num_workers p = 0 then None else Some (trunc_div (m - 1) (ep_num_workers p)))))"

definition range_of :: "int \<Rightarrow> string list \<Rightarrow> nat \<Rightarrow> (int \<times> int) option" where
  "range_of per texts w =
     (case c_int (int w * per) of
        None \<Rightarrow> None
      | Some start \<Rightarrow> (case c_int (start + per) of None \<Rightarrow> None | Some e \<Rightarrow> Some (start, min e (int (length texts)))))"

text \<open>The work of worker \<open>w\<close>, whose context must exist.\<close>

definition part_of :: "'f pool_env \<Rightarrow> embedding_pool \<Rightarrow> string list \<Rightarrow> int \<Rightarrow> nat \<Rightarrow> int \<times> int \<Rightarrow> 'f list list option" where
  "part_of env p texts bs w span_w =
     (if length (ep_workers p) \<le> w then None else embed_range env w texts (fst span_w) (snd span_w) bs)"

text \<open>The futures of the workers that have texts, in order; the first worker without texts ends the launch.\<close>

fun launch :: "'f pool_env \<Rightarrow> embedding_pool \<Rightarrow> string list \<Rightarrow> int \<Rightarrow> int \<Rightarrow> nat list \<Rightarrow> 'f list list option" where
  "launch env p texts bs per [] = Some []"
| "launch env p texts bs per (w # ws) =
     (case range_of per texts w of
        None \<Rightarrow> None
      | Some span_w \<Rightarrow>
          if fst span_w \<ge> snd span_w then Some []
          else (case part_of env p texts bs w span_w of
                  None \<Rightarrow> None
                | Some vecs \<Rightarrow> (case launch env p texts bs per ws of None \<Rightarrow> None | Some rest \<Rightarrow> Some (vecs @ rest))))"

definition embedding_pool_embed :: "'f pool_env \<Rightarrow> embedding_pool \<Rightarrow> string list \<Rightarrow> int \<Rightarrow> 'f list list option" where
  "embedding_pool_embed env p texts batch_size =
     (if texts = [] then Some []
      else (case effective_bs p batch_size of
              None \<Rightarrow> None
            | Some bs \<Rightarrow>
                (case per_worker p texts of
                   None \<Rightarrow> None
                 | Some per \<Rightarrow> launch env p texts bs per [0..<nat (ep_num_workers p)])))"

section \<open>The stream\<close>

text \<open>What the threads share: the results of each worker, which are done, the next one to deliver, and what the
  callback has received; and how many workers the loop of the main thread has been through.\<close>

record 'f stream =
  sm_partial :: "'f list list list"
  sm_done :: "bool list"
  sm_next :: nat
  sm_delivered :: "'f list list"
  sm_launched :: nat

function drain :: "'f stream \<Rightarrow> 'f stream" where
  "drain s =
     (if sm_next s < length (sm_done s) \<and> sm_done s ! sm_next s
      then drain (s\<lparr>sm_delivered := sm_delivered s @ sm_partial s ! sm_next s, sm_next := Suc (sm_next s)\<rparr>)
      else s)"
  by pat_completeness auto
termination by (relation "measure (\<lambda>s. length (sm_done s) - sm_next s)") auto

declare drain.simps [simp del]

text \<open>A thread stores its part, says so, and delivers what can be delivered; all under the mutex.\<close>

definition finish :: "'f list list \<Rightarrow> nat \<Rightarrow> 'f stream \<Rightarrow> 'f stream" where
  "finish vecs w s = drain (s\<lparr>sm_partial := (sm_partial s)[w := vecs], sm_done := (sm_done s)[w := True]\<rparr>)"

definition stream_start :: "'f list list option list \<Rightarrow> 'f stream" where
  "stream_start parts =
     \<lparr>sm_partial = replicate (length parts) [], sm_done = replicate (length parts) False, sm_next = 0, sm_delivered = [],
      sm_launched = 0\<rparr>"

definition thread_started :: "'f list list option list \<Rightarrow> 'f stream \<Rightarrow> bool" where
  "thread_started parts s = list_ex (\<lambda>part. part \<noteq> None) (take (sm_launched s) parts)"

text \<open>
  One step of the main thread or of a thread it has started. The main thread starts the next worker, or says without
  the mutex that a worker without texts is done. That write is not ordered with what a thread started before does to
  the flags, which share a word in a \<open>vector<bool>\<close>, whether the thread has finished or not: it is a data race, and
  the outcome is \<open>None\<close>. A started thread finishes under the mutex.
\<close>

inductive stream_step :: "'f list list option list \<Rightarrow> 'f stream \<Rightarrow> 'f stream option \<Rightarrow> bool" for parts where
  starts_thread: "sm_launched s < length parts \<Longrightarrow> parts ! sm_launched s = Some vecs \<Longrightarrow>
    stream_step parts s (Some (s\<lparr>sm_launched := Suc (sm_launched s)\<rparr>))"
| marks_done: "sm_launched s < length parts \<Longrightarrow> parts ! sm_launched s = None \<Longrightarrow> \<not> thread_started parts s \<Longrightarrow>
    stream_step parts s (Some (s\<lparr>sm_done := (sm_done s)[sm_launched s := True], sm_launched := Suc (sm_launched s)\<rparr>))"
| races: "sm_launched s < length parts \<Longrightarrow> parts ! sm_launched s = None \<Longrightarrow> thread_started parts s \<Longrightarrow>
    stream_step parts s None"
| finishes: "w < sm_launched s \<Longrightarrow> w < length parts \<Longrightarrow> parts ! w = Some vecs \<Longrightarrow> \<not> sm_done s ! w \<Longrightarrow>
    stream_step parts s (Some (finish vecs w s))"

inductive_cases stream_step_None: "stream_step parts s None"

inductive stream_reach :: "'f list list option list \<Rightarrow> 'f stream \<Rightarrow> bool" for parts where
  starts: "stream_reach parts (stream_start parts)"
| steps: "stream_reach parts s \<Longrightarrow> stream_step parts s (Some s') \<Longrightarrow> stream_reach parts s'"

text \<open>The parts of the workers, \<open>None\<close> for a worker without texts.\<close>

definition stream_parts :: "'f pool_env \<Rightarrow> embedding_pool \<Rightarrow> string list \<Rightarrow> int \<Rightarrow> int \<Rightarrow> 'f list list option list option" where
  "stream_parts env p texts bs per =
     those (map (\<lambda>w. case range_of per texts w of
                None \<Rightarrow> None
              | Some span_w \<Rightarrow> if fst span_w \<ge> snd span_w then Some None
                  else map_option Some (part_of env p texts bs w span_w)) [0..<nat (ep_num_workers p)])"

section \<open>Facts\<close>

text \<open>A way to answer batches of at most \<open>bs\<close> texts that does not depend on how they are cut.\<close>

definition answers :: "'f pool_env \<Rightarrow> int \<Rightarrow> (string list \<Rightarrow> 'f list list) \<Rightarrow> bool" where
  "answers env bs g \<longleftrightarrow> g [] = [] \<and> (\<forall>xs ys. g (xs @ ys) = g xs @ g ys) \<and>
     (\<forall>w b. b \<noteq> [] \<and> int (length b) \<le> bs \<longrightarrow> embed_chunk env w b = Some (g b))"

lemma embed_range_answers:
  assumes "answers env bs g" and "0 < bs" and "0 \<le> i" and "i \<le> e" and "e \<le> int (length texts)" and "e + bs \<le> INT_MAX"
  shows "embed_range env w texts i e bs = Some (g (take (nat (e - i)) (drop (nat i) texts)))"
  using assms
proof (induction "nat (e - i)" arbitrary: i rule: less_induct)
  case less
  show ?case
  proof (cases "i < e")
    case False
    then show ?thesis using less.prems by (simp add: embed_range.simps answers_def)
  next
    case True
    let ?n = "nat (min bs (e - i))"
    let ?b = "take ?n (drop (nat i) texts)"
    have n: "0 < ?n" "nat i + ?n \<le> length texts" "?n \<le> nat (e - i)" using True less.prems by auto
    moreover have "length ?b \<le> ?n" by simp
    then have "int (length ?b) \<le> bs" using less.prems(2) by linarith
    ultimately have b: "?b \<noteq> []" "int (length ?b) \<le> bs" by auto
    then have batch: "embed_chunk env w ?b = Some (g ?b)" using less.prems(1) by (simp add: answers_def)
    have next_i: "c_int (i + bs) = Some (i + bs)" using True less.prems by (simp add: c_int_def INT_MIN_def)
    have rest: "embed_range env w texts (i + bs) e bs = Some (g (take (nat (e - i) - ?n) (drop (nat i + ?n) texts)))"
    proof (cases "i + bs \<le> e")
      case True
      then have "nat (e - (i + bs)) = nat (e - i) - ?n" "nat (i + bs) = nat i + ?n" using less.prems by auto
      then show ?thesis using less.hyps [of "i + bs"] less.prems True by auto
    next
      case False
      then have "nat (e - i) - ?n = 0" by auto
      then show ?thesis using False less.prems by (simp add: embed_range.simps answers_def)
    qed
    have "take (nat (e - i)) (drop (nat i) texts) = ?b @ take (nat (e - i) - ?n) (drop (nat i + ?n) texts)"
      using n(3) by (metis add.commute drop_drop le_add_diff_inverse take_add)
    then show ?thesis
      using less.prems(1,2) True by (subst embed_range.simps) (simp add: answers_def batch next_i rest)
  qed
qed

text \<open>The parts cover the texts: with the rounded-up share, \<open>nw\<close> of them reach the end.\<close>

definition pool_ready :: "embedding_pool \<Rightarrow> string list \<Rightarrow> int \<Rightarrow> bool" where
  "pool_ready p texts bs \<longleftrightarrow> 0 < ep_num_workers p \<and> int (length (ep_workers p)) = ep_num_workers p \<and> texts \<noteq> [] \<and>
     int (length texts) + ep_num_workers p \<le> INT_MAX \<and> 0 < bs \<and> int (length texts) + bs \<le> INT_MAX"

lemma share_covers:
  assumes "pool_ready p texts bs"
  obtains per where "per_worker p texts = Some per" and "1 \<le> per" and "int (length texts) \<le> ep_num_workers p * per"
    and "ep_num_workers p * per < int (length texts) + ep_num_workers p"
proof -
  let ?n = "int (length texts)" and ?nw = "ep_num_workers p"
  let ?per = "(?n + ?nw - 1) div ?nw"
  have pos: "0 < ?nw" "1 \<le> ?n" "?n + ?nw \<le> INT_MAX" using assms by (simp_all add: pool_ready_def Suc_le_eq)
  then have "INT_MIN \<le> ?n" "?n \<le> INT_MAX" "INT_MIN \<le> ?n + ?nw" "0 \<le> ?n + ?nw - 1" unfolding INT_MIN_def by linarith+
  then have "per_worker p texts = Some ?per" using pos by (simp add: per_worker_def c_int_def trunc_div_nonneg)
  moreover have "?nw div ?nw \<le> ?per" using pos by (intro zdiv_mono1) linarith+
  then have "1 \<le> ?per" using pos by simp
  moreover have "?nw * ?per = ?n + ?nw - 1 - (?n + ?nw - 1) mod ?nw" by (simp add: minus_mod_eq_mult_div)
  then have "?n \<le> ?nw * ?per" "?nw * ?per < ?n + ?nw"
    using pos pos_mod_bound [of ?nw "?n + ?nw - 1"] pos_mod_sign [of ?nw "?n + ?nw - 1"] by linarith+
  ultimately show ?thesis using that by blast
qed

lemma range_fits:
  assumes "pool_ready p texts bs" and "per_worker p texts = Some per" and "int w < ep_num_workers p"
  shows "range_of per texts w = Some (int w * per, min (int w * per + per) (int (length texts)))"
proof -
  obtain per' where per': "per_worker p texts = Some per'" "1 \<le> per'" "ep_num_workers p * per' < int (length texts) + ep_num_workers p"
    using share_covers [OF assms(1)] by metis
  then have per: "1 \<le> per" "ep_num_workers p * per < int (length texts) + ep_num_workers p" using assms(2) by simp_all
  have "(int w + 1) * per \<le> ep_num_workers p * per" using assms(3) per(1) by (intro mult_right_mono) simp_all
  then have "int w * per + per \<le> INT_MAX" using per(2) assms(1) by (simp add: pool_ready_def algebra_simps)
  moreover have "0 \<le> int w * per" using per(1) by simp
  moreover have "INT_MIN \<le> 0" by (simp add: INT_MIN_def)
  ultimately have "INT_MIN \<le> int w * per" "int w * per \<le> INT_MAX" "INT_MIN \<le> int w * per + per" "int w * per + per \<le> INT_MAX"
    using per(1) by linarith+
  then show ?thesis by (simp add: range_of_def c_int_def)
qed

lemma launch_answers:
  assumes "pool_ready p texts bs" and "per_worker p texts = Some per" and "answers env bs g" and "w \<le> nat (ep_num_workers p)"
  shows "launch env p texts bs per [w..<nat (ep_num_workers p)] = Some (g (drop (w * nat per) texts))"
  using assms(4)
proof (induction "nat (ep_num_workers p) - w" arbitrary: w)
  case 0
  obtain per' where "per_worker p texts = Some per'" "1 \<le> per'" "int (length texts) \<le> ep_num_workers p * per'"
    using share_covers [OF assms(1)] by metis
  moreover have "int w = ep_num_workers p" using 0 assms(1) by (auto simp: pool_ready_def)
  ultimately have "int (length texts) \<le> int (w * nat per)" using assms(2) by simp
  then have "length texts \<le> w * nat per" by (simp only: zle_int)
  then show ?case using 0 assms(3) by (simp add: answers_def)
next
  case (Suc m)
  then have w: "w < nat (ep_num_workers p)" "int w < ep_num_workers p" by auto
  obtain per' where per: "per_worker p texts = Some per'" "1 \<le> per'" using share_covers [OF assms(1)] by metis
  then have per1: "1 \<le> per" using assms(2) by simp
  note spans = range_fits [OF assms(1,2) w(2)]
  have split: "[w..<nat (ep_num_workers p)] = w # [Suc w..<nat (ep_num_workers p)]" using w(1) by (simp add: upt_conv_Cons)
  have pos: "nat (int w * per) = w * nat per" using per1 by (simp add: nat_mult_distrib)
  show ?case
  proof (cases "int w * per < int (length texts)")
    case False
    then have "int (length texts) \<le> int (w * nat per)" using per1 by simp
    then have "length texts \<le> w * nat per" by (simp only: zle_int)
    with False show ?thesis using assms(3) per1 by (simp add: split spans answers_def)
  next
    case True
    let ?e = "min (int w * per + per) (int (length texts))"
    have bounds: "0 \<le> int w * per" "int w * per \<le> ?e" "?e \<le> int (length texts)" "?e + bs \<le> INT_MAX" "0 < bs"
      using True per1 assms(1) by (auto simp: pool_ready_def)
    have part: "part_of env p texts bs w (int w * per, ?e) = Some (g (take (nat (?e - int w * per)) (drop (w * nat per) texts)))"
      using embed_range_answers [OF assms(3) bounds(5,1,2,3,4)] w assms(1) by (simp add: part_of_def pos pool_ready_def)
    have "take (nat (?e - int w * per)) (drop (w * nat per) texts) = take (nat per) (drop (w * nat per) texts)"
    proof (cases "int w * per + per \<le> int (length texts)")
      case False
      then have "?e = int (length texts)" by simp
      then have "nat (?e - int w * per) = length texts - w * nat per" using per1 pos bounds(1) by (simp only: nat_diff_distrib nat_int)
      moreover have "length texts - w * nat per \<le> nat per" using False per1 pos by linarith
      ultimately show ?thesis by simp
    qed simp
    moreover have "drop (w * nat per) texts = take (nat per) (drop (w * nat per) texts) @ drop (Suc w * nat per) texts"
      by (metis append_take_drop_id drop_drop mult_Suc)
    ultimately have whole: "g (drop (w * nat per) texts) = g (take (nat per) (drop (w * nat per) texts)) @ g (drop (Suc w * nat per) texts)"
      and "part_of env p texts bs w (int w * per, ?e) = Some (g (take (nat per) (drop (w * nat per) texts)))"
      using part assms(3) by (metis answers_def, simp)
    moreover have "\<not> ?e \<le> int w * per" using True per1 by auto
    moreover have "launch env p texts bs per [Suc w..<nat (ep_num_workers p)] = Some (g (drop (Suc w * nat per) texts))"
      using Suc(1) [of "Suc w"] Suc(2) w(1) by simp
    ultimately show ?thesis unfolding split whole by (simp add: spans)
  qed
qed

lemma pool_embed_answers:
  assumes "pool_ready p texts bs" and "effective_bs p b = Some bs" and "answers env bs g"
  shows "embedding_pool_embed env p texts b = Some (g texts)"
proof -
  obtain per where per: "per_worker p texts = Some per" using share_covers [OF assms(1)] by metis
  then show ?thesis
    using launch_answers [OF assms(1) per assms(3), of 0] assms(1,2) by (simp add: embedding_pool_embed_def pool_ready_def)
qed

text \<open>A worker that answers every batch that is not empty with one row per text.\<close>

definition row_per_text :: "'f pool_env \<Rightarrow> nat \<Rightarrow> (string \<Rightarrow> 'f list) \<Rightarrow> bool" where
  "row_per_text env width row \<longleftrightarrow> (\<forall>t. length (row t) = width) \<and>
     (\<forall>w b. b \<noteq> [] \<longrightarrow> pe_embed env w b = (OK, length b, width, concat (map row b)))"

lemma rows_of_rect:
  assumes "\<forall>v \<in> set vs. length v = width"
  shows "rows_of (length vs) width (concat vs) = Some vs"
proof -
  have "row_of (k * width) width (concat vs) = vs ! k" if "k < length vs" for k
  proof (rule nth_equalityI)
    have "Suc k * width \<le> length vs * width" using that by (intro mult_le_mono1) simp
    then show "length (row_of (k * width) width (concat vs)) = length (vs ! k)"
      using that assms length_concat_rect [OF assms] by (simp add: row_of_def)
    then show "row_of (k * width) width (concat vs) ! j = vs ! k ! j" if "j < length (row_of (k * width) width (concat vs))" for j
      using that \<open>k < length vs\<close> assms nth_concat_rect [OF assms \<open>k < length vs\<close>, of j] by (simp add: row_of_def)
  qed
  then have "map (\<lambda>k. row_of (k * width) width (concat vs)) [0..<length vs] = vs" by (intro nth_equalityI) simp_all
  then show ?thesis using length_concat_rect [OF assms] by (simp add: rows_of_def)
qed

lemma answers_rows: "row_per_text env width row \<Longrightarrow> answers env bs (map (\<lambda>t. row (c_str t)))"
proof -
  assume rows: "row_per_text env width row"
  have "embed_chunk env w b = Some (map (\<lambda>t. row (c_str t)) b)" if "b \<noteq> []" for w b
  proof -
    have "rows_of (length (map (\<lambda>t. row (c_str t)) b)) width (concat (map (\<lambda>t. row (c_str t)) b)) = Some (map (\<lambda>t. row (c_str t)) b)"
      using rows by (intro rows_of_rect) (simp add: row_per_text_def)
    moreover have "pe_embed env w (map c_str b) = (OK, length b, width, concat (map (\<lambda>t. row (c_str t)) b))"
      using rows that by (simp add: row_per_text_def comp_def)
    ultimately show ?thesis by (simp add: embed_chunk_def)
  qed
  then show ?thesis by (simp add: answers_def)
qed

text \<open>The shared state of the stream. Every finished worker has stored its part, everything in front of the next one
  to deliver is finished and delivered, and the next one is not finished once a thread has finished.\<close>

definition part_vecs :: "'f list list option \<Rightarrow> 'f list list" where
  "part_vecs part = (case part of None \<Rightarrow> [] | Some vecs \<Rightarrow> vecs)"

definition stored :: "'f list list option list \<Rightarrow> 'f stream \<Rightarrow> bool" where
  "stored parts s \<longleftrightarrow> length (sm_partial s) = length parts \<and> length (sm_done s) = length parts \<and> sm_next s \<le> length parts \<and>
     (\<forall>i < length parts. sm_done s ! i \<longrightarrow> sm_partial s ! i = part_vecs (parts ! i)) \<and> (\<forall>i < sm_next s. sm_done s ! i) \<and>
     sm_delivered s = concat (take (sm_next s) (map part_vecs parts))"

lemma drain_stored:
  "stored parts s \<Longrightarrow> stored parts (drain s) \<and> (sm_next (drain s) < length parts \<longrightarrow> \<not> sm_done (drain s) ! sm_next (drain s)) \<and>
    sm_done (drain s) = sm_done s \<and> sm_launched (drain s) = sm_launched s"
proof (induction s rule: drain.induct)
  case (1 s)
  show ?case
  proof (cases "sm_next s < length (sm_done s) \<and> sm_done s ! sm_next s")
    case True
    let ?s = "s\<lparr>sm_delivered := sm_delivered s @ sm_partial s ! sm_next s, sm_next := Suc (sm_next s)\<rparr>"
    have ok: "stored parts ?s"
      using 1(2) True by (auto simp: stored_def take_Suc_conv_app_nth less_Suc_eq)
    have step: "drain s = drain ?s" using True by (subst drain.simps) simp
    have same: "sm_done ?s = sm_done s" "sm_launched ?s = sm_launched s" by simp_all
    show ?thesis using 1(1) [OF True ok] unfolding step same .
  next
    case False
    then have "drain s = s" by (subst drain.simps) (simp only: if_False)
    then show ?thesis using False 1(2) by (auto simp: stored_def)
  qed
qed

text \<open>The loop only gets past workers with texts when the first worker has some.\<close>

definition stream_inv :: "'f list list option list \<Rightarrow> 'f stream \<Rightarrow> bool" where
  "stream_inv parts s \<longleftrightarrow> stored parts s \<and> (sm_next s = length parts \<or> \<not> sm_done s ! sm_next s) \<and>
     sm_launched s \<le> length parts \<and> (\<forall>i < sm_launched s. parts ! i \<noteq> None)"

lemma start_inv: "parts \<noteq> [] \<Longrightarrow> stream_inv parts (stream_start parts)"
  by (simp add: stream_inv_def stored_def stream_start_def)

lemma finish_inv:
  assumes "stream_inv parts s" and "w < length parts" and "parts ! w = Some vecs"
  shows "stream_inv parts (finish vecs w s) \<and> sm_done (finish vecs w s) = (sm_done s)[w := True] \<and>
    sm_launched (finish vecs w s) = sm_launched s"
proof -
  let ?s = "s\<lparr>sm_partial := (sm_partial s)[w := vecs], sm_done := (sm_done s)[w := True]\<rparr>"
  have "stored parts ?s"
    using assms by (auto simp: stream_inv_def stored_def nth_list_update part_vecs_def)
  from drain_stored [OF this] assms(1) show ?thesis
    by (auto simp: finish_def stream_inv_def stored_def)
qed

lemma first_started:
  assumes "parts \<noteq> []" and "parts ! 0 \<noteq> None" and "0 < sm_launched s"
  shows "thread_started parts s"
  using assms by (cases parts; cases "sm_launched s") (simp_all add: thread_started_def)

lemma stream_reach_inv:
  assumes "stream_reach parts s" and "parts \<noteq> []" and "parts ! 0 \<noteq> None"
  shows "stream_inv parts s"
  using assms(1)
proof (induction rule: stream_reach.induct)
  case starts
  show ?case by (rule start_inv [OF assms(2)])
next
  case (steps s s')
  from steps.hyps(2) show ?case
  proof cases
    case (starts_thread vecs)
    then show ?thesis using steps.IH by (auto simp: stream_inv_def stored_def less_Suc_eq)
  next
    case marks_done
    then have "sm_launched s = 0" using first_started [OF assms(2,3), of s] by auto
    with marks_done assms(3) show ?thesis by simp
  next
    case (finishes w vecs)
    then show ?thesis using finish_inv [OF steps.IH] by simp
  qed
qed

text \<open>When all threads have finished, everything is delivered.\<close>

lemma stream_complete:
  assumes "stream_inv parts s" and "\<forall>i < length parts. sm_done s ! i"
  shows "sm_delivered s = concat (map part_vecs parts)"
proof -
  have "sm_next s \<le> length parts" "sm_next s = length parts \<or> \<not> sm_done s ! sm_next s"
    using assms(1) by (simp_all add: stream_inv_def stored_def)
  then have "sm_next s = length parts" using assms(2) by (metis le_neq_implies_less)
  then show ?thesis using assms(1) by (simp add: stream_inv_def stored_def)
qed

text \<open>A worker has no texts exactly when its share starts behind them.\<close>

lemma those_nth: "those (map f xs) = Some ys \<Longrightarrow> length ys = length xs \<and> (\<forall>i < length xs. f (xs ! i) = Some (ys ! i))"
proof (induction xs arbitrary: ys)
  case (Cons x xs)
  then obtain y zs where "f x = Some y" "those (map f xs) = Some zs" "ys = y # zs" by (auto split: option.splits)
  with Cons.IH [of zs] show ?case by (auto simp: nth_Cons split: nat.split)
qed simp

lemma stream_parts_empty:
  assumes "pool_ready p texts bs" and "per_worker p texts = Some per" and "stream_parts env p texts bs per = Some parts"
  shows "int (length parts) = ep_num_workers p" and "i < length parts \<Longrightarrow> parts ! i = None \<longleftrightarrow> int (length texts) \<le> int i * per"
proof -
  obtain per' where "per_worker p texts = Some per'" "1 \<le> per'" using share_covers [OF assms(1)] by metis
  then have per1: "1 \<le> per" using assms(2) by simp
  note nth = those_nth [OF assms(3) [unfolded stream_parts_def]]
  then show len: "int (length parts) = ep_num_workers p" using assms(1) by (simp add: pool_ready_def)
  show "parts ! i = None \<longleftrightarrow> int (length texts) \<le> int i * per" if "i < length parts"
  proof -
    have "int i < ep_num_workers p" using that len by linarith
    note spans = range_fits [OF assms(1,2) this]
    have at: "[0..<nat (ep_num_workers p)] ! i = i" "i < length [0..<nat (ep_num_workers p)]" using that nth by simp_all
    let ?part = "\<lambda>w. case range_of per texts w of None \<Rightarrow> None
              | Some span_w \<Rightarrow> if fst span_w \<ge> snd span_w then Some None
                  else map_option Some (part_of env p texts bs w span_w)"
    have "?part ([0..<nat (ep_num_workers p)] ! i) = Some (parts ! i)" using nth at(2) by blast
    then have "?part i = Some (parts ! i)" unfolding at(1) .
    then show ?thesis using per1 by (auto simp: spans split: if_splits)
  qed
qed

text \<open>The launch stops at the first worker without texts; those behind it have none either.\<close>

lemma stream_parts_launch:
  assumes "pool_ready p texts bs" and "per_worker p texts = Some per" and "w \<le> nat (ep_num_workers p)"
    and "those (map (\<lambda>w. case range_of per texts w of
                None \<Rightarrow> None
              | Some span_w \<Rightarrow> if fst span_w \<ge> snd span_w then Some None
                  else map_option Some (part_of env p texts bs w span_w)) [w..<nat (ep_num_workers p)]) = Some parts"
  shows "launch env p texts bs per [w..<nat (ep_num_workers p)] = Some (concat (map part_vecs parts))"
  using assms(3,4)
proof (induction "nat (ep_num_workers p) - w" arbitrary: w parts)
  case (Suc m)
  then have w: "w < nat (ep_num_workers p)" "int w < ep_num_workers p" by auto
  have front: "[w..<nat (ep_num_workers p)] = w # [Suc w..<nat (ep_num_workers p)]" using w(1) by (simp add: upt_conv_Cons)
  obtain per' where "per_worker p texts = Some per'" "1 \<le> per'" using share_covers [OF assms(1)] by metis
  then have per1: "1 \<le> per" using assms(2) by simp
  note spans = range_fits [OF assms(1,2) w(2)]
  show ?case
  proof (cases "int w * per < int (length texts)")
    case True
    then have nonempty: "\<not> min (int w * per + per) (int (length texts)) \<le> int w * per" using per1 by auto
    then obtain vecs rest where part: "part_of env p texts bs w (int w * per, min (int w * per + per) (int (length texts))) = Some vecs"
      and rest: "those (map (\<lambda>w. case range_of per texts w of
                None \<Rightarrow> None
              | Some span_w \<Rightarrow> if fst span_w \<ge> snd span_w then Some None
                  else map_option Some (part_of env p texts bs w span_w)) [Suc w..<nat (ep_num_workers p)]) = Some rest"
      and parts: "parts = Some vecs # rest"
      using Suc.prems(2) by (auto simp: front spans split: option.splits)
    have "launch env p texts bs per [Suc w..<nat (ep_num_workers p)] = Some (concat (map part_vecs rest))"
      using Suc.hyps rest w(1) by simp
    with nonempty part parts show ?thesis by (simp add: front spans part_vecs_def)
  next
    case False
    have "part_vecs q = []" if "q \<in> set parts" for q
    proof -
      have "(case range_of per texts v of None \<Rightarrow> None
              | Some span_w \<Rightarrow> if fst span_w \<ge> snd span_w then Some None
                  else map_option Some (part_of env p texts bs v span_w)) = Some None" if "v \<in> set [w..<nat (ep_num_workers p)]" for v
      proof -
        have v: "w \<le> v" "int v < ep_num_workers p" using that by auto
        have "int w * per \<le> int v * per" using per1 v(1) by (intro mult_right_mono) simp_all
        then have "int (length texts) \<le> int v * per" using False by linarith
        then show ?thesis by (simp add: range_fits [OF assms(1,2) v(2)] min.coboundedI2)
      qed
      then have same: "map (\<lambda>w. case range_of per texts w of None \<Rightarrow> None
              | Some span_w \<Rightarrow> if fst span_w \<ge> snd span_w then Some None
                  else map_option Some (part_of env p texts bs w span_w)) [w..<nat (ep_num_workers p)] =
          map (\<lambda>w. Some None) [w..<nat (ep_num_workers p)]"
        by (intro map_cong) simp_all
      have none: "those (map (\<lambda>w. Some None) xs) = Some (map (\<lambda>w. None) xs)" for xs :: "nat list"
        by (induction xs) simp_all
      have "parts = map (\<lambda>w. None) [w..<nat (ep_num_workers p)]" using Suc.prems(2) unfolding same none by simp
      then show ?thesis using that by (auto simp: part_vecs_def)
    qed
    then have "concat (map part_vecs parts) = []" by simp
    with False show ?thesis using per1 by (simp add: front spans)
  qed
qed simp

section \<open>Properties\<close>

text \<open>C7. A pool is one worker. When every worker answers a text with its row, embedding a corpus with the pool gives
  the row of every text, once and in the order of the texts, whatever the number of workers and the batch
  size.\<close>

theorem pool_embed_exact:
  assumes "pool_ready p texts bs" and "effective_bs p b = Some bs" and "row_per_text env width row"
  shows "embedding_pool_embed env p texts b = Some (map (\<lambda>t. row (c_str t)) texts)"
  using pool_embed_answers [OF assms(1,2) answers_rows [OF assms(3)]] .

text \<open>C23. A batch that fails disappears. With batches of one text, the result has the rows of the texts that
  succeed, moved up, and nothing tells which texts they belong to.\<close>

theorem failed_texts_vanish:
  assumes "pool_ready p texts 1" and "effective_bs p b = Some 1" and "\<forall>t. length (row t) = width"
    and "\<forall>w t. pe_embed env w [t] = (if good t then (OK, 1, width, row t) else (ONNX_RUNTIME, 0, 0, []))"
  shows "embedding_pool_embed env p texts b = Some (map (\<lambda>t. row (c_str t)) (filter (\<lambda>t. good (c_str t)) texts))"
proof -
  have "embed_chunk env w ts = Some (map (\<lambda>t. row (c_str t)) (filter (\<lambda>t. good (c_str t)) ts))"
    if "ts \<noteq> []" "int (length ts) \<le> 1" for w ts
  proof -
    have "length ts \<noteq> 0" "length ts \<le> 1" using that by simp_all
    then have "length ts = Suc 0" by linarith
    then obtain t where t: "ts = [t]" by (auto simp: length_Suc_conv)
    have "rows_of 1 width (row (c_str t)) = Some [row (c_str t)]" using assms(3) rows_of_rect [of "[row (c_str t)]" width] by simp
    then show ?thesis using assms(4) by (simp add: embed_chunk_def t)
  qed
  then have "answers env 1 (\<lambda>ts. map (\<lambda>t. row (c_str t)) (filter (\<lambda>t. good (c_str t)) ts))" by (simp add: answers_def)
  from pool_embed_answers [OF assms(1,2) this] show ?thesis .
qed

text \<open>As long as every worker has texts, the run goes on until all threads have finished; the loop does not get past a
  worker without texts behind one with texts.\<close>

lemma stream_busy:
  assumes "\<forall>i < length parts. parts ! i \<noteq> None" and "stream_inv parts s"
  shows "\<not> stream_step parts s None"
    and "\<not> (sm_launched s = length parts \<and> (\<forall>i < length parts. sm_done s ! i)) \<Longrightarrow> \<exists>s'. stream_step parts s (Some s')"
proof -
  show "\<not> stream_step parts s None" using assms(1) by (auto elim!: stream_step_None)
  assume open_run: "\<not> (sm_launched s = length parts \<and> (\<forall>i < length parts. sm_done s ! i))"
  show "\<exists>s'. stream_step parts s (Some s')"
  proof (cases "sm_launched s = length parts")
    case False
    then have "sm_launched s < length parts" using assms(2) by (simp add: stream_inv_def)
    with assms(1) show ?thesis by (blast intro: stream_step.starts_thread)
  next
    case launched: True
    with open_run obtain i where i: "i < length parts" "\<not> sm_done s ! i" by blast
    with assms(1) launched show ?thesis by (metis not_None_eq stream_step.finishes)
  qed
qed

lemma stream_idle:
  assumes "parts \<noteq> []" and "parts ! 0 \<noteq> None" and "parts ! (length parts - 1) = None" and "stream_inv parts s"
  shows "sm_launched s < length parts" and "parts ! sm_launched s = None \<Longrightarrow> stream_step parts s None"
proof -
  show launched: "sm_launched s < length parts" using assms(1,3,4)
    by (metis One_nat_def Suc_pred diff_Suc_less le_neq_implies_less length_greater_0_conv lessI stream_inv_def)
  assume idle: "parts ! sm_launched s = None"
  then have "0 < sm_launched s" using assms(2) by (metis neq0_conv)
  from first_started [OF assms(1,2) this] launched idle show "stream_step parts s None" by (intro stream_step.races)
qed

text \<open>C8. The stream, whatever the interleaving of the loop that starts the threads with the threads. What the callback
  has received is always the rows of the workers in front of the next one. When every worker has texts, no step is a
  data race, some step is possible until all threads have been started and have finished, and then the callback has
  received exactly the rows of the embedding, in order. When some worker has none, no run gets through the loop:
  before its end, the main thread writes the flag of such a worker while nothing orders it with a started thread.\<close>

theorem stream_refines_embed:
  assumes "pool_ready p texts bs" and "effective_bs p b = Some bs" and "per_worker p texts = Some per"
    and "stream_parts env p texts bs per = Some parts" and "stream_reach parts s"
  shows "sm_delivered s = concat (take (sm_next s) (map part_vecs parts)) \<and>
    (if (ep_num_workers p - 1) * per < int (length texts)
     then \<not> stream_step parts s None \<and>
       (if sm_launched s = length parts \<and> (\<forall>i < length parts. sm_done s ! i)
        then embedding_pool_embed env p texts b = Some (sm_delivered s) else \<exists>s'. stream_step parts s (Some s'))
     else sm_launched s < length parts \<and> (parts ! sm_launched s = None \<longrightarrow> stream_step parts s None))"
proof -
  note empty = stream_parts_empty [OF assms(1,3,4)]
  have per1: "1 \<le> per" using share_covers [OF assms(1)] assms(3) by auto
  have texts: "0 < int (length texts)" and nw: "0 < ep_num_workers p" using assms(1) by (simp_all add: pool_ready_def)
  have nonempty: "parts \<noteq> []" using empty(1) nw by auto
  then have first: "parts ! 0 \<noteq> None" using empty(2) [of 0] texts by simp
  note inv = stream_reach_inv [OF assms(5) nonempty first]
  have delivered: "sm_delivered s = concat (take (sm_next s) (map part_vecs parts))"
    using inv unfolding stream_inv_def stored_def by blast
  show ?thesis
  proof (cases "(ep_num_workers p - 1) * per < int (length texts)")
    case True
    have "parts ! i \<noteq> None" if "i < length parts" for i
    proof -
      have "int i \<le> ep_num_workers p - 1" using that empty(1) by linarith
      then have "int i * per \<le> (ep_num_workers p - 1) * per" using per1 by (intro mult_right_mono) simp_all
      with True empty(2) [OF that] show ?thesis by linarith
    qed
    with inv have busy: "\<not> stream_step parts s None"
      "\<not> (sm_launched s = length parts \<and> (\<forall>i < length parts. sm_done s ! i)) \<longrightarrow> (\<exists>s'. stream_step parts s (Some s'))"
      using stream_busy by blast+
    have "launch env p texts bs per [0..<nat (ep_num_workers p)] = Some (concat (map part_vecs parts))"
      using stream_parts_launch [OF assms(1,3), of 0 env parts] assms(4) by (simp add: stream_parts_def)
    then have "embedding_pool_embed env p texts b = Some (concat (map part_vecs parts))"
      using assms(1-3) by (simp add: embedding_pool_embed_def pool_ready_def)
    with busy show ?thesis using stream_complete [OF inv] delivered True by auto
  next
    case False
    let ?last = "length parts - 1"
    have "?last < length parts" "int ?last = ep_num_workers p - 1" using nonempty empty(1) by (simp_all add: of_nat_diff Suc_le_eq)
    with False empty(2) [of ?last] have "parts ! ?last = None" by simp
    from stream_idle [OF nonempty first this inv] delivered False show ?thesis by simp
  qed
qed

text \<open>After a close, the pool cannot be used: embedding any text is undefined, with every batch size.\<close>

theorem closed_pool_undefined:
  assumes "pool_ready p texts bs"
  shows "embedding_pool_embed env (pool_close p) texts b = None"
proof -
  obtain per where per: "per_worker p texts = Some per" "1 \<le> per" using share_covers [OF assms] by metis
  have nw: "0 < nat (ep_num_workers p)" "0 < ep_num_workers p" and nonempty: "texts \<noteq> []" "0 < int (length texts)"
    using assms by (simp_all add: pool_ready_def)
  have closed: "ep_num_workers (pool_close p) = ep_num_workers p" by (simp add: pool_close_def)
  have per': "per_worker (pool_close p) texts = Some per" using per(1) unfolding per_worker_def closed .
  have front: "[0..<nat (ep_num_workers p)] = 0 # [1..<nat (ep_num_workers p)]" using nw(1) by (simp add: upt_conv_Cons)
  have "range_of per texts 0 = Some (0, min per (int (length texts)))" using range_fits [OF assms per(1), of 0] nw(2) by simp
  moreover have "\<not> min per (int (length texts)) \<le> 0" using per(2) nonempty(2) unfolding min_le_iff_disj by linarith
  ultimately have "launch env (pool_close p) texts bs' per [0..<nat (ep_num_workers p)] = None" for bs'
    by (simp add: front part_of_def pool_close_def)
  then show ?thesis
    using nonempty per' by (simp add: embedding_pool_embed_def effective_bs_def pool_close_def)
qed

section \<open>A sample pool\<close>

definition sample_row :: "string \<Rightarrow> int list" where
  "sample_row t = [int (length t)]"

definition sample_pool_env :: "int pool_env" where
  "sample_pool_env = \<lparr>pe_cores = 2, pe_create = \<lambda>opts i. (OK, [], 1), pe_create_path = \<lambda>p opts i. (OK, [], 1),
     pe_embed = \<lambda>w ts. (OK, length ts, 1, concat (map sample_row ts))\<rparr>"

definition sample_pool :: embedding_pool where
  "sample_pool = \<lparr>ep_num_workers = 2, ep_workers = replicate 2 \<lparr>pw_dim = 1, pw_batch_size = 256\<rparr>\<rparr>"

definition four_workers :: embedding_pool where
  "four_workers = \<lparr>ep_num_workers = 4, ep_workers = replicate 4 \<lparr>pw_dim = 1, pw_batch_size = 256\<rparr>\<rparr>"

lemma sample_pool_facts:
  "pool_ready sample_pool [''a'', ''bb'', ''ccc''] 2" "pool_ready sample_pool [''a'', ''bb'', ''ccc''] 1"
  "effective_bs sample_pool 2 = Some 2" "effective_bs sample_pool 1 = Some 1"
  "row_per_text sample_pool_env 1 sample_row"
  by (simp_all add: pool_ready_def sample_pool_def effective_bs_def row_per_text_def sample_pool_env_def sample_row_def INT_MAX_def)

theorem pool_embed_exact_witness:
  "embedding_pool_embed sample_pool_env sample_pool [''a'', ''bb'', ''ccc''] 2 = Some [[1], [2], [3]]"
  using pool_embed_exact [OF sample_pool_facts(1,3,5)] by (simp add: sample_row_def c_str_def)

theorem failed_texts_vanish_witness:
  "embedding_pool_embed (sample_pool_env\<lparr>pe_embed := \<lambda>w ts. if ts \<noteq> [''bb''] then (OK, length ts, 1, concat (map sample_row ts)) else (ONNX_RUNTIME, 0, 0, [])\<rparr>)
     sample_pool [''a'', ''bb'', ''ccc''] 1 = Some [[1], [3]]"
  by (subst failed_texts_vanish [OF sample_pool_facts(2,4), where good = "\<lambda>t. t \<noteq> ''bb''" and row = sample_row and width = 1])
    (auto simp: sample_row_def c_str_def)

theorem closed_pool_undefined_witness:
  "embedding_pool_embed sample_pool_env (pool_close sample_pool) [''a'', ''bb'', ''ccc''] 2 = None"
  by (rule closed_pool_undefined [OF sample_pool_facts(1)])

text \<open>The second worker finishes first; with five texts, the fourth of four workers has none.\<close>

theorem stream_refines_embed_witness:
  "(\<exists>s. stream_reach [Some [[1], [2]], Some [[3]]] s \<and>
     embedding_pool_embed sample_pool_env sample_pool [''a'', ''bb'', ''ccc''] 2 = Some (sm_delivered s)) \<and>
   \<not> (\<exists>s. stream_reach [Some [[1], [2]], Some [[3], [4]], Some [[5]], None :: int list list option] s \<and> sm_launched s = 4)"
proof
  let ?parts = "[Some [[1], [2]], Some [[3]]] :: int list list option list"
  let ?s0 = "stream_start ?parts"
  let ?s1 = "?s0\<lparr>sm_launched := 1\<rparr>"
  let ?s2 = "?s0\<lparr>sm_launched := 2\<rparr>"
  let ?s3 = "finish [[3]] (Suc 0) ?s2"
  let ?s4 = "finish [[1], [2]] 0 ?s3"
  have parts: "stream_parts sample_pool_env sample_pool [''a'', ''bb'', ''ccc''] 2 2 = Some ?parts" "per_worker sample_pool [''a'', ''bb'', ''ccc''] = Some 2"
    by code_simp+
  have "stream_step ?parts ?s0 (Some (?s0\<lparr>sm_launched := Suc (sm_launched ?s0)\<rparr>))"
    by (rule stream_step.starts_thread) (simp_all add: stream_start_def)
  then have one: "stream_reach ?parts ?s1" by (auto intro: stream_reach.intros simp: stream_start_def)
  have "stream_step ?parts ?s1 (Some (?s1\<lparr>sm_launched := Suc (sm_launched ?s1)\<rparr>))"
    by (rule stream_step.starts_thread) simp_all
  with one have two: "stream_reach ?parts ?s2" by (auto intro: stream_reach.intros simp: stream_start_def numeral_2_eq_2)
  have inv2: "stream_inv ?parts ?s2" using stream_reach_inv [OF two] by simp
  have three: "stream_reach ?parts ?s3"
    by (rule stream_reach.steps [OF two], rule stream_step.finishes) (simp_all add: stream_start_def)
  from finish_inv [OF inv2, of "Suc 0" "[[3]]"] have inv3: "stream_inv ?parts ?s3" "sm_done ?s3 = [False, True]" "sm_launched ?s3 = 2"
    by (simp_all add: stream_start_def)
  have inv3': "0 < sm_launched ?s3" "\<not> sm_done ?s3 ! 0" unfolding inv3(2,3) by simp_all
  have four: "stream_reach ?parts ?s4"
    by (rule stream_reach.steps [OF three], rule stream_step.finishes [OF inv3'(1) _ _ inv3'(2)]) simp_all
  have part0: "0 < length ?parts" "?parts ! 0 = Some [[1], [2]]" by simp_all
  from finish_inv [OF inv3(1) part0] have "sm_done ?s4 = (sm_done ?s3)[0 := True]" "sm_launched ?s4 = sm_launched ?s3"
    by blast+
  then have "sm_done ?s4 = [True, True]" "sm_launched ?s4 = 2" unfolding inv3(2,3) by simp_all
  then have "sm_launched ?s4 = length ?parts" "\<forall>i < length ?parts. sm_done ?s4 ! i" by (simp_all add: less_Suc_eq)
  with stream_refines_embed [OF sample_pool_facts(1,3) parts(2,1) four]
  have "embedding_pool_embed sample_pool_env sample_pool [''a'', ''bb'', ''ccc''] 2 = Some (sm_delivered ?s4)"
    by (simp add: sample_pool_def)
  with four show "\<exists>s. stream_reach ?parts s \<and>
     embedding_pool_embed sample_pool_env sample_pool [''a'', ''bb'', ''ccc''] 2 = Some (sm_delivered s)" by blast
next
  let ?parts = "[Some [[1], [2]], Some [[3], [4]], Some [[5]], None] :: int list list option list"
  let ?texts = "[''a'', ''bb'', ''ccc'', ''dddd'', ''eeeee'']"
  have parts: "stream_parts sample_pool_env four_workers ?texts 2 2 = Some ?parts" "per_worker four_workers ?texts = Some 2" by code_simp+
  have ready: "pool_ready four_workers ?texts 2" "effective_bs four_workers 2 = Some 2"
    by (simp_all add: pool_ready_def four_workers_def effective_bs_def INT_MAX_def)
  have "sm_launched s < 4" if "stream_reach ?parts s" for s
    using stream_refines_embed [OF ready parts(2,1) that] by (simp add: four_workers_def)
  then show "\<not> (\<exists>s. stream_reach ?parts s \<and> sm_launched s = 4)" by fastforce
qed

end
