(* ===== verification/UnifiedBenchmark.thy ===== *)
theory UnifiedBenchmark
  imports EmbeddingBenchmark
begin

text \<open>
  The benchmark of a model on a backend (\<open>detail/unified_benchmark_impl.hpp\<close>, \<open>unified_benchmark.h\<close>): the test
  corpora, the metrics of one run with llama.cpp sessions or ONNX Runtime batches, the comparison of the two
  backends and the tuning of one. The memory of a run is 0, as it is outside Windows. \<open>None\<close> is undefined behaviour or a loop that does not end.
\<close>

section \<open>Corpora\<close>

definition corpus_short :: "string list" where
  "corpus_short =
    [''Hello world.'',
     ''Bonjour le monde.'',
     ''Hallo Welt.'',
     ''Hola mundo.'',
     ''Ciao mondo.'',
     ''Ola mundo.'',
     ''Konnichiwa sekai ni yoroshiku.'',
     ''Xin chao the gioi.'',
     ''Zdravstvuyte mir.'',
     ''Assalamu alaikum.'',
     ''Hello world.'',
     ''Machine learning transforms data into insights.'',
     ''L'' @ [CHR 0x27] @ ''intelligence artificielle transforme les donnees.'']"

definition corpus_medium :: "string list" where
  "corpus_medium =
    [''The quick brown fox jumps over the lazy dog near the riverbank while the sun sets behind the mountains.'',
     ''Le renard brun rapide saute par-dessus le chien paresseux pres de la riviere pendant que le soleil se couche.'',
     ''Der schnelle braune Fuchs springt ueber den faulen Hund in der Naehe des Flusses, waehrend die Sonne hinter den Bergen untergeht.'',
     ''Machine learning algorithms can identify patterns in large datasets automatically without explicit programming instructions.'',
     ''Climate change affects global weather patterns and sea levels significantly across all continents and ocean regions worldwide.'',
     ''The history of ancient Rome spans over a thousand years of civilization from its founding to the fall of the western empire.'',
     ''Quantum computing promises to revolutionize cryptography drug discovery and materials science through parallel processing capabilities.'',
     ''Les algorithmes d'' @ [CHR 0x27] @ ''apprentissage automatique peuvent identifier des motifs dans de grands ensembles de donnees.'',
     ''Die kuenstliche Intelligenz veraendert die Art und Weise wie wir arbeiten kommunizieren und Probleme loesen.'',
     ''El aprendizaje automatico permite a las computadoras aprender de los datos y mejorar con la experiencia.'']"

definition corpus_long :: "string list" where
  "corpus_long =
    [''Natural language processing is a subfield of linguistics computer science and artificial intelligence concerned with the interactions between computers and human language in particular how to program computers to process and analyze large amounts of natural language data.'',
     ''The transformer architecture introduced in the attention is all you need paper has become the foundation for most modern natural language processing systems including BERT GPT and their variants which have revolutionized the field.'',
     ''Deep learning is part of a broader family of machine learning methods based on artificial networks with representation learning and has been applied to fields including computer vision speech recognition natural language processing and bioinformatics.'',
     ''Le traitement automatique du langage naturel est un domaine de l'' @ [CHR 0x27] @ ''informatique et de l'' @ [CHR 0x27] @ ''intelligence artificielle qui s'' @ [CHR 0x27] @ ''interesse aux interactions entre les ordinateurs et le langage humain.'',
     ''Die kuenstliche Intelligenz ist ein Gebiet der Informatik das sich mit der Automatisierung intelligentem Verhalten und dem maschinellen Lernen befasst.'',
     ''El procesamiento del lenguaje natural es un campo de la informatica la inteligence artificial y la lingustica interesado en las interacciones entre las computadoras y el lenguaje humano.'']"

definition corpus_very_long :: "string list" where
  "corpus_very_long =
    [''Artificial intelligence has made significant progress in recent years particularly in the areas of machine learning deep learning and natural language processing. These advances have enabled the development of systems that can understand generate and translate human language with remarkable accuracy. Large language models trained on vast amounts of text data have demonstrated capabilities that were previously thought to be decades away including reasoning summarization and creative writing.'',
     ''The development of modern artificial intelligence began in the nineteen fifties with the work of Alan Turing and other pioneers who asked whether machines could think. Since then the field has gone through periods of optimism and disappointment known as AI winters. Today we are in a period of rapid advancement driven by increases in computational power the availability of large datasets and improvements in algorithms particularly deep learning.'',
     ''L'' @ [CHR 0x27] @ ''intelligence artificielle a fait des progr'' @ [CHR 0xC3, CHR 0xA8] @ ''s significatifs ces derni'' @ [CHR 0xC3, CHR 0xA8] @ ''res ann'' @ [CHR 0xC3, CHR 0xA9] @ ''es en particulier dans les domaines de l'' @ [CHR 0x27] @ ''apprentissage automatique de l'' @ [CHR 0x27] @ ''apprentissage profond et du traitement du langage naturel. Ces avanc'' @ [CHR 0xC3, CHR 0xA9] @ ''es ont permis le d'' @ [CHR 0xC3, CHR 0xA9] @ ''veloppement de syst'' @ [CHR 0xC3, CHR 0xA8] @ ''mes capables de comprendre de g'' @ [CHR 0xC3, CHR 0xA9] @ ''n'' @ [CHR 0xC3, CHR 0xA9] @ ''rer et de traduire le langage humain avec une pr'' @ [CHR 0xC3, CHR 0xA9] @ ''cision remarquable.'']"

definition corpus_edge :: "string list" where
  "corpus_edge =
    [[],
     ''a'',
     ''   '',
     ''12345 67890'',
     ''!@#$%^&*()'',
     ''Hello world world world'',
     ''Hello world CJK mixed'',
     ''Hello RTL world'',
     ''test test test test test test test test test test test test test test test test'',
     ''def foo(): return 42'',
     ''{'' @ [CHR 0x22] @ ''key'' @ [CHR 0x22] @ '': '' @ [CHR 0x22] @ ''value'' @ [CHR 0x22] @ ''}'',
     ''user@example.com'',
     ''<div>Hello</div>'',
     ''word word word word word word word word word word word word word word word word'',
     ''word word word word word word word word word word word word word word word word word word word word word word word word word word word word word word word word word word word word word word word word word word word word word word word word word word word word word word word word word word word word word word word word word word word word word word word word word word word word word word word word word word word word word word word word word word word word word word word word word word word word word word word word word word word word word word word word word word word word word word word word word word word word word word word word word word word word word word word word word word word word word '',
     ''word word word word word word word word word word word word word word word word word word word word word word word word word word word word word word word word word word word word word word word word word word word word word word word word word word word word word word word word word word word word word word word word word word word word word word word word word word word word word word word word word word word word word word word word word word word word word word word word word word word word word word word word word word word word word word word word word word word word word word word word word word word word word word word word word word word word word word word word word word word word word word word word word word word word word word word word word word word word word word word word word word word word word word word word word word word word word word word word word word word word '',
     ''cafe resume naive'',
     ''+++++'',
     ''$$$'']"

definition corpus_multilingual :: "string list" where
  "corpus_multilingual =
    [''Hello world.'',
     ''Bonjour le monde.'',
     ''Hallo Welt.'',
     ''Hola mundo.'',
     ''Ola mundo.'',
     ''Konnichiwa sekai ni yoroshiku.'',
     ''Xin chao the gioi.'',
     ''Zdravstvuyte mir.'',
     ''Assalamu alaikum.'',
     ''Le traitement automatique du langage naturel est un domaine de l'' @ [CHR 0x27] @ ''IA.'']"

definition get_all_texts :: "string list" where
  "get_all_texts = corpus_short @ corpus_medium @ corpus_long @ corpus_very_long"

definition CORPUS_SHORT :: int where "CORPUS_SHORT = 0"
definition CORPUS_MEDIUM :: int where "CORPUS_MEDIUM = 1"
definition CORPUS_LONG :: int where "CORPUS_LONG = 2"
definition CORPUS_VERY_LONG :: int where "CORPUS_VERY_LONG = 3"
definition CORPUS_MIXED :: int where "CORPUS_MIXED = 4"
definition CORPUS_MULTILINGUAL :: int where "CORPUS_MULTILINGUAL = 5"
definition CORPUS_EDGE_CASES :: int where "CORPUS_EDGE_CASES = 6"

definition corpus_by_type :: "int \<Rightarrow> string list" where
  "corpus_by_type t =
     (if t = CORPUS_SHORT then corpus_short
      else if t = CORPUS_MEDIUM then corpus_medium
      else if t = CORPUS_LONG then corpus_long
      else if t = CORPUS_VERY_LONG then corpus_very_long
      else if t = CORPUS_MIXED then get_all_texts
      else if t = CORPUS_MULTILINGUAL then corpus_multilingual
      else if t = CORPUS_EDGE_CASES then corpus_edge
      else [])"

definition lembed_benchmark_get_corpus :: "int \<Rightarrow> bool \<Rightarrow> bool \<Rightarrow> status \<times> (string list \<times> int) option" where
  "lembed_benchmark_get_corpus t texts_ok count_ok =
     (if \<not> texts_ok \<or> \<not> count_ok then (INVALID_ARGUMENT, None)
      else (OK, Some (corpus_by_type t, int (length (corpus_by_type t)))))"

section \<open>Statistics\<close>

text \<open>The median of no values reads outside the vector.\<close>

definition median_d :: "'f::linorder list \<Rightarrow> 'f option" where
  "median_d v = (if v = [] then None else Some (sort v ! (length v div 2)))"

definition percentile95 :: "'f::floor_ceiling list \<Rightarrow> 'f" where
  "percentile95 v =
     (if v = [] then 0
      else sort v ! min (nat \<lceil>95 / 100 * of_nat (length v) :: 'f\<rceil> - 1) (length v - 1))"

section \<open>One run\<close>

record backend_config =
  bk_backend :: string
  bk_num_threads :: int
  bk_batch_size :: int
  bk_workers :: int

record 'f bench_metrics =
  bm_throughput :: 'f
  bm_latency_p50 :: 'f
  bm_latency_p95 :: 'f
  bm_load_time :: 'f
  bm_peak_memory :: 'f
  bm_dim :: int
  bm_num_texts :: int
  bm_num_errors :: int

definition metrics_zero :: "'f::zero bench_metrics" where
  "metrics_zero = \<lparr>bm_throughput = 0, bm_latency_p50 = 0, bm_latency_p95 = 0, bm_load_time = 0, bm_peak_memory = 0,
     bm_dim = 0, bm_num_texts = 0, bm_num_errors = 0\<rparr>"

text \<open>
  A pool of sessions, given by the model, the sessions and the threads: its dimension, if it can be loaded,
  the milliseconds its sessions need for all texts, and those of one text. A context of ONNX Runtime: the
  status and milliseconds of its creation and its dimension, the milliseconds of a list of batches, and
  those of one text.
\<close>

record 'f unified_env =
  ub_pool :: "string \<Rightarrow> int \<Rightarrow> int \<Rightarrow> int option"
  ub_pool_ms :: "string \<Rightarrow> int \<Rightarrow> int \<Rightarrow> string list \<Rightarrow> 'f"
  ub_pool_text_ms :: "string \<Rightarrow> int \<Rightarrow> int \<Rightarrow> string \<Rightarrow> 'f"
  ub_onnx :: "string \<Rightarrow> text_options \<Rightarrow> status \<times> 'f \<times> int"
  ub_onnx_ms :: "string \<Rightarrow> text_options \<Rightarrow> (int \<times> int) list \<Rightarrow> string list \<Rightarrow> 'f"
  ub_onnx_text_ms :: "string \<Rightarrow> text_options \<Rightarrow> string \<Rightarrow> 'f"

definition texts_rate :: "nat \<Rightarrow> 'f::linordered_field \<Rightarrow> 'f" where
  "texts_rate n ms = of_nat n / (ms / 1000)"

text \<open>The latencies are those of at most twenty texts.\<close>

definition with_latencies :: "'f::floor_ceiling list \<Rightarrow> 'f bench_metrics \<Rightarrow> 'f bench_metrics option" where
  "with_latencies lats m =
     (case median_d lats of None \<Rightarrow> None | Some p50 \<Rightarrow> Some (m\<lparr>bm_latency_p50 := p50, bm_latency_p95 := percentile95 lats\<rparr>))"

definition bench_llama ::
    "'f::floor_ceiling unified_env \<Rightarrow> string \<Rightarrow> backend_config \<Rightarrow> string list \<Rightarrow> (status \<times> 'f bench_metrics) option" where
  "bench_llama env path cfg texts =
     (let sessions = (if bk_workers cfg > 0 then max 1 (bk_workers cfg) else max 1 (bk_batch_size cfg));
          threads = max 1 (bk_num_threads cfg)
      in (case ub_pool env path sessions threads of
            None \<Rightarrow> Some (LLAMA, metrics_zero)
          | Some width \<Rightarrow>
              map_option (\<lambda>m. (OK, m)) (with_latencies (map (ub_pool_text_ms env path sessions threads) (take 20 texts))
                (metrics_zero\<lparr>bm_dim := width, bm_throughput := texts_rate (length texts) (ub_pool_ms env path sessions threads texts),
                  bm_num_texts := int (length texts)\<rparr>))))"

text \<open>The batches, as their offsets and sizes. A batch size that is not positive never reaches the end.\<close>

partial_function (option) onnx_batches :: "int \<Rightarrow> int \<Rightarrow> int \<Rightarrow> (int \<times> int) list option" where
  "onnx_batches off n_total bsz =
     (if off < n_total
      then Option.bind (onnx_batches (off + bsz) n_total bsz) (\<lambda>rest. Some ((off, min bsz (n_total - off)) # rest))
      else Some [])"

definition bench_onnx ::
    "'f::floor_ceiling unified_env \<Rightarrow> string \<Rightarrow> backend_config \<Rightarrow> string list \<Rightarrow> (status \<times> 'f bench_metrics) option" where
  "bench_onnx env path cfg texts =
     (let opts = lembed_text_options_default\<lparr>o_num_threads := bk_num_threads cfg\<rparr> in
      case ub_onnx env path opts of (s, load_ms, width) \<Rightarrow>
        if s \<noteq> OK then Some (s, metrics_zero)
        else (case onnx_batches 0 (int (length texts)) (bk_batch_size cfg) of
                None \<Rightarrow> None
              | Some batches \<Rightarrow>
                  map_option (\<lambda>m. (OK, m)) (with_latencies (map (ub_onnx_text_ms env path opts) (take 20 texts))
                    (metrics_zero\<lparr>bm_load_time := load_ms, bm_dim := width,
                      bm_throughput := texts_rate (length texts) (ub_onnx_ms env path opts batches texts),
                      bm_num_texts := int (length texts)\<rparr>))))"

record 'f unified_result =
  un_model_name :: string
  un_backend :: string
  un_config :: backend_config
  un_metrics :: "'f bench_metrics"

text \<open>The status and what the result holds; nothing is stored for invalid arguments.\<close>

definition lembed_benchmark_run ::
    "'f::floor_ceiling unified_env \<Rightarrow> string option \<Rightarrow> string option \<Rightarrow> int \<Rightarrow> backend_config option \<Rightarrow> bool
      \<Rightarrow> (status \<times> 'f unified_result option) option" where
  "lembed_benchmark_run env path backend corpus config result_ok =
     (case (path, backend, config) of
        (Some p, Some b, Some cfg) \<Rightarrow>
          if \<not> result_ok then Some (INVALID_ARGUMENT, None)
          else
            let start = \<lparr>un_model_name = truncated 128 (path_filename p), un_backend = truncated 32 b, un_config = cfg,
                  un_metrics = metrics_zero\<rparr>
            in (case (if b = ''onnx'' then bench_onnx else bench_llama) env p cfg (corpus_by_type corpus) of
                  None \<Rightarrow> None
                | Some (s, m) \<Rightarrow> if s \<noteq> OK then Some (s, Some start) else Some (OK, Some (start\<lparr>un_metrics := m\<rparr>)))
      | _ \<Rightarrow> Some (INVALID_ARGUMENT, None))"

section \<open>Comparing and tuning\<close>

definition backend_config_of :: "string \<Rightarrow> int \<Rightarrow> int \<Rightarrow> int \<Rightarrow> backend_config" where
  "backend_config_of b threads batch workers = \<lparr>bk_backend = b, bk_num_threads = threads, bk_batch_size = batch, bk_workers = workers\<rparr>"

text \<open>The results that succeeded, one behind the other.\<close>

definition compared ::
    "'f::floor_ceiling unified_env \<Rightarrow> string option \<Rightarrow> string \<Rightarrow> int \<Rightarrow> backend_config \<Rightarrow> 'f unified_result list option" where
  "compared env path backend corpus cfg =
     (case path of
        None \<Rightarrow> Some []
      | Some p \<Rightarrow>
          (case lembed_benchmark_run env (Some p) (Some backend) corpus (Some cfg) True of
             None \<Rightarrow> None
           | Some (OK, Some r) \<Rightarrow> Some [r]
           | Some _ \<Rightarrow> Some []))"

definition lembed_benchmark_compare ::
    "'f::floor_ceiling unified_env \<Rightarrow> string option \<Rightarrow> string option \<Rightarrow> int \<Rightarrow> bool \<Rightarrow> (nat \<times> 'f unified_result list) option" where
  "lembed_benchmark_compare env onnx_path gguf_path corpus results_ok =
     (if \<not> results_ok then Some (0, [])
      else (case compared env onnx_path ''onnx'' corpus (backend_config_of ''onnx'' 4 64 1) of
              None \<Rightarrow> None
            | Some first \<Rightarrow>
                (case compared env gguf_path ''llama.cpp'' corpus (backend_config_of ''llama.cpp'' 1 4 0) of
                   None \<Rightarrow> None
                 | Some second \<Rightarrow> Some (length (first @ second), first @ second))))"

text \<open>The rate of a run that succeeded.\<close>

definition mixed_run ::
    "'f::floor_ceiling unified_env \<Rightarrow> string \<Rightarrow> string \<Rightarrow> backend_config \<Rightarrow> 'f unified_result option option" where
  "mixed_run env path backend cfg =
     (case lembed_benchmark_run env (Some path) (Some backend) CORPUS_MIXED (Some cfg) True of
        None \<Rightarrow> None
      | Some (s, r) \<Rightarrow> Some (if s = OK then r else None))"

fun llama_search ::
    "(int \<Rightarrow> 'f::linordered_field unified_result option option) \<Rightarrow> int list \<Rightarrow> 'f \<Rightarrow> 'f unified_result option \<Rightarrow> 'f unified_result option option" where
  "llama_search run [] best_score best = Some best"
| "llama_search run (n # ns) best_score best =
     (case run n of
        None \<Rightarrow> None
      | Some None \<Rightarrow> llama_search run ns best_score best
      | Some (Some r) \<Rightarrow>
          let score = bm_throughput (un_metrics r);
              (best_score, best) = (if score > best_score then (score, Some r) else (best_score, best))
          in if n > 1 \<and> score < best_score * (105 / 100) then Some best else llama_search run ns best_score best)"

fun onnx_search ::
    "(int \<times> int \<Rightarrow> 'f::linordered_field unified_result option option) \<Rightarrow> (int \<times> int) list \<Rightarrow> 'f \<Rightarrow> 'f unified_result option
      \<Rightarrow> 'f unified_result option option" where
  "onnx_search run [] best_score best = Some best"
| "onnx_search run (c # cs) best_score best =
     (case run c of
        None \<Rightarrow> None
      | Some None \<Rightarrow> onnx_search run cs best_score best
      | Some (Some r) \<Rightarrow>
          let score = bm_throughput (un_metrics r)
          in if score > best_score then onnx_search run cs score (Some r) else onnx_search run cs best_score best)"

text \<open>A best score below 0 is that no run has beaten the start, -1.\<close>

definition lembed_benchmark_autotune ::
    "'f::floor_ceiling unified_env \<Rightarrow> string option \<Rightarrow> string option \<Rightarrow> int \<Rightarrow> bool \<Rightarrow> (status \<times> 'f unified_result option) option" where
  "lembed_benchmark_autotune env path backend objective result_ok =
     (case (path, backend) of
        (Some p, Some b) \<Rightarrow>
          if \<not> result_ok then Some (INVALID_ARGUMENT, None)
          else
            (case (if b = ''llama.cpp''
                   then llama_search (\<lambda>n. mixed_run env p b (backend_config_of ''llama.cpp'' 1 n 0)) [1..8] (-1) None
                   else onnx_search (\<lambda>(t, s). mixed_run env p b (backend_config_of ''onnx'' t s 1))
                          (concat (map (\<lambda>t. map (\<lambda>s. (t, s)) [32, 64, 128]) [1..4])) (-1) None) of
               None \<Rightarrow> None
             | Some None \<Rightarrow> Some (LLAMA, None)
             | Some (Some r) \<Rightarrow>
                 if bm_throughput (un_metrics r) < 0 then Some (LLAMA, None) else Some (OK, Some r))
      | _ \<Rightarrow> Some (INVALID_ARGUMENT, None))"

section \<open>Facts\<close>

text \<open>A batch size that is not positive makes no progress.\<close>

lemma batches_progress:
  assumes "onnx_batches off n bsz = Some bs" and "bsz \<le> 0"
  shows "n \<le> off"
proof -
  have "bsz \<le> 0 \<longrightarrow> n \<le> off"
  proof (rule onnx_batches.raw_induct [OF _ assms(1), where P = "\<lambda>off n bsz bs. bsz \<le> 0 \<longrightarrow> n \<le> off"])
    fix f :: "int \<Rightarrow> int \<Rightarrow> int \<Rightarrow> (int \<times> int) list option" and off n bsz bs
    assume step: "\<And>off n bsz bs. f off n bsz = Some bs \<Longrightarrow> bsz \<le> 0 \<longrightarrow> n \<le> off"
      and body: "(if off < n then Option.bind (f (off + bsz) n bsz) (\<lambda>rest. Some ((off, min bsz (n - off)) # rest)) else Some []) = Some bs"
    show "bsz \<le> 0 \<longrightarrow> n \<le> off"
    proof (cases "off < n")
      case True
      with body obtain rest where "f (off + bsz) n bsz = Some rest" by (auto simp: bind_eq_Some_conv)
      from step [OF this] True show ?thesis by auto
    qed simp
  qed
  with assms(2) show ?thesis by simp
qed

lemma run_batches_cover:
  assumes "0 < bsz" and "0 \<le> off" and "off \<le> int (length xs)"
  shows "\<exists>bs. onnx_batches off (int (length xs)) bsz = Some bs \<and>
    concat (map (\<lambda>(i, n). take (nat n) (drop (nat i) xs)) bs) = drop (nat off) xs \<and> (\<forall>b \<in> set bs. 0 < snd b \<and> snd b \<le> bsz)"
  using assms
proof (induction "nat (int (length xs) - off)" arbitrary: off rule: less_induct)
  case less
  show ?case
  proof (cases "off < int (length xs)")
    case False
    then show ?thesis using less.prems by (subst onnx_batches.simps) simp
  next
    case True
    let ?n = "min bsz (int (length xs) - off)"
    show ?thesis
    proof (cases "off + bsz \<le> int (length xs)")
      case le: True
      from less.hyps [of "off + bsz"] le less.prems True obtain bs where
        bs: "onnx_batches (off + bsz) (int (length xs)) bsz = Some bs"
        "concat (map (\<lambda>(i, n). take (nat n) (drop (nat i) xs)) bs) = drop (nat (off + bsz)) xs" "\<forall>b \<in> set bs. 0 < snd b \<and> snd b \<le> bsz"
        by auto
      have "take (nat bsz) (drop (nat off) xs) @ drop (nat (off + bsz)) xs = drop (nat off) xs"
        using less.prems by (metis add.commute append_take_drop_id drop_drop less_imp_le nat_add_distrib)
      moreover have "onnx_batches off (int (length xs)) bsz = Some ((off, bsz) # bs)"
        using True bs(1) le by (subst onnx_batches.simps) simp
      ultimately show ?thesis using bs(2,3) less.prems(1) by (intro exI [of _ "(off, bsz) # bs"]) simp
    next
      case False
      have "onnx_batches (off + bsz) (int (length xs)) bsz = Some []" using False by (subst onnx_batches.simps) simp
      then have "onnx_batches off (int (length xs)) bsz = Some [(off, int (length xs) - off)]"
        using True False by (subst onnx_batches.simps) simp
      then show ?thesis using True False by (intro exI [of _ "[(off, int (length xs) - off)]"]) simp
    qed
  qed
qed

section \<open>Properties\<close>

text \<open>The batches of a benchmark cover its texts, in order and each once, when the batch size is positive. With
  any other batch size a run whose context opens never ends, or without texts reads the median of nothing.\<close>

theorem onnx_batches_cover:
  "(if 0 < bk_batch_size cfg
    then \<exists>bs. onnx_batches 0 (int (length texts)) (bk_batch_size cfg) = Some bs \<and>
      concat (map (\<lambda>(i, n). take (nat n) (drop (nat i) texts)) bs) = texts
    else bench_onnx env path cfg texts =
      (case ub_onnx env path (lembed_text_options_default\<lparr>o_num_threads := bk_num_threads cfg\<rparr>) of (s, _) \<Rightarrow>
        if s = OK then None else Some (s, metrics_zero)))"
proof (cases "0 < bk_batch_size cfg")
  case True
  with run_batches_cover [OF True, of 0 texts] show ?thesis by auto
next
  case False
  then have "texts = [] \<or> onnx_batches 0 (int (length texts)) (bk_batch_size cfg) = None"
    using batches_progress [of 0 "int (length texts)" "bk_batch_size cfg"] by fastforce
  moreover have "onnx_batches 0 0 (bk_batch_size cfg) = Some []" by (subst onnx_batches.simps) simp
  ultimately show ?thesis
    using False by (auto simp: bench_onnx_def with_latencies_def median_d_def Let_def split: prod.splits)
qed

text \<open>Tuning llama.cpp never gets beyond two sessions. When one session runs with a positive rate and two
  sessions run at all, the answer is the better of the two and no other number is tried, however much faster
  it may be: the rate is compared with the best one, which is at least as high.\<close>

theorem llama_tuning_stops_at_two:
  assumes "mixed_run env p ''llama.cpp'' (backend_config_of ''llama.cpp'' 1 1 0) = Some (Some r1)"
    and "mixed_run env p ''llama.cpp'' (backend_config_of ''llama.cpp'' 1 2 0) = Some (Some r2)"
    and "0 < bm_throughput (un_metrics r1)"
  shows "lembed_benchmark_autotune env (Some p) (Some ''llama.cpp'') objective True =
    Some (OK, Some (if bm_throughput (un_metrics r2) > bm_throughput (un_metrics r1) then r2 else r1))"
proof -
  have ns: "[1..8] = [1, 2, 3, 4, 5, 6, 7, 8 :: int]" by code_simp
  have grow: "x < x * (105 / 100)" if "0 < x" for x :: 'a using that by simp
  let ?x = "bm_throughput (un_metrics r1)" and ?y = "bm_throughput (un_metrics r2)"
  have "-1 < ?x" using assms(3) by simp
  moreover have "?y < ?y * (105 / 100)" if "?x < ?y" using grow [of ?y] assms(3) that by simp
  moreover have "?y < ?x * (105 / 100)" if "\<not> ?x < ?y" using grow [OF assms(3)] that by simp
  ultimately show ?thesis
    using assms unfolding lembed_benchmark_autotune_def ns
    by (auto simp: Let_def not_less split: if_splits)
qed

text \<open>The benchmark of an unknown corpus is undefined on a model that loads: it has no texts, and the median of no
  latencies is read.\<close>

theorem unknown_corpus_undefined:
  assumes "t < 0 \<or> 6 < t" and "ub_pool env p (max 1 (bk_batch_size cfg)) (max 1 (bk_num_threads cfg)) = Some width"
    and "bk_workers cfg \<le> 0" and "b \<noteq> ''onnx''"
  shows "lembed_benchmark_run env (Some p) (Some b) t (Some cfg) True = None"
proof -
  have "corpus_by_type t = []"
    using assms(1) by (auto simp: corpus_by_type_def CORPUS_SHORT_def CORPUS_MEDIUM_def CORPUS_LONG_def CORPUS_VERY_LONG_def
        CORPUS_MIXED_def CORPUS_MULTILINGUAL_def CORPUS_EDGE_CASES_def)
  then show ?thesis
    using assms(2-4) by (simp add: lembed_benchmark_run_def bench_llama_def with_latencies_def median_d_def Let_def)
qed

section \<open>A sample backend\<close>

text \<open>Every session halves the time.\<close>

definition sample_unified_env :: "rat unified_env" where
  "sample_unified_env = \<lparr>ub_pool = \<lambda>p n t. Some 384, ub_pool_ms = \<lambda>p n t ts. 1000 / of_int n, ub_pool_text_ms = \<lambda>p n t s. 2,
     ub_onnx = \<lambda>p opts. (OK, 1, 384), ub_onnx_ms = \<lambda>p opts bs ts. 1000, ub_onnx_text_ms = \<lambda>p opts t. 3\<rparr>"

lemma sample_mixed:
  "mixed_run sample_unified_env ''/m/a.gguf'' ''llama.cpp'' (backend_config_of ''llama.cpp'' 1 n 0) =
    Some (Some \<lparr>un_model_name = ''a.gguf'', un_backend = ''llama.cpp'', un_config = backend_config_of ''llama.cpp'' 1 n 0,
      un_metrics = metrics_zero\<lparr>bm_dim := 384, bm_throughput := of_nat (length get_all_texts) * of_int (max 1 n),
        bm_num_texts := int (length get_all_texts), bm_latency_p50 := 2, bm_latency_p95 := 2\<rparr>\<rparr>)"
proof -
  have n: "length get_all_texts = 32" by code_simp
  have corpus: "corpus_by_type CORPUS_MIXED = get_all_texts"
    by (simp add: corpus_by_type_def CORPUS_MIXED_def CORPUS_SHORT_def CORPUS_MEDIUM_def CORPUS_LONG_def CORPUS_VERY_LONG_def)
  have name: "truncated 128 (path_filename ''/m/a.gguf'') = ''a.gguf''" "truncated 32 ''llama.cpp'' = ''llama.cpp''" by code_simp+
  have times: "map (\<lambda>t. 2) (take 20 get_all_texts) = replicate 20 (2::rat)" using n by (simp add: map_replicate_const)
  have stats: "median_d (replicate 20 (2::rat)) = Some 2" "percentile95 (replicate 20 (2::rat)) = 2" by code_simp+
  have "of_int (max 1 n) \<noteq> (0::rat)" by (simp add: max_def)
  then have rate: "texts_rate 32 (1000 / of_int (max 1 n)) = (32 * of_int (max 1 n) :: rat)" by (simp add: texts_rate_def)
  show ?thesis
    unfolding mixed_run_def lembed_benchmark_run_def corpus
    by (simp add: bench_llama_def backend_config_of_def sample_unified_env_def with_latencies_def times stats name n rate Let_def)
qed

theorem llama_tuning_stops_at_two_witness:
  "\<exists>r. lembed_benchmark_autotune sample_unified_env (Some ''/m/a.gguf'') (Some ''llama.cpp'') 0 True = Some (OK, Some r) \<and>
     bk_batch_size (un_config r) = 2"
proof -
  have "0 < length get_all_texts" by code_simp
  then show ?thesis
    by (subst llama_tuning_stops_at_two [OF sample_mixed sample_mixed]) (simp_all add: backend_config_of_def)
qed

theorem unknown_corpus_undefined_witness:
  "lembed_benchmark_run sample_unified_env (Some ''/m/a.gguf'') (Some ''llama.cpp'') 7 (Some (backend_config_of ''llama.cpp'' 1 4 0)) True = None"
  by (rule unknown_corpus_undefined [where width = 384]) (simp_all add: backend_config_of_def sample_unified_env_def)

end
