(* ===== verification/Spec2Isabelle.thy ===== *)
theory Spec2Isabelle
  imports LruCache OnnxSession LlamaSession Batching Tokenizer SparsePost Pooling Registry GgufSession Scheduler TuneCache CpuInfo BpeLoop RerankerCreate SparseCreate ImageEmbedding AutotuneTasks ModelSelect EmbeddingBenchmark EmbeddingPool UnifiedBenchmark
begin

text \<open>
  A model of libembedding-ng, a header-only C++ library that computes dense, sparse and image embeddings and
  reranking scores with ONNX Runtime or llama.cpp/ggml. The sources named below are under
  \<open>src/include/libembedding/\<close>. Each theory translates one part of the library, definition by definition
  and under the names of the source, and proves the properties that make the part correct.

  A context is created from the model registry, a directory or a GGUF file, whose files the model store downloads
  and keeps. An embedding call looks its texts up in the cache, hands the others to a backend in batches, and the
  backend tokenizes, pads, runs the model, pools and normalises. Around the contexts there are a scheduler and a pool
  of threads, and tuners and benchmarks that time them and store what they found.

  \<^bold>\<open>Foundations.\<close>
  \<^item> \<open>Prelude\<close>: C integers with overflow as \<open>option\<close>, bytes, \<open>snprintf\<close>, searches of \<open>std::string\<close>,
    decimal printing, the contract of \<open>std::sort\<close>, rectangular lists, the error monad.
  \<^item> \<open>Types\<close>, \<open>Registry\<close>: status codes, enumerations and the model registry with its queries
    (\<open>error.h\<close>, \<open>types.h\<close>, \<open>model_registry.h\<close>).
  \<^item> \<open>LruCache\<close>: the embedding cache (\<open>detail/embedding_cache_impl.hpp\<close>) as a record of an entry table and
    a recency list; every operation preserves the invariant, refines a list of the freshest entries and
    returns only what was stored.
  \<^item> \<open>Batching\<close>: batch ranges (\<open>detail/batch.hpp\<close>) and length-bucketed embedding
    (\<open>detail/llama_session_impl.hpp\<close>), which equals embedding text by text and throws what a text throws.

  \<^bold>\<open>Text, pooling and images.\<close>
  \<^item> \<open>TextNorm\<close>, \<open>CJson\<close>, \<open>Tokenizer\<close>, \<open>BpeLoop\<close>: normalisation, splitting, WordPiece, BPE, the loaders and the
    batch encoder of \<open>detail/tokenizer_impl.hpp\<close>, over the tree that the bundled cJSON parser returns.
  \<^item> \<open>SparsePost\<close>, \<open>Pooling\<close>: pooling, pruning and ordering of sparse vectors
    (\<open>detail/sparse_postprocess.hpp\<close>), dense pooling, normalisation and similarity (\<open>detail/pooling.hpp\<close>,
    \<open>detail/normalize.hpp\<close>, \<open>similarity.h\<close>).
  \<^item> \<open>ImagePreprocess\<close>: resizing, cropping and normalising a decoded image (\<open>detail/image_preprocess.hpp\<close>).

  \<^bold>\<open>Sessions.\<close>
  \<^item> \<open>OnnxSession\<close>, \<open>LlamaSession\<close>: the wrappers of the two runtimes, \<open>detail/onnx_session_impl.hpp\<close> and
    \<open>detail/llama_session_impl.hpp\<close>, with the pool of llama.cpp contexts.
  \<^item> \<open>Scheduler\<close>: the batching worker of the llama.cpp pool (\<open>detail/llama_scheduler_impl.hpp\<close>) as a step
    relation over all interleavings; no request is lost, answered twice or out of order.
  \<^item> \<open>GgufProbe\<close>, \<open>GgufWeights\<close>, \<open>GgufSession\<close>: inspection of GGUF headers, loading and binding of the
    weights and the sparse session (\<open>detail/gguf/\<close>).

  \<^bold>\<open>Contexts.\<close> Creation, the embedding calls on either backend and the introspection of the four kinds of context.
  The main properties say that a call returns for every input what embedding that input alone gives, whatever the
  batch size, the padding and the content of the cache.
  \<^item> \<open>TextBackends\<close>, \<open>TextEmbedding\<close>, \<open>TextCreate\<close>: dense texts (\<open>detail/text_embedding_impl.hpp\<close>,
    \<open>text_embedding_onnx_impl.hpp\<close>, \<open>text_embedding_llama_impl.hpp\<close>).
  \<^item> \<open>Reranker\<close>, \<open>RerankerCreate\<close>: \<open>detail/reranker_impl.hpp\<close>, \<open>detail/reranker_llama_impl.hpp\<close>.
  \<^item> \<open>SparseEmbedding\<close>, \<open>SparseCreate\<close>: \<open>sparse_text_embedding.h\<close>, \<open>detail/sparse_text_embedding_gguf_impl.hpp\<close>.
  \<^item> \<open>ImageEmbedding\<close>: \<open>image_embedding.h\<close>.
  \<^item> \<open>EmbeddingPool\<close>: the C++ pool of contexts (\<open>cpp/embedding_pool.hpp\<close>), with the streaming call as a step
    relation of the main thread and its worker threads, a data race being an outcome.

  \<^bold>\<open>Files, tuning and selection.\<close>
  \<^item> \<open>Downloader\<close>, \<open>ModelStore\<close>: the cache of model files and its entry points (\<open>detail/downloader_impl.hpp\<close>,
    \<open>detail/download_manager.hpp\<close>, \<open>detail/gguf_registry_impl.hpp\<close>, \<open>downloader.h\<close>).
  \<^item> \<open>CacheText\<close>, \<open>CacheFiles\<close>, \<open>TuneCache\<close>, \<open>CpuInfo\<close>: the tuning caches and the description of the machine
    (\<open>detail/autotune_cache.hpp\<close>, \<open>detail/autotune_cache_impl.hpp\<close>); what is saved is read back, and a write is never
    seen in part.
  \<^item> \<open>QuantAuto\<close>, \<open>QuantSelect\<close>: the choice of a quantization (\<open>detail/quantization_auto_impl.hpp\<close>,
    \<open>quantization_auto_entry.hpp\<close>).
  \<^item> \<open>TuneBench\<close>, \<open>AutotuneText\<close>, \<open>AutotuneReranker\<close>, \<open>AutotuneTasks\<close>: the auto-tuners
    (\<open>detail/autotune_bench_*.hpp\<close>, \<open>detail/autotuner_impl.hpp\<close>).
  \<^item> \<open>ModelSelect\<close>, \<open>EmbeddingBenchmark\<close>, \<open>UnifiedBenchmark\<close>: the selection of models and the benchmarks
    (\<open>detail/model_selector.hpp\<close>, \<open>detail/embedding_mode_impl.hpp\<close>, \<open>detail/embedding_benchmark_impl.hpp\<close>,
    \<open>detail/unified_benchmark_impl.hpp\<close>, and entry points of \<open>src/python/csrc/libembedding_shlib.cpp\<close>).

  \<^bold>\<open>Conventions.\<close> Records of the model are the classes and structs of the source, results with a status are
  sums or options, \<open>size_t\<close> is \<open>nat\<close>, an \<open>int\<close> is \<open>int\<close> with its bounds where overflow is possible, a hash is a
  64-bit word. Undefined behaviour is a value of its own, \<open>None\<close>, \<open>Undef\<close> or \<open>Undefined\<close>. Floating-point numbers are
  elements of an ordered field, without rounding except where a theory takes the rounding as an argument.

  \<^bold>\<open>Bounds.\<close> Three kinds of \<open>int\<close> are kept without their bounds. The products that index the tokens of one batch on the
  ONNX backends (\<open>i * seq_len + j\<close>, also through \<open>(int) shape[k]\<close>) overflow only if a batch has more than \<open>2^31\<close> tokens
  or values. The counters of calls overflow after \<open>2^31\<close> calls. In the tuning of one model the same configuration, which the quick grid
  repeats on a machine of fewer than eight cores, is given the same time. A download takes what the file holds after
  \<open>fclose\<close> from the environment, so a failing \<open>fclose\<close> is a transfer that stores less.

  \<^bold>\<open>Arguments of the model.\<close> Code outside the repository is never defined here. It is an argument of the
  definitions that use it: \<open>std::sort\<close> (a permutation sorted by the comparison), the clock and \<open>malloc\<close>, the
  cJSON parser, the gguf file reader and ggml (a parsed header and a function from weights and inputs to
  logits), ONNX Runtime and llama.cpp (which calls fail and what an inference returns), the image decoder and resizer,
  the network, \<open>std::stod\<close>, square root and logarithm, and the outcome of system calls.

  \<^bold>\<open>Loops.\<close> A loop of the modelled code is a terminating recursion, with two exceptions, and no fuel is used.
  \<open>BpeLoop\<close> runs the merge loop as \<open>while_option\<close> and proves that it ends; \<open>UnifiedBenchmark\<close> has a loop that may
  run forever as a partial function whose value is then \<open>None\<close>, and proves when it ends. The worker loop of the
  scheduler is unbounded and is a relation; what it achieves in as many rounds as there are requests is
  stated for the function that runs it.

  \<^bold>\<open>Not modelled.\<close> Inference itself, with the graph that \<open>detail/gguf/gguf_bert_graph.hpp\<close> builds for ggml, the
  provider configuration of builds other than the CPU build for Linux, the thin C++ classes that wrap the C interface
  (\<open>cpp/embedding_model.hpp\<close> and its siblings), the Python bindings, the tests and the vendored code.
\<close>

end
